(* ===== verification/Prelude.thy ===== *)
theory Prelude
  imports Main "HOL-Library.List_Lexorder" "HOL-Library.Char_ord"
    "HOL-Library.Product_Lexorder" "HOL-Library.Sublist" "HOL-Library.Multiset"
begin

text \<open>
  Shared vocabulary of the development: results that carry a Go error, instants and
  durations of the \<open>time\<close> package, the byte-string helpers of \<open>strings\<close> and
  \<open>encoding/hex\<close> that the sources call, a fold of a fallible step over a list of events,
  and the generic lemmas the component theories rest on.
  The collection \<open>res_inv\<close> holds the equivalences that invert a chain of early returns.
\<close>

named_theorems res_inv \<open>inversion of a chain of early returns that succeeded\<close>

section \<open>Results, instants, durations\<close>

datatype error = Error string

type_synonym 'a res = "error + 'a"

text \<open>
  An instant is a number of nanoseconds since the zero \<open>time.Time\<close>, so \<open>IsZero\<close> is
  equality with 0 and \<open>UTC()\<close> is the identity. \<open>Time.Sub\<close> saturates at the bounds of the
  64-bit \<open>time.Duration\<close>.
\<close>

type_synonym time = int
type_synonym duration = int

definition time_sub :: "time \<Rightarrow> time \<Rightarrow> duration" where
  "time_sub a b = max (- (2 ^ 63)) (min (2 ^ 63 - 1) (a - b))"

definition is_Inr :: "'e + 'a \<Rightarrow> bool" where
  "is_Inr r = (case r of Inl _ \<Rightarrow> False | Inr _ \<Rightarrow> True)"

text \<open>\<open>fmt.Errorf\<close> with a wrapped error appends the inner message.\<close>

definition wrap :: "string \<Rightarrow> error \<Rightarrow> error" where
  "wrap context e = (case e of Error m \<Rightarrow> Error (context @ m))"

text \<open>A loop that may return an error: a fold that stops at the first \<open>Inl\<close>.\<close>

fun res_fold :: "('s \<Rightarrow> 'x \<Rightarrow> 'e + 's) \<Rightarrow> 's \<Rightarrow> 'x list \<Rightarrow> 'e + 's" where
  "res_fold f s [] = Inr s"
| "res_fold f s (x # xs) = (case f s x of Inl e \<Rightarrow> Inl e | Inr s' \<Rightarrow> res_fold f s' xs)"

section \<open>Byte strings\<close>

text \<open>
  \<open>strings.TrimSpace\<close> removes the runes of \<open>unicode.IsSpace\<close> at both ends; a rune is given by
  its UTF-8 bytes, since a Go string is a byte string.
\<close>

definition space_runes :: "string list" where
  "space_runes =
     [[CHR 0x09], [CHR 0x0A], [CHR 0x0B], [CHR 0x0C], [CHR 0x0D], [CHR 0x20],
      [CHR 0xC2, CHR 0x85], [CHR 0xC2, CHR 0xA0], [CHR 0xE1, CHR 0x9A, CHR 0x80],
      [CHR 0xE2, CHR 0x80, CHR 0x80], [CHR 0xE2, CHR 0x80, CHR 0x81],
      [CHR 0xE2, CHR 0x80, CHR 0x82], [CHR 0xE2, CHR 0x80, CHR 0x83],
      [CHR 0xE2, CHR 0x80, CHR 0x84], [CHR 0xE2, CHR 0x80, CHR 0x85],
      [CHR 0xE2, CHR 0x80, CHR 0x86], [CHR 0xE2, CHR 0x80, CHR 0x87],
      [CHR 0xE2, CHR 0x80, CHR 0x88], [CHR 0xE2, CHR 0x80, CHR 0x89],
      [CHR 0xE2, CHR 0x80, CHR 0x8A], [CHR 0xE2, CHR 0x80, CHR 0xA8],
      [CHR 0xE2, CHR 0x80, CHR 0xA9], [CHR 0xE2, CHR 0x80, CHR 0xAF],
      [CHR 0xE2, CHR 0x81, CHR 0x9F], [CHR 0xE3, CHR 0x80, CHR 0x80]]"

text \<open>Strip leading members of a list of byte sequences; each round shortens the string.\<close>

function strip_front :: "string list \<Rightarrow> string \<Rightarrow> string" where
  "strip_front ws s =
     (case find (\<lambda>w. w \<noteq> [] \<and> prefix w s) ws of
        None \<Rightarrow> s
      | Some w \<Rightarrow> strip_front ws (drop (length w) s))"
  by pat_completeness auto
termination
proof (relation "measure (\<lambda>(ws, s). length s)", goal_cases)
  case 1
  show ?case by simp
next
  case (2 ws s w)
  then have "w \<noteq> []" and "prefix w s"
    by (auto simp: find_Some_iff)
  then show ?case by (cases w; cases s) auto
qed

declare strip_front.simps [simp del]

definition TrimSpace :: "string \<Rightarrow> string" where
  "TrimSpace s = rev (strip_front (map rev space_runes) (rev (strip_front space_runes s)))"

text \<open>\<open>strings.ContainsAny\<close>, \<open>HasPrefix\<close>, \<open>TrimPrefix\<close>, \<open>TrimSuffix\<close> and \<open>Cut\<close>.\<close>

definition ContainsAny :: "string \<Rightarrow> string \<Rightarrow> bool" where
  "ContainsAny s chars = list_ex (\<lambda>c. c \<in> set chars) s"

definition TrimPrefix :: "string \<Rightarrow> string \<Rightarrow> string" where
  "TrimPrefix s p = (if prefix p s then drop (length p) s else s)"

definition TrimSuffix :: "string \<Rightarrow> string \<Rightarrow> string" where
  "TrimSuffix s p = (if suffix p s then take (length s - length p) s else s)"

fun Cut :: "string \<Rightarrow> string \<Rightarrow> (string \<times> string) option" where
  "Cut [] sep = (if sep = [] then Some ([], []) else None)"
| "Cut (c # s) sep =
     (if prefix sep (c # s) then Some ([], drop (length sep) (c # s))
      else map_option (\<lambda>(a, b). (c # a, b)) (Cut s sep))"

text \<open>\<open>encoding/hex\<close>: decoding accepts both cases, encoding writes lower case.\<close>

definition hex_table :: string where
  "hex_table = ''0123456789abcdef''"

definition hex_value :: "char \<Rightarrow> nat option" where
  "hex_value c =
     (let n = of_char c :: nat in
      if 48 \<le> n \<and> n \<le> 57 then Some (n - 48)
      else if 97 \<le> n \<and> n \<le> 102 then Some (n - 87)
      else if 65 \<le> n \<and> n \<le> 70 then Some (n - 55)
      else None)"

fun hex_decode :: "string \<Rightarrow> string option" where
  "hex_decode [] = Some []"
| "hex_decode [c] = None"
| "hex_decode (a # b # s) =
     (case (hex_value a, hex_value b, hex_decode s) of
        (Some x, Some y, Some t) \<Rightarrow> Some (char_of (16 * x + y) # t)
      | _ \<Rightarrow> None)"

definition hex_encode :: "string \<Rightarrow> string" where
  "hex_encode s =
     concat (map (\<lambda>c. [hex_table ! (of_char c div 16), hex_table ! (of_char c mod 16)]) s)"

definition lower_hex :: "char \<Rightarrow> bool" where
  "lower_hex c = (c \<in> set hex_table)"

section \<open>Lemmas\<close>

lemma res_case_Inr [res_inv]:
  "(case x of Inl e \<Rightarrow> Inl (g e) | Inr y \<Rightarrow> f y) = Inr z \<longleftrightarrow> (\<exists>y. x = Inr y \<and> f y = Inr z)"
  by (cases x) auto

lemma opt_case_Inr [res_inv]:
  "(case x of None \<Rightarrow> Inl e | Some y \<Rightarrow> f y) = Inr z \<longleftrightarrow> (\<exists>y. x = Some y \<and> f y = Inr z)"
  by (cases x) auto

lemma if_Inl_Inr [res_inv]: "(if b then Inl e else r) = Inr z \<longleftrightarrow> \<not> b \<and> r = Inr z"
  by simp

lemma if_Inr_Inl [res_inv]: "(if b then r else Inl e) = Inr z \<longleftrightarrow> b \<and> r = Inr z"
  by simp

lemma is_Inr_simps [simp]: "is_Inr (Inr x)" "\<not> is_Inr (Inl e)"
  by (simp_all add: is_Inr_def)

lemma is_Inr_iff: "is_Inr r \<longleftrightarrow> (\<exists>x. r = Inr x)"
  by (cases r) simp_all

lemma res_fold_append:
  "res_fold f s (xs @ ys) =
     (case res_fold f s xs of Inl e \<Rightarrow> Inl e | Inr s' \<Rightarrow> res_fold f s' ys)"
  by (induction xs arbitrary: s) (auto split: sum.splits)

lemma res_fold_snoc:
  "res_fold f s (xs @ [x]) = Inr t \<longleftrightarrow> (\<exists>s'. res_fold f s xs = Inr s' \<and> f s' x = Inr t)"
  by (auto simp: res_fold_append split: sum.splits)

lemma res_fold_prefix:
  assumes "res_fold f s ys = Inr t" and "prefix xs ys"
  shows "\<exists>u. res_fold f s xs = Inr u"
  using assms by (auto simp: prefix_def res_fold_append split: sum.splits)

lemma time_sub_pos: "0 < time_sub a b \<longleftrightarrow> b < a"
  by (auto simp: time_sub_def min_def max_def)

lemma time_sub_le: "d \<le> 2 ^ 63 - 1 \<Longrightarrow> 0 \<le> d \<Longrightarrow> time_sub a b \<le> d \<Longrightarrow> d < 2 ^ 63 - 1 \<Longrightarrow> a - b \<le> d"
  by (auto simp: time_sub_def min_def max_def split: if_splits)

lemma time_sub_bounds: "- (2 ^ 63) \<le> time_sub a b \<and> time_sub a b < 2 ^ 63"
  by (auto simp: time_sub_def)

text \<open>A sort by a key that identifies the elements depends on the multiset alone.\<close>

lemma sort_key_sorted_id:
  assumes "distinct (map f xs)" and "sorted (map f xs)"
  shows "sort_key f xs = xs"
  using assms by (intro sort_key_inj_key_eq) (auto simp: distinct_map)

lemma sort_key_mset_cong:
  assumes "mset xs = mset ys" and "distinct (map f xs)"
  shows "sort_key f xs = sort_key f ys"
  using assms by (intro sort_key_eq_sort_key) (auto simp: distinct_map)

lemma mset_eq_distinct_map:
  assumes "mset xs = mset ys"
  shows "distinct (map f xs) \<longleftrightarrow> distinct (map f ys)"
  by (metis assms mset_eq_imp_distinct_iff mset_map)

subsection \<open>Hexadecimal\<close>

lemma hex_value_less: "hex_value c = Some x \<Longrightarrow> x < 16"
  by (auto simp: hex_value_def Let_def split: if_splits)

lemma hex_table_lower: "x < 16 \<Longrightarrow> lower_hex (hex_table ! x)"
  unfolding lower_hex_def by (rule nth_mem) (simp add: hex_table_def)

lemma hex_encode_Cons:
  "hex_encode (c # s) =
     hex_table ! (of_char c div 16) # hex_table ! (of_char c mod 16) # hex_encode s"
  by (simp add: hex_encode_def)

lemma hex_encode_Nil [simp]: "hex_encode [] = []"
  by (simp add: hex_encode_def)

lemma length_hex_encode [simp]: "length (hex_encode s) = 2 * length s"
  by (induction s) (simp_all add: hex_encode_Cons)

lemma of_char_div_16: "of_char (c :: char) div 16 < (16 :: nat)"
  by (rule less_mult_imp_div_less) simp

lemma hex_encode_lower: "c \<in> set (hex_encode s) \<Longrightarrow> lower_hex c"
  by (induction s) (auto simp: hex_encode_Cons hex_table_lower of_char_div_16)

lemma hex_value_table: "x < 16 \<Longrightarrow> hex_value (hex_table ! x) = Some x"
  by (simp add: numeral_eq_Suc less_Suc_eq) (elim disjE; simp add: hex_table_def hex_value_def Let_def)

lemma table_hex_value: "lower_hex c \<Longrightarrow> \<exists>x. hex_value c = Some x \<and> hex_table ! x = c"
  by (auto simp: lower_hex_def hex_table_def hex_value_def Let_def)

lemma hex_decode_encode: "hex_decode (hex_encode s) = Some s"
  by (induction s) (simp_all add: hex_encode_Cons hex_value_table of_char_div_16)

lemma hex_encode_inject: "hex_encode s = hex_encode t \<longleftrightarrow> s = t"
  by (metis hex_decode_encode option.inject)

lemma lower_hex_decode:
  assumes "even (length s)" and "\<forall>c \<in> set s. lower_hex c"
  shows "\<exists>b. hex_decode s = Some b \<and> hex_encode b = s"
  using assms
proof (induction s rule: hex_decode.induct)
  case (3 a b s)
  then obtain t where t: "hex_decode s = Some t" "hex_encode t = s" by auto
  from 3 obtain x y where x: "hex_value a = Some x" "hex_table ! x = a"
    and y: "hex_value b = Some y" "hex_table ! y = b"
    using table_hex_value by (meson list.set_intros)
  with hex_value_less have "x < 16" "y < 16" by blast+
  then have "16 * x + y < 256" by simp
  with t x y \<open>y < 16\<close> show ?case by (simp add: hex_encode_Cons)
qed auto

subsection \<open>Trimming\<close>

lemma strip_front_suffix: "suffix (strip_front ws s) s"
proof (induction ws s rule: strip_front.induct)
  case (1 ws s)
  show ?case
  proof (cases "find (\<lambda>w. w \<noteq> [] \<and> prefix w s) ws")
    case None
    then show ?thesis by (simp add: strip_front.simps [of ws s])
  next
    case (Some w)
    with 1 have "suffix (strip_front ws (drop (length w) s)) (drop (length w) s)" by simp
    moreover have "suffix (drop (length w) s) s" by (rule suffix_drop)
    ultimately have "suffix (strip_front ws (drop (length w) s)) s"
      by (rule suffix_order.trans)
    with Some show ?thesis by (simp add: strip_front.simps [of ws s])
  qed
qed

lemma strip_front_clean: "w \<in> set ws \<Longrightarrow> w \<noteq> [] \<Longrightarrow> \<not> prefix w (strip_front ws s)"
proof (induction ws s rule: strip_front.induct)
  case (1 ws s)
  show ?case
  proof (cases "find (\<lambda>w. w \<noteq> [] \<and> prefix w s) ws")
    case None
    then have "strip_front ws s = s" by (subst strip_front.simps) simp
    with None 1(2,3) show ?thesis by (auto simp: find_None_iff)
  next
    case (Some v)
    then have "strip_front ws s = strip_front ws (drop (length v) s)" by (subst strip_front.simps) simp
    with 1(1) [OF Some 1(2,3)] show ?thesis by simp
  qed
qed

lemma strip_front_id: "(\<And>w. w \<in> set ws \<Longrightarrow> w \<noteq> [] \<Longrightarrow> \<not> prefix w s) \<Longrightarrow> strip_front ws s = s"
  by (subst strip_front.simps) (auto simp: find_None_iff split: option.splits dest: find_Some_iff [THEN iffD1])

lemma TrimSpace_idem: "TrimSpace (TrimSpace s) = TrimSpace s"
proof -
  let ?t = "strip_front space_runes s"
  let ?r = "strip_front (map rev space_runes) (rev ?t)"
  have "prefix (rev ?r) ?t" using strip_front_suffix [of "map rev space_runes" "rev ?t"] by (simp add: suffix_to_prefix)
  then have "\<not> prefix w (rev ?r)" if "w \<in> set space_runes" "w \<noteq> []" for w
    using strip_front_clean [OF that, of s] prefix_order.trans by blast
  then have "strip_front space_runes (rev ?r) = rev ?r" by (intro strip_front_id)
  moreover have "strip_front (map rev space_runes) ?r = ?r" using strip_front_clean by (intro strip_front_id) blast
  ultimately show ?thesis by (simp add: TrimSpace_def)
qed

text \<open>
  The history locale: a step that keeps an invariant and moves along a preorder lifts to
  every replay of a list of events.
\<close>

locale guarded_replay =
  fixes step :: "'s \<Rightarrow> 'x \<Rightarrow> 'e + 's"
    and inv :: "'s \<Rightarrow> bool"
    and rel :: "'s \<Rightarrow> 's \<Rightarrow> bool"
  assumes step_inv: "inv s \<Longrightarrow> step s x = Inr t \<Longrightarrow> inv t"
    and step_rel: "inv s \<Longrightarrow> step s x = Inr t \<Longrightarrow> rel s t"
    and rel_refl: "rel s s"
    and rel_trans: "rel s t \<Longrightarrow> rel t u \<Longrightarrow> rel s u"
begin

lemma replay_inv: "inv s \<Longrightarrow> res_fold step s xs = Inr t \<Longrightarrow> inv t"
  by (induction xs arbitrary: s) (auto split: sum.splits dest: step_inv)

lemma replay_rel: "inv s \<Longrightarrow> res_fold step s xs = Inr t \<Longrightarrow> rel s t"
proof (induction xs arbitrary: s)
  case Nil
  then show ?case by (simp add: rel_refl)
next
  case (Cons x xs)
  then obtain s' where s': "step s x = Inr s'" "res_fold step s' xs = Inr t"
    by (auto split: sum.splits)
  with Cons show ?case by (meson rel_trans step_inv step_rel)
qed

lemma replay_split:
  assumes "inv s" and "res_fold step s (xs @ ys) = Inr u"
  obtains t where "res_fold step s xs = Inr t" "res_fold step t ys = Inr u" "inv t" "rel s t" "rel t u"
  using assms replay_inv replay_rel by (auto simp: res_fold_append split: sum.splits)

end

section \<open>Programs over an external world\<close>

text \<open>
  A method that calls the API server reads and changes a world it does not own: it maps a world to
  a result and the world after it. \<open>io_bind\<close> is the sequence \<open>x, err := m(); if err != nil { return err }\<close>.
\<close>

type_synonym ('w, 'a) io = "'w \<Rightarrow> 'a res \<times> 'w"

definition io_lift :: "'a res \<Rightarrow> ('w, 'a) io" where
  "io_lift r w = (r, w)"

definition io_bind :: "('w, 'a) io \<Rightarrow> ('a \<Rightarrow> ('w, 'b) io) \<Rightarrow> ('w, 'b) io" where
  "io_bind m f w = (case m w of (Inl e, w') \<Rightarrow> (Inl e, w') | (Inr x, w') \<Rightarrow> f x w')"

definition guard :: "bool \<Rightarrow> string \<Rightarrow> unit res" where
  "guard b msg = (if b then Inr () else Inl (Error msg))"

lemma io_bind_Inr [res_inv]:
  "io_bind m f w = (Inr y, w') \<longleftrightarrow> (\<exists>x w1. m w = (Inr x, w1) \<and> f x w1 = (Inr y, w'))"
  by (auto simp: io_bind_def split: prod.splits sum.splits)

lemma io_lift_eq [res_inv]: "io_lift r w = (x, w') \<longleftrightarrow> r = x \<and> w' = w"
  by (auto simp: io_lift_def)

lemma guard_Inr [res_inv]: "guard b msg = Inr u \<longleftrightarrow> b"
  by (simp add: guard_def)

section \<open>Loops with fuel\<close>

text \<open>
  A fuelled loop that continues only by visiting a new element of a finite set does not run out of
  fuel when there is more fuel than unvisited elements.
\<close>

lemma walk_total:
  fixes loop :: "nat \<Rightarrow> 'k set \<Rightarrow> 'c \<Rightarrow> 'w \<Rightarrow> 'r option"
  assumes "finite U"
    and step: "\<And>n seen c w. loop (Suc n) seen c w = None \<Longrightarrow> \<exists>k c' w'. k \<in> U - seen \<and> loop n (insert k seen) c' w' = None"
    and "card (U - seen) < n"
  shows "loop n seen c w \<noteq> None"
  using assms(3)
proof (induction n arbitrary: seen c w)
  case (Suc n)
  show ?case
  proof
    assume "loop (Suc n) seen c w = None"
    then obtain k c' w' where k: "k \<in> U - seen" and none: "loop n (insert k seen) c' w' = None" using step by blast
    have "card (U - insert k seen) < card (U - seen)" using assms(1) k by (intro psubset_card_mono) auto
    with Suc.prems have "card (U - insert k seen) < n" by simp
    with Suc.IH none show False by blast
  qed
qed simp

end
