(* ===== verification/Round.thy ===== *)
theory Round
  imports Prelude
begin

text \<open>
  Phase rounds of a generation handover (\<open>controller/pkg/handover/round.go\<close>): the round and
  receipt records, the canonical form of a round, its digest, and the validation of receipts
  against the current round.
  WireGuard key parsing (\<open>wgtypes.ParseKey\<close>, \<open>Key.String\<close>), SHA-256 and the JSON text of a
  round are parameters, the fields of \<open>round_env\<close>; the theorems hold for every choice of them
  that satisfies the hypotheses they name.
\<close>

section \<open>Data\<close>

datatype phase = Prepare | Switch | Drain | Retire | Abort | OtherPhase string

record member =
  m_nodeUID :: string
  m_fromKey :: string
  m_toKey :: string
  m_deviceID :: string
  m_fromPeerKey :: string
  m_toPeerKey :: string

record spec =
  clusterUID :: string
  transitionUID :: string
  planHash :: string
  fromGeneration :: string
  toGeneration :: string
  phase :: phase
  members :: "member list"

record round =
  rspec :: spec
  nonce :: string
  issuedAt :: time
  expiresAt :: time
  maxReceiptAge :: duration

record receipt =
  observedBootID :: string
  agentPodName :: string
  agentPodUID :: string
  agentContainerName :: string
  agentContainerID :: string
  roundHash :: string
  r_nodeUID :: string
  r_fromKey :: string
  r_toKey :: string
  observedAt :: time
  r_deviceID :: string
  r_fromPeerKey :: string
  r_toPeerKey :: string

record authenticated_receipt =
  authenticatedNodeUID :: string
  a_receipt :: receipt

text \<open>
  The functions the package calls outside the repository. A parsed key is its 32 raw bytes;
  \<open>marshal_round\<close> is \<open>json.Marshal\<close> of the domain-separated round and may fail;
  \<open>json_round\<close> is the first value a strict decoder reads, with whether the input ends there.
\<close>

record round_env =
  ParseKey :: "string \<Rightarrow> string option"
  KeyString :: "string \<Rightarrow> string"
  sha256 :: "string \<Rightarrow> string"
  marshal_round :: "round \<Rightarrow> string option"
  json_round :: "string \<Rightarrow> (round \<times> bool) option"

abbreviation ident :: "member \<Rightarrow> string \<times> string" where
  "ident m \<equiv> (m_nodeUID m, m_deviceID m)"

abbreviation rident :: "receipt \<Rightarrow> string \<times> string" where
  "rident r \<equiv> (r_nodeUID r, r_deviceID r)"

definition zero_key :: string where
  "zero_key = replicate 32 (CHR 0x00)"

section \<open>Canonical rounds\<close>

definition token :: "string \<Rightarrow> bool" where
  "token s = (s \<noteq> [] \<and> TrimSpace s = s)"

definition hexToken :: "string \<Rightarrow> nat \<Rightarrow> bool" where
  "hexToken s n = (case hex_decode s of None \<Rightarrow> False | Some b \<Rightarrow> length b = n \<and> hex_encode b = s)"

text \<open>The maps the member loop fills.\<close>

record canon_state =
  cs_members :: "(string \<times> string) set"
  cs_legacyKeys :: "string set"
  cs_owners :: "string \<rightharpoonup> string"
  cs_pairs :: "(string \<times> string) set"

definition canon_init :: canon_state where
  "canon_init = \<lparr>cs_members = {}, cs_legacyKeys = {}, cs_owners = Map.empty, cs_pairs = {}\<rparr>"

text \<open>One iteration of the inner loop over the two generations of a member.\<close>

definition canonical_generation ::
  "'a round_env_scheme \<Rightarrow> bool \<Rightarrow> string \<Rightarrow> canon_state \<Rightarrow> string \<Rightarrow> string \<Rightarrow>
   (canon_state \<times> string \<times> string) res" where
  "canonical_generation env transports node st local remote =
     (case ParseKey env local of
        None \<Rightarrow> Inl (Error ''invalid generation device key'')
      | Some key \<Rightarrow>
          if key = zero_key then Inl (Error ''invalid generation device key'')
          else if \<not> transports then
            (if key \<in> cs_legacyKeys st then Inl (Error ''reused generation device key'')
             else Inr (st\<lparr>cs_legacyKeys := insert key (cs_legacyKeys st)\<rparr>, KeyString env key, remote))
          else if (case cs_owners st key of None \<Rightarrow> False | Some owner \<Rightarrow> owner \<noteq> node)
            then Inl (Error ''device key belongs to another node'')
          else
            (case ParseKey env remote of
               None \<Rightarrow> Inl (Error ''invalid transport peer key'')
             | Some peer \<Rightarrow>
                 if peer = zero_key \<or> peer = key then Inl (Error ''invalid transport peer key'')
                 else if (key, peer) \<in> cs_pairs st then Inl (Error ''reused transport key pair'')
                 else Inr (st\<lparr>cs_owners := (cs_owners st)(key \<mapsto> node),
                              cs_pairs := insert (key, peer) (cs_pairs st)\<rparr>,
                           KeyString env key, KeyString env peer)))"

definition canonical_member ::
  "'a round_env_scheme \<Rightarrow> bool \<Rightarrow> canon_state \<Rightarrow> member \<Rightarrow> (canon_state \<times> member) res" where
  "canonical_member env transports st m =
     (if \<not> token (m_nodeUID m) \<or> ident m \<in> cs_members st \<or> (m_deviceID m \<noteq> []) \<noteq> transports
        then Inl (Error ''invalid or duplicate handover member'')
      else if transports \<and> \<not> token (m_deviceID m)
        then Inl (Error ''invalid transport identity'')
      else if \<not> transports \<and> (m_fromPeerKey m \<noteq> [] \<or> m_toPeerKey m \<noteq> [])
        then Inl (Error ''peer identities require a transport identity'')
      else
        (case canonical_generation env transports (m_nodeUID m)
                (st\<lparr>cs_members := insert (ident m) (cs_members st)\<rparr>) (m_fromKey m) (m_fromPeerKey m) of
           Inl e \<Rightarrow> Inl e
         | Inr (st1, fk, fp) \<Rightarrow>
             (case canonical_generation env transports (m_nodeUID m) st1 (m_toKey m) (m_toPeerKey m) of
                Inl e \<Rightarrow> Inl e
              | Inr (st2, tk, tp) \<Rightarrow>
                  Inr (st2, m\<lparr>m_fromKey := fk, m_toKey := tk, m_fromPeerKey := fp, m_toPeerKey := tp\<rparr>))))"

fun canonical_members ::
  "'a round_env_scheme \<Rightarrow> bool \<Rightarrow> canon_state \<Rightarrow> member list \<Rightarrow> member list res" where
  "canonical_members env transports st [] = Inr []"
| "canonical_members env transports st (m # ms) =
     (case canonical_member env transports st m of
        Inl e \<Rightarrow> Inl e
      | Inr (st', m') \<Rightarrow>
          (case canonical_members env transports st' ms of
             Inl e \<Rightarrow> Inl e
           | Inr ms' \<Rightarrow> Inr (m' # ms')))"

definition known_phase :: "phase \<Rightarrow> bool" where
  "known_phase p = (case p of OtherPhase _ \<Rightarrow> False | _ \<Rightarrow> True)"

definition canonical :: "'a round_env_scheme \<Rightarrow> round \<Rightarrow> round res" where
  "canonical env r =
     (let s = rspec r in
      if \<not> token (clusterUID s) \<or> \<not> token (transitionUID s) \<or> \<not> token (fromGeneration s) \<or>
         \<not> token (toGeneration s) \<or> fromGeneration s = toGeneration s \<or>
         \<not> hexToken (planHash s) 32 \<or> \<not> hexToken (nonce r) 16
        then Inl (Error ''invalid handover round identity'')
      else if \<not> known_phase (phase s) then Inl (Error ''invalid handover phase'')
      else if issuedAt r = 0 \<or> \<not> issuedAt r < expiresAt r \<or> maxReceiptAge r \<le> 0 \<or>
              time_sub (expiresAt r) (issuedAt r) < maxReceiptAge r
        then Inl (Error ''invalid handover round lifetime'')
      else
        (case members s of
           [] \<Rightarrow> Inl (Error ''empty handover membership'')
         | m # _ \<Rightarrow>
             (case canonical_members env (m_deviceID m \<noteq> []) canon_init (members s) of
                Inl e \<Rightarrow> Inl e
              | Inr ms \<Rightarrow> Inr (r\<lparr>rspec := s\<lparr>members := sort_key ident ms\<rparr>\<rparr>))))"

text \<open>\<open>NewRound\<close>: the nonce bytes are those \<open>crypto/rand\<close> returned, \<open>None\<close> when reading failed.\<close>

definition NewRound ::
  "'a round_env_scheme \<Rightarrow> string option \<Rightarrow> spec \<Rightarrow> time \<Rightarrow> duration \<Rightarrow> duration \<Rightarrow> round res" where
  "NewRound env rand s now lifetime maxAge =
     (case rand of
        None \<Rightarrow> Inl (Error ''rand'')
      | Some bytes \<Rightarrow>
          canonical env \<lparr>rspec = s, nonce = hex_encode bytes, issuedAt = now,
                         expiresAt = now + lifetime, maxReceiptAge = maxAge\<rparr>)"

definition DecodeRound :: "'a round_env_scheme \<Rightarrow> string \<Rightarrow> round res" where
  "DecodeRound env raw =
     (case json_round env raw of
        None \<Rightarrow> Inl (Error ''json'')
      | Some (r, eof) \<Rightarrow> if \<not> eof then Inl (Error ''trailing handover state'') else canonical env r)"

definition canonicalDigest :: "'a round_env_scheme \<Rightarrow> round \<Rightarrow> string res" where
  "canonicalDigest env r =
     (case marshal_round env r of
        None \<Rightarrow> Inl (Error ''json'')
      | Some raw \<Rightarrow> Inr (hex_encode (sha256 env raw)))"

definition Digest :: "'a round_env_scheme \<Rightarrow> round \<Rightarrow> string res" where
  "Digest env r =
     (case canonical env r of Inl e \<Rightarrow> Inl e | Inr normalized \<Rightarrow> canonicalDigest env normalized)"

section \<open>Receipt validation\<close>

record receipt_validator =
  v_round :: round
  v_digest :: string
  v_members :: "string \<times> string \<rightharpoonup> member"

definition receiptValidator :: "'a round_env_scheme \<Rightarrow> round \<Rightarrow> receipt_validator res" where
  "receiptValidator env r =
     (case canonicalDigest env r of
        Inl e \<Rightarrow> Inl e
      | Inr digest \<Rightarrow>
          Inr \<lparr>v_round = r, v_digest = digest,
               v_members = fold (\<lambda>m f. f(ident m \<mapsto> m)) (members (rspec r)) Map.empty\<rparr>)"

fun validate_each ::
  "receipt_validator \<Rightarrow> time \<Rightarrow> (string \<times> string) set \<Rightarrow> authenticated_receipt list \<Rightarrow> unit res" where
  "validate_each v now seen [] = Inr ()"
| "validate_each v now seen (a # as) =
     (let r = a_receipt a; rnd = v_round v in
      (case v_members v (rident r) of
         None \<Rightarrow> Inl (Error ''receipt node identity mismatch or duplicate'')
       | Some m \<Rightarrow>
           if rident r \<in> seen \<or> authenticatedNodeUID a \<noteq> r_nodeUID r
             then Inl (Error ''receipt node identity mismatch or duplicate'')
           else if roundHash r \<noteq> v_digest v \<or> r_fromKey r \<noteq> m_fromKey m \<or> r_toKey r \<noteq> m_toKey m \<or>
                   r_fromPeerKey r \<noteq> m_fromPeerKey m \<or> r_toPeerKey r \<noteq> m_toPeerKey m
             then Inl (Error ''receipt does not bind the current round and devices'')
           else if observedAt r < issuedAt rnd \<or> now < observedAt r \<or>
                   maxReceiptAge rnd < time_sub now (observedAt r)
             then Inl (Error ''receipt observation is stale or in the future'')
           else validate_each v now (insert (rident r) seen) as))"

definition validate ::
  "receipt_validator \<Rightarrow> time \<Rightarrow> authenticated_receipt list \<Rightarrow> bool \<Rightarrow> unit res" where
  "validate v now receipts complete =
     (let r = v_round v; n = length (members (rspec r)) in
      if now < issuedAt r \<or> \<not> now < expiresAt r then Inl (Error ''handover round is not current'')
      else if receipts = [] \<or> n < length receipts \<or> (complete \<and> length receipts \<noteq> n)
        then Inl (Error ''incomplete handover receipts'')
      else validate_each v now {} receipts)"

definition validateReceipts ::
  "'a round_env_scheme \<Rightarrow> round \<Rightarrow> time \<Rightarrow> authenticated_receipt list \<Rightarrow> bool \<Rightarrow> unit res" where
  "validateReceipts env r now receipts complete =
     (case canonical env r of
        Inl e \<Rightarrow> Inl e
      | Inr normalized \<Rightarrow>
          (case receiptValidator env normalized of
             Inl e \<Rightarrow> Inl e
           | Inr v \<Rightarrow> validate v now receipts complete))"

definition Ready ::
  "'a round_env_scheme \<Rightarrow> round \<Rightarrow> time \<Rightarrow> authenticated_receipt list \<Rightarrow> unit res" where
  "Ready env r now receipts = validateReceipts env r now receipts True"

definition ValidateReceipts ::
  "'a round_env_scheme \<Rightarrow> round \<Rightarrow> time \<Rightarrow> authenticated_receipt list \<Rightarrow> unit res" where
  "ValidateReceipts env r now receipts = validateReceipts env r now receipts False"


section \<open>What canonical rounds are\<close>

definition member_keys :: "'a round_env_scheme \<Rightarrow> member \<Rightarrow> string list" where
  "member_keys env m = [the (ParseKey env (m_fromKey m)), the (ParseKey env (m_toKey m))]"

definition member_pairs :: "'a round_env_scheme \<Rightarrow> member \<Rightarrow> (string \<times> string) list" where
  "member_pairs env m =
     [(the (ParseKey env (m_fromKey m)), the (ParseKey env (m_fromPeerKey m))),
      (the (ParseKey env (m_toKey m)), the (ParseKey env (m_toPeerKey m)))]"

definition norm_member :: "'a round_env_scheme \<Rightarrow> bool \<Rightarrow> member \<Rightarrow> member" where
  "norm_member env tr m =
     m\<lparr>m_fromKey := KeyString env (the (ParseKey env (m_fromKey m))),
       m_toKey := KeyString env (the (ParseKey env (m_toKey m))),
       m_fromPeerKey := (if tr then KeyString env (the (ParseKey env (m_fromPeerKey m))) else m_fromPeerKey m),
       m_toPeerKey := (if tr then KeyString env (the (ParseKey env (m_toPeerKey m))) else m_toPeerKey m)\<rparr>"

definition key_ok :: "'a round_env_scheme \<Rightarrow> string \<Rightarrow> bool" where
  "key_ok env s = (\<exists>k. ParseKey env s = Some k \<and> k \<noteq> zero_key)"

definition pair_ok :: "'a round_env_scheme \<Rightarrow> string \<Rightarrow> string \<Rightarrow> bool" where
  "pair_ok env s p = (key_ok env s \<and> key_ok env p \<and> ParseKey env s \<noteq> ParseKey env p)"

definition member_ok :: "'a round_env_scheme \<Rightarrow> bool \<Rightarrow> member \<Rightarrow> bool" where
  "member_ok env tr m =
     (token (m_nodeUID m) \<and> (m_deviceID m \<noteq> []) = tr \<and> key_ok env (m_fromKey m) \<and> key_ok env (m_toKey m) \<and>
      (if tr then token (m_deviceID m) \<and> pair_ok env (m_fromKey m) (m_fromPeerKey m) \<and>
                  pair_ok env (m_toKey m) (m_toPeerKey m)
       else m_fromPeerKey m = [] \<and> m_toPeerKey m = []))"

definition share_ok :: "'a round_env_scheme \<Rightarrow> member \<Rightarrow> member \<Rightarrow> bool" where
  "share_ok env m m' =
     (set (member_keys env m) \<inter> set (member_keys env m') \<noteq> {} \<longrightarrow> m_nodeUID m = m_nodeUID m')"

definition members_ok :: "'a round_env_scheme \<Rightarrow> bool \<Rightarrow> member list \<Rightarrow> bool" where
  "members_ok env tr ms =
     ((\<forall>m \<in> set ms. member_ok env tr m) \<and> distinct (map ident ms) \<and>
      (if tr then distinct (concat (map (member_pairs env) ms)) \<and>
           (\<forall>m \<in> set ms. \<forall>m' \<in> set ms. share_ok env m m')
       else distinct (concat (map (member_keys env) ms))))"

definition fits :: "'a round_env_scheme \<Rightarrow> bool \<Rightarrow> canon_state \<Rightarrow> member \<Rightarrow> bool" where
  "fits env tr st m =
     (ident m \<notin> cs_members st \<and>
      (if tr then distinct (member_pairs env m) \<and> set (member_pairs env m) \<inter> cs_pairs st = {} \<and>
            (\<forall>k \<in> set (member_keys env m). \<forall>o'. cs_owners st k = Some o' \<longrightarrow> o' = m_nodeUID m)
       else distinct (member_keys env m) \<and> set (member_keys env m) \<inter> cs_legacyKeys st = {}))"

definition absorb :: "'a round_env_scheme \<Rightarrow> bool \<Rightarrow> canon_state \<Rightarrow> member \<Rightarrow> canon_state" where
  "absorb env tr st m =
     (if tr then
        st\<lparr>cs_members := insert (ident m) (cs_members st),
           cs_owners := (cs_owners st)(member_keys env m ! 0 \<mapsto> m_nodeUID m, member_keys env m ! 1 \<mapsto> m_nodeUID m),
           cs_pairs := set (member_pairs env m) \<union> cs_pairs st\<rparr>
      else
        st\<lparr>cs_members := insert (ident m) (cs_members st),
           cs_legacyKeys := set (member_keys env m) \<union> cs_legacyKeys st\<rparr>)"

lemmas member_defs = member_ok_def key_ok_def pair_ok_def member_keys_def member_pairs_def norm_member_def

lemma canonical_generation_legacy:
  "canonical_generation env False node st l p = Inr x \<longleftrightarrow>
     key_ok env l \<and> the (ParseKey env l) \<notin> cs_legacyKeys st \<and>
     x = (st\<lparr>cs_legacyKeys := insert (the (ParseKey env l)) (cs_legacyKeys st)\<rparr>,
          KeyString env (the (ParseKey env l)), p)"
  by (auto simp: canonical_generation_def key_ok_def res_inv)

lemma canonical_generation_transport:
  "canonical_generation env True node st l p = Inr x \<longleftrightarrow>
     pair_ok env l p \<and> (the (ParseKey env l), the (ParseKey env p)) \<notin> cs_pairs st \<and>
     (\<forall>o'. cs_owners st (the (ParseKey env l)) = Some o' \<longrightarrow> o' = node) \<and>
     x = (st\<lparr>cs_owners := (cs_owners st)(the (ParseKey env l) \<mapsto> node),
             cs_pairs := insert (the (ParseKey env l), the (ParseKey env p)) (cs_pairs st)\<rparr>,
          KeyString env (the (ParseKey env l)), KeyString env (the (ParseKey env p)))"
  unfolding canonical_generation_def pair_ok_def key_ok_def
  by (cases "ParseKey env l"; cases "ParseKey env p"; cases "cs_owners st (the (ParseKey env l))")
     (auto simp: res_inv)

lemma canonical_member_legacy:
  "canonical_member env False st m = Inr x \<longleftrightarrow>
     member_ok env False m \<and> fits env False st m \<and> x = (absorb env False st m, norm_member env False m)"
  by (auto simp: canonical_member_def canonical_generation_legacy fits_def absorb_def member_ok_def
        member_keys_def norm_member_def res_inv insert_commute split: prod.splits)

lemma canonical_member_transport:
  "canonical_member env True st m = Inr x \<longleftrightarrow>
     member_ok env True m \<and> fits env True st m \<and> x = (absorb env True st m, norm_member env True m)"
  unfolding canonical_member_def res_inv
  by (auto simp: canonical_generation_transport fits_def absorb_def member_ok_def pair_ok_def
        member_keys_def member_pairs_def norm_member_def res_inv insert_commute split: prod.splits if_splits)

lemma canonical_member_iff:
  "canonical_member env tr st m = Inr x \<longleftrightarrow>
     member_ok env tr m \<and> fits env tr st m \<and> x = (absorb env tr st m, norm_member env tr m)"
  by (cases tr) (simp_all add: canonical_member_legacy canonical_member_transport)

fun fits_all :: "'a round_env_scheme \<Rightarrow> bool \<Rightarrow> canon_state \<Rightarrow> member list \<Rightarrow> bool" where
  "fits_all env tr st [] = True"
| "fits_all env tr st (m # ms) = (member_ok env tr m \<and> fits env tr st m \<and> fits_all env tr (absorb env tr st m) ms)"

lemma canonical_members_fits:
  "canonical_members env tr st ms = Inr ms' \<longleftrightarrow> fits_all env tr st ms \<and> ms' = map (norm_member env tr) ms"
  by (induction ms arbitrary: st ms') (auto simp: res_inv canonical_member_iff split: sum.splits prod.splits)

lemma fits_all_legacy:
  "fits_all env False st ms \<longleftrightarrow>
     members_ok env False ms \<and> set (map ident ms) \<inter> cs_members st = {} \<and>
     set (concat (map (member_keys env) ms)) \<inter> cs_legacyKeys st = {}"
  by (induction ms arbitrary: st) (auto simp: members_ok_def fits_def absorb_def)

lemma absorb_owners:
  "cs_owners (absorb env True st m) k =
     (if k \<in> set (member_keys env m) then Some (m_nodeUID m) else cs_owners st k)"
  by (auto simp: absorb_def member_keys_def)

definition own_ok :: "'a round_env_scheme \<Rightarrow> canon_state \<Rightarrow> member \<Rightarrow> bool" where
  "own_ok env st m = (\<forall>k \<in> set (member_keys env m). \<forall>o'. cs_owners st k = Some o' \<longrightarrow> o' = m_nodeUID m)"

lemma share_ok_sym: "share_ok env m m' \<longleftrightarrow> share_ok env m' m"
  by (auto simp: share_ok_def)

lemma own_ok_absorb:
  "own_ok env st m \<Longrightarrow> own_ok env (absorb env True st m) m' \<longleftrightarrow> share_ok env m m' \<and> own_ok env st m'"
  by (fastforce simp: own_ok_def share_ok_def absorb_owners split: if_splits)

lemma members_ok_Cons_transport:
  "members_ok env True (m # ms) \<longleftrightarrow>
     member_ok env True m \<and> ident m \<notin> set (map ident ms) \<and> distinct (member_pairs env m) \<and>
     set (member_pairs env m) \<inter> set (concat (map (member_pairs env) ms)) = {} \<and>
     (\<forall>m' \<in> set ms. share_ok env m m') \<and> members_ok env True ms"
proof -
  have "share_ok env m m" by (simp add: share_ok_def)
  then have "(\<forall>x \<in> set (m # ms). \<forall>y \<in> set (m # ms). share_ok env x y) \<longleftrightarrow>
      (\<forall>y \<in> set ms. share_ok env m y) \<and> (\<forall>x \<in> set ms. \<forall>y \<in> set ms. share_ok env x y)"
    using share_ok_sym [of env] by (simp add: ball_conj_distrib)
  then show ?thesis unfolding members_ok_def by (auto simp del: set_concat)
qed

lemma fits_all_transport:
  "fits_all env True st ms \<longleftrightarrow>
     members_ok env True ms \<and> set (map ident ms) \<inter> cs_members st = {} \<and>
     set (concat (map (member_pairs env) ms)) \<inter> cs_pairs st = {} \<and>
     (\<forall>m \<in> set ms. own_ok env st m)"
proof (induction ms arbitrary: st)
  case Nil
  then show ?case by (simp add: members_ok_def)
next
  case (Cons m ms)
  have mem: "cs_members (absorb env True st m) = insert (ident m) (cs_members st)"
    and pairs: "cs_pairs (absorb env True st m) = set (member_pairs env m) \<union> cs_pairs st"
    by (simp_all add: absorb_def)
  have fits: "fits env True st m \<longleftrightarrow> ident m \<notin> cs_members st \<and> distinct (member_pairs env m) \<and>
      set (member_pairs env m) \<inter> cs_pairs st = {} \<and> own_ok env st m"
    by (simp add: fits_def own_ok_def)
  have ids: "set (map ident (m # ms)) \<inter> A = {} \<longleftrightarrow> ident m \<notin> A \<and> set (map ident ms) \<inter> A = {}"
    "set (map ident ms) \<inter> insert (ident m) A = {} \<longleftrightarrow> ident m \<notin> set (map ident ms) \<and> set (map ident ms) \<inter> A = {}" for A
    by auto
  have prs: "set (concat (map (member_pairs env) (m # ms))) \<inter> A = {} \<longleftrightarrow>
      set (member_pairs env m) \<inter> A = {} \<and> set (concat (map (member_pairs env) ms)) \<inter> A = {}" for A
    by auto
  have comm: "B \<inter> (set (member_pairs env m) \<union> A) = {} \<longleftrightarrow> set (member_pairs env m) \<inter> B = {} \<and> B \<inter> A = {}" for A B
    by blast
  have "own_ok env st m \<Longrightarrow> (\<forall>m' \<in> set ms. own_ok env (absorb env True st m) m') \<longleftrightarrow>
      (\<forall>m' \<in> set ms. share_ok env m m') \<and> (\<forall>m' \<in> set ms. own_ok env st m')"
    by (auto simp: own_ok_absorb)
  then show ?case
    unfolding fits_all.simps Cons.IH mem pairs fits members_ok_Cons_transport ids prs comm list.set ball_simps
    by argo
qed

lemma canonical_members_iff:
  "canonical_members env tr canon_init ms = Inr ms' \<longleftrightarrow>
     members_ok env tr ms \<and> ms' = map (norm_member env tr) ms"
  unfolding canonical_members_fits
  by (cases tr) (simp_all add: fits_all_legacy fits_all_transport canon_init_def own_ok_def)

definition round_ok :: "'a round_env_scheme \<Rightarrow> round \<Rightarrow> bool" where
  "round_ok env r =
     (token (clusterUID (rspec r)) \<and> token (transitionUID (rspec r)) \<and> token (fromGeneration (rspec r)) \<and>
      token (toGeneration (rspec r)) \<and> fromGeneration (rspec r) \<noteq> toGeneration (rspec r) \<and>
      hexToken (planHash (rspec r)) 32 \<and> hexToken (nonce r) 16 \<and> known_phase (phase (rspec r)) \<and>
      issuedAt r \<noteq> 0 \<and> issuedAt r < expiresAt r \<and> 0 < maxReceiptAge r \<and>
      maxReceiptAge r \<le> time_sub (expiresAt r) (issuedAt r) \<and> members (rspec r) \<noteq> [])"

definition has_transports :: "member list \<Rightarrow> bool" where
  "has_transports ms = (m_deviceID (hd ms) \<noteq> [])"

definition norm_members :: "'a round_env_scheme \<Rightarrow> member list \<Rightarrow> member list" where
  "norm_members env ms = sort_key ident (map (norm_member env (has_transports ms)) ms)"

lemma canonical_iff:
  "canonical env r = Inr r' \<longleftrightarrow>
     round_ok env r \<and> members_ok env (has_transports (members (rspec r))) (members (rspec r)) \<and>
     r' = r\<lparr>rspec := (rspec r)\<lparr>members := norm_members env (members (rspec r))\<rparr>\<rparr>"
  by (cases "members (rspec r)")
     (auto simp: canonical_def Let_def res_inv canonical_members_iff round_ok_def has_transports_def norm_members_def
        simp del: canonical_members.simps)

subsection \<open>Canonical form: order independence, idempotence\<close>

definition key_roundtrip :: "'a round_env_scheme \<Rightarrow> bool" where
  "key_roundtrip env = (\<forall>s k. ParseKey env s = Some k \<longrightarrow> ParseKey env (KeyString env k) = Some k)"

lemma mset_concat_map: "mset xs = mset ys \<Longrightarrow> mset (concat (map f xs)) = mset (concat (map f ys))"
proof -
  have "mset (concat (map f zs)) = (\<Sum>z\<in>#mset zs. mset (f z))" for zs
    by (induction zs) simp_all
  then show "mset xs = mset ys \<Longrightarrow> mset (concat (map f xs)) = mset (concat (map f ys))" by simp
qed

lemma members_ok_mset:
  assumes "mset xs = mset ys"
  shows "members_ok env tr xs \<longleftrightarrow> members_ok env tr ys"
proof -
  have "set xs = set ys" using assms by (rule mset_eq_setD)
  moreover have "distinct (map ident xs) = distinct (map ident ys)"
    using assms by (rule mset_eq_distinct_map)
  moreover have "distinct (concat (map (member_pairs env) xs)) = distinct (concat (map (member_pairs env) ys))"
    and "distinct (concat (map (member_keys env) xs)) = distinct (concat (map (member_keys env) ys))"
    by (intro mset_eq_imp_distinct_iff mset_concat_map assms)+
  ultimately show ?thesis unfolding members_ok_def by simp
qed

lemma members_ok_transports:
  assumes "members_ok env tr ms" and "m \<in> set ms"
  shows "tr = (m_deviceID m \<noteq> [])"
  using assms by (auto simp: members_ok_def member_ok_def)

lemma has_transports_in: "ms \<noteq> [] \<Longrightarrow> \<exists>m \<in> set ms. has_transports ms = (m_deviceID m \<noteq> [])"
  unfolding has_transports_def by (meson hd_in_set)

lemma has_transports_eq:
  assumes "members_ok env tr ms" and "ms \<noteq> []"
  shows "has_transports ms = tr"
proof -
  from has_transports_in [OF assms(2)] obtain m
    where m: "m \<in> set ms" and eq: "has_transports ms = (m_deviceID m \<noteq> [])" by blast
  show ?thesis unfolding eq using members_ok_transports [OF assms(1) m] by (rule sym)
qed

lemma norm_member_ident [simp]: "m_nodeUID (norm_member env tr m) = m_nodeUID m"
    "m_deviceID (norm_member env tr m) = m_deviceID m"
  by (simp_all add: norm_member_def)

lemma members_ok_distinct: "members_ok env tr ms \<Longrightarrow> distinct (map ident (map (norm_member env tr) ms))"
  by (simp add: members_ok_def comp_def)

lemma norm_members_mset:
  assumes "members_ok env (has_transports xs) xs" and "mset xs = mset ys"
  shows "norm_members env xs = norm_members env ys"
proof (cases "xs = []")
  case True
  with assms show ?thesis by simp
next
  case False
  with assms have ys: "ys \<noteq> []" by auto
  have "has_transports ys = has_transports xs"
    using assms(1) ys by (intro has_transports_eq) (simp_all add: members_ok_mset [OF assms(2)])
  moreover have "mset (map (norm_member env tr) xs) = mset (map (norm_member env tr) ys)" for tr
    using assms(2) by simp
  ultimately show ?thesis
    unfolding norm_members_def using members_ok_distinct [OF assms(1)]
    by (simp only:) (rule sort_key_mset_cong)
qed

lemma key_roundtrip_parse:
  "key_roundtrip env \<Longrightarrow> key_ok env s \<Longrightarrow>
     ParseKey env (KeyString env (the (ParseKey env s))) = ParseKey env s"
  by (auto simp: key_roundtrip_def key_ok_def)

lemma norm_member_parse:
  assumes "key_roundtrip env" and "member_ok env tr m"
  shows "ParseKey env (m_fromKey (norm_member env tr m)) = ParseKey env (m_fromKey m)"
    and "ParseKey env (m_toKey (norm_member env tr m)) = ParseKey env (m_toKey m)"
    and "ParseKey env (m_fromPeerKey (norm_member env tr m)) = ParseKey env (m_fromPeerKey m)"
    and "ParseKey env (m_toPeerKey (norm_member env tr m)) = ParseKey env (m_toPeerKey m)"
  using assms by (auto simp: norm_member_def member_ok_def pair_ok_def key_roundtrip_parse split: if_splits)

lemma norm_member_keeps:
  assumes "key_roundtrip env" and "member_ok env tr m"
  shows "member_keys env (norm_member env tr m) = member_keys env m"
    and "member_pairs env (norm_member env tr m) = member_pairs env m"
    and "norm_member env tr (norm_member env tr m) = norm_member env tr m"
    and "member_ok env tr (norm_member env tr m)"
proof -
  note parse = norm_member_parse [OF assms]
  show "member_keys env (norm_member env tr m) = member_keys env m"
    and "member_pairs env (norm_member env tr m) = member_pairs env m"
    by (simp_all add: member_keys_def member_pairs_def parse)
  show "norm_member env tr (norm_member env tr m) = norm_member env tr m"
    using parse by (cases tr) (simp_all add: norm_member_def)
  have "m_fromPeerKey (norm_member env False m) = m_fromPeerKey m" "m_toPeerKey (norm_member env False m) = m_toPeerKey m"
    by (simp_all add: norm_member_def)
  then show "member_ok env tr (norm_member env tr m)"
    using assms(2) parse unfolding member_ok_def pair_ok_def key_ok_def by (cases tr) simp_all
qed

lemma members_ok_norm:
  assumes "key_roundtrip env" and "members_ok env tr ms"
  shows "members_ok env tr (map (norm_member env tr) ms)"
proof -
  have ok: "\<And>m. m \<in> set ms \<Longrightarrow> member_ok env tr m" using assms(2) by (simp add: members_ok_def)
  note keep = norm_member_keeps [OF assms(1) ok]
  have "concat (map (member_pairs env) (map (norm_member env tr) ms)) = concat (map (member_pairs env) ms)"
    and "concat (map (member_keys env) (map (norm_member env tr) ms)) = concat (map (member_keys env) ms)"
    by (simp_all add: keep cong: map_cong)
  then show ?thesis
    using assms(2) keep unfolding members_ok_def by (cases tr) (simp_all add: comp_def share_ok_def)
qed

lemma canonical_idem:
  assumes "key_roundtrip env" and "canonical env r = Inr r'"
  shows "canonical env r' = Inr r'"
proof -
  define ms where "ms = members (rspec r)"
  define tr where "tr = has_transports ms"
  from assms(2) have r: "round_ok env r" and ok: "members_ok env tr ms"
    and r': "r' = r\<lparr>rspec := (rspec r)\<lparr>members := norm_members env ms\<rparr>\<rparr>"
    by (simp_all add: canonical_iff ms_def tr_def)
  define ns where "ns = norm_members env ms"
  have perm: "mset ns = mset (map (norm_member env tr) ms)" by (simp add: ns_def norm_members_def tr_def)
  have ne: "ns \<noteq> []" using r perm by (auto simp: round_ok_def ms_def)
  have okn: "members_ok env tr ns"
    using members_ok_norm [OF assms(1) ok] by (simp add: members_ok_mset [OF perm])
  have trn: "has_transports ns = tr" using okn ne by (rule has_transports_eq)
  have "norm_member env tr n = n" if "n \<in> set ns" for n
  proof -
    from that perm obtain m where "m \<in> set ms" "n = norm_member env tr m"
      using mset_eq_setD [OF perm] by auto
    with ok norm_member_keeps(3) [OF assms(1)] show ?thesis by (simp add: members_ok_def)
  qed
  then have "map (norm_member env tr) ns = ns" by (simp add: map_idI)
  moreover have "sort_key ident ns = ns"
    using okn by (intro sort_key_sorted_id) (auto simp: members_ok_def ns_def norm_members_def)
  ultimately have "norm_members env ns = ns" by (simp add: norm_members_def trn)
  moreover have "round_ok env r'" using r ne by (simp add: round_ok_def r' ns_def)
  ultimately show ?thesis using okn trn by (simp add: canonical_iff r' ns_def)
qed

lemma canonical_mset:
  assumes "canonical env r = Inr r'" and perm: "mset ns = mset (members (rspec r))"
  shows "canonical env (r\<lparr>rspec := (rspec r)\<lparr>members := ns\<rparr>\<rparr>) = Inr r'"
proof -
  define ms where "ms = members (rspec r)"
  have r: "round_ok env r" and ok: "members_ok env (has_transports ms) ms"
    and r': "r' = r\<lparr>rspec := (rspec r)\<lparr>members := norm_members env ms\<rparr>\<rparr>"
    using assms(1) by (simp_all add: canonical_iff ms_def)
  have ne: "ns \<noteq> []" using r perm by (auto simp: round_ok_def)
  have okn: "members_ok env (has_transports ms) ns"
    using ok by (simp add: members_ok_mset [OF perm] ms_def)
  have tr: "has_transports ns = has_transports ms" using okn ne by (rule has_transports_eq)
  have "norm_members env ns = norm_members env ms"
    using norm_members_mset [OF ok perm [symmetric, folded ms_def]] by simp
  with r okn ne tr show ?thesis by (simp add: canonical_iff r' round_ok_def)
qed

subsection \<open>Receipts\<close>

text \<open>What one receipt has to satisfy for the member it names.\<close>

definition receipt_binds :: "round \<Rightarrow> string \<Rightarrow> time \<Rightarrow> member \<Rightarrow> receipt \<Rightarrow> bool" where
  "receipt_binds rnd digest now m r =
     (rident r = ident m \<and> roundHash r = digest \<and> r_fromKey r = m_fromKey m \<and> r_toKey r = m_toKey m \<and>
      r_fromPeerKey r = m_fromPeerKey m \<and> r_toPeerKey r = m_toPeerKey m \<and>
      issuedAt rnd \<le> observedAt r \<and> observedAt r \<le> now \<and> time_sub now (observedAt r) \<le> maxReceiptAge rnd)"

definition receipts_ok ::
  "round \<Rightarrow> string \<Rightarrow> time \<Rightarrow> authenticated_receipt list \<Rightarrow> bool \<Rightarrow> bool" where
  "receipts_ok rnd digest now as complete =
     (issuedAt rnd \<le> now \<and> now < expiresAt rnd \<and> as \<noteq> [] \<and>
      distinct (map (\<lambda>a. rident (a_receipt a)) as) \<and>
      (\<forall>a \<in> set as. authenticatedNodeUID a = r_nodeUID (a_receipt a) \<and>
         (\<exists>m \<in> set (members (rspec rnd)). receipt_binds rnd digest now m (a_receipt a))) \<and>
      (complete \<longrightarrow> (\<forall>m \<in> set (members (rspec rnd)). \<exists>a \<in> set as. rident (a_receipt a) = ident m)))"

lemma fold_member_map:
  assumes "distinct (map ident ms)"
  shows "fold (\<lambda>m f. f(ident m \<mapsto> m)) ms Map.empty i = Some m \<longleftrightarrow> m \<in> set ms \<and> ident m = i"
proof -
  have "fold (\<lambda>m f. f(ident m \<mapsto> m)) ms g i = Some m \<longleftrightarrow>
      (m \<in> set ms \<and> ident m = i) \<or> (i \<notin> ident ` set ms \<and> g i = Some m)" for g
    using assms
  proof (induction ms arbitrary: g)
    case (Cons x xs)
    then show ?case by (auto simp: image_iff)
  qed simp
  then show ?thesis by simp
qed

lemma validate_each_iff:
  assumes "distinct (map ident (members (rspec (v_round v))))"
    and "v_members v = fold (\<lambda>m f. f(ident m \<mapsto> m)) (members (rspec (v_round v))) Map.empty"
  shows "validate_each v now seen as = Inr () \<longleftrightarrow>
     distinct (map (\<lambda>a. rident (a_receipt a)) as) \<and> (\<forall>a \<in> set as. rident (a_receipt a) \<notin> seen) \<and>
     (\<forall>a \<in> set as. authenticatedNodeUID a = r_nodeUID (a_receipt a) \<and>
        (\<exists>m \<in> set (members (rspec (v_round v))). receipt_binds (v_round v) (v_digest v) now m (a_receipt a)))"
proof (induction as arbitrary: seen)
  case (Cons a as)
  have look: "v_members v i = Some m \<longleftrightarrow> m \<in> set (members (rspec (v_round v))) \<and> ident m = i" for i m
    using fold_member_map [OF assms(1)] assms(2) by simp
  have step: "(validate_each v now seen (a # as) = Inr ()) \<longleftrightarrow>
     (\<exists>m \<in> set (members (rspec (v_round v))). receipt_binds (v_round v) (v_digest v) now m (a_receipt a)) \<and>
     rident (a_receipt a) \<notin> seen \<and> authenticatedNodeUID a = r_nodeUID (a_receipt a) \<and>
     validate_each v now (insert (rident (a_receipt a)) seen) as = Inr ()"
    by (auto simp: Let_def res_inv look receipt_binds_def not_less not_le) metis
  show ?case unfolding step Cons.IH by (auto simp: image_iff)
qed simp

lemma validate_iff:
  assumes "distinct (map ident (members (rspec rnd)))" and "receiptValidator env rnd = Inr v"
  shows "validate v now as complete = Inr () \<longleftrightarrow> receipts_ok rnd (v_digest v) now as complete"
proof -
  define ms where "ms = members (rspec rnd)"
  define ids where "ids = map (\<lambda>a. rident (a_receipt a)) as"
  define bound where "bound = (\<forall>a \<in> set as. authenticatedNodeUID a = r_nodeUID (a_receipt a) \<and>
      (\<exists>m \<in> set ms. receipt_binds rnd (v_digest v) now m (a_receipt a)))"
  from assms(2) have v: "v_round v = rnd"
    "v_members v = fold (\<lambda>m f. f(ident m \<mapsto> m)) (members (rspec (v_round v))) Map.empty"
    by (auto simp: receiptValidator_def res_inv)
  have each: "validate_each v now {} as = Inr () \<longleftrightarrow> distinct ids \<and> bound"
    using validate_each_iff [of v now "{}" as] assms(1) v by (simp add: ids_def bound_def ms_def)
  have sub: "set ids \<subseteq> set (map ident ms)" if bound
    using that by (auto simp: bound_def ids_def receipt_binds_def)
  have card: "distinct ids \<Longrightarrow> length ids = card (set ids)" "length (map ident ms) = card (set (map ident ms))"
    using assms(1) distinct_card by (fastforce simp: ms_def)+
  have len: "length ids \<le> length (map ident ms)" if bound "distinct ids"
    unfolding card(2) card(1) [OF that(2)] using sub [OF that(1)] by (simp add: card_mono)
  have full: "length ids = length (map ident ms) \<longleftrightarrow> set (map ident ms) \<subseteq> set ids" if bound "distinct ids"
  proof
    assume "length ids = length (map ident ms)"
    then have "card (set ids) = card (set (map ident ms))" using card that(2) by simp
    with sub [OF that(1)] have "set ids = set (map ident ms)" by (intro card_subset_eq) simp_all
    then show "set (map ident ms) \<subseteq> set ids" by simp
  next
    assume "set (map ident ms) \<subseteq> set ids"
    with sub [OF that(1)] have "set ids = set (map ident ms)" by simp
    then show "length ids = length (map ident ms)" using card that(2) by simp
  qed
  have cover: "set (map ident ms) \<subseteq> set ids \<longleftrightarrow> (\<forall>m \<in> set ms. \<exists>a \<in> set as. rident (a_receipt a) = ident m)"
    by (auto simp: ids_def image_iff eq_commute)
  have "validate v now as complete = Inr () \<longleftrightarrow>
      issuedAt rnd \<le> now \<and> now < expiresAt rnd \<and> as \<noteq> [] \<and> length as \<le> length ms \<and>
      (complete \<longrightarrow> length as = length ms) \<and> distinct ids \<and> bound"
    unfolding validate_def Let_def if_Inl_Inr each v(1) by (auto simp: ms_def not_less not_le)
  also have "\<dots> \<longleftrightarrow> issuedAt rnd \<le> now \<and> now < expiresAt rnd \<and> as \<noteq> [] \<and>
      (complete \<longrightarrow> set (map ident ms) \<subseteq> set ids) \<and> distinct ids \<and> bound"
    using len full by (auto simp: ids_def)
  also have "\<dots> \<longleftrightarrow> receipts_ok rnd (v_digest v) now as complete"
    using cover unfolding receipts_ok_def bound_def ids_def ms_def by argo
  finally show ?thesis .
qed

lemma canonical_distinct:
  assumes "canonical env r = Inr r'"
  shows "distinct (map ident (members (rspec r')))"
proof -
  from assms have ok: "members_ok env (has_transports (members (rspec r))) (members (rspec r))"
    and r': "members (rspec r') = norm_members env (members (rspec r))"
    by (auto simp: canonical_iff)
  have "mset (map ident (members (rspec r'))) =
      mset (map ident (map (norm_member env (has_transports (members (rspec r)))) (members (rspec r))))"
    unfolding r' norm_members_def by (simp add: multiset.map_comp comp_def)
  with members_ok_distinct [OF ok] show ?thesis using mset_eq_imp_distinct_iff by blast
qed

lemma validateReceipts_iff:
  "validateReceipts env r now as complete = Inr () \<longleftrightarrow>
     (\<exists>r' d. canonical env r = Inr r' \<and> canonicalDigest env r' = Inr d \<and> receipts_ok r' d now as complete)"
proof -
  have "validateReceipts env r now as complete = Inr () \<longleftrightarrow>
     (\<exists>r' v. canonical env r = Inr r' \<and> receiptValidator env r' = Inr v \<and> validate v now as complete = Inr ())"
    by (auto simp: validateReceipts_def res_inv)
  also have "\<dots> \<longleftrightarrow> (\<exists>r' v. canonical env r = Inr r' \<and> receiptValidator env r' = Inr v \<and>
      receipts_ok r' (v_digest v) now as complete)"
    using validate_iff canonical_distinct by blast
  also have "\<dots> \<longleftrightarrow> (\<exists>r' d. canonical env r = Inr r' \<and> canonicalDigest env r' = Inr d \<and>
      receipts_ok r' d now as complete)"
    by (auto simp: receiptValidator_def res_inv)
  finally show ?thesis .
qed

subsection \<open>Tokens\<close>

lemma hexToken_iff: "hexToken s n \<longleftrightarrow> length s = 2 * n \<and> (\<forall>c \<in> set s. lower_hex c)"
proof
  assume "hexToken s n"
  then obtain b where "hex_decode s = Some b" "length b = n" "hex_encode b = s"
    by (auto simp: hexToken_def split: option.splits)
  then show "length s = 2 * n \<and> (\<forall>c \<in> set s. lower_hex c)"
    using hex_encode_lower by auto
next
  assume s: "length s = 2 * n \<and> (\<forall>c \<in> set s. lower_hex c)"
  then obtain b where "hex_decode s = Some b" "hex_encode b = s"
    using lower_hex_decode [of s] by auto
  moreover from this s have "length b = n" by (metis length_hex_encode mult_cancel1 zero_neq_numeral)
  ultimately show "hexToken s n" by (simp add: hexToken_def)
qed

lemma hexToken_encode: "hexToken (hex_encode b) n \<longleftrightarrow> length b = n"
  by (auto simp: hexToken_iff hex_encode_lower)

end
