(* ===== verification/Transition.thy ===== *)
theory Transition
  imports Round
begin

text \<open>
  The journal of one generation handover (\<open>controller/pkg/handover/transition.go\<close>): committed
  events, the replay that verifies them on every load (\<open>View\<close>), and the operations that append
  one event (\<open>Observe\<close>, \<open>Advance\<close>, \<open>Rollback\<close>, \<open>Renew\<close>).
  The replay loop is a fold of \<open>replay_step\<close> over the events; its state holds the view, the
  validator the loop caches for the current round, the last event's instant and the nonces seen.
\<close>

section \<open>Data\<close>

record policy =
  roundLifetime :: duration
  p_maxReceiptAge :: duration
  drainInterval :: duration

datatype operation = OpAdvance | OpObserve | OpRollback | OpRenew | OpOther string

record event =
  e_op :: operation
  e_at :: time
  e_receipts :: "receipt list"
  e_next :: "round option"

record predecessor =
  archiveName :: string
  archiveUID :: string
  sourceUID :: string
  journalSHA256 :: string
  servingGeneration :: string

record journal =
  j_version :: int
  j_predecessor :: "predecessor option"
  j_planRequired :: bool
  j_policy :: policy
  j_initial :: round
  j_events :: "event list"

record view =
  vw_observed :: "receipt list"
  vw_round :: round
  vw_rollbackRequested :: bool
  vw_complete :: bool
  vw_servingGeneration :: string
  vw_drainUntil :: time

text \<open>JSON text of a journal: writing may fail, reading reports whether the input ended.\<close>

record journal_env = round_env +
  marshal_journal :: "journal \<Rightarrow> string option"
  json_journal :: "string \<Rightarrow> (journal \<times> bool) option"

definition predecessor_valid :: "predecessor \<Rightarrow> bool" where
  "predecessor_valid p =
     (token (archiveName p) \<and> token (archiveUID p) \<and> token (sourceUID p) \<and>
      hexToken (journalSHA256 p) 32 \<and> token (servingGeneration p))"

section \<open>Replay\<close>

record replay_state =
  rp_view :: view
  rp_validator :: "receipt_validator option"
  rp_last :: time
  rp_nonces :: "string set"

definition self_authenticated :: "receipt list \<Rightarrow> authenticated_receipt list" where
  "self_authenticated rs = map (\<lambda>r. \<lparr>authenticatedNodeUID = r_nodeUID r, a_receipt = r\<rparr>) rs"

text \<open>The \<open>validate\<close> closure of \<open>View\<close>: build the validator once per round, then use it.\<close>

definition replay_validate ::
  "'a journal_env_scheme \<Rightarrow> replay_state \<Rightarrow> time \<Rightarrow> authenticated_receipt list \<Rightarrow> bool \<Rightarrow>
   receipt_validator res" where
  "replay_validate env st at proofs complete =
     (case (case rp_validator st of
              None \<Rightarrow> receiptValidator env (vw_round (rp_view st))
            | Some v \<Rightarrow> Inr v) of
        Inl e \<Rightarrow> Inl e
      | Inr v \<Rightarrow> (case validate v at proofs complete of Inl e \<Rightarrow> Inl e | Inr _ \<Rightarrow> Inr v))"

fun merge_observed ::
  "(string \<times> string \<rightharpoonup> receipt) \<Rightarrow> receipt list \<Rightarrow> (string \<times> string \<rightharpoonup> receipt) res" where
  "merge_observed byMember [] = Inr byMember"
| "merge_observed byMember (r # rs) =
     (if (case byMember (rident r) of None \<Rightarrow> False | Some old \<Rightarrow> observedAt r < observedAt old)
        then Inl (Error ''observation regresses member evidence'')
      else merge_observed (byMember(rident r \<mapsto> r)) rs)"

definition observe_step :: "'a journal_env_scheme \<Rightarrow> replay_state \<Rightarrow> event \<Rightarrow> replay_state res" where
  "observe_step env st ev =
     (if e_next ev \<noteq> None then Inl (Error ''observation cannot replace the committed round'')
      else
        (case replay_validate env st (e_at ev) (self_authenticated (e_receipts ev)) False of
           Inl e \<Rightarrow> Inl e
         | Inr val \<Rightarrow>
             (let v = rp_view st in
              (case merge_observed
                      (fold (\<lambda>r f. f(rident r \<mapsto> r)) (vw_observed v) Map.empty) (e_receipts ev) of
                 Inl e \<Rightarrow> Inl e
               | Inr byMember \<Rightarrow>
                   Inr (st\<lparr>rp_view := v\<lparr>vw_observed :=
                             List.map_filter (\<lambda>m. byMember (ident m)) (members (rspec (vw_round v)))\<rparr>,
                           rp_validator := Some val, rp_last := e_at ev\<rparr>)))))"

text \<open>The effect of an advance on the view, and the specification its next round must have.\<close>

definition advance_effect :: "policy \<Rightarrow> view \<Rightarrow> event \<Rightarrow> (view \<times> spec) res" where
  "advance_effect p v ev =
     (let s = rspec (vw_round v) in
      (case phase s of
         Prepare \<Rightarrow> Inr (v, s\<lparr>phase := Switch\<rparr>)
       | Switch \<Rightarrow> Inr (v\<lparr>vw_drainUntil := e_at ev + drainInterval p\<rparr>, s\<lparr>phase := Drain\<rparr>)
       | Drain \<Rightarrow>
           if vw_drainUntil v = 0 \<or> e_at ev < vw_drainUntil v
             then Inl (Error ''drain interval has not elapsed'')
           else if list_ex (\<lambda>r. observedAt r < vw_drainUntil v) (e_receipts ev)
             then Inl (Error ''drain receipt predates drain deadline'')
           else Inr (v, s\<lparr>phase := Retire\<rparr>)
       | Retire \<Rightarrow> Inr (v\<lparr>vw_complete := True, vw_servingGeneration := toGeneration s\<rparr>, s)
       | Abort \<Rightarrow> Inr (v\<lparr>vw_complete := True, vw_servingGeneration := fromGeneration s\<rparr>, s)
       | OtherPhase _ \<Rightarrow> Inl (Error ''invalid phase history'')))"

definition swap_member :: "member \<Rightarrow> member" where
  "swap_member m =
     m\<lparr>m_fromKey := m_toKey m, m_toKey := m_fromKey m,
       m_fromPeerKey := m_toPeerKey m, m_toPeerKey := m_fromPeerKey m\<rparr>"

definition swap_spec :: "spec \<Rightarrow> spec" where
  "swap_spec s =
     s\<lparr>fromGeneration := toGeneration s, toGeneration := fromGeneration s,
       members := map swap_member (members s), phase := Switch\<rparr>"

definition rollback_effect :: "view \<Rightarrow> event \<Rightarrow> (view \<times> spec) res" where
  "rollback_effect v ev =
     (if e_receipts ev \<noteq> [] \<or> vw_rollbackRequested v then Inl (Error ''invalid repeated rollback'')
      else
        (let s = rspec (vw_round v); v' = v\<lparr>vw_rollbackRequested := True, vw_drainUntil := 0\<rparr> in
         (case phase s of
            Prepare \<Rightarrow> Inr (v', s\<lparr>phase := Abort\<rparr>)
          | Switch \<Rightarrow> Inr (v', swap_spec s)
          | Drain \<Rightarrow> Inr (v', swap_spec s)
          | _ \<Rightarrow> Inl (Error ''cannot roll back after retirement is authorized''))))"

definition renew_effect :: "view \<Rightarrow> event \<Rightarrow> (view \<times> spec) res" where
  "renew_effect v ev =
     (if e_receipts ev \<noteq> [] \<or> e_at ev < expiresAt (vw_round v)
        then Inl (Error ''only expired rounds can be renewed'')
      else Inr (v, rspec (vw_round v)))"

text \<open>The tail of the loop body: the next round is checked and becomes current.\<close>

definition next_step ::
  "'a journal_env_scheme \<Rightarrow> policy \<Rightarrow> replay_state \<Rightarrow> event \<Rightarrow> view \<times> spec \<Rightarrow> replay_state res" where
  "next_step env p st ev ve =
     (let v = fst ve; expected = snd ve in
      if vw_complete v then
        (if e_next ev \<noteq> None then Inl (Error ''terminal event has a next round'')
         else Inr (st\<lparr>rp_view := v\<lparr>vw_observed := []\<rparr>, rp_last := e_at ev\<rparr>))
      else
        (case e_next ev of
           None \<Rightarrow> Inl (Error ''missing next phase round'')
         | Some n \<Rightarrow>
             (case canonical env n of
                Inl e \<Rightarrow> Inl e
              | Inr nx \<Rightarrow>
                  if rspec nx \<noteq> expected \<or> issuedAt nx \<noteq> e_at ev \<or>
                     time_sub (expiresAt nx) (issuedAt nx) \<noteq> roundLifetime p \<or>
                     maxReceiptAge nx \<noteq> p_maxReceiptAge p \<or> nonce nx \<in> rp_nonces st
                    then Inl (Error ''next round changes intent or reuses identity'')
                  else Inr (st\<lparr>rp_view := v\<lparr>vw_round := nx, vw_observed := []\<rparr>, rp_validator := None,
                               rp_last := e_at ev, rp_nonces := insert (nonce nx) (rp_nonces st)\<rparr>))))"

definition replay_step ::
  "'a journal_env_scheme \<Rightarrow> policy \<Rightarrow> replay_state \<Rightarrow> event \<Rightarrow> replay_state res" where
  "replay_step env p st ev =
     (let v = rp_view st in
      if vw_complete v \<or> e_at ev < rp_last st \<or> e_at ev < issuedAt (vw_round v)
        then Inl (Error ''invalid transition chronology'')
      else
        (case e_op ev of
           OpObserve \<Rightarrow> observe_step env st ev
         | OpAdvance \<Rightarrow>
             (case replay_validate env st (e_at ev) (self_authenticated (e_receipts ev)) True of
                Inl e \<Rightarrow> Inl (wrap ''invalid committed receipts: '' e)
              | Inr val \<Rightarrow>
                  (case advance_effect p v ev of
                     Inl e \<Rightarrow> Inl e
                   | Inr ve \<Rightarrow> next_step env p (st\<lparr>rp_validator := Some val\<rparr>) ev ve))
         | OpRollback \<Rightarrow>
             (case rollback_effect v ev of Inl e \<Rightarrow> Inl e | Inr ve \<Rightarrow> next_step env p st ev ve)
         | OpRenew \<Rightarrow>
             (case renew_effect v ev of Inl e \<Rightarrow> Inl e | Inr ve \<Rightarrow> next_step env p st ev ve)
         | OpOther _ \<Rightarrow> Inl (Error ''unknown transition operation'')))"

definition initial_state :: "round \<Rightarrow> replay_state" where
  "initial_state r =
     \<lparr>rp_view = \<lparr>vw_observed = [], vw_round = r, vw_rollbackRequested = False, vw_complete = False,
                 vw_servingGeneration = [], vw_drainUntil = 0\<rparr>,
      rp_validator = None, rp_last = issuedAt r, rp_nonces = {nonce r}\<rparr>"

text \<open>The checks before the loop, and the loop.\<close>

definition start_state :: "'a journal_env_scheme \<Rightarrow> journal \<Rightarrow> replay_state res" where
  "start_state env j =
     (let p = j_policy j in
      if (j_version j \<noteq> 1 \<and> j_version j \<noteq> 2) \<or> roundLifetime p \<le> 0 \<or> p_maxReceiptAge p \<le> 0 \<or>
         roundLifetime p < p_maxReceiptAge p \<or> drainInterval p \<le> 0
        then Inl (Error ''invalid transition version or policy'')
      else if (j_version j = 1 \<and> j_predecessor j \<noteq> None) \<or>
              (j_version j = 2 \<and>
                (case j_predecessor j of None \<Rightarrow> True | Some q \<Rightarrow> \<not> predecessor_valid q))
        then Inl (Error ''invalid predecessor binding'')
      else if (case j_predecessor j of
                 None \<Rightarrow> False
               | Some q \<Rightarrow> fromGeneration (rspec (j_initial j)) \<noteq> servingGeneration q)
        then Inl (Error ''successor does not start from archived serving generation'')
      else
        (case canonical env (j_initial j) of
           Inl e \<Rightarrow> Inl e
         | Inr r \<Rightarrow>
             if phase (rspec r) \<noteq> Prepare \<or> time_sub (expiresAt r) (issuedAt r) \<noteq> roundLifetime p \<or>
                maxReceiptAge r \<noteq> p_maxReceiptAge p
               then Inl (Error ''invalid initial phase round'')
             else Inr (initial_state r)))"

definition replay :: "'a journal_env_scheme \<Rightarrow> journal \<Rightarrow> replay_state res" where
  "replay env j =
     (case start_state env j of
        Inl e \<Rightarrow> Inl e
      | Inr st \<Rightarrow> res_fold (replay_step env (j_policy j)) st (j_events j))"

definition View :: "'a journal_env_scheme \<Rightarrow> journal \<Rightarrow> view res" where
  "View env j = (case replay env j of Inl e \<Rightarrow> Inl e | Inr st \<Rightarrow> Inr (rp_view st))"

section \<open>Operations\<close>

definition NewTransition ::
  "'a journal_env_scheme \<Rightarrow> string option \<Rightarrow> spec \<Rightarrow> time \<Rightarrow> policy \<Rightarrow> journal res" where
  "NewTransition env rand s now p =
     (if phase s \<noteq> Prepare then Inl (Error ''transition must begin with prepare'')
      else
        (case NewRound env rand s now (roundLifetime p) (p_maxReceiptAge p) of
           Inl e \<Rightarrow> Inl e
         | Inr r \<Rightarrow>
             (let t = \<lparr>j_version = 1, j_predecessor = None, j_planRequired = False, j_policy = p,
                       j_initial = r, j_events = []\<rparr> in
              (case View env t of Inl e \<Rightarrow> Inl e | Inr _ \<Rightarrow> Inr t))))"

definition decodeTransitionView :: "'a journal_env_scheme \<Rightarrow> string \<Rightarrow> (journal \<times> view) res" where
  "decodeTransitionView env raw =
     (case json_journal env raw of
        None \<Rightarrow> Inl (Error ''json'')
      | Some (j, eof) \<Rightarrow>
          if \<not> eof then Inl (Error ''trailing transition state'')
          else (case View env j of Inl e \<Rightarrow> Inl e | Inr v \<Rightarrow> Inr (j, v)))"

definition DecodeTransition :: "'a journal_env_scheme \<Rightarrow> string \<Rightarrow> journal res" where
  "DecodeTransition env raw =
     (case decodeTransitionView env raw of Inl e \<Rightarrow> Inl e | Inr (j, _) \<Rightarrow> Inr j)"

definition Bytes :: "'a journal_env_scheme \<Rightarrow> journal \<Rightarrow> string res" where
  "Bytes env j =
     (case View env j of
        Inl e \<Rightarrow> Inl e
      | Inr _ \<Rightarrow> (case marshal_journal env j of None \<Rightarrow> Inl (Error ''json'') | Some s \<Rightarrow> Inr s))"

definition Extends :: "'a journal_env_scheme \<Rightarrow> journal \<Rightarrow> journal \<Rightarrow> unit res" where
  "Extends env t previous =
     (case Bytes env previous of
        Inl e \<Rightarrow> Inl e
      | Inr old \<Rightarrow>
          (case View env t of
             Inl e \<Rightarrow> Inl e
           | Inr _ \<Rightarrow>
               if length (j_events t) < length (j_events previous)
                 then Inl (Error ''transition regresses committed history'')
               else
                 (case Bytes env (t\<lparr>j_events := take (length (j_events previous)) (j_events t)\<rparr>) of
                    Inl e \<Rightarrow> Inl e
                  | Inr raw \<Rightarrow>
                      if old \<noteq> raw then Inl (Error ''transition rewrites committed history'')
                      else Inr ())))"

definition append_event :: "'a journal_env_scheme \<Rightarrow> journal \<Rightarrow> event \<Rightarrow> journal res" where
  "append_event env t ev =
     (let n = t\<lparr>j_events := j_events t @ [ev]\<rparr> in
      (case View env n of Inl e \<Rightarrow> Inl e | Inr _ \<Rightarrow> Inr n))"

definition Observe ::
  "'a journal_env_scheme \<Rightarrow> journal \<Rightarrow> time \<Rightarrow> authenticated_receipt list \<Rightarrow> journal res" where
  "Observe env t now receipts =
     (case View env t of
        Inl e \<Rightarrow> Inl e
      | Inr v \<Rightarrow>
          if vw_complete v then Inl (Error ''transition is complete'')
          else
            (case ValidateReceipts env (vw_round v) now receipts of
               Inl e \<Rightarrow> Inl e
             | Inr _ \<Rightarrow>
                 append_event env t
                   \<lparr>e_op = OpObserve, e_at = now, e_receipts = map a_receipt receipts, e_next = None\<rparr>))"

definition Advance ::
  "'a journal_env_scheme \<Rightarrow> string option \<Rightarrow> journal \<Rightarrow> time \<Rightarrow> authenticated_receipt list \<Rightarrow> journal res" where
  "Advance env rand t now receipts =
     (case View env t of
        Inl e \<Rightarrow> Inl e
      | Inr v \<Rightarrow>
          if vw_complete v then Inl (Error ''transition is complete'')
          else
            (case Ready env (vw_round v) now receipts of
               Inl e \<Rightarrow> Inl e
             | Inr _ \<Rightarrow>
                 (let ev = \<lparr>e_op = OpAdvance, e_at = now, e_receipts = map a_receipt receipts, e_next = None\<rparr>;
                      s = rspec (vw_round v);
                      commit = (\<lambda>s'.
                        case NewRound env rand s' now (roundLifetime (j_policy t)) (p_maxReceiptAge (j_policy t)) of
                          Inl e \<Rightarrow> Inl e
                        | Inr nx \<Rightarrow> append_event env t (ev\<lparr>e_next := Some nx\<rparr>)) in
                  (case phase s of
                     Prepare \<Rightarrow> commit (s\<lparr>phase := Switch\<rparr>)
                   | Switch \<Rightarrow> commit (s\<lparr>phase := Drain\<rparr>)
                   | Drain \<Rightarrow>
                       if now < vw_drainUntil v then Inl (Error ''drain interval has not elapsed'')
                       else commit (s\<lparr>phase := Retire\<rparr>)
                   | Retire \<Rightarrow> append_event env t ev
                   | Abort \<Rightarrow> append_event env t ev
                   | OtherPhase _ \<Rightarrow> commit s))))"

definition Rollback :: "'a journal_env_scheme \<Rightarrow> string option \<Rightarrow> journal \<Rightarrow> time \<Rightarrow> journal res" where
  "Rollback env rand t now =
     (case View env t of
        Inl e \<Rightarrow> Inl e
      | Inr v \<Rightarrow>
          if vw_complete v \<or> vw_rollbackRequested v then Inl (Error ''rollback is unavailable'')
          else
            (let s = rspec (vw_round v);
                 commit = (\<lambda>s'.
                   case NewRound env rand s' now (roundLifetime (j_policy t)) (p_maxReceiptAge (j_policy t)) of
                     Inl e \<Rightarrow> Inl e
                   | Inr nx \<Rightarrow>
                       append_event env t
                         \<lparr>e_op = OpRollback, e_at = now, e_receipts = [], e_next = Some nx\<rparr>) in
             (case phase s of
                Prepare \<Rightarrow> commit (s\<lparr>phase := Abort\<rparr>)
              | Switch \<Rightarrow> commit (swap_spec s)
              | Drain \<Rightarrow> commit (swap_spec s)
              | _ \<Rightarrow> Inl (Error ''cannot roll back after retirement is authorized''))))"

definition Renew :: "'a journal_env_scheme \<Rightarrow> string option \<Rightarrow> journal \<Rightarrow> time \<Rightarrow> journal res" where
  "Renew env rand t now =
     (case View env t of
        Inl e \<Rightarrow> Inl e
      | Inr v \<Rightarrow>
          if vw_complete v \<or> now < expiresAt (vw_round v)
            then Inl (Error ''round is not expired or transition is complete'')
          else
            (case NewRound env rand (rspec (vw_round v)) now
                    (roundLifetime (j_policy t)) (p_maxReceiptAge (j_policy t)) of
               Inl e \<Rightarrow> Inl e
             | Inr nx \<Rightarrow>
                 append_event env t
                   \<lparr>e_op = OpRenew, e_at = now, e_receipts = [], e_next = Some nx\<rparr>))"


section \<open>The replay step\<close>

lemma next_step_Inr:
  "next_step env p st ev (v, s) = Inr st' \<longleftrightarrow>
     (if vw_complete v
      then e_next ev = None \<and> st' = st\<lparr>rp_view := v\<lparr>vw_observed := []\<rparr>, rp_last := e_at ev\<rparr>
      else \<exists>n nx. e_next ev = Some n \<and> canonical env n = Inr nx \<and> rspec nx = s \<and> issuedAt nx = e_at ev \<and>
             time_sub (expiresAt nx) (issuedAt nx) = roundLifetime p \<and> maxReceiptAge nx = p_maxReceiptAge p \<and>
             nonce nx \<notin> rp_nonces st \<and>
             st' = st\<lparr>rp_view := v\<lparr>vw_round := nx, vw_observed := []\<rparr>, rp_validator := None,
                      rp_last := e_at ev, rp_nonces := insert (nonce nx) (rp_nonces st)\<rparr>)"
  by (auto simp: next_step_def Let_def res_inv)

lemma replay_validate_Inr:
  "replay_validate env st at proofs complete = Inr val \<longleftrightarrow>
     (rp_validator st = Some val \<or>
      rp_validator st = None \<and> receiptValidator env (vw_round (rp_view st)) = Inr val) \<and>
     validate val at proofs complete = Inr ()"
  by (cases "rp_validator st") (auto simp: replay_validate_def res_inv)

lemma replay_step_timely:
  "replay_step env p st ev = Inr st' \<Longrightarrow>
     \<not> vw_complete (rp_view st) \<and> rp_last st \<le> e_at ev \<and> issuedAt (vw_round (rp_view st)) \<le> e_at ev"
  by (auto simp: replay_step_def Let_def res_inv)

lemma replay_step_cases:
  assumes "replay_step env p st ev = Inr st'"
  obtains
    (observe) val byMember where
      "e_op ev = OpObserve" "e_next ev = None"
      "replay_validate env st (e_at ev) (self_authenticated (e_receipts ev)) False = Inr val"
      "merge_observed (fold (\<lambda>r f. f(rident r \<mapsto> r)) (vw_observed (rp_view st)) Map.empty) (e_receipts ev) = Inr byMember"
      "st' = st\<lparr>rp_view := (rp_view st)\<lparr>vw_observed :=
           List.map_filter (\<lambda>m. byMember (ident m)) (members (rspec (vw_round (rp_view st))))\<rparr>,
           rp_validator := Some val, rp_last := e_at ev\<rparr>"
  | (advance) val v s where
      "e_op ev = OpAdvance"
      "replay_validate env st (e_at ev) (self_authenticated (e_receipts ev)) True = Inr val"
      "advance_effect p (rp_view st) ev = Inr (v, s)"
      "next_step env p (st\<lparr>rp_validator := Some val\<rparr>) ev (v, s) = Inr st'"
  | (rollback) v s where
      "e_op ev = OpRollback" "rollback_effect (rp_view st) ev = Inr (v, s)"
      "next_step env p st ev (v, s) = Inr st'"
  | (renew) v s where
      "e_op ev = OpRenew" "renew_effect (rp_view st) ev = Inr (v, s)"
      "next_step env p st ev (v, s) = Inr st'"
proof (cases "e_op ev")
  case OpAdvance
  with assms that(2) show thesis by (auto simp: replay_step_def Let_def res_inv)
next
  case OpObserve
  with assms that(1) show thesis by (auto simp: replay_step_def observe_step_def Let_def res_inv)
next
  case OpRollback
  with assms that(3) show thesis by (auto simp: replay_step_def Let_def res_inv)
next
  case OpRenew
  with assms that(4) show thesis by (auto simp: replay_step_def Let_def res_inv)
qed (use assms in \<open>auto simp: replay_step_def Let_def split: if_splits\<close>)

section \<open>The replay invariant\<close>

definition unchanged :: "spec \<Rightarrow> spec \<Rightarrow> bool" where
  "unchanged s0 s = (fromGeneration s = fromGeneration s0 \<and> toGeneration s = toGeneration s0 \<and> members s = members s0)"

definition reversed :: "spec \<Rightarrow> spec \<Rightarrow> bool" where
  "reversed s0 s =
     (fromGeneration s = toGeneration s0 \<and> toGeneration s = fromGeneration s0 \<and>
      members s = map swap_member (members s0))"

definition lineage :: "spec \<Rightarrow> bool \<Rightarrow> spec \<Rightarrow> bool" where
  "lineage s0 rb s =
     (clusterUID s = clusterUID s0 \<and> transitionUID s = transitionUID s0 \<and> planHash s = planHash s0 \<and>
      (if rb then (phase s = Abort \<and> unchanged s0 s) \<or> (phase s \<in> {Switch, Drain, Retire} \<and> reversed s0 s)
       else phase s \<in> {Prepare, Switch, Drain, Retire} \<and> unchanged s0 s))"

definition cache_ok :: "'a journal_env_scheme \<Rightarrow> replay_state \<Rightarrow> bool" where
  "cache_ok env st =
     (\<forall>val. rp_validator st = Some val \<longrightarrow> receiptValidator env (vw_round (rp_view st)) = Inr val)"

definition replay_inv :: "'a journal_env_scheme \<Rightarrow> policy \<Rightarrow> spec \<Rightarrow> replay_state \<Rightarrow> bool" where
  "replay_inv env p s0 st =
     (let v = rp_view st; r = vw_round v in
      (\<exists>q. canonical env q = Inr r) \<and> nonce r \<in> rp_nonces st \<and> issuedAt r \<le> rp_last st \<and>
      time_sub (expiresAt r) (issuedAt r) = roundLifetime p \<and> maxReceiptAge r = p_maxReceiptAge p \<and>
      cache_ok env st \<and> lineage s0 (vw_rollbackRequested v) (rspec r) \<and>
      (vw_complete v \<longrightarrow> phase (rspec r) \<in> {Retire, Abort} \<and>
         vw_servingGeneration v = (if vw_rollbackRequested v then fromGeneration s0 else toGeneration s0)) \<and>
      (\<not> vw_complete v \<longrightarrow> vw_servingGeneration v = []))"

definition replay_rel :: "replay_state \<Rightarrow> replay_state \<Rightarrow> bool" where
  "replay_rel st st' =
     (rp_last st \<le> rp_last st' \<and> rp_nonces st \<subseteq> rp_nonces st' \<and>
      (vw_rollbackRequested (rp_view st) \<longrightarrow> vw_rollbackRequested (rp_view st')))"

lemma advance_effect_cases:
  assumes "advance_effect p v ev = Inr (v', s)"
  obtains
    (prepare) "phase (rspec (vw_round v)) = Prepare" "v' = v" "s = (rspec (vw_round v))\<lparr>phase := Switch\<rparr>"
  | (switch) "phase (rspec (vw_round v)) = Switch" "v' = v\<lparr>vw_drainUntil := e_at ev + drainInterval p\<rparr>"
      "s = (rspec (vw_round v))\<lparr>phase := Drain\<rparr>"
  | (drain) "phase (rspec (vw_round v)) = Drain" "v' = v" "s = (rspec (vw_round v))\<lparr>phase := Retire\<rparr>"
      "vw_drainUntil v \<noteq> 0" "vw_drainUntil v \<le> e_at ev"
      "\<forall>r \<in> set (e_receipts ev). vw_drainUntil v \<le> observedAt r"
  | (retire) "phase (rspec (vw_round v)) = Retire"
      "v' = v\<lparr>vw_complete := True, vw_servingGeneration := toGeneration (rspec (vw_round v))\<rparr>"
  | (abort) "phase (rspec (vw_round v)) = Abort"
      "v' = v\<lparr>vw_complete := True, vw_servingGeneration := fromGeneration (rspec (vw_round v))\<rparr>"
  using assms
  by (cases "phase (rspec (vw_round v))")
     (auto simp: advance_effect_def Let_def res_inv list_ex_iff not_less)

lemma rollback_effect_Inr:
  assumes "rollback_effect v ev = Inr (v', s)"
  shows "\<not> vw_rollbackRequested v \<and> e_receipts ev = [] \<and>
    v' = v\<lparr>vw_rollbackRequested := True, vw_drainUntil := 0\<rparr> \<and>
    (phase (rspec (vw_round v)) = Prepare \<and> s = (rspec (vw_round v))\<lparr>phase := Abort\<rparr> \<or>
     phase (rspec (vw_round v)) \<in> {Switch, Drain} \<and> s = swap_spec (rspec (vw_round v)))"
  using assms by (auto simp: rollback_effect_def Let_def res_inv split: phase.splits)

lemma renew_effect_Inr:
  "renew_effect v ev = Inr (v', s) \<longleftrightarrow>
     e_receipts ev = [] \<and> expiresAt (vw_round v) \<le> e_at ev \<and> v' = v \<and> s = rspec (vw_round v)"
  by (auto simp: renew_effect_def)

lemma validator_of_state:
  "cache_ok env st \<Longrightarrow> replay_validate env st at proofs c = Inr val \<Longrightarrow>
     receiptValidator env (vw_round (rp_view st)) = Inr val"
  by (auto simp: cache_ok_def replay_validate_Inr)

text \<open>What an effect has to deliver for the tail of the loop to keep the invariant.\<close>

definition effect_ok :: "spec \<Rightarrow> view \<Rightarrow> view \<Rightarrow> spec \<Rightarrow> bool" where
  "effect_ok s0 v v' s =
     (if vw_complete v'
      then vw_round v' = vw_round v \<and> vw_rollbackRequested v' = vw_rollbackRequested v \<and>
           phase (rspec (vw_round v)) \<in> {Retire, Abort} \<and>
           vw_servingGeneration v' = (if vw_rollbackRequested v then fromGeneration s0 else toGeneration s0)
      else lineage s0 (vw_rollbackRequested v') s \<and> vw_servingGeneration v' = [])"

lemma next_step_inv:
  assumes "replay_inv env p s0 st" and "issuedAt (vw_round (rp_view st)) \<le> e_at ev"
    and "effect_ok s0 (rp_view st) v s" and "next_step env p st ev (v, s) = Inr st'"
  shows "replay_inv env p s0 st'"
  using assms
  by (cases "vw_complete v") (auto simp: replay_inv_def Let_def cache_ok_def next_step_Inr effect_ok_def)

lemma advance_effect_ok:
  assumes "replay_inv env p s0 st" and "\<not> vw_complete (rp_view st)"
    and "advance_effect p (rp_view st) ev = Inr (v, s)"
  shows "effect_ok s0 (rp_view st) v s"
proof -
  have lin: "lineage s0 (vw_rollbackRequested (rp_view st)) (rspec (vw_round (rp_view st)))"
    and ser: "vw_servingGeneration (rp_view st) = []"
    using assms(1,2) by (simp_all add: replay_inv_def Let_def)
  note defs = effect_ok_def lineage_def unchanged_def reversed_def
  from assms(3) show ?thesis
    by (cases rule: advance_effect_cases; use lin ser assms(2) in \<open>simp add: defs split: if_splits\<close>)
qed

lemma rollback_effect_ok:
  assumes "replay_inv env p s0 st" and "\<not> vw_complete (rp_view st)"
    and "rollback_effect (rp_view st) ev = Inr (v, s)"
  shows "effect_ok s0 (rp_view st) v s"
proof -
  have lin: "lineage s0 (vw_rollbackRequested (rp_view st)) (rspec (vw_round (rp_view st)))"
    and ser: "vw_servingGeneration (rp_view st) = []"
    using assms(1,2) by (simp_all add: replay_inv_def Let_def)
  note defs = effect_ok_def lineage_def unchanged_def reversed_def swap_spec_def
  show ?thesis
    using rollback_effect_Inr [OF assms(3)] lin ser assms(2)
    by (elim conjE disjE; simp add: defs)
qed

lemma replay_inv_cache:
  assumes "replay_inv env p s0 st" and "replay_validate env st at proofs c = Inr val"
  shows "replay_inv env p s0 (st\<lparr>rp_validator := Some val\<rparr>)"
proof -
  have "cache_ok env st" using assms(1) by (simp add: replay_inv_def Let_def)
  then have "receiptValidator env (vw_round (rp_view st)) = Inr val"
    using assms(2) by (rule validator_of_state)
  with assms(1) show ?thesis by (simp add: replay_inv_def Let_def cache_ok_def)
qed

lemma replay_step_inv:
  assumes inv: "replay_inv env p s0 st" and step: "replay_step env p st ev = Inr st'"
  shows "replay_inv env p s0 st'"
proof -
  have nc: "\<not> vw_complete (rp_view st)" and at: "issuedAt (vw_round (rp_view st)) \<le> e_at ev"
    using replay_step_timely [OF step] by simp_all
  from step show ?thesis
  proof (cases rule: replay_step_cases)
    case (observe val byMember)
    with replay_inv_cache [OF inv observe(3)] at show ?thesis
      by (simp add: replay_inv_def Let_def cache_ok_def)
  next
    case (advance val v s)
    have "effect_ok s0 (rp_view (st\<lparr>rp_validator := Some val\<rparr>)) v s"
      using advance_effect_ok [OF inv nc advance(3)] by simp
    from next_step_inv [OF replay_inv_cache [OF inv advance(2)] _ this advance(4)] at
    show ?thesis by simp
  next
    case (rollback v s)
    from next_step_inv [OF inv at rollback_effect_ok [OF inv nc rollback(2)] rollback(3)]
    show ?thesis .
  next
    case (renew v s)
    then have "effect_ok s0 (rp_view st) v s"
      using inv nc by (simp add: replay_inv_def Let_def effect_ok_def renew_effect_Inr)
    from next_step_inv [OF inv at this renew(3)] show ?thesis .
  qed
qed

lemma advance_effect_frame:
  assumes "advance_effect p v ev = Inr (v', s)"
  shows "vw_rollbackRequested v' = vw_rollbackRequested v"
  using assms by (cases rule: advance_effect_cases) simp_all

lemma next_step_frame:
  assumes "next_step env p st ev (v, s) = Inr st'"
  shows "rp_last st' = e_at ev" "rp_nonces st \<subseteq> rp_nonces st'"
    "vw_rollbackRequested (rp_view st') = vw_rollbackRequested v"
    "case e_next ev of None \<Rightarrow> rp_nonces st' = rp_nonces st
     | Some n \<Rightarrow> nonce n \<notin> rp_nonces st \<and> rp_nonces st' = insert (nonce n) (rp_nonces st)"
proof -
  have nonce: "nonce r' = nonce r" if "canonical env r = Inr r'" for r r'
    using that by (auto simp: canonical_iff)
  show "rp_last st' = e_at ev" "rp_nonces st \<subseteq> rp_nonces st'"
    "vw_rollbackRequested (rp_view st') = vw_rollbackRequested v"
    "case e_next ev of None \<Rightarrow> rp_nonces st' = rp_nonces st
     | Some n \<Rightarrow> nonce n \<notin> rp_nonces st \<and> rp_nonces st' = insert (nonce n) (rp_nonces st)"
    using assms by (cases "vw_complete v"; auto simp: next_step_Inr dest: nonce)+
qed

lemma step_last: "replay_step env p st ev = Inr st' \<Longrightarrow> rp_last st' = e_at ev \<and> rp_last st \<le> e_at ev"
  by (frule replay_step_timely, erule replay_step_cases) (auto dest: next_step_frame(1))

lemma step_nonces:
  assumes "replay_step env p st ev = Inr st'"
  shows "case e_next ev of None \<Rightarrow> rp_nonces st' = rp_nonces st
     | Some n \<Rightarrow> nonce n \<notin> rp_nonces st \<and> rp_nonces st' = insert (nonce n) (rp_nonces st)"
  using assms by (cases rule: replay_step_cases) (auto dest!: next_step_frame(4) split: option.splits)

lemma step_rollback:
  assumes "replay_step env p st ev = Inr st'"
  shows "vw_rollbackRequested (rp_view st') \<longleftrightarrow> vw_rollbackRequested (rp_view st) \<or> e_op ev = OpRollback"
  using assms
  by (cases rule: replay_step_cases)
     (auto dest!: next_step_frame(3) advance_effect_frame rollback_effect_Inr simp: renew_effect_Inr)

lemma replay_step_rel: "replay_step env p st ev = Inr st' \<Longrightarrow> replay_rel st st'"
  using step_last [of env p st ev st'] step_nonces [of env p st ev st'] step_rollback [of env p st ev st']
  by (auto simp: replay_rel_def split: option.splits)

interpretation rp: guarded_replay "replay_step env p" "replay_inv env p s0" replay_rel for env p s0
  by unfold_locales
     (blast intro: replay_step_inv replay_step_rel, blast intro: replay_step_rel, auto simp: replay_rel_def)

section \<open>Histories\<close>

lemma View_iff:
  "View env j = Inr v \<longleftrightarrow> (\<exists>st0 st. start_state env j = Inr st0 \<and>
     res_fold (replay_step env (j_policy j)) st0 (j_events j) = Inr st \<and> v = rp_view st)"
  by (auto simp: View_def replay_def res_inv)

lemma start_state_Inr:
  assumes "start_state env j = Inr st0"
  obtains r where "canonical env (j_initial j) = Inr r" "st0 = initial_state r" "phase (rspec r) = Prepare"
    "time_sub (expiresAt r) (issuedAt r) = roundLifetime (j_policy j)"
    "maxReceiptAge r = p_maxReceiptAge (j_policy j)" "0 < drainInterval (j_policy j)"
    "0 < roundLifetime (j_policy j)"
  using assms by (auto simp: start_state_def Let_def res_inv)

lemma start_state_events: "start_state env (j\<lparr>j_events := es\<rparr>) = start_state env j"
  by (cases j, hypsubst, unfold start_state_def journal.update_convs journal.select_convs, rule refl)

lemma View_events:
  "View env (j\<lparr>j_events := es\<rparr>) = Inr v \<longleftrightarrow> (\<exists>st0 st. start_state env j = Inr st0 \<and>
     res_fold (replay_step env (j_policy j)) st0 es = Inr st \<and> v = rp_view st)"
  by (simp add: View_iff start_state_events)

lemma canonical_fields:
  assumes "canonical env r = Inr r'"
  shows "fromGeneration (rspec r') = fromGeneration (rspec r)" "toGeneration (rspec r') = toGeneration (rspec r)"
    "clusterUID (rspec r') = clusterUID (rspec r)" "transitionUID (rspec r') = transitionUID (rspec r)"
    "planHash (rspec r') = planHash (rspec r)" "phase (rspec r') = phase (rspec r)" "nonce r' = nonce r"
    "issuedAt r' = issuedAt r" "expiresAt r' = expiresAt r" "maxReceiptAge r' = maxReceiptAge r"
  using assms by (auto simp: canonical_iff)

lemma initial_inv:
  assumes "canonical env q = Inr r" and "phase (rspec r) = Prepare"
    and "time_sub (expiresAt r) (issuedAt r) = roundLifetime p" and "maxReceiptAge r = p_maxReceiptAge p"
  shows "replay_inv env p (rspec r) (initial_state r)"
  using assms by (auto simp: replay_inv_def Let_def initial_state_def cache_ok_def lineage_def unchanged_def)

lemma View_inv:
  assumes "View env j = Inr v"
  obtains r st where "canonical env (j_initial j) = Inr r" "v = rp_view st"
    "res_fold (replay_step env (j_policy j)) (initial_state r) (j_events j) = Inr st"
    "replay_inv env (j_policy j) (rspec r) (initial_state r)" "replay_inv env (j_policy j) (rspec r) st"
    "replay env j = Inr st"
proof -
  from assms obtain st0 st where st: "start_state env j = Inr st0"
    "res_fold (replay_step env (j_policy j)) st0 (j_events j) = Inr st" "v = rp_view st"
    by (auto simp: View_iff)
  from st(1) obtain r where r: "canonical env (j_initial j) = Inr r" "st0 = initial_state r"
    "phase (rspec r) = Prepare" "time_sub (expiresAt r) (issuedAt r) = roundLifetime (j_policy j)"
    "maxReceiptAge r = p_maxReceiptAge (j_policy j)"
    by (rule start_state_Inr)
  have inv: "replay_inv env (j_policy j) (rspec r) (initial_state r)" using r by (intro initial_inv)
  with st r have "replay_inv env (j_policy j) (rspec r) st" by (auto intro: rp.replay_inv)
  moreover have "replay env j = Inr st" using st by (simp add: replay_def)
  ultimately show thesis using st r inv that by simp
qed

lemma View_prefix:
  assumes "View env j = Inr v" and "prefix es (j_events j)"
  shows "\<exists>u. View env (j\<lparr>j_events := es\<rparr>) = Inr u"
  using assms res_fold_prefix unfolding View_iff [of env j] View_events by fast

lemma replay_snoc:
  "res_fold f st0 (es @ [ev]) = Inr st' \<Longrightarrow> (\<And>st. res_fold f st0 es = Inr st \<Longrightarrow> f st ev = Inr st' \<Longrightarrow> thesis) \<Longrightarrow> thesis"
  by (auto simp: res_fold_snoc)

subsection \<open>Chronology and nonces\<close>

lemma replay_sorted:
  assumes "res_fold (replay_step env p) st0 es = Inr st"
  shows "sorted (map e_at es) \<and> rp_last st0 \<le> rp_last st \<and>
     (\<forall>e \<in> set es. rp_last st0 \<le> e_at e \<and> e_at e \<le> rp_last st)"
  using assms
proof (induction es arbitrary: st rule: rev_induct)
  case (snoc ev es)
  then obtain st1 where st1: "res_fold (replay_step env p) st0 es = Inr st1" "replay_step env p st1 ev = Inr st"
    by (auto simp: res_fold_snoc)
  show ?case using snoc.IH [OF st1(1)] step_last [OF st1(2)] by (fastforce simp: sorted_append)
qed simp

definition journal_rounds :: "journal \<Rightarrow> round list" where
  "journal_rounds j = j_initial j # List.map_filter e_next (j_events j)"

lemma replay_nonces:
  assumes "res_fold (replay_step env p) st0 es = Inr st" 
  shows "rp_nonces st = rp_nonces st0 \<union> set (map nonce (List.map_filter e_next es)) \<and>
     distinct (map nonce (List.map_filter e_next es)) \<and>
     rp_nonces st0 \<inter> set (map nonce (List.map_filter e_next es)) = {}"
  using assms
proof (induction es arbitrary: st rule: rev_induct)
  case Nil
  then show ?case by (simp add: List.map_filter_simps)
next
  case (snoc ev es)
  then obtain st1 where st1: "res_fold (replay_step env p) st0 es = Inr st1" "replay_step env p st1 ev = Inr st"
    by (auto simp: res_fold_snoc)
  have eq: "List.map_filter e_next (es @ [ev]) = List.map_filter e_next es @ (case e_next ev of None \<Rightarrow> [] | Some n \<Rightarrow> [n])"
    by (simp add: List.map_filter_def split: option.splits)
  show ?case unfolding eq using snoc.IH [OF st1(1)] step_nonces [OF st1(2)] by (auto split: option.splits)
qed

subsection \<open>Evidence behind a retirement\<close>

text \<open>
  An event certifies a phase of a journal when it is an advance committed on top of the history
  \<open>es\<close>, the round current there is in that phase, and the event's receipts are a complete and
  current set for that round.
\<close>

definition certified :: "'a journal_env_scheme \<Rightarrow> journal \<Rightarrow> event list \<Rightarrow> event \<Rightarrow> phase \<Rightarrow> bool" where
  "certified env j es ev ph =
     (e_op ev = OpAdvance \<and>
      (\<exists>v d. View env (j\<lparr>j_events := es\<rparr>) = Inr v \<and> phase (rspec (vw_round v)) = ph \<and>
         canonicalDigest env (vw_round v) = Inr d \<and>
         receipts_ok (vw_round v) d (e_at ev) (self_authenticated (e_receipts ev)) True))"

lemma inv_validate:
  assumes inv: "replay_inv env p s0 st" and val: "replay_validate env st at proofs c = Inr val"
  shows "canonicalDigest env (vw_round (rp_view st)) = Inr (v_digest val)"
    and "receipts_ok (vw_round (rp_view st)) (v_digest val) at proofs c"
proof -
  have "cache_ok env st" using inv by (simp add: replay_inv_def Let_def)
  then have rv: "receiptValidator env (vw_round (rp_view st)) = Inr val" using val by (rule validator_of_state)
  then show "canonicalDigest env (vw_round (rp_view st)) = Inr (v_digest val)"
    by (auto simp: receiptValidator_def res_inv)
  have "distinct (map ident (members (rspec (vw_round (rp_view st)))))"
    using inv canonical_distinct by (auto simp: replay_inv_def Let_def)
  then show "receipts_ok (vw_round (rp_view st)) (v_digest val) at proofs c"
    using validate_iff [OF _ rv] val by (simp add: replay_validate_Inr)
qed

text \<open>How one step moves the phase.\<close>

lemma next_step_round:
  assumes "next_step env p st ev (v, s) = Inr st'"
  shows "vw_complete (rp_view st') = vw_complete v" "vw_drainUntil (rp_view st') = vw_drainUntil v"
    "rspec (vw_round (rp_view st')) = (if vw_complete v then rspec (vw_round v) else s)"
  using assms by (cases "vw_complete v"; auto simp: next_step_Inr)+

definition quiet :: "event \<Rightarrow> bool" where
  "quiet ev = (e_op ev = OpObserve \<or> e_op ev = OpRenew)"

lemma step_quiet:
  assumes "replay_step env p st ev = Inr st'" and "quiet ev"
  shows "rspec (vw_round (rp_view st')) = rspec (vw_round (rp_view st))"
    "vw_drainUntil (rp_view st') = vw_drainUntil (rp_view st)" "\<not> vw_complete (rp_view st')"
proof -
  have nc: "\<not> vw_complete (rp_view st)" using replay_step_timely [OF assms(1)] by simp
  from assms(1) show "rspec (vw_round (rp_view st')) = rspec (vw_round (rp_view st))"
    by (cases rule: replay_step_cases; use assms(2) nc in \<open>auto simp: quiet_def renew_effect_Inr dest: next_step_round\<close>)
  from assms(1) show "vw_drainUntil (rp_view st') = vw_drainUntil (rp_view st)"
    by (cases rule: replay_step_cases; use assms(2) nc in \<open>auto simp: quiet_def renew_effect_Inr dest: next_step_round\<close>)
  from assms(1) show "\<not> vw_complete (rp_view st')"
    by (cases rule: replay_step_cases; use assms(2) nc in \<open>auto simp: quiet_def renew_effect_Inr dest: next_step_round\<close>)
qed

lemma step_advance_phase:
  assumes "replay_step env p st ev = Inr st'" and "e_op ev = OpAdvance"
  shows "case phase (rspec (vw_round (rp_view st))) of
      Prepare \<Rightarrow> phase (rspec (vw_round (rp_view st'))) = Switch \<and> \<not> vw_complete (rp_view st')
    | Switch \<Rightarrow> phase (rspec (vw_round (rp_view st'))) = Drain \<and> \<not> vw_complete (rp_view st') \<and>
        vw_drainUntil (rp_view st') = e_at ev + drainInterval p
    | Drain \<Rightarrow> phase (rspec (vw_round (rp_view st'))) = Retire \<and> \<not> vw_complete (rp_view st') \<and>
        vw_drainUntil (rp_view st) \<le> e_at ev \<and> (\<forall>r \<in> set (e_receipts ev). vw_drainUntil (rp_view st) \<le> observedAt r)
    | Retire \<Rightarrow> phase (rspec (vw_round (rp_view st'))) = Retire \<and> vw_complete (rp_view st')
    | Abort \<Rightarrow> phase (rspec (vw_round (rp_view st'))) = Abort \<and> vw_complete (rp_view st')
    | OtherPhase _ \<Rightarrow> False"
proof -
  from assms obtain val v s where ve: "advance_effect p (rp_view st) ev = Inr (v, s)"
    and ns: "next_step env p (st\<lparr>rp_validator := Some val\<rparr>) ev (v, s) = Inr st'"
    by (cases rule: replay_step_cases) auto
  have nc: "\<not> vw_complete (rp_view st)" using replay_step_timely [OF assms(1)] by simp
  from ve show ?thesis
    by (cases rule: advance_effect_cases) (use nc next_step_round [OF ns] in simp_all)
qed

lemma step_rollback_phase:
  assumes "replay_step env p st ev = Inr st'" and "e_op ev = OpRollback"
  shows "phase (rspec (vw_round (rp_view st'))) \<in> {Abort, Switch} \<and> \<not> vw_complete (rp_view st')"
proof -
  from assms obtain v s where ve: "rollback_effect (rp_view st) ev = Inr (v, s)"
    and ns: "next_step env p st ev (v, s) = Inr st'"
    by (cases rule: replay_step_cases) auto
  have nc: "\<not> vw_complete (rp_view st)" using replay_step_timely [OF assms(1)] by simp
  show ?thesis
    using rollback_effect_Inr [OF ve] nc next_step_round [OF ns] by (auto simp: swap_spec_def)
qed

lemma step_op: "replay_step env p st ev = Inr st' \<Longrightarrow> quiet ev \<or> e_op ev = OpAdvance \<or> e_op ev = OpRollback"
  by (erule replay_step_cases) (auto simp: quiet_def)

text \<open>While draining, the history holds the advance out of the switch phase.\<close>

lemma drain_history:
  assumes "res_fold (replay_step env p) (initial_state r) es = Inr st" and "phase (rspec r) = Prepare"
    and "phase (rspec (vw_round (rp_view st))) = Drain"
  shows "\<exists>es1 sw es2 st1. es = es1 @ sw # es2 \<and> res_fold (replay_step env p) (initial_state r) es1 = Inr st1 \<and>
     phase (rspec (vw_round (rp_view st1))) = Switch \<and> e_op sw = OpAdvance \<and> list_all quiet es2 \<and>
     vw_drainUntil (rp_view st) = e_at sw + drainInterval p"
  using assms
proof (induction es arbitrary: st rule: rev_induct)
  case Nil
  then show ?case by (auto simp: initial_state_def)
next
  case (snoc ev es)
  then obtain st1 where st1: "res_fold (replay_step env p) (initial_state r) es = Inr st1"
    and step: "replay_step env p st1 ev = Inr st" by (auto simp: res_fold_snoc)
  consider "quiet ev" | "e_op ev = OpAdvance" | "e_op ev = OpRollback" using step_op [OF step] by blast
  then show ?case
  proof cases
    case 1
    note q = step_quiet [OF step 1]
    with snoc have "phase (rspec (vw_round (rp_view st1))) = Drain" by simp
    from snoc.IH [OF st1 snoc.prems(2) this] obtain es1 sw es2 st2 where
      h: "es = es1 @ sw # es2" "res_fold (replay_step env p) (initial_state r) es1 = Inr st2"
        "phase (rspec (vw_round (rp_view st2))) = Switch" "e_op sw = OpAdvance" "list_all quiet es2"
        "vw_drainUntil (rp_view st1) = e_at sw + drainInterval p" by blast
    then have "es @ [ev] = es1 @ sw # (es2 @ [ev])" "list_all quiet (es2 @ [ev])" using 1 by simp_all
    with h q show ?thesis by metis
  next
    case 2
    note a = step_advance_phase [OF step 2]
    with snoc.prems(3) have "phase (rspec (vw_round (rp_view st1))) = Switch"
      by (cases "phase (rspec (vw_round (rp_view st1)))") auto
    with a st1 2 have "es @ [ev] = es @ ev # []" "list_all quiet []"
      "vw_drainUntil (rp_view st) = e_at ev + drainInterval p" by simp_all
    with st1 2 \<open>phase (rspec (vw_round (rp_view st1))) = Switch\<close> show ?thesis by metis
  next
    case 3
    with step_rollback_phase [OF step] snoc.prems(3) show ?thesis by auto
  qed
qed

text \<open>Once retiring, it also holds the advance out of the drain phase.\<close>

lemma retire_history:
  assumes "res_fold (replay_step env p) (initial_state r) es = Inr st" and "phase (rspec r) = Prepare"
    and "phase (rspec (vw_round (rp_view st))) = Retire"
  shows "\<exists>esd dr es3 std. es = esd @ dr # es3 \<and> res_fold (replay_step env p) (initial_state r) esd = Inr std \<and>
     phase (rspec (vw_round (rp_view std))) = Drain \<and> e_op dr = OpAdvance \<and>
     vw_drainUntil (rp_view std) \<le> e_at dr \<and>
     (\<forall>x \<in> set (e_receipts dr). vw_drainUntil (rp_view std) \<le> observedAt x) \<and>
     (if vw_complete (rp_view st) then \<exists>es4 rt. es3 = es4 @ [rt] \<and> list_all quiet es4 \<and> e_op rt = OpAdvance
      else list_all quiet es3)"
  using assms
proof (induction es arbitrary: st rule: rev_induct)
  case Nil
  then show ?case by (auto simp: initial_state_def)
next
  case (snoc ev es)
  then obtain st1 where st1: "res_fold (replay_step env p) (initial_state r) es = Inr st1"
    and step: "replay_step env p st1 ev = Inr st" by (auto simp: res_fold_snoc)
  have nc: "\<not> vw_complete (rp_view st1)" using replay_step_timely [OF step] by simp
  consider "quiet ev" | "e_op ev = OpAdvance" | "e_op ev = OpRollback" using step_op [OF step] by blast
  then show ?case
  proof cases
    case 1
    note q = step_quiet [OF step 1]
    with snoc have "phase (rspec (vw_round (rp_view st1))) = Retire" by simp
    from snoc.IH [OF st1 snoc.prems(2) this] nc obtain esd dr es3 std where
      h: "es = esd @ dr # es3" "list_all quiet es3" "res_fold (replay_step env p) (initial_state r) esd = Inr std"
        "phase (rspec (vw_round (rp_view std))) = Drain" "e_op dr = OpAdvance"
        "vw_drainUntil (rp_view std) \<le> e_at dr"
        "\<forall>x \<in> set (e_receipts dr). vw_drainUntil (rp_view std) \<le> observedAt x" by auto
    then have "es @ [ev] = esd @ dr # (es3 @ [ev])" "list_all quiet (es3 @ [ev])" using 1 by simp_all
    with h q(3) show ?thesis by metis
  next
    case 2
    note a = step_advance_phase [OF step 2]
    with snoc.prems(3) consider (drain) "phase (rspec (vw_round (rp_view st1))) = Drain"
      | (retire) "phase (rspec (vw_round (rp_view st1))) = Retire"
      by (cases "phase (rspec (vw_round (rp_view st1)))") auto
    then show ?thesis
    proof cases
      case drain
      with a have "\<not> vw_complete (rp_view st)" "vw_drainUntil (rp_view st1) \<le> e_at ev"
        "\<forall>x \<in> set (e_receipts ev). vw_drainUntil (rp_view st1) \<le> observedAt x" by simp_all
      with drain st1 2 have "es @ [ev] = es @ ev # []" "list_all quiet []" by simp_all
      with drain st1 2 \<open>\<not> vw_complete (rp_view st)\<close> \<open>vw_drainUntil (rp_view st1) \<le> e_at ev\<close>
        \<open>\<forall>x \<in> set (e_receipts ev). vw_drainUntil (rp_view st1) \<le> observedAt x\<close>
      show ?thesis by metis
    next
      case retire
      from snoc.IH [OF st1 snoc.prems(2) this] nc obtain esd dr es3 std where
        h: "es = esd @ dr # es3" "list_all quiet es3" "res_fold (replay_step env p) (initial_state r) esd = Inr std"
          "phase (rspec (vw_round (rp_view std))) = Drain" "e_op dr = OpAdvance"
          "vw_drainUntil (rp_view std) \<le> e_at dr"
          "\<forall>x \<in> set (e_receipts dr). vw_drainUntil (rp_view std) \<le> observedAt x" by auto
      then have "es @ [ev] = esd @ dr # (es3 @ [ev])" by simp
      moreover have "\<exists>es4 rt. es3 @ [ev] = es4 @ [rt] \<and> list_all quiet es4 \<and> e_op rt = OpAdvance"
        using h(2) 2 by blast
      moreover have "vw_complete (rp_view st)" using a retire by simp
      ultimately show ?thesis using h(3-7)
        by (simp only: if_True) (rule exI [of _ esd], rule exI [of _ dr], rule exI [of _ "es3 @ [ev]"],
            rule exI [of _ std], simp)
    qed
  next
    case 3
    with step_rollback_phase [OF step] snoc.prems(3) show ?thesis by auto
  qed
qed

lemma certifiedI:
  assumes "start_state env j = Inr st0" and "res_fold (replay_step env (j_policy j)) st0 (es @ ev # es') = Inr st'"
    and "replay_inv env (j_policy j) s0 st0" and "res_fold (replay_step env (j_policy j)) st0 es = Inr st"
    and "e_op ev = OpAdvance" and "phase (rspec (vw_round (rp_view st))) = ph"
  shows "certified env j es ev ph"
proof -
  obtain st1 where step: "replay_step env (j_policy j) st ev = Inr st1"
    using assms(2,4) by (auto simp: res_fold_append split: sum.splits)
  then obtain val where val: "replay_validate env st (e_at ev) (self_authenticated (e_receipts ev)) True = Inr val"
    using assms(5) by (cases rule: replay_step_cases) auto
  have inv: "replay_inv env (j_policy j) s0 st" using assms(3,4) by (rule rp.replay_inv)
  have "View env (j\<lparr>j_events := es\<rparr>) = Inr (rp_view st)" using assms(1,4) by (auto simp: View_events)
  with inv_validate [OF inv val] assms(5,6) show ?thesis by (auto simp: certified_def)
qed

text \<open>C1: behind every retirement stand three certified advances in this order: one that ended the
  switch, one that ended the drain, and the last; only observations and renewals lie between them, and
  the drain ended, with receipts observed after, no earlier than the drain interval after the switch.\<close>

theorem retirement_evidence:
  assumes "View env j = Inr v" and "vw_complete v" and "phase (rspec (vw_round v)) = Retire"
  shows "\<exists>es1 sw es2 dr es3 rt. j_events j = es1 @ sw # es2 @ dr # es3 @ [rt] \<and>
     certified env j es1 sw Switch \<and> certified env j (es1 @ sw # es2) dr Drain \<and>
     certified env j (es1 @ sw # es2 @ dr # es3) rt Retire \<and>
     list_all quiet es2 \<and> list_all quiet es3 \<and>
     e_at sw + drainInterval (j_policy j) \<le> e_at dr \<and>
     (\<forall>x \<in> set (e_receipts dr). e_at sw + drainInterval (j_policy j) \<le> observedAt x)"
proof -
  from assms(1) obtain st0 st where start: "start_state env j = Inr st0"
    and run: "res_fold (replay_step env (j_policy j)) st0 (j_events j) = Inr st" and v: "v = rp_view st"
    by (auto simp: View_iff)
  from start obtain r where r: "canonical env (j_initial j) = Inr r" "st0 = initial_state r"
    "phase (rspec r) = Prepare" "time_sub (expiresAt r) (issuedAt r) = roundLifetime (j_policy j)"
    "maxReceiptAge r = p_maxReceiptAge (j_policy j)" by (rule start_state_Inr)
  have inv: "replay_inv env (j_policy j) (rspec r) st0" unfolding r(2) using r by (intro initial_inv)
  from retire_history [OF run [unfolded r(2)] r(3)] assms(2,3) v obtain esd dr es4 rt std where
    d: "j_events j = esd @ dr # es4 @ [rt]" "list_all quiet es4" "e_op rt = OpAdvance" "e_op dr = OpAdvance"
      "res_fold (replay_step env (j_policy j)) (initial_state r) esd = Inr std"
      "phase (rspec (vw_round (rp_view std))) = Drain" "vw_drainUntil (rp_view std) \<le> e_at dr"
      "\<forall>x \<in> set (e_receipts dr). vw_drainUntil (rp_view std) \<le> observedAt x" by auto
  from drain_history [OF d(5) r(3) d(6)] obtain es1 sw es2 st1 where
    w: "esd = es1 @ sw # es2" "res_fold (replay_step env (j_policy j)) (initial_state r) es1 = Inr st1"
      "phase (rspec (vw_round (rp_view st1))) = Switch" "e_op sw = OpAdvance" "list_all quiet es2"
      "vw_drainUntil (rp_view std) = e_at sw + drainInterval (j_policy j)" by blast
  have split: "j_events j = es1 @ sw # es2 @ dr # es4 @ [rt]" using d(1) w(1) by simp
  note cert = certifiedI [OF start _ inv]
  have run1: "res_fold (replay_step env (j_policy j)) st0 (es1 @ sw # (es2 @ dr # es4 @ [rt])) = Inr st"
    and run2: "res_fold (replay_step env (j_policy j)) st0 ((es1 @ sw # es2) @ dr # (es4 @ [rt])) = Inr st"
    and run3: "res_fold (replay_step env (j_policy j)) st0 ((es1 @ sw # es2 @ dr # es4) @ rt # []) = Inr st"
    using run split by simp_all
  have "certified env j es1 sw Switch"
    using cert [OF run1 w(2) [folded r(2)] w(4,3)] .
  moreover have "certified env j (es1 @ sw # es2) dr Drain"
    using cert [OF run2 d(5) [folded r(2), unfolded w(1)] d(4,6)] .
  moreover have "certified env j (es1 @ sw # es2 @ dr # es4) rt Retire"
  proof -
    from run3 obtain st3 where st3: "res_fold (replay_step env (j_policy j)) st0 (es1 @ sw # es2 @ dr # es4) = Inr st3"
      and final: "replay_step env (j_policy j) st3 rt = Inr st"
      by (auto simp: res_fold_append split: sum.splits)
    have "phase (rspec (vw_round (rp_view st3))) = Retire"
      using step_advance_phase [OF final d(3)] assms(2,3) v
      by (cases "phase (rspec (vw_round (rp_view st3)))") auto
    from cert [OF run3 st3 d(3) this] show ?thesis .
  qed
  moreover have "e_at sw + drainInterval (j_policy j) \<le> e_at dr"
    "\<forall>x \<in> set (e_receipts dr). e_at sw + drainInterval (j_policy j) \<le> observedAt x"
    using d(7,8) w(6) by simp_all
  ultimately show ?thesis using split d(2) w(5) by blast
qed

subsection \<open>Observations\<close>

text \<open>
  What the retained observations of the current round are: at most one per member, in the order
  of the members, each bound to the round's digest and to that member's keys.
\<close>

definition observation_ok :: "round \<Rightarrow> string \<Rightarrow> time \<Rightarrow> receipt \<Rightarrow> bool" where
  "observation_ok rnd d upto_at r =
     (roundHash r = d \<and> issuedAt rnd \<le> observedAt r \<and> observedAt r \<le> upto_at \<and>
      (\<exists>m \<in> set (members (rspec rnd)). rident r = ident m \<and> r_fromKey r = m_fromKey m \<and> r_toKey r = m_toKey m \<and>
         r_fromPeerKey r = m_fromPeerKey m \<and> r_toPeerKey r = m_toPeerKey m))"

lemma receipt_binds_observation:
  "receipt_binds rnd d now m r \<Longrightarrow> m \<in> set (members (rspec rnd)) \<Longrightarrow> observation_ok rnd d now r"
  by (auto simp: receipt_binds_def observation_ok_def)

definition observed_inv :: "'a journal_env_scheme \<Rightarrow> replay_state \<Rightarrow> bool" where
  "observed_inv env st =
     (let v = rp_view st; rnd = vw_round v in
      distinct (map rident (vw_observed v)) \<and>
      (vw_observed v \<noteq> [] \<longrightarrow> (\<exists>d. canonicalDigest env rnd = Inr d \<and>
         (\<forall>r \<in> set (vw_observed v). observation_ok rnd d (rp_last st) r))))"

lemma fold_receipt_map:
  "fold (\<lambda>r f. f(rident r \<mapsto> r)) rs g i = Some x \<Longrightarrow> (x \<in> set rs \<and> rident x = i) \<or> g i = Some x"
proof (induction rs arbitrary: g)
  case (Cons a rs)
  then show ?case using Cons.IH [of "g(rident a \<mapsto> a)"] by (auto split: if_splits)
qed simp

lemma merge_observed_dom:
  assumes "merge_observed g rs = Inr f" and "f i = Some x"
  shows "(x \<in> set rs \<and> rident x = i) \<or> g i = Some x"
  using assms
proof (induction rs arbitrary: g)
  case (Cons a rs)
  then have "merge_observed (g(rident a \<mapsto> a)) rs = Inr f" by (simp add: res_inv)
  from Cons.IH [OF this Cons.prems(2)] show ?case by (auto split: if_splits)
qed simp

lemma distinct_map_filter_keys:
  assumes "distinct (map k xs)" and "\<And>x y. x \<in> set xs \<Longrightarrow> f x = Some y \<Longrightarrow> h y = k x"
  shows "distinct (map h (List.map_filter f xs))"
  using assms
proof (induction xs)
  case (Cons x xs)
  then show ?case
    by (cases "f x") (force simp: List.map_filter_def image_iff)+
qed (simp add: List.map_filter_simps)

lemma observation_ok_mono: "observation_ok rnd d t r \<Longrightarrow> t \<le> t' \<Longrightarrow> observation_ok rnd d t' r"
  by (auto simp: observation_ok_def)

lemma observe_observed:
  assumes inv: "replay_inv env p s0 st" and obs: "observed_inv env st" and at: "rp_last st \<le> at"
    and val: "replay_validate env st at (self_authenticated rs) False = Inr val"
    and merge: "merge_observed (fold (\<lambda>r f. f(rident r \<mapsto> r)) (vw_observed (rp_view st)) Map.empty) rs = Inr byMember"
    and st': "rp_view st' = (rp_view st)\<lparr>vw_observed :=
        List.map_filter (\<lambda>m. byMember (ident m)) (members (rspec (vw_round (rp_view st))))\<rparr>" "rp_last st' = at"
  shows "observed_inv env st'"
proof -
  define rnd where "rnd = vw_round (rp_view st)"
  note dg = inv_validate [OF inv val]
  have new: "observation_ok rnd (v_digest val) at x" if "x \<in> set rs" for x
    using dg(2) that by (fastforce simp: receipts_ok_def self_authenticated_def rnd_def intro: receipt_binds_observation)
  have old: "observation_ok rnd (v_digest val) at x" if "x \<in> set (vw_observed (rp_view st))" for x
    using obs that dg(1) at by (auto simp: observed_inv_def Let_def rnd_def intro: observation_ok_mono)
  have bm: "observation_ok rnd (v_digest val) at x \<and> rident x = i" if "byMember i = Some x" for i x
    using merge_observed_dom [OF merge that] fold_receipt_map [of "vw_observed (rp_view st)" Map.empty i x] new old
    by auto
  have "distinct (map ident (members (rspec rnd)))"
    using inv canonical_distinct by (auto simp: replay_inv_def Let_def rnd_def)
  then have "distinct (map rident (List.map_filter (\<lambda>m. byMember (ident m)) (members (rspec rnd))))"
    using bm by (intro distinct_map_filter_keys [where k = ident]) auto
  moreover have "\<forall>x \<in> set (List.map_filter (\<lambda>m. byMember (ident m)) (members (rspec rnd))).
      observation_ok rnd (v_digest val) at x"
    using bm by (auto simp: List.map_filter_def)
  ultimately show ?thesis using dg(1) by (auto simp: observed_inv_def Let_def st' rnd_def)
qed

lemma next_step_observed: "next_step env p st ev (v, s) = Inr st' \<Longrightarrow> vw_observed (rp_view st') = []"
  by (cases "vw_complete v") (auto simp: next_step_Inr)

lemma step_observed:
  assumes "replay_inv env p s0 st" and "observed_inv env st" and step: "replay_step env p st ev = Inr st'"
  shows "observed_inv env st'"
  using step
proof (cases rule: replay_step_cases)
  case (observe val byMember)
  with assms step_last [OF step] show ?thesis by (auto intro: observe_observed)
qed (auto simp: observed_inv_def Let_def dest: next_step_observed)

interpretation ro: guarded_replay "replay_step env p" "\<lambda>st. replay_inv env p s0 st \<and> observed_inv env st" replay_rel
  for env p s0
  by unfold_locales (auto intro: replay_step_inv step_observed replay_step_rel rp.rel_trans simp: rp.rel_refl)

text \<open>Observations never change the authority of a journal.\<close>

lemma observe_frame:
  assumes "res_fold (replay_step env p) st es = Inr st'" and "\<forall>e \<in> set es. e_op e = OpObserve"
  shows "\<exists>obs. rp_view st' = (rp_view st)\<lparr>vw_observed := obs\<rparr>"
  using assms
proof (induction es arbitrary: st)
  case Nil
  then show ?case by (auto intro: exI [of _ "vw_observed (rp_view st)"])
next
  case (Cons e es)
  then obtain st1 where step: "replay_step env p st e = Inr st1" and run: "res_fold (replay_step env p) st1 es = Inr st'"
    by (auto split: sum.splits)
  from step Cons.prems(2) obtain o1 where "rp_view st1 = (rp_view st)\<lparr>vw_observed := o1\<rparr>"
    by (cases rule: replay_step_cases) auto
  with Cons.IH [OF run] Cons.prems(2) show ?case by auto
qed

subsection \<open>Minting rounds\<close>

text \<open>A member list that canonicalisation leaves alone.\<close>

definition canon_members :: "'a round_env_scheme \<Rightarrow> member list \<Rightarrow> bool" where
  "canon_members env ms = (ms \<noteq> [] \<and> members_ok env (has_transports ms) ms \<and> norm_members env ms = ms)"

lemma canonical_fix:
  "canonical env r = Inr r \<longleftrightarrow> round_ok env r \<and> canon_members env (members (rspec r))"
proof -
  have "r = r\<lparr>rspec := (rspec r)\<lparr>members := ns\<rparr>\<rparr> \<longleftrightarrow> ns = members (rspec r)" for ns
    by (cases r; cases "rspec r") auto
  then show ?thesis by (auto simp: canonical_iff canon_members_def round_ok_def)
qed

lemma canon_members_fix:
  assumes "canon_members env ms" and "m \<in> set ms"
  shows "norm_member env (has_transports ms) m = m"
proof -
  have ok: "members_ok env (has_transports ms) ms" and nf: "norm_members env ms = ms"
    using assms(1) by (simp_all add: canon_members_def)
  have "set (norm_members env ms) = norm_member env (has_transports ms) ` set ms"
    by (simp add: norm_members_def)
  then have "norm_member env (has_transports ms) m \<in> set ms" using assms(2) nf by auto
  moreover have "inj_on ident (set ms)" using ok by (simp add: members_ok_def distinct_map)
  ultimately show ?thesis using assms(2) by (simp add: inj_on_def)
qed

lemma canon_members_sorted: "canon_members env ms \<Longrightarrow> sorted (map ident ms)"
  unfolding canon_members_def norm_members_def by (metis sorted_sort_key)

lemma swap_member_simps [simp]:
  "m_nodeUID (swap_member m) = m_nodeUID m" "m_deviceID (swap_member m) = m_deviceID m"
  "m_fromKey (swap_member m) = m_toKey m" "m_toKey (swap_member m) = m_fromKey m"
  "m_fromPeerKey (swap_member m) = m_toPeerKey m" "m_toPeerKey (swap_member m) = m_fromPeerKey m"
  "swap_member (swap_member m) = m"
  by (simp_all add: swap_member_def)

lemma swap_member_keys:
  "member_keys env (swap_member m) = rev (member_keys env m)"
  "member_pairs env (swap_member m) = rev (member_pairs env m)"
  "member_ok env tr (swap_member m) = member_ok env tr m"
  "share_ok env (swap_member m) (swap_member m') = share_ok env m m'"
  by (auto simp: member_keys_def member_pairs_def member_ok_def share_ok_def)

lemma norm_swap: "norm_member env tr (swap_member m) = swap_member (norm_member env tr m)"
  by (simp add: norm_member_def swap_member_def)

lemma distinct_concat_rev:
  "distinct (concat (map (\<lambda>x. rev (f x)) xs)) \<longleftrightarrow> distinct (concat (map f xs))"
proof -
  have "mset (concat (map (\<lambda>x. rev (f x)) xs)) = mset (concat (map f xs))"
    by (induction xs) simp_all
  then show ?thesis by (rule mset_eq_imp_distinct_iff)
qed

lemma members_ok_swap: "members_ok env tr (map swap_member ms) \<longleftrightarrow> members_ok env tr ms"
  by (simp add: members_ok_def swap_member_keys comp_def distinct_concat_rev)

lemma canon_members_swap:
  assumes "canon_members env ms"
  shows "canon_members env (map swap_member ms)"
proof -
  have ne: "ms \<noteq> []" and ok: "members_ok env (has_transports ms) ms"
    using assms by (simp_all add: canon_members_def)
  have tr: "has_transports (map swap_member ms) = has_transports ms"
    using ne by (cases ms) (simp_all add: has_transports_def)
  have "map (norm_member env (has_transports ms)) (map swap_member ms) = map swap_member ms"
    using canon_members_fix [OF assms] by (simp add: norm_swap)
  then have "norm_members env (map swap_member ms) = sort_key ident (map swap_member ms)"
    by (simp add: norm_members_def tr del: map_map)
  also have "\<dots> = map swap_member ms"
    using ok canon_members_sorted [OF assms]
    by (intro sort_key_sorted_id) (simp_all add: members_ok_def comp_def)
  finally show ?thesis using ne ok tr by (simp add: canon_members_def members_ok_swap)
qed

lemma NewRound_ok:
  assumes "canon_members env (members s)" and "length b = 16" and "now \<noteq> 0" and "0 < A" and "A \<le> L" and "L < 2 ^ 63"
    and "token (clusterUID s)" "token (transitionUID s)" "token (fromGeneration s)" "token (toGeneration s)"
      "fromGeneration s \<noteq> toGeneration s" "hexToken (planHash s) 32" "known_phase (phase s)"
  shows "NewRound env (Some b) s now L A =
    Inr \<lparr>rspec = s, nonce = hex_encode b, issuedAt = now, expiresAt = now + L, maxReceiptAge = A\<rparr>"
proof -
  have "time_sub (now + L) now = L" using assms(4-6) by (simp add: time_sub_def)
  then show ?thesis
    using assms by (simp add: NewRound_def canonical_fix round_ok_def canon_members_def hexToken_encode)
qed

text \<open>A state of the replay, as the operations find it.\<close>

lemma inv_round:
  assumes "key_roundtrip env" and "replay_inv env p s0 st"
  shows "canonical env (vw_round (rp_view st)) = Inr (vw_round (rp_view st))"
    and "round_ok env (vw_round (rp_view st))"
    and "canon_members env (members (rspec (vw_round (rp_view st))))"
    and "roundLifetime p < 2 ^ 63" and "0 < p_maxReceiptAge p" and "p_maxReceiptAge p \<le> roundLifetime p"
proof -
  from assms(2) obtain q where "canonical env q = Inr (vw_round (rp_view st))"
    by (auto simp: replay_inv_def Let_def)
  with assms(1) show c: "canonical env (vw_round (rp_view st)) = Inr (vw_round (rp_view st))"
    by (rule canonical_idem)
  then show r: "round_ok env (vw_round (rp_view st))" and "canon_members env (members (rspec (vw_round (rp_view st))))"
    by (simp_all add: canonical_fix)
  have lt: "roundLifetime p = time_sub (expiresAt (vw_round (rp_view st))) (issuedAt (vw_round (rp_view st)))"
    and age: "p_maxReceiptAge p = maxReceiptAge (vw_round (rp_view st))"
    using assms(2) by (simp_all add: replay_inv_def Let_def)
  show "roundLifetime p < 2 ^ 63" unfolding lt using time_sub_bounds by blast
  show "0 < p_maxReceiptAge p" "p_maxReceiptAge p \<le> roundLifetime p"
    using r unfolding lt age by (simp_all add: round_ok_def)
qed

text \<open>The replay of a journal as the record of facts an operation starts from.\<close>

definition journal_at :: "'a journal_env_scheme \<Rightarrow> journal \<Rightarrow> spec \<Rightarrow> replay_state \<Rightarrow> bool" where
  "journal_at env j s0 st =
     (replay env j = Inr st \<and> replay_inv env (j_policy j) s0 st \<and> observed_inv env st)"

lemma View_journal_at:
  "View env j = Inr v \<longleftrightarrow> (\<exists>s0 st. journal_at env j s0 st \<and> v = rp_view st)"
proof
  assume "View env j = Inr v"
  then obtain r st where r: "canonical env (j_initial j) = Inr r" "v = rp_view st"
    "res_fold (replay_step env (j_policy j)) (initial_state r) (j_events j) = Inr st"
    "replay_inv env (j_policy j) (rspec r) (initial_state r)" "replay_inv env (j_policy j) (rspec r) st"
    "replay env j = Inr st"
    by (rule View_inv)
  have "observed_inv env (initial_state r)" by (simp add: observed_inv_def initial_state_def)
  with r have "observed_inv env st" using ro.replay_inv by blast
  then show "\<exists>s0 st. journal_at env j s0 st \<and> v = rp_view st"
    using r by (auto simp: journal_at_def)
next
  assume "\<exists>s0 st. journal_at env j s0 st \<and> v = rp_view st"
  then show "View env j = Inr v" by (auto simp: journal_at_def View_def)
qed

lemma replay_append:
  "replay env (j\<lparr>j_events := j_events j @ [ev]\<rparr>) = Inr st' \<longleftrightarrow>
     (\<exists>st. replay env j = Inr st \<and> replay_step env (j_policy j) st ev = Inr st')"
  by (auto simp: replay_def res_inv start_state_events res_fold_snoc)

lemma append_event_Inr:
  "append_event env j ev = Inr j' \<longleftrightarrow>
     j' = j\<lparr>j_events := j_events j @ [ev]\<rparr> \<and>
     (\<exists>st st'. replay env j = Inr st \<and> replay_step env (j_policy j) st ev = Inr st')"
proof -
  have "append_event env j ev = Inr j' \<longleftrightarrow> j' = j\<lparr>j_events := j_events j @ [ev]\<rparr> \<and>
      (\<exists>st'. replay env (j\<lparr>j_events := j_events j @ [ev]\<rparr>) = Inr st')"
    by (auto simp: append_event_def Let_def View_def res_inv)
  then show ?thesis unfolding replay_append by blast
qed

end
