(* ===== verification/Protocol.thy ===== *)
theory Protocol
  imports Transition
begin

text \<open>
  What the transition journal of \<open>controller/pkg/handover/transition.go\<close> promises as a protocol:
  an abstract step relation that every accepted event refines, the bound it gives on the number of
  effective events, when each operation succeeds, and the order \<open>Extends\<close> puts on journals.
\<close>

section \<open>The abstract protocol\<close>

text \<open>
  The protocol without identities, receipts and time: a handover is running in a phase, possibly
  rolled back, or finished. \<open>handover_step\<close> is its step relation, \<open>abs_state\<close> the abstraction of
  a replay state; every accepted event is a step of it (\<open>replay_step_simulates\<close>).
\<close>

datatype handover = Running phase bool | Finished bool

inductive handover_step :: "handover \<Rightarrow> operation \<Rightarrow> handover \<Rightarrow> bool" where
  hs_observe: "handover_step (Running ph rb) OpObserve (Running ph rb)"
| hs_renew: "handover_step (Running ph rb) OpRenew (Running ph rb)"
| hs_prepare: "handover_step (Running Prepare rb) OpAdvance (Running Switch rb)"
| hs_switch: "handover_step (Running Switch rb) OpAdvance (Running Drain rb)"
| hs_drain: "handover_step (Running Drain rb) OpAdvance (Running Retire rb)"
| hs_retire: "handover_step (Running Retire rb) OpAdvance (Finished rb)"
| hs_abort: "handover_step (Running Abort rb) OpAdvance (Finished rb)"
| hs_cancel: "handover_step (Running Prepare False) OpRollback (Running Abort True)"
| hs_revert: "ph = Switch \<or> ph = Drain \<Longrightarrow> handover_step (Running ph False) OpRollback (Running Switch True)"

inductive_cases finished_stepE [elim!]: "handover_step (Finished rb) op h"
inductive_cases running_advanceE: "handover_step (Running ph rb) OpAdvance h"
inductive_cases running_rollbackE: "handover_step (Running ph rb) OpRollback h"

definition abs_state :: "replay_state \<Rightarrow> handover" where
  "abs_state st =
     (let v = rp_view st in
      if vw_complete v then Finished (vw_rollbackRequested v)
      else Running (phase (rspec (vw_round v))) (vw_rollbackRequested v))"

lemma step_keeps_rollback:
  "replay_step env p st ev = Inr st' \<Longrightarrow> e_op ev \<noteq> OpRollback \<Longrightarrow>
     vw_rollbackRequested (rp_view st') = vw_rollbackRequested (rp_view st)"
  using step_rollback by blast

lemma replay_step_simulates:
  assumes step: "replay_step env p st ev = Inr st'"
  shows "handover_step (abs_state st) (e_op ev) (abs_state st')"
proof -
  have nc: "\<not> vw_complete (rp_view st)" using replay_step_timely [OF step] by simp
  consider (quiet) "quiet ev" | (adv) "e_op ev = OpAdvance" | (rb) "e_op ev = OpRollback" using step_op [OF step] by blast
  then show ?thesis
  proof cases
    case quiet
    with step_quiet [OF step quiet] nc step_keeps_rollback [OF step] show ?thesis
      by (auto simp: abs_state_def Let_def quiet_def intro: handover_step.intros)
  next
    case adv
    note keep = step_keeps_rollback [OF step]
    show ?thesis using step_advance_phase [OF step adv] nc keep adv
      by (cases "phase (rspec (vw_round (rp_view st)))")
         (auto simp: abs_state_def Let_def intro: handover_step.intros)
  next
    case rb
    with step obtain v s where ve: "rollback_effect (rp_view st) ev = Inr (v, s)"
      and ns: "next_step env p st ev (v, s) = Inr st'"
      by (cases rule: replay_step_cases) auto
    show ?thesis
      using rollback_effect_Inr [OF ve] nc next_step_round [OF ns] next_step_frame(3) [OF ns] rb
      by (auto simp: abs_state_def Let_def swap_spec_def intro: handover_step.intros)
  qed
qed

text \<open>Runs of the abstract protocol, and how many effective steps one can have.\<close>

inductive handover_run :: "handover \<Rightarrow> operation list \<Rightarrow> handover \<Rightarrow> bool" where
  hr_nil: "handover_run h [] h"
| hr_snoc: "handover_run h ops h1 \<Longrightarrow> handover_step h1 op h2 \<Longrightarrow> handover_run h (ops @ [op]) h2"

lemma replay_simulates:
  "res_fold (replay_step env p) st es = Inr st' \<Longrightarrow> handover_run (abs_state st) (map e_op es) (abs_state st')"
proof (induction es arbitrary: st' rule: rev_induct)
  case Nil
  then show ?case by (auto intro: hr_nil)
next
  case (snoc ev es)
  then show ?case by (auto simp: res_fold_snoc intro: hr_snoc replay_step_simulates)
qed

fun budget :: "handover \<Rightarrow> nat" where
  "budget (Finished _) = 0"
| "budget (Running Retire _) = 1"
| "budget (Running Abort _) = 1"
| "budget (Running Drain rb) = (if rb then 2 else 4)"
| "budget (Running Switch rb) = (if rb then 3 else 5)"
| "budget (Running Prepare _) = 6"
| "budget (Running (OtherPhase _) _) = 6"

definition effective :: "operation \<Rightarrow> bool" where
  "effective op = (op \<noteq> OpObserve \<and> op \<noteq> OpRenew)"

lemma budget_step:
  "handover_step h op h' \<Longrightarrow> (if effective op then budget h' < budget h else h' = h)"
  by (induction rule: handover_step.induct) (auto simp: effective_def)

lemma budget_run:
  "handover_run h ops h' \<Longrightarrow> length (filter effective ops) + budget h' \<le> budget h"
proof (induction rule: handover_run.induct)
  case (hr_snoc h ops h1 op h2)
  with budget_step [of h1 op h2] show ?case by (auto split: if_splits)
qed simp

lemma handover_deterministic:
  "handover_step h op h1 \<Longrightarrow> handover_step h op h2 \<Longrightarrow> h1 = h2"
  by (induction rule: handover_step.induct) (auto elim: handover_step.cases)

section \<open>Progress\<close>

text \<open>The instant of the last committed event.\<close>

definition last_at :: "journal \<Rightarrow> time" where
  "last_at j = (if j_events j = [] then issuedAt (j_initial j) else e_at (last (j_events j)))"

lemma journal_at_facts:
  assumes "journal_at env j s0 st"
  shows "rp_last st = last_at j" "rp_nonces st = set (map nonce (journal_rounds j))"
proof -
  from assms obtain st0 where st0: "start_state env j = Inr st0"
    and run: "res_fold (replay_step env (j_policy j)) st0 (j_events j) = Inr st"
    by (auto simp: journal_at_def replay_def res_inv)
  from st0 obtain r where r: "canonical env (j_initial j) = Inr r" "st0 = initial_state r" by (rule start_state_Inr)
  show "rp_last st = last_at j"
  proof (cases "j_events j" rule: rev_cases)
    case Nil
    with run r canonical_fields(8) [OF r(1)] show ?thesis by (auto simp: last_at_def initial_state_def)
  next
    case (snoc es ev)
    with run show ?thesis by (auto simp: last_at_def res_fold_snoc dest: step_last)
  qed
  show "rp_nonces st = set (map nonce (journal_rounds j))"
    using replay_nonces [OF run] r canonical_fields(7) [OF r(1)] by (auto simp: journal_rounds_def initial_state_def)
qed

lemma inv_validate_iff:
  assumes "replay_inv env p s0 st" and "canonicalDigest env (vw_round (rp_view st)) = Inr d"
  shows "(\<exists>val. replay_validate env st at proofs c = Inr val) \<longleftrightarrow> receipts_ok (vw_round (rp_view st)) d at proofs c"
proof -
  obtain val where rv: "receiptValidator env (vw_round (rp_view st)) = Inr val" and d: "v_digest val = d"
    using assms(2) by (auto simp: receiptValidator_def)
  have dist: "distinct (map ident (members (rspec (vw_round (rp_view st)))))"
    using assms(1) canonical_distinct by (auto simp: replay_inv_def Let_def)
  have cache: "rp_validator st = None \<or> rp_validator st = Some val"
    using assms(1) rv by (cases "rp_validator st") (auto simp: replay_inv_def Let_def cache_ok_def)
  have "(\<exists>w. replay_validate env st at proofs c = Inr w) \<longleftrightarrow> validate val at proofs c = Inr ()"
    using cache rv by (auto simp: replay_validate_Inr)
  then show ?thesis using validate_iff [OF dist rv] d by simp
qed

lemma validateReceipts_inv:
  assumes "key_roundtrip env" and inv: "replay_inv env p s0 st"
  shows "validateReceipts env (vw_round (rp_view st)) now as c = Inr () \<longleftrightarrow>
     (\<exists>d. canonicalDigest env (vw_round (rp_view st)) = Inr d \<and> receipts_ok (vw_round (rp_view st)) d now as c)"
  using inv_round(1) [OF assms] by (simp add: validateReceipts_iff)

lemma receipts_ok_self:
  "receipts_ok rnd d now as c \<Longrightarrow> self_authenticated (map a_receipt as) = as"
  by (auto simp: receipts_ok_def self_authenticated_def map_idI comp_def)

text \<open>When each operation succeeds. All of them need a replay that is not complete and an instant
  that is not before the last event.\<close>

lemma merge_observed_succeeds:
  assumes "distinct (map rident rs)" and "\<And>r o'. r \<in> set rs \<Longrightarrow> g (rident r) = Some o' \<Longrightarrow> observedAt o' \<le> observedAt r"
  shows "\<exists>f. merge_observed g rs = Inr f \<and> (\<forall>r \<in> set rs. f (rident r) = Some r) \<and>
     (\<forall>i. i \<notin> rident ` set rs \<longrightarrow> f i = g i)"
  using assms
proof (induction rs arbitrary: g)
  case (Cons a rs)
  have "\<exists>f. merge_observed (g(rident a \<mapsto> a)) rs = Inr f \<and> (\<forall>r \<in> set rs. f (rident r) = Some r) \<and>
      (\<forall>i. i \<notin> rident ` set rs \<longrightarrow> f i = (g(rident a \<mapsto> a)) i)"
    using Cons.prems by (intro Cons.IH) (auto simp: image_iff split: if_splits)
  moreover have "\<not> (case g (rident a) of None \<Rightarrow> False | Some old \<Rightarrow> observedAt a < observedAt old)"
    using Cons.prems(2) [of a] by (auto split: option.splits)
  ultimately show ?case using Cons.prems(1) by (auto simp: image_iff)
qed simp

lemma observe_step_succeeds:
  assumes "journal_at env j s0 st" and "\<not> vw_complete (rp_view st)" and "last_at j \<le> now"
    and "canonicalDigest env (vw_round (rp_view st)) = Inr d"
    and ok: "receipts_ok (vw_round (rp_view st)) d now as False"
    and fresh: "\<forall>a \<in> set as. \<forall>o' \<in> set (vw_observed (rp_view st)).
       rident o' = rident (a_receipt a) \<longrightarrow> observedAt o' \<le> observedAt (a_receipt a)"
  shows "\<exists>st'. replay_step env (j_policy j) st
       \<lparr>e_op = OpObserve, e_at = now, e_receipts = map a_receipt as, e_next = None\<rparr> = Inr st' \<and>
     a_receipt ` set as \<subseteq> set (vw_observed (rp_view st'))"
proof -
  have inv: "replay_inv env (j_policy j) s0 st" using assms(1) by (simp add: journal_at_def)
  have last: "rp_last st \<le> now" using assms(3) journal_at_facts(1) [OF assms(1)] by simp
  have issued: "issuedAt (vw_round (rp_view st)) \<le> now" using inv last by (auto simp: replay_inv_def Let_def)
  obtain val where val: "replay_validate env st now (self_authenticated (map a_receipt as)) False = Inr val"
    using inv_validate_iff [OF inv assms(4), THEN iffD2, OF ok] unfolding receipts_ok_self [OF ok] by blast
  define g where "g = fold (\<lambda>r f. f(rident r \<mapsto> r)) (vw_observed (rp_view st)) Map.empty"
  have "\<exists>f. merge_observed g (map a_receipt as) = Inr f \<and> (\<forall>r \<in> set (map a_receipt as). f (rident r) = Some r) \<and>
     (\<forall>i. i \<notin> rident ` set (map a_receipt as) \<longrightarrow> f i = g i)"
  proof (rule merge_observed_succeeds)
    show "distinct (map rident (map a_receipt as))" using ok by (simp add: receipts_ok_def comp_def)
    fix r o' assume r: "r \<in> set (map a_receipt as)" and "g (rident r) = Some o'"
    then have "o' \<in> set (vw_observed (rp_view st))" "rident o' = rident r"
      using fold_receipt_map [of "vw_observed (rp_view st)" Map.empty "rident r" o'] by (auto simp: g_def)
    with r fresh show "observedAt o' \<le> observedAt r" by auto
  qed
  then obtain f where f: "merge_observed g (map a_receipt as) = Inr f"
    "\<forall>r \<in> set (map a_receipt as). f (rident r) = Some r" by blast
  have "a_receipt a \<in> set (List.map_filter (\<lambda>m. f (ident m)) (members (rspec (vw_round (rp_view st)))))"
    if "a \<in> set as" for a
  proof -
    from ok that obtain m where m: "m \<in> set (members (rspec (vw_round (rp_view st))))" "rident (a_receipt a) = ident m"
      by (auto simp: receipts_ok_def receipt_binds_def)
    moreover have "f (ident m) = Some (a_receipt a)" using f(2) that m(2) by (metis image_eqI list.set_map)
    ultimately show ?thesis by (force simp: List.map_filter_def)
  qed
  then show ?thesis
    using assms(2) last issued val f(1) by (auto simp: replay_step_def observe_step_def Let_def g_def not_less)
qed

definition minted :: "policy \<Rightarrow> string \<Rightarrow> spec \<Rightarrow> time \<Rightarrow> round" where
  "minted p b s now =
     \<lparr>rspec = s, nonce = hex_encode b, issuedAt = now, expiresAt = now + roundLifetime p,
      maxReceiptAge = p_maxReceiptAge p\<rparr>"

definition successor_spec :: "spec \<Rightarrow> spec \<Rightarrow> bool" where
  "successor_spec s s' = ((\<exists>ph. known_phase ph \<and> s' = s\<lparr>phase := ph\<rparr>) \<or> s' = swap_spec s)"

lemma mint_succeeds:
  assumes "key_roundtrip env" and "replay_inv env p s0 st" and "length b = 16" and "now \<noteq> 0"
    and succ: "successor_spec (rspec (vw_round (rp_view st))) s'"
  shows "NewRound env (Some b) s' now (roundLifetime p) (p_maxReceiptAge p) = Inr (minted p b s' now)"
proof -
  note r = inv_round [OF assms(1,2)]
  have "canon_members env (members s')" using succ r(3) canon_members_swap [OF r(3)]
    by (auto simp: successor_spec_def swap_spec_def)
  then show ?thesis
    using r succ assms(3,4) unfolding minted_def
    by (intro NewRound_ok) (auto simp: round_ok_def successor_spec_def swap_spec_def known_phase_def)
qed

lemma next_step_succeeds:
  assumes "key_roundtrip env" and inv: "replay_inv env p s0 st" and "length b = 16" and "now \<noteq> 0"
    and "successor_spec (rspec (vw_round (rp_view st))) s'" and "\<not> vw_complete v"
    and "hex_encode b \<notin> rp_nonces st" and "e_at ev = now" and "e_next ev = Some (minted p b s' now)"
    and "rp_nonces st1 = rp_nonces st"
  shows "\<exists>st'. next_step env p st1 ev (v, s') = Inr st' \<and> vw_round (rp_view st') = minted p b s' now \<and>
     \<not> vw_complete (rp_view st')"
proof -
  have c: "canonical env (minted p b s' now) = Inr (minted p b s' now)"
    using mint_succeeds [OF assms(1-5)] by (simp add: NewRound_def minted_def)
  have "time_sub (now + roundLifetime p) now = roundLifetime p"
    using inv_round(4-6) [OF assms(1) inv] by (simp add: time_sub_def)
  with c show ?thesis using assms(6-10) by (simp add: next_step_Inr) (simp add: minted_def)
qed

lemma journal_at_timely:
  assumes "journal_at env j s0 st" and "last_at j \<le> now"
  shows "rp_last st \<le> now" "issuedAt (vw_round (rp_view st)) \<le> now"
  using assms journal_at_facts(1) [OF assms(1)] by (auto simp: journal_at_def replay_inv_def Let_def)

text \<open>The phase that follows a completed phase.\<close>

fun phase_next :: "phase \<Rightarrow> phase option" where
  "phase_next Prepare = Some Switch"
| "phase_next Switch = Some Drain"
| "phase_next Drain = Some Retire"
| "phase_next _ = None"

lemma advance_effect_succeeds:
  assumes "phase (rspec (vw_round v)) \<in> {Prepare, Switch, Drain}" and "\<not> vw_complete v"
    and "phase (rspec (vw_round v)) = Drain \<longrightarrow> vw_drainUntil v \<noteq> 0 \<and> vw_drainUntil v \<le> e_at ev \<and>
       (\<forall>r \<in> set (e_receipts ev). vw_drainUntil v \<le> observedAt r)"
  shows "\<exists>v' ph. phase_next (phase (rspec (vw_round v))) = Some ph \<and>
     advance_effect p v ev = Inr (v', (rspec (vw_round v))\<lparr>phase := ph\<rparr>) \<and> \<not> vw_complete v'"
  using assms by (auto simp: advance_effect_def Let_def list_ex_iff not_less)

lemma advance_terminal:
  assumes "phase (rspec (vw_round v)) \<in> {Retire, Abort}"
  shows "\<exists>v' s. advance_effect p v ev = Inr (v', s) \<and> vw_complete v'"
  using assms by (auto simp: advance_effect_def Let_def)

lemma replay_step_advance:
  assumes "\<not> vw_complete (rp_view st)" and "rp_last st \<le> e_at ev" and "issuedAt (vw_round (rp_view st)) \<le> e_at ev"
    and "e_op ev = OpAdvance"
    and "replay_validate env st (e_at ev) (self_authenticated (e_receipts ev)) True = Inr val"
    and "advance_effect p (rp_view st) ev = Inr ve"
  shows "replay_step env p st ev = next_step env p (st\<lparr>rp_validator := Some val\<rparr>) ev ve"
  using assms by (simp add: replay_step_def)

lemma append_commits:
  assumes "replay env j = Inr st" and "replay_step env (j_policy j) st ev = Inr st'"
  shows "append_event env j ev = Inr (j\<lparr>j_events := j_events j @ [ev]\<rparr>)"
    and "View env (j\<lparr>j_events := j_events j @ [ev]\<rparr>) = Inr (rp_view st')"
proof -
  have "replay env (j\<lparr>j_events := j_events j @ [ev]\<rparr>) = Inr st'" using assms by (auto simp: replay_append)
  then show "View env (j\<lparr>j_events := j_events j @ [ev]\<rparr>) = Inr (rp_view st')"
    and "append_event env j ev = Inr (j\<lparr>j_events := j_events j @ [ev]\<rparr>)"
    by (simp_all add: View_def append_event_def)
qed

lemma commit_next:
  assumes rt: "key_roundtrip env" and at: "journal_at env j s0 st"
    and b: "length b = 16" "now \<noteq> 0" "hex_encode b \<notin> set (map nonce (journal_rounds j))"
    and succ: "successor_spec (rspec (vw_round (rp_view st))) s'"
    and ev: "e_at ev = now" "e_next ev = Some (minted (j_policy j) b s' now)"
    and step: "replay_step env (j_policy j) st ev = next_step env (j_policy j) st1 ev (v1, s')"
    and v1: "\<not> vw_complete v1" and n1: "rp_nonces st1 = rp_nonces st"
  shows "\<exists>j' v'. append_event env j ev = Inr j' \<and> View env j' = Inr v' \<and>
     vw_round v' = minted (j_policy j) b s' now \<and> \<not> vw_complete v'"
proof -
  have inv: "replay_inv env (j_policy j) s0 st" and rep: "replay env j = Inr st"
    using at by (simp_all add: journal_at_def)
  have "hex_encode b \<notin> rp_nonces st" using b(3) journal_at_facts(2) [OF at] by simp
  from next_step_succeeds [OF rt inv b(1,2) succ v1 this ev n1]
  obtain st' where "replay_step env (j_policy j) st ev = Inr st'"
    "vw_round (rp_view st') = minted (j_policy j) b s' now" "\<not> vw_complete (rp_view st')"
    unfolding step by blast
  then show ?thesis using append_commits [OF rep] by blast
qed

lemma journal_at_validate:
  assumes rt: "key_roundtrip env" and at: "journal_at env j s0 st"
    and "validateReceipts env (vw_round (rp_view st)) now as c = Inr ()"
  shows "\<exists>val. replay_validate env st now (self_authenticated (map a_receipt as)) c = Inr val"
proof -
  have inv: "replay_inv env (j_policy j) s0 st" using at by (simp add: journal_at_def)
  then obtain d where d: "canonicalDigest env (vw_round (rp_view st)) = Inr d"
    and ok: "receipts_ok (vw_round (rp_view st)) d now as c"
    using assms(3) validateReceipts_inv [OF rt inv] by auto
  then show ?thesis
    using inv_validate_iff [OF inv d, THEN iffD2, OF ok] unfolding receipts_ok_self [OF ok] by blast
qed

lemma advance_next:
  assumes rt: "key_roundtrip env" and at: "journal_at env j s0 st" and "v = rp_view st" and nc: "\<not> vw_complete v"
    and ready: "Ready env (vw_round v) now as = Inr ()" and late: "last_at j \<le> now"
    and b: "length b = 16" "now \<noteq> 0" "hex_encode b \<notin> set (map nonce (journal_rounds j))"
    and drain: "phase (rspec (vw_round v)) = Drain \<longrightarrow> vw_drainUntil v \<noteq> 0 \<and> vw_drainUntil v \<le> now \<and>
       (\<forall>a \<in> set as. vw_drainUntil v \<le> observedAt (a_receipt a))"
    and ph: "phase_next (phase (rspec (vw_round v))) = Some ph"
  shows "\<exists>j' v'. Advance env (Some b) j now as = Inr j' \<and> View env j' = Inr v' \<and> \<not> vw_complete v' \<and>
     rspec (vw_round v') = (rspec (vw_round v))\<lparr>phase := ph\<rparr>"
proof -
  note vst = \<open>v = rp_view st\<close>
  define s' where "s' = (rspec (vw_round v))\<lparr>phase := ph\<rparr>"
  define nx where "nx = minted (j_policy j) b s' now"
  define ev where "ev = \<lparr>e_op = OpAdvance, e_at = now, e_receipts = map a_receipt as, e_next = Some nx\<rparr>"
  have p3: "phase (rspec (vw_round v)) \<in> {Prepare, Switch, Drain}" using ph by (cases "phase (rspec (vw_round v))") auto
  have succ: "successor_spec (rspec (vw_round (rp_view st))) s'"
    using ph p3 unfolding successor_spec_def s'_def vst
    by (intro disjI1 exI [of _ ph]) (auto simp: known_phase_def)
  have inv: "replay_inv env (j_policy j) s0 st" using at by (simp add: journal_at_def)
  have mint: "NewRound env (Some b) s' now (roundLifetime (j_policy j)) (p_maxReceiptAge (j_policy j)) = Inr nx"
    unfolding nx_def using rt inv b(1,2) succ by (rule mint_succeeds)
  obtain val where val: "replay_validate env st now (self_authenticated (map a_receipt as)) True = Inr val"
    using journal_at_validate [OF rt at, of now as True] ready by (auto simp: Ready_def vst)
  obtain v1 where v1: "advance_effect (j_policy j) (rp_view st) ev = Inr (v1, s')" "\<not> vw_complete v1"
    using advance_effect_succeeds [OF p3 nc, of ev "j_policy j"] drain ph by (auto simp: ev_def s'_def vst)
  have "replay_step env (j_policy j) st ev = next_step env (j_policy j) (st\<lparr>rp_validator := Some val\<rparr>) ev (v1, s')"
    using nc journal_at_timely [OF at late] val v1(1)
    by (intro replay_step_advance) (simp_all add: ev_def vst)
  with v1(2) obtain j' v' where j': "append_event env j ev = Inr j'" "View env j' = Inr v'" "\<not> vw_complete v'"
    and rnd: "vw_round v' = nx"
    using commit_next [OF rt at b succ, of ev "st\<lparr>rp_validator := Some val\<rparr>" v1] by (auto simp: ev_def nx_def)
  moreover have "View env j = Inr v" using at by (auto simp: journal_at_def View_def vst)
  with nc ready ph p3 drain mint j'(1) have "Advance env (Some b) j now as = Inr j'"
    by (auto simp: Advance_def Let_def s'_def ev_def)
  ultimately show ?thesis by (auto simp: nx_def minted_def s'_def)
qed

lemma advance_last:
  assumes rt: "key_roundtrip env" and at: "journal_at env j s0 st" and vst: "v = rp_view st" and nc: "\<not> vw_complete v"
    and ready: "Ready env (vw_round v) now as = Inr ()" and late: "last_at j \<le> now"
    and fin: "phase (rspec (vw_round v)) \<in> {Retire, Abort}"
  shows "\<exists>j' v'. Advance env rand j now as = Inr j' \<and> View env j' = Inr v' \<and> vw_complete v'"
proof -
  define ev where "ev = \<lparr>e_op = OpAdvance, e_at = now, e_receipts = map a_receipt as, e_next = None\<rparr>"
  have rep: "replay env j = Inr st" using at by (simp add: journal_at_def)
  obtain val where val: "replay_validate env st now (self_authenticated (map a_receipt as)) True = Inr val"
    using journal_at_validate [OF rt at, of now as True] ready by (auto simp: Ready_def vst)
  obtain v1 s where v1: "advance_effect (j_policy j) (rp_view st) ev = Inr (v1, s)" "vw_complete v1"
    using advance_terminal [of v "j_policy j" ev] fin by (auto simp: vst)
  have "replay_step env (j_policy j) st ev = next_step env (j_policy j) (st\<lparr>rp_validator := Some val\<rparr>) ev (v1, s)"
    using nc journal_at_timely [OF at late] val v1(1)
    by (intro replay_step_advance) (simp_all add: ev_def vst)
  with v1(2) obtain st' where st': "replay_step env (j_policy j) st ev = Inr st'" "vw_complete (rp_view st')"
    by (simp add: next_step_Inr ev_def)
  note commits = append_commits [OF rep st'(1)]
  have "View env j = Inr v" using rep by (simp add: View_def vst)
  with nc ready fin commits(1)
  have "Advance env rand j now as = Inr (j\<lparr>j_events := j_events j @ [ev]\<rparr>)"
    by (auto simp: Advance_def Let_def ev_def)
  with commits(2) st'(2) show ?thesis by blast
qed

lemma view_lineage:
  assumes "replay_inv env p s0 st"
  shows "phase (rspec (vw_round (rp_view st))) \<in> {Prepare, Switch, Drain, Retire, Abort}"
  using assms by (auto simp: replay_inv_def Let_def lineage_def split: if_splits)

text \<open>C7: \<open>Advance\<close> succeeds on a running journal whenever the receipts are complete and current for its round, its last event is not after now, the nonce drawn
  is none of the journal's rounds', and, in the drain phase, the drain deadline has passed and every receipt was observed after it. The journal it
  returns replays in the next phase with the same identities, or, from the retire and abort phases, which have none, is complete.\<close>

theorem Advance_commits:
  assumes rt: "key_roundtrip env" and v: "View env j = Inr v" and nc: "\<not> vw_complete v"
    and ready: "Ready env (vw_round v) now as = Inr ()" and late: "last_at j \<le> now"
    and b: "length b = 16" "now \<noteq> 0" "hex_encode b \<notin> set (map nonce (journal_rounds j))"
    and drain: "phase (rspec (vw_round v)) = Drain \<longrightarrow> vw_drainUntil v \<noteq> 0 \<and> vw_drainUntil v \<le> now \<and>
       (\<forall>a \<in> set as. vw_drainUntil v \<le> observedAt (a_receipt a))"
  shows "\<exists>j' v'. Advance env (Some b) j now as = Inr j' \<and> View env j' = Inr v' \<and>
     (case phase_next (phase (rspec (vw_round v))) of
        None \<Rightarrow> vw_complete v'
      | Some ph \<Rightarrow> \<not> vw_complete v' \<and> rspec (vw_round v') = (rspec (vw_round v))\<lparr>phase := ph\<rparr>)"
proof -
  from v obtain s0 st where at: "journal_at env j s0 st" and vst: "v = rp_view st" by (auto simp: View_journal_at)
  show ?thesis
  proof (cases "phase_next (phase (rspec (vw_round v)))")
    case None
    with at view_lineage [of env "j_policy j" s0 st] have "phase (rspec (vw_round v)) \<in> {Retire, Abort}"
      by (auto simp: journal_at_def vst)
    with None advance_last [OF rt at vst nc ready late] show ?thesis by simp
  next
    case (Some ph)
    with advance_next [OF rt at vst nc ready late b drain Some] show ?thesis by auto
  qed
qed

lemma replay_step_marked:
  assumes "\<not> vw_complete (rp_view st)" and "rp_last st \<le> e_at ev" and "issuedAt (vw_round (rp_view st)) \<le> e_at ev"
    and "e_op ev = OpRollback \<and> rollback_effect (rp_view st) ev = Inr ve \<or>
         e_op ev = OpRenew \<and> renew_effect (rp_view st) ev = Inr ve"
  shows "replay_step env p st ev = next_step env p st ev ve"
  using assms by (auto simp: replay_step_def)

text \<open>Before retirement is authorised, the first \<open>Rollback\<close> of a running journal succeeds: it aborts
  a preparation and reverses the two generations of a switch or drain.\<close>

theorem Rollback_commits:
  assumes rt: "key_roundtrip env" and v: "View env j = Inr v" and nc: "\<not> vw_complete v" "\<not> vw_rollbackRequested v"
    and ph: "phase (rspec (vw_round v)) \<in> {Prepare, Switch, Drain}" and late: "last_at j \<le> now"
    and b: "length b = 16" "now \<noteq> 0" "hex_encode b \<notin> set (map nonce (journal_rounds j))"
  shows "\<exists>j' v'. Rollback env (Some b) j now = Inr j' \<and> View env j' = Inr v' \<and> \<not> vw_complete v' \<and>
     rspec (vw_round v') =
       (if phase (rspec (vw_round v)) = Prepare then (rspec (vw_round v))\<lparr>phase := Abort\<rparr>
        else swap_spec (rspec (vw_round v)))"
proof -
  from v obtain s0 st where at: "journal_at env j s0 st" and vst: "v = rp_view st" by (auto simp: View_journal_at)
  define s' where "s' = (if phase (rspec (vw_round v)) = Prepare then (rspec (vw_round v))\<lparr>phase := Abort\<rparr>
      else swap_spec (rspec (vw_round v)))"
  define nx where "nx = minted (j_policy j) b s' now"
  define ev where "ev = \<lparr>e_op = OpRollback, e_at = now, e_receipts = [], e_next = Some nx\<rparr>"
  define v1 where "v1 = v\<lparr>vw_rollbackRequested := True, vw_drainUntil := 0\<rparr>"
  have succ: "successor_spec (rspec (vw_round (rp_view st))) s'"
    by (auto simp: successor_spec_def s'_def vst known_phase_def intro!: exI [of _ Abort])
  have inv: "replay_inv env (j_policy j) s0 st" using at by (simp add: journal_at_def)
  have mint: "NewRound env (Some b) s' now (roundLifetime (j_policy j)) (p_maxReceiptAge (j_policy j)) = Inr nx"
    unfolding nx_def using rt inv b(1,2) succ by (rule mint_succeeds)
  have "replay_step env (j_policy j) st ev = next_step env (j_policy j) st ev (v1, s')"
    using nc journal_at_timely [OF at late] ph
    by (intro replay_step_marked) (auto simp: ev_def vst rollback_effect_def v1_def s'_def Let_def)
  with nc obtain j' v' where j': "append_event env j ev = Inr j'" "View env j' = Inr v'" "\<not> vw_complete v'"
    and rnd: "vw_round v' = nx"
    using commit_next [OF rt at b succ, of ev st v1] by (auto simp: ev_def nx_def v1_def)
  moreover from v nc ph mint j'(1) have "Rollback env (Some b) j now = Inr j'"
    by (auto simp: Rollback_def Let_def s'_def ev_def)
  ultimately show ?thesis by (auto simp: nx_def minted_def s'_def)
qed

text \<open>An expired round of a running journal can always be renewed: \<open>Renew\<close> succeeds with the same
  intent and a round issued now.\<close>

theorem Renew_commits:
  assumes rt: "key_roundtrip env" and v: "View env j = Inr v" and nc: "\<not> vw_complete v"
    and expired: "expiresAt (vw_round v) \<le> now" and late: "last_at j \<le> now"
    and b: "length b = 16" "now \<noteq> 0" "hex_encode b \<notin> set (map nonce (journal_rounds j))"
  shows "\<exists>j' v'. Renew env (Some b) j now = Inr j' \<and> View env j' = Inr v' \<and> \<not> vw_complete v' \<and>
     rspec (vw_round v') = rspec (vw_round v) \<and> issuedAt (vw_round v') = now"
proof -
  from v obtain s0 st where at: "journal_at env j s0 st" and vst: "v = rp_view st" by (auto simp: View_journal_at)
  define nx where "nx = minted (j_policy j) b (rspec (vw_round v)) now"
  define ev where "ev = \<lparr>e_op = OpRenew, e_at = now, e_receipts = [], e_next = Some nx\<rparr>"
  have inv: "replay_inv env (j_policy j) s0 st" using at by (simp add: journal_at_def)
  have succ: "successor_spec (rspec (vw_round (rp_view st))) (rspec (vw_round v))"
    using view_lineage [OF inv]
    by (auto simp: successor_spec_def vst known_phase_def intro!: exI [of _ "phase (rspec (vw_round v))"])
  have mint: "NewRound env (Some b) (rspec (vw_round v)) now (roundLifetime (j_policy j)) (p_maxReceiptAge (j_policy j)) = Inr nx"
    unfolding nx_def using rt inv b(1,2) succ by (rule mint_succeeds)
  have "replay_step env (j_policy j) st ev = next_step env (j_policy j) st ev (v, rspec (vw_round v))"
    using nc journal_at_timely [OF at late] expired
    by (intro replay_step_marked) (auto simp: ev_def vst renew_effect_def)
  with nc obtain j' v' where j': "append_event env j ev = Inr j'" "View env j' = Inr v'" "\<not> vw_complete v'"
    and rnd: "vw_round v' = nx"
    using commit_next [OF rt at b succ, of ev st v] by (auto simp: ev_def nx_def)
  moreover from v nc expired mint j'(1) have "Renew env (Some b) j now = Inr j'"
    by (auto simp: Renew_def Let_def ev_def)
  ultimately show ?thesis by (auto simp: nx_def minted_def)
qed

text \<open>Valid receipts of some members that are not older than the retained ones make \<open>Observe\<close>
  succeed, keep the round, and are retained.\<close>

theorem Observe_commits:
  assumes rt: "key_roundtrip env" and v: "View env j = Inr v" and nc: "\<not> vw_complete v"
    and valid: "ValidateReceipts env (vw_round v) now as = Inr ()" and late: "last_at j \<le> now"
    and fresh: "\<forall>a \<in> set as. \<forall>o' \<in> set (vw_observed v).
       rident o' = rident (a_receipt a) \<longrightarrow> observedAt o' \<le> observedAt (a_receipt a)"
  shows "\<exists>j' v'. Observe env j now as = Inr j' \<and> View env j' = Inr v' \<and> vw_round v' = vw_round v \<and>
     a_receipt ` set as \<subseteq> set (vw_observed v')"
proof -
  from v obtain s0 st where at: "journal_at env j s0 st" and vst: "v = rp_view st" by (auto simp: View_journal_at)
  have inv: "replay_inv env (j_policy j) s0 st" and rep: "replay env j = Inr st" using at by (simp_all add: journal_at_def)
  obtain d where d: "canonicalDigest env (vw_round (rp_view st)) = Inr d"
    and ok: "receipts_ok (vw_round (rp_view st)) d now as False"
    using valid validateReceipts_inv [OF rt inv] by (auto simp: ValidateReceipts_def vst)
  define ev where "ev = \<lparr>e_op = OpObserve, e_at = now, e_receipts = map a_receipt as, e_next = None\<rparr>"
  obtain st' where st': "replay_step env (j_policy j) st ev = Inr st'" "a_receipt ` set as \<subseteq> set (vw_observed (rp_view st'))"
    using observe_step_succeeds [OF at _ late d ok] nc fresh by (auto simp: vst ev_def)
  note commits = append_commits [OF rep st'(1)]
  have "vw_round (rp_view st') = vw_round v" using observe_frame [of env "j_policy j" st "[ev]" st'] st'(1) by (auto simp: ev_def vst)
  moreover have "Observe env j now as = Inr (j\<lparr>j_events := j_events j @ [ev]\<rparr>)"
    using v nc valid commits(1) by (simp add: Observe_def ev_def)
  ultimately show ?thesis using commits(2) st'(2) by blast
qed

section \<open>The order of journals\<close>

text \<open>Reading back what was written: the JSON text of a journal determines it.\<close>

definition json_faithful :: "'a journal_env_scheme \<Rightarrow> bool" where
  "json_faithful env = (\<forall>j s. marshal_journal env j = Some s \<longrightarrow> json_journal env s = Some (j, True))"

lemma marshal_inj:
  "json_faithful env \<Longrightarrow> marshal_journal env j = Some s \<Longrightarrow> marshal_journal env j' = Some s \<Longrightarrow> j = j'"
  unfolding json_faithful_def by (metis option.inject prod.inject)

lemma Bytes_Inr:
  "Bytes env j = Inr s \<longleftrightarrow> (\<exists>v. View env j = Inr v) \<and> marshal_journal env j = Some s"
  by (cases "marshal_journal env j") (auto simp: Bytes_def res_inv)

lemma take_events [simp]: "j\<lparr>j_events := j_events j\<rparr> = j"
  by simp

definition cut_journal :: "journal \<Rightarrow> nat \<Rightarrow> journal" where
  "cut_journal j n = j\<lparr>j_events := take n (j_events j)\<rparr>"

lemma cut_events [simp]: "j_events (cut_journal j n) = take n (j_events j)"
  and cut_cut [simp]: "cut_journal (cut_journal j n) k = cut_journal j (min k n)"
  and cut_all: "length (j_events j) \<le> n \<Longrightarrow> cut_journal j n = j"
  by (simp_all add: cut_journal_def)

lemma View_cut: "View env j = Inr v \<Longrightarrow> \<exists>v'. View env (cut_journal j n) = Inr v'"
  using View_prefix [of env j v "take n (j_events j)"] by (simp add: cut_journal_def take_is_prefix)

lemma Extends_Inr:
  "Extends env t p = Inr () \<longleftrightarrow>
     (\<exists>v. View env t = Inr v) \<and> (\<exists>v. View env p = Inr v) \<and> length (j_events p) \<le> length (j_events t) \<and>
     (\<exists>s. marshal_journal env p = Some s \<and> marshal_journal env (cut_journal t (length (j_events p))) = Some s)"
proof -
  have *: "Extends env t p = Inr () \<longleftrightarrow> (\<exists>s. Bytes env p = Inr s \<and> (\<exists>v. View env t = Inr v) \<and>
      length (j_events p) \<le> length (j_events t) \<and> Bytes env (cut_journal t (length (j_events p))) = Inr s)"
    by (auto simp: Extends_def res_inv cut_journal_def)
  show ?thesis unfolding * Bytes_Inr using View_cut [of env t] by blast
qed

lemma Extends_iff:
  assumes "json_faithful env"
  shows "Extends env t p = Inr () \<longleftrightarrow>
     (\<exists>v. View env t = Inr v) \<and> (\<exists>s. marshal_journal env p = Some s) \<and>
     length (j_events p) \<le> length (j_events t) \<and> p = cut_journal t (length (j_events p))"
proof -
  have "p = cut_journal t (length (j_events p))"
    if "marshal_journal env p = Some s" "marshal_journal env (cut_journal t (length (j_events p))) = Some s" for s
    using marshal_inj [OF assms that] .
  then show ?thesis unfolding Extends_Inr using View_cut [of env t _ "length (j_events p)"] by metis
qed

lemma extends_self: "Bytes env j = Inr s \<Longrightarrow> Extends env j j = Inr ()"
  by (auto simp: Extends_Inr Bytes_Inr cut_all)

lemma extends_trans:
  assumes "json_faithful env" and tp: "Extends env t p = Inr ()" and pq: "Extends env p q = Inr ()"
  shows "Extends env t q = Inr ()"
proof -
  have p: "p = cut_journal t (length (j_events p))" and l: "length (j_events p) \<le> length (j_events t)"
    and v: "\<exists>v. View env t = Inr v" using tp by (auto simp: Extends_iff [OF assms(1)])
  have "q = cut_journal p (length (j_events q))" and m: "length (j_events q) \<le> length (j_events p)"
    and s: "\<exists>s. marshal_journal env q = Some s" using pq by (auto simp: Extends_iff [OF assms(1)])
  then have "q = cut_journal t (length (j_events q))"
    using p by (metis cut_cut min.absorb1)
  with v s l m show ?thesis by (auto simp: Extends_iff [OF assms(1)])
qed

lemma extends_antisym:
  assumes "json_faithful env" and "Extends env t p = Inr ()" and "Extends env p t = Inr ()"
  shows "t = p"
  using assms by (auto simp: Extends_iff cut_all)

lemma extends_linear:
  assumes js: "json_faithful env" and p: "Extends env t p = Inr ()" and q: "Extends env t q = Inr ()"
    and le: "length (j_events p) \<le> length (j_events q)"
  shows "Extends env q p = Inr ()"
proof -
  have "p = cut_journal t (length (j_events p))" "q = cut_journal t (length (j_events q))"
    using p q by (auto simp: Extends_iff [OF js])
  then have "p = cut_journal q (length (j_events p))" using le by (metis cut_cut min.absorb1)
  with p q le show ?thesis by (auto simp: Extends_iff [OF js] Extends_Inr)
qed

text \<open>Every operation appends exactly one event.\<close>

lemma append_event_shape:
  "append_event env j ev = Inr j' \<Longrightarrow>
     j' = j\<lparr>j_events := j_events j @ [ev]\<rparr> \<and> (\<exists>v. View env j' = Inr v)"
  by (auto simp: append_event_def Let_def res_inv)

definition appends :: "'a journal_env_scheme \<Rightarrow> journal \<Rightarrow> time \<Rightarrow> journal \<Rightarrow> bool" where
  "appends env j now j' = (\<exists>ev v. append_event env j ev = Inr j' \<and> View env j = Inr v \<and> \<not> vw_complete v \<and> e_at ev = now)"

lemma appendsI:
  "append_event env j ev = Inr j' \<Longrightarrow> View env j = Inr v \<Longrightarrow> \<not> vw_complete v \<Longrightarrow> e_at ev = now \<Longrightarrow> appends env j now j'"
  unfolding appends_def by blast

lemma Observe_appends: "Observe env j now as = Inr j' \<Longrightarrow> appends env j now j'"
  by (auto simp: Observe_def res_inv intro: appendsI)

lemma Renew_appends: "Renew env rand j now = Inr j' \<Longrightarrow> appends env j now j'"
  by (auto simp: Renew_def res_inv intro: appendsI)

lemma Rollback_appends:
  assumes "Rollback env rand j now = Inr j'"
  shows "appends env j now j'"
proof -
  from assms obtain v where v: "View env j = Inr v" "\<not> vw_complete v" by (auto simp: Rollback_def res_inv)
  with assms show ?thesis
    by (cases "phase (rspec (vw_round v))") (auto simp: Rollback_def Let_def res_inv intro: appendsI)
qed

lemma Advance_appends:
  assumes "Advance env rand j now as = Inr j'"
  shows "appends env j now j'"
proof -
  from assms obtain v where v: "View env j = Inr v" "\<not> vw_complete v" by (auto simp: Advance_def res_inv)
  with assms show ?thesis
    by (cases "phase (rspec (vw_round v))") (auto simp: Advance_def Let_def res_inv intro: appendsI)
qed

lemmas operation_appends = Observe_appends Advance_appends Rollback_appends Renew_appends

lemma appends_extends:
  assumes "appends env j now j'" and "Bytes env j = Inr s"
  shows "Extends env j' j = Inr ()" "length (j_events j') = Suc (length (j_events j))" "last_at j' = now"
proof -
  from assms(1) obtain ev where ev: "append_event env j ev = Inr j'" "e_at ev = now" by (auto simp: appends_def)
  note shape = append_event_shape [OF ev(1)]
  then have "cut_journal j' (length (j_events j)) = j" by (simp add: cut_journal_def)
  with shape assms(2) show "Extends env j' j = Inr ()" by (auto simp: Extends_Inr Bytes_Inr)
  show "length (j_events j') = Suc (length (j_events j))" "last_at j' = now" using shape ev(2) by (auto simp: last_at_def)
qed

lemma complete_extends:
  assumes js: "json_faithful env" and v: "View env j = Inr v" "vw_complete v" and ext: "Extends env t j = Inr ()"
  shows "t = j"
proof (rule ccontr)
  assume ne: "t \<noteq> j"
  have j: "j = cut_journal t (length (j_events j))" and le: "length (j_events j) \<le> length (j_events t)"
    and t: "\<exists>w. View env t = Inr w" using ext by (auto simp: Extends_iff [OF js])
  with ne have lt: "length (j_events j) < length (j_events t)" by (metis cut_all le_neq_implies_less order_refl)
  define n where "n = length (j_events j)"
  have "cut_journal t (Suc n) = j\<lparr>j_events := j_events j @ [j_events t ! n]\<rparr>"
    using j lt by (metis (no_types, lifting) cut_journal_def journal.surjective journal.update_convs(6) n_def
        cut_events take_Suc_conv_app_nth)
  moreover obtain w where "View env (cut_journal t (Suc n)) = Inr w" using t View_cut by blast
  ultimately obtain st st' where "replay env j = Inr st" "replay_step env (j_policy j) st (j_events t ! n) = Inr st'"
    by (auto simp: View_def res_inv replay_append)
  with v show False using replay_step_timely by (fastforce simp: View_def)
qed

end
