(* ===== verification/Store.thy ===== *)
theory Store
  imports Protocol "HOL-Library.Mapping" "HOL-Library.AList_Mapping"
begin

text \<open>
  The durable journal store (\<open>controller/pkg/handover/store.go\<close>, \<open>freeze.go\<close>, \<open>checkpoint.go\<close>):
  ConfigMaps, verified snapshots of them, creation, loading, rechecks, the compare-and-swap commit
  of one event, write fences, and local checkpoints.
  The API server is a parameter, the record \<open>config_maps\<close> of functions over a world; what it
  promises is the named hypothesis \<open>cas_api\<close>.
\<close>

section \<open>ConfigMaps and snapshots\<close>

text \<open>
  The fields of a \<open>ConfigMap\<close> the package reads or compares; \<open>cm_typeMeta\<close> and \<open>cm_otherMeta\<close>
  stand for the remaining metadata, which only whole-object comparisons see. A nil map and an
  empty map are one value here.
\<close>

record config_map =
  cm_typeMeta :: string
  cm_name :: string
  cm_namespace :: string
  cm_uid :: string
  cm_resourceVersion :: string
  cm_deletionTimestamp :: "time option"
  cm_annotations :: "(string, string) mapping"
  cm_ownerReferences :: "string list"
  cm_managedFields :: "string list"
  cm_otherMeta :: string
  cm_immutable :: "bool option"
  cm_data :: "(string, string) mapping"
  cm_binaryData :: "(string, string) mapping"

definition empty_map :: config_map where
  "empty_map =
     \<lparr>cm_typeMeta = [], cm_name = [], cm_namespace = [], cm_uid = [], cm_resourceVersion = [],
      cm_deletionTimestamp = None, cm_annotations = Mapping.empty, cm_ownerReferences = [],
      cm_managedFields = [], cm_otherMeta = [], cm_immutable = None, cm_data = Mapping.empty,
      cm_binaryData = Mapping.empty\<rparr>"

text \<open>Indexing a Go map: the zero value for a missing key.\<close>

definition index :: "('k, string) mapping \<Rightarrow> 'k \<Rightarrow> string" where
  "index f k = (case Mapping.lookup f k of None \<Rightarrow> [] | Some v \<Rightarrow> v)"

definition journalKey :: string where
  "journalKey = ''transition.json''"

definition planKey :: string where
  "planKey = ''plan.json''"

definition withdrawalIntentKey :: string where
  "withdrawalIntentKey = ''withdrawal-intent-sha256''"

record snapshot =
  sn_transition :: journal
  sn_object :: "config_map option"
  sn_view :: "view option"

text \<open>
  The namespaced ConfigMap client over a world \<open>'w\<close>: every call may find the world changed by
  others. A context is the error \<open>ctx.Err()\<close> returns in a world. \<open>AlreadyExists\<close>, \<open>NotFound\<close> and \<open>TooManyRequests\<close> are the API errors the code tells apart.
\<close>

datatype api_error = AlreadyExists string | NotFound string | TooManyRequests string | APIError string

record 'w config_maps =
  api_get :: "string \<Rightarrow> 'w \<Rightarrow> (api_error + config_map) \<times> 'w"
  api_create :: "config_map \<Rightarrow> 'w \<Rightarrow> (api_error + config_map) \<times> 'w"
  api_update :: "config_map \<Rightarrow> 'w \<Rightarrow> (api_error + config_map) \<times> 'w"

record 'w store =
  configMaps :: "'w config_maps option"
  s_name :: string
  s_clusterUID :: string
  s_expectedUID :: string
  s_ownerReferences :: "string list"

record store_env = journal_env +
  marshal_checkpoint :: "int \<times> config_map option \<Rightarrow> string option"
  json_checkpoint :: "string \<Rightarrow> ((int \<times> config_map option) \<times> bool) option"

definition api_message :: "api_error \<Rightarrow> error" where
  "api_message e = (case e of AlreadyExists m \<Rightarrow> Error m | NotFound m \<Rightarrow> Error m | TooManyRequests m \<Rightarrow> Error m | APIError m \<Rightarrow> Error m)"

definition api_call :: "'w store \<Rightarrow> ('w config_maps \<Rightarrow> 'w \<Rightarrow> (api_error + config_map) \<times> 'w) \<Rightarrow> ('w, config_map) io" where
  "api_call s call w =
     (case configMaps s of
        None \<Rightarrow> (Inl (Error ''nil ConfigMaps''), w)
      | Some api \<Rightarrow>
          (case call api w of (Inl e, w') \<Rightarrow> (Inl (api_message e), w') | (Inr obj, w') \<Rightarrow> (Inr obj, w')))"

type_synonym 'w ctx = "'w \<Rightarrow> error option"

definition check_ctx :: "'w ctx \<Rightarrow> ('w, unit) io" where
  "check_ctx ctx w = (case ctx w of None \<Rightarrow> (Inr (), w) | Some e \<Rightarrow> (Inl e, w))"

definition hex_sha :: "'a round_env_scheme \<Rightarrow> string \<Rightarrow> string" where
  "hex_sha env s = hex_encode (sha256 env s)"

section \<open>Snapshot methods\<close>

definition snapshot_View :: "'a journal_env_scheme \<Rightarrow> snapshot \<Rightarrow> view res" where
  "snapshot_View env s =
     (case sn_view s of None \<Rightarrow> View env (sn_transition s) | Some v \<Rightarrow> Inr v)"

definition obj_data :: "snapshot \<Rightarrow> string \<Rightarrow> string" where
  "obj_data s k = (case sn_object s of None \<Rightarrow> [] | Some obj \<Rightarrow> index (cm_data obj) k)"

definition snapshot_Plan :: "snapshot \<Rightarrow> string" where
  "snapshot_Plan s = obj_data s planKey"

definition WithdrawalIntentHash :: "snapshot \<Rightarrow> string" where
  "WithdrawalIntentHash s = obj_data s withdrawalIntentKey"

definition Frozen :: "snapshot \<Rightarrow> bool" where
  "Frozen s = (case sn_object s of None \<Rightarrow> False | Some obj \<Rightarrow> cm_immutable obj = Some True)"

definition RetirementFrozen :: "'a journal_env_scheme \<Rightarrow> snapshot \<Rightarrow> bool" where
  "RetirementFrozen env s =
     (Frozen s \<and>
      (case snapshot_View env s of
         Inl _ \<Rightarrow> False
       | Inr v \<Rightarrow> (vw_complete v \<and> vw_servingGeneration v \<noteq> []) \<or> hexToken (WithdrawalIntentHash s) 32))"

definition ContinuesExecution :: "'a journal_env_scheme \<Rightarrow> snapshot \<Rightarrow> snapshot \<Rightarrow> unit res" where
  "ContinuesExecution env s previous =
     (case (sn_object s, sn_object previous) of
        (Some a, Some b) \<Rightarrow>
          if cm_uid a = [] \<or> cm_resourceVersion a = [] \<or> cm_resourceVersion b = [] \<or>
             cm_deletionTimestamp a \<noteq> None \<or> cm_deletionTimestamp b \<noteq> None
            then Inl (Error ''execution requires live journal snapshots'')
          else if a\<lparr>cm_resourceVersion := [], cm_managedFields := [],
                    cm_data := Mapping.update journalKey (index (cm_data b) journalKey) (cm_data a)\<rparr>
                  \<noteq> b\<lparr>cm_resourceVersion := [], cm_managedFields := []\<rparr>
            then Inl (Error ''journal identity, metadata or public plan changed'')
          else if index (cm_data a) journalKey = index (cm_data b) journalKey then Inr ()
          else
            (case Extends env (sn_transition s) (sn_transition previous) of
               Inl e \<Rightarrow> Inl e
             | Inr _ \<Rightarrow>
                 guard (list_all (\<lambda>ev. e_op ev = OpObserve)
                          (drop (length (j_events (sn_transition previous))) (j_events (sn_transition s))))
                   ''journal execution authority changed'')
      | _ \<Rightarrow> Inl (Error ''execution requires live journal snapshots''))"

section \<open>Store methods\<close>

definition store_snapshot :: "'a journal_env_scheme \<Rightarrow> 'w store \<Rightarrow> config_map \<Rightarrow> snapshot res" where
  "store_snapshot env s obj =
     (if cm_name obj \<noteq> s_name s \<or> cm_uid obj = [] \<or> cm_resourceVersion obj = []
        then Inl (Error ''invalid journal object identity'')
      else if s_expectedUID s \<noteq> [] \<and> cm_uid obj \<noteq> s_expectedUID s
        then Inl (Error ''journal incarnation differs from admission'')
      else
        (case decodeTransitionView env (index (cm_data obj) journalKey) of
           Inl e \<Rightarrow> Inl e
         | Inr (t, v) \<Rightarrow>
             if clusterUID (rspec (vw_round v)) \<noteq> s_clusterUID s
               then Inl (Error ''journal belongs to another cluster'')
             else if (case Mapping.lookup (cm_data obj) withdrawalIntentKey of
                        None \<Rightarrow> False
                      | Some digest \<Rightarrow> \<not> hexToken digest 32 \<or> cm_immutable obj \<noteq> Some True \<or> vw_complete v)
               then Inl (Error ''invalid interrupted withdrawal fence'')
             else if j_planRequired t \<and> index (cm_data obj) planKey = []
               then Inl (Error ''journal public plan is missing'')
             else if (case Mapping.lookup (cm_data obj) planKey of
                        None \<Rightarrow> False
                      | Some plan \<Rightarrow> plan = [] \<or> hex_sha env plan \<noteq> planHash (rspec (vw_round v)))
               then Inl (Error ''journal public plan does not match its committed hash'')
             else Inr \<lparr>sn_transition = t, sn_object = Some obj, sn_view = Some v\<rparr>))"

definition configured :: "'w store \<Rightarrow> unit res" where
  "configured s =
     guard (configMaps s \<noteq> None \<and> token (s_name s) \<and> token (s_clusterUID s)) ''invalid journal store configuration''"

definition store_create :: "'a journal_env_scheme \<Rightarrow> 'w store \<Rightarrow> journal \<Rightarrow> string option \<Rightarrow> ('w, snapshot) io" where
  "store_create env s t plan =
     io_bind (io_lift (configured s)) (\<lambda>_.
     io_bind (io_lift (guard (\<not> (j_planRequired t \<and> (plan = None \<or> plan = Some []))) ''journal requires its public plan'')) (\<lambda>_.
     io_bind (io_lift (Bytes env t)) (\<lambda>raw.
     io_bind (io_lift (guard (j_events t = [] \<and> clusterUID (rspec (j_initial t)) = s_clusterUID s)
                ''journal creation requires a new transition for this cluster'')) (\<lambda>_.
     let data = (case plan of None \<Rightarrow> Mapping.update journalKey raw Mapping.empty
                 | Some p \<Rightarrow> Mapping.update planKey p (Mapping.update journalKey raw Mapping.empty)) in
     io_bind (api_call s (\<lambda>api. api_create api
                (empty_map\<lparr>cm_name := s_name s, cm_ownerReferences := s_ownerReferences s, cm_data := data\<rparr>))) (\<lambda>obj.
     io_bind (io_lift (guard (index (cm_data obj) journalKey = raw \<and>
                (case plan of None \<Rightarrow> True | Some p \<Rightarrow> index (cm_data obj) planKey = p))
                ''persisted journal differs from requested state'')) (\<lambda>_.
     io_lift (store_snapshot env s obj)))))))"

definition store_Create :: "'a journal_env_scheme \<Rightarrow> 'w store \<Rightarrow> journal \<Rightarrow> ('w, snapshot) io" where
  "store_Create env s t = store_create env s t None"

definition CreateWithPlan :: "'a journal_env_scheme \<Rightarrow> 'w store \<Rightarrow> journal \<Rightarrow> string \<Rightarrow> ('w, snapshot) io" where
  "CreateWithPlan env s t plan =
     io_bind (io_lift (guard (plan \<noteq> []) ''public handover plan is required'')) (\<lambda>_.
     io_bind (io_lift (View env t)) (\<lambda>v.
     io_bind (io_lift (guard (hex_sha env plan = planHash (rspec (vw_round v))) ''public handover plan hash differs'')) (\<lambda>_.
     store_create env s (t\<lparr>j_planRequired := True\<rparr>) (Some plan))))"

definition Load :: "'a journal_env_scheme \<Rightarrow> 'w store \<Rightarrow> ('w, snapshot) io" where
  "Load env s =
     io_bind (io_lift (configured s)) (\<lambda>_.
     io_bind (api_call s (\<lambda>api. api_get api (s_name s))) (\<lambda>obj.
     io_lift (store_snapshot env s obj)))"

definition RecheckExecution :: "'a journal_env_scheme \<Rightarrow> 'w ctx \<Rightarrow> 'w store \<Rightarrow> snapshot \<Rightarrow> ('w, unit) io" where
  "RecheckExecution env ctx s previous =
     io_bind (io_lift (configured s)) (\<lambda>_.
     io_bind (check_ctx ctx) (\<lambda>_.
     io_bind (api_call s (\<lambda>api. api_get api (s_name s))) (\<lambda>obj.
     if (case sn_object previous of
           None \<Rightarrow> False
         | Some before \<Rightarrow>
             cm_name before = s_name s \<and> cm_uid before \<noteq> [] \<and> cm_resourceVersion before \<noteq> [] \<and>
             cm_deletionTimestamp before = None \<and>
             clusterUID (rspec (j_initial (sn_transition previous))) = s_clusterUID s \<and>
             (s_expectedUID s = [] \<or> s_expectedUID s = cm_uid before) \<and> obj = before)
       then check_ctx ctx
     else
       io_bind (io_lift (store_snapshot env s obj)) (\<lambda>current.
       io_bind (io_lift (ContinuesExecution env current previous)) (\<lambda>_.
       check_ctx ctx)))))"

text \<open>
  \<open>RecheckExecutions\<close> runs its members' checks concurrently, each one read: \<open>sched\<close> is the order in
  which their reads happen, an arrangement of the snapshots; the first failure is the result.
\<close>

fun admitted_identities :: "'w store \<Rightarrow> string set \<Rightarrow> snapshot list \<Rightarrow> unit res" where
  "admitted_identities s seen [] = Inr ()"
| "admitted_identities s seen (sn # sns) =
     (case sn_object sn of
        None \<Rightarrow> Inl (Error ''journal recheck requires distinct admitted identities'')
      | Some obj \<Rightarrow>
          if \<not> token (cm_name obj) \<or> cm_uid obj = [] \<or> cm_resourceVersion obj = [] \<or>
             cm_deletionTimestamp obj \<noteq> None \<or>
             clusterUID (rspec (j_initial (sn_transition sn))) \<noteq> s_clusterUID s \<or> cm_name obj \<in> seen
            then Inl (Error ''journal recheck requires distinct admitted identities'')
          else admitted_identities s (insert (cm_name obj) seen) sns)"

fun recheck_each :: "'a journal_env_scheme \<Rightarrow> 'w ctx \<Rightarrow> 'w store \<Rightarrow> snapshot list \<Rightarrow> ('w, unit) io" where
  "recheck_each env ctx s [] w = (Inr (), w)"
| "recheck_each env ctx s (sn # sns) w =
     (let obj = the (sn_object sn) in
      case RecheckExecution env ctx (s\<lparr>s_name := cm_name obj, s_expectedUID := cm_uid obj\<rparr>) sn w of
        (Inl e, w') \<Rightarrow> (Inl (wrap (''journal '' @ cm_name obj @ '': '') e), w')
      | (Inr _, w') \<Rightarrow> recheck_each env ctx s sns w')"

definition RecheckExecutions ::
  "'a journal_env_scheme \<Rightarrow> 'w ctx \<Rightarrow> 'w store \<Rightarrow> snapshot list \<Rightarrow> snapshot list \<Rightarrow> ('w, unit) io" where
  "RecheckExecutions env ctx s sched previous =
     io_bind (check_ctx ctx) (\<lambda>_.
     if previous = [] then io_lift (Inr ())
     else
       io_bind (io_lift (guard (configMaps s \<noteq> None \<and> token (s_clusterUID s))
                  ''journal set recheck requires a configured cluster reader'')) (\<lambda>_.
       io_bind (io_lift (admitted_identities s {} previous)) (\<lambda>_.
       io_bind (recheck_each env ctx s sched) (\<lambda>_.
       check_ctx ctx))))"

definition Commit :: "'a journal_env_scheme \<Rightarrow> 'w store \<Rightarrow> snapshot \<Rightarrow> journal \<Rightarrow> ('w, snapshot) io" where
  "Commit env s previous nxt =
     io_bind (io_lift (configured s)) (\<lambda>_.
     case sn_object previous of
       None \<Rightarrow> io_lift (Inl (Error ''missing journal snapshot''))
     | Some obj \<Rightarrow>
         io_bind (io_lift (store_snapshot env s obj)) (\<lambda>checked.
         io_bind (io_lift (guard (\<not> Frozen checked) ''frozen journal cannot append an event'')) (\<lambda>_.
         io_bind (io_lift (guard (length (j_events nxt) = length (j_events (sn_transition checked)) + 1)
                    ''commit requires exactly one successor event'')) (\<lambda>_.
         io_bind (io_lift (Extends env nxt (sn_transition checked))) (\<lambda>_.
         io_bind (io_lift (Bytes env nxt)) (\<lambda>raw.
         io_bind (api_call s (\<lambda>api. api_update api (obj\<lparr>cm_data := Mapping.update journalKey raw (cm_data obj)\<rparr>))) (\<lambda>updated.
         io_bind (io_lift (guard (index (cm_data updated) journalKey = raw \<and>
                    index (cm_data updated) planKey = index (cm_data obj) planKey)
                    ''persisted journal differs from requested state'')) (\<lambda>_.
         io_lift (store_snapshot env s updated)))))))))"


section \<open>Fences\<close>

definition freeze :: "'a journal_env_scheme \<Rightarrow> 'w store \<Rightarrow> config_map \<Rightarrow> ('w, snapshot) io" where
  "freeze env s obj =
     (let sent = obj\<lparr>cm_immutable := Some True\<rparr> in
      io_bind (api_call s (\<lambda>api. api_update api sent)) (\<lambda>stored.
      io_bind (io_lift (guard (cm_uid stored = cm_uid sent \<and> cm_deletionTimestamp stored = None \<and>
                 cm_immutable stored = Some True \<and> cm_data stored = cm_data sent \<and>
                 cm_binaryData stored = cm_binaryData sent) ''persisted freeze differs from the admitted journal'')) (\<lambda>_.
      io_lift (store_snapshot env s stored))))"

definition live_object :: "snapshot \<Rightarrow> config_map option" where
  "live_object sn =
     (case sn_object sn of None \<Rightarrow> None | Some obj \<Rightarrow> if cm_deletionTimestamp obj \<noteq> None then None else Some obj)"

definition FreezeExpiredWithdrawal ::
  "'a journal_env_scheme \<Rightarrow> 'w store \<Rightarrow> snapshot \<Rightarrow> string \<Rightarrow> time \<Rightarrow> ('w, snapshot) io" where
  "FreezeExpiredWithdrawal env s previous intentHash now =
     io_bind (io_lift (guard (hexToken intentHash 32) ''withdrawal requires an exact intent digest'')) (\<lambda>_.
     io_bind (io_lift (configured s)) (\<lambda>_.
     case live_object previous of
       None \<Rightarrow> io_lift (Inl (Error ''withdrawal requires a live journal snapshot''))
     | Some obj \<Rightarrow>
         io_bind (io_lift (store_snapshot env s obj)) (\<lambda>checked.
         io_bind (io_lift (guard (case snapshot_View env checked of
                    Inl _ \<Rightarrow> False
                  | Inr v \<Rightarrow> \<not> vw_complete v \<and> expiresAt (vw_round v) \<le> now)
                    ''withdrawal requires an expired unfinished round'')) (\<lambda>_.
         io_bind (io_lift (guard (\<not> (Frozen checked \<and> WithdrawalIntentHash checked \<noteq> intentHash))
                    ''withdrawal fence has different lifecycle authority'')) (\<lambda>_.
         freeze env s (obj\<lparr>cm_data := Mapping.update withdrawalIntentKey intentHash (cm_data obj)\<rparr>))))))"

definition FreezeCompleted :: "'a journal_env_scheme \<Rightarrow> 'w store \<Rightarrow> snapshot \<Rightarrow> ('w, snapshot) io" where
  "FreezeCompleted env s previous =
     io_bind (io_lift (configured s)) (\<lambda>_.
     case live_object previous of
       None \<Rightarrow> io_lift (Inl (Error ''freezing requires a live journal snapshot''))
     | Some obj \<Rightarrow>
         io_bind (io_lift (store_snapshot env s obj)) (\<lambda>checked.
         io_bind (io_lift (snapshot_View env checked)) (\<lambda>v.
         io_bind (io_lift (guard (vw_complete v \<and> vw_servingGeneration v \<noteq> [])
                    ''freezing requires verified transition completion'')) (\<lambda>_.
         freeze env s obj))))"

section \<open>Checkpoints\<close>

definition Checkpoint :: "'a store_env_scheme \<Rightarrow> snapshot \<Rightarrow> string res" where
  "Checkpoint env sn =
     (case sn_object sn of
        None \<Rightarrow> Inl (Error ''missing journal snapshot'')
      | Some obj \<Rightarrow>
          (case View env (sn_transition sn) of
             Inl e \<Rightarrow> Inl e
           | Inr _ \<Rightarrow> (case marshal_checkpoint env (1, Some obj) of None \<Rightarrow> Inl (Error ''json'') | Some raw \<Rightarrow> Inr raw)))"

definition RestoreCheckpoint :: "'a store_env_scheme \<Rightarrow> 'w store \<Rightarrow> string \<Rightarrow> snapshot res" where
  "RestoreCheckpoint env s raw =
     (if \<not> token (s_name s) \<or> \<not> token (s_clusterUID s) then Inl (Error ''invalid checkpoint scope'')
      else
        (case json_checkpoint env raw of
           None \<Rightarrow> Inl (Error ''json'')
         | Some ((version, saved), eof) \<Rightarrow>
             if \<not> eof then Inl (Error ''trailing checkpoint data'')
             else
               (case saved of
                  None \<Rightarrow> Inl (Error ''invalid or deleting checkpoint'')
                | Some obj \<Rightarrow>
                    if version \<noteq> 1 \<or> cm_deletionTimestamp obj \<noteq> None
                      then Inl (Error ''invalid or deleting checkpoint'')
                    else store_snapshot env s obj)))"

definition snapshot_Extends :: "'a journal_env_scheme \<Rightarrow> snapshot \<Rightarrow> snapshot \<Rightarrow> unit res" where
  "snapshot_Extends env s previous =
     (case (sn_object s, sn_object previous) of
        (Some a, Some b) \<Rightarrow>
          if Frozen previous \<and> \<not> Frozen s then Inl (Error ''journal lost its durable write fence'')
          else if WithdrawalIntentHash previous \<noteq> [] \<and> WithdrawalIntentHash s \<noteq> WithdrawalIntentHash previous
            then Inl (Error ''journal lost or changed its withdrawal authority'')
          else if cm_uid a \<noteq> cm_uid b \<or> cm_namespace a \<noteq> cm_namespace b \<or> cm_name a \<noteq> cm_name b \<or>
                  cm_deletionTimestamp a \<noteq> None \<or> cm_deletionTimestamp b \<noteq> None \<or>
                  snapshot_Plan s \<noteq> snapshot_Plan previous
            then Inl (Error ''journal identity or public plan changed'')
          else Extends env (sn_transition s) (sn_transition previous)
      | _ \<Rightarrow> Inl (Error ''missing journal snapshot''))"

section \<open>Valid snapshots\<close>

text \<open>What a store admits, and what a verified snapshot of it is.\<close>

definition admissible :: "'a journal_env_scheme \<Rightarrow> 'w store \<Rightarrow> config_map \<Rightarrow> journal \<Rightarrow> view \<Rightarrow> bool" where
  "admissible env s obj t v =
     (json_journal env (index (cm_data obj) journalKey) = Some (t, True) \<and> View env t = Inr v \<and>
      cm_name obj = s_name s \<and> cm_uid obj \<noteq> [] \<and> cm_resourceVersion obj \<noteq> [] \<and>
      (s_expectedUID s = [] \<or> cm_uid obj = s_expectedUID s) \<and>
      clusterUID (rspec (vw_round v)) = s_clusterUID s \<and>
      (case Mapping.lookup (cm_data obj) withdrawalIntentKey of
         None \<Rightarrow> True
       | Some d \<Rightarrow> hexToken d 32 \<and> cm_immutable obj = Some True \<and> \<not> vw_complete v) \<and>
      (j_planRequired t \<longrightarrow> index (cm_data obj) planKey \<noteq> []) \<and>
      (case Mapping.lookup (cm_data obj) planKey of
         None \<Rightarrow> True
       | Some plan \<Rightarrow> plan \<noteq> [] \<and> hex_sha env plan = planHash (rspec (vw_round v))))"

definition valid_snapshot :: "'a journal_env_scheme \<Rightarrow> 'w store \<Rightarrow> snapshot \<Rightarrow> bool" where
  "valid_snapshot env s sn =
     (\<exists>obj t v. sn = \<lparr>sn_transition = t, sn_object = Some obj, sn_view = Some v\<rparr> \<and> admissible env s obj t v)"

lemma decodeTransitionView_Inr:
  "decodeTransitionView env raw = Inr x \<longleftrightarrow>
     json_journal env raw = Some (fst x, True) \<and> View env (fst x) = Inr (snd x)"
  by (cases x) (auto simp: decodeTransitionView_def res_inv split: option.splits prod.splits)

lemma store_snapshot_Inr:
  "store_snapshot env s obj = Inr sn \<longleftrightarrow>
     (\<exists>t v. sn = \<lparr>sn_transition = t, sn_object = Some obj, sn_view = Some v\<rparr> \<and> admissible env s obj t v)"
proof (cases "decodeTransitionView env (index (cm_data obj) journalKey)")
  case (Inl e)
  then have "\<not> admissible env s obj t v" for t v
    using decodeTransitionView_Inr [of env "index (cm_data obj) journalKey" "(t, v)"] by (auto simp: admissible_def)
  with Inl show ?thesis by (auto simp: store_snapshot_def)
next
  case (Inr x)
  obtain t v where x: "x = (t, v)" by (cases x)
  with Inr have dec: "json_journal env (index (cm_data obj) journalKey) = Some (t, True)" "View env t = Inr v"
    by (simp_all add: decodeTransitionView_Inr)
  show ?thesis
    unfolding store_snapshot_def Inr x
    by (auto simp: admissible_def dec not_less split: option.splits)
qed

lemma store_snapshot_valid: "store_snapshot env s obj = Inr sn \<Longrightarrow> valid_snapshot env s sn \<and> sn_object sn = Some obj"
  by (auto simp: store_snapshot_Inr valid_snapshot_def)

lemma valid_store_snapshot: "valid_snapshot env s sn \<Longrightarrow> sn_object sn = Some obj \<Longrightarrow> store_snapshot env s obj = Inr sn"
  by (auto simp: store_snapshot_Inr valid_snapshot_def)

lemma valid_view [simp]: "valid_snapshot env s sn \<Longrightarrow> snapshot_View env sn = View env (sn_transition sn)"
  by (auto simp: valid_snapshot_def snapshot_View_def admissible_def)

lemma valid_Inr: "valid_snapshot env s sn \<Longrightarrow> \<exists>obj v. sn_object sn = Some obj \<and> View env (sn_transition sn) = Inr v"
  by (auto simp: valid_snapshot_def admissible_def)

text \<open>A snapshot is determined by its object.\<close>

lemma valid_unique:
  assumes "valid_snapshot env s a" and "valid_snapshot env s' b" and "sn_object a = sn_object b"
  shows "a = b"
proof -
  from assms obtain obj t v t' v' where "a = \<lparr>sn_transition = t, sn_object = Some obj, sn_view = Some v\<rparr>"
    "b = \<lparr>sn_transition = t', sn_object = Some obj, sn_view = Some v'\<rparr>"
    "admissible env s obj t v" "admissible env s' obj t' v'" by (auto simp: valid_snapshot_def)
  then show ?thesis by (simp add: admissible_def)
qed

lemma api_call_Inr [res_inv]:
  "api_call s call w = (Inr obj, w') \<longleftrightarrow> (\<exists>api. configMaps s = Some api \<and> call api w = (Inr obj, w'))"
  by (auto simp: api_call_def split: option.splits prod.splits sum.splits)

lemma check_ctx_Inr [res_inv]: "check_ctx ctx w = (Inr u, w') \<longleftrightarrow> ctx w = None \<and> w' = w"
  by (auto simp: check_ctx_def split: option.splits)

lemma option_case_io [res_inv]:
  "(case x of None \<Rightarrow> io_lift (Inl e) | Some y \<Rightarrow> f y) w = (Inr z, w') \<longleftrightarrow> (\<exists>y. x = Some y \<and> f y w = (Inr z, w'))"
  by (cases x) (auto simp: io_lift_def)

section \<open>Commit\<close>

lemma Commit_Inr:
  "Commit env s previous nxt w = (Inr sn, w') \<longleftrightarrow>
     (\<exists>api obj checked raw updated. configured s = Inr () \<and> configMaps s = Some api \<and> sn_object previous = Some obj \<and>
        store_snapshot env s obj = Inr checked \<and> \<not> Frozen checked \<and>
        length (j_events nxt) = length (j_events (sn_transition checked)) + 1 \<and>
        Extends env nxt (sn_transition checked) = Inr () \<and> Bytes env nxt = Inr raw \<and>
        api_update api (obj\<lparr>cm_data := Mapping.update journalKey raw (cm_data obj)\<rparr>) w = (Inr updated, w') \<and>
        index (cm_data updated) journalKey = raw \<and> index (cm_data updated) planKey = index (cm_data obj) planKey \<and>
        store_snapshot env s updated = Inr sn)"
  unfolding Commit_def io_bind_Inr io_lift_eq option_case_io guard_Inr api_call_Inr by auto

lemma freeze_Inr:
  "freeze env s obj w = (Inr sn, w') \<longleftrightarrow>
     (\<exists>api stored. configMaps s = Some api \<and> api_update api (obj\<lparr>cm_immutable := Some True\<rparr>) w = (Inr stored, w') \<and>
        cm_uid stored = cm_uid obj \<and> cm_deletionTimestamp stored = None \<and> cm_immutable stored = Some True \<and>
        cm_data stored = cm_data obj \<and> cm_binaryData stored = cm_binaryData obj \<and> store_snapshot env s stored = Inr sn)"
  unfolding freeze_def Let_def io_bind_Inr io_lift_eq guard_Inr api_call_Inr by auto

text \<open>
  What the API server documents of a ConfigMap update, over the object \<open>live w name\<close> of a world:
  it succeeds only on the live object's UID and resourceVersion, stores and returns the object as
  sent, under a new resourceVersion and with server-managed metadata, changes no other object, and never changes the
  data of an immutable object.
\<close>

definition cas_api :: "('w \<Rightarrow> string \<Rightarrow> config_map option) \<Rightarrow> 'w config_maps \<Rightarrow> bool" where
  "cas_api live api =
     (\<forall>obj w r w'. api_update api obj w = (Inr r, w') \<longrightarrow>
        (\<exists>c. live w (cm_name obj) = Some c \<and> cm_uid c = cm_uid obj \<and> cm_resourceVersion c = cm_resourceVersion obj \<and>
           live w' (cm_name obj) = Some r \<and> cm_resourceVersion r \<noteq> cm_resourceVersion c \<and>
           (\<forall>n. n \<noteq> cm_name obj \<longrightarrow> live w' n = live w n) \<and>
           r = obj\<lparr>cm_resourceVersion := cm_resourceVersion r, cm_managedFields := cm_managedFields r,
                   cm_otherMeta := cm_otherMeta r\<rparr> \<and>
           (cm_immutable c = Some True \<longrightarrow>
              cm_immutable r = Some True \<and> cm_data r = cm_data c \<and> cm_binaryData r = cm_binaryData c)))"

lemma sum_case_False: "(case x of Inl _ \<Rightarrow> False | Inr v \<Rightarrow> P v) \<longleftrightarrow> (\<exists>v. x = Inr v \<and> P v)"
  by (cases x) auto

lemma cas_apiD:
  assumes "cas_api live api" and "api_update api obj w = (Inr r, w')"
  obtains c where "live w (cm_name obj) = Some c" "cm_uid c = cm_uid obj" "cm_resourceVersion c = cm_resourceVersion obj"
    "live w' (cm_name obj) = Some r" "cm_resourceVersion r \<noteq> cm_resourceVersion c"
    "r = obj\<lparr>cm_resourceVersion := cm_resourceVersion r, cm_managedFields := cm_managedFields r, cm_otherMeta := cm_otherMeta r\<rparr>"
  using assms unfolding cas_api_def by blast

lemma cas_api_frame: "cas_api live api \<Longrightarrow> api_update api obj w = (Inr r, w') \<Longrightarrow> n \<noteq> cm_name obj \<Longrightarrow> live w' n = live w n"
  unfolding cas_api_def by blast

lemma cas_api_keeps:
  assumes "cas_api live api" and "api_update api obj w = (Inr r, w')"
  shows "cm_name r = cm_name obj" "cm_namespace r = cm_namespace obj" "cm_uid r = cm_uid obj"
    "cm_data r = cm_data obj" "cm_immutable r = cm_immutable obj" "cm_deletionTimestamp r = cm_deletionTimestamp obj"
proof -
  from cas_apiD [OF assms] obtain u m x where
    r: "r = obj\<lparr>cm_resourceVersion := u, cm_managedFields := m, cm_otherMeta := x\<rparr>" by metis
  show "cm_name r = cm_name obj" "cm_namespace r = cm_namespace obj" "cm_uid r = cm_uid obj"
    "cm_data r = cm_data obj" "cm_immutable r = cm_immutable obj" "cm_deletionTimestamp r = cm_deletionTimestamp obj"
    unfolding r by simp_all
qed

text \<open>
  What the API server documents of its objects over time, whoever the requests come from: a step keeps the UID of a ConfigMap that lives on, and
  an immutable one stays immutable with its data; an object created anew gets a UID never issued before.
\<close>

definition server_law :: "('w \<Rightarrow> string \<Rightarrow> config_map option) \<Rightarrow> ('w \<Rightarrow> string set) \<Rightarrow> ('w \<Rightarrow> 'w \<Rightarrow> bool) \<Rightarrow> bool" where
  "server_law live issued step =
     ((\<forall>w n c. live w n = Some c \<longrightarrow> cm_uid c \<in> issued w) \<and>
      (\<forall>w w'. step w w' \<longrightarrow> issued w \<subseteq> issued w' \<and>
         (\<forall>n c'. live w' n = Some c' \<longrightarrow> cm_uid c' \<notin> issued w \<or>
            (\<exists>c. live w n = Some c \<and> cm_uid c' = cm_uid c \<and>
               (cm_immutable c = Some True \<longrightarrow> cm_immutable c' = Some True \<and> cm_data c' = cm_data c)))))"

text \<open>A frozen object is frozen for as long as it lives.\<close>

lemma stays_immutable:
  assumes law: "server_law live issued step" and "step\<^sup>*\<^sup>* w w'"
    and c: "live w n = Some c" "cm_immutable c = Some True" and c': "live w' n = Some c'" "cm_uid c' = cm_uid c"
  shows "cm_immutable c' = Some True \<and> cm_data c' = cm_data c"
  using assms(2) c'
proof (induction arbitrary: c' rule: rtranclp_induct)
  case base
  with c show ?case by simp
next
  case (step y z)
  have "cm_uid c \<in> issued y"
    using step.hyps(1)
  proof (induction rule: rtranclp_induct)
    case base
    then show ?case using law c(1) unfolding server_law_def by blast
  next
    case (step u v)
    then show ?case using law unfolding server_law_def by blast
  qed
  with law step.hyps(2) step.prems obtain d where "live y n = Some d" "cm_uid c' = cm_uid d"
    "cm_immutable d = Some True \<longrightarrow> cm_immutable c' = Some True \<and> cm_data c' = cm_data d" unfolding server_law_def by metis
  with step.IH [of d] step.prems(2) show ?case by simp
qed

lemma valid_name: "valid_snapshot env s sn \<Longrightarrow> sn_object sn = Some obj \<Longrightarrow> cm_name obj = s_name s"
  by (auto simp: valid_snapshot_def admissible_def)

lemma valid_journal:
  "valid_snapshot env s sn \<Longrightarrow> sn_object sn = Some obj \<Longrightarrow>
     json_journal env (index (cm_data obj) journalKey) = Some (sn_transition sn, True)"
  by (auto simp: valid_snapshot_def admissible_def)

lemma Bytes_json: "json_faithful env \<Longrightarrow> Bytes env j = Inr raw \<Longrightarrow> json_journal env raw = Some (j, True)"
  by (simp add: Bytes_Inr json_faithful_def)

lemma commit_effect:
  assumes js: "json_faithful env" and cas: "cas_api live api" and api: "configMaps s = Some api"
    and com: "Commit env s previous nxt w = (Inr sn, w')"
  obtains obj c where "sn_object previous = Some obj" "live w (s_name s) = Some c" "cm_uid c = cm_uid obj"
    "cm_resourceVersion c = cm_resourceVersion obj" "sn_object sn = live w' (s_name s)" "sn_transition sn = nxt"
    "valid_snapshot env s sn"
    "\<exists>o'. live w' (s_name s) = Some o' \<and> cm_uid o' = cm_uid obj \<and> cm_resourceVersion o' \<noteq> cm_resourceVersion obj \<and>
       index (cm_data o') planKey = index (cm_data obj) planKey"
    "\<exists>checked. store_snapshot env s obj = Inr checked \<and> \<not> Frozen checked \<and>
       Extends env nxt (sn_transition checked) = Inr () \<and> length (j_events nxt) = Suc (length (j_events (sn_transition checked)))"
    "\<forall>n. n \<noteq> s_name s \<longrightarrow> live w' n = live w n"
proof -
  from com obtain obj checked raw updated where
    p: "sn_object previous = Some obj" and ch: "store_snapshot env s obj = Inr checked" "\<not> Frozen checked"
    "length (j_events nxt) = length (j_events (sn_transition checked)) + 1"
    "Extends env nxt (sn_transition checked) = Inr ()" and raw: "Bytes env nxt = Inr raw"
    and up: "api_update api (obj\<lparr>cm_data := Mapping.update journalKey raw (cm_data obj)\<rparr>) w = (Inr updated, w')"
    "index (cm_data updated) journalKey = raw" "index (cm_data updated) planKey = index (cm_data obj) planKey"
    and sn: "store_snapshot env s updated = Inr sn"
    unfolding Commit_Inr api by auto
  have name: "cm_name obj = s_name s" using store_snapshot_valid [OF ch(1)] valid_name by blast
  from cas_apiD [OF cas up(1)] obtain c where c: "live w (s_name s) = Some c" "cm_uid c = cm_uid obj"
    "cm_resourceVersion c = cm_resourceVersion obj" "live w' (s_name s) = Some updated"
    "cm_resourceVersion updated \<noteq> cm_resourceVersion c" using name by auto
  have uid: "cm_uid updated = cm_uid obj" using cas_api_keeps(3) [OF cas up(1)] by simp
  have v: "valid_snapshot env s sn" "sn_object sn = Some updated" using store_snapshot_valid [OF sn] by auto
  have "sn_transition sn = nxt" using valid_journal [OF v] Bytes_json [OF js raw] up(2) by simp
  moreover have "\<forall>n. n \<noteq> s_name s \<longrightarrow> live w' n = live w n" using cas_api_frame [OF cas up(1)] name by simp
  ultimately show thesis using that p c v ch up uid by auto
qed

lemma commit_stale:
  assumes cas: "cas_api live api" and api: "configMaps s = Some api" and prev: "sn_object previous = Some obj"
    and cur: "live w (s_name s) = Some c" "cm_resourceVersion c \<noteq> cm_resourceVersion obj"
  shows "\<not> is_Inr (fst (Commit env s previous nxt w))"
proof
  assume "is_Inr (fst (Commit env s previous nxt w))"
  then obtain sn w' where "Commit env s previous nxt w = (Inr sn, w')"
    by (cases "Commit env s previous nxt w") (auto simp: is_Inr_def split: sum.splits)
  then obtain raw updated checked where
    up: "api_update api (obj\<lparr>cm_data := Mapping.update journalKey raw (cm_data obj)\<rparr>) w = (Inr updated, w')"
    and ch: "store_snapshot env s obj = Inr checked"
    unfolding Commit_Inr api prev by auto
  have "cm_name obj = s_name s" using store_snapshot_valid [OF ch] valid_name by blast
  with cas_apiD [OF cas up] cur show False by auto
qed

lemma freeze_effect:
  assumes cas: "cas_api live api" and api: "configMaps s = Some api" and fr: "freeze env s obj w = (Inr sn, w')"
    and name: "cm_name obj = s_name s"
  obtains stored where "live w' (s_name s) = Some stored" "sn_object sn = Some stored" "cm_immutable stored = Some True"
    "valid_snapshot env s sn" "cm_resourceVersion stored \<noteq> cm_resourceVersion obj"
    "cm_data stored = cm_data obj" "cm_uid stored = cm_uid obj"
proof -
  from fr obtain stored where up: "api_update api (obj\<lparr>cm_immutable := Some True\<rparr>) w = (Inr stored, w')"
    and st: "cm_immutable stored = Some True" "cm_data stored = cm_data obj" "cm_uid stored = cm_uid obj"
      "store_snapshot env s stored = Inr sn"
    unfolding freeze_Inr api by auto
  from cas_apiD [OF cas up] name obtain c where "live w' (s_name s) = Some stored"
    "cm_resourceVersion stored \<noteq> cm_resourceVersion obj" by auto
  with that st store_snapshot_valid [OF st(4)] show thesis by auto
qed

lemma live_object_Some: "live_object sn = Some obj \<longleftrightarrow> sn_object sn = Some obj \<and> cm_deletionTimestamp obj = None"
  by (auto simp: live_object_def split: option.splits)

lemma FreezeCompleted_Inr:
  "FreezeCompleted env s previous w = (Inr sn, w') \<longleftrightarrow>
     (\<exists>obj checked v. configured s = Inr () \<and> live_object previous = Some obj \<and> store_snapshot env s obj = Inr checked \<and>
        snapshot_View env checked = Inr v \<and> vw_complete v \<and> vw_servingGeneration v \<noteq> [] \<and> freeze env s obj w = (Inr sn, w'))"
  unfolding FreezeCompleted_def io_bind_Inr io_lift_eq option_case_io guard_Inr by auto

lemma FreezeExpiredWithdrawal_Inr:
  "FreezeExpiredWithdrawal env s previous h now w = (Inr sn, w') \<longleftrightarrow>
     (\<exists>obj checked v. hexToken h 32 \<and> configured s = Inr () \<and> live_object previous = Some obj \<and>
        store_snapshot env s obj = Inr checked \<and> snapshot_View env checked = Inr v \<and> \<not> vw_complete v \<and>
        expiresAt (vw_round v) \<le> now \<and> (Frozen checked \<longrightarrow> WithdrawalIntentHash checked = h) \<and>
        freeze env s (obj\<lparr>cm_data := Mapping.update withdrawalIntentKey h (cm_data obj)\<rparr>) w = (Inr sn, w'))"
  unfolding FreezeExpiredWithdrawal_def io_bind_Inr io_lift_eq option_case_io guard_Inr sum_case_False by auto

section \<open>Execution continuity\<close>

lemma extends_replay:
  assumes js: "json_faithful env" and ext: "Extends env t p = Inr ()"
  shows "\<exists>st0 st. replay env p = Inr st0 \<and> replay env t = Inr st \<and>
     res_fold (replay_step env (j_policy t)) st0 (drop (length (j_events p)) (j_events t)) = Inr st"
proof -
  define n where "n = length (j_events p)"
  have p: "p = cut_journal t n" using ext by (simp add: Extends_iff [OF js] n_def)
  obtain v where "View env t = Inr v" using ext by (auto simp: Extends_iff [OF js])
  then obtain st0 st where st: "start_state env t = Inr st0" "res_fold (replay_step env (j_policy t)) st0 (j_events t) = Inr st"
    by (auto simp: View_iff)
  have "res_fold (replay_step env (j_policy t)) st0 (take n (j_events t) @ drop n (j_events t)) = Inr st"
    using st(2) by simp
  then obtain st1 where st1: "res_fold (replay_step env (j_policy t)) st0 (take n (j_events t)) = Inr st1"
    "res_fold (replay_step env (j_policy t)) st1 (drop n (j_events t)) = Inr st" unfolding res_fold_append res_inv by blast
  have "replay env p = Inr st1" unfolding p using st(1) st1(1) by (simp add: replay_def cut_journal_def start_state_events)
  moreover have "replay env t = Inr st" using st by (simp add: replay_def)
  ultimately show ?thesis using st1(2) by (auto simp: n_def)
qed

lemma extends_observations:
  assumes js: "json_faithful env" and ext: "Extends env t p = Inr ()"
    and obs: "list_all (\<lambda>ev. e_op ev = OpObserve) (drop (length (j_events p)) (j_events t))"
  shows "\<exists>v o'. View env p = Inr v \<and> View env t = Inr (v\<lparr>vw_observed := o'\<rparr>)"
proof -
  from extends_replay [OF js ext] obtain st0 st where st: "replay env p = Inr st0" "replay env t = Inr st"
    "res_fold (replay_step env (j_policy t)) st0 (drop (length (j_events p)) (j_events t)) = Inr st" by blast
  from observe_frame [OF st(3)] obs obtain o' where "rp_view st = (rp_view st0)\<lparr>vw_observed := o'\<rparr>"
    by (auto simp: list_all_iff)
  with st show ?thesis by (auto simp: View_def)
qed

lemma ContinuesExecution_Inr:
  "ContinuesExecution env s p = Inr () \<longleftrightarrow>
     (\<exists>a b. sn_object s = Some a \<and> sn_object p = Some b \<and> cm_uid a \<noteq> [] \<and> cm_resourceVersion a \<noteq> [] \<and>
        cm_resourceVersion b \<noteq> [] \<and> cm_deletionTimestamp a = None \<and> cm_deletionTimestamp b = None \<and>
        a\<lparr>cm_resourceVersion := [], cm_managedFields := [],
          cm_data := Mapping.update journalKey (index (cm_data b) journalKey) (cm_data a)\<rparr>
          = b\<lparr>cm_resourceVersion := [], cm_managedFields := []\<rparr> \<and>
        (index (cm_data a) journalKey = index (cm_data b) journalKey \<or>
         Extends env (sn_transition s) (sn_transition p) = Inr () \<and>
         list_all (\<lambda>ev. e_op ev = OpObserve)
           (drop (length (j_events (sn_transition p))) (j_events (sn_transition s)))))"
  by (cases "sn_object s"; cases "sn_object p") (auto simp: ContinuesExecution_def res_inv)

lemma continues_view:
  assumes js: "json_faithful env" and va: "valid_snapshot env st a" and vb: "valid_snapshot env st' b"
    and "ContinuesExecution env a b = Inr ()"
  shows "\<exists>v o'. View env (sn_transition b) = Inr v \<and> View env (sn_transition a) = Inr (v\<lparr>vw_observed := o'\<rparr>)"
proof -
  from assms(4) obtain oa ob where ob: "sn_object a = Some oa" "sn_object b = Some ob" and
    "index (cm_data oa) journalKey = index (cm_data ob) journalKey \<or>
       Extends env (sn_transition a) (sn_transition b) = Inr () \<and>
       list_all (\<lambda>ev. e_op ev = OpObserve) (drop (length (j_events (sn_transition b))) (j_events (sn_transition a)))"
    unfolding ContinuesExecution_Inr by blast
  then consider (same) "index (cm_data oa) journalKey = index (cm_data ob) journalKey"
    | (more) "Extends env (sn_transition a) (sn_transition b) = Inr ()"
      "list_all (\<lambda>ev. e_op ev = OpObserve) (drop (length (j_events (sn_transition b))) (j_events (sn_transition a)))"
    by blast
  then show ?thesis
  proof cases
    case same
    then have "sn_transition a = sn_transition b"
      using valid_journal [OF va ob(1)] valid_journal [OF vb ob(2)] by simp
    moreover obtain v where "View env (sn_transition b) = Inr v" using valid_Inr [OF vb] by blast
    moreover have "v = v\<lparr>vw_observed := vw_observed v\<rparr>" by simp
    ultimately show ?thesis by metis
  next
    case more
    from extends_observations [OF js this] show ?thesis .
  qed
qed

end
