(* ===== verification/Succession.thy ===== *)
theory Succession
  imports Store
begin

text \<open>
  Generations after one another in the same journal (\<open>controller/pkg/handover/archive.go\<close>,
  \<open>successor.go\<close>, \<open>history.go\<close>): immutable archives of completed journals, the admission of a
  successor over its archived predecessor, its creation in place, and the walk along the chain of
  archives. The walks are loops without a bound in the code; here they take fuel.
\<close>


section \<open>Archives\<close>

definition sourceName :: string where
  "sourceName = ''handover.cloud-provisioning.io/source-name''"

definition sourceUIDKey :: string where
  "sourceUIDKey = ''handover.cloud-provisioning.io/source-uid''"

definition sourceVersion :: string where
  "sourceVersion = ''handover.cloud-provisioning.io/source-resource-version''"

definition journalDigest :: "'a round_env_scheme \<Rightarrow> snapshot \<Rightarrow> string" where
  "journalDigest env s = hex_sha env (obj_data s journalKey)"

text \<open>The object \<open>ArchiveCompleted\<close> creates for a journal object.\<close>

definition archive_object :: "'a round_env_scheme \<Rightarrow> snapshot \<Rightarrow> config_map \<Rightarrow> config_map" where
  "archive_object env previous obj =
     empty_map\<lparr>cm_typeMeta := cm_typeMeta obj,
       cm_name := ''handover-archive-'' @ hex_encode (take 16 (sha256 env (cm_uid obj @ '':'' @ journalDigest env previous))),
       cm_namespace := cm_namespace obj,
       cm_annotations :=
         Mapping.update sourceVersion (cm_resourceVersion obj)
           (Mapping.update sourceUIDKey (cm_uid obj) (Mapping.update sourceName (cm_name obj) Mapping.empty)),
       cm_immutable := Some True, cm_data := cm_data obj, cm_binaryData := cm_binaryData obj\<rparr>"

text \<open>The creation of an archive: an existing object of that name is read instead.\<close>

definition create_or_get :: "'w store \<Rightarrow> config_map \<Rightarrow> ('w, config_map) io" where
  "create_or_get s obj w =
     (case configMaps s of
        None \<Rightarrow> (Inl (Error ''nil ConfigMaps''), w)
      | Some api \<Rightarrow>
          (case api_create api obj w of
             (Inl (AlreadyExists _), w') \<Rightarrow> api_call s (\<lambda>api. api_get api (cm_name obj)) w'
           | (Inl e, w') \<Rightarrow> (Inl (api_message e), w')
           | (Inr stored, w') \<Rightarrow> (Inr stored, w')))"

definition archive_matches :: "config_map \<Rightarrow> config_map \<Rightarrow> bool" where
  "archive_matches archive stored =
     (cm_deletionTimestamp stored = None \<and> cm_immutable stored = Some True \<and>
      cm_namespace stored = cm_namespace archive \<and> cm_ownerReferences stored = [] \<and>
      cm_annotations stored =
        Mapping.update sourceVersion (index (cm_annotations stored) sourceVersion) (cm_annotations archive) \<and>
      cm_data stored = cm_data archive \<and> cm_binaryData stored = cm_binaryData archive)"

definition ArchiveCompleted :: "'a journal_env_scheme \<Rightarrow> 'w store \<Rightarrow> snapshot \<Rightarrow> ('w, snapshot) io" where
  "ArchiveCompleted env s previous =
     io_bind (io_lift (configured s)) (\<lambda>_.
     case live_object previous of
       None \<Rightarrow> io_lift (Inl (Error ''archive requires a live journal snapshot''))
     | Some obj \<Rightarrow>
         io_bind (io_lift (store_snapshot env s obj)) (\<lambda>checked.
         io_bind (io_lift (snapshot_View env checked)) (\<lambda>v.
         io_bind (io_lift (guard (vw_complete v \<and> vw_servingGeneration v \<noteq> [])
                    ''archive requires verified transition completion'')) (\<lambda>_.
         io_bind (Load env s) (\<lambda>current.
         io_bind (io_lift (guard (live_object current = Some obj) ''journal changed before archival'')) (\<lambda>_.
         let archive = archive_object env previous obj in
         io_bind (create_or_get s archive) (\<lambda>stored.
         io_bind (io_lift (guard (token (index (cm_annotations stored) sourceVersion)) ''archive source version is missing'')) (\<lambda>_.
         io_bind (io_lift (guard (archive_matches archive stored) ''archive differs from the completed journal'')) (\<lambda>_.
         io_bind (Load env s) (\<lambda>again.
         io_bind (io_lift (guard (live_object again = Some obj) ''journal changed during archival'')) (\<lambda>_.
         io_lift (store_snapshot env
           \<lparr>configMaps = configMaps s, s_name = cm_name archive, s_clusterUID = s_clusterUID s,
            s_expectedUID = [], s_ownerReferences = []\<rparr> stored))))))))))))"

section \<open>Successors\<close>

fun continues_each :: "phase \<Rightarrow> member list \<Rightarrow> member list \<Rightarrow> unit res" where
  "continues_each ph (p # ps) (c # cs) =
     (if m_nodeUID c \<noteq> m_nodeUID p \<or> m_deviceID c \<noteq> m_deviceID p \<or>
         m_fromKey c \<noteq> (if ph = Abort then m_fromKey p else m_toKey p) \<or>
         m_fromPeerKey c \<noteq> (if ph = Abort then m_fromPeerKey p else m_toPeerKey p)
        then Inl (Error ''successor changes serving participant identity'')
      else continues_each ph ps cs)"
| "continues_each ph ps cs = Inr ()"

definition continuesMembers :: "view \<Rightarrow> round \<Rightarrow> unit res" where
  "continuesMembers old nxt =
     (if length (members (rspec (vw_round old))) \<noteq> length (members (rspec nxt))
        then Inl (Error ''successor changes participant set'')
      else continues_each (phase (rspec (vw_round old))) (members (rspec (vw_round old))) (members (rspec nxt)))"

definition live_identity :: "'a journal_env_scheme \<Rightarrow> snapshot \<Rightarrow> config_map \<Rightarrow> unit res" where
  "live_identity env sn obj =
     (if cm_uid obj = [] \<or> cm_resourceVersion obj = [] \<or> cm_deletionTimestamp obj \<noteq> None
        then Inl (Error ''successor admission requires live identities'')
      else (case snapshot_View env sn of Inl e \<Rightarrow> Inl e | Inr _ \<Rightarrow> Inr ()))"

text \<open>The comparison of a successor, its predecessor and the archive the successor names.\<close>

definition archive_binds ::
  "'a round_env_scheme \<Rightarrow> predecessor \<Rightarrow> config_map \<Rightarrow> snapshot \<Rightarrow> config_map \<Rightarrow> snapshot \<Rightarrow> config_map \<Rightarrow> bool" where
  "archive_binds env p so previous po archive ao =
     (cm_name so = cm_name po \<and> cm_namespace so = cm_namespace po \<and> cm_uid so = cm_uid po \<and>
      sourceUID p = cm_uid po \<and> cm_name ao = archiveName p \<and> cm_uid ao = archiveUID p \<and>
      cm_namespace ao = cm_namespace so \<and> cm_immutable ao = Some True \<and> cm_ownerReferences ao = [] \<and>
      index (cm_annotations ao) sourceName = cm_name po \<and> index (cm_annotations ao) sourceUIDKey = sourceUID p \<and>
      journalDigest env archive = journalSHA256 p \<and> snapshot_Plan archive = snapshot_Plan previous)"

definition continues_completion :: "predecessor \<Rightarrow> view \<Rightarrow> round \<Rightarrow> bool" where
  "continues_completion p old initial =
     (vw_complete old \<and> vw_servingGeneration old = servingGeneration p \<and>
      clusterUID (rspec initial) = clusterUID (rspec (vw_round old)) \<and>
      fromGeneration (rspec initial) = vw_servingGeneration old \<and>
      transitionUID (rspec initial) \<noteq> transitionUID (rspec (vw_round old)) \<and>
      planHash (rspec initial) \<noteq> planHash (rspec (vw_round old)))"

definition Succeeds :: "'a journal_env_scheme \<Rightarrow> snapshot \<Rightarrow> snapshot \<Rightarrow> snapshot \<Rightarrow> unit res" where
  "Succeeds env s previous archive =
     (case (sn_object s, sn_object previous, sn_object archive) of
        (Some so, Some po, Some ao) \<Rightarrow>
          (case j_predecessor (sn_transition s) of
             None \<Rightarrow> Inl (Error ''successor has no predecessor binding'')
           | Some p \<Rightarrow>
               if \<not> predecessor_valid p then Inl (Error ''successor has no predecessor binding'')
               else
                 (case live_identity env s so of
                    Inl e \<Rightarrow> Inl e
                  | Inr _ \<Rightarrow>
                 (case live_identity env previous po of
                    Inl e \<Rightarrow> Inl e
                  | Inr _ \<Rightarrow>
                 (case live_identity env archive ao of
                    Inl e \<Rightarrow> Inl e
                  | Inr _ \<Rightarrow>
                      if \<not> archive_binds env p so previous po archive ao
                        then Inl (Error ''successor archive identity or contents differ'')
                      else
                        (case Extends env (sn_transition archive) (sn_transition previous) of
                           Inl e \<Rightarrow> Inl e
                         | Inr _ \<Rightarrow>
                             (case snapshot_View env archive of
                                Inl e \<Rightarrow> Inl e
                              | Inr old \<Rightarrow>
                                  (let initial = j_initial (sn_transition s) in
                                   if \<not> continues_completion p old initial
                                     then Inl (Error ''successor does not continue archived completion'')
                                   else if issuedAt initial < e_at (last (j_events (sn_transition archive)))
                                     then Inl (Error ''successor predates archived completion'')
                                   else continuesMembers old initial)))))))
      | _ \<Rightarrow> Inl (Error ''successor admission requires complete snapshots''))"

definition successor_journal :: "'a round_env_scheme \<Rightarrow> journal \<Rightarrow> snapshot \<Rightarrow> config_map \<Rightarrow> string \<Rightarrow> string \<Rightarrow> journal" where
  "successor_journal env nxt archive obj digest serving =
     nxt\<lparr>j_version := 2, j_planRequired := True,
         j_predecessor := Some
           \<lparr>archiveName = (case sn_object archive of None \<Rightarrow> [] | Some a \<Rightarrow> cm_name a),
            archiveUID = (case sn_object archive of None \<Rightarrow> [] | Some a \<Rightarrow> cm_uid a),
            sourceUID = cm_uid obj, journalSHA256 = digest, servingGeneration = serving\<rparr>\<rparr>"

definition ReplaceCompleted ::
  "'a journal_env_scheme \<Rightarrow> string option \<Rightarrow> 'w store \<Rightarrow> snapshot \<Rightarrow> spec \<Rightarrow> string \<Rightarrow> time \<Rightarrow> policy \<Rightarrow>
   ('w, snapshot) io" where
  "ReplaceCompleted env rand s previous sp plan now pol =
     (case sn_object previous of
        None \<Rightarrow> io_lift (Inl (Error ''successor requires a predecessor and public plan''))
      | Some obj \<Rightarrow>
          io_bind (io_lift (guard (plan \<noteq> []) ''successor requires a predecessor and public plan'')) (\<lambda>_.
          io_bind (io_lift (store_snapshot env s obj)) (\<lambda>checked.
          io_bind (io_lift (guard (\<not> Frozen checked) ''frozen journal cannot admit a successor'')) (\<lambda>_.
          io_bind (io_lift (snapshot_View env checked)) (\<lambda>old.
          io_bind (io_lift (guard (vw_complete old \<and> clusterUID sp = clusterUID (rspec (vw_round old)) \<and>
                     fromGeneration sp = vw_servingGeneration old \<and>
                     transitionUID sp \<noteq> transitionUID (rspec (vw_round old)) \<and>
                     planHash sp \<noteq> planHash (rspec (vw_round old)))
                     ''successor does not continue the completed generation'')) (\<lambda>_.
          io_bind (io_lift (guard (planHash sp = hex_sha env plan) ''successor public plan hash differs'')) (\<lambda>_.
          io_bind (io_lift (guard (e_at (last (j_events (sn_transition checked))) \<le> now)
                     ''successor predates predecessor completion'')) (\<lambda>_.
          io_bind (io_lift (NewTransition env rand sp now pol)) (\<lambda>nxt.
          io_bind (io_lift (continuesMembers old (j_initial nxt))) (\<lambda>_.
          io_bind (ArchiveCompleted env s checked) (\<lambda>archive.
          let succ = successor_journal env nxt archive obj (journalDigest env checked) (vw_servingGeneration old) in
          io_bind (io_lift (Bytes env succ)) (\<lambda>raw.
          let sent = obj\<lparr>cm_data := Mapping.update planKey plan (Mapping.update journalKey raw (cm_data obj))\<rparr> in
          io_bind (api_call s (\<lambda>api. api_update api sent)) (\<lambda>updated.
          io_bind (io_lift (guard (cm_uid updated = cm_uid obj \<and> cm_data updated = cm_data sent)
                     ''persisted successor differs'')) (\<lambda>_.
          io_lift (store_snapshot env s updated)))))))))))))))"

section \<open>History\<close>

definition readPredecessor ::
  "'a journal_env_scheme \<Rightarrow> 'w store \<Rightarrow> snapshot \<Rightarrow> ('w, snapshot \<times> snapshot) io" where
  "readPredecessor env s current w =
     (case j_predecessor (sn_transition current) of
        None \<Rightarrow> (Inl (Error ''missing predecessor binding''), w)
      | Some link \<Rightarrow>
          if \<not> predecessor_valid link then (Inl (Error ''missing predecessor binding''), w)
          else
            (case Load env \<lparr>configMaps = configMaps s, s_name = archiveName link, s_clusterUID = s_clusterUID s,
                            s_expectedUID = archiveUID link, s_ownerReferences = []\<rparr> w of
               (Inl e, w') \<Rightarrow> (Inl (wrap ''loading predecessor archive: '' e), w')
             | (Inr archive, w') \<Rightarrow>
                 (let ao = the (sn_object archive);
                      source = archive\<lparr>sn_object := Some
                        (empty_map\<lparr>cm_typeMeta := cm_typeMeta ao,
                           cm_name := index (cm_annotations ao) sourceName, cm_namespace := cm_namespace ao,
                           cm_uid := index (cm_annotations ao) sourceUIDKey,
                           cm_resourceVersion := index (cm_annotations ao) sourceVersion,
                           cm_immutable := cm_immutable ao, cm_data := cm_data ao, cm_binaryData := cm_binaryData ao\<rparr>)\<rparr> in
                  (case Succeeds env current source archive of
                     Inl e \<Rightarrow> (Inl e, w')
                   | Inr _ \<Rightarrow> (Inr (archive, source), w')))))"

text \<open>
  The unbounded loops over the chain of archives, with fuel; \<open>None\<close> is an exhausted fuel.
  \<open>history_fuel_enough\<close> shows how much is always enough.
\<close>

fun history_loop ::
  "nat \<Rightarrow> 'a journal_env_scheme \<Rightarrow> 'w ctx \<Rightarrow> 'w store \<Rightarrow> snapshot \<Rightarrow> string set \<Rightarrow> snapshot \<Rightarrow> 'w \<Rightarrow> (unit res \<times> 'w) option" where
  "history_loop 0 env ctx s previous seen cursor w = None"
| "history_loop (Suc n) env ctx s previous seen cursor w =
     (case check_ctx ctx w of
        (Inl e, w1) \<Rightarrow> Some (Inl e, w1)
      | (Inr _, w1) \<Rightarrow>
          (case j_predecessor (sn_transition cursor) of
             None \<Rightarrow> Some (Inl (Error ''history is missing or cycles before the local checkpoint''), w1)
           | Some link \<Rightarrow>
               if \<not> predecessor_valid link \<or> archiveUID link \<in> seen
                 then Some (Inl (Error ''history is missing or cycles before the local checkpoint''), w1)
               else
                 (case readPredecessor env s cursor w1 of
                    (Inl e, w2) \<Rightarrow> Some (Inl e, w2)
                  | (Inr (_, source), w2) \<Rightarrow>
                      (case snapshot_Extends env source previous of
                         Inr _ \<Rightarrow> Some (Inr (), w2)
                       | Inl _ \<Rightarrow> history_loop n env ctx s previous (insert (archiveUID link) seen) source w2))))"

definition CheckHistory ::
  "nat \<Rightarrow> 'a journal_env_scheme \<Rightarrow> 'w ctx \<Rightarrow> 'w store \<Rightarrow> snapshot \<Rightarrow> snapshot \<Rightarrow> 'w \<Rightarrow> (unit res \<times> 'w) option" where
  "CheckHistory fuel env ctx s current previous w =
     (case configured s of
        Inl e \<Rightarrow> Some (Inl e, w)
      | Inr _ \<Rightarrow>
          (case (sn_object current, sn_object previous) of
             (Some co, Some po) \<Rightarrow>
               (case store_snapshot env s co of
                  Inl e \<Rightarrow> Some (Inl e, w)
                | Inr _ \<Rightarrow>
               (case store_snapshot env s po of
                  Inl e \<Rightarrow> Some (Inl e, w)
                | Inr _ \<Rightarrow>
                    if snapshot_Extends env current previous = Inr () then Some (Inr (), w)
                    else if cm_name co \<noteq> cm_name po \<or> cm_namespace co \<noteq> cm_namespace po \<or> cm_uid co \<noteq> cm_uid po
                      then Some (Inl (Error ''history belongs to a different journal incarnation''), w)
                    else
                      (case history_loop fuel env ctx s previous {} current w of
                         None \<Rightarrow> None
                       | Some (Inl e, w1) \<Rightarrow> Some (Inl e, w1)
                       | Some (Inr _, w1) \<Rightarrow>
                           (case Load env s w1 of
                              (Inl e, w2) \<Rightarrow> Some (Inl e, w2)
                            | (Inr live, w2) \<Rightarrow> Some (ContinuesExecution env live current, w2)))))
           | _ \<Rightarrow> Some (Inl (Error ''history requires both snapshots''), w)))"

fun archive_loop ::
  "nat \<Rightarrow> 'a journal_env_scheme \<Rightarrow> 'w ctx \<Rightarrow> 'w store \<Rightarrow> string set \<Rightarrow> snapshot \<Rightarrow> 'w \<Rightarrow> (string list res \<times> 'w) option" where
  "archive_loop 0 env ctx s seen cursor w = None"
| "archive_loop (Suc n) env ctx s seen cursor w =
     (case check_ctx ctx w of
        (Inl e, w1) \<Rightarrow> Some (Inl e, w1)
      | (Inr _, w1) \<Rightarrow>
          (case j_predecessor (sn_transition cursor) of
             None \<Rightarrow> Some (Inr [], w1)
           | Some link \<Rightarrow>
               if \<not> predecessor_valid link \<or> archiveUID link \<in> seen
                 then Some (Inl (Error ''invalid or cyclic archive history''), w1)
               else
                 (case readPredecessor env s cursor w1 of
                    (Inl e, w2) \<Rightarrow> Some (Inl e, w2)
                  | (Inr (archive, source), w2) \<Rightarrow>
                      (case archive_loop n env ctx s (insert (archiveUID link) seen) source w2 of
                         None \<Rightarrow> None
                       | Some (Inl e, w3) \<Rightarrow> Some (Inl e, w3)
                       | Some (Inr names, w3) \<Rightarrow> Some (Inr (cm_name (the (sn_object archive)) # names), w3)))))"

definition ArchiveNames ::
  "nat \<Rightarrow> 'a journal_env_scheme \<Rightarrow> 'w ctx \<Rightarrow> 'w store \<Rightarrow> snapshot \<Rightarrow> 'w \<Rightarrow> (string list res \<times> 'w) option" where
  "ArchiveNames fuel env ctx s current w =
     (case configured s of
        Inl e \<Rightarrow> Some (Inl e, w)
      | Inr _ \<Rightarrow>
          (case sn_object current of
             None \<Rightarrow> Some (Inl (Error ''missing current journal''), w)
           | Some co \<Rightarrow>
               (case store_snapshot env s co of
                  Inl e \<Rightarrow> Some (Inl e, w)
                | Inr _ \<Rightarrow>
                    (case archive_loop fuel env ctx s {} current w of
                       None \<Rightarrow> None
                     | Some (Inl e, w1) \<Rightarrow> Some (Inl e, w1)
                     | Some (Inr names, w1) \<Rightarrow>
                         Some (io_bind (Load env s) (\<lambda>live.
                               io_bind (io_lift (ContinuesExecution env live current)) (\<lambda>_. io_lift (Inr names))) w1)))))"

definition PredecessorArchive :: "'a journal_env_scheme \<Rightarrow> 'w store \<Rightarrow> snapshot \<Rightarrow> ('w, snapshot) io" where
  "PredecessorArchive env s current =
     io_bind (io_lift (configured s)) (\<lambda>_.
     case sn_object current of
       None \<Rightarrow> io_lift (Inl (Error ''missing successor journal''))
     | Some co \<Rightarrow>
         io_bind (io_lift (store_snapshot env s co)) (\<lambda>_.
         io_bind (readPredecessor env s current) (\<lambda>as.
         io_bind (Load env s) (\<lambda>live.
         io_bind (io_lift (ContinuesExecution env live current)) (\<lambda>_.
         io_lift (Inr (fst as)))))))"

section \<open>The archive chain\<close>

lemma Load_Inr:
  "Load env s w = (Inr sn, w') \<longleftrightarrow>
     (\<exists>api obj. configured s = Inr () \<and> configMaps s = Some api \<and> api_get api (s_name s) w = (Inr obj, w') \<and>
        store_snapshot env s obj = Inr sn)"
  unfolding Load_def io_bind_Inr io_lift_eq api_call_Inr by auto

definition source_of :: "snapshot \<Rightarrow> snapshot" where
  "source_of archive =
     (let ao = the (sn_object archive) in
      archive\<lparr>sn_object := Some
        (empty_map\<lparr>cm_typeMeta := cm_typeMeta ao,
           cm_name := index (cm_annotations ao) sourceName, cm_namespace := cm_namespace ao,
           cm_uid := index (cm_annotations ao) sourceUIDKey,
           cm_resourceVersion := index (cm_annotations ao) sourceVersion,
           cm_immutable := cm_immutable ao, cm_data := cm_data ao, cm_binaryData := cm_binaryData ao\<rparr>)\<rparr>)"

lemma readPredecessor_Inr:
  assumes "readPredecessor env s current w = (Inr (archive, source), w')"
  obtains link api obj where "j_predecessor (sn_transition current) = Some link" "predecessor_valid link"
    "configMaps s = Some api" "api_get api (archiveName link) w = (Inr obj, w')" "cm_uid obj = archiveUID link"
    "sn_object archive = Some obj" "source = source_of archive" "Succeeds env current source archive = Inr ()"
proof -
  from assms obtain link where link: "j_predecessor (sn_transition current) = Some link" "predecessor_valid link"
    by (auto simp: readPredecessor_def split: option.splits if_splits)
  define r :: "'a store" where "r = \<lparr>configMaps = configMaps s, s_name = archiveName link, s_clusterUID = s_clusterUID s,
                            s_expectedUID = archiveUID link, s_ownerReferences = []\<rparr>"
  obtain x w1 where ld: "Load env r w = (x, w1)" by fastforce
  with assms link have "x = Inr archive \<and> w1 = w' \<and> source = source_of archive \<and> Succeeds env current source archive = Inr ()"
    by (auto simp: readPredecessor_def r_def source_of_def Let_def split: sum.splits)
  with ld have "Load env r w = (Inr archive, w')" and *: "source = source_of archive" "Succeeds env current source archive = Inr ()"
    by auto
  then obtain api obj where get: "configMaps s = Some api" "api_get api (archiveName link) w = (Inr obj, w')"
    "store_snapshot env r obj = Inr archive" unfolding Load_Inr by (auto simp: r_def)
  have "archiveUID link \<noteq> []" using link(2) by (simp add: predecessor_valid_def token_def)
  with get(3) have "cm_uid obj = archiveUID link" "sn_object archive = Some obj"
    by (auto simp: store_snapshot_Inr admissible_def r_def)
  with that link get * show thesis by blast
qed

text \<open>Objects an API server can return have their UIDs in a set: in a real cluster a finite one.\<close>

definition known_uids :: "string set \<Rightarrow> 'w config_maps \<Rightarrow> bool" where
  "known_uids U api = (\<forall>n w obj w'. api_get api n w = (Inr obj, w') \<longrightarrow> cm_uid obj \<in> U)"

lemma readPredecessor_known:
  assumes "readPredecessor env s cursor w = (Inr as, w')" and "configMaps s = Some api" and "known_uids U api"
    and "j_predecessor (sn_transition cursor) = Some link"
  shows "archiveUID link \<in> U"
proof -
  from assms(1) have "readPredecessor env s cursor w = (Inr (fst as, snd as), w')" by simp
  then show ?thesis
  proof (rule readPredecessor_Inr)
    fix link' api' obj
    assume "j_predecessor (sn_transition cursor) = Some link'" "configMaps s = Some api'"
      "api_get api' (archiveName link') w = (Inr obj, w')" "cm_uid obj = archiveUID link'"
    with assms(2-4) show ?thesis unfolding known_uids_def by (metis option.inject)
  qed
qed

lemma history_loop_total:
  assumes "finite U" and "configMaps s = Some api" and "known_uids U api" and "card (U - seen) < n"
  shows "history_loop n env ctx s previous seen cursor w \<noteq> None"
proof (rule walk_total [where loop = "\<lambda>n seen. history_loop n env ctx s previous seen", OF assms(1) _ assms(4)])
  fix n seen cursor w
  assume "history_loop (Suc n) env ctx s previous seen cursor w = None"
  then show "\<exists>k c' w'. k \<in> U - seen \<and> history_loop n env ctx s previous (insert k seen) c' w' = None"
    using readPredecessor_known [OF _ assms(2,3)]
    by (auto split: sum.splits option.splits prod.splits if_splits) blast
qed

lemma archive_loop_total:
  assumes "finite U" and "configMaps s = Some api" and "known_uids U api" and "card (U - seen) < n"
  shows "archive_loop n env ctx s seen cursor w \<noteq> None"
proof (rule walk_total [where loop = "\<lambda>n seen. archive_loop n env ctx s seen", OF assms(1) _ assms(4)])
  fix n seen cursor w
  assume "archive_loop (Suc n) env ctx s seen cursor w = None"
  then show "\<exists>k c' w'. k \<in> U - seen \<and> archive_loop n env ctx s (insert k seen) c' w' = None"
    using readPredecessor_known [OF _ assms(2,3)]
    by (auto split: sum.splits option.splits prod.splits if_splits) blast
qed

text \<open>The ancestry the walk establishes: extensions within a generation, admitted successors between.\<close>

inductive descends :: "'a journal_env_scheme \<Rightarrow> snapshot \<Rightarrow> snapshot \<Rightarrow> bool" for env where
  descends_extends: "snapshot_Extends env a b = Inr () \<Longrightarrow> descends env a b"
| descends_succeeds: "Succeeds env a src archive = Inr () \<Longrightarrow> descends env src b \<Longrightarrow> descends env a b"

lemma history_loop_sound:
  "history_loop n env ctx s previous seen cursor w = Some (Inr u, w') \<Longrightarrow> descends env cursor previous"
proof (induction n arbitrary: seen cursor w)
  case (Suc n)
  obtain link :: predecessor and archive source w1 w2 where rd: "readPredecessor env s cursor w1 = (Inr (archive, source), w2)"
    and rest: "snapshot_Extends env source previous = Inr () \<or>
       history_loop n env ctx s previous (insert (archiveUID link) seen) source w2 = Some (Inr u, w')"
    using Suc.prems by (auto split: sum.splits option.splits prod.splits if_splits)
  from rd have suc: "Succeeds env cursor source archive = Inr ()" by (rule readPredecessor_Inr)
  from rest Suc.IH have "descends env source previous" by (auto intro: descends_extends)
  with suc show ?case by (rule descends_succeeds)
qed simp

section \<open>Successors\<close>

lemma continues_each_Inr:
  assumes "length ps = length cs"
  shows "continues_each ph ps cs = Inr () \<longleftrightarrow>
     list_all2 (\<lambda>p c. ident c = ident p \<and> m_fromKey c = (if ph = Abort then m_fromKey p else m_toKey p) \<and>
        m_fromPeerKey c = (if ph = Abort then m_fromPeerKey p else m_toPeerKey p)) ps cs"
  using assms by (induction ph ps cs rule: continues_each.induct) auto

lemma continuesMembers_Inr:
  "continuesMembers old nxt = Inr () \<longleftrightarrow>
     list_all2 (\<lambda>p c. ident c = ident p \<and>
        m_fromKey c = (if phase (rspec (vw_round old)) = Abort then m_fromKey p else m_toKey p) \<and>
        m_fromPeerKey c = (if phase (rspec (vw_round old)) = Abort then m_fromPeerKey p else m_toPeerKey p))
       (members (rspec (vw_round old))) (members (rspec nxt))"
  by (auto simp: continuesMembers_def continues_each_Inr dest: list_all2_lengthD)

lemma Succeeds_Inr:
  "Succeeds env s previous archive = Inr () \<longleftrightarrow>
     (\<exists>so po ao p old. sn_object s = Some so \<and> sn_object previous = Some po \<and> sn_object archive = Some ao \<and>
        j_predecessor (sn_transition s) = Some p \<and> predecessor_valid p \<and>
        live_identity env s so = Inr () \<and> live_identity env previous po = Inr () \<and> live_identity env archive ao = Inr () \<and>
        archive_binds env p so previous po archive ao \<and>
        Extends env (sn_transition archive) (sn_transition previous) = Inr () \<and>
        snapshot_View env archive = Inr old \<and> continues_completion p old (j_initial (sn_transition s)) \<and>
        e_at (last (j_events (sn_transition archive))) \<le> issuedAt (j_initial (sn_transition s)) \<and>
        continuesMembers old (j_initial (sn_transition s)) = Inr ())"
proof (cases "sn_object s = None \<or> sn_object previous = None \<or> sn_object archive = None")
  case True
  then show ?thesis by (auto simp: Succeeds_def split: option.splits)
next
  case False
  then obtain so po ao where "sn_object s = Some so" "sn_object previous = Some po" "sn_object archive = Some ao" by auto
  then show ?thesis by (auto simp: Succeeds_def Let_def res_inv not_less)
qed

lemma live_identity_Inr:
  "live_identity env sn obj = Inr () \<longleftrightarrow>
     cm_uid obj \<noteq> [] \<and> cm_resourceVersion obj \<noteq> [] \<and> cm_deletionTimestamp obj = None \<and> (\<exists>v. snapshot_View env sn = Inr v)"
  by (auto simp: live_identity_def res_inv)

lemma NewTransition_Inr:
  assumes "NewTransition env rand sp now pol = Inr j"
  shows "clusterUID (rspec (j_initial j)) = clusterUID sp" "fromGeneration (rspec (j_initial j)) = fromGeneration sp"
    "transitionUID (rspec (j_initial j)) = transitionUID sp" "planHash (rspec (j_initial j)) = planHash sp"
    "issuedAt (j_initial j) = now" "j_events j = []"
proof -
  from assms obtain b where r: "canonical env \<lparr>rspec = sp, nonce = hex_encode b, issuedAt = now,
      expiresAt = now + roundLifetime pol, maxReceiptAge = p_maxReceiptAge pol\<rparr> = Inr (j_initial j)"
    and ev: "j_events j = []"
    by (auto simp: NewTransition_def Let_def NewRound_def res_inv)
  from canonical_fields [OF r] ev show "clusterUID (rspec (j_initial j)) = clusterUID sp"
    "fromGeneration (rspec (j_initial j)) = fromGeneration sp" "transitionUID (rspec (j_initial j)) = transitionUID sp"
    "planHash (rspec (j_initial j)) = planHash sp" "issuedAt (j_initial j) = now" "j_events j = []"
    by simp_all
qed

lemma create_or_get_Inr:
  "create_or_get s obj w = (Inr stored, w') \<Longrightarrow> \<exists>api. configMaps s = Some api"
  by (auto simp: create_or_get_def split: option.splits)

lemma ArchiveCompleted_Inr:
  assumes "ArchiveCompleted env s previous w = (Inr archive, w')"
  obtains obj stored where "sn_object previous = Some obj" "cm_deletionTimestamp obj = None" "configured s = Inr ()"
    "archive_matches (archive_object env previous obj) stored" "token (index (cm_annotations stored) sourceVersion)"
    "store_snapshot env \<lparr>configMaps = configMaps s, s_name = cm_name (archive_object env previous obj),
       s_clusterUID = s_clusterUID s, s_expectedUID = [], s_ownerReferences = []\<rparr> stored = Inr archive"
  using assms unfolding ArchiveCompleted_def Let_def io_bind_Inr io_lift_eq option_case_io guard_Inr live_object_Some
  by auto

lemma archive_object_fields [simp]:
  "cm_namespace (archive_object env sn obj) = cm_namespace obj" "cm_data (archive_object env sn obj) = cm_data obj"
  "cm_binaryData (archive_object env sn obj) = cm_binaryData obj"
  "index (cm_annotations (archive_object env sn obj)) sourceName = cm_name obj"
  "index (cm_annotations (archive_object env sn obj)) sourceUIDKey = cm_uid obj"
  by (simp_all add: archive_object_def empty_map_def index_def sourceName_def sourceUIDKey_def sourceVersion_def lookup_update')

lemma archive_matches_annotations:
  assumes "archive_matches (archive_object env sn obj) stored"
  shows "index (cm_annotations stored) sourceName = cm_name obj" "index (cm_annotations stored) sourceUIDKey = cm_uid obj"
proof -
  have *: "index (Mapping.update sourceVersion x m) sourceName = index m sourceName"
    "index (Mapping.update sourceVersion x m) sourceUIDKey = index m sourceUIDKey" for x m
    by (simp_all add: index_def sourceName_def sourceUIDKey_def sourceVersion_def lookup_update')
  have "cm_annotations stored = Mapping.update sourceVersion (index (cm_annotations stored) sourceVersion)
      (cm_annotations (archive_object env sn obj))" using assms by (simp add: archive_matches_def)
  then show "index (cm_annotations stored) sourceName = cm_name obj" "index (cm_annotations stored) sourceUIDKey = cm_uid obj"
    by (metis * archive_object_fields(4), metis * archive_object_fields(5))
qed

lemma ReplaceCompleted_Inr:
  assumes "ReplaceCompleted env rand s previous sp plan now pol w = (Inr sn, w')"
  obtains api obj checked old nxt archive raw w1 w2 updated where
    "configMaps s = Some api" "sn_object previous = Some obj" "store_snapshot env s obj = Inr checked" "\<not> Frozen checked"
    "snapshot_View env checked = Inr old" "vw_complete old" "clusterUID sp = clusterUID (rspec (vw_round old))"
    "fromGeneration sp = vw_servingGeneration old" "transitionUID sp \<noteq> transitionUID (rspec (vw_round old))"
    "planHash sp \<noteq> planHash (rspec (vw_round old))" "e_at (last (j_events (sn_transition checked))) \<le> now"
    "NewTransition env rand sp now pol = Inr nxt" "continuesMembers old (j_initial nxt) = Inr ()"
    "ArchiveCompleted env s checked w1 = (Inr archive, w2)"
    "Bytes env (successor_journal env nxt archive obj (journalDigest env checked) (vw_servingGeneration old)) = Inr raw"
    "api_update api (obj\<lparr>cm_data := Mapping.update planKey plan (Mapping.update journalKey raw (cm_data obj))\<rparr>) w2 = (Inr updated, w')"
    "cm_uid updated = cm_uid obj" "cm_data updated = Mapping.update planKey plan (Mapping.update journalKey raw (cm_data obj))"
    "store_snapshot env s updated = Inr sn"
  using assms unfolding ReplaceCompleted_def Let_def option_case_io io_bind_Inr io_lift_eq guard_Inr api_call_Inr
  by auto

lemma data_journal [simp]: "index (Mapping.update planKey p (Mapping.update journalKey raw d)) journalKey = raw"
  by (simp add: index_def planKey_def journalKey_def lookup_update')

lemma same_data_journal:
  assumes "valid_snapshot env s a" and "valid_snapshot env s' b" and "sn_object a = Some oa" "sn_object b = Some ob"
    and "cm_data oa = cm_data ob"
  shows "sn_transition a = sn_transition b" "journalDigest env a = journalDigest env b" "snapshot_Plan a = snapshot_Plan b"
  using valid_journal [OF assms(1,3)] valid_journal [OF assms(2,4)] assms(3-5)
  by (simp_all add: journalDigest_def obj_data_def snapshot_Plan_def)

lemma valid_live:
  assumes "valid_snapshot env s sn" and "sn_object sn = Some obj" and "cm_deletionTimestamp obj = None"
  shows "live_identity env sn obj = Inr ()"
proof -
  from assms(1,2) obtain t v where "admissible env s obj t v" by (auto simp: valid_snapshot_def)
  moreover obtain u where "snapshot_View env sn = Inr u" using assms(1) valid_Inr valid_view by metis
  ultimately show ?thesis using assms(3) by (simp add: live_identity_Inr admissible_def)
qed

lemma replace_succeeds:
  assumes js: "json_faithful env" and cas: "cas_api live api" and api: "configMaps s = Some api"
    and rep: "ReplaceCompleted env rand s previous sp plan now pol w = (Inr sn, w')"
    and prev: "valid_snapshot env s previous" and bytes: "Bytes env (sn_transition previous) = Inr b"
  shows "\<exists>archive. Succeeds env sn previous archive = Inr () \<and> Frozen archive"
  using rep
proof (cases rule: ReplaceCompleted_Inr)
  case (1 api' obj checked old nxt archive raw w1 w2 updated)
  have api': "api' = api" using 1(1) api by simp
  have checked: "checked = previous"
    using 1(2,3) prev store_snapshot_valid by (metis valid_unique)
  let ?succ = "successor_journal env nxt archive obj (journalDigest env checked) (vw_servingGeneration old)"
  from 1(14) obtain stored where dead: "cm_deletionTimestamp obj = None"
    and am: "archive_matches (archive_object env checked obj) stored"
    and arch: "store_snapshot env \<lparr>configMaps = configMaps s, s_name = cm_name (archive_object env checked obj),
       s_clusterUID = s_clusterUID s, s_expectedUID = [], s_ownerReferences = []\<rparr> stored = Inr archive"
    by (rule ArchiveCompleted_Inr) (use 1(2) checked in auto)
  note sn = store_snapshot_valid [OF 1(19)] and ar = store_snapshot_valid [OF arch]
  have up: "cm_name updated = cm_name obj" "cm_namespace updated = cm_namespace obj" "cm_deletionTimestamp updated = None"
    using cas_api_keeps [OF cas 1(16) [unfolded api']] dead by simp_all
  have tr: "sn_transition sn = ?succ"
    using valid_journal [OF sn [THEN conjunct1] sn [THEN conjunct2]] Bytes_json [OF js 1(15)] 1(18) by simp
  have same: "sn_transition archive = sn_transition previous" "journalDigest env archive = journalDigest env previous"
    "snapshot_Plan archive = snapshot_Plan previous"
    using same_data_journal [OF ar [THEN conjunct1] prev ar [THEN conjunct2] 1(2)] am by (simp_all add: archive_matches_def)
  obtain vs where vs: "View env ?succ = Inr vs" using 1(15) by (auto simp: Bytes_Inr)
  let ?p = "the (j_predecessor ?succ)"
  have p: "j_predecessor (sn_transition sn) = Some ?p" "predecessor_valid ?p"
    using vs tr by (auto simp: View_iff start_state_def Let_def successor_journal_def split: if_splits)
  have pf: "archiveName ?p = cm_name stored" "archiveUID ?p = cm_uid stored" "sourceUID ?p = cm_uid obj"
    "journalSHA256 ?p = journalDigest env previous" "servingGeneration ?p = vw_servingGeneration old"
    using ar checked by (simp_all add: successor_journal_def)
  have init: "j_initial (sn_transition sn) = j_initial nxt" by (simp add: tr successor_journal_def)
  have "archive_binds env ?p updated previous obj archive stored"
    using up 1(17) pf am archive_matches_annotations [OF am] same
    by (simp add: archive_binds_def archive_matches_def)
  moreover have "live_identity env sn updated = Inr ()" "live_identity env previous obj = Inr ()" "live_identity env archive stored = Inr ()"
    using valid_live [OF prev 1(2) dead] valid_live [of env s sn updated] sn up(3)
      valid_live [OF ar [THEN conjunct1] ar [THEN conjunct2]] am by (simp_all add: archive_matches_def)
  moreover have "Extends env (sn_transition archive) (sn_transition previous) = Inr ()" using extends_self [OF bytes] same by simp
  moreover have old: "snapshot_View env archive = Inr old"
    using 1(5) checked same valid_view [OF prev] valid_view [OF ar [THEN conjunct1]] by simp
  moreover have "continues_completion ?p old (j_initial nxt)"
    using 1(6-10) pf NewTransition_Inr [OF 1(12)] by (simp add: continues_completion_def)
  ultimately have "Succeeds env sn previous archive = Inr ()"
    unfolding Succeeds_Inr init using sn ar 1(2,11,13) p same checked NewTransition_Inr(5) [OF 1(12)] by metis
  moreover have "Frozen archive" using ar am by (simp add: Frozen_def archive_matches_def)
  ultimately show ?thesis by blast
qed

end
