(* ===== verification/Sample.thy ===== *)
theory Sample
  imports Succession
begin

text \<open>
  A small concrete handover, on which the hypotheses of the theorems about rounds, journals and
  their store hold: one node moves from generation \<open>g1\<close> to \<open>g2\<close>, keys are one-character
  strings, the round's text is its nonce, a hash is the padded text, and the texts of the five
  journals of the handover and of one successor journal can be written and read back.
  The API server is a map of objects that updates by compare-and-swap.
\<close>

definition sample_member :: member where
  "sample_member =
     \<lparr>m_nodeUID = ''n'', m_fromKey = ''a'', m_toKey = ''b'', m_deviceID = [], m_fromPeerKey = [], m_toPeerKey = []\<rparr>"

definition sample_spec :: "phase \<Rightarrow> spec" where
  "sample_spec ph =
     \<lparr>clusterUID = ''c'', transitionUID = ''t'', planHash = replicate 64 CHR ''0'',
      fromGeneration = ''g1'', toGeneration = ''g2'', phase = ph, members = [sample_member]\<rparr>"

definition sample_round :: "phase \<Rightarrow> char \<Rightarrow> time \<Rightarrow> round" where
  "sample_round ph c at =
     \<lparr>rspec = sample_spec ph, nonce = replicate 32 c, issuedAt = at, expiresAt = at + 1000, maxReceiptAge = 500\<rparr>"

definition sample_receipt :: "char \<Rightarrow> time \<Rightarrow> receipt" where
  "sample_receipt c at =
     \<lparr>observedBootID = ''boot'', agentPodName = ''p'', agentPodUID = ''pu'', agentContainerName = ''co'', agentContainerID = ''ci'',
      roundHash = hex_encode (replicate 32 c), r_nodeUID = ''n'', r_fromKey = ''a'', r_toKey = ''b'',
      observedAt = at, r_deviceID = [], r_fromPeerKey = [], r_toPeerKey = []\<rparr>"

definition sample_proof :: "char \<Rightarrow> time \<Rightarrow> authenticated_receipt" where
  "sample_proof c at = \<lparr>authenticatedNodeUID = ''n'', a_receipt = sample_receipt c at\<rparr>"

definition sample_advance :: "char \<Rightarrow> time \<Rightarrow> round option \<Rightarrow> event" where
  "sample_advance c at nx =
     \<lparr>e_op = OpAdvance, e_at = at, e_receipts = [sample_receipt c at], e_next = nx\<rparr>"

definition sample_journal :: "event list \<Rightarrow> journal" where
  "sample_journal es =
     \<lparr>j_version = 1, j_predecessor = None, j_planRequired = False,
      j_policy = \<lparr>roundLifetime = 1000, p_maxReceiptAge = 500, drainInterval = 50\<rparr>,
      j_initial = sample_round Prepare CHR ''0'' 100, j_events = es\<rparr>"

definition sample_events :: "event list" where
  "sample_events =
     [sample_advance CHR ''0'' 110 (Some (sample_round Switch CHR ''1'' 110)),
      sample_advance CHR ''1'' 120 (Some (sample_round Drain CHR ''2'' 120)),
      sample_advance CHR ''2'' 180 (Some (sample_round Retire CHR ''3'' 180)),
      sample_advance CHR ''3'' 190 None]"

definition sample_plan :: string where
  "sample_plan = replicate 32 CHR 0x00"

definition sample_object :: "nat \<Rightarrow> config_map" where
  "sample_object n =
     empty_map\<lparr>cm_name := ''j'', cm_namespace := ''ns'', cm_uid := ''u'', cm_resourceVersion := ''v'',
       cm_data := Mapping.update planKey sample_plan
         (Mapping.update journalKey (replicate (Suc n) CHR ''i'') Mapping.empty)\<rparr>"

definition sample_archive :: config_map where
  "sample_archive =
     empty_map\<lparr>cm_name := ''handover-archive-753a3639363936393639363930303030'',
       cm_namespace := ''ns'', cm_uid := ''a'', cm_resourceVersion := ''v'',
       cm_annotations := Mapping.update sourceVersion ''v''
         (Mapping.update sourceUIDKey ''u'' (Mapping.update sourceName ''j'' Mapping.empty)),
       cm_immutable := Some True, cm_data := cm_data (sample_object 4)\<rparr>"

definition sample_next_spec :: spec where
  "sample_next_spec =
     \<lparr>clusterUID = ''c'', transitionUID = ''t2'', planHash = hex_encode (replicate 32 CHR 0x01),
      fromGeneration = ''g2'', toGeneration = ''g3'', phase = Prepare,
      members = [sample_member\<lparr>m_fromKey := ''b'', m_toKey := ''c''\<rparr>]\<rparr>"

definition sample_successor :: journal where
  "sample_successor =
     \<lparr>j_version = 2,
      j_predecessor = Some \<lparr>archiveName = cm_name sample_archive, archiveUID = ''a'', sourceUID = ''u'',
        journalSHA256 = hex_encode (replicate 5 CHR ''i'' @ replicate 27 CHR 0x00), servingGeneration = ''g2''\<rparr>,
      j_planRequired = True, j_policy = \<lparr>roundLifetime = 1000, p_maxReceiptAge = 500, drainInterval = 50\<rparr>,
      j_initial = \<lparr>rspec = sample_next_spec, nonce = hex_encode (replicate 16 CHR 0x11), issuedAt = 200,
        expiresAt = 1200, maxReceiptAge = 500\<rparr>, j_events = []\<rparr>"

definition sample_env :: store_env where
  "sample_env =
     \<lparr>ParseKey = (\<lambda>s. if length s = 1 then Some s else None), KeyString = (\<lambda>k. k),
      sha256 = (\<lambda>s. take 32 (s @ replicate 32 CHR 0x00)),
      marshal_round = (\<lambda>r. Some (nonce r)), json_round = (\<lambda>s. None),
      marshal_journal = (\<lambda>j.
        if j = sample_successor then Some ''s''
        else if length (j_events j) \<le> 4 \<and> j = sample_journal (take (length (j_events j)) sample_events)
          then Some (replicate (Suc (length (j_events j))) CHR ''i'') else None),
      json_journal = (\<lambda>s.
        if s = ''s'' then Some (sample_successor, True)
        else if s \<noteq> [] \<and> length s \<le> 5 \<and> s = replicate (length s) CHR ''i''
          then Some (sample_journal (take (length s - 1) sample_events), True) else None),
      marshal_checkpoint = (\<lambda>c. if c = (1, Some (sample_object 0)) then Some ''c'' else None),
      json_checkpoint = (\<lambda>s. if s = ''c'' then Some ((1, Some (sample_object 0)), True) else None)\<rparr>"

definition sample_start :: view where
  "sample_start =
     \<lparr>vw_observed = [], vw_round = sample_round Prepare CHR ''0'' 100, vw_rollbackRequested = False,
      vw_complete = False, vw_servingGeneration = [], vw_drainUntil = 0\<rparr>"

definition sample_end :: view where
  "sample_end =
     \<lparr>vw_observed = [], vw_round = sample_round Retire CHR ''3'' 180, vw_rollbackRequested = False,
      vw_complete = True, vw_servingGeneration = ''g2'', vw_drainUntil = 170\<rparr>"

lemma sample_view_start: "View sample_env (sample_journal []) = Inr sample_start"
  by code_simp

lemma sample_view_end: "View sample_env (sample_journal sample_events) = Inr sample_end"
  by code_simp

lemma sample_key_roundtrip: "key_roundtrip sample_env"
  by (auto simp: key_roundtrip_def sample_env_def split: if_splits)

lemma sample_json: "json_faithful sample_env"
proof -
  have ne: "replicate (Suc n) CHR ''i'' \<noteq> ''s''" for n by simp
  show ?thesis
    by (auto simp: json_faithful_def sample_env_def ne simp del: replicate_Suc split: if_splits)
qed

lemma sample_events_length: "length sample_events = 4"
  by (simp add: sample_events_def)

lemma sample_bytes:
  "Bytes sample_env (sample_journal []) = Inr ''i''" "Bytes sample_env (sample_journal sample_events) = Inr ''iiiii''"
proof -
  have ne: "sample_journal es \<noteq> sample_successor" for es by (simp add: sample_journal_def sample_successor_def)
  have ev: "j_events (sample_journal es) = es" for es by (simp add: sample_journal_def)
  have "marshal_journal sample_env (sample_journal []) = Some ''i''"
    by (simp add: sample_env_def ne ev)
  moreover have "marshal_journal sample_env (sample_journal sample_events) = Some ''iiiii''"
    by (simp add: sample_env_def ne ev sample_events_length numeral_eq_Suc)
  ultimately show "Bytes sample_env (sample_journal []) = Inr ''i''" "Bytes sample_env (sample_journal sample_events) = Inr ''iiiii''"
    using sample_view_start sample_view_end by (simp_all add: Bytes_Inr)
qed

lemma sample_ready: "Ready sample_env (vw_round sample_start) 110 [sample_proof CHR ''0'' 110] = Inr ()"
  by code_simp

lemma sample_rounds: "map nonce (journal_rounds (sample_journal [])) = [replicate 32 CHR ''0'']"
  by code_simp


section \<open>A concrete API server\<close>

type_synonym objects = "string \<rightharpoonup> config_map"

definition sample_api :: "objects config_maps" where
  "sample_api =
     \<lparr>api_get = (\<lambda>n w. case w n of None \<Rightarrow> (Inl (APIError ''not found''), w) | Some obj \<Rightarrow> (Inr obj, w)),
      api_create = (\<lambda>obj w. case w (cm_name obj) of
         Some _ \<Rightarrow> (Inl (AlreadyExists ''exists''), w)
       | None \<Rightarrow> let r = obj\<lparr>cm_uid := ''a'', cm_resourceVersion := ''v''\<rparr> in (Inr r, w(cm_name obj \<mapsto> r))),
      api_update = (\<lambda>obj w. case w (cm_name obj) of
         None \<Rightarrow> (Inl (APIError ''not found''), w)
       | Some c \<Rightarrow>
           if cm_uid c \<noteq> cm_uid obj \<or> cm_resourceVersion c \<noteq> cm_resourceVersion obj \<or>
              (cm_immutable c = Some True \<and>
                (cm_immutable obj \<noteq> Some True \<or> cm_data obj \<noteq> cm_data c \<or> cm_binaryData obj \<noteq> cm_binaryData c))
             then (Inl (APIError ''conflict''), w)
           else let r = obj\<lparr>cm_resourceVersion := CHR ''v'' # cm_resourceVersion obj\<rparr> in (Inr r, w(cm_name obj \<mapsto> r)))\<rparr>"

definition sample_store :: "objects store" where
  "sample_store =
     \<lparr>configMaps = Some sample_api, s_name = ''j'', s_clusterUID = ''c'', s_expectedUID = [], s_ownerReferences = []\<rparr>"

definition sample_world :: "nat \<Rightarrow> objects" where
  "sample_world n = [''j'' \<mapsto> sample_object n]"

lemma sample_cas: "cas_api (\<lambda>w. w) sample_api"
  unfolding cas_api_def sample_api_def by (auto simp: Let_def split: option.splits if_splits)

section \<open>The concrete store\<close>

definition sample_first :: "event list" where
  "sample_first = take 1 sample_events"

definition sample_middle :: view where
  "sample_middle = sample_start\<lparr>vw_round := sample_round Switch CHR ''1'' 110\<rparr>"

lemma sample_view_middle: "View sample_env (sample_journal sample_first) = Inr sample_middle"
  by code_simp

lemma sample_json_simps:
  "json_journal sample_env ''i'' = Some (sample_journal [], True)"
  "json_journal sample_env ''ii'' = Some (sample_journal sample_first, True)"
  "json_journal sample_env ''iiiii'' = Some (sample_journal sample_events, True)"
  "json_journal sample_env ''s'' = Some (sample_successor, True)"
  by (simp_all add: sample_env_def numeral_eq_Suc sample_events_def sample_first_def)

lemma sample_data:
  "index (cm_data (sample_object n)) journalKey = replicate (Suc n) CHR ''i''"
  "index (cm_data (sample_object n)) planKey = sample_plan"
  "Mapping.lookup (cm_data (sample_object n)) planKey = Some sample_plan"
  "Mapping.lookup (cm_data (sample_object n)) withdrawalIntentKey = None"
  by (simp_all add: sample_object_def empty_map_def index_def planKey_def journalKey_def withdrawalIntentKey_def lookup_update' lookup_empty)

lemma sample_replicate: "replicate 4 x = [x, x, x, x]" "replicate 5 x = [x, x, x, x, x]"
  by (simp_all add: numeral_eq_Suc)

lemma sample_meta:
  "cm_name (sample_object n) = ''j''" "cm_uid (sample_object n) = ''u''" "cm_resourceVersion (sample_object n) = ''v''"
  "cm_deletionTimestamp (sample_object n) = None" "cm_immutable (sample_object n) = None"
  by (simp_all add: sample_object_def empty_map_def)

lemma sample_plan_hash: "hex_sha sample_env sample_plan = replicate 64 CHR ''0''"
  by code_simp

definition sample_snapshot :: "journal \<Rightarrow> config_map \<Rightarrow> view \<Rightarrow> snapshot" where
  "sample_snapshot t obj v = \<lparr>sn_transition = t, sn_object = Some obj, sn_view = Some v\<rparr>"

lemma sample_view_spec:
  "planHash (rspec (vw_round sample_start)) = hex_sha sample_env sample_plan" "clusterUID (rspec (vw_round sample_start)) = ''c''"
  "planHash (rspec (vw_round sample_middle)) = hex_sha sample_env sample_plan" "clusterUID (rspec (vw_round sample_middle)) = ''c''"
  "planHash (rspec (vw_round sample_end)) = hex_sha sample_env sample_plan" "clusterUID (rspec (vw_round sample_end)) = ''c''"
  unfolding sample_plan_hash by (simp_all add: sample_start_def sample_middle_def sample_end_def sample_round_def sample_spec_def)

lemmas sample_admissible = admissible_def sample_json_simps sample_data sample_meta sample_view_spec
  sample_view_start sample_view_middle sample_view_end

lemma sample_valid:
  "valid_snapshot sample_env sample_store (sample_snapshot (sample_journal []) (sample_object 0) sample_start)"
  "valid_snapshot sample_env sample_store (sample_snapshot (sample_journal sample_events) (sample_object 4) sample_end)"
proof -
  have "admissible sample_env sample_store (sample_object 0) (sample_journal []) sample_start"
    by (simp add: sample_admissible sample_store_def) (simp add: sample_plan_def)
  moreover have "admissible sample_env sample_store (sample_object 4) (sample_journal sample_events) sample_end"
    by (simp add: sample_admissible sample_store_def sample_replicate) (simp add: sample_plan_def)
  ultimately show "valid_snapshot sample_env sample_store (sample_snapshot (sample_journal []) (sample_object 0) sample_start)"
    "valid_snapshot sample_env sample_store (sample_snapshot (sample_journal sample_events) (sample_object 4) sample_end)"
    by (auto simp: valid_snapshot_def sample_snapshot_def)
qed

section \<open>A concrete commit\<close>

lemma sample_bytes_middle: "Bytes sample_env (sample_journal sample_first) = Inr ''ii''"
proof -
  have ne: "sample_journal es \<noteq> sample_successor" for es by (simp add: sample_journal_def sample_successor_def)
  have ev: "j_events (sample_journal es) = es" for es by (simp add: sample_journal_def)
  have "marshal_journal sample_env (sample_journal sample_first) = Some ''ii''"
    by (simp add: sample_env_def ne ev sample_events_def sample_first_def)
  with sample_view_middle show ?thesis by (simp add: Bytes_Inr)
qed

lemma sample_extends: "Extends sample_env (sample_journal sample_first) (sample_journal []) = Inr ()"
  using sample_bytes(1) sample_bytes_middle
  by (auto simp: Extends_Inr Bytes_Inr cut_journal_def sample_journal_def)

definition sample_committed :: config_map where
  "sample_committed =
     (sample_object 0)\<lparr>cm_data := Mapping.update journalKey ''ii'' (cm_data (sample_object 0)), cm_resourceVersion := ''vv''\<rparr>"

lemma sample_committed_data:
  "index (cm_data sample_committed) journalKey = ''ii''" "index (cm_data sample_committed) planKey = sample_plan"
  "Mapping.lookup (cm_data sample_committed) planKey = Some sample_plan"
  "Mapping.lookup (cm_data sample_committed) withdrawalIntentKey = None"
  by (simp_all add: sample_committed_def sample_object_def empty_map_def index_def planKey_def journalKey_def
      withdrawalIntentKey_def lookup_update' lookup_empty)

lemma sample_committed_meta:
  "cm_name sample_committed = ''j''" "cm_uid sample_committed = ''u''" "cm_resourceVersion sample_committed = ''vv''"
  "cm_deletionTimestamp sample_committed = None" "cm_immutable sample_committed = None"
  by (simp_all add: sample_committed_def sample_meta)

lemma sample_valid_middle:
  "valid_snapshot sample_env sample_store (sample_snapshot (sample_journal sample_first) sample_committed sample_middle)"
proof -
  have "admissible sample_env sample_store sample_committed (sample_journal sample_first) sample_middle"
    by (simp add: sample_admissible sample_store_def sample_committed_data sample_committed_meta)
       (simp add: sample_plan_def)
  then show ?thesis by (auto simp: valid_snapshot_def sample_snapshot_def)
qed

lemma sample_configured: "configured sample_store = Inr ()"
proof -
  have "token ''j''" "token ''c''" by code_simp+
  then show ?thesis by (simp add: configured_def guard_def sample_store_def)
qed

lemma sample_commit:
  "Commit sample_env sample_store (sample_snapshot (sample_journal []) (sample_object 0) sample_start)
     (sample_journal sample_first) (sample_world 0) =
   (Inr (sample_snapshot (sample_journal sample_first) sample_committed sample_middle),
    [''j'' \<mapsto> sample_committed])"
proof -
  define sn0 where "sn0 = sample_snapshot (sample_journal []) (sample_object 0) sample_start"
  have 0: "store_snapshot sample_env sample_store (sample_object 0) = Inr sn0"
    using valid_store_snapshot [OF sample_valid(1)] by (simp add: sn0_def sample_snapshot_def)
  have 1: "store_snapshot sample_env sample_store sample_committed =
      Inr (sample_snapshot (sample_journal sample_first) sample_committed sample_middle)"
    using valid_store_snapshot [OF sample_valid_middle] by (simp add: sample_snapshot_def)
  have up: "api_update sample_api ((sample_object 0)\<lparr>cm_data := Mapping.update journalKey ''ii'' (cm_data (sample_object 0))\<rparr>)
      (sample_world 0) = (Inr sample_committed, [''j'' \<mapsto> sample_committed])"
    by (simp add: sample_api_def sample_world_def sample_meta sample_committed_def Let_def)
  have api: "configMaps sample_store = Some sample_api" by (simp add: sample_store_def)
  have obj: "sn_object sn0 = Some (sample_object 0)" "sn_transition sn0 = sample_journal []" "\<not> Frozen sn0"
    by (simp_all add: sn0_def sample_snapshot_def Frozen_def sample_meta)
  have len: "length (j_events (sample_journal sample_first)) = length (j_events (sn_transition sn0)) + 1"
    by (simp add: obj(2) sample_journal_def sample_first_def sample_events_def)
  have ext: "Extends sample_env (sample_journal sample_first) (sn_transition sn0) = Inr ()"
    using sample_extends obj(2) by simp
  show ?thesis
    unfolding sn0_def [symmetric] Commit_Inr
    by (rule exI [of _ sample_api], rule exI [of _ "sample_object 0"], rule exI [of _ sn0], rule exI [of _ "''ii''"],
        rule exI [of _ sample_committed], intro conjI)
       (fact sample_configured, fact api, fact obj(1), fact 0, fact obj(3), fact len, fact ext, fact sample_bytes_middle,
        fact up, simp_all add: 1 sample_committed_data sample_data)
qed

end
