(* ===== verification/Handover_Properties.thy ===== *)
theory Handover_Properties
  imports Sample
begin

text \<open>
  The properties of handover rounds and journals, each with a concrete instance.
\<close>

section \<open>Rounds\<close>

text \<open>Canonicalising an accepted round again returns it unchanged, and canonicalising the same
  round with its members in any other order returns the same canonical round and so the same
  digest.\<close>

theorem canonical_normal_form:
  assumes "key_roundtrip env" and "canonical env r = Inr c" and "mset ns = mset (members (rspec r))"
  shows "canonical env c = Inr c \<and>
     canonical env (r\<lparr>rspec := (rspec r)\<lparr>members := ns\<rparr>\<rparr>) = Inr c \<and>
     Digest env (r\<lparr>rspec := (rspec r)\<lparr>members := ns\<rparr>\<rparr>) = Digest env c"
  using canonical_idem [OF assms(1,2)] canonical_mset [OF assms(2,3)] by (simp add: Digest_def)

definition sample_pair :: round where
  "sample_pair =
     (sample_round Prepare CHR ''0'' 100)\<lparr>rspec := (sample_spec Prepare)\<lparr>members :=
        [sample_member, sample_member\<lparr>m_nodeUID := ''m'', m_fromKey := ''c'', m_toKey := ''d''\<rparr>]\<rparr>\<rparr>"

definition sample_sorted :: round where
  "sample_sorted = sample_pair\<lparr>rspec := (rspec sample_pair)\<lparr>members := rev (members (rspec sample_pair))\<rparr>\<rparr>"

lemma sample_pair_canonical: "canonical sample_env sample_pair = Inr sample_sorted"
  by code_simp

theorem canonical_normal_form_witness:
  "canonical sample_env sample_sorted = Inr sample_sorted \<and> Digest sample_env sample_pair = Digest sample_env sample_sorted"
  using canonical_normal_form [OF sample_key_roundtrip sample_pair_canonical refl] by simp

lemma distinct_concat_share:
  "distinct (concat (map f xs)) \<Longrightarrow> x \<in> set xs \<Longrightarrow> y \<in> set xs \<Longrightarrow> set (f x) \<inter> set (f y) \<noteq> {} \<Longrightarrow> x = y"
  by (induction xs) auto

lemma members_ok_share:
  assumes "members_ok env tr ms" and "m \<in> set ms" and "m' \<in> set ms"
    and "set (member_keys env m) \<inter> set (member_keys env m') \<noteq> {}"
  shows "m_nodeUID m = m_nodeUID m'"
proof (cases tr)
  case True
  with assms show ?thesis by (simp add: members_ok_def share_ok_def)
next
  case False
  with assms have "m = m'" by (intro distinct_concat_share [of "member_keys env" ms]) (simp_all add: members_ok_def)
  then show ?thesis by simp
qed

lemma members_ok_nonzero:
  "members_ok env tr ms \<Longrightarrow> m \<in> set ms \<Longrightarrow> zero_key \<notin> set (member_keys env m)"
  by (auto simp: members_ok_def member_ok_def key_ok_def member_keys_def)

text \<open>C8: an accepted round has at least one member, every member's identity is distinct, no device
  key is the zero key, a device key is used by one node only, and no transport key pair (or, without
  transports, no key) is used twice.\<close>

theorem canonical_members_sound:
  assumes "canonical env r = Inr c"
  shows "members (rspec c) \<noteq> [] \<and> distinct (map ident (members (rspec c))) \<and>
     sorted (map ident (members (rspec c))) \<and>
     (\<forall>m \<in> set (members (rspec r)). zero_key \<notin> set (member_keys env m)) \<and>
     (\<forall>m \<in> set (members (rspec r)). \<forall>m' \<in> set (members (rspec r)).
        set (member_keys env m) \<inter> set (member_keys env m') \<noteq> {} \<longrightarrow> m_nodeUID m = m_nodeUID m') \<and>
     (if has_transports (members (rspec r)) then distinct (concat (map (member_pairs env) (members (rspec r))))
      else distinct (concat (map (member_keys env) (members (rspec r)))))"
proof -
  have ok: "members_ok env (has_transports (members (rspec r))) (members (rspec r))"
    and c: "members (rspec c) = norm_members env (members (rspec r))" and "members (rspec r) \<noteq> []"
    using assms by (auto simp: canonical_iff round_ok_def)
  then have "members (rspec c) \<noteq> [] \<and> sorted (map ident (members (rspec c)))"
    by (simp add: norm_members_def flip: set_empty)
  with ok canonical_distinct [OF assms] members_ok_share [OF ok] members_ok_nonzero [OF ok] show ?thesis
    by (simp add: members_ok_def)
qed

theorem canonical_members_sound_witness:
  "length (members (rspec sample_sorted)) = 2 \<and> distinct (map ident (members (rspec sample_sorted)))"
  using canonical_members_sound [OF sample_pair_canonical] by (simp add: sample_sorted_def sample_pair_def)

text \<open>C9: the receipts a coordinator accepts for a round are exactly the authenticated, distinct,
  fresh receipts that bind the round's digest and its members' keys; the complete check (\<open>Ready\<close>)
  also needs exactly one receipt for every member.\<close>

theorem receipts_accepted_iff:
  "validateReceipts env r now as complete = Inr () \<longleftrightarrow>
     (\<exists>c d. canonical env r = Inr c \<and> Digest env r = Inr d \<and> issuedAt c \<le> now \<and> now < expiresAt c \<and> as \<noteq> [] \<and>
        distinct (map (\<lambda>a. rident (a_receipt a)) as) \<and>
        (\<forall>a \<in> set as. authenticatedNodeUID a = r_nodeUID (a_receipt a) \<and>
           (\<exists>m \<in> set (members (rspec c)). receipt_binds c d now m (a_receipt a))) \<and>
        (if complete then ident ` set (members (rspec c)) = (\<lambda>a. rident (a_receipt a)) ` set as else True))"
proof -
  have "receipts_ok c d now as complete \<longleftrightarrow>
      issuedAt c \<le> now \<and> now < expiresAt c \<and> as \<noteq> [] \<and> distinct (map (\<lambda>a. rident (a_receipt a)) as) \<and>
      (\<forall>a \<in> set as. authenticatedNodeUID a = r_nodeUID (a_receipt a) \<and>
         (\<exists>m \<in> set (members (rspec c)). receipt_binds c d now m (a_receipt a))) \<and>
      (if complete then ident ` set (members (rspec c)) = (\<lambda>a. rident (a_receipt a)) ` set as else True)" for c d
    unfolding receipts_ok_def receipt_binds_def by (cases complete) (auto simp: image_iff set_eq_iff, metis+)
  then show ?thesis unfolding validateReceipts_iff Digest_def by auto
qed

theorem receipts_accepted_iff_witness:
  "validateReceipts sample_env (sample_round Prepare CHR ''0'' 100) 110 [sample_proof CHR ''0'' 110] True = Inr () \<and>
   (\<exists>d. Digest sample_env (sample_round Prepare CHR ''0'' 100) = Inr d)"
proof -
  have ok: "validateReceipts sample_env (sample_round Prepare CHR ''0'' 100) 110 [sample_proof CHR ''0'' 110] True = Inr ()"
    using sample_ready by (simp add: Ready_def sample_start_def)
  then show ?thesis using receipts_accepted_iff [THEN iffD1, OF ok] by blast
qed

text \<open>A receipt set accepted for one round is never accepted for a round with another
  digest, at whatever time and by whichever check.\<close>

theorem receipts_not_replayed:
  assumes "validateReceipts env r now as complete = Inr ()" and "Digest env r \<noteq> Digest env r'"
  shows "validateReceipts env r' now' as complete' \<noteq> Inr ()"
proof
  have hash: "\<exists>a \<in> set as. Inr (roundHash (a_receipt a)) = Digest env q"
    if "validateReceipts env q t as b = Inr ()" for q t b
    using that by (cases as) (auto simp: validateReceipts_iff Digest_def receipts_ok_def receipt_binds_def)
  have all: "Inr (roundHash (a_receipt a)) = Digest env q"
    if "validateReceipts env q t as b = Inr ()" "a \<in> set as" for q t b a
    using that by (auto simp: validateReceipts_iff Digest_def receipts_ok_def receipt_binds_def)
  assume "validateReceipts env r' now' as complete' = Inr ()"
  with hash all assms show False by metis
qed

theorem receipts_not_replayed_witness:
  "validateReceipts sample_env (sample_round Prepare CHR ''1'' 100) 110 [sample_proof CHR ''0'' 110] True \<noteq> Inr ()"
proof (rule receipts_not_replayed)
  show "validateReceipts sample_env (sample_round Prepare CHR ''0'' 100) 110 [sample_proof CHR ''0'' 110] True = Inr ()"
    using sample_ready by (simp add: Ready_def sample_start_def)
  show "Digest sample_env (sample_round Prepare CHR ''0'' 100) \<noteq> Digest sample_env (sample_round Prepare CHR ''1'' 100)"
    by code_simp
qed

section \<open>Journals\<close>

lemma replay_rollback:
  assumes "res_fold (replay_step env p) st0 es = Inr st"
  shows "vw_rollbackRequested (rp_view st) \<longleftrightarrow> vw_rollbackRequested (rp_view st0) \<or> OpRollback \<in> e_op ` set es"
  using assms
proof (induction es arbitrary: st rule: rev_induct)
  case (snoc ev es)
  then show ?case by (fastforce simp: res_fold_snoc step_rollback)
qed simp

lemma step_current:
  assumes "replay_step env p st ev = Inr st'"
  shows "vw_round (rp_view st') = vw_round (rp_view st) \<or>
     (\<exists>n. e_next ev = Some n \<and> canonical env n = Inr (vw_round (rp_view st')))"
proof -
  have tail: "vw_round (rp_view st') = vw_round v \<or> (\<exists>n. e_next ev = Some n \<and> canonical env n = Inr (vw_round (rp_view st')))"
    if "next_step env p st1 ev (v, s) = Inr st'" for st1 v s
    using that by (cases "vw_complete v") (auto simp: next_step_Inr)
  from assms show ?thesis
  proof (cases rule: replay_step_cases)
    case (advance val v s)
    from advance(3) have "vw_round v = vw_round (rp_view st)" by (cases rule: advance_effect_cases) simp_all
    with tail [OF advance(4)] show ?thesis by simp
  next
    case (rollback v s)
    from tail [OF rollback(3)] rollback_effect_Inr [OF rollback(2)] show ?thesis by auto
  next
    case (renew v s)
    from tail [OF renew(3)] renew(2) show ?thesis by (auto simp: renew_effect_Inr)
  qed simp
qed

lemma replay_round:
  assumes "res_fold (replay_step env p) st0 es = Inr st"
  shows "vw_round (rp_view st) = vw_round (rp_view st0) \<or>
     (\<exists>n \<in> set (List.map_filter e_next es). canonical env n = Inr (vw_round (rp_view st)))"
  using assms
proof (induction es arbitrary: st rule: rev_induct)
  case (snoc ev es)
  then obtain st1 where "res_fold (replay_step env p) st0 es = Inr st1" "replay_step env p st1 ev = Inr st"
    by (auto simp: res_fold_snoc)
  note snoc.IH [OF this(1)] step_current [OF this(2)]
  then show ?case by (auto simp: List.map_filter_def)
qed simp

text \<open>C2: a journal that replays to completion serves the generation it set out to serve, unless a
  rollback was committed, and then the generation it started from; the flag the view reports says
  exactly whether a rollback event is in the history.\<close>

theorem completed_serves:
  assumes "View env j = Inr v"
  shows "(vw_rollbackRequested v \<longleftrightarrow> OpRollback \<in> e_op ` set (j_events j)) \<and>
     vw_servingGeneration v =
       (if \<not> vw_complete v then []
        else if OpRollback \<in> e_op ` set (j_events j) then fromGeneration (rspec (j_initial j))
        else toGeneration (rspec (j_initial j)))"
proof -
  from assms obtain r st where r: "canonical env (j_initial j) = Inr r" and v: "v = rp_view st"
    and run: "res_fold (replay_step env (j_policy j)) (initial_state r) (j_events j) = Inr st"
    and inv: "replay_inv env (j_policy j) (rspec r) st" by (rule View_inv)
  have "vw_rollbackRequested (rp_view st) \<longleftrightarrow> OpRollback \<in> e_op ` set (j_events j)"
    using replay_rollback [OF run] by (simp add: initial_state_def)
  with inv canonical_fields(1,2) [OF r] v show ?thesis by (auto simp: replay_inv_def Let_def)
qed

theorem completed_serves_witness:
  "View sample_env (sample_journal sample_events) = Inr sample_end \<and> vw_servingGeneration sample_end = ''g2''"
  using completed_serves [OF sample_view_end] sample_view_end
  by (simp add: sample_end_def sample_journal_def sample_events_def sample_advance_def sample_round_def sample_spec_def)

text \<open>C5: every event keeps the identity of the handover: cluster, transition, plan, and for each
  node the same transport; only a rollback exchanges the two generations and the members' keys.\<close>

theorem journal_identity:
  assumes "View env j = Inr v"
  shows "clusterUID (rspec (vw_round v)) = clusterUID (rspec (j_initial j)) \<and>
     transitionUID (rspec (vw_round v)) = transitionUID (rspec (j_initial j)) \<and>
     planHash (rspec (vw_round v)) = planHash (rspec (j_initial j)) \<and>
     ident ` set (members (rspec (vw_round v))) = ident ` set (members (rspec (j_initial j))) \<and>
     (fromGeneration (rspec (vw_round v)), toGeneration (rspec (vw_round v))) =
       (if vw_rollbackRequested v \<and> phase (rspec (vw_round v)) \<noteq> Abort
        then (toGeneration (rspec (j_initial j)), fromGeneration (rspec (j_initial j)))
        else (fromGeneration (rspec (j_initial j)), toGeneration (rspec (j_initial j))))"
proof -
  from assms obtain r st where r: "canonical env (j_initial j) = Inr r" and v: "v = rp_view st"
    and inv: "replay_inv env (j_policy j) (rspec r) st" by (rule View_inv)
  have lin: "lineage (rspec r) (vw_rollbackRequested v) (rspec (vw_round v))"
    using inv v by (simp add: replay_inv_def Let_def)
  then have "members (rspec (vw_round v)) = members (rspec r) \<or>
      members (rspec (vw_round v)) = map swap_member (members (rspec r))"
    by (auto simp: lineage_def unchanged_def reversed_def split: if_splits)
  then have "ident ` set (members (rspec (vw_round v))) = ident ` set (members (rspec r))"
    by (auto simp: image_comp comp_def)
  moreover have "ident ` set (members (rspec r)) = ident ` set (members (rspec (j_initial j)))"
    using r by (auto simp: canonical_iff norm_members_def image_iff)
  ultimately show ?thesis using lin canonical_fields(1-5) [OF r]
    by (auto simp: lineage_def unchanged_def reversed_def split: if_splits)
qed

theorem journal_identity_witness:
  "View sample_env (sample_journal sample_events) = Inr sample_end \<and> planHash (rspec (vw_round sample_end)) = replicate 64 CHR ''0''"
  using journal_identity [OF sample_view_end] sample_view_end
  by (simp add: sample_journal_def sample_round_def sample_spec_def)

text \<open>C6: the events of a journal are in chronological order from the first round on, and no two of
  the rounds it ever committed share a nonce.\<close>

theorem journal_chronology:
  assumes "View env j = Inr v"
  shows "sorted (issuedAt (j_initial j) # map e_at (j_events j)) \<and> distinct (map nonce (journal_rounds j)) \<and>
     vw_round v \<in> {r. \<exists>q \<in> set (journal_rounds j). canonical env q = Inr r}"
proof -
  from assms obtain r st where r: "canonical env (j_initial j) = Inr r" and v: "v = rp_view st"
    and run: "res_fold (replay_step env (j_policy j)) (initial_state r) (j_events j) = Inr st" by (rule View_inv)
  have "\<exists>q \<in> set (journal_rounds j). canonical env q = Inr (vw_round v)"
    using replay_round [OF run] r v by (auto simp: journal_rounds_def initial_state_def)
  with replay_sorted [OF run] replay_nonces [OF run] canonical_fields(7,8) [OF r] show ?thesis
    by (auto simp: initial_state_def journal_rounds_def)
qed

theorem journal_chronology_witness:
  "View sample_env (sample_journal sample_events) = Inr sample_end \<and>
   distinct (map nonce (journal_rounds (sample_journal sample_events)))"
  using journal_chronology [OF sample_view_end] sample_view_end by blast

text \<open>The observations a view retains are at most one per member, each of the current round by
  its digest, by its member's keys, and made between the round's start and the last event.\<close>

theorem observations_bind_round:
  assumes "View env j = Inr v" and "vw_observed v \<noteq> []"
  shows "\<exists>d. canonicalDigest env (vw_round v) = Inr d \<and> distinct (map rident (vw_observed v)) \<and>
     (\<forall>x \<in> set (vw_observed v). observation_ok (vw_round v) d (last_at j) x)"
proof -
  from assms(1) obtain s0 st where at: "journal_at env j s0 st" and v: "v = rp_view st" by (auto simp: View_journal_at)
  from assms(1) obtain r st' where "replay_inv env (j_policy j) (rspec r) (initial_state r)"
    and "res_fold (replay_step env (j_policy j)) (initial_state r) (j_events j) = Inr st'" "replay env j = Inr st'"
    by (rule View_inv)
  moreover have "observed_inv env (initial_state r)" by (simp add: observed_inv_def initial_state_def)
  ultimately have "observed_inv env st" using at ro.replay_inv by (fastforce simp: journal_at_def)
  with assms(2) v journal_at_facts(1) [OF at] show ?thesis by (auto simp: observed_inv_def Let_def)
qed

definition sample_observe :: event where
  "sample_observe = \<lparr>e_op = OpObserve, e_at = 105, e_receipts = [sample_receipt CHR ''0'' 105], e_next = None\<rparr>"

lemma sample_view_observed:
  "View sample_env (sample_journal [sample_observe]) = Inr (sample_start\<lparr>vw_observed := [sample_receipt CHR ''0'' 105]\<rparr>)"
  by code_simp

theorem observations_bind_round_witness:
  "\<exists>d. canonicalDigest sample_env (sample_round Prepare CHR ''0'' 100) = Inr d \<and>
     observation_ok (sample_round Prepare CHR ''0'' 100) d 105 (sample_receipt CHR ''0'' 105)"
  using observations_bind_round [OF sample_view_observed]
  by (simp add: sample_start_def last_at_def sample_journal_def sample_observe_def)

section \<open>The protocol\<close>

text \<open>C3: every journal that replays is a run of the abstract protocol, from the preparation of the
  handover, event by event.\<close>

theorem journal_refines_protocol:
  assumes "View env j = Inr v"
  shows "\<exists>st. replay env j = Inr st \<and> rp_view st = v \<and>
     handover_run (Running Prepare False) (map e_op (j_events j)) (abs_state st)"
proof -
  from assms obtain st0 st where st: "start_state env j = Inr st0" "v = rp_view st"
    "res_fold (replay_step env (j_policy j)) st0 (j_events j) = Inr st"
    by (auto simp: View_iff)
  from st(1) obtain r where "st0 = initial_state r" "phase (rspec r) = Prepare" by (rule start_state_Inr)
  then have "abs_state st0 = Running Prepare False" by (simp add: abs_state_def initial_state_def)
  with replay_simulates [OF st(3)] st show ?thesis by (auto simp: replay_def)
qed

theorem journal_refines_protocol_witness:
  "\<exists>st. replay sample_env (sample_journal sample_events) = Inr st \<and> abs_state st = Finished False \<and>
     handover_run (Running Prepare False) [OpAdvance, OpAdvance, OpAdvance, OpAdvance] (Finished False)"
proof -
  obtain st where st: "replay sample_env (sample_journal sample_events) = Inr st" "rp_view st = sample_end"
    and run: "handover_run (Running Prepare False) (map e_op (j_events (sample_journal sample_events))) (abs_state st)"
    using journal_refines_protocol [OF sample_view_end] by blast
  have "abs_state st = Finished False" using st(2) by (simp add: abs_state_def sample_end_def)
  with st run show ?thesis by (simp add: sample_journal_def sample_events_def sample_advance_def)
qed

text \<open>C4: a handover makes at most six effective transitions, however many observations and
  renewals lie between them: whatever a coordinator commits, the protocol ends.\<close>

theorem effective_events_bounded:
  assumes "View env j = Inr v"
  shows "length (filter effective (map e_op (j_events j))) \<le> 6"
proof -
  from assms obtain st0 st where st: "start_state env j = Inr st0"
    "res_fold (replay_step env (j_policy j)) st0 (j_events j) = Inr st"
    by (auto simp: View_iff)
  from st(1) obtain r where "st0 = initial_state r" "phase (rspec r) = Prepare" by (rule start_state_Inr)
  then have "budget (abs_state st0) = 6" by (simp add: abs_state_def initial_state_def)
  with budget_run [OF replay_simulates [OF st(2)]] show ?thesis by simp
qed

theorem effective_events_bounded_witness:
  "length (filter effective (map e_op sample_events)) = 4 \<and> (4::nat) \<le> 6"
  using effective_events_bounded [OF sample_view_end]
  by (simp add: sample_journal_def sample_events_def sample_advance_def effective_def)

theorem retirement_evidence_witness:
  "\<exists>es1 sw es2 dr es3 rt. sample_events = es1 @ sw # es2 @ dr # es3 @ [rt] \<and>
     certified sample_env (sample_journal sample_events) es1 sw Switch \<and> e_at sw + 50 \<le> e_at dr"
proof -
  have "vw_complete sample_end" "phase (rspec (vw_round sample_end)) = Retire"
    by (simp_all add: sample_end_def sample_round_def sample_spec_def)
  from retirement_evidence [OF sample_view_end this]
  obtain es1 sw es2 dr es3 rt where "j_events (sample_journal sample_events) = es1 @ sw # es2 @ dr # es3 @ [rt]"
    "certified sample_env (sample_journal sample_events) es1 sw Switch"
    "e_at sw + drainInterval (j_policy (sample_journal sample_events)) \<le> e_at dr" by blast
  then show ?thesis by (intro exI [of _ es1] exI) (simp add: sample_journal_def)
qed

section \<open>Progress of the operations\<close>

lemma sample_fresh:
  "length (replicate 16 CHR 0x11) = 16" "hex_encode (replicate 16 CHR 0x11) \<notin> set (map nonce (journal_rounds (sample_journal [])))"
  by (simp, code_simp)

lemma sample_start_facts:
  "\<not> vw_complete sample_start" "\<not> vw_rollbackRequested sample_start" "phase (rspec (vw_round sample_start)) = Prepare"
  "expiresAt (vw_round sample_start) = 1100" "last_at (sample_journal []) = 100" "vw_observed sample_start = []"
  by (simp_all add: sample_start_def sample_round_def sample_spec_def last_at_def sample_journal_def)

theorem Advance_commits_witness:
  "\<exists>j' v'. Advance sample_env (Some (replicate 16 CHR 0x11)) (sample_journal []) 110 [sample_proof CHR ''0'' 110] = Inr j' \<and>
     View sample_env j' = Inr v' \<and> phase (rspec (vw_round v')) = Switch"
  using Advance_commits [OF sample_key_roundtrip sample_view_start _ sample_ready _ sample_fresh(1) _ sample_fresh(2)]
  by (auto simp: sample_start_facts)

theorem Rollback_commits_witness:
  "\<exists>j' v'. Rollback sample_env (Some (replicate 16 CHR 0x11)) (sample_journal []) 110 = Inr j' \<and>
     View sample_env j' = Inr v' \<and> phase (rspec (vw_round v')) = Abort"
  using Rollback_commits [OF sample_key_roundtrip sample_view_start _ _ _ _ sample_fresh(1) _ sample_fresh(2), of 110]
  by (auto simp: sample_start_facts)

theorem Renew_commits_witness:
  "\<exists>j' v'. Renew sample_env (Some (replicate 16 CHR 0x11)) (sample_journal []) 2000 = Inr j' \<and>
     View sample_env j' = Inr v' \<and> issuedAt (vw_round v') = 2000"
  using Renew_commits [OF sample_key_roundtrip sample_view_start _ _ _ sample_fresh(1) _ sample_fresh(2), of 2000]
  by (auto simp: sample_start_facts)

theorem Observe_commits_witness:
  "\<exists>j' v'. Observe sample_env (sample_journal []) 110 [sample_proof CHR ''0'' 110] = Inr j' \<and>
     View sample_env j' = Inr v' \<and> vw_observed v' \<noteq> []"
proof -
  have "ValidateReceipts sample_env (vw_round sample_start) 110 [sample_proof CHR ''0'' 110] = Inr ()" by code_simp
  from Observe_commits [OF sample_key_roundtrip sample_view_start _ this] show ?thesis
    by (auto simp: sample_start_facts)
qed

section \<open>The order of journals\<close>

text \<open>Among journals whose text can be read back, \<open>Extends\<close> is a partial order in which the
  ancestors of one journal form a chain: a reader that only moves to extensions never sees two
  diverging histories.\<close>

theorem extends_order:
  assumes "json_faithful env"
  shows "(Bytes env a = Inr s \<longrightarrow> Extends env a a = Inr ()) \<and>
     (Extends env a b = Inr () \<longrightarrow> Extends env b c = Inr () \<longrightarrow> Extends env a c = Inr ()) \<and>
     (Extends env a b = Inr () \<longrightarrow> Extends env b a = Inr () \<longrightarrow> a = b) \<and>
     (Extends env a b = Inr () \<longrightarrow> Extends env a c = Inr () \<longrightarrow> Extends env b c = Inr () \<or> Extends env c b = Inr ())"
  using extends_self [of env a] extends_trans [OF assms, of a b c] extends_antisym [OF assms, of a b]
    extends_linear [OF assms, of a b c] extends_linear [OF assms, of a c b] by (meson nle_le)

theorem extends_order_witness:
  "Extends sample_env (sample_journal []) (sample_journal []) = Inr ()"
  using extends_order [OF sample_json] sample_bytes by blast

text \<open>A successful operation appends exactly one event, dated with the instant it was called
  with, and the journal it returns extends the journal it started from.\<close>

theorem operations_extend:
  assumes "Observe env j now as = Inr j' \<or> Advance env rand j now as = Inr j' \<or>
     Rollback env rand j now = Inr j' \<or> Renew env rand j now = Inr j'"
    and "Bytes env j = Inr s"
  shows "Extends env j' j = Inr () \<and> length (j_events j') = Suc (length (j_events j)) \<and> last_at j' = now"
proof -
  from assms(1) have "appends env j now j'" by (elim disjE) (erule operation_appends)+
  with assms(2) show ?thesis by (blast dest: appends_extends)
qed

theorem operations_extend_witness:
  "\<exists>j'. Renew sample_env (Some (replicate 16 CHR 0x11)) (sample_journal []) 2000 = Inr j' \<and>
     Extends sample_env j' (sample_journal []) = Inr ()"
proof -
  have "is_Inr (Renew sample_env (Some (replicate 16 CHR 0x11)) (sample_journal []) 2000)" by code_simp
  then obtain j' where "Renew sample_env (Some (replicate 16 CHR 0x11)) (sample_journal []) 2000 = Inr j'"
    by (auto simp: is_Inr_def split: sum.splits)
  with operations_extend [OF _ sample_bytes(1)] show ?thesis by blast
qed

text \<open>A completed journal is final: every operation refuses it, and the only journal that
  extends it is itself.\<close>

theorem completed_is_final:
  assumes "json_faithful env" and v: "View env j = Inr v" "vw_complete v"
  shows "\<not> is_Inr (Observe env j now as) \<and> \<not> is_Inr (Advance env rand j now as) \<and>
     \<not> is_Inr (Rollback env rand j now) \<and> \<not> is_Inr (Renew env rand j now) \<and>
     (Extends env t j = Inr () \<longrightarrow> t = j)"
  using v complete_extends [OF assms] 
  by (simp add: Observe_def Advance_def Rollback_def Renew_def is_Inr_def)

theorem completed_is_final_witness:
  "\<not> is_Inr (Renew sample_env None (sample_journal sample_events) 5000) \<and>
   Extends sample_env (sample_journal []) (sample_journal sample_events) \<noteq> Inr ()"
proof -
  have "sample_journal [] \<noteq> sample_journal sample_events" by (simp add: sample_journal_def sample_events_def)
  with completed_is_final [OF sample_json sample_view_end] show ?thesis by (auto simp: sample_end_def)
qed

end
