(* ===== verification/Store_Properties.thy ===== *)
theory Store_Properties
  imports Sample
begin

text \<open>
  The properties of the journal store, of its fences and checkpoints, and of the succession of
  generations, each with a concrete instance on the sample objects and API server.
\<close>

section \<open>Commits\<close>

text \<open>C10: a commit is a compare-and-swap of one event: when it succeeds, the live object was still the
  one the caller had read, by UID and resourceVersion, the new live object has the same UID and is the returned snapshot, its journal is the
  committed candidate, which extends the journal the caller had read by one event, the public plan is unchanged, and so is every
  other object.\<close>

theorem commit_is_cas:
  assumes "json_faithful env" and "cas_api live api" and "configMaps s = Some api"
    and "Commit env s previous nxt w = (Inr sn, w')"
  shows "\<exists>obj c o' checked. sn_object previous = Some obj \<and> live w (s_name s) = Some c \<and> cm_uid c = cm_uid obj \<and>
     cm_resourceVersion c = cm_resourceVersion obj \<and> live w' (s_name s) = Some o' \<and> cm_uid o' = cm_uid c \<and>
     cm_resourceVersion o' \<noteq> cm_resourceVersion c \<and> sn_object sn = Some o' \<and> sn_transition sn = nxt \<and>
     store_snapshot env s obj = Inr checked \<and> Extends env nxt (sn_transition checked) = Inr () \<and>
     length (j_events nxt) = Suc (length (j_events (sn_transition checked))) \<and> snapshot_Plan sn = snapshot_Plan previous \<and>
     (\<forall>n. n \<noteq> s_name s \<longrightarrow> live w' n = live w n)"
proof -
  from assms show ?thesis
  proof (rule commit_effect)
    fix obj c
    assume a: "sn_object previous = Some obj" "live w (s_name s) = Some c" "cm_uid c = cm_uid obj"
      "cm_resourceVersion c = cm_resourceVersion obj" "sn_object sn = live w' (s_name s)" "sn_transition sn = nxt"
      and plan: "\<exists>o'. live w' (s_name s) = Some o' \<and> cm_uid o' = cm_uid obj \<and>
        cm_resourceVersion o' \<noteq> cm_resourceVersion obj \<and> index (cm_data o') planKey = index (cm_data obj) planKey"
      and ch: "\<exists>checked. store_snapshot env s obj = Inr checked \<and> \<not> Frozen checked \<and>
        Extends env nxt (sn_transition checked) = Inr () \<and> length (j_events nxt) = Suc (length (j_events (sn_transition checked)))"
      and frame: "\<forall>n. n \<noteq> s_name s \<longrightarrow> live w' n = live w n"
    from a plan have "snapshot_Plan sn = snapshot_Plan previous" by (auto simp: snapshot_Plan_def obj_data_def)
    moreover from plan a obtain o' where "live w' (s_name s) = Some o'" "cm_uid o' = cm_uid c" "cm_resourceVersion o' \<noteq> cm_resourceVersion c" by auto
    ultimately show ?thesis using a ch frame by auto
  qed
qed

theorem commit_is_cas_witness:
  "\<exists>obj. sn_object (sample_snapshot (sample_journal []) (sample_object 0) sample_start) = Some obj \<and>
     cm_resourceVersion (sample_object 0) = cm_resourceVersion obj"
  using commit_is_cas [OF sample_json sample_cas _ sample_commit] by (auto simp: sample_store_def sample_world_def)

text \<open>Of two commits from the same snapshot, at most one succeeds.\<close>

theorem commit_once:
  assumes "json_faithful env" and "cas_api live api" and "configMaps s = Some api"
    and "Commit env s previous nxt w = (Inr sn, w')"
  shows "\<not> is_Inr (fst (Commit env s previous other w'))"
  using assms(4)
proof (rule commit_effect [OF assms(1-3)])
  fix obj c
  assume "sn_object previous = Some obj"
    and "\<exists>o'. live w' (s_name s) = Some o' \<and> cm_uid o' = cm_uid obj \<and> cm_resourceVersion o' \<noteq> cm_resourceVersion obj \<and>
       index (cm_data o') planKey = index (cm_data obj) planKey"
  with commit_stale [OF assms(2,3)] show ?thesis by blast
qed

theorem commit_once_witness:
  "\<not> is_Inr (fst (Commit sample_env sample_store (sample_snapshot (sample_journal []) (sample_object 0) sample_start)
     (sample_journal sample_first) [''j'' \<mapsto> sample_committed]))"
  using commit_once [OF sample_json sample_cas _ sample_commit] by (simp add: sample_store_def)

lemma commit_frozen:
  assumes "sn_object other = Some obj" and "cm_immutable obj = Some True"
  shows "\<not> is_Inr (fst (Commit env s other nxt w))"
proof
  assume "is_Inr (fst (Commit env s other nxt w))"
  then obtain sn w1 where "Commit env s other nxt w = (Inr sn, w1)"
    by (cases "Commit env s other nxt w") (auto simp: is_Inr_def split: sum.splits)
  with assms show False unfolding Commit_Inr by (auto simp: Frozen_def dest!: store_snapshot_valid)
qed

text \<open>C11: a completed journal that was frozen takes no further event, then or later: from the freeze on, whatever requests the server serves in between,
  no commit succeeds while the object of that name has the frozen object's UID, whichever snapshot it starts from. So a store bound to the UID never
  commits again, and one bound to the name alone only after the object was deleted and created anew. A snapshot of the UID and resourceVersion of the
  live object agrees with it on immutability, as a resourceVersion names one content of an object.\<close>

theorem frozen_never_commits:
  assumes "cas_api live api" and "configMaps s = Some api" and "server_law live issued step"
    and "FreezeCompleted env s previous w = (Inr sn, w1)" and "step\<^sup>*\<^sup>* w1 w2"
    and "\<And>obj c. sn_object other = Some obj \<Longrightarrow> live w2 (s_name s) = Some c \<Longrightarrow> cm_uid obj = cm_uid c \<Longrightarrow>
       cm_resourceVersion obj = cm_resourceVersion c \<Longrightarrow> cm_immutable obj = cm_immutable c"
  shows "Frozen sn \<and>
     (is_Inr (fst (Commit env s other nxt w2)) \<longrightarrow>
        s_expectedUID s = [] \<and> (\<exists>c. live w2 (s_name s) = Some c \<and> Some (cm_uid c) \<noteq> map_option cm_uid (sn_object sn)))"
proof -
  from assms(4) obtain obj checked where lo: "live_object previous = Some obj" and ch: "store_snapshot env s obj = Inr checked"
    and fr: "freeze env s obj w = (Inr sn, w1)" unfolding FreezeCompleted_Inr by blast
  have "cm_name obj = s_name s" using store_snapshot_valid [OF ch] valid_name by blast
  from freeze_effect [OF assms(1,2) fr this] obtain stored where st: "live w1 (s_name s) = Some stored"
    "sn_object sn = Some stored" "cm_immutable stored = Some True" by blast
  from fr obtain kept where kept: "store_snapshot env s kept = Inr sn" unfolding freeze_Inr by blast
  with st(2) have stored: "store_snapshot env s stored = Inr sn" using store_snapshot_valid [OF kept] by simp
  have "s_expectedUID s = [] \<and> (\<exists>c. live w2 (s_name s) = Some c \<and> cm_uid c \<noteq> cm_uid stored)" if com: "Commit env s other nxt w2 = (Inr sn', w3)" for sn' w3
  proof -
    from com obtain obj' checked' raw updated where o': "sn_object other = Some obj'" "store_snapshot env s obj' = Inr checked'" "\<not> Frozen checked'"
      and up: "api_update api (obj'\<lparr>cm_data := Mapping.update journalKey raw (cm_data obj')\<rparr>) w2 = (Inr updated, w3)"
      unfolding Commit_Inr assms(2) by auto
    have "cm_name obj' = s_name s" using store_snapshot_valid [OF o'(2)] valid_name by blast
    with cas_apiD [OF assms(1) up] obtain c where c: "live w2 (s_name s) = Some c" "cm_uid c = cm_uid obj'" "cm_resourceVersion c = cm_resourceVersion obj'" by auto
    have "cm_immutable obj' \<noteq> Some True" using o' store_snapshot_valid [OF o'(2)] by (auto simp: Frozen_def)
    with assms(6) [OF o'(1) c(1)] c have "cm_immutable c \<noteq> Some True" by simp
    with stays_immutable [OF assms(3,5) st(1,3) c(1)] have ne: "cm_uid c \<noteq> cm_uid stored" by blast
    have "s_expectedUID s = [] \<or> cm_uid stored = s_expectedUID s" "s_expectedUID s = [] \<or> cm_uid obj' = s_expectedUID s"
      using stored o'(2) by (auto simp: store_snapshot_def split: if_splits)
    with c ne show ?thesis by auto
  qed
  then have "is_Inr (fst (Commit env s other nxt w2)) \<longrightarrow>
      s_expectedUID s = [] \<and> (\<exists>c. live w2 (s_name s) = Some c \<and> Some (cm_uid c) \<noteq> map_option cm_uid (sn_object sn))"
    using st(2) by (cases "Commit env s other nxt w2") (auto simp: is_Inr_iff)
  then show ?thesis using st by (simp add: Frozen_def)
qed

definition sample_frozen :: config_map where
  "sample_frozen = (sample_object 4)\<lparr>cm_immutable := Some True, cm_resourceVersion := ''vv''\<rparr>"

lemma sample_valid_frozen:
  "valid_snapshot sample_env sample_store (sample_snapshot (sample_journal sample_events) sample_frozen sample_end)"
proof -
  have "admissible sample_env sample_store sample_frozen (sample_journal sample_events) sample_end"
    by (simp add: sample_admissible sample_store_def sample_replicate sample_frozen_def) (simp add: sample_plan_def)
  then show ?thesis by (auto simp: valid_snapshot_def sample_snapshot_def)
qed

lemma sample_freeze:
  "FreezeCompleted sample_env sample_store (sample_snapshot (sample_journal sample_events) (sample_object 4) sample_end)
     (sample_world 4) =
   (Inr (sample_snapshot (sample_journal sample_events) sample_frozen sample_end), [''j'' \<mapsto> sample_frozen])"
proof -
  define sn0 where "sn0 = sample_snapshot (sample_journal sample_events) (sample_object 4) sample_end"
  have obj: "sn_object sn0 = Some (sample_object 4)" by (simp add: sn0_def sample_snapshot_def)
  have 0: "store_snapshot sample_env sample_store (sample_object 4) = Inr sn0"
    using valid_store_snapshot [OF sample_valid(2)] obj by (simp add: sn0_def)
  have 1: "store_snapshot sample_env sample_store sample_frozen =
      Inr (sample_snapshot (sample_journal sample_events) sample_frozen sample_end)"
    using valid_store_snapshot [OF sample_valid_frozen] by (simp add: sample_snapshot_def)
  have view: "snapshot_View sample_env sn0 = Inr sample_end" by (simp add: sn0_def sample_snapshot_def snapshot_View_def)
  have "freeze sample_env sample_store (sample_object 4) (sample_world 4) =
      (Inr (sample_snapshot (sample_journal sample_events) sample_frozen sample_end), [''j'' \<mapsto> sample_frozen])"
    unfolding freeze_Inr using 1
    by (intro exI [of _ sample_api] exI [of _ sample_frozen])
       (simp add: sample_store_def sample_api_def sample_world_def sample_meta sample_frozen_def Let_def)
  then show ?thesis
    unfolding FreezeCompleted_Inr sn0_def [symmetric] using sample_configured obj 0 view
    by (intro exI [of _ "sample_object 4"] exI [of _ sn0] exI [of _ sample_end])
       (simp add: live_object_Some sample_meta sample_end_def)
qed

text \<open>A server on which objects are only deleted.\<close>

definition sample_deletion :: "objects \<Rightarrow> objects \<Rightarrow> bool" where
  "sample_deletion w w' = (\<exists>n. w' = w(n := None))"

lemma sample_server: "server_law (\<lambda>w. w) (\<lambda>_. UNIV) sample_deletion"
  by (auto simp: server_law_def sample_deletion_def split: if_splits)

theorem frozen_never_commits_witness:
  "Frozen (sample_snapshot (sample_journal sample_events) sample_frozen sample_end) \<and>
   \<not> is_Inr (fst (Commit sample_env sample_store
      (sample_snapshot (sample_journal sample_events) (sample_object 4) sample_end) (sample_journal []) [''j'' \<mapsto> sample_frozen]))"
proof -
  let ?other = "sample_snapshot (sample_journal sample_events) (sample_object 4) sample_end"
  have "[''j'' \<mapsto> sample_frozen](''k'' := None) = [''j'' \<mapsto> sample_frozen]" by (rule fun_upd_idem) simp
  then have "sample_deletion [''j'' \<mapsto> sample_frozen] [''j'' \<mapsto> sample_frozen]"
    unfolding sample_deletion_def by - (rule exI [of _ "''k''"], erule sym)
  then have run: "sample_deletion\<^sup>*\<^sup>* [''j'' \<mapsto> sample_frozen] [''j'' \<mapsto> sample_frozen]" by (rule r_into_rtranclp [of sample_deletion])
  have "Frozen (sample_snapshot (sample_journal sample_events) sample_frozen sample_end) \<and>
     (is_Inr (fst (Commit sample_env sample_store ?other (sample_journal []) [''j'' \<mapsto> sample_frozen])) \<longrightarrow> s_expectedUID sample_store = [] \<and>
        (\<exists>c. [''j'' \<mapsto> sample_frozen] (s_name sample_store) = Some c \<and>
           Some (cm_uid c) \<noteq> map_option cm_uid (sn_object (sample_snapshot (sample_journal sample_events) sample_frozen sample_end))))"
  proof (rule frozen_never_commits [OF sample_cas _ sample_server sample_freeze run])
    show "configMaps sample_store = Some sample_api" by (simp add: sample_store_def)
    show "cm_immutable obj = cm_immutable c" if "sn_object ?other = Some obj"
      "[''j'' \<mapsto> sample_frozen] (s_name sample_store) = Some c" "cm_uid obj = cm_uid c" "cm_resourceVersion obj = cm_resourceVersion c" for obj c
      using that by (auto simp: sample_snapshot_def sample_store_def sample_meta sample_frozen_def)
  qed
  then show ?thesis by (auto simp: sample_store_def sample_snapshot_def)
qed

section \<open>Execution continuity and checkpoints\<close>

lemma update_same: "Mapping.lookup m k = Some v \<Longrightarrow> Mapping.update k v m = m"
  by (rule mapping_eqI) (auto simp: lookup_update')

text \<open>A snapshot that continues an admitted execution has the same object identity and plan, and
  its journal the same round, completion, rollback, serving generation and drain deadline; only
  retained observations may differ.\<close>

theorem continues_keeps_authority:
  assumes "json_faithful env" and "valid_snapshot env s a" and "valid_snapshot env s b" and "ContinuesExecution env a b = Inr ()"
  shows "\<exists>v obs oa ob. View env (sn_transition b) = Inr v \<and> View env (sn_transition a) = Inr (v\<lparr>vw_observed := obs\<rparr>) \<and>
     sn_object a = Some oa \<and> sn_object b = Some ob \<and> cm_uid oa = cm_uid ob \<and> cm_immutable oa = cm_immutable ob \<and>
     snapshot_Plan a = snapshot_Plan b"
proof -
  from assms(4) obtain oa ob where ob: "sn_object a = Some oa" "sn_object b = Some ob" and
    eq: "oa\<lparr>cm_resourceVersion := [], cm_managedFields := [],
          cm_data := Mapping.update journalKey (index (cm_data ob) journalKey) (cm_data oa)\<rparr>
          = ob\<lparr>cm_resourceVersion := [], cm_managedFields := []\<rparr>"
    unfolding ContinuesExecution_Inr by blast
  from arg_cong [OF eq, of cm_uid] arg_cong [OF eq, of cm_immutable] arg_cong [OF eq, of cm_data]
  have "cm_uid oa = cm_uid ob" "cm_immutable oa = cm_immutable ob"
    and data: "Mapping.update journalKey (index (cm_data ob) journalKey) (cm_data oa) = cm_data ob" by simp_all
  moreover have "index (cm_data oa) planKey = index (cm_data ob) planKey"
    by (subst data [symmetric]) (simp add: index_def planKey_def journalKey_def lookup_update')
  ultimately show ?thesis using continues_view [OF assms] ob by (auto simp: snapshot_Plan_def obj_data_def)
qed

theorem continues_keeps_authority_witness:
  "\<exists>v. View sample_env (sample_journal []) = Inr v"
proof -
  have "ContinuesExecution sample_env (sample_snapshot (sample_journal []) (sample_object 0) sample_start)
      (sample_snapshot (sample_journal []) (sample_object 0) sample_start) = Inr ()"
  proof -
    have "Mapping.update journalKey (index (cm_data (sample_object 0)) journalKey) (cm_data (sample_object 0)) = cm_data (sample_object 0)"
      by (rule update_same) (simp add: sample_data, simp add: sample_object_def empty_map_def lookup_update' planKey_def journalKey_def)
    then show ?thesis by (simp add: ContinuesExecution_Inr sample_snapshot_def sample_meta)
  qed
  from continues_keeps_authority [OF sample_json sample_valid(1) sample_valid(1) this] show ?thesis
    by (auto simp: sample_snapshot_def)
qed

text \<open>C12: a checkpoint of a live verified snapshot restores, in the same scope, exactly that
  snapshot: the version the checkpoint is written with is the one its reader accepts, and the object is verified as the store
  verifies it. The JSON text of a version and an object reads back as that version and object.\<close>

theorem checkpoint_roundtrip:
  assumes "\<And>c raw. marshal_checkpoint env c = Some raw \<Longrightarrow> json_checkpoint env raw = Some (c, True)"
    and "configured s = Inr ()" and "valid_snapshot env s sn" and "live_object sn = Some obj" and "Checkpoint env sn = Inr raw"
  shows "RestoreCheckpoint env s raw = Inr sn"
proof -
  from assms(4,5) have "marshal_checkpoint env (1, Some obj) = Some raw"
    by (auto simp: Checkpoint_def live_object_Some res_inv split: option.splits)
  then have "json_checkpoint env raw = Some ((1, Some obj), True)" by (rule assms(1))
  moreover have "token (s_name s)" "token (s_clusterUID s)" using assms(2) by (auto simp: configured_def guard_Inr)
  moreover have "store_snapshot env s obj = Inr sn" using assms(3,4) by (auto simp: live_object_Some intro: valid_store_snapshot)
  ultimately show ?thesis using assms(4) by (simp add: RestoreCheckpoint_def live_object_Some)
qed

theorem checkpoint_roundtrip_witness:
  "RestoreCheckpoint sample_env sample_store ''c'' = Inr (sample_snapshot (sample_journal []) (sample_object 0) sample_start)"
proof (rule checkpoint_roundtrip [OF _ sample_configured sample_valid(1)])
  show "live_object (sample_snapshot (sample_journal []) (sample_object 0) sample_start) = Some (sample_object 0)"
    by (simp add: live_object_Some sample_snapshot_def sample_meta)
  show "Checkpoint sample_env (sample_snapshot (sample_journal []) (sample_object 0) sample_start) = Inr ''c''"
    using sample_view_start by (simp add: Checkpoint_def sample_snapshot_def sample_env_def)
qed (auto simp: sample_env_def split: if_splits)

section \<open>Succession\<close>

lemma sample_view_successor: "View sample_env sample_successor = Inr (sample_start\<lparr>vw_round := j_initial sample_successor\<rparr>)"
  by code_simp

lemma sample_load: "Load sample_env sample_store (sample_world 4) =
    (Inr (sample_snapshot (sample_journal sample_events) (sample_object 4) sample_end), sample_world 4)"
proof -
  have "store_snapshot sample_env sample_store (sample_object 4) =
      Inr (sample_snapshot (sample_journal sample_events) (sample_object 4) sample_end)"
    using valid_store_snapshot [OF sample_valid(2)] by (simp add: sample_snapshot_def)
  then show ?thesis unfolding Load_Inr using sample_configured
    by (intro exI [of _ sample_api] exI [of _ "sample_object 4"]) (simp add: sample_store_def sample_api_def sample_world_def)
qed

lemma sample_archive_object:
  "archive_object sample_env (sample_snapshot (sample_journal sample_events) (sample_object 4) sample_end) (sample_object 4) =
     sample_archive\<lparr>cm_uid := [], cm_resourceVersion := []\<rparr>"
  by code_simp

definition sample_archived :: objects where
  "sample_archived = (sample_world 4)(cm_name sample_archive \<mapsto> sample_archive)"

lemma sample_load_archived: "Load sample_env sample_store sample_archived =
    (Inr (sample_snapshot (sample_journal sample_events) (sample_object 4) sample_end), sample_archived)"
proof -
  have "store_snapshot sample_env sample_store (sample_object 4) =
      Inr (sample_snapshot (sample_journal sample_events) (sample_object 4) sample_end)"
    using valid_store_snapshot [OF sample_valid(2)] by (simp add: sample_snapshot_def)
  then show ?thesis unfolding Load_Inr using sample_configured
    by (intro exI [of _ sample_api] exI [of _ "sample_object 4"])
       (simp add: sample_store_def sample_api_def sample_world_def sample_archived_def sample_archive_def empty_map_def)
qed

definition sample_reader :: "objects store" where
  "sample_reader = sample_store\<lparr>s_name := cm_name sample_archive\<rparr>"

lemma sample_archive_data:
  "index (cm_data sample_archive) journalKey = ''iiiii''" "index (cm_data sample_archive) planKey = sample_plan"
  "Mapping.lookup (cm_data sample_archive) planKey = Some sample_plan"
  "Mapping.lookup (cm_data sample_archive) withdrawalIntentKey = None"
  "index (cm_annotations sample_archive) sourceVersion = ''v''"
  "index (cm_annotations sample_archive) sourceName = ''j''" "index (cm_annotations sample_archive) sourceUIDKey = ''u''"
  by (simp_all add: sample_archive_def sample_data sample_replicate)
     (simp_all add: index_def lookup_update' sourceVersion_def sourceName_def sourceUIDKey_def)

lemma sample_archive_meta:
  "cm_uid sample_archive = ''a''" "cm_resourceVersion sample_archive = ''v''" "cm_deletionTimestamp sample_archive = None"
  "cm_immutable sample_archive = Some True" "cm_ownerReferences sample_archive = []" "cm_namespace sample_archive = ''ns''"
  by (simp_all add: sample_archive_def empty_map_def)

lemma sample_valid_archive:
  "valid_snapshot sample_env sample_reader (sample_snapshot (sample_journal sample_events) sample_archive sample_end)"
proof -
  have "admissible sample_env sample_reader sample_archive (sample_journal sample_events) sample_end"
    by (simp add: sample_admissible sample_store_def sample_reader_def sample_archive_data sample_archive_meta) (simp add: sample_plan_def)
  then show ?thesis by (auto simp: valid_snapshot_def sample_snapshot_def)
qed

lemma sample_archive_completed:
  "ArchiveCompleted sample_env sample_store (sample_snapshot (sample_journal sample_events) (sample_object 4) sample_end)
     (sample_world 4) = (Inr (sample_snapshot (sample_journal sample_events) sample_archive sample_end), sample_archived)"
proof -
  define sn0 where "sn0 = sample_snapshot (sample_journal sample_events) (sample_object 4) sample_end"
  have obj: "live_object sn0 = Some (sample_object 4)" by (simp add: sn0_def sample_snapshot_def live_object_Some sample_meta)
  have 0: "store_snapshot sample_env sample_store (sample_object 4) = Inr sn0"
    using valid_store_snapshot [OF sample_valid(2)] by (simp add: sn0_def sample_snapshot_def)
  have 1: "store_snapshot sample_env \<lparr>configMaps = configMaps sample_store, s_name = cm_name sample_archive,
      s_clusterUID = s_clusterUID sample_store, s_expectedUID = [], s_ownerReferences = []\<rparr> sample_archive =
      Inr (sample_snapshot (sample_journal sample_events) sample_archive sample_end)"
    using valid_store_snapshot [OF sample_valid_archive] by (simp add: sample_snapshot_def sample_reader_def sample_store_def)
  have view: "snapshot_View sample_env sn0 = Inr sample_end" by (simp add: sn0_def sample_snapshot_def snapshot_View_def)
  have ar: "archive_object sample_env sn0 (sample_object 4) = sample_archive\<lparr>cm_uid := [], cm_resourceVersion := []\<rparr>"
    unfolding sn0_def by (rule sample_archive_object)
  have create: "create_or_get sample_store (sample_archive\<lparr>cm_uid := [], cm_resourceVersion := []\<rparr>) (sample_world 4) =
      (Inr sample_archive, sample_archived)"
    by (simp add: create_or_get_def sample_store_def sample_api_def sample_world_def sample_archived_def Let_def)
       (simp add: sample_archive_def empty_map_def)
  have am: "archive_matches (sample_archive\<lparr>cm_uid := [], cm_resourceVersion := []\<rparr>) sample_archive"
  proof -
    have "Mapping.update sourceVersion ''v'' (cm_annotations sample_archive) = cm_annotations sample_archive"
      by (rule update_same) (simp add: sample_archive_def lookup_update')
    then show ?thesis by (simp add: archive_matches_def sample_archive_meta sample_archive_data)
  qed
  have tok: "token ''v''" by code_simp
  show ?thesis
    unfolding ArchiveCompleted_def sn0_def [symmetric] io_bind_def io_lift_def
    by (simp add: sample_configured obj 0 1 view ar create am tok guard_def sample_load [folded sn0_def]
        sample_load_archived [folded sn0_def] sample_archive_data Let_def io_bind_def io_lift_def)
       (simp add: sample_end_def)
qed


definition sample_next_plan :: string where
  "sample_next_plan = replicate 32 CHR 0x01"

definition sample_replaced :: config_map where
  "sample_replaced =
     (sample_object 4)\<lparr>cm_data := Mapping.update planKey sample_next_plan (Mapping.update journalKey ''s'' (cm_data (sample_object 4))),
       cm_resourceVersion := ''vv''\<rparr>"

definition sample_next_view :: view where
  "sample_next_view = sample_start\<lparr>vw_round := j_initial sample_successor\<rparr>"

lemma sample_replaced_data:
  "index (cm_data sample_replaced) journalKey = ''s''" "index (cm_data sample_replaced) planKey = sample_next_plan"
  "Mapping.lookup (cm_data sample_replaced) planKey = Some sample_next_plan"
  "Mapping.lookup (cm_data sample_replaced) withdrawalIntentKey = None"
  by (simp_all add: sample_replaced_def sample_object_def empty_map_def index_def planKey_def journalKey_def
      withdrawalIntentKey_def lookup_update' lookup_empty)

lemma sample_next_facts:
  "hex_sha sample_env sample_next_plan = planHash sample_next_spec" "sample_next_plan \<noteq> []"
  "clusterUID sample_next_spec = ''c''" "fromGeneration sample_next_spec = ''g2''" "transitionUID sample_next_spec = ''t2''"
  "planHash sample_next_spec \<noteq> hex_sha sample_env sample_plan"
  by code_simp+

lemma sample_next_round: "rspec (vw_round sample_next_view) = sample_next_spec" "j_planRequired sample_successor"
  by (simp_all add: sample_next_view_def sample_successor_def)

lemma sample_valid_replaced:
  "valid_snapshot sample_env sample_store (sample_snapshot sample_successor sample_replaced sample_next_view)"
proof -
  have "cm_name sample_replaced = ''j''" "cm_uid sample_replaced = ''u''" "cm_resourceVersion sample_replaced = ''vv''"
    "cm_immutable sample_replaced = None" by (simp_all add: sample_replaced_def sample_meta)
  then have "admissible sample_env sample_store sample_replaced sample_successor sample_next_view"
    using sample_view_successor [folded sample_next_view_def]
    by (simp add: admissible_def sample_json_simps sample_replaced_data sample_store_def sample_next_round sample_next_facts)
  then show ?thesis by (auto simp: valid_snapshot_def sample_snapshot_def)
qed

definition sample_new_journal :: journal where
  "sample_new_journal = sample_successor\<lparr>j_version := 1, j_predecessor := None, j_planRequired := False\<rparr>"

definition sample_policy :: policy where
  "sample_policy = \<lparr>roundLifetime = 1000, p_maxReceiptAge = 500, drainInterval = 50\<rparr>"

lemma sample_new_transition:
  "NewTransition sample_env (Some (replicate 16 CHR 0x11)) sample_next_spec 200 sample_policy = Inr sample_new_journal"
  by code_simp

lemma sample_continues: "continuesMembers sample_end (j_initial sample_new_journal) = Inr ()"
  by code_simp

lemma sample_end_facts:
  "vw_complete sample_end" "vw_servingGeneration sample_end = ''g2''" "transitionUID (rspec (vw_round sample_end)) = ''t''"
  "e_at (last (j_events (sample_journal sample_events))) = 190"
  by (simp_all add: sample_end_def sample_round_def sample_spec_def sample_journal_def sample_events_def sample_advance_def)

lemma sample_successor_journal:
  "successor_journal sample_env sample_new_journal (sample_snapshot t sample_archive v) (sample_object 4)
     (hex_sha sample_env ''iiiii'') ''g2'' = sample_successor"
proof -
  have "hex_sha sample_env ''iiiii'' = hex_encode (replicate 5 CHR ''i'' @ replicate 27 CHR 0x00)" by code_simp
  then show ?thesis
    by (simp add: successor_journal_def sample_new_journal_def sample_snapshot_def sample_archive_meta sample_meta sample_successor_def)
qed

lemma sample_bytes_successor: "Bytes sample_env sample_successor = Inr ''s''"
  using sample_view_successor by (simp add: Bytes_Inr) (simp add: sample_env_def)

lemma sample_replace:
  "ReplaceCompleted sample_env (Some (replicate 16 CHR 0x11)) sample_store
     (sample_snapshot (sample_journal sample_events) (sample_object 4) sample_end) sample_next_spec sample_next_plan 200
     sample_policy (sample_world 4) =
   (Inr (sample_snapshot sample_successor sample_replaced sample_next_view), sample_archived(''j'' \<mapsto> sample_replaced))"
proof -
  define sn0 where "sn0 = sample_snapshot (sample_journal sample_events) (sample_object 4) sample_end"
  have obj: "sn_object sn0 = Some (sample_object 4)" "sn_transition sn0 = sample_journal sample_events" "\<not> Frozen sn0"
    "journalDigest sample_env sn0 = hex_sha sample_env ''iiiii''"
    by (simp_all add: sn0_def sample_snapshot_def Frozen_def sample_meta journalDigest_def obj_data_def sample_data sample_replicate)
  have 0: "store_snapshot sample_env sample_store (sample_object 4) = Inr sn0"
    using valid_store_snapshot [OF sample_valid(2)] obj by (simp add: sn0_def)
  have 1: "store_snapshot sample_env sample_store sample_replaced = Inr (sample_snapshot sample_successor sample_replaced sample_next_view)"
    using valid_store_snapshot [OF sample_valid_replaced] by (simp add: sample_snapshot_def)
  have view: "snapshot_View sample_env sn0 = Inr sample_end" by (simp add: sn0_def sample_snapshot_def snapshot_View_def)
  have up: "api_call sample_store (\<lambda>api. api_update api ((sample_object 4)\<lparr>cm_data := Mapping.update planKey sample_next_plan
      (Mapping.update journalKey ''s'' (cm_data (sample_object 4)))\<rparr>)) sample_archived =
      (Inr sample_replaced, sample_archived(''j'' \<mapsto> sample_replaced))"
    by (simp add: api_call_def sample_store_def sample_api_def sample_archived_def sample_world_def sample_meta
        sample_replaced_def Let_def) (simp add: sample_archive_def)
  have ret: "cm_uid sample_replaced = ''u''" "cm_data sample_replaced =
      Mapping.update planKey sample_next_plan (Mapping.update journalKey ''s'' (cm_data (sample_object 4)))"
    by (simp_all add: sample_replaced_def sample_meta)
  show ?thesis
    unfolding ReplaceCompleted_def sn0_def [symmetric] obj(1) option.case
    by (simp add: io_bind_def io_lift_def 0 1 view obj guard_def sample_next_facts sample_end_facts sample_view_spec
        sample_new_transition sample_continues sample_archive_completed [folded sn0_def] sample_successor_journal
        sample_bytes_successor up ret sample_meta Let_def)
qed

text \<open>C13: an admitted successor continues exactly what its archive served. The archive is the immutable object its predecessor record names, of
  the same journal object, with the recorded digest and the predecessor's public plan, and its journal extends the predecessor's; it is complete, and
  the new generation starts, in the same cluster but under another transition and plan, from the archived serving generation and not before
  the archive's last event; and every participant, in order, keeps its node and device and starts with the key and the peer key it was serving
  with.\<close>

theorem successor_continues_serving:
  assumes "Succeeds env s previous archive = Inr ()"
  shows "\<exists>so po ao p old. sn_object s = Some so \<and> sn_object previous = Some po \<and> sn_object archive = Some ao \<and>
     j_predecessor (sn_transition s) = Some p \<and> cm_name so = cm_name po \<and> cm_namespace so = cm_namespace po \<and> cm_uid so = cm_uid po \<and>
     sourceUID p = cm_uid po \<and> archiveName p = cm_name ao \<and> archiveUID p = cm_uid ao \<and> cm_namespace ao = cm_namespace so \<and>
     cm_immutable ao = Some True \<and> cm_ownerReferences ao = [] \<and> index (cm_annotations ao) sourceName = cm_name po \<and>
     index (cm_annotations ao) sourceUIDKey = cm_uid po \<and> journalSHA256 p = journalDigest env archive \<and>
     snapshot_Plan archive = snapshot_Plan previous \<and> Extends env (sn_transition archive) (sn_transition previous) = Inr () \<and>
     snapshot_View env archive = Inr old \<and> vw_complete old \<and> servingGeneration p = vw_servingGeneration old \<and>
     clusterUID (rspec (j_initial (sn_transition s))) = clusterUID (rspec (vw_round old)) \<and>
     fromGeneration (rspec (j_initial (sn_transition s))) = vw_servingGeneration old \<and>
     transitionUID (rspec (j_initial (sn_transition s))) \<noteq> transitionUID (rspec (vw_round old)) \<and>
     planHash (rspec (j_initial (sn_transition s))) \<noteq> planHash (rspec (vw_round old)) \<and>
     e_at (last (j_events (sn_transition archive))) \<le> issuedAt (j_initial (sn_transition s)) \<and>
     map (\<lambda>m. (m_nodeUID m, m_deviceID m, m_fromKey m, m_fromPeerKey m)) (members (rspec (j_initial (sn_transition s)))) =
       map (\<lambda>m. if phase (rspec (vw_round old)) = Abort then (m_nodeUID m, m_deviceID m, m_fromKey m, m_fromPeerKey m)
                else (m_nodeUID m, m_deviceID m, m_toKey m, m_toPeerKey m)) (members (rspec (vw_round old)))"
proof -
  from assms obtain so po ao p old where objs: "sn_object s = Some so" "sn_object previous = Some po" "sn_object archive = Some ao"
    "j_predecessor (sn_transition s) = Some p" and b: "archive_binds env p so previous po archive ao"
    and x: "Extends env (sn_transition archive) (sn_transition previous) = Inr ()" and old: "snapshot_View env archive = Inr old"
    and p: "continues_completion p old (j_initial (sn_transition s))"
    and at: "e_at (last (j_events (sn_transition archive))) \<le> issuedAt (j_initial (sn_transition s))"
    and m: "continuesMembers old (j_initial (sn_transition s)) = Inr ()" unfolding Succeeds_Inr by blast
  from m [unfolded continuesMembers_Inr]
  have "map (\<lambda>m. (m_nodeUID m, m_deviceID m, m_fromKey m, m_fromPeerKey m)) (members (rspec (j_initial (sn_transition s)))) =
       map (\<lambda>m. if phase (rspec (vw_round old)) = Abort then (m_nodeUID m, m_deviceID m, m_fromKey m, m_fromPeerKey m)
                else (m_nodeUID m, m_deviceID m, m_toKey m, m_toPeerKey m)) (members (rspec (vw_round old)))"
    by (induction rule: list_all2_induct) auto
  with objs b x old p at show ?thesis by (auto simp: archive_binds_def continues_completion_def)
qed

theorem successor_continues_serving_witness:
  "map m_fromKey (members sample_next_spec) = [''b''] \<and>
   (\<exists>archive. Succeeds sample_env (sample_snapshot sample_successor sample_replaced sample_next_view)
      (sample_snapshot (sample_journal sample_events) (sample_object 4) sample_end) archive = Inr ())"
proof -
  obtain archive where "Succeeds sample_env (sample_snapshot sample_successor sample_replaced sample_next_view)
      (sample_snapshot (sample_journal sample_events) (sample_object 4) sample_end) archive = Inr ()"
    using replace_succeeds [OF sample_json sample_cas _ sample_replace sample_valid(2)] sample_bytes(2)
    by (auto simp: sample_store_def sample_snapshot_def)
  from this successor_continues_serving [OF this] show ?thesis
    by (auto simp: sample_snapshot_def sample_next_spec_def)
qed

text \<open>Replacing a completed journal produces a successor that the admission check accepts over
  the replaced snapshot, with an immutable archive of it.\<close>

theorem replace_admits_successor:
  assumes "json_faithful env" and "cas_api live api" and "configMaps s = Some api"
    and "ReplaceCompleted env rand s previous sp plan now pol w = (Inr sn, w')"
    and "valid_snapshot env s previous" and "Bytes env (sn_transition previous) = Inr b"
  shows "\<exists>archive. Succeeds env sn previous archive = Inr () \<and> Frozen archive"
  using assms by (rule replace_succeeds)

theorem replace_admits_successor_witness:
  "\<exists>archive. Succeeds sample_env (sample_snapshot sample_successor sample_replaced sample_next_view)
     (sample_snapshot (sample_journal sample_events) (sample_object 4) sample_end) archive = Inr () \<and> Frozen archive"
  using replace_admits_successor [OF sample_json sample_cas _ sample_replace sample_valid(2)] sample_bytes(2)
  by (auto simp: sample_store_def sample_snapshot_def)

text \<open>C14: a successful history check proves an unbroken ancestry: extensions within a generation and
  admitted successors between generations, from the current journal back to the checkpoint.\<close>

theorem history_is_ancestry:
  assumes "CheckHistory fuel env ctx s current previous w = Some (Inr u, w')"
  shows "descends env current previous"
  using assms
  by (auto simp: CheckHistory_def split: sum.splits option.splits prod.splits if_splits
      intro: descends_extends history_loop_sound)

theorem history_is_ancestry_witness:
  "descends sample_env (sample_snapshot (sample_journal []) (sample_object 0) sample_start)
     (sample_snapshot (sample_journal []) (sample_object 0) sample_start)"
proof -
  define sn where "sn = sample_snapshot (sample_journal []) (sample_object 0) sample_start"
  have "store_snapshot sample_env sample_store (sample_object 0) = Inr sn"
    using valid_store_snapshot [OF sample_valid(1)] by (simp add: sn_def sample_snapshot_def)
  moreover have "snapshot_Extends sample_env sn sn = Inr ()"
    using extends_self [OF sample_bytes(1)] by (simp add: snapshot_Extends_def sn_def sample_snapshot_def sample_meta)
  moreover have "sn_object sn = Some (sample_object 0)" by (simp add: sn_def sample_snapshot_def)
  ultimately have "CheckHistory 1 sample_env (\<lambda>w. None) sample_store sn sn (sample_world 0) = Some (Inr (), sample_world 0)"
    by (simp add: CheckHistory_def sample_configured)
  from history_is_ancestry [OF this] show ?thesis by (simp add: sn_def)
qed

text \<open>C15: the walks along the archives end: where an API server can return objects of finitely many
  UIDs only, one more iteration than there are UIDs is enough fuel for both.\<close>

theorem history_terminates:
  assumes "finite U" and "configMaps s = Some api" and "known_uids U api" and "card U < fuel"
  shows "CheckHistory fuel env ctx s current previous w \<noteq> None \<and> ArchiveNames fuel env ctx s current w \<noteq> None"
proof -
  obtain h where "history_loop fuel env ctx s previous {} current w = Some h"
    using history_loop_total [OF assms(1-3), of "{}" fuel env ctx previous current w] assms(4) by auto
  moreover obtain a where "archive_loop fuel env ctx s {} current w = Some a"
    using archive_loop_total [OF assms(1-3), of "{}" fuel env ctx current w] assms(4) by auto
  ultimately show ?thesis by (auto simp: CheckHistory_def ArchiveNames_def split: sum.splits option.splits prod.splits)
qed

theorem history_terminates_witness:
  "CheckHistory 2 sample_env (\<lambda>w. None) \<lparr>configMaps = Some (sample_api\<lparr>api_get := (\<lambda>n w. (Inr sample_archive, w))\<rparr>),
     s_name = ''j'', s_clusterUID = ''c'', s_expectedUID = [], s_ownerReferences = []\<rparr>
     (sample_snapshot (sample_journal []) (sample_object 0) sample_start)
     (sample_snapshot (sample_journal []) (sample_object 0) sample_start) (sample_world 0) \<noteq> None"
proof (rule history_terminates [THEN conjunct1])
  show "finite {''a''}" by simp
  show "known_uids {''a''} (sample_api\<lparr>api_get := (\<lambda>n w. (Inr sample_archive, w))\<rparr>)"
    by (simp add: known_uids_def sample_archive_meta)
qed simp_all

end
