(* ===== verification/Authentication.thy ===== *)
theory Authentication
  imports Succession
begin

text \<open>
  Authentication of receipts (\<open>controller/pkg/handover/authentication.go\<close>,
  \<open>observation_incarnation.go\<close>) and the commit of authenticated receipts
  (\<open>authenticated_advance.go\<close>). The Kubernetes API is a parameter: the record \<open>kube\<close> of reads over
  a world, whose results carry the fields the code inspects; a failed read is \<open>None\<close>.
\<close>

section \<open>API objects\<close>

record token_review =
  tr_authenticated :: bool
  tr_error :: string
  tr_audiences :: "string list"
  tr_username :: string
  tr_uid :: string
  tr_extra :: "(string \<times> string list) list"

record service_account =
  sa_uid :: string
  sa_deleted :: bool

record container =
  co_name :: string
  co_image :: string
  co_command :: "string list"

record container_status =
  cs_name :: string
  cs_imageID :: string
  cs_ready :: bool
  cs_containerID :: string
  cs_runningSince :: "time option"

text \<open>A condition is its type and its status; \<open>PodReady\<close> and \<open>NodeReady\<close> are \<open>Ready\<close>.\<close>

type_synonym condition = "string \<times> string"

record owner_reference =
  or_apiVersion :: string
  or_kind :: string
  or_name :: string
  or_uid :: string

record pod =
  pod_uid :: string
  pod_deleted :: bool
  pod_serviceAccount :: string
  pod_nodeName :: string
  pod_phase :: string
  pod_controller :: "owner_reference option"
  pod_containers :: "container list"
  pod_statuses :: "container_status list"
  pod_conditions :: "condition list"

record daemon_set =
  ds_uid :: string
  ds_deleted :: bool
  ds_containers :: "container list"

record node =
  node_uid :: string
  node_deleted :: bool
  node_bootID :: string
  node_conditions :: "condition list"

record 'w kube =
  k_tokenReview :: "string \<Rightarrow> string list \<Rightarrow> 'w \<Rightarrow> token_review option \<times> 'w"
  k_serviceAccount :: "string \<Rightarrow> string \<Rightarrow> 'w \<Rightarrow> service_account option \<times> 'w"
  k_pod :: "string \<Rightarrow> string \<Rightarrow> 'w \<Rightarrow> pod option \<times> 'w"
  k_daemonSet :: "string \<Rightarrow> string \<Rightarrow> 'w \<Rightarrow> daemon_set option \<times> 'w"
  k_node :: "string \<Rightarrow> 'w \<Rightarrow> node option \<times> 'w"

record 'w authenticator =
  au_api :: "'w kube option"
  au_audience :: string
  au_namespace :: string
  au_serviceAccountName :: string
  au_serviceAccountUID :: string
  au_daemonSetName :: string
  au_daemonSetUID :: string
  au_containerName :: string
  au_image :: string
  au_imageID :: string

section \<open>Image policy\<close>

definition receiptImagePinned :: "string \<Rightarrow> bool \<Rightarrow> bool" where
  "receiptImagePinned value runtimeID =
     (if ContainsAny value [CHR '' '', CHR 0x09, CHR 0x0D, CHR 0x0A] then False
      else if runtimeID \<and> prefix ''sha256:'' value then hexToken (TrimPrefix value ''sha256:'') 32
      else
        (case Cut value ''@sha256:'' of
           None \<Rightarrow> False
         | Some (nm, digest) \<Rightarrow> nm \<noteq> [] \<and> CHR ''@'' \<notin> set nm \<and> hexToken digest 32))"

definition ValidateReceiptImagePolicy :: "string \<Rightarrow> string \<Rightarrow> unit res" where
  "ValidateReceiptImagePolicy img runtimeID =
     guard (receiptImagePinned img False \<and> receiptImagePinned runtimeID True)
       ''receipt policy requires a digest-pinned agent image and immutable runtime image ID''"

definition receiptImageEntrypoint :: "container list \<Rightarrow> string \<Rightarrow> string \<Rightarrow> bool" where
  "receiptImageEntrypoint containers nm img =
     (case find (\<lambda>c. co_name c = nm) containers of
        None \<Rightarrow> False
      | Some c \<Rightarrow> co_image c = img \<and> co_command c = [])"

section \<open>Authenticate\<close>

text \<open>The last condition of a type decides, as the loop over the conditions leaves it.\<close>

definition condition_true :: "condition list \<Rightarrow> string \<Rightarrow> bool" where
  "condition_true cs ty = fold (\<lambda>(t, status) ready. if t = ty then status = ''True'' else ready) cs False"

definition claim_of :: "token_review \<Rightarrow> string \<Rightarrow> string" where
  "claim_of review nm =
     (case map_of (tr_extra review) (''authentication.kubernetes.io/'' @ nm) of
        Some [v] \<Rightarrow> v
      | _ \<Rightarrow> [])"

definition auth_fail :: "string \<Rightarrow> error" where
  "auth_fail message = Error (''receipt authentication: '' @ message)"

text \<open>The loop over the container statuses: the first of the configured name decides.\<close>

definition current_container :: "'w authenticator \<Rightarrow> receipt \<Rightarrow> container_status list \<Rightarrow> unit res" where
  "current_container a r statuses =
     (case find (\<lambda>s. cs_name s = au_containerName a) statuses of
        None \<Rightarrow> Inl (auth_fail ''running agent image differs or is not Ready'')
      | Some s \<Rightarrow>
          (case cs_runningSince s of
             None \<Rightarrow> Inl (auth_fail ''running agent image differs or is not Ready'')
           | Some started \<Rightarrow>
               if \<not> (cs_imageID s = au_imageID a \<and> cs_ready s \<and> cs_containerID s \<noteq> [])
                 then Inl (auth_fail ''running agent image differs or is not Ready'')
               else if agentContainerID r = [] \<or> agentContainerID r \<noteq> cs_containerID s \<or> started = 0 \<or>
                       observedAt r < started
                 then Inl (auth_fail ''observation does not belong to the current agent container'')
               else Inr ()))"

text \<open>A read whose failure, or whose result failing a check, is one fixed message.\<close>

definition read_checked ::
  "('w \<Rightarrow> 'o option \<times> 'w) \<Rightarrow> ('o \<Rightarrow> bool) \<Rightarrow> string \<Rightarrow> ('w, 'o) io" where
  "read_checked rd ok message w =
     (case rd w of
        (None, w') \<Rightarrow> (Inl (auth_fail message), w')
      | (Some obj, w') \<Rightarrow> (if ok obj then (Inr obj, w') else (Inl (auth_fail message), w')))"

definition policy_complete :: "'w authenticator \<Rightarrow> bool" where
  "policy_complete a =
     (au_audience a \<noteq> [] \<and> au_namespace a \<noteq> [] \<and> au_serviceAccountName a \<noteq> [] \<and> au_serviceAccountUID a \<noteq> [] \<and>
      au_daemonSetName a \<noteq> [] \<and> au_daemonSetUID a \<noteq> [])"

definition review_ok :: "'w authenticator \<Rightarrow> token_review \<Rightarrow> bool" where
  "review_ok a rv = (tr_authenticated rv \<and> tr_error rv = [] \<and> au_audience a \<in> set (tr_audiences rv))"

definition pod_ok :: "'w authenticator \<Rightarrow> token_review \<Rightarrow> pod \<Rightarrow> bool" where
  "pod_ok a rv p =
     (pod_uid p = claim_of rv ''pod-uid'' \<and> \<not> pod_deleted p \<and> pod_serviceAccount p = au_serviceAccountName a \<and>
      pod_nodeName p = claim_of rv ''node-name'' \<and> pod_phase p = ''Running'')"

definition owned_by_daemon :: "'w authenticator \<Rightarrow> pod \<Rightarrow> bool" where
  "owned_by_daemon a p =
     (case pod_controller p of
        None \<Rightarrow> False
      | Some ow \<Rightarrow> or_apiVersion ow = ''apps/v1'' \<and> or_kind ow = ''DaemonSet'' \<and> or_name ow = au_daemonSetName a \<and>
          or_uid ow = au_daemonSetUID a)"

definition Authenticate ::
  "'w authenticator \<Rightarrow> string \<Rightarrow> receipt \<Rightarrow> string \<Rightarrow> ('w, authenticated_receipt) io" where
  "Authenticate a bearer r bootID =
     (case au_api a of
        None \<Rightarrow> io_lift (Inl (auth_fail ''missing policy, credential or identity''))
      | Some api \<Rightarrow>
     (if \<not> policy_complete a \<or> bearer = [] \<or> r_nodeUID r = [] \<or> bootID = []
        then io_lift (Inl (auth_fail ''missing policy, credential or identity''))
      else if au_containerName a = [] \<or> \<not> is_Inr (ValidateReceiptImagePolicy (au_image a) (au_imageID a))
        then io_lift (Inl (auth_fail ''missing immutable agent image policy''))
      else
        io_bind (read_checked (k_tokenReview api bearer [au_audience a]) (review_ok a) ''token review failed'') (\<lambda>rv.
        if tr_username rv \<noteq> ''system:serviceaccount:'' @ au_namespace a @ '':'' @ au_serviceAccountName a \<or>
           tr_uid rv \<noteq> au_serviceAccountUID a
          then io_lift (Inl (auth_fail ''service account identity differs''))
        else if claim_of rv ''pod-name'' = [] \<or> claim_of rv ''pod-uid'' = [] \<or> claim_of rv ''node-name'' = [] \<or>
                claim_of rv ''node-uid'' = [] \<or> r_nodeUID r \<noteq> claim_of rv ''node-uid''
          then io_lift (Inl (auth_fail ''pod-bound node identity differs or is missing''))
        else
          io_bind (read_checked (k_serviceAccount api (au_namespace a) (au_serviceAccountName a))
                     (\<lambda>sa. sa_uid sa = au_serviceAccountUID a \<and> \<not> sa_deleted sa) ''service account is no longer current'') (\<lambda>_.
          io_bind (read_checked (k_pod api (au_namespace a) (claim_of rv ''pod-name'')) (pod_ok a rv)
                     ''pod identity or placement is no longer current'') (\<lambda>p.
          if \<not> owned_by_daemon a p then io_lift (Inl (auth_fail ''pod is not owned by the configured daemon''))
          else
            io_bind (read_checked (k_daemonSet api (au_namespace a) (au_daemonSetName a))
                       (\<lambda>d. ds_uid d = au_daemonSetUID a \<and> \<not> ds_deleted d) ''daemon identity is no longer current'') (\<lambda>d.
            if \<not> receiptImageEntrypoint (ds_containers d) (au_containerName a) (au_image a) \<or>
               \<not> receiptImageEntrypoint (pod_containers p) (au_containerName a) (au_image a)
              then io_lift (Inl (auth_fail ''daemon or pod agent image or entrypoint differs from the admitted release''))
            else
              io_bind (io_lift (current_container a r (pod_statuses p))) (\<lambda>_.
              io_bind (read_checked (k_node api (claim_of rv ''node-name''))
                         (\<lambda>n. node_uid n = claim_of rv ''node-uid'' \<and> \<not> node_deleted n \<and> node_bootID n = bootID)
                         ''node identity or boot is no longer current'') (\<lambda>n.
              if \<not> condition_true (pod_conditions p) ''Ready'' \<or> \<not> condition_true (node_conditions n) ''Ready''
                then io_lift (Inl (auth_fail ''pod or node is not Ready''))
              else
                io_lift (Inr \<lparr>authenticatedNodeUID = claim_of rv ''node-uid'',
                  a_receipt = r\<lparr>observedBootID := bootID, agentPodName := claim_of rv ''pod-name'',
                    agentPodUID := claim_of rv ''pod-uid'', agentContainerName := au_containerName a\<rparr>\<rparr>)))))))))"

section \<open>VerifyObservationIncarnation\<close>

definition incarnation_fail :: error where
  "incarnation_fail = Error ''relay forwarding dependency: observed agent incarnation is not current''"

definition VerifyObservationIncarnation ::
  "'w kube option \<Rightarrow> string \<Rightarrow> string \<Rightarrow> receipt \<Rightarrow> ('w, unit) io" where
  "VerifyObservationIncarnation api ns nodeName r w =
     (case api of
        None \<Rightarrow> (Inl incarnation_fail, w)
      | Some k \<Rightarrow>
          if ns = [] \<or> nodeName = [] \<or> r_nodeUID r = [] \<or> observedBootID r = [] \<or> agentPodName r = [] \<or>
             agentPodUID r = [] \<or> agentContainerName r = [] \<or> agentContainerID r = [] \<or> observedAt r = 0
            then (Inl incarnation_fail, w)
          else
            (case k_node k nodeName w of
               (None, w1) \<Rightarrow> (Inl incarnation_fail, w1)
             | (Some n, w1) \<Rightarrow>
                 if node_uid n \<noteq> r_nodeUID r \<or> node_deleted n \<or> node_bootID n \<noteq> observedBootID r \<or>
                    \<not> condition_true (node_conditions n) ''Ready''
                   then (Inl incarnation_fail, w1)
                 else
                   (case k_pod k ns (agentPodName r) w1 of
                      (None, w2) \<Rightarrow> (Inl incarnation_fail, w2)
                    | (Some p, w2) \<Rightarrow>
                        if pod_uid p \<noteq> agentPodUID r \<or> pod_deleted p \<or> pod_nodeName p \<noteq> nodeName \<or>
                           pod_phase p \<noteq> ''Running'' \<or> \<not> condition_true (pod_conditions p) ''Ready''
                          then (Inl incarnation_fail, w2)
                        else if list_ex (\<lambda>s. cs_name s = agentContainerName r \<and> cs_containerID s = agentContainerID r \<and>
                                  cs_ready s \<and> (case cs_runningSince s of None \<Rightarrow> False
                                    | Some started \<Rightarrow> started \<noteq> 0 \<and> started \<le> observedAt r)) (pod_statuses p)
                          then (Inr (), w2)
                        else (Inl incarnation_fail, w2))))"

section \<open>Committing authenticated receipts\<close>

record pod_receipt =
  bearerToken :: string
  bootID :: string
  pr_receipt :: receipt

text \<open>\<open>time.Now()\<close> and \<open>crypto/rand\<close> in a world.\<close>

record 'w host =
  host_now :: "'w \<Rightarrow> time"
  host_rand :: "'w \<Rightarrow> string option"

fun authenticate_each ::
  "string \<Rightarrow> (string \<rightharpoonup> 'w authenticator) \<Rightarrow> (string \<times> string) set \<Rightarrow> pod_receipt list \<Rightarrow>
   ('w, authenticated_receipt list) io" where
  "authenticate_each digest policies ms [] w = (Inr [], w)"
| "authenticate_each digest policies ms (sub # subs) w =
     (let r = pr_receipt sub in
      case policies (r_nodeUID r) of
        None \<Rightarrow> (Inl (Error ''receipt submission has a missing, duplicate or unexpected member''), w)
      | Some pol \<Rightarrow>
          if rident r \<notin> ms \<or> roundHash r \<noteq> digest
            then (Inl (Error ''receipt submission has a missing, duplicate or unexpected member''), w)
          else
            (case Authenticate pol (bearerToken sub) r (bootID sub) w of
               (Inl e, w1) \<Rightarrow> (Inl e, w1)
             | (Inr proof, w1) \<Rightarrow>
                 (case authenticate_each digest policies (ms - {rident r}) subs w1 of
                    (Inl e, w2) \<Rightarrow> (Inl e, w2)
                  | (Inr proofs, w2) \<Rightarrow> (Inr (proof # proofs), w2))))"

definition commitPodReceipts ::
  "'a journal_env_scheme \<Rightarrow> 'w host \<Rightarrow> 'w store \<Rightarrow> string \<Rightarrow> pod_receipt list \<Rightarrow> (string \<rightharpoonup> 'w authenticator) \<Rightarrow> bool \<Rightarrow>
   ('w, snapshot) io" where
  "commitPodReceipts env host s expectedRoundHash submissions policies adv =
     io_bind (Load env s) (\<lambda>previous.
     io_bind (io_lift (snapshot_View env previous)) (\<lambda>v.
     let digest = Digest env (vw_round v); ms = members (rspec (vw_round v)) in
     if expectedRoundHash = [] \<or> digest \<noteq> Inr expectedRoundHash \<or> vw_complete v
       then io_lift (Inl (Error ''receipt submission does not target the current unfinished round''))
     else if submissions = [] \<or> length ms < length submissions \<or> (adv \<and> length submissions \<noteq> length ms)
       then io_lift (Inl (Error ''receipt submission does not cover the complete round''))
     else
       io_bind (authenticate_each expectedRoundHash policies (set (map ident ms)) submissions) (\<lambda>proofs.
       io_bind (\<lambda>w. ((if adv then Advance env (host_rand host w) (sn_transition previous) (host_now host w) proofs
                      else Observe env (sn_transition previous) (host_now host w) proofs), w)) (\<lambda>nxt.
       Commit env s previous nxt))))"

definition AdvanceWithPodReceipts ::
  "'a journal_env_scheme \<Rightarrow> 'w host \<Rightarrow> 'w store \<Rightarrow> string \<Rightarrow> pod_receipt list \<Rightarrow> (string \<rightharpoonup> 'w authenticator) \<Rightarrow> ('w, snapshot) io" where
  "AdvanceWithPodReceipts env host s h subs policies = commitPodReceipts env host s h subs policies True"

definition ObserveWithPodReceipts ::
  "'a journal_env_scheme \<Rightarrow> 'w host \<Rightarrow> 'w store \<Rightarrow> string \<Rightarrow> pod_receipt list \<Rightarrow> (string \<rightharpoonup> 'w authenticator) \<Rightarrow> ('w, snapshot) io" where
  "ObserveWithPodReceipts env host s h subs policies = commitPodReceipts env host s h subs policies False"


section \<open>What authentication establishes\<close>

lemma read_checked_Inr [res_inv]:
  "read_checked rd ok message w = (Inr obj, w') \<longleftrightarrow> rd w = (Some obj, w') \<and> ok obj"
  by (auto simp: read_checked_def split: prod.splits option.splits)

lemma if_io_Inl [res_inv]:
  "(if b then io_lift (Inl e) else m) w = (Inr x, w') \<longleftrightarrow> \<not> b \<and> m w = (Inr x, w')"
  by (simp add: io_lift_def)

text \<open>
  The live objects behind an accepted receipt, in terms of their own fields: the reviewed token, its ServiceAccount, the pod it is bound
  to, the daemon that owns the pod and the node, each read once and in this order.
\<close>

definition sole_claim :: "token_review \<Rightarrow> string \<Rightarrow> string \<Rightarrow> bool" where
  "sole_claim rv nm v = (v \<noteq> [] \<and> map_of (tr_extra rv) (''authentication.kubernetes.io/'' @ nm) = Some [v])"

definition token_evidence :: "'w authenticator \<Rightarrow> token_review \<Rightarrow> pod \<Rightarrow> string \<Rightarrow> node \<Rightarrow> string \<Rightarrow> bool" where
  "token_evidence a rv p podName n nodeName =
     (tr_authenticated rv \<and> tr_error rv = [] \<and> au_audience a \<in> set (tr_audiences rv) \<and>
      tr_username rv = ''system:serviceaccount:'' @ au_namespace a @ '':'' @ au_serviceAccountName a \<and> tr_uid rv = au_serviceAccountUID a \<and>
      sole_claim rv ''pod-name'' podName \<and> sole_claim rv ''pod-uid'' (pod_uid p) \<and> sole_claim rv ''node-name'' nodeName \<and>
      sole_claim rv ''node-uid'' (node_uid n))"

definition ready_last :: "condition list \<Rightarrow> bool" where
  "ready_last cs = (\<exists>xs ys. cs = xs @ (''Ready'', ''True'') # ys \<and> ''Ready'' \<notin> fst ` set ys)"

text \<open>The first container of the name has the admitted image and no command of its own.\<close>

definition admitted_agent :: "container list \<Rightarrow> string \<Rightarrow> string \<Rightarrow> bool" where
  "admitted_agent cs nm img =
     (\<exists>xs c ys. cs = xs @ c # ys \<and> nm \<notin> co_name ` set xs \<and> co_name c = nm \<and> co_image c = img \<and> co_command c = [])"

definition running_agent :: "container_status list \<Rightarrow> string \<Rightarrow> string \<Rightarrow> receipt \<Rightarrow> bool" where
  "running_agent ss nm imageID r =
     (\<exists>xs s ys started. ss = xs @ s # ys \<and> nm \<notin> cs_name ` set xs \<and> cs_name s = nm \<and> cs_imageID s = imageID \<and> cs_ready s \<and>
        cs_containerID s \<noteq> [] \<and> agentContainerID r = cs_containerID s \<and> cs_runningSince s = Some started \<and> started \<noteq> 0 \<and> started \<le> observedAt r)"

definition pod_evidence :: "'w authenticator \<Rightarrow> receipt \<Rightarrow> pod \<Rightarrow> string \<Rightarrow> bool" where
  "pod_evidence a r p nodeName =
     (\<not> pod_deleted p \<and> pod_serviceAccount p = au_serviceAccountName a \<and> pod_nodeName p = nodeName \<and> pod_phase p = ''Running'' \<and>
      pod_controller p = Some \<lparr>or_apiVersion = ''apps/v1'', or_kind = ''DaemonSet'', or_name = au_daemonSetName a, or_uid = au_daemonSetUID a\<rparr> \<and>
      admitted_agent (pod_containers p) (au_containerName a) (au_image a) \<and> running_agent (pod_statuses p) (au_containerName a) (au_imageID a) r \<and>
      ready_last (pod_conditions p))"

definition live_evidence ::
  "'w kube \<Rightarrow> 'w authenticator \<Rightarrow> string \<Rightarrow> receipt \<Rightarrow> string \<Rightarrow> 'w \<Rightarrow> 'w \<Rightarrow> string \<Rightarrow> pod \<Rightarrow> node \<Rightarrow> bool" where
  "live_evidence api a bearer r boot w w' podName p n =
     (\<exists>rv sa d nodeName w1 w2 w3 w4. k_tokenReview api bearer [au_audience a] w = (Some rv, w1) \<and> token_evidence a rv p podName n nodeName \<and>
        k_serviceAccount api (au_namespace a) (au_serviceAccountName a) w1 = (Some sa, w2) \<and> sa_uid sa = au_serviceAccountUID a \<and> \<not> sa_deleted sa \<and>
        k_pod api (au_namespace a) podName w2 = (Some p, w3) \<and> pod_evidence a r p nodeName \<and>
        k_daemonSet api (au_namespace a) (au_daemonSetName a) w3 = (Some d, w4) \<and> ds_uid d = au_daemonSetUID a \<and> \<not> ds_deleted d \<and>
        admitted_agent (ds_containers d) (au_containerName a) (au_image a) \<and>
        k_node api nodeName w4 = (Some n, w') \<and> node_uid n = r_nodeUID r \<and> \<not> node_deleted n \<and> node_bootID n = boot \<and> ready_last (node_conditions n))"

text \<open>An image that names its content: a repository with a digest, or for a running one the digest alone.\<close>

definition digest_pinned :: "string \<Rightarrow> bool" where
  "digest_pinned s = (\<exists>nm b. nm \<noteq> [] \<and> CHR ''@'' \<notin> set nm \<and> length b = 32 \<and> s = nm @ ''@sha256:'' @ hex_encode b)"

definition runtime_pinned :: "string \<Rightarrow> bool" where
  "runtime_pinned s = (digest_pinned s \<or> (\<exists>b. length b = 32 \<and> s = ''sha256:'' @ hex_encode b))"

lemma Cut_Some: "Cut s sep = Some (a, b) \<Longrightarrow> s = a @ sep @ b"
proof (induction s sep arbitrary: a rule: Cut.induct)
  case (2 c s sep)
  show ?case
  proof (cases "prefix sep (c # s)")
    case True
    with 2 show ?thesis by (auto simp: prefix_def)
  next
    case False
    with 2 show ?thesis by (auto split: option.splits)
  qed
qed (auto split: if_splits)

lemma hexToken_bytes: "hexToken s n \<Longrightarrow> \<exists>b. length b = n \<and> s = hex_encode b"
  by (auto simp: hexToken_def split: option.splits)

lemma pinned_image: "receiptImagePinned s False \<Longrightarrow> digest_pinned s"
proof -
  assume "receiptImagePinned s False"
  then obtain nm d where c: "Cut s ''@sha256:'' = Some (nm, d)" and nm: "nm \<noteq> []" "CHR ''@'' \<notin> set nm" "hexToken d 32"
    by (auto simp: receiptImagePinned_def split: if_splits option.splits)
  from hexToken_bytes [OF nm(3)] obtain b where "length b = 32" "d = hex_encode b" by blast
  with Cut_Some [OF c] nm show ?thesis unfolding digest_pinned_def by blast
qed

lemma pinned_runtime: "receiptImagePinned s True \<Longrightarrow> runtime_pinned s"
proof -
  assume r: "receiptImagePinned s True"
  show ?thesis
  proof (cases "prefix ''sha256:'' s")
    case True
    with r have "hexToken (drop (length ''sha256:'') s) 32" by (auto simp: receiptImagePinned_def TrimPrefix_def split: if_splits)
    from hexToken_bytes [OF this] True show ?thesis by (auto simp: runtime_pinned_def prefix_def)
  next
    case False
    with r have "receiptImagePinned s False" by (auto simp: receiptImagePinned_def split: if_splits)
    then show ?thesis by (simp add: runtime_pinned_def pinned_image)
  qed
qed

lemma image_policy: "is_Inr (ValidateReceiptImagePolicy img rid) \<Longrightarrow> digest_pinned img \<and> runtime_pinned rid"
  by (auto simp: ValidateReceiptImagePolicy_def guard_def is_Inr_def pinned_image pinned_runtime split: if_splits)

lemma claim_sole: "claim_of rv nm \<noteq> [] \<Longrightarrow> sole_claim rv nm (claim_of rv nm)"
  by (auto simp: claim_of_def sole_claim_def split: option.splits list.splits)

lemma condition_ready: "condition_true cs ''Ready'' \<Longrightarrow> ready_last cs"
proof (induction cs rule: rev_induct)
  case (snoc c cs)
  obtain t st where c: "c = (t, st)" by (cases c)
  show ?case
  proof (cases "t = ''Ready''")
    case True
    with snoc.prems c have "cs @ [c] = cs @ (''Ready'', ''True'') # []" by (simp add: condition_true_def)
    then show ?thesis unfolding ready_last_def by (metis empty_iff empty_set image_empty)
  next
    case False
    with snoc c obtain xs ys where "cs = xs @ (''Ready'', ''True'') # ys" "''Ready'' \<notin> fst ` set ys"
      by (auto simp: condition_true_def ready_last_def)
    with False c have "cs @ [c] = xs @ (''Ready'', ''True'') # (ys @ [c]) \<and> ''Ready'' \<notin> fst ` set (ys @ [c])" by auto
    then show ?thesis unfolding ready_last_def by blast
  qed
qed (simp add: condition_true_def)

lemma find_first: "find P xs = Some x \<Longrightarrow> \<exists>as bs. xs = as @ x # bs \<and> P x \<and> (\<forall>y \<in> set as. \<not> P y)"
proof (induction xs)
  case (Cons y ys)
  show ?case
  proof (cases "P y")
    case True
    with Cons.prems have "y # ys = [] @ x # ys \<and> P x \<and> (\<forall>z \<in> set []. \<not> P z)" by simp
    then show ?thesis by blast
  next
    case False
    with Cons obtain as bs where "ys = as @ x # bs" "P x" "\<forall>z \<in> set as. \<not> P z" by auto
    with False have "y # ys = (y # as) @ x # bs \<and> P x \<and> (\<forall>z \<in> set (y # as). \<not> P z)" by simp
    then show ?thesis by blast
  qed
qed simp

lemma entrypoint_admitted: "receiptImageEntrypoint cs nm img \<Longrightarrow> admitted_agent cs nm img"
  unfolding receiptImageEntrypoint_def admitted_agent_def
  by (auto split: option.splits dest!: find_first) (metis imageE)

lemma container_running: "current_container a r ss = Inr () \<Longrightarrow> running_agent ss (au_containerName a) (au_imageID a) r"
  unfolding current_container_def running_agent_def
  by (auto split: option.splits if_splits dest!: find_first) (metis imageE linorder_not_less)

lemma daemon_owner: "owned_by_daemon a p \<Longrightarrow>
    pod_controller p = Some \<lparr>or_apiVersion = ''apps/v1'', or_kind = ''DaemonSet'', or_name = au_daemonSetName a, or_uid = au_daemonSetUID a\<rparr>"
  by (auto simp: owned_by_daemon_def split: option.splits)

lemma Authenticate_Inr:
  assumes "Authenticate a bearer r boot w = (Inr x, w')"
  obtains api podName p n where "au_api a = Some api" "live_evidence api a bearer r boot w w' podName p n"
    "is_Inr (ValidateReceiptImagePolicy (au_image a) (au_imageID a))"
    "x = \<lparr>authenticatedNodeUID = r_nodeUID r, a_receipt = r\<lparr>observedBootID := boot, agentPodName := podName,
       agentPodUID := pod_uid p, agentContainerName := au_containerName a\<rparr>\<rparr>"
proof -
  from assms obtain api rv sa p d n w1 w2 w3 w4 where api: "au_api a = Some api"
    and pol: "is_Inr (ValidateReceiptImagePolicy (au_image a) (au_imageID a))"
    and rv: "k_tokenReview api bearer [au_audience a] w = (Some rv, w1)" "review_ok a rv"
      "tr_username rv = ''system:serviceaccount:'' @ au_namespace a @ '':'' @ au_serviceAccountName a" "tr_uid rv = au_serviceAccountUID a"
    and cl: "claim_of rv ''pod-name'' \<noteq> []" "claim_of rv ''pod-uid'' \<noteq> []" "claim_of rv ''node-name'' \<noteq> []" "claim_of rv ''node-uid'' \<noteq> []"
      "r_nodeUID r = claim_of rv ''node-uid''"
    and sa: "k_serviceAccount api (au_namespace a) (au_serviceAccountName a) w1 = (Some sa, w2)" "sa_uid sa = au_serviceAccountUID a" "\<not> sa_deleted sa"
    and p: "k_pod api (au_namespace a) (claim_of rv ''pod-name'') w2 = (Some p, w3)" "pod_ok a rv p" "owned_by_daemon a p"
    and d: "k_daemonSet api (au_namespace a) (au_daemonSetName a) w3 = (Some d, w4)" "ds_uid d = au_daemonSetUID a" "\<not> ds_deleted d"
      "receiptImageEntrypoint (ds_containers d) (au_containerName a) (au_image a)"
      "receiptImageEntrypoint (pod_containers p) (au_containerName a) (au_image a)"
    and c: "current_container a r (pod_statuses p) = Inr ()" "condition_true (pod_conditions p) ''Ready''"
    and n: "k_node api (claim_of rv ''node-name'') w4 = (Some n, w')" "node_uid n = claim_of rv ''node-uid''" "\<not> node_deleted n"
      "node_bootID n = boot" "condition_true (node_conditions n) ''Ready''"
    and x: "x = \<lparr>authenticatedNodeUID = claim_of rv ''node-uid'', a_receipt = r\<lparr>observedBootID := boot, agentPodName := claim_of rv ''pod-name'',
       agentPodUID := claim_of rv ''pod-uid'', agentContainerName := au_containerName a\<rparr>\<rparr>"
    unfolding Authenticate_def option_case_io if_io_Inl io_bind_Inr read_checked_Inr io_lift_eq by auto
  have pod: "pod_uid p = claim_of rv ''pod-uid''" "pod_evidence a r p (claim_of rv ''node-name'')"
    using p(2) daemon_owner [OF p(3)] entrypoint_admitted [OF d(5)] container_running [OF c(1)] condition_ready [OF c(2)]
    by (simp_all add: pod_ok_def pod_evidence_def)
  have "token_evidence a rv p (claim_of rv ''pod-name'') n (claim_of rv ''node-name'')"
    using rv(2-4) cl claim_sole pod(1) n(2) by (simp add: token_evidence_def review_ok_def)
  then have "live_evidence api a bearer r boot w w' (claim_of rv ''pod-name'') p n"
    unfolding live_evidence_def
    using rv(1) sa p(1) pod(2) d(1-3) entrypoint_admitted [OF d(4)] n cl(5) condition_ready [OF n(5)] by auto
  from that [OF api this pol] show thesis using x pod(1) cl(5) by simp
qed

lemma Authenticate_keeps:
  assumes "Authenticate a bearer r boot w = (Inr x, w')"
  shows "authenticatedNodeUID x = r_nodeUID (a_receipt x)" "rident (a_receipt x) = rident r" "roundHash (a_receipt x) = roundHash r"
    "observedAt (a_receipt x) = observedAt r" "r_fromKey (a_receipt x) = r_fromKey r" "r_toKey (a_receipt x) = r_toKey r"
    "observedBootID (a_receipt x) = boot"
  using assms by (auto elim!: Authenticate_Inr)

lemma authenticate_each_Inr:
  assumes "authenticate_each digest policies ms subs w = (Inr proofs, w')"
  shows "map (rident \<circ> a_receipt) proofs = map (rident \<circ> pr_receipt) subs \<and> distinct (map (rident \<circ> pr_receipt) subs) \<and>
     (\<forall>sub \<in> set subs. rident (pr_receipt sub) \<in> ms \<and> roundHash (pr_receipt sub) = digest) \<and>
     list_all2 (\<lambda>sub proof. \<exists>pol w1 w2. policies (r_nodeUID (pr_receipt sub)) = Some pol \<and>
        Authenticate pol (bearerToken sub) (pr_receipt sub) (bootID sub) w1 = (Inr proof, w2)) subs proofs"
  using assms
proof (induction subs arbitrary: ms w proofs)
  case (Cons sub subs)
  define r where "r = pr_receipt sub"
  from Cons.prems obtain pol pf proofs' w1 where
    pol: "policies (r_nodeUID r) = Some pol" "rident r \<in> ms" "roundHash r = digest"
    and au: "Authenticate pol (bearerToken sub) r (bootID sub) w = (Inr pf, w1)"
    and rest: "authenticate_each digest policies (ms - {rident r}) subs w1 = (Inr proofs', w')"
    and ps: "proofs = pf # proofs'"
    by (auto simp: Let_def r_def split: option.splits prod.splits sum.splits if_splits)
  from Cons.IH [OF rest] pol au ps Authenticate_keeps(2) [OF au] show ?case by (auto simp: r_def)
qed simp

section \<open>What a receipt commit persists\<close>

lemma Advance_event:
  assumes "Advance env rand t now as = Inr j'"
  shows "\<exists>nx. append_event env t \<lparr>e_op = OpAdvance, e_at = now, e_receipts = map a_receipt as, e_next = nx\<rparr> = Inr j' \<and>
     (\<exists>v. View env t = Inr v \<and> Ready env (vw_round v) now as = Inr ())"
proof -
  from assms obtain v where v: "View env t = Inr v" "Ready env (vw_round v) now as = Inr ()" "\<not> vw_complete v"
    by (auto simp: Advance_def res_inv)
  with assms show ?thesis
    by (cases "phase (rspec (vw_round v))") (auto simp: Advance_def Let_def res_inv)
qed

lemma Observe_event:
  assumes "Observe env t now as = Inr j'"
  shows "append_event env t \<lparr>e_op = OpObserve, e_at = now, e_receipts = map a_receipt as, e_next = None\<rparr> = Inr j'"
  using assms by (auto simp: Observe_def res_inv)

lemma Commit_journal:
  assumes "json_faithful env" and "Commit env s previous nxt w = (Inr sn, w')"
  shows "sn_transition sn = nxt"
proof -
  from assms(2) obtain raw updated where raw: "Bytes env nxt = Inr raw" "index (cm_data updated) journalKey = raw"
    and sn: "store_snapshot env s updated = Inr sn"
    unfolding Commit_Inr by auto
  from store_snapshot_valid [OF sn] have "json_journal env raw = Some (sn_transition sn, True)"
    using valid_journal raw by blast
  with Bytes_json [OF assms(1) raw(1)] show ?thesis by simp
qed

lemma commitPodReceipts_Inr:
  assumes "commitPodReceipts env host s expected subs policies adv w = (Inr sn, w')"
  obtains previous v proofs nxt w1 w2 where "Load env s w = (Inr previous, w1)" "snapshot_View env previous = Inr v"
    "Digest env (vw_round v) = Inr expected" "\<not> vw_complete v" "subs \<noteq> []"
    "adv \<longrightarrow> length subs = length (members (rspec (vw_round v)))"
    "authenticate_each expected policies (set (map ident (members (rspec (vw_round v))))) subs w1 = (Inr proofs, w2)"
    "(if adv then Advance env (host_rand host w2) (sn_transition previous) (host_now host w2) proofs
      else Observe env (sn_transition previous) (host_now host w2) proofs) = Inr nxt"
    "Commit env s previous nxt w2 = (Inr sn, w')"
proof -
  from assms obtain previous v w1 where ld: "Load env s w = (Inr previous, w1)" "snapshot_View env previous = Inr v"
    and d: "Digest env (vw_round v) = Inr expected" "\<not> vw_complete v" "subs \<noteq> []"
      "adv \<longrightarrow> length subs = length (members (rspec (vw_round v)))"
    and rest: "io_bind (authenticate_each expected policies (set (map ident (members (rspec (vw_round v))))) subs) (\<lambda>proofs.
       io_bind (\<lambda>w. ((if adv then Advance env (host_rand host w) (sn_transition previous) (host_now host w) proofs
                      else Observe env (sn_transition previous) (host_now host w) proofs), w)) (\<lambda>nxt.
       Commit env s previous nxt)) w1 = (Inr sn, w')"
    unfolding commitPodReceipts_def io_bind_Inr [of "Load env s"] io_bind_Inr [of "io_lift (snapshot_View env x)" for x]
      io_lift_eq Let_def if_io_Inl by blast
  from rest obtain proofs nxt w2 where
    "authenticate_each expected policies (set (map ident (members (rspec (vw_round v))))) subs w1 = (Inr proofs, w2)"
    "(if adv then Advance env (host_rand host w2) (sn_transition previous) (host_now host w2) proofs
      else Observe env (sn_transition previous) (host_now host w2) proofs) = Inr nxt"
    "Commit env s previous nxt w2 = (Inr sn, w')"
    unfolding io_bind_Inr by auto
  with that ld d show thesis by blast
qed

lemma Load_valid: "Load env s w = (Inr sn, w') \<Longrightarrow> valid_snapshot env s sn"
  unfolding Load_Inr using store_snapshot_valid by blast

text \<open>A round's members are complete in a list of receipts when they have the same identities.\<close>

lemma complete_cover:
  assumes "distinct xs" and "set xs \<subseteq> set ys" and "length xs = length ys"
  shows "set xs = set ys"
  using assms by (metis card_length card_seteq distinct_card finite_set)

lemma committed_receipts:
  assumes js: "json_faithful env" and com: "commitPodReceipts env host s expected subs policies adv w = (Inr sn, w')"
  shows "\<exists>t v ev proofs. View env t = Inr v \<and> Digest env (vw_round v) = Inr expected \<and>
     sn_transition sn = t\<lparr>j_events := j_events t @ [ev]\<rparr> \<and> valid_snapshot env s sn \<and>
     e_op ev = (if adv then OpAdvance else OpObserve) \<and> e_receipts ev = map a_receipt proofs \<and>
     list_all2 (\<lambda>sub pf. \<exists>pol w1 w2. policies (r_nodeUID (pr_receipt sub)) = Some pol \<and>
        Authenticate pol (bearerToken sub) (pr_receipt sub) (bootID sub) w1 = (Inr pf, w2)) subs proofs \<and>
     (if adv then rident ` set (e_receipts ev) = ident ` set (members (rspec (vw_round v))) else True)"
  using com
proof (cases rule: commitPodReceipts_Inr)
  case (1 previous v proofs nxt w1 w2)
  define t where "t = sn_transition previous"
  have v: "View env t = Inr v" using 1(2) Load_valid [OF 1(1)] by (simp add: t_def)
  obtain ev where ev: "append_event env t ev = Inr nxt" "e_op ev = (if adv then OpAdvance else OpObserve)"
    "e_receipts ev = map a_receipt proofs"
  proof (cases adv)
    case True
    with 1(8) Advance_event that show thesis by (fastforce simp: t_def)
  next
    case False
    with 1(8) Observe_event that show thesis by (fastforce simp: t_def)
  qed
  note au = authenticate_each_Inr [OF 1(7)]
  have "rident ` set (e_receipts ev) = ident ` set (members (rspec (vw_round v)))" if adv
  proof -
    have "set (map (rident \<circ> pr_receipt) subs) = set (map ident (members (rspec (vw_round v))))"
      using au 1(6) that by (intro complete_cover) auto
    moreover have "rident ` set (e_receipts ev) = set (map (rident \<circ> a_receipt) proofs)"
      by (simp add: ev(3) image_comp comp_def)
    moreover have "map (rident \<circ> a_receipt) proofs = map (rident \<circ> pr_receipt) subs" using au by blast
    ultimately show ?thesis by simp
  qed
  moreover have "sn_transition sn = t\<lparr>j_events := j_events t @ [ev]\<rparr>"
    using Commit_journal [OF js 1(9)] append_event_shape [OF ev(1)] by simp
  moreover have "valid_snapshot env s sn" using 1(9) store_snapshot_valid unfolding Commit_Inr by blast
  ultimately show ?thesis using v 1(3) ev au by (intro exI [of _ t] exI [of _ v] exI [of _ ev] exI [of _ proofs]) auto
qed

end
