(* ===== verification/Receipts.thy ===== *)
theory Receipts
  imports Authentication
begin

text \<open>
  The receipt transport (\<open>controller/pkg/handover/receipt_transport.go\<close>, \<open>receipt_progress.go\<close>,
  \<open>receipt_client.go\<close>, \<open>receipt_timeout.go\<close>): the collector's bounded memory of credentials, the
  sections of \<open>ServeHTTP\<close> that run under its gate, the expiry loop, and the client's retry loop.
  Between two sections of a request the gate may be released and other requests run: the shared
  state is a state machine whose steps are these sections, in any interleaving.
\<close>

section \<open>State\<close>

record batch =
  b_uid :: string
  b_round :: string
  b_expires :: time
  b_maxAge :: duration
  b_entries :: "(string \<times> string, pod_receipt) mapping"

record handler =
  h_limit :: int
  h_batches :: "(string, batch) mapping"
  h_stopped :: bool

record receipt_request =
  rq_machineUID :: string
  rq_roundHash :: string
  rq_receipts :: "pod_receipt list"

text \<open>A collection; its two callbacks report success over a world, \<open>None\<close> when they are nil.\<close>

record 'w receipt_collection =
  rc_uid :: string
  rc_digest :: string
  rc_expiresAt :: time
  rc_maxAge :: duration
  rc_members :: "(string \<times> string) list"
  rc_observe :: "(pod_receipt list \<Rightarrow> 'w \<Rightarrow> bool \<times> 'w) option"
  rc_complete :: "(pod_receipt list \<Rightarrow> 'w \<Rightarrow> bool \<times> 'w) option"
  rc_readOnlyObserve :: bool

definition prune :: "batch \<Rightarrow> time \<Rightarrow> bool \<times> batch" where
  "prune b now =
     (if \<not> now < b_expires b \<or> b_maxAge b \<le> 0 then (False, b\<lparr>b_entries := Mapping.empty\<rparr>)
      else
        (let kept = Mapping.filter (\<lambda>_ e. now < observedAt (pr_receipt e) + b_maxAge b) (b_entries b) in
         (0 < Mapping.size kept, b\<lparr>b_entries := kept\<rparr>)))"

definition prune_all :: "time \<Rightarrow> (string, batch) mapping \<Rightarrow> (string, batch) mapping" where
  "prune_all now bs =
     Mapping.map_values (\<lambda>_ b. snd (prune b now)) (Mapping.filter (\<lambda>_ b. fst (prune b now)) bs)"

definition NewReceiptCollectionHandler :: "bool \<Rightarrow> int \<Rightarrow> nat \<Rightarrow> handler res" where
  "NewReceiptCollectionHandler resolves maxPending reporters =
     (if \<not> resolves \<or> maxPending < 1 \<or> 1 < reporters
        then Inl (Error ''receipt transport requires admission and a positive pending limit'')
      else Inr \<lparr>h_limit = maxPending, h_batches = Mapping.empty, h_stopped = False\<rparr>)"

text \<open>The two cases of the loop of \<open>Run\<close>, each under the gate.\<close>

definition run_tick :: "time \<Rightarrow> handler \<Rightarrow> handler" where
  "run_tick now h = h\<lparr>h_batches := prune_all now (h_batches h)\<rparr>"

definition run_stop :: "handler \<Rightarrow> handler" where
  "run_stop h = h\<lparr>h_batches := Mapping.empty, h_stopped := True\<rparr>"

section \<open>A handover's collection\<close>

definition NewHandoverReceiptCollection ::
  "'a journal_env_scheme \<Rightarrow> 'w host \<Rightarrow> 'w store \<Rightarrow> (string \<rightharpoonup> 'w authenticator) \<Rightarrow> ('w, 'w receipt_collection) io" where
  "NewHandoverReceiptCollection env host s policies =
     io_bind (Load env s) (\<lambda>sn.
     let uid = (case sn_object sn of None \<Rightarrow> [] | Some obj \<Rightarrow> cm_uid obj); st = s\<lparr>s_expectedUID := uid\<rparr> in
     (\<lambda>w. case snapshot_View env sn of
        Inl _ \<Rightarrow> (Inl (Error ''receipt round is not active''), w)
      | Inr v \<Rightarrow>
          if vw_complete v then (Inl (Error ''receipt round is not active''), w)
          else
            (case Digest env (vw_round v) of
               Inl _ \<Rightarrow> (Inl (Error ''receipt round is not current''), w)
             | Inr digest \<Rightarrow>
                 if host_now host w < issuedAt (vw_round v) then (Inl (Error ''receipt round is not current''), w)
                 else
                   (Inr \<lparr>rc_uid = uid, rc_digest = digest, rc_expiresAt = expiresAt (vw_round v),
                         rc_maxAge = maxReceiptAge (vw_round v), rc_members = map ident (members (rspec (vw_round v))),
                         rc_observe = Some (\<lambda>entries w1.
                           case ObserveWithPodReceipts env host st digest entries policies w1 of
                             (Inl _, w2) \<Rightarrow> (False, w2)
                           | (Inr observed, w2) \<Rightarrow>
                               ((case sn_object observed of None \<Rightarrow> [] | Some obj \<Rightarrow> cm_uid obj) = uid, w2)),
                         rc_complete = Some (\<lambda>entries w1.
                           case AdvanceWithPodReceipts env host st digest entries policies w1 of
                             (Inl _, w2) \<Rightarrow> (False, w2)
                           | (Inr _, w2) \<Rightarrow> (True, w2)),
                         rc_readOnlyObserve = False\<rparr>, w))))"

section \<open>ServeHTTP\<close>

text \<open>Responses by their status codes.\<close>

datatype status = UpgradeRequired | MethodNotAllowed | Unauthorized | BadRequest | Conflict | ServiceUnavailable
  | Accepted | NoContent

record http_request =
  q_tls :: bool
  q_method :: string
  q_authorization :: "string list"
  q_body :: string

text \<open>
  The checks before any state is touched. \<open>json_request\<close> is what the strict decoder makes of the
  body: the request, and whether the body ends after it. A body over the limit is never accepted:
  reading past it fails in the first or in the second \<open>Decode\<close>.
\<close>

definition validate_request ::
  "(string \<Rightarrow> (receipt_request \<times> bool) option) \<Rightarrow> http_request \<Rightarrow> status + receipt_request" where
  "validate_request json_request q =
     (if \<not> q_tls q then Inl UpgradeRequired
      else if q_method q \<noteq> ''POST'' then Inl MethodNotAllowed
      else
        (case q_authorization q of
           [auth] \<Rightarrow>
             (let bearer = TrimPrefix auth ''Bearer '' in
              if \<not> prefix ''Bearer '' auth then Inl Unauthorized
              else if bearer = [] \<or> 16384 < length bearer \<or>
                      ContainsAny bearer [CHR '' '', CHR 0x09, CHR 0x0D, CHR 0x0A]
                then Inl Unauthorized
              else if 2 ^ 20 < length (q_body q) then Inl BadRequest
              else
                (case json_request (q_body q) of
                   None \<Rightarrow> Inl BadRequest
                 | Some (rq, eof) \<Rightarrow>
                     if \<not> eof \<or> \<not> token (rq_machineUID rq) \<or> \<not> hexToken (rq_roundHash rq) 32 then Inl BadRequest
                     else
                       (case rq_receipts rq of
                          [] \<Rightarrow> Inl BadRequest
                        | first # _ \<Rightarrow>
                            if list_all (\<lambda>e. r_nodeUID (pr_receipt e) = r_nodeUID (pr_receipt first) \<and>
                                 bootID e = bootID first \<and>
                                 agentContainerID (pr_receipt e) = agentContainerID (pr_receipt first) \<and>
                                 roundHash (pr_receipt e) = rq_roundHash rq) (rq_receipts rq)
                              then Inr (rq\<lparr>rq_receipts := map (\<lambda>e. e\<lparr>bearerToken := bearer\<rparr>) (rq_receipts rq)\<rparr>)
                            else Inl BadRequest)))
         | _ \<Rightarrow> Inl Unauthorized))"

definition entry_id :: "pod_receipt \<Rightarrow> string \<times> string" where
  "entry_id e = rident (pr_receipt e)"

text \<open>The binding and membership checks of an admitted collection against a request.\<close>

definition target_binds :: "time \<Rightarrow> 'w receipt_collection \<Rightarrow> receipt_request \<Rightarrow> bool" where
  "target_binds now tg rq =
     (token (rc_uid tg) \<and> hexToken (rc_digest tg) 32 \<and> rc_digest tg = rq_roundHash rq \<and> now < rc_expiresAt tg \<and>
      0 < rc_maxAge tg \<and> rc_members tg \<noteq> [] \<and> rc_observe tg \<noteq> None \<and> rc_complete tg \<noteq> None)"

definition members_cover :: "'w receipt_collection \<Rightarrow> receipt_request \<Rightarrow> bool" where
  "members_cover tg rq =
     (list_all (\<lambda>m. token (fst m)) (rc_members tg) \<and> distinct (rc_members tg) \<and>
      list_all (\<lambda>e. entry_id e \<in> set (rc_members tg)) (rq_receipts rq) \<and> distinct (map entry_id (rq_receipts rq)))"

definition over_capacity :: "handler \<Rightarrow> string \<Rightarrow> bool" where
  "over_capacity h machine =
     (Mapping.lookup (h_batches h) machine = None \<and> h_limit h \<le> int (Mapping.size (h_batches h)))"

text \<open>The first section under the gate: it returns the batch the request found, if it is admitted.\<close>

definition serve_admit ::
  "time \<Rightarrow> bool \<Rightarrow> 'w receipt_collection \<Rightarrow> receipt_request \<Rightarrow> handler \<Rightarrow> (status + batch option) \<times> handler" where
  "serve_admit now ctxDone tg rq h =
     (if h_stopped h then (Inl ServiceUnavailable, h)
      else
        (let h1 = h\<lparr>h_batches := prune_all now (h_batches h)\<rparr> in
         if ctxDone then (Inl Conflict, h1)
         else if \<not> target_binds now tg rq then (Inl Conflict, h1)
         else if \<not> members_cover tg rq then (Inl Conflict, h1)
         else if over_capacity h1 (rq_machineUID rq) then (Inl ServiceUnavailable, h1)
         else (Inr (Mapping.lookup (h_batches h1) (rq_machineUID rq)), h1)))"

definition same_binding :: "batch option \<Rightarrow> string \<Rightarrow> string \<Rightarrow> bool" where
  "same_binding b uid rnd =
     (case b of None \<Rightarrow> uid = [] \<and> rnd = [] | Some b \<Rightarrow> b_uid b = uid \<and> b_round b = rnd)"

text \<open>The checks after a read-only observation reacquired the gate, at \<open>now\<close>.\<close>

definition serve_recheck ::
  "bool \<Rightarrow> time \<Rightarrow> 'w receipt_collection \<Rightarrow> receipt_request \<Rightarrow> batch option \<Rightarrow> handler \<Rightarrow> status option" where
  "serve_recheck ctxDone now tg rq before h =
     (let current = Mapping.lookup (h_batches h) (rq_machineUID rq) in
      if h_stopped h \<or> ctxDone then Some ServiceUnavailable
      else if over_capacity h (rq_machineUID rq) then Some ServiceUnavailable
      else if (case current of
                 None \<Rightarrow> False
               | Some c \<Rightarrow> \<not> (b_uid c = rc_uid tg \<and> b_round c = rc_digest tg) \<and> \<not> same_binding before (b_uid c) (b_round c))
        then Some Conflict
      else if \<not> now < rc_expiresAt tg then Some Conflict
      else None)"

text \<open>The batch a request continues or opens, with the admitted expiry and age.\<close>

definition current_batch :: "'w receipt_collection \<Rightarrow> receipt_request \<Rightarrow> handler \<Rightarrow> batch" where
  "current_batch tg rq h =
     (let fresh = \<lparr>b_uid = rc_uid tg, b_round = rc_digest tg, b_expires = rc_expiresAt tg, b_maxAge = rc_maxAge tg,
                   b_entries = Mapping.empty\<rparr>;
          b = (case Mapping.lookup (h_batches h) (rq_machineUID rq) of
                 None \<Rightarrow> fresh
               | Some b \<Rightarrow> if b_uid b \<noteq> rc_uid tg \<or> b_round b \<noteq> rc_digest tg then fresh else b) in
      b\<lparr>b_expires := (if \<not> rc_readOnlyObserve tg \<or> b_expires b < rc_expiresAt tg then rc_expiresAt tg else b_expires b),
        b_maxAge := rc_maxAge tg\<rparr>)"

definition add_entry ::
  "bool \<Rightarrow> pod_receipt \<Rightarrow> (string \<times> string, pod_receipt) mapping \<Rightarrow> (string \<times> string, pod_receipt) mapping" where
  "add_entry readOnly e es =
     (case Mapping.lookup es (entry_id e) of
        None \<Rightarrow> Mapping.update (entry_id e) e es
      | Some old \<Rightarrow>
          if readOnly \<and> observedAt (pr_receipt e) < observedAt (pr_receipt old) then es
          else Mapping.update (entry_id e) e es)"

definition entry_fresh :: "time \<Rightarrow> duration \<Rightarrow> pod_receipt \<Rightarrow> bool" where
  "entry_fresh now maxAge e =
     (observedAt (pr_receipt e) \<noteq> 0 \<and> observedAt (pr_receipt e) \<le> now \<and> now < observedAt (pr_receipt e) + maxAge)"

text \<open>
  The section that merges an observed request, at \<open>now\<close>: \<open>Inr None\<close> is an accepted partial batch,
  \<open>Inr (Some all)\<close> the complete batch in the order of the members.
\<close>

definition serve_collect ::
  "time \<Rightarrow> 'w receipt_collection \<Rightarrow> receipt_request \<Rightarrow> handler \<Rightarrow> (status + pod_receipt list option) \<times> handler" where
  "serve_collect now tg rq h =
     (let b = current_batch tg rq h; machine = rq_machineUID rq in
      if \<not> now < b_expires b then (Inl Conflict, h\<lparr>h_batches := Mapping.delete machine (h_batches h)\<rparr>)
      else if rc_readOnlyObserve tg \<and> \<not> list_all (entry_fresh now (rc_maxAge tg)) (rq_receipts rq) then (Inl Conflict, h)
      else
        (let pruned = snd (prune b now);
             merged = pruned\<lparr>b_entries := fold (add_entry (rc_readOnlyObserve tg)) (rq_receipts rq) (b_entries pruned)\<rparr>;
             h1 = h\<lparr>h_batches := Mapping.update machine merged (h_batches h)\<rparr> in
         if Mapping.size (b_entries merged) \<noteq> length (rc_members tg) then (Inr None, h1)
         else
           (Inr (Some (map (\<lambda>m. the (Mapping.lookup (b_entries merged) m)) (rc_members tg))),
            (if rc_readOnlyObserve tg then h1
             else h1\<lparr>h_batches := Mapping.delete machine (h_batches h1)\<rparr>))))"

text \<open>The end of a request whose batch was complete.\<close>

definition serve_finish :: "bool \<Rightarrow> receipt_request \<Rightarrow> handler \<Rightarrow> status \<times> handler" where
  "serve_finish ok rq h =
     (if ok then (NoContent, h\<lparr>h_batches := Mapping.delete (rq_machineUID rq) (h_batches h)\<rparr>) else (Conflict, h))"

text \<open>From an admitted observation to the response: the part of a request under one gate.\<close>

definition serve_rest ::
  "time \<Rightarrow> 'w receipt_collection \<Rightarrow> receipt_request \<Rightarrow> handler \<Rightarrow> 'w \<Rightarrow> status \<times> handler \<times> 'w" where
  "serve_rest now tg rq h w =
     (case serve_collect now tg rq h of
        (Inl st, h1) \<Rightarrow> (st, h1, w)
      | (Inr None, h1) \<Rightarrow> (Accepted, h1, w)
      | (Inr (Some all), h1) \<Rightarrow>
          (case the (rc_complete tg) all w of
             (ok, w1) \<Rightarrow> (case serve_finish ok rq h1 of (st, h2) \<Rightarrow> (st, h2, w1))))"

text \<open>A request of an ordinary collection holds the gate from its admission to its response.\<close>

definition serve_serial ::
  "time \<Rightarrow> bool \<Rightarrow> time \<Rightarrow> 'w receipt_collection \<Rightarrow> receipt_request \<Rightarrow> handler \<Rightarrow> 'w \<Rightarrow> status \<times> handler \<times> 'w" where
  "serve_serial now ctxDone later tg rq h w =
     (case serve_admit now ctxDone tg rq h of
        (Inl st, h1) \<Rightarrow> (st, h1, w)
      | (Inr _, h1) \<Rightarrow>
          (case the (rc_observe tg) (rq_receipts rq) w of
             (False, w1) \<Rightarrow> (Conflict, h1, w1)
           | (True, w1) \<Rightarrow> serve_rest later tg rq h1 w1))"

text \<open>The second section of a read-only request, after its observation succeeded outside the gate.\<close>

definition serve_readonly ::
  "bool \<Rightarrow> time \<Rightarrow> time \<Rightarrow> 'w receipt_collection \<Rightarrow> receipt_request \<Rightarrow> batch option \<Rightarrow> handler \<Rightarrow> 'w \<Rightarrow> status \<times> handler \<times> 'w" where
  "serve_readonly ctxDone now later tg rq before h w =
     (case serve_recheck ctxDone now tg rq before h of
        Some st \<Rightarrow> (st, h, w)
      | None \<Rightarrow> serve_rest later tg rq h w)"

section \<open>Interleavings of the sections\<close>

text \<open>
  The sections that run under the gate, in whatever order requests, ticks and shutdown get it. A
  serial section is a whole request of an ordinary collection; a read-only request has an admission
  section and later, with other sections in between, its collecting section.
\<close>

datatype 'w gate_section =
    Tick time
  | Stop
  | Admit time bool "'w receipt_collection" receipt_request
  | Serial time bool time "'w receipt_collection" receipt_request 'w
  | ReadOnly bool time time "'w receipt_collection" receipt_request "batch option" 'w

fun run_section :: "'w gate_section \<Rightarrow> handler \<Rightarrow> handler" where
  "run_section (Tick now) h = run_tick now h"
| "run_section Stop h = run_stop h"
| "run_section (Admit now d tg rq) h = snd (serve_admit now d tg rq h)"
| "run_section (Serial now d later tg rq w) h = fst (snd (serve_serial now d later tg rq h w))"
| "run_section (ReadOnly d now later tg rq before w) h = fst (snd (serve_readonly d now later tg rq before h w))"

text \<open>What \<open>validate_request\<close> and an earlier admission established for a section.\<close>

definition request_ok :: "receipt_request \<Rightarrow> bool" where
  "request_ok rq = list_all (\<lambda>e. roundHash (pr_receipt e) = rq_roundHash rq) (rq_receipts rq)"

lemma validate_request_ok: "validate_request json q = Inr rq \<Longrightarrow> request_ok rq"
  by (auto simp: validate_request_def request_ok_def Let_def list_all_iff split: list.splits option.splits if_splits)

fun section_ok :: "'w gate_section \<Rightarrow> bool" where
  "section_ok (Serial now d later tg rq w) = (request_ok rq \<and> \<not> rc_readOnlyObserve tg)"
| "section_ok (ReadOnly d now later tg rq before w) = (request_ok rq \<and> rc_readOnlyObserve tg \<and> rc_digest tg = rq_roundHash rq)"
| "section_ok _ = True"

definition gate_step :: "handler \<Rightarrow> 'w gate_section \<Rightarrow> handler res" where
  "gate_step h sec = (if section_ok sec then Inr (run_section sec h) else Inl (Error ''not admitted''))"

definition entries_ok :: "string \<Rightarrow> (string \<times> string, pod_receipt) mapping \<Rightarrow> bool" where
  "entries_ok d es =
     (finite (Mapping.keys es) \<and>
      (\<forall>k e. Mapping.lookup es k = Some e \<longrightarrow> entry_id e = k \<and> roundHash (pr_receipt e) = d))"

definition batch_ok :: "batch \<Rightarrow> bool" where
  "batch_ok b = entries_ok (b_round b) (b_entries b)"

definition handler_inv :: "handler \<Rightarrow> bool" where
  "handler_inv h =
     (finite (Mapping.keys (h_batches h)) \<and> int (Mapping.size (h_batches h)) \<le> h_limit h \<and>
      (h_stopped h \<longrightarrow> Mapping.keys (h_batches h) = {}) \<and>
      (\<forall>m b. Mapping.lookup (h_batches h) m = Some b \<longrightarrow> batch_ok b))"

lemma prune_keeps:
  "b_uid (snd (prune b now)) = b_uid b" "b_round (snd (prune b now)) = b_round b"
  "b_expires (snd (prune b now)) = b_expires b" "b_maxAge (snd (prune b now)) = b_maxAge b"
  by (simp_all add: prune_def Let_def)

lemma prune_lookup:
  "Mapping.lookup (b_entries (snd (prune b now))) k = Some e \<longleftrightarrow>
     Mapping.lookup (b_entries b) k = Some e \<and> now < b_expires b \<and> 0 < b_maxAge b \<and>
     now < observedAt (pr_receipt e) + b_maxAge b"
  by (auto simp: prune_def Let_def lookup_filter split: option.splits)

lemma prune_ok:
  assumes "batch_ok b"
  shows "batch_ok (snd (prune b now))"
proof -
  have "Mapping.keys (b_entries (snd (prune b now))) \<subseteq> Mapping.keys (b_entries b)"
    by (auto simp: prune_def Let_def keys_filter [THEN subsetD])
  then have "finite (Mapping.keys (b_entries (snd (prune b now))))"
    using assms finite_subset by (auto simp: batch_ok_def entries_ok_def)
  with assms show ?thesis by (auto simp: batch_ok_def entries_ok_def prune_lookup prune_keeps)
qed

lemma prune_all_lookup:
  "Mapping.lookup (prune_all now bs) m = Some b \<Longrightarrow>
     \<exists>b0. Mapping.lookup bs m = Some b0 \<and> b = snd (prune b0 now) \<and> fst (prune b0 now)"
  by (auto simp: prune_all_def lookup_map_values lookup_filter split: option.splits if_splits)

lemma prune_all_keys: "Mapping.keys (prune_all now bs) \<subseteq> Mapping.keys bs"
  by (simp add: prune_all_def keys_filter)

lemma handler_inv_prune:
  assumes "handler_inv h"
  shows "handler_inv (h\<lparr>h_batches := prune_all now (h_batches h)\<rparr>)"
proof -
  have fin: "finite (Mapping.keys (prune_all now (h_batches h)))"
    using assms finite_subset [OF prune_all_keys] by (simp add: handler_inv_def)
  moreover have "Mapping.size (prune_all now (h_batches h)) \<le> Mapping.size (h_batches h)"
    using assms by (intro size_mono prune_all_keys) (simp add: handler_inv_def)
  ultimately show ?thesis using assms prune_all_keys [of now "h_batches h"]
    by (auto simp: handler_inv_def dest!: prune_all_lookup intro: prune_ok)
qed

lemma lookup_delete_Some: "Mapping.lookup (Mapping.delete k m) k' = Some v \<longleftrightarrow> k \<noteq> k' \<and> Mapping.lookup m k' = Some v"
  by (cases "k = k'") simp_all

lemma handler_inv_delete: "handler_inv h \<Longrightarrow> handler_inv (h\<lparr>h_batches := Mapping.delete m (h_batches h)\<rparr>)"
  by (auto simp: handler_inv_def size_delete lookup_delete_Some)

lemma handler_inv_stop: "handler_inv h \<Longrightarrow> handler_inv (run_stop h)"
  by (auto simp: handler_inv_def run_stop_def)

lemma serve_admit_inv: "handler_inv h \<Longrightarrow> handler_inv (snd (serve_admit now d tg rq h))"
  using handler_inv_prune by (auto simp: serve_admit_def Let_def)

lemma serve_admit_Inr:
  assumes "serve_admit now d tg rq h = (Inr before, h1)"
  shows "\<not> h_stopped h1" "\<not> over_capacity h1 (rq_machineUID rq)" "target_binds now tg rq" "members_cover tg rq"
  using assms by (auto simp: serve_admit_def Let_def split: if_splits)

lemma add_entry_ok:
  "entries_ok d es \<Longrightarrow> roundHash (pr_receipt e) = d \<Longrightarrow> entries_ok d (add_entry ro e es)"
  by (auto simp: entries_ok_def add_entry_def lookup_update' split: option.splits if_splits)

lemma add_entries_ok:
  "entries_ok d es \<Longrightarrow> list_all (\<lambda>e. roundHash (pr_receipt e) = d) xs \<Longrightarrow> entries_ok d (fold (add_entry ro) xs es)"
  by (induction xs arbitrary: es) (simp_all add: add_entry_ok)

lemma current_batch_ok:
  assumes "handler_inv h"
  shows "batch_ok (current_batch tg rq h) \<and> b_round (current_batch tg rq h) = rc_digest tg \<and> b_uid (current_batch tg rq h) = rc_uid tg"
  using assms by (auto simp: current_batch_def Let_def handler_inv_def batch_ok_def entries_ok_def split: option.splits)

text \<open>The batch a request leaves behind, and that the invariant allows storing it.\<close>

definition merged_batch :: "time \<Rightarrow> 'w receipt_collection \<Rightarrow> receipt_request \<Rightarrow> handler \<Rightarrow> batch" where
  "merged_batch now tg rq h =
     (let pruned = snd (prune (current_batch tg rq h) now) in
      pruned\<lparr>b_entries := fold (add_entry (rc_readOnlyObserve tg)) (rq_receipts rq) (b_entries pruned)\<rparr>)"

lemma merged_batch_ok:
  assumes "handler_inv h" and "request_ok rq" and "rc_digest tg = rq_roundHash rq"
  shows "batch_ok (merged_batch now tg rq h)" "b_round (merged_batch now tg rq h) = rc_digest tg"
proof -
  note c = current_batch_ok [OF assms(1), of tg rq]
  have "entries_ok (rc_digest tg) (b_entries (snd (prune (current_batch tg rq h) now)))"
    using prune_ok [of "current_batch tg rq h" now] c by (auto simp: batch_ok_def prune_keeps)
  then show "batch_ok (merged_batch now tg rq h)" using assms(2,3) c
    by (simp add: merged_batch_def Let_def batch_ok_def prune_keeps add_entries_ok request_ok_def)
  show "b_round (merged_batch now tg rq h) = rc_digest tg" using c by (simp add: merged_batch_def Let_def prune_keeps)
qed

lemma handler_inv_update:
  assumes "handler_inv h" and "batch_ok b" and "\<not> over_capacity h m" and "\<not> h_stopped h"
  shows "handler_inv (h\<lparr>h_batches := Mapping.update m b (h_batches h)\<rparr>)"
proof -
  have "int (Mapping.size (Mapping.update m b (h_batches h))) \<le> h_limit h"
    using assms(1,3) by (auto simp: size_update handler_inv_def over_capacity_def keys_is_none_rep)
  with assms show ?thesis by (auto simp: handler_inv_def lookup_update' split: if_splits)
qed

lemma serve_collect_eq:
  "serve_collect now tg rq h =
     (if \<not> now < b_expires (current_batch tg rq h)
        then (Inl Conflict, h\<lparr>h_batches := Mapping.delete (rq_machineUID rq) (h_batches h)\<rparr>)
      else if rc_readOnlyObserve tg \<and> \<not> list_all (entry_fresh now (rc_maxAge tg)) (rq_receipts rq) then (Inl Conflict, h)
      else
        (let h1 = h\<lparr>h_batches := Mapping.update (rq_machineUID rq) (merged_batch now tg rq h) (h_batches h)\<rparr> in
         if Mapping.size (b_entries (merged_batch now tg rq h)) \<noteq> length (rc_members tg) then (Inr None, h1)
         else
           (Inr (Some (map (\<lambda>m. the (Mapping.lookup (b_entries (merged_batch now tg rq h)) m)) (rc_members tg))),
            if rc_readOnlyObserve tg then h1 else h1\<lparr>h_batches := Mapping.delete (rq_machineUID rq) (h_batches h1)\<rparr>)))"
  unfolding serve_collect_def merged_batch_def Let_def by (rule refl)

lemma serve_collect_cases:
  obtains (expired) "serve_collect now tg rq h = (Inl Conflict, h\<lparr>h_batches := Mapping.delete (rq_machineUID rq) (h_batches h)\<rparr>)"
  | (stale) "serve_collect now tg rq h = (Inl Conflict, h)"
  | (partial) h1 where "h1 = h\<lparr>h_batches := Mapping.update (rq_machineUID rq) (merged_batch now tg rq h) (h_batches h)\<rparr>"
      "serve_collect now tg rq h = (Inr None, h1)"
  | (full) h1 where "h1 = h\<lparr>h_batches := Mapping.update (rq_machineUID rq) (merged_batch now tg rq h) (h_batches h)\<rparr>"
      "Mapping.size (b_entries (merged_batch now tg rq h)) = length (rc_members tg)"
      "serve_collect now tg rq h =
         (Inr (Some (map (\<lambda>m. the (Mapping.lookup (b_entries (merged_batch now tg rq h)) m)) (rc_members tg))),
          if rc_readOnlyObserve tg then h1 else h1\<lparr>h_batches := Mapping.delete (rq_machineUID rq) (h_batches h1)\<rparr>)"
  unfolding serve_collect_eq Let_def
  by (cases "now < b_expires (current_batch tg rq h)";
      cases "rc_readOnlyObserve tg \<and> \<not> list_all (entry_fresh now (rc_maxAge tg)) (rq_receipts rq)";
      cases "Mapping.size (b_entries (merged_batch now tg rq h)) = length (rc_members tg)") auto

lemma serve_collect_inv:
  assumes "handler_inv h" and "request_ok rq" and "rc_digest tg = rq_roundHash rq"
    and "\<not> over_capacity h (rq_machineUID rq)" and "\<not> h_stopped h"
  shows "handler_inv (snd (serve_collect now tg rq h))"
proof (rule serve_collect_cases [of now tg rq h])
  note up = handler_inv_update [OF assms(1) merged_batch_ok(1) [OF assms(1-3)] assms(4,5)]
  show ?thesis if "h1 = h\<lparr>h_batches := Mapping.update (rq_machineUID rq) (merged_batch now tg rq h) (h_batches h)\<rparr>"
    "serve_collect now tg rq h =
         (Inr (Some (map (\<lambda>m. the (Mapping.lookup (b_entries (merged_batch now tg rq h)) m)) (rc_members tg))),
          if rc_readOnlyObserve tg then h1 else h1\<lparr>h_batches := Mapping.delete (rq_machineUID rq) (h_batches h1)\<rparr>)" for h1
    using that up handler_inv_delete [OF up] by simp
qed (use assms(1) handler_inv_delete handler_inv_update [OF assms(1) merged_batch_ok(1) [OF assms(1-3)] assms(4,5)] in auto)

lemma serve_rest_inv:
  assumes "handler_inv (snd (serve_collect now tg rq h))"
  shows "handler_inv (fst (snd (serve_rest now tg rq h w)))"
  using assms handler_inv_delete by (auto simp: serve_rest_def serve_finish_def split: prod.splits sum.splits option.splits)

lemma run_section_inv:
  assumes "handler_inv h" and "section_ok sec"
  shows "handler_inv (run_section sec h)"
proof (cases sec)
  case (Serial now d later tg rq w)
  show ?thesis
  proof (cases "serve_admit now d tg rq h")
    case (Pair r h1)
    have h1: "handler_inv h1" using serve_admit_inv [OF assms(1), of now d tg rq] Pair by simp
    show ?thesis
    proof (cases r)
      case (Inl st)
      with Serial Pair h1 show ?thesis by (simp add: serve_serial_def)
    next
      case (Inr before)
      note ok = serve_admit_Inr [OF Pair [unfolded Inr]]
      have "handler_inv (snd (serve_collect later tg rq h1))"
        using h1 assms(2) Serial ok by (intro serve_collect_inv) (auto simp: target_binds_def)
      from serve_rest_inv [OF this] Inr Serial Pair h1 show ?thesis
        by (auto simp: serve_serial_def split: prod.splits bool.splits)
    qed
  qed
next
  case (ReadOnly d now later tg rq before w)
  show ?thesis
  proof (cases "serve_recheck d now tg rq before h")
    case None
    then have "\<not> h_stopped h" "\<not> over_capacity h (rq_machineUID rq)"
      by (auto simp: serve_recheck_def Let_def split: if_splits)
    with assms ReadOnly have "handler_inv (snd (serve_collect later tg rq h))" by (intro serve_collect_inv) auto
    from serve_rest_inv [OF this] None ReadOnly show ?thesis by (simp add: serve_readonly_def)
  next
    case (Some st)
    with assms ReadOnly show ?thesis by (simp add: serve_readonly_def)
  qed
qed (use assms serve_admit_inv handler_inv_prune handler_inv_stop in \<open>auto simp: run_tick_def\<close>)

text \<open>No section changes the limit, and a stopped collector stays stopped.\<close>

definition handler_rel :: "handler \<Rightarrow> handler \<Rightarrow> bool" where
  "handler_rel h h' = (h_limit h' = h_limit h \<and> (h_stopped h \<longrightarrow> h_stopped h'))"

lemma serve_rest_frame: "handler_rel h (fst (snd (serve_rest now tg rq h w)))"
  by (auto simp: serve_rest_def serve_finish_def serve_collect_def Let_def handler_rel_def
      split: prod.splits sum.splits option.splits if_splits)

lemma serve_admit_frame: "handler_rel h (snd (serve_admit now d tg rq h))"
  by (auto simp: serve_admit_def Let_def handler_rel_def)

lemma handler_rel_trans: "handler_rel a b \<Longrightarrow> handler_rel b c \<Longrightarrow> handler_rel a c"
  by (auto simp: handler_rel_def)

lemma run_section_rel: "handler_rel h (run_section sec h)"
proof (cases sec)
  case (Serial now d later tg rq w)
  then show ?thesis using serve_admit_frame [of h now d tg rq] serve_rest_frame [of "snd (serve_admit now d tg rq h)" later tg rq]
    by (auto simp: serve_serial_def split: prod.splits sum.splits bool.splits intro: handler_rel_trans)
next
  case (ReadOnly d now later tg rq before w)
  then show ?thesis using serve_rest_frame [of h later tg rq w]
    by (auto simp: serve_readonly_def handler_rel_def split: option.splits)
qed (auto simp: run_tick_def run_stop_def handler_rel_def serve_admit_def Let_def)

interpretation gate: guarded_replay gate_step handler_inv handler_rel
proof unfold_locales
  show "handler_rel s s" for s by (simp add: handler_rel_def)
qed (auto simp: gate_step_def run_section_inv run_section_rel split: if_splits intro: handler_rel_trans)

section \<open>Complete batches\<close>

lemma add_entry_lookup:
  "Mapping.lookup (add_entry ro e es) k = Some x \<Longrightarrow> Mapping.lookup es k = Some x \<or> (x = e \<and> k = entry_id e)"
  by (auto simp: add_entry_def lookup_update' split: option.splits if_splits)

lemma add_entries_lookup:
  "Mapping.lookup (fold (add_entry ro) xs es) k = Some x \<Longrightarrow> Mapping.lookup es k = Some x \<or> (x \<in> set xs \<and> k = entry_id x)"
  by (induction xs arbitrary: es) (auto dest: add_entry_lookup)

lemma keys_lookup: "k \<in> Mapping.keys m \<longleftrightarrow> (\<exists>v. Mapping.lookup m k = Some v)"
  by (auto simp: keys_dom_lookup dom_def)

lemma merged_lookup:
  assumes "Mapping.lookup (b_entries (merged_batch now tg rq h)) k = Some e"
  shows "(e \<in> set (rq_receipts rq) \<and> k = entry_id e) \<or>
     (Mapping.lookup (b_entries (current_batch tg rq h)) k = Some e \<and> now < observedAt (pr_receipt e) + rc_maxAge tg)"
proof -
  have "b_maxAge (current_batch tg rq h) = rc_maxAge tg" by (simp add: current_batch_def Let_def)
  moreover have "Mapping.lookup (b_entries (snd (prune (current_batch tg rq h) now))) k = Some e \<or>
      (e \<in> set (rq_receipts rq) \<and> k = entry_id e)"
    using assms by (intro add_entries_lookup) (simp add: merged_batch_def Let_def)
  ultimately show ?thesis by (auto simp: prune_lookup)
qed

text \<open>
  A full batch has an entry for each member: the batch's identities are members, as the collection
  promises for one digest, and there are as many entries as members.
\<close>

lemma full_batch_members:
  assumes inv: "handler_inv h" and rq: "request_ok rq" "rc_digest tg = rq_roundHash rq" and cover: "members_cover tg rq"
    and old: "Mapping.keys (b_entries (current_batch tg rq h)) \<subseteq> set (rc_members tg)"
    and full: "Mapping.size (b_entries (merged_batch now tg rq h)) = length (rc_members tg)"
  shows "Mapping.keys (b_entries (merged_batch now tg rq h)) = set (rc_members tg)"
proof -
  have sub: "Mapping.keys (b_entries (merged_batch now tg rq h)) \<subseteq> set (rc_members tg)"
  proof
    fix k assume "k \<in> Mapping.keys (b_entries (merged_batch now tg rq h))"
    then obtain e where "Mapping.lookup (b_entries (merged_batch now tg rq h)) k = Some e" by (auto simp: keys_lookup)
    from merged_lookup [OF this] show "k \<in> set (rc_members tg)"
      using old cover by (auto simp: keys_lookup members_cover_def list_all_iff)
  qed
  moreover have "card (Mapping.keys (b_entries (merged_batch now tg rq h))) = card (set (rc_members tg))"
    using full cover merged_batch_ok(1) [OF inv rq]
    by (simp add: Mapping.size_def members_cover_def distinct_card batch_ok_def entries_ok_def)
  ultimately show ?thesis by (intro card_subset_eq) auto
qed

section \<open>Progress reports\<close>

text \<open>\<open>fmt\<close>'s \<open>%d\<close> for a length.\<close>

fun decimal :: "nat \<Rightarrow> string" where
  "decimal n = (if n < 10 then [char_of (48 + n)] else decimal (n div 10) @ [char_of (48 + n mod 10)])"

declare decimal.simps [simp del]

record consumer_progress =
  cp_id :: string
  cp_submitted :: bool
  cp_present :: bool
  cp_ageMillis :: int

record receipt_progress =
  rp_collection :: string
  rp_outcome :: string
  rp_required :: nat
  rp_pending :: nat
  rp_consumers :: "consumer_progress list"
  rp_truncated :: bool

definition receiptProgressID :: "'a round_env_scheme \<Rightarrow> string list \<Rightarrow> string" where
  "receiptProgressID env values =
     hex_encode (take 8 (sha256 env (concat (map (\<lambda>v. decimal (length v) @ '':'' @ v) values))))"

text \<open>\<open>Duration.Milliseconds\<close> truncates towards zero.\<close>

definition millis :: "duration \<Rightarrow> int" where
  "millis d = (if 0 \<le> d then d div 1000000 else - ((- d) div 1000000))"

definition consumer :: "'a round_env_scheme \<Rightarrow> batch \<Rightarrow> (string \<times> string) set \<Rightarrow> time \<Rightarrow> string \<times> string \<Rightarrow> consumer_progress" where
  "consumer env b submitted now m =
     \<lparr>cp_id = receiptProgressID env [fst m, snd m], cp_submitted = (m \<in> submitted),
      cp_present = (Mapping.lookup (b_entries b) m \<noteq> None),
      cp_ageMillis = (case Mapping.lookup (b_entries b) m of
         None \<Rightarrow> 0
       | Some e \<Rightarrow> millis (time_sub now (observedAt (pr_receipt e))))\<rparr>"

fun consumers_from :: "'a round_env_scheme \<Rightarrow> batch \<Rightarrow> (string \<times> string) set \<Rightarrow> time \<Rightarrow> nat \<Rightarrow> (string \<times> string) list \<Rightarrow>
    consumer_progress list \<times> bool" where
  "consumers_from env b submitted now i [] = ([], False)"
| "consumers_from env b submitted now i (m # ms) =
     (if i = 16 then ([], True)
      else (case consumers_from env b submitted now (Suc i) ms of (cs, t) \<Rightarrow> (consumer env b submitted now m # cs, t)))"

definition receiptProgress ::
  "'a round_env_scheme \<Rightarrow> 'w receipt_collection \<Rightarrow> batch \<Rightarrow> (string \<times> string) set \<Rightarrow> time \<Rightarrow> receipt_progress" where
  "receiptProgress env tg b submitted now =
     (case consumers_from env b submitted now 0 (rc_members tg) of
        (cs, truncated) \<Rightarrow>
          \<lparr>rp_collection = receiptProgressID env [rc_uid tg, rc_digest tg], rp_outcome = ''accepted'',
           rp_required = length (rc_members tg), rp_pending = Mapping.size (b_entries b),
           rp_consumers = cs, rp_truncated = truncated\<rparr>)"

lemma consumers_from_eq:
  "i \<le> 16 \<Longrightarrow> consumers_from env b submitted now i ms =
     (map (consumer env b submitted now) (take (16 - i) ms), 16 - i < length ms)"
proof (induction ms arbitrary: i)
  case (Cons m ms)
  show ?case
  proof (cases "i = 16")
    case False
    with Cons.prems have "16 - i = Suc (16 - Suc i)" by simp
    with Cons False show ?thesis by auto
  qed simp
qed simp

section \<open>The client\<close>

definition second :: duration where
  "second = 1000000000"

definition ReceiptRequestTimeout :: duration where
  "ReceiptRequestTimeout = 30 * second"

definition ReceiptDeliveryTimeout :: duration where
  "ReceiptDeliveryTimeout = ReceiptRequestTimeout + 10 * second"

definition ReceiptWriteTimeout :: duration where
  "ReceiptWriteTimeout = ReceiptDeliveryTimeout + 10 * second"

definition receiptFailureStage :: "string \<Rightarrow> string" where
  "receiptFailureStage raw =
     (if TrimSuffix raw ''-deadline'' \<in> {''request'', ''contention'', ''shutdown'', ''source'', ''binding'', ''membership'',
           ''capacity'', ''observation'', ''freshness'', ''completion''}
      then raw else ''unknown'')"

record url =
  u_scheme :: string
  u_host :: string
  u_user :: bool
  u_rawQuery :: string
  u_fragment :: string

text \<open>\<open>url.Parse\<close> and \<open>AppendCertsFromPEM\<close> are parameters; the client keeps its endpoint.\<close>

definition NewReceiptClient :: "(string \<Rightarrow> url option) \<Rightarrow> (string \<Rightarrow> bool) \<Rightarrow> string \<Rightarrow> string \<Rightarrow> string res" where
  "NewReceiptClient parse certs endpoint caPEM =
     (case parse endpoint of
        None \<Rightarrow> Inl (Error ''receipt endpoint requires a direct HTTPS URL'')
      | Some u \<Rightarrow>
          if u_scheme u \<noteq> ''https'' \<or> u_host u = [] \<or> u_user u \<or> u_rawQuery u \<noteq> [] \<or> u_fragment u \<noteq> []
            then Inl (Error ''receipt endpoint requires a direct HTTPS URL'')
          else if \<not> certs caPEM then Inl (Error ''receipt endpoint requires a trusted CA'')
          else Inr endpoint)"

text \<open>
  One delivery: how long it took, and its response (status, \<open>Retry-After\<close>, failure stage), \<open>None\<close>
  when the transport failed; and the jitter drawn before the next one. A delivery that outlives the
  deadline fails, and a wait that outlives it ends the loop.
\<close>

record delivery =
  dl_took :: duration
  dl_response :: "(nat \<times> string \<times> string) option"
  dl_jitter :: duration

fun submit_loop :: "nat \<Rightarrow> duration \<Rightarrow> (nat \<Rightarrow> delivery) \<Rightarrow> nat \<Rightarrow> duration \<Rightarrow> (unit res \<times> nat) option" where
  "submit_loop 0 deadline deliver i elapsed = None"
| "submit_loop (Suc n) deadline deliver i elapsed =
     (let d = deliver i; answered = elapsed + dl_took d in
      if deadline \<le> answered then Some (Inl (Error ''receipt delivery failed''), Suc i)
      else
        (case dl_response d of
           None \<Rightarrow> Some (Inl (Error ''receipt delivery failed''), Suc i)
         | Some (code, retryAfter, stage) \<Rightarrow>
             if code = 202 \<or> code = 204 then Some (Inr (), Suc i)
             else if code \<noteq> 503 \<or> retryAfter \<noteq> ''1'' then
               Some (Inl (Error (''receipt controller rejected submission (HTTP '' @ decimal code @ '', stage '' @
                       receiptFailureStage stage @ '')'')), Suc i)
             else if deadline \<le> answered + second + dl_jitter d
               then Some (Inl (Error ''receipt delivery deadline exceeded''), Suc i)
             else submit_loop n deadline deliver (Suc i) (answered + second + dl_jitter d)))"

definition Submit ::
  "nat \<Rightarrow> (receipt_request \<Rightarrow> string option) \<Rightarrow> duration \<Rightarrow> (nat \<Rightarrow> delivery) \<Rightarrow> string \<Rightarrow> receipt_request \<Rightarrow> (unit res \<times> nat) option" where
  "Submit fuel marshal callerDeadline deliver bearer rq =
     (if bearer = [] \<or> 16384 < length bearer \<or> ContainsAny bearer [CHR '' '', CHR 0x09, CHR 0x0D, CHR 0x0A]
        then Some (Inl (Error ''receipt credential is missing or invalid''), 0)
      else
        (case marshal rq of
           None \<Rightarrow> Some (Inl (Error ''receipt request cannot be encoded within the transport limit''), 0)
         | Some body \<Rightarrow>
             if 2 ^ 20 < length body
               then Some (Inl (Error ''receipt request cannot be encoded within the transport limit''), 0)
             else submit_loop fuel (min callerDeadline ReceiptDeliveryTimeout) deliver 0 0))"

lemma submit_loop_bound:
  assumes "\<And>i. 0 \<le> dl_took (deliver i) \<and> 0 \<le> dl_jitter (deliver i)"
    and "deadline \<le> elapsed + int k * second" and "k \<le> n" and "0 < n"
  shows "\<exists>r m. submit_loop n deadline deliver i elapsed = Some (r, m) \<and> m \<le> i + max 1 k"
  using assms(2-4)
proof (induction n arbitrary: k i elapsed)
  case (Suc n)
  define d where "d = deliver i"
  have nn: "0 \<le> dl_took d" "0 \<le> dl_jitter d" using assms(1) by (simp_all add: d_def)
  define next' where "next' = elapsed + dl_took d + second + dl_jitter d"
  show ?case
  proof (cases "deadline \<le> next'")
    case True
    then show ?thesis by (auto simp: Let_def d_def [symmetric] next'_def split: option.splits prod.splits)
  next
    case False
    with Suc.prems nn have k: "2 \<le> k" by (cases k; cases "k - 1") (auto simp: next'_def second_def algebra_simps)
    then have "int (k - 1) * second = int k * second - second" by (simp add: of_nat_diff left_diff_distrib)
    then have "deadline \<le> next' + int (k - 1) * second" using Suc.prems(1) nn by (simp add: next'_def)
    moreover have "k - 1 \<le> n" "0 < n" using Suc.prems(2) k by auto
    ultimately obtain r m where "submit_loop n deadline deliver (Suc i) next' = Some (r, m)" "m \<le> Suc i + max 1 (k - 1)"
      using Suc.IH by blast
    with k show ?thesis by (auto simp: Let_def d_def [symmetric] next'_def split: option.splits prod.splits)
  qed
qed simp

end
