(* ===== verification/Receipt_Properties.thy ===== *)
theory Receipt_Properties
  imports Receipts Sample
begin

text \<open>
  The properties of receipt authentication, of the receipt collector and of its client, each with
  a concrete instance: a cluster of one node, and a collector that waits for its one receipt.
\<close>

section \<open>A concrete cluster\<close>

definition sample_review :: token_review where
  "sample_review =
     \<lparr>tr_authenticated = True, tr_error = [], tr_audiences = [''aud''], tr_username = ''system:serviceaccount:ns:sa'',
      tr_uid = ''sau'',
      tr_extra = [(''authentication.kubernetes.io/pod-name'', [''p'']), (''authentication.kubernetes.io/pod-uid'', [''pu'']),
        (''authentication.kubernetes.io/node-name'', [''nn'']), (''authentication.kubernetes.io/node-uid'', [''n''])]\<rparr>"

definition sample_image :: string where
  "sample_image = ''agent@sha256:'' @ replicate 64 CHR ''0''"

definition sample_container :: container where
  "sample_container = \<lparr>co_name = ''co'', co_image = sample_image, co_command = []\<rparr>"

definition sample_pod :: pod where
  "sample_pod =
     \<lparr>pod_uid = ''pu'', pod_deleted = False, pod_serviceAccount = ''sa'', pod_nodeName = ''nn'', pod_phase = ''Running'',
      pod_controller = Some \<lparr>or_apiVersion = ''apps/v1'', or_kind = ''DaemonSet'', or_name = ''ds'', or_uid = ''dsu''\<rparr>,
      pod_containers = [sample_container],
      pod_statuses = [\<lparr>cs_name = ''co'', cs_imageID = sample_image, cs_ready = True, cs_containerID = ''ci'', cs_runningSince = Some 50\<rparr>],
      pod_conditions = [(''Ready'', ''True'')]\<rparr>"

definition sample_kube :: "objects kube" where
  "sample_kube =
     \<lparr>k_tokenReview = (\<lambda>t a w. (Some sample_review, w)),
      k_serviceAccount = (\<lambda>n s w. (Some \<lparr>sa_uid = ''sau'', sa_deleted = False\<rparr>, w)),
      k_pod = (\<lambda>n s w. (Some sample_pod, w)),
      k_daemonSet = (\<lambda>n s w. (Some \<lparr>ds_uid = ''dsu'', ds_deleted = False, ds_containers = [sample_container]\<rparr>, w)),
      k_node = (\<lambda>n w. (Some \<lparr>node_uid = ''n'', node_deleted = False, node_bootID = ''boot'', node_conditions = [(''Ready'', ''True'')]\<rparr>, w))\<rparr>"

definition sample_authenticator :: "objects authenticator" where
  "sample_authenticator =
     \<lparr>au_api = Some sample_kube, au_audience = ''aud'', au_namespace = ''ns'', au_serviceAccountName = ''sa'',
      au_serviceAccountUID = ''sau'', au_daemonSetName = ''ds'', au_daemonSetUID = ''dsu'', au_containerName = ''co'',
      au_image = sample_image, au_imageID = sample_image\<rparr>"

definition sample_submission :: pod_receipt where
  "sample_submission = \<lparr>bearerToken = ''b'', bootID = ''boot'', pr_receipt = sample_receipt CHR ''0'' 110\<rparr>"

lemma sample_image_ok: "is_Inr (ValidateReceiptImagePolicy sample_image sample_image)"
  by code_simp

lemma sample_claims:
  "claim_of sample_review ''pod-name'' = ''p''" "claim_of sample_review ''pod-uid'' = ''pu''"
  "claim_of sample_review ''node-name'' = ''nn''" "claim_of sample_review ''node-uid'' = ''n''"
  by (simp_all add: claim_of_def sample_review_def)

lemma sample_checks:
  "review_ok sample_authenticator sample_review" "pod_ok sample_authenticator sample_review sample_pod"
  "owned_by_daemon sample_authenticator sample_pod" "policy_complete sample_authenticator"
  "receiptImageEntrypoint [sample_container] ''co'' sample_image"
  "current_container sample_authenticator (sample_receipt CHR ''0'' 110) (pod_statuses sample_pod) = Inr ()"
  "condition_true [(''Ready'', ''True'')] ''Ready''"
  by (simp_all add: review_ok_def pod_ok_def owned_by_daemon_def policy_complete_def receiptImageEntrypoint_def
      current_container_def condition_true_def sample_claims)
     (simp_all add: sample_authenticator_def sample_review_def sample_pod_def sample_container_def sample_receipt_def)

lemma sample_authenticate:
  "Authenticate sample_authenticator ''b'' (sample_receipt CHR ''0'' 110) ''boot'' w = (Inr (sample_proof CHR ''0'' 110), w)"
proof -
  have f: "au_api sample_authenticator = Some sample_kube" "au_image sample_authenticator = sample_image"
    "au_imageID sample_authenticator = sample_image" "au_containerName sample_authenticator = ''co''"
    "au_namespace sample_authenticator = ''ns''" "au_serviceAccountName sample_authenticator = ''sa''"
    "au_serviceAccountUID sample_authenticator = ''sau''" "au_daemonSetUID sample_authenticator = ''dsu''"
    by (simp_all add: sample_authenticator_def)
  have g: "tr_username sample_review = ''system:serviceaccount:ns:sa''" "tr_uid sample_review = ''sau''"
    "pod_containers sample_pod = [sample_container]" "pod_conditions sample_pod = [(''Ready'', ''True'')]"
    "r_nodeUID (sample_receipt CHR ''0'' 110) = ''n''"
    by (simp_all add: sample_review_def sample_pod_def sample_receipt_def)
  show ?thesis
    unfolding Authenticate_def f(1) option.case
    by (simp add: f g sample_checks sample_claims sample_image_ok read_checked_def io_bind_def io_lift_def sample_kube_def)
       (simp add: sample_proof_def sample_receipt_def)
qed

section \<open>Authentication\<close>

text \<open>C16: an authenticated receipt is backed by objects read from the API, one after the other: an authenticated token for the configured
  audience, of the configured ServiceAccount by name and UID, bound to one pod and one node; the ServiceAccount, not deleted; the pod of that name and UID,
  running and ready on that node under that ServiceAccount, owned by the configured daemon, with the admitted image, no command of its own and
  the admitted image running in the container the receipt names since before the observation; the daemon, not deleted, with the admitted
  image in its template; and the ready node, with the UID the receipt claims and the boot of the submission. The image policy pins digests.
  The authentication adds the agent's identity and changes nothing else of the receipt.\<close>

theorem authentication_sound:
  assumes "Authenticate a bearer r boot w = (Inr x, w')"
  shows "\<exists>api podName p n. au_api a = Some api \<and> live_evidence api a bearer r boot w w' podName p n \<and>
     digest_pinned (au_image a) \<and> runtime_pinned (au_imageID a) \<and> authenticatedNodeUID x = node_uid n \<and>
     a_receipt x = r\<lparr>observedBootID := node_bootID n, agentPodName := podName, agentPodUID := pod_uid p, agentContainerName := au_containerName a\<rparr>"
proof -
  from assms obtain api podName p n where e: "au_api a = Some api" "live_evidence api a bearer r boot w w' podName p n"
    "is_Inr (ValidateReceiptImagePolicy (au_image a) (au_imageID a))"
    and x: "x = \<lparr>authenticatedNodeUID = r_nodeUID r, a_receipt = r\<lparr>observedBootID := boot, agentPodName := podName,
       agentPodUID := pod_uid p, agentContainerName := au_containerName a\<rparr>\<rparr>" by (rule Authenticate_Inr)
  have "node_uid n = r_nodeUID r" "node_bootID n = boot" using e(2) by (auto simp: live_evidence_def)
  with e x image_policy [OF e(3)] show ?thesis by (intro exI [of _ api] exI [of _ podName] exI [of _ p] exI [of _ n]) simp
qed

theorem authentication_sound_witness:
  "\<exists>api podName p n. au_api sample_authenticator = Some api \<and>
     live_evidence api sample_authenticator ''b'' (sample_receipt CHR ''0'' 110) ''boot'' (\<lambda>_. None) (\<lambda>_. None) podName p n \<and>
     authenticatedNodeUID (sample_proof CHR ''0'' 110) = node_uid n"
  using authentication_sound [OF sample_authenticate [of "\<lambda>_. None"]] by blast

text \<open>C17: a journal event committed from submitted receipts holds exactly authenticated receipts: it
  extends the loaded journal of the targeted round by one event, each of its receipts was
  authenticated by the policy of its node, and an advance has one of every member.\<close>

theorem commits_only_authenticated:
  assumes "json_faithful env" and "commitPodReceipts env host s expected subs policies adv w = (Inr sn, w')"
  shows "\<exists>t v ev proofs. View env t = Inr v \<and> Digest env (vw_round v) = Inr expected \<and>
     sn_transition sn = t\<lparr>j_events := j_events t @ [ev]\<rparr> \<and> valid_snapshot env s sn \<and>
     e_op ev = (if adv then OpAdvance else OpObserve) \<and> e_receipts ev = map a_receipt proofs \<and>
     list_all2 (\<lambda>sub pf. \<exists>pol w1 w2. policies (r_nodeUID (pr_receipt sub)) = Some pol \<and>
        Authenticate pol (bearerToken sub) (pr_receipt sub) (bootID sub) w1 = (Inr pf, w2)) subs proofs \<and>
     (if adv then rident ` set (e_receipts ev) = ident ` set (members (rspec (vw_round v))) else True)"
  using assms by (rule committed_receipts)

definition sample_host :: "objects host" where
  "sample_host = \<lparr>host_now = (\<lambda>w. 110), host_rand = (\<lambda>w. Some (replicate 16 CHR 0x11))\<rparr>"

lemma sample_digest: "Digest sample_env (sample_round Prepare CHR ''0'' 100) = Inr (hex_encode (replicate 32 CHR ''0''))"
  by code_simp

lemma sample_advance_first:
  "Advance sample_env (Some (replicate 16 CHR 0x11)) (sample_journal []) 110 [sample_proof CHR ''0'' 110] =
     Inr (sample_journal sample_first)"
  by code_simp

lemma sample_commit_receipts:
  "commitPodReceipts sample_env sample_host sample_store (hex_encode (replicate 32 CHR ''0'')) [sample_submission]
     [''n'' \<mapsto> sample_authenticator] True (sample_world 0) =
   (Inr (sample_snapshot (sample_journal sample_first) sample_committed sample_middle), [''j'' \<mapsto> sample_committed])"
proof -
  define sn0 where "sn0 = sample_snapshot (sample_journal []) (sample_object 0) sample_start"
  have 0: "store_snapshot sample_env sample_store (sample_object 0) = Inr sn0"
    using valid_store_snapshot [OF sample_valid(1)] by (simp add: sn0_def sample_snapshot_def)
  have ld: "Load sample_env sample_store (sample_world 0) = (Inr sn0, sample_world 0)"
    unfolding Load_Inr using sample_configured 0
    by (intro exI [of _ sample_api] exI [of _ "sample_object 0"]) (simp add: sample_store_def sample_api_def sample_world_def)
  have v: "snapshot_View sample_env sn0 = Inr sample_start" "sn_transition sn0 = sample_journal []"
    by (simp_all add: sn0_def sample_snapshot_def snapshot_View_def)
  have h: "hex_encode (replicate 32 CHR ''0'') \<noteq> []" by code_simp
  have rnd: "vw_round sample_start = sample_round Prepare CHR ''0'' 100" "\<not> vw_complete sample_start" by (simp_all add: sample_start_def)
  have ms: "members (rspec (sample_round Prepare CHR ''0'' 100)) = [sample_member]" "ident sample_member = (''n'', [])"
    by (simp_all add: sample_round_def sample_spec_def sample_member_def)
  have sub: "pr_receipt sample_submission = sample_receipt CHR ''0'' 110" "bearerToken sample_submission = ''b''" "bootID sample_submission = ''boot''"
    by (simp_all add: sample_submission_def)
  have rc: "rident (sample_receipt CHR ''0'' 110) = (''n'', [])" "roundHash (sample_receipt CHR ''0'' 110) = hex_encode (replicate 32 CHR ''0'')"
    by (simp_all add: sample_receipt_def)
  have au: "authenticate_each (hex_encode (replicate 32 CHR ''0'')) [''n'' \<mapsto> sample_authenticator] {(''n'', [])} [sample_submission] w =
      (Inr [sample_proof CHR ''0'' 110], w)" for w
    using rc by (simp add: sub Let_def sample_authenticate)
  show ?thesis
    unfolding commitPodReceipts_def io_bind_def [of "Load sample_env sample_store"] ld
    by (simp add: io_bind_def io_lift_def v rnd sample_digest h ms au sample_host_def sample_advance_first
        sample_commit [folded sn0_def] Let_def del: authenticate_each.simps)
qed

theorem commits_only_authenticated_witness:
  "\<exists>t ev. sample_journal sample_first = t\<lparr>j_events := j_events t @ [ev]\<rparr> \<and> e_op ev = OpAdvance"
  using commits_only_authenticated [OF sample_json sample_commit_receipts] by (auto simp: sample_snapshot_def)

section \<open>The collector\<close>

text \<open>C18: in every interleaving of requests, expiry ticks and shutdown, the collector holds at most as
  many batches as its limit, holds nothing after it stopped, and files every retained receipt under
  its own identity in a batch of the round it names.\<close>

theorem collector_bounded:
  assumes "NewReceiptCollectionHandler resolves maxPending reporters = Inr h0" and "res_fold gate_step h0 secs = Inr h"
  shows "int (Mapping.size (h_batches h)) \<le> maxPending \<and> (h_stopped h \<longrightarrow> Mapping.keys (h_batches h) = {}) \<and>
     (\<forall>m b k e. Mapping.lookup (h_batches h) m = Some b \<longrightarrow> Mapping.lookup (b_entries b) k = Some e \<longrightarrow>
        entry_id e = k \<and> roundHash (pr_receipt e) = b_round b)"
proof -
  have h0: "handler_inv h0" "h_limit h0 = maxPending"
    using assms(1) by (auto simp: NewReceiptCollectionHandler_def handler_inv_def split: if_splits)
  have "handler_inv h" "handler_rel h0 h"
    using gate.replay_inv [OF h0(1) assms(2)] gate.replay_rel [OF h0(1) assms(2)] by simp_all
  with h0(2) show ?thesis by (auto simp: handler_inv_def handler_rel_def batch_ok_def entries_ok_def)
qed

definition sample_digest_hex :: string where
  "sample_digest_hex = hex_encode (replicate 32 CHR ''0'')"

definition sample_collection :: "bool \<Rightarrow> unit receipt_collection" where
  "sample_collection ok =
     \<lparr>rc_uid = ''u'', rc_digest = sample_digest_hex, rc_expiresAt = 1100, rc_maxAge = 500, rc_members = [(''n'', [])],
      rc_observe = Some (\<lambda>es w. (True, w)), rc_complete = Some (\<lambda>es w. (ok, w)), rc_readOnlyObserve = False\<rparr>"

definition sample_request :: receipt_request where
  "sample_request = \<lparr>rq_machineUID = ''m'', rq_roundHash = sample_digest_hex, rq_receipts = [sample_submission]\<rparr>"

definition sample_handler :: handler where
  "sample_handler = \<lparr>h_limit = 1, h_batches = Mapping.empty, h_stopped = False\<rparr>"

lemma sample_request_ok: "request_ok sample_request"
  by code_simp

theorem collector_bounded_witness:
  "int (Mapping.size (h_batches (run_section (Serial 105 False 111 (sample_collection True) sample_request ()) sample_handler))) \<le> 1"
proof -
  have new: "NewReceiptCollectionHandler True 1 0 = Inr sample_handler"
    by (simp add: NewReceiptCollectionHandler_def sample_handler_def)
  have "res_fold gate_step sample_handler [Serial 105 False 111 (sample_collection True) sample_request ()] =
      Inr (run_section (Serial 105 False 111 (sample_collection True) sample_request ()) sample_handler)"
    by (simp add: gate_step_def sample_request_ok sample_collection_def)
  from collector_bounded [OF new this] show ?thesis by blast
qed

text \<open>When a request completes a batch, the receipts passed on are one of each member in the
  members' order, all of the admitted round, each either of this request or retained and younger
  than the admitted age. Members do not change for a digest, as collections promise.\<close>

theorem complete_batch_covers:
  assumes "handler_inv h" and "request_ok rq" and "target_binds t0 tg rq" and "members_cover tg rq"
    and "Mapping.keys (b_entries (current_batch tg rq h)) \<subseteq> set (rc_members tg)"
    and "serve_collect now tg rq h = (Inr (Some all), h')"
  shows "map entry_id all = rc_members tg \<and>
     (\<forall>e \<in> set all. roundHash (pr_receipt e) = rc_digest tg \<and>
        (e \<in> set (rq_receipts rq) \<or> now < observedAt (pr_receipt e) + rc_maxAge tg))"
proof -
  let ?es = "b_entries (merged_batch now tg rq h)"
  have dg: "rc_digest tg = rq_roundHash rq" using assms(3) by (simp add: target_binds_def)
  from assms(6) have all: "all = map (\<lambda>m. the (Mapping.lookup ?es m)) (rc_members tg)"
    and full: "Mapping.size ?es = length (rc_members tg)"
    by (auto simp: serve_collect_eq Let_def split: if_splits)
  have keys: "Mapping.keys ?es = set (rc_members tg)"
    using full_batch_members [OF assms(1,2) dg assms(4,5) full] .
  have ok: "entries_ok (rc_digest tg) ?es"
    using merged_batch_ok [OF assms(1,2) dg, of now] by (simp add: batch_ok_def)
  have each: "entry_id e = m \<and> roundHash (pr_receipt e) = rc_digest tg \<and>
      (e \<in> set (rq_receipts rq) \<or> now < observedAt (pr_receipt e) + rc_maxAge tg)"
    if "m \<in> set (rc_members tg)" "e = the (Mapping.lookup ?es m)" for m e
  proof -
    have e: "Mapping.lookup ?es m = Some e" using that keys by (force simp: keys_lookup)
    then have "entry_id e = m \<and> roundHash (pr_receipt e) = rc_digest tg" using ok unfolding entries_ok_def by blast
    with merged_lookup [OF e] show ?thesis by auto
  qed
  have "map entry_id all = rc_members tg" unfolding all map_map by (rule map_idI) (simp add: each)
  with each show ?thesis by (auto simp: all)
qed

theorem complete_batch_covers_witness:
  "map entry_id [sample_submission] = [(''n'', [])] \<and> roundHash (pr_receipt sample_submission) = sample_digest_hex"
proof -
  have inv: "handler_inv sample_handler" by (simp add: handler_inv_def sample_handler_def)
  have col: "fst (serve_collect 111 (sample_collection True) sample_request sample_handler) = Inr (Some [sample_submission])"
    by code_simp
  have cur: "Mapping.keys (b_entries (current_batch (sample_collection True) sample_request sample_handler)) \<subseteq> set (rc_members (sample_collection True))"
    by (simp add: current_batch_def sample_handler_def)
  have b: "target_binds 105 (sample_collection True) sample_request" by code_simp
  have c: "members_cover (sample_collection True) sample_request" by code_simp
  have "serve_collect 111 (sample_collection True) sample_request sample_handler =
      (Inr (Some [sample_submission]), snd (serve_collect 111 (sample_collection True) sample_request sample_handler))"
    using col by (simp add: prod_eq_iff)
  from complete_batch_covers [OF inv sample_request_ok b c cur this] show ?thesis by (simp add: sample_collection_def)
qed

text \<open>A request changes no machine's batch but its own, except that expired receipts are dropped;
  so a rejected or stale submission cannot reset what others have collected.\<close>

theorem request_keeps_others:
  assumes "m \<noteq> rq_machineUID rq"
  shows "Mapping.lookup (h_batches (fst (snd (serve_serial now d later tg rq h w)))) m \<in>
      {Mapping.lookup (h_batches h) m, Mapping.lookup (prune_all now (h_batches h)) m} \<and>
     Mapping.lookup (h_batches (fst (snd (serve_readonly d now later tg rq before h w)))) m = Mapping.lookup (h_batches h) m"
proof -
  have rest: "Mapping.lookup (h_batches (fst (snd (serve_rest t tg rq g x)))) m = Mapping.lookup (h_batches g) m" for t g x
    using assms by (auto simp: serve_rest_def serve_finish_def serve_collect_def Let_def
        split: prod.splits sum.splits option.splits if_splits)
  have adm: "h_batches (snd (serve_admit now d tg rq h)) \<in> {h_batches h, prune_all now (h_batches h)}"
    by (auto simp: serve_admit_def Let_def)
  show ?thesis using adm rest
    by (auto simp: serve_serial_def serve_readonly_def split: prod.splits sum.splits bool.splits option.splits)
qed

theorem request_keeps_others_witness:
  "Mapping.lookup (h_batches (fst (snd (serve_readonly False 105 111 (sample_collection True) sample_request None sample_handler ())))) ''x''
     = Mapping.lookup (h_batches sample_handler) ''x''"
  by (rule request_keeps_others [THEN conjunct2]) (simp add: sample_request_def)

text \<open>An expiry tick leaves no credential past its observation deadline or its round's expiry,
  and drops no other.\<close>

theorem tick_drops_exactly_expired:
  assumes "handler_inv h"
  shows "(\<exists>b. Mapping.lookup (h_batches (run_tick now h)) m = Some b \<and> Mapping.lookup (b_entries b) k = Some e) \<longleftrightarrow>
   (\<exists>b. Mapping.lookup (h_batches h) m = Some b \<and> Mapping.lookup (b_entries b) k = Some e \<and>
      now < b_expires b \<and> 0 < b_maxAge b \<and> now < observedAt (pr_receipt e) + b_maxAge b)"
  (is "?L \<longleftrightarrow> ?R")
proof
  assume ?L
  then obtain b where b: "Mapping.lookup (prune_all now (h_batches h)) m = Some b" "Mapping.lookup (b_entries b) k = Some e"
    by (auto simp: run_tick_def)
  from prune_all_lookup [OF b(1)] obtain b0 where "Mapping.lookup (h_batches h) m = Some b0" "b = snd (prune b0 now)" by blast
  with b(2) show ?R by (auto simp: prune_lookup)
next
  assume ?R
  then obtain b where b: "Mapping.lookup (h_batches h) m = Some b"
    and e: "Mapping.lookup (b_entries (snd (prune b now))) k = Some e" by (auto simp: prune_lookup)
  have "batch_ok (snd (prune b now))" using assms b by (auto simp: handler_inv_def intro: prune_ok)
  then have "finite (Mapping.keys (b_entries (snd (prune b now))))" by (simp add: batch_ok_def entries_ok_def)
  moreover have "k \<in> Mapping.keys (b_entries (snd (prune b now)))" using e by (simp add: keys_is_none_rep)
  ultimately have "0 < Mapping.size (b_entries (snd (prune b now)))" by (auto simp: Mapping.size_def card_gt_0_iff)
  then have "fst (prune b now)" by (auto simp: prune_def Let_def Mapping.size_def split: if_splits)
  with b e show ?L by (auto simp: run_tick_def prune_all_def lookup_map_values lookup_filter)
qed

definition sample_loaded :: handler where
  "sample_loaded = \<lparr>h_limit = 1, h_batches = Mapping.update ''m''
     \<lparr>b_uid = ''u'', b_round = sample_digest_hex, b_expires = 1100, b_maxAge = 500,
      b_entries = Mapping.update (''n'', []) sample_submission Mapping.empty\<rparr> Mapping.empty, h_stopped = False\<rparr>"

theorem tick_drops_exactly_expired_witness:
  "(\<exists>b. Mapping.lookup (h_batches (run_tick 600 sample_loaded)) ''m'' = Some b \<and> Mapping.lookup (b_entries b) (''n'', []) = Some sample_submission) \<and>
   \<not> (\<exists>b. Mapping.lookup (h_batches (run_tick 610 sample_loaded)) ''m'' = Some b \<and> Mapping.lookup (b_entries b) (''n'', []) = Some sample_submission)"
proof -
  have id: "entry_id sample_submission = (''n'', [])" "roundHash (pr_receipt sample_submission) = sample_digest_hex"
    "observedAt (pr_receipt sample_submission) = 110" by code_simp+
  then have inv: "handler_inv sample_loaded"
    by (auto simp: handler_inv_def sample_loaded_def batch_ok_def entries_ok_def lookup_update' size_update split: if_splits)
  show ?thesis unfolding tick_drops_exactly_expired [OF inv] by (simp add: sample_loaded_def id(3))
qed

text \<open>The client's retry loop ends: with one unit of fuel per second of its delivery timeout it
  returns, after at most that many deliveries.\<close>

theorem submit_terminates:
  assumes "\<And>i. 0 \<le> dl_took (deliver i) \<and> 0 \<le> dl_jitter (deliver i)"
  shows "\<exists>r m. Submit 40 marshal callerDeadline deliver bearer rq = Some (r, m) \<and> m \<le> 40"
proof -
  have "min callerDeadline ReceiptDeliveryTimeout \<le> 0 + int 40 * second"
    by (simp add: ReceiptDeliveryTimeout_def ReceiptRequestTimeout_def second_def)
  from submit_loop_bound [where deliver = deliver, OF assms this, where n = 40 and i = 0]
  have "\<exists>r m. submit_loop 40 (min callerDeadline ReceiptDeliveryTimeout) deliver 0 0 = Some (r, m) \<and> m \<le> 40" by simp
  then show ?thesis by (auto simp: Submit_def split: option.splits)
qed

theorem submit_terminates_witness:
  "\<exists>r m. Submit 40 (\<lambda>r. Some ''{}'') 100 (\<lambda>i. \<lparr>dl_took = 1, dl_response = Some (503, ''1'', ''contention''), dl_jitter = 0\<rparr>) ''b''
     sample_request = Some (r, m) \<and> m \<le> 40"
  by (rule submit_terminates) simp

end
