(* ===== verification/Netip.thy ===== *)
theory Netip
  imports Prelude "HOL-Library.Word"
begin

text \<open>
  What the tunnel package uses of \<open>net/netip\<close>, \<open>net\<close>, \<open>encoding/base64\<close> and \<open>strings\<close>: addresses and prefixes
  with their parsers, printers and tests, the canonical standard encoding of a key, and list splitting.
  Addresses are machine words of their families' widths.
\<close>

unbundle bit_operations_syntax

section \<open>Splitting strings\<close>

text \<open>\<open>strings.Split\<close> at one byte; \<open>strings.SplitN(s, sep, 2)[0]\<close>; the last index of a byte.\<close>

fun split_on :: "char \<Rightarrow> string \<Rightarrow> string list" where
  "split_on c [] = [[]]"
| "split_on c (x # s) =
     (if x = c then [] # split_on c s
      else (case split_on c s of [] \<Rightarrow> [[x]] | p # ps \<Rightarrow> (x # p) # ps))"

definition before :: "char \<Rightarrow> string \<Rightarrow> string" where
  "before c s = takeWhile (\<lambda>x. x \<noteq> c) s"

definition split_last :: "char \<Rightarrow> string \<Rightarrow> (string \<times> string) option" where
  "split_last c s =
     (if c \<in> set s
        then Some (rev (tl (dropWhile (\<lambda>x. x \<noteq> c) (rev s))), rev (takeWhile (\<lambda>x. x \<noteq> c) (rev s)))
      else None)"

text \<open>Decimal numbers: digits only, with a bound; \<open>strict\<close> refuses a leading zero.\<close>

definition digit :: "char \<Rightarrow> int option" where
  "digit c = (let n = of_char c :: int in if 48 \<le> n \<and> n \<le> 57 then Some (n - 48) else None)"

fun digits :: "int \<Rightarrow> string \<Rightarrow> int option" where
  "digits acc [] = Some acc"
| "digits acc (c # s) = (case digit c of None \<Rightarrow> None | Some d \<Rightarrow> digits (10 * acc + d) s)"

definition number :: "bool \<Rightarrow> int \<Rightarrow> string \<Rightarrow> int option" where
  "number strict bound s =
     (if s = [] \<or> (strict \<and> 1 < length s \<and> hd s = CHR ''0'') then None
      else (case digits 0 s of None \<Rightarrow> None | Some n \<Rightarrow> if n \<le> bound then Some n else None))"

function show_nat :: "int \<Rightarrow> string" where
  "show_nat n = (if n < 10 then [char_of (48 + n)] else show_nat (n div 10) @ [char_of (48 + n mod 10)])"

  by pat_completeness auto
termination by (relation "measure nat") auto

declare show_nat.simps [simp del]

section \<open>Addresses\<close>

text \<open>\<open>NoAddr\<close> is the zero \<open>netip.Addr\<close>; an IPv6 address has a zone, usually empty.\<close>

datatype addr = NoAddr | V4 "32 word" | V6 "128 word" string

fun BitLen :: "addr \<Rightarrow> int" where
  "BitLen NoAddr = 0" | "BitLen (V4 _) = 32" | "BitLen (V6 _ _) = 128"

fun Is4 :: "addr \<Rightarrow> bool" where
  "Is4 (V4 _) = True" | "Is4 _ = False"

fun Is6 :: "addr \<Rightarrow> bool" where
  "Is6 (V6 _ _) = True" | "Is6 _ = False"

fun Is4In6 :: "addr \<Rightarrow> bool" where
  "Is4In6 (V6 w _) = (drop_bit 32 w = 0xffff)" | "Is4In6 _ = False"

fun Zone :: "addr \<Rightarrow> string" where
  "Zone (V6 _ z) = z" | "Zone _ = []"

fun Unmap :: "addr \<Rightarrow> addr" where
  "Unmap (V6 w z) = (if drop_bit 32 w = 0xffff then V4 (ucast w) else V6 w z)" | "Unmap a = a"

fun As16 :: "addr \<Rightarrow> 128 word" where
  "As16 (V4 w) = 0xffff00000000 OR ucast w" | "As16 (V6 w _) = w" | "As16 NoAddr = 0"

fun IsLoopback :: "addr \<Rightarrow> bool" where
  "IsLoopback (V4 w) = (drop_bit 24 w = 127)" | "IsLoopback (V6 w _) = (w = 1)" | "IsLoopback NoAddr = False"

fun IsMulticast :: "addr \<Rightarrow> bool" where
  "IsMulticast (V4 w) = (drop_bit 28 w = 14)" | "IsMulticast (V6 w _) = (drop_bit 120 w = 255)" | "IsMulticast NoAddr = False"

fun IsLinkLocalUnicast :: "addr \<Rightarrow> bool" where
  "IsLinkLocalUnicast (V4 w) = (drop_bit 16 w = 0xa9fe)" | "IsLinkLocalUnicast (V6 w _) = (drop_bit 118 w = 0x3fa)"
| "IsLinkLocalUnicast NoAddr = False"

definition IsGlobalUnicast :: "addr \<Rightarrow> bool" where
  "IsGlobalUnicast a =
     (a \<noteq> NoAddr \<and> a \<noteq> V4 0 \<and> a \<noteq> V4 0xffffffff \<and> a \<noteq> V6 0 [] \<and>
      \<not> IsLoopback (Unmap a) \<and> \<not> IsMulticast (Unmap a) \<and> \<not> IsLinkLocalUnicast (Unmap a))"

section \<open>Parsing addresses\<close>

text \<open>The fields of a word from its bytes or 16-bit groups, most significant first.\<close>

definition parse_v4 :: "string \<Rightarrow> (32 word) option" where
  "parse_v4 s =
     (case map (number True 255) (split_on CHR ''.'' s) of
        [Some a, Some b, Some c, Some d] \<Rightarrow> Some (word_of_int (((a * 256 + b) * 256 + c) * 256 + d))
      | _ \<Rightarrow> None)"

text \<open>
  The loop of \<open>parseIPv6\<close>: at most eight rounds, each reading one group or the trailing IPv4 part;
  \<open>gs\<close> are the groups so far and \<open>el\<close> the position of the ellipsis.
\<close>

fun hex_number :: "int \<Rightarrow> string \<Rightarrow> int" where
  "hex_number acc [] = acc"
| "hex_number acc (c # s) = hex_number (16 * acc + (case hex_value c of None \<Rightarrow> 0 | Some d \<Rightarrow> int d)) s"

definition is_hex :: "char \<Rightarrow> bool" where
  "is_hex c = (hex_value c \<noteq> None)"

fun groups_v6 :: "nat \<Rightarrow> string \<Rightarrow> int list \<Rightarrow> nat option \<Rightarrow> (int list \<times> nat option \<times> string) option" where
  "groups_v6 0 s gs el = Some (gs, el, s)"
| "groups_v6 (Suc n) s gs el =
     (let ds = takeWhile is_hex s; rest = dropWhile is_hex s in
      if ds = [] \<or> 4 < length ds then None
      else if rest \<noteq> [] \<and> hd rest = CHR ''.'' then
        (if (el = None \<and> length gs \<noteq> 6) \<or> 6 < length gs then None
         else (case parse_v4 s of
                 None \<Rightarrow> None
               | Some w \<Rightarrow> Some (gs @ [uint w div 65536, uint w mod 65536], el, [])))
      else
        (let gs1 = gs @ [hex_number 0 ds] in
         if rest = [] then Some (gs1, el, [])
         else if hd rest \<noteq> CHR '':'' \<or> length rest = 1 then None
         else if hd (tl rest) = CHR '':'' then
           (if el \<noteq> None then None
            else if length rest = 2 then Some (gs1, Some (length gs1), [])
            else groups_v6 n (drop 2 rest) gs1 (Some (length gs1)))
         else groups_v6 n (tl rest) gs1 el))"

definition word_of_groups :: "int list \<Rightarrow> 128 word" where
  "word_of_groups gs = word_of_int (foldl (\<lambda>acc g. acc * 65536 + g) 0 gs)"

definition parse_v6 :: "string \<Rightarrow> addr option" where
  "parse_v6 s =
     (let body = before CHR ''%'' s; zone = drop (Suc (length body)) s in
      if CHR ''%'' \<in> set s \<and> zone = [] then None
      else if body = ''::'' then Some (V6 0 zone)
      else
        (case (if take 2 body = ''::'' then groups_v6 8 (drop 2 body) [] (Some 0) else groups_v6 8 body [] None) of
           None \<Rightarrow> None
         | Some (gs, el, rest) \<Rightarrow>
             if rest \<noteq> [] then None
             else
               (case el of
                  None \<Rightarrow> if length gs = 8 then Some (V6 (word_of_groups gs) zone) else None
                | Some i \<Rightarrow>
                    if length gs < 8
                      then Some (V6 (word_of_groups (take i gs @ replicate (8 - length gs) 0 @ drop i gs)) zone)
                    else None)))"

definition ParseAddr :: "string \<Rightarrow> addr option" where
  "ParseAddr s =
     (case find (\<lambda>c. c = CHR ''.'' \<or> c = CHR '':'' \<or> c = CHR ''%'') s of
        None \<Rightarrow> None
      | Some c \<Rightarrow>
          if c = CHR ''.'' then map_option V4 (parse_v4 s)
          else if c = CHR '':'' then parse_v6 s
          else None)"

text \<open>\<open>net.ParseIP\<close> gives 16 bytes and refuses zones; \<open>To4\<close> is not nil on the IPv4-mapped ones.\<close>

definition ParseIP :: "string \<Rightarrow> (128 word) option" where
  "ParseIP s = (case ParseAddr s of None \<Rightarrow> None | Some a \<Rightarrow> if Zone a = [] then Some (As16 a) else None)"

definition is_To4 :: "128 word \<Rightarrow> bool" where
  "is_To4 w = (drop_bit 32 w = 0xffff)"

section \<open>Printing addresses\<close>

definition show_v4 :: "32 word \<Rightarrow> string" where
  "show_v4 w =
     (let n = uint w in
      show_nat (n div 16777216) @ ''.'' @ show_nat (n div 65536 mod 256) @ ''.'' @ show_nat (n div 256 mod 256) @ ''.'' @
      show_nat (n mod 256))"

definition groups_of :: "128 word \<Rightarrow> int list" where
  "groups_of w = map (\<lambda>i. uint w div 65536 ^ i mod 65536) (rev [0..<8])"

definition show_hex :: "int \<Rightarrow> string" where
  "show_hex n =
     (let s = dropWhile (\<lambda>c. c = CHR ''0'') (map (\<lambda>i. hex_table ! nat (n div 16 ^ i mod 16)) [3, 2, 1, 0]) in
      if s = [] then ''0'' else s)"

text \<open>The first longest run of at least two zero groups, as its bounds.\<close>

definition zero_run :: "int list \<Rightarrow> nat \<Rightarrow> nat" where
  "zero_run gs i = length (takeWhile (\<lambda>g. g = 0) (drop i gs))"

definition best_run :: "int list \<Rightarrow> (nat \<times> nat) option" where
  "best_run gs =
     fold (\<lambda>i best.
             let l = zero_run gs i in
             if 2 \<le> l \<and> (case best of None \<Rightarrow> True | Some (a, b) \<Rightarrow> b - a < l) then Some (i, i + l) else best)
       [0..<length gs] None"

fun join_colon :: "string list \<Rightarrow> string" where
  "join_colon [] = []" | "join_colon [x] = x" | "join_colon (x # y # ys) = x @ '':'' @ join_colon (y # ys)"

definition show_v6 :: "128 word \<Rightarrow> string" where
  "show_v6 w =
     (let gs = groups_of w in
      case best_run gs of
        None \<Rightarrow> join_colon (map show_hex gs)
      | Some (i, j) \<Rightarrow> join_colon (map show_hex (take i gs)) @ ''::'' @ join_colon (map show_hex (drop j gs)))"

fun show_addr :: "addr \<Rightarrow> string" where
  "show_addr NoAddr = ''invalid IP''"
| "show_addr (V4 w) = show_v4 w"
| "show_addr (V6 w z) =
     (if drop_bit 32 w = 0xffff then ''::ffff:'' @ show_v4 (ucast w) else show_v6 w) @ (if z = [] then [] else ''%'' @ z)"

section \<open>Prefixes\<close>

text \<open>\<open>Prefix NoAddr (-1)\<close> is the zero \<open>netip.Prefix\<close>.\<close>

datatype ip_prefix = Prefix (pf_addr: addr) (pf_bits: int)

definition PrefixFrom :: "addr \<Rightarrow> int \<Rightarrow> ip_prefix" where
  "PrefixFrom a b =
     Prefix (case a of V6 w z \<Rightarrow> V6 w [] | _ \<Rightarrow> a) (if a \<noteq> NoAddr \<and> 0 \<le> b \<and> b \<le> BitLen a then b else -1)"

definition IsValid :: "ip_prefix \<Rightarrow> bool" where
  "IsValid p = (0 \<le> pf_bits p)"

fun mask_addr :: "addr \<Rightarrow> nat \<Rightarrow> addr" where
  "mask_addr NoAddr n = NoAddr"
| "mask_addr (V4 w) n = V4 (push_bit (32 - n) (drop_bit (32 - n) w))"
| "mask_addr (V6 w z) n = V6 (push_bit (128 - n) (drop_bit (128 - n) w)) []"

definition Masked :: "ip_prefix \<Rightarrow> ip_prefix" where
  "Masked p = (if IsValid p then Prefix (mask_addr (pf_addr p) (nat (pf_bits p))) (pf_bits p) else Prefix NoAddr (-1))"

definition Contains :: "ip_prefix \<Rightarrow> addr \<Rightarrow> bool" where
  "Contains p a =
     (IsValid p \<and> Zone a = [] \<and> BitLen a = BitLen (pf_addr p) \<and> a \<noteq> NoAddr \<and>
      mask_addr a (nat (pf_bits p)) = mask_addr (pf_addr p) (nat (pf_bits p)))"

definition Overlaps :: "ip_prefix \<Rightarrow> ip_prefix \<Rightarrow> bool" where
  "Overlaps p q =
     (IsValid p \<and> IsValid q \<and>
      (p = q \<or>
       Is4 (pf_addr p) = Is4 (pf_addr q) \<and>
       (let n = nat (min (pf_bits p) (pf_bits q)) in
        n = 0 \<or> mask_addr (pf_addr p) n = mask_addr (pf_addr q) n)))"

definition ParsePrefix :: "string \<Rightarrow> ip_prefix option" where
  "ParsePrefix s =
     (case split_last CHR ''/'' s of
        None \<Rightarrow> None
      | Some (ip, bits) \<Rightarrow>
          (case ParseAddr ip of
             None \<Rightarrow> None
           | Some a \<Rightarrow>
               if Zone a \<noteq> [] then None
               else map_option (\<lambda>n. PrefixFrom a n) (number True (BitLen a) bits)))"

definition show_prefix :: "ip_prefix \<Rightarrow> string" where
  "show_prefix p =
     (if IsValid p then show_addr (pf_addr p) @ ''/'' @ show_nat (pf_bits p) else ''invalid Prefix'')"

section \<open>Addresses with ports\<close>

definition ParseAddrPort :: "string \<Rightarrow> (addr \<times> int) option" where
  "ParseAddrPort s =
     (case split_last CHR '':'' s of
        None \<Rightarrow> None
      | Some (ip, port) \<Rightarrow>
          if ip = [] \<or> port = [] then None
          else
            (let bracketed = hd ip = CHR ''['' in
             if bracketed \<and> (length ip < 2 \<or> List.last ip \<noteq> CHR '']'') then None
             else
               (case (number False 65535 port, ParseAddr (if bracketed then butlast (tl ip) else ip)) of
                  (Some p, Some a) \<Rightarrow> if bracketed = Is4 a then None else Some (a, p)
                | _ \<Rightarrow> None)))"

definition show_addr_port :: "addr \<Rightarrow> int \<Rightarrow> string" where
  "show_addr_port a p =
     (if a = NoAddr then ''invalid AddrPort''
      else if Is4 a then show_addr a @ '':'' @ show_nat p
      else ''['' @ show_addr a @ '']:'' @ show_nat p)"

section \<open>Base64\<close>

definition b64_table :: string where
  "b64_table = ''ABCDEFGHIJKLMNOPQRSTUVWXYZabcdefghijklmnopqrstuvwxyz0123456789+/''"

definition b64_value :: "char \<Rightarrow> int option" where
  "b64_value c =
     (let n = of_char c :: int in
      if 65 \<le> n \<and> n \<le> 90 then Some (n - 65)
      else if 97 \<le> n \<and> n \<le> 122 then Some (n - 71)
      else if 48 \<le> n \<and> n \<le> 57 then Some (n + 4)
      else if n = 43 then Some 62
      else if n = 47 then Some 63
      else None)"

fun b64_groups :: "string \<Rightarrow> string option" where
  "b64_groups [] = Some []"
| "b64_groups [a, b, c, d] =
     (case (b64_value a, b64_value b, b64_value c, b64_value d) of
        (Some x, Some y, Some z, Some u) \<Rightarrow> Some (map char_of [x * 4 + y div 16, y mod 16 * 16 + z div 4, z mod 4 * 64 + u])
      | (Some x, Some y, Some z, None) \<Rightarrow> if d = CHR ''='' then Some (map char_of [x * 4 + y div 16, y mod 16 * 16 + z div 4]) else None
      | (Some x, Some y, None, None) \<Rightarrow> if c = CHR ''='' \<and> d = CHR ''='' then Some [char_of (x * 4 + y div 16)] else None
      | _ \<Rightarrow> None)"
| "b64_groups (a # b # c # d # s) =
     (case (b64_value a, b64_value b, b64_value c, b64_value d, b64_groups s) of
        (Some x, Some y, Some z, Some u, Some t) \<Rightarrow>
          Some (map char_of [x * 4 + y div 16, y mod 16 * 16 + z div 4, z mod 4 * 64 + u] @ t)
      | _ \<Rightarrow> None)"
| "b64_groups s = None"

text \<open>The decoder skips line ends.\<close>

definition b64_decode :: "string \<Rightarrow> string option" where
  "b64_decode s = b64_groups (filter (\<lambda>c. c \<noteq> CHR 0x0D \<and> c \<noteq> CHR 0x0A) s)"

fun b64_encode :: "string \<Rightarrow> string" where
  "b64_encode [] = []"
| "b64_encode [a] = (let x = of_char a in [b64_table ! nat (x div 4), b64_table ! nat (x mod 4 * 16), CHR ''='', CHR ''=''])"
| "b64_encode [a, b] =
     (let x = of_char a; y = of_char b in
      [b64_table ! nat (x div 4), b64_table ! nat (x mod 4 * 16 + y div 16), b64_table ! nat (y mod 16 * 4), CHR ''=''])"
| "b64_encode (a # b # c # s) =
     (let x = of_char a; y = of_char b; z = of_char c in
      [b64_table ! nat (x div 4), b64_table ! nat (x mod 4 * 16 + y div 16), b64_table ! nat (y mod 16 * 4 + z div 64), b64_table ! nat (z mod 64)] @
      b64_encode s)"

section \<open>Lemmas\<close>

lemma Overlaps_sym: "Overlaps p q \<longleftrightarrow> Overlaps q p"
  unfolding Overlaps_def Let_def min.commute [of "pf_bits q"] by auto

lemma Overlaps_refl: "IsValid p \<Longrightarrow> Overlaps p p"
  by (simp add: Overlaps_def)

text \<open>Overlapping prefixes are the ones with a common address.\<close>

lemma bit_keep_high: "bit (push_bit k (drop_bit k w)) i \<longleftrightarrow> k \<le> i \<and> bit w i" for w :: "'a::len word"
  by (auto simp: bit_push_bit_iff bit_drop_bit_eq dest: bit_imp_le_length)

lemma keep_high_mono:
  fixes v w :: "'a::len word"
  assumes "push_bit j (drop_bit j v) = push_bit j (drop_bit j w)" and "j \<le> k"
  shows "push_bit k (drop_bit k v) = push_bit k (drop_bit k w)"
proof (rule bit_eqI)
  fix i
  have "bit (push_bit j (drop_bit j v)) i \<longleftrightarrow> bit (push_bit j (drop_bit j w)) i" using assms(1) by simp
  with assms(2) show "bit (push_bit k (drop_bit k v)) i \<longleftrightarrow> bit (push_bit k (drop_bit k w)) i"
    by (auto simp: bit_keep_high)
qed

lemma mask_addr_mono: "mask_addr a m = mask_addr b m \<Longrightarrow> n \<le> m \<Longrightarrow> mask_addr a n = mask_addr b n"
  by (cases a; cases b) (auto intro: keep_high_mono)

lemma mask_addr_family: "mask_addr a m = mask_addr b m \<Longrightarrow> Is4 a = Is4 b"
  by (cases a; cases b) auto

lemma Contains_Overlaps:
  assumes "Contains p a" and "Contains q a"
  shows "Overlaps p q"
proof -
  let ?n = "nat (min (pf_bits p) (pf_bits q))"
  have p: "mask_addr a ?n = mask_addr (pf_addr p) ?n" and q: "mask_addr a ?n = mask_addr (pf_addr q) ?n"
    using assms by (auto simp: Contains_def elim: mask_addr_mono)
  then have "mask_addr (pf_addr p) ?n = mask_addr (pf_addr q) ?n" by simp
  with mask_addr_family [OF this] assms show ?thesis by (auto simp: Overlaps_def Contains_def Let_def)
qed

lemma disjoint_prefixes: "\<not> Overlaps p q \<Longrightarrow> Contains p a \<Longrightarrow> \<not> Contains q a"
  using Contains_Overlaps by blast

lemma digits_nonneg: "0 \<le> acc \<Longrightarrow> digits acc s = Some n \<Longrightarrow> 0 \<le> n"
proof (induction s arbitrary: acc)
  case (Cons c s)
  then obtain d where "digit c = Some d" "digits (10 * acc + d) s = Some n" by (auto split: option.splits)
  moreover then have "0 \<le> d" by (auto simp: digit_def Let_def split: if_splits)
  ultimately show ?case using Cons by (meson add_nonneg_nonneg mult_nonneg_nonneg zero_le_numeral)
qed simp

lemma number_bounds: "number strict b s = Some n \<Longrightarrow> 0 \<le> n \<and> n \<le> b"
  using digits_nonneg [of 0 s n] by (auto simp: number_def split: if_splits option.splits)

lemma ParseAddr_not_none: "ParseAddr s \<noteq> Some NoAddr"
  by (auto simp: ParseAddr_def parse_v6_def Let_def split: option.splits if_splits prod.splits)

lemma ParsePrefix_valid: "ParsePrefix s = Some p \<Longrightarrow> IsValid p \<and> pf_addr p \<noteq> NoAddr \<and> pf_bits p \<le> BitLen (pf_addr p)"
  by (auto simp: ParsePrefix_def PrefixFrom_def IsValid_def ParseAddr_not_none dest!: number_bounds
      split: option.splits if_splits prod.splits addr.splits)

end
