(* ===== verification/Ports.thy ===== *)
theory Ports
  imports Netip "HOL-Library.AList"
begin

text \<open>
  Listener ports of receivers (\<open>controller/pkg/tunnel/receive_ports.go\<close>,
  \<open>receive_generation_ports.go\<close>, and the scope of a generation from \<open>receive_transition.go\<close>).
  A Go map is an association list with distinct keys, in the order a \<open>range\<close> statement visits it;
  \<open>None\<close> is a nil map or slice where the code tells it from an empty one.
\<close>

section \<open>Identities\<close>

definition validReceivePublicKey :: "string \<Rightarrow> bool" where
  "validReceivePublicKey value =
     (case b64_decode value of
        None \<Rightarrow> False
      | Some key \<Rightarrow> length key = 32 \<and> key \<noteq> replicate 32 (CHR 0x00) \<and> b64_encode key = value)"

definition ReceiveScope :: "string \<Rightarrow> string \<Rightarrow> string res" where
  "ReceiveScope meshUID receiverGeneration =
     (if meshUID = [] \<or> TrimSpace meshUID \<noteq> meshUID \<or> CHR 0x00 \<in> set meshUID then Inl (Error ''invalid receiver mesh identity'')
      else if receiverGeneration = [] then Inr meshUID
      else
        (case hex_decode receiverGeneration of
           None \<Rightarrow> Inl (Error ''invalid receiver generation identity'')
         | Some raw \<Rightarrow>
             if length raw \<noteq> 32 \<or> hex_encode raw \<noteq> receiverGeneration
               then Inl (Error ''invalid receiver generation identity'')
             else Inr (meshUID @ [CHR 0x00] @ ''generation'' @ [CHR 0x00] @ receiverGeneration)))"

record receive_path =
  rp_interface :: string
  rp_publicKey :: string
  rp_allowedSources :: "string list"

type_synonym port_map = "(string \<times> int) list"

section \<open>AssignReceivePorts\<close>

text \<open>The loops over the pool and the occupied ports, with the ports seen so far.\<close>

fun check_ports :: "string \<Rightarrow> int list \<Rightarrow> int list \<Rightarrow> int list res" where
  "check_ports msg seen [] = Inr seen"
| "check_ports msg seen (port # rest) =
     (if port < 1 \<or> 65535 < port \<or> port \<in> set seen then Inl (Error msg) else check_ports msg (port # seen) rest)"

fun check_reserved :: "int list \<Rightarrow> int list \<Rightarrow> port_map \<Rightarrow> int list res" where
  "check_reserved allowed used [] = Inr used"
| "check_reserved allowed used ((key, port) # rest) =
     (if \<not> validReceivePublicKey key \<or> port \<notin> set allowed \<or> port \<in> set used
        then Inl (Error ''existing receive port reservation is invalid or outside the permitted pool'')
      else check_reserved allowed (port # used) rest)"

fun path_keys :: "string list \<Rightarrow> receive_path list \<Rightarrow> string list res" where
  "path_keys keys [] = Inr keys"
| "path_keys keys (p # rest) =
     (if \<not> validReceivePublicKey (rp_publicKey p) \<or> rp_publicKey p \<in> set keys then Inl (Error ''invalid receive port peer'')
      else path_keys (keys @ [rp_publicKey p]) rest)"

fun assign_each :: "int list \<Rightarrow> string list \<Rightarrow> port_map \<Rightarrow> port_map \<Rightarrow> int list \<Rightarrow> (port_map \<times> port_map) res" where
  "assign_each available [] assigned updated used = Inr (assigned, updated)"
| "assign_each available (key # keys) assigned updated used =
     (case map_of updated key of
        Some port \<Rightarrow> assign_each available keys (AList.update key port assigned) updated used
      | None \<Rightarrow>
          (case find (\<lambda>candidate. candidate \<notin> set used) available of
             None \<Rightarrow> Inl (Error ''receive port pool exhausted; retained reservations cannot be reused'')
           | Some port \<Rightarrow>
               assign_each available keys (AList.update key port assigned) (AList.update key port updated) (port # used)))"

definition AssignReceivePorts ::
  "receive_path list \<Rightarrow> port_map option \<Rightarrow> int list option \<Rightarrow> int list \<Rightarrow> (port_map \<times> port_map) res" where
  "AssignReceivePorts paths reserved pool occupied =
     (case (reserved, pool) of
        (Some reserved, Some pool) \<Rightarrow>
          (case check_ports ''invalid or duplicate receive port'' [] pool of
             Inl e \<Rightarrow> Inl e
           | Inr allowed \<Rightarrow>
               (case check_ports ''invalid or duplicate occupied receive port'' [] occupied of
                  Inl e \<Rightarrow> Inl e
                | Inr used0 \<Rightarrow>
                    (case check_reserved allowed used0 reserved of
                       Inl e \<Rightarrow> Inl e
                     | Inr used \<Rightarrow>
                         (case path_keys [] paths of
                            Inl e \<Rightarrow> Inl e
                          | Inr keys \<Rightarrow> assign_each (sort pool) (sort keys) [] reserved used))))
      | _ \<Rightarrow> Inl (Error ''explicit receive port reservations and pool required''))"

text \<open>A missing key reads as port 0, which is out of range.\<close>

definition port_of :: "port_map \<Rightarrow> string \<Rightarrow> int" where
  "port_of ports key = (case map_of ports key of None \<Rightarrow> 0 | Some port \<Rightarrow> port)"

definition ValidateReceivePorts :: "receive_path list \<Rightarrow> port_map option \<Rightarrow> unit res" where
  "ValidateReceivePorts paths ports =
     (case ports of
        None \<Rightarrow> Inl (Error ''exact receive port assignments required'')
      | Some ports \<Rightarrow>
          if length ports \<noteq> length paths then Inl (Error ''exact receive port assignments required'')
          else
            (case check_ports ''invalid or duplicate assigned receive port'' [] (map (\<lambda>p. port_of ports (rp_publicKey p)) paths) of
               Inl e \<Rightarrow> Inl e
             | Inr _ \<Rightarrow> Inr ()))"

section \<open>Reservations across generations\<close>

record reservations =
  rs_version :: int
  rs_meshUID :: string
  rs_nodeUID :: string
  rs_rootPublicKey :: string
  rs_ports :: "port_map option"
  rs_generations :: "(string \<times> port_map option) list"

fun check_retained :: "int list \<Rightarrow> port_map \<Rightarrow> int list res" where
  "check_retained used [] = Inr used"
| "check_retained used ((peer, port) # rest) =
     (if \<not> validReceivePublicKey peer \<or> port < 1 \<or> 65535 < port \<or> port \<in> set used
        then Inl (Error ''conflicting or invalid retained receiver port'')
      else check_retained (port # used) rest)"

definition check_map :: "int list \<Rightarrow> port_map option \<Rightarrow> int list res" where
  "check_map used ports =
     (case ports of
        None \<Rightarrow> Inl (Error ''missing generation port reservations'')
      | Some ports \<Rightarrow> check_retained used ports)"

fun check_generations :: "string \<Rightarrow> int list \<Rightarrow> (string \<times> port_map option) list \<Rightarrow> unit res" where
  "check_generations meshUID used [] = Inr ()"
| "check_generations meshUID used ((generation, ports) # rest) =
     (if generation = [] then Inl (Error ''empty receiver generation reservation'')
      else
        (case ReceiveScope meshUID generation of
           Inl e \<Rightarrow> Inl e
         | Inr _ \<Rightarrow> (case check_map used ports of Inl e \<Rightarrow> Inl e | Inr used' \<Rightarrow> check_generations meshUID used' rest)))"

definition reservations_Validate :: "reservations \<Rightarrow> unit res" where
  "reservations_Validate r =
     (if rs_ports r = None \<or> rs_nodeUID r = [] \<or> \<not> validReceivePublicKey (rs_rootPublicKey r) \<or>
         (rs_version r \<noteq> 1 \<and> rs_version r \<noteq> 2) \<or> (rs_version r = 1 \<and> length (rs_generations r) \<noteq> 0) \<or>
         (rs_version r = 2 \<and> length (rs_generations r) = 0)
        then Inl (Error ''invalid receiver port reservation identity or version'')
      else
        (case ReceiveScope (rs_meshUID r) [] of
           Inl e \<Rightarrow> Inl e
         | Inr _ \<Rightarrow>
             (case check_map [] (rs_ports r) of
                Inl e \<Rightarrow> Inl e
              | Inr used \<Rightarrow> check_generations (rs_meshUID r) used (rs_generations r))))"

definition map_ports :: "port_map option \<Rightarrow> int list" where
  "map_ports m = (case m of None \<Rightarrow> [] | Some ps \<Rightarrow> map snd ps)"

definition occupied_ports :: "reservations \<Rightarrow> string \<Rightarrow> int list" where
  "occupied_ports r generation =
     (if generation \<noteq> [] then map_ports (rs_ports r) else []) @
     concat (map (\<lambda>(other, ports). if other = generation then [] else map_ports ports) (rs_generations r))"

definition active_ports :: "reservations \<Rightarrow> string \<Rightarrow> port_map option" where
  "active_ports r generation =
     (if generation \<noteq> []
        then (case map_of (rs_generations r) generation of Some (Some m) \<Rightarrow> Some m | _ \<Rightarrow> Some [])
      else rs_ports r)"

definition retain_ports :: "reservations \<Rightarrow> string \<Rightarrow> port_map \<Rightarrow> reservations" where
  "retain_ports r generation retained =
     (if generation = [] then r\<lparr>rs_ports := Some retained\<rparr>
      else r\<lparr>rs_version := 2, rs_generations := AList.update generation (Some retained) (rs_generations r)\<rparr>)"

definition reservations_Assign ::
  "reservations \<Rightarrow> string \<Rightarrow> receive_path list \<Rightarrow> int list option \<Rightarrow> (port_map \<times> reservations) res" where
  "reservations_Assign r generation paths pool =
     (case reservations_Validate r of
        Inl e \<Rightarrow> Inl e
      | Inr _ \<Rightarrow>
          (case ReceiveScope (rs_meshUID r) generation of
             Inl e \<Rightarrow> Inl e
           | Inr _ \<Rightarrow>
               (case AssignReceivePorts paths (active_ports r generation) pool (occupied_ports r generation) of
                  Inl e \<Rightarrow> Inl e
                | Inr (assigned, retained) \<Rightarrow>
                    (let updated = retain_ports r generation retained in
                     case reservations_Validate updated of Inl e \<Rightarrow> Inl e | Inr _ \<Rightarrow> Inr (assigned, updated)))))"

section \<open>What the loops establish\<close>

definition in_range :: "int \<Rightarrow> bool" where
  "in_range p = (1 \<le> p \<and> p \<le> 65535)"

lemma check_ports_Inr:
  "check_ports msg seen ps = Inr out \<longleftrightarrow>
     list_all in_range ps \<and> distinct ps \<and> set ps \<inter> set seen = {} \<and> out = rev ps @ seen"
  by (induction ps arbitrary: seen) (auto simp: in_range_def)

lemma check_reserved_Inr:
  "check_reserved allowed used r = Inr out \<longleftrightarrow>
     list_all (\<lambda>(k, p). validReceivePublicKey k \<and> p \<in> set allowed) r \<and> distinct (map snd r) \<and>
     set (map snd r) \<inter> set used = {} \<and> out = rev (map snd r) @ used"
proof (induction r arbitrary: used)
  case (Cons x r)
  show ?case
  proof (cases x)
    case (Pair k p)
    show ?thesis unfolding Pair check_reserved.simps if_Inl_Inr Cons.IH by (auto simp: in_range_def)
  qed
qed auto

lemma path_keys_Inr:
  "path_keys keys ps = Inr out \<longleftrightarrow>
     list_all (\<lambda>p. validReceivePublicKey (rp_publicKey p)) ps \<and> distinct (map rp_publicKey ps) \<and>
     rp_publicKey ` set ps \<inter> set keys = {} \<and> out = keys @ map rp_publicKey ps"
  by (induction ps arbitrary: keys) auto

lemma check_retained_Inr:
  "check_retained used m = Inr out \<longleftrightarrow>
     list_all (\<lambda>(k, p). validReceivePublicKey k \<and> in_range p) m \<and> distinct (map snd m) \<and>
     set (map snd m) \<inter> set used = {} \<and> out = rev (map snd m) @ used"
proof (induction m arbitrary: used)
  case (Cons x m)
  show ?case
  proof (cases x)
    case (Pair k p)
    show ?thesis unfolding Pair check_retained.simps if_Inl_Inr Cons.IH by (auto simp: in_range_def)
  qed
qed auto

lemma update_fresh: "map_of m k = None \<Longrightarrow> AList.update k v m = m @ [(k, v)]"
  by (induction m) auto

lemma map_of_None_fst: "map_of m k = None \<longleftrightarrow> k \<notin> fst ` set m"
  by (simp add: map_of_eq_None_iff)

lemma find_unused:
  "find (\<lambda>c. c \<notin> set used) available = Some port \<Longrightarrow> port \<in> set available \<and> port \<notin> set used"
  by (auto simp: find_Some_iff)

text \<open>The state of the assignment loop: reservations with distinct keys and ports, all marked used.\<close>

definition loop_ok :: "port_map \<Rightarrow> int list \<Rightarrow> bool" where
  "loop_ok updated used =
     (distinct (map fst updated) \<and> distinct (map snd updated) \<and> set (map snd updated) \<subseteq> set used)"

lemma loop_ok_fresh:
  assumes "loop_ok updated used" and "map_of updated key = None" and "port \<notin> set used"
  shows "loop_ok (AList.update key port updated) (port # used)"
  using assms by (auto simp: loop_ok_def update_fresh map_of_None_fst)

lemma assign_each_Inr:
  assumes "assign_each available keys assigned updated used = Inr (a, u)" and "loop_ok updated used"
  shows "loop_ok u (map snd u) \<and> (\<forall>k n. map_of updated k = Some n \<longrightarrow> map_of u k = Some n) \<and>
     fst ` set u = fst ` set updated \<union> set keys \<and>
     (\<forall>n \<in> snd ` set u. n \<in> snd ` set updated \<or> (n \<in> set available \<and> n \<notin> set used))"
  using assms
proof (induction keys arbitrary: assigned updated used)
  case (Cons key keys)
  show ?case
  proof (cases "map_of updated key")
    case (Some port)
    then have "key \<in> fst ` set updated" by (metis map_of_None_fst option.distinct(1))
    with Cons.IH [of "AList.update key port assigned" updated used] Cons.prems Some show ?thesis by auto
  next
    case None
    with Cons.prems obtain port where p: "find (\<lambda>c. c \<notin> set used) available = Some port"
      and rest: "assign_each available keys (AList.update key port assigned) (AList.update key port updated) (port # used) = Inr (a, u)"
      by (auto split: option.splits)
    note new = find_unused [OF p]
    note up = update_fresh [OF None, of port]
    have ok: "loop_ok (AList.update key port updated) (port # used)"
      using loop_ok_fresh [OF Cons.prems(2) None] new by blast
    note ih = Cons.IH [OF rest ok]
    have "map_of u k = Some n" if "map_of updated k = Some n" for k n
    proof -
      from that None have "map_of (AList.update key port updated) k = Some n" by (auto simp: update_conv')
      with ih show ?thesis by blast
    qed
    with ih new show ?thesis by (auto simp: up)
  qed
qed (auto simp: loop_ok_def)

lemma assign_each_assigned:
  assumes "assign_each available keys assigned updated used = Inr (a, u)" and "loop_ok updated used" and "distinct keys"
  shows "map_of a k = (if k \<in> set keys then map_of u k else map_of assigned k)"
  using assms
proof (induction keys arbitrary: assigned updated used)
  case (Cons key keys)
  show ?case
  proof (cases "map_of updated key")
    case (Some port)
    with Cons.prems have rest: "assign_each available keys (AList.update key port assigned) updated used = Inr (a, u)" by simp
    have "map_of u key = Some port" using assign_each_Inr [OF rest Cons.prems(2)] Some by blast
    with Cons.IH [OF rest Cons.prems(2)] Cons.prems(3) show ?thesis by (auto simp: update_conv')
  next
    case None
    with Cons.prems obtain port where p: "find (\<lambda>c. c \<notin> set used) available = Some port"
      and rest: "assign_each available keys (AList.update key port assigned) (AList.update key port updated) (port # used) = Inr (a, u)"
      by (auto split: option.splits)
    have ok: "loop_ok (AList.update key port updated) (port # used)"
      using loop_ok_fresh [OF Cons.prems(2) None] find_unused [OF p] by blast
    have "map_of u key = Some port" using assign_each_Inr [OF rest ok] by (auto simp: update_conv')
    with Cons.IH [OF rest ok] Cons.prems(3) show ?thesis by (auto simp: update_conv')
  qed
qed simp

text \<open>The loop succeeds exactly when the free ports suffice for the new keys.\<close>

lemma assign_each_total:
  assumes "loop_ok updated used" and "distinct keys"
  shows "is_Inr (assign_each available keys assigned updated used) \<longleftrightarrow>
     card (set keys - fst ` set updated) \<le> card (set available - set used)"
  using assms
proof (induction keys arbitrary: assigned updated used)
  case (Cons key keys)
  show ?case
  proof (cases "map_of updated key")
    case (Some port)
    then have "key \<in> fst ` set updated" by (metis map_of_None_fst option.distinct(1))
    with Cons Some show ?thesis by (simp add: insert_Diff_if)
  next
    case None
    then have key: "key \<notin> fst ` set updated" by (simp add: map_of_None_fst)
    then have new: "card (set (key # keys) - fst ` set updated) = Suc (card (set keys - fst ` set updated))"
      using Cons.prems by (simp add: insert_Diff_if)
    show ?thesis
    proof (cases "find (\<lambda>c. c \<notin> set used) available")
      case None
      then have empty: "set available - set used = {}" by (auto simp: find_None_iff)
      show ?thesis unfolding new empty using None \<open>map_of updated key = None\<close> by simp
    next
      case (Some port)
      note port = find_unused [OF Some]
      have "set available - set (port # used) = (set available - set used) - {port}" by auto
      then have "card (set available - set used) = Suc (card (set available - set (port # used)))"
        using port card.remove [of "set available - set used" port] by simp
      moreover have "fst ` set (AList.update key port updated) = insert key (fst ` set updated)"
        using None by (simp add: update_fresh)
      moreover have "set keys - insert key (fst ` set updated) = set keys - fst ` set updated" using Cons.prems by auto
      ultimately show ?thesis
        using Cons.IH [OF loop_ok_fresh [OF Cons.prems(1) None, of port]] Cons.prems None Some port new by simp linarith
    qed
  qed
qed simp

section \<open>The allocator's contract\<close>

text \<open>
  What a client of the allocator relies on: reservations are kept, every requested key is served from
  the pool, and no port is shared, neither among the reservations nor with the occupied ports.
\<close>

locale port_allocator =
  fixes alloc :: "'p list \<Rightarrow> port_map \<Rightarrow> int list \<Rightarrow> int list \<Rightarrow> (port_map \<times> port_map) res"
    and key :: "'p \<Rightarrow> string"
    and valid :: "string \<Rightarrow> bool"
  assumes retains: "alloc ps r pool occ = Inr (a, u) \<Longrightarrow> distinct (map fst r) \<Longrightarrow> map_of r k = Some n \<Longrightarrow> map_of u k = Some n"
    and serves: "alloc ps r pool occ = Inr (a, u) \<Longrightarrow> distinct (map fst r) \<Longrightarrow>
      map_of a k = (if k \<in> key ` set ps then map_of u k else None)"
    and keys: "alloc ps r pool occ = Inr (a, u) \<Longrightarrow> distinct (map fst r) \<Longrightarrow>
      distinct (map fst u) \<and> fst ` set u = fst ` set r \<union> key ` set ps \<and> (\<forall>k \<in> fst ` set u. valid k)"
    and ports: "alloc ps r pool occ = Inr (a, u) \<Longrightarrow> distinct (map fst r) \<Longrightarrow>
      distinct (map snd u) \<and> (\<forall>n \<in> snd ` set u. in_range n \<and> n \<in> set pool \<and> n \<notin> set occ)"
begin

text \<open>Successive allocations are stable, whatever the pool and the peers are by then.\<close>

lemma stable:
  assumes "alloc ps r pool occ = Inr (a, u)" and "distinct (map fst r)" and "alloc ps' u pool' occ' = Inr (a', u')"
    and "k \<in> key ` set ps" and "k \<in> key ` set ps'"
  shows "map_of a' k = map_of a k" and "map_of a k \<noteq> None"
proof -
  have u: "distinct (map fst u)" "k \<in> fst ` set u" using keys [OF assms(1,2)] assms(4) by auto
  then obtain n where n: "map_of u k = Some n" by (metis map_of_None_fst option.exhaust)
  have "map_of a k = Some n" using serves [OF assms(1,2)] assms(4) n by simp
  moreover have "map_of a' k = Some n" using serves [OF assms(3) u(1)] assms(5) retains [OF assms(3) u(1) n] by simp
  ultimately show "map_of a' k = map_of a k" "map_of a k \<noteq> None" by simp_all
qed

lemma own_ports:
  assumes "alloc ps r pool occ = Inr (a, u)" and "distinct (map fst r)"
  shows "list_all (\<lambda>(k, n). valid k \<and> in_range n) u" and "set (map snd u) \<inter> set occ = {}" and "distinct (map snd u)"
  using keys [OF assms] ports [OF assms] by (auto simp: list_all_iff image_iff)

end

lemma AssignReceivePorts_Inr:
  "AssignReceivePorts paths (Some r) (Some pool) occ = Inr (a, u) \<longleftrightarrow>
     list_all in_range pool \<and> distinct pool \<and> list_all in_range occ \<and> distinct occ \<and>
     list_all (\<lambda>(k, p). validReceivePublicKey k \<and> p \<in> set pool) r \<and> distinct (map snd r) \<and> set (map snd r) \<inter> set occ = {} \<and>
     list_all (\<lambda>p. validReceivePublicKey (rp_publicKey p)) paths \<and> distinct (map rp_publicKey paths) \<and>
     assign_each (sort pool) (sort (map rp_publicKey paths)) [] r (rev (map snd r) @ rev occ) = Inr (a, u)"
  by (auto simp: AssignReceivePorts_def res_inv check_ports_Inr check_reserved_Inr path_keys_Inr)

lemma AssignReceivePorts_loop:
  assumes "AssignReceivePorts paths (Some r) (Some pool) occ = Inr (a, u)" and "distinct (map fst r)"
  shows "assign_each (sort pool) (sort (map rp_publicKey paths)) [] r (rev (map snd r) @ rev occ) = Inr (a, u)"
    and "loop_ok r (rev (map snd r) @ rev occ)"
  using assms by (auto simp: AssignReceivePorts_Inr loop_ok_def)

interpretation receive_ports: port_allocator
  "\<lambda>ps r pool occ. AssignReceivePorts ps (Some r) (Some pool) occ" rp_publicKey validReceivePublicKey
proof (unfold_locales, goal_cases)
  case (1 ps r pool occ a u k n)
  with assign_each_Inr [OF AssignReceivePorts_loop] show ?case by blast
next
  case (2 ps r pool occ a u k)
  then have "distinct (sort (map rp_publicKey ps))" by (simp add: AssignReceivePorts_Inr)
  with assign_each_assigned [OF AssignReceivePorts_loop [OF 2]] show ?case by simp
next
  case (3 ps r pool occ a u)
  with assign_each_Inr [OF AssignReceivePorts_loop [OF 3]] show ?case
    by (auto simp: loop_ok_def AssignReceivePorts_Inr list_all_iff)
next
  case (4 ps r pool occ a u)
  with assign_each_Inr [OF AssignReceivePorts_loop [OF 4]] show ?case
    by (fastforce simp: loop_ok_def AssignReceivePorts_Inr list_all_iff)
qed

section \<open>Generations\<close>

definition map_ok :: "port_map option \<Rightarrow> bool" where
  "map_ok m = (case m of None \<Rightarrow> False | Some ps \<Rightarrow> list_all (\<lambda>(k, p). validReceivePublicKey k \<and> in_range p) ps)"

lemma check_map_Inr:
  "check_map used m = Inr out \<longleftrightarrow>
     map_ok m \<and> distinct (map_ports m) \<and> set (map_ports m) \<inter> set used = {} \<and> out = rev (map_ports m) @ used"
  by (auto simp: check_map_def map_ok_def map_ports_def check_retained_Inr split: option.splits)

definition all_ports :: "(string \<times> port_map option) list \<Rightarrow> int list" where
  "all_ports gs = concat (map (map_ports \<circ> snd) gs)"

lemma check_generations_Inr:
  "check_generations mesh used gs = Inr () \<longleftrightarrow>
     list_all (\<lambda>(g, m). g \<noteq> [] \<and> is_Inr (ReceiveScope mesh g) \<and> map_ok m) gs \<and>
     distinct (all_ports gs) \<and> set (all_ports gs) \<inter> set used = {}"
proof (induction gs arbitrary: used)
  case (Cons gm gs)
  obtain g m where gm: "gm = (g, m)" by force
  show ?case
    unfolding gm check_generations.simps if_Inl_Inr res_case_Inr check_map_Inr
    by (auto simp: Cons.IH is_Inr_iff all_ports_def)
qed (simp add: all_ports_def)

lemma Validate_Inr:
  "reservations_Validate r = Inr () \<longleftrightarrow>
     map_ok (rs_ports r) \<and> rs_nodeUID r \<noteq> [] \<and> validReceivePublicKey (rs_rootPublicKey r) \<and>
     (rs_version r = 1 \<and> rs_generations r = [] \<or> rs_version r = 2 \<and> rs_generations r \<noteq> []) \<and>
     is_Inr (ReceiveScope (rs_meshUID r) []) \<and>
     list_all (\<lambda>(g, m). g \<noteq> [] \<and> is_Inr (ReceiveScope (rs_meshUID r) g) \<and> map_ok m) (rs_generations r) \<and>
     distinct (map_ports (rs_ports r) @ all_ports (rs_generations r))"
  unfolding reservations_Validate_def if_Inl_Inr res_case_Inr check_map_Inr
  by (auto simp: check_generations_Inr is_Inr_iff map_ok_def)

text \<open>The keys of the Go maps are distinct.\<close>

definition maps_wf :: "reservations \<Rightarrow> bool" where
  "maps_wf r =
     (distinct (map fst (rs_generations r)) \<and>
      list_all (\<lambda>m. case m of None \<Rightarrow> True | Some ps \<Rightarrow> distinct (map fst ps)) (rs_ports r # map snd (rs_generations r)))"

lemma update_present:
  assumes "k \<in> fst ` set m"
  obtains xs v ys where "m = xs @ (k, v) # ys" and "AList.update k w m = xs @ (k, w) # ys" and "k \<notin> fst ` set xs"
  using assms
proof (induction m arbitrary: thesis)
  case (Cons x m)
  show ?case
  proof (cases "fst x = k")
    case True
    then show ?thesis using Cons.prems(1) [of "[]" "snd x" m] by (cases x) auto
  next
    case False
    with Cons.prems(2) have "k \<in> fst ` set m" by auto
    from Cons.IH [OF _ this] obtain xs v ys
      where "m = xs @ (k, v) # ys" "AList.update k w m = xs @ (k, w) # ys" "k \<notin> fst ` set xs" by blast
    with Cons.prems(1) [of "x # xs" v ys] False show ?thesis by (cases x) auto
  qed
qed simp

definition other_ports :: "string \<Rightarrow> (string \<times> port_map option) list \<Rightarrow> int list" where
  "other_ports g gs = concat (map (\<lambda>(other, ports). if other = g then [] else map_ports ports) gs)"

lemma other_ports_notin: "g \<notin> fst ` set gs \<Longrightarrow> other_ports g gs = all_ports gs"
  by (induction gs) (auto simp: other_ports_def all_ports_def)

lemma other_ports_subset: "set (other_ports g gs) \<subseteq> set (all_ports gs)"
  by (induction gs) (auto simp: other_ports_def all_ports_def)

lemma other_ports_distinct: "distinct (all_ports gs) \<Longrightarrow> distinct (other_ports g gs)"
proof (induction gs)
  case (Cons x gs)
  with other_ports_subset [of g gs] show ?case
    by (cases x) (fastforce simp: other_ports_def all_ports_def)
qed (simp add: other_ports_def)

lemma all_ports_append [simp]: "all_ports (xs @ ys) = all_ports xs @ all_ports ys"
  by (simp add: all_ports_def)

lemma all_ports_Cons [simp]: "all_ports ((g, m) # gs) = map_ports m @ all_ports gs"
  by (simp add: all_ports_def)

lemma all_ports_Nil [simp]: "all_ports [] = []"
  by (simp add: all_ports_def)

lemma generations_update:
  assumes "distinct (map fst gs)"
  shows "mset (all_ports (AList.update g (Some u) gs)) = mset (map snd u) + mset (other_ports g gs)"
    and "set (AList.update g (Some u) gs) \<subseteq> insert (g, Some u) (set gs)" and "AList.update g (Some u) gs \<noteq> []"
proof (atomize (full), cases "g \<in> fst ` set gs")
  case True
  then obtain xs v ys where gs: "gs = xs @ (g, v) # ys" and up: "AList.update g (Some u) gs = xs @ (g, Some u) # ys"
    and xs: "g \<notin> fst ` set xs" by (rule update_present)
  have ys: "g \<notin> fst ` set ys" using assms gs by auto
  have "other_ports g gs = all_ports xs @ all_ports ys"
    using other_ports_notin [OF xs] other_ports_notin [OF ys] by (simp add: gs other_ports_def)
  with up show "mset (all_ports (AList.update g (Some u) gs)) = mset (map snd u) + mset (other_ports g gs) \<and>
     set (AList.update g (Some u) gs) \<subseteq> insert (g, Some u) (set gs) \<and> AList.update g (Some u) gs \<noteq> []"
    by (auto simp: map_ports_def gs)
next
  case False
  then have up: "AList.update g (Some u) gs = gs @ [(g, Some u)]" by (intro update_fresh) (simp add: map_of_None_fst)
  with other_ports_notin [OF False] show "mset (all_ports (AList.update g (Some u) gs)) = mset (map snd u) + mset (other_ports g gs) \<and>
     set (AList.update g (Some u) gs) \<subseteq> insert (g, Some u) (set gs) \<and> AList.update g (Some u) gs \<noteq> []"
    by (auto simp: map_ports_def)
qed

lemma active_ports_wf:
  assumes "reservations_Validate r = Inr ()" and "maps_wf r"
  obtains act where "active_ports r g = Some act" and "distinct (map fst act)"
proof (cases "g = []")
  case True
  with assms that show ?thesis by (auto simp: active_ports_def Validate_Inr map_ok_def maps_wf_def split: option.splits)
next
  case False
  show ?thesis
  proof (cases "map_of (rs_generations r) g")
    case None
    with False that show ?thesis by (simp add: active_ports_def)
  next
    case (Some m)
    then have "(g, m) \<in> set (rs_generations r)" by (rule map_of_SomeD)
    with assms obtain ps where "m = Some ps" "distinct (map fst ps)"
      by (force simp: Validate_Inr map_ok_def maps_wf_def list_all_iff split: option.splits)
    with False Some that show ?thesis by (simp add: active_ports_def)
  qed
qed

text \<open>Retaining an allocation keeps the reservations valid: the last check of \<open>Assign\<close> never rejects.\<close>

lemma retain_ports_valid:
  assumes "reservations_Validate r = Inr ()" and "maps_wf r" and "is_Inr (ReceiveScope (rs_meshUID r) g)"
    and "list_all (\<lambda>(k, n). validReceivePublicKey k \<and> in_range n) u" and "distinct (map snd u)"
    and "set (map snd u) \<inter> set (occupied_ports r g) = {}"
  shows "reservations_Validate (retain_ports r g u) = Inr ()"
proof (cases "g = []")
  case True
  then have "g \<notin> fst ` set (rs_generations r)" using assms(1) by (auto simp: Validate_Inr list_all_iff)
  then have "occupied_ports r g = all_ports (rs_generations r)"
    using True other_ports_notin by (simp add: occupied_ports_def other_ports_def)
  with True assms show ?thesis by (auto simp: Validate_Inr retain_ports_def map_ok_def map_ports_def)
next
  case False
  have occ: "occupied_ports r g = map_ports (rs_ports r) @ other_ports g (rs_generations r)"
    using False by (simp add: occupied_ports_def other_ports_def)
  note up = generations_update [of "rs_generations r" g u]
  have wf: "distinct (map fst (rs_generations r))" using assms(2) by (simp add: maps_wf_def)
  note sub = other_ports_subset [of g "rs_generations r"] other_ports_distinct [of "rs_generations r" g]
  have d: "distinct (map snd u @ other_ports g (rs_generations r))"
    using assms(1,5,6) sub by (auto simp: occ Validate_Inr)
  then have "distinct (all_ports (AList.update g (Some u) (rs_generations r)))"
    using up(1) [OF wf] mset_eq_imp_distinct_iff [of "all_ports (AList.update g (Some u) (rs_generations r))" "map snd u @ other_ports g (rs_generations r)"]
    by simp
  moreover have "set (all_ports (AList.update g (Some u) (rs_generations r))) = set (map snd u) \<union> set (other_ports g (rs_generations r))"
    using up(1) [OF wf] by (metis set_append mset_append set_mset_mset)
  ultimately have "distinct (map_ports (rs_ports r) @ all_ports (AList.update g (Some u) (rs_generations r)))"
    using assms(1,6) sub by (auto simp: occ Validate_Inr)
  moreover have "list_all (\<lambda>(g, m). g \<noteq> [] \<and> is_Inr (ReceiveScope (rs_meshUID r) g) \<and> map_ok m) (AList.update g (Some u) (rs_generations r))"
    using up(2) [OF wf] assms(1,3,4) False by (fastforce simp: Validate_Inr list_all_iff map_ok_def)
  ultimately show ?thesis using assms(1) False up(3) [OF wf] by (simp add: Validate_Inr retain_ports_def)
qed

section \<open>When an assignment fails\<close>

lemma assign_each_error:
  "assign_each available keys assigned updated used = Inl e \<Longrightarrow> e = Error ''receive port pool exhausted; retained reservations cannot be reused''"
  by (induction available keys assigned updated used rule: assign_each.induct) (auto split: option.splits)

end
