(* ===== verification/Receivers.thy ===== *)
theory Receivers
  imports Ports Store
begin

text \<open>
  Receiver preparation (\<open>controller/pkg/tunnel/receive_handover.go\<close>, \<open>receive_protocol.go\<close>,
  \<open>site_receive.go\<close>, \<open>site_receive_ready.go\<close>, and the peer documents of \<open>tunnel.go\<close>): the plan that keeps
  the old and the new source permissions of every site on its own receiver, the validation of the
  kernel bindings a cloud node reports, and the client plan and readiness of a site.
  A nil and an empty slice are one value, except the peer lists, native prefixes and ports, where
  the code tells them apart and \<open>None\<close> is nil. Error values keep the fixed part of the message.
\<close>

section \<open>Peer documents\<close>

record peer_spec =
  p_publicKey :: string
  p_endpoint :: string
  p_wgAllowedIPs :: "string list"
  p_routeHosts :: "string list"
  p_routeHost :: string
  p_remote :: bool
  p_transit :: "string list"
  p_transitHosts :: "string list"

record peer_list_doc =
  pl_peers :: "peer_spec list option"
  pl_apiServers :: "string list"

definition doc_peers :: "peer_list_doc \<Rightarrow> peer_spec list" where
  "doc_peers doc = (case pl_peers doc of None \<Rightarrow> [] | Some ps \<Rightarrow> ps)"

definition AllRouteHosts :: "peer_spec \<Rightarrow> string list" where
  "AllRouteHosts p = p_routeHosts p @ (if p_routeHost p \<noteq> [] then [p_routeHost p] else [])"

definition HostCIDR :: "string \<Rightarrow> string" where
  "HostCIDR a =
     (if CHR ''/'' \<in> set a then a
      else (case ParseIP a of
              Some ip \<Rightarrow> if is_To4 ip then a @ ''/32'' else a @ ''/128''
            | None \<Rightarrow> a @ ''/32''))"

definition HashPeerList :: "'a round_env_scheme \<Rightarrow> string \<Rightarrow> string" where
  "HashPeerList env raw = hex_sha env raw"

definition AdoptionSecretName :: "string \<Rightarrow> string" where
  "AdoptionSecretName machineName = machineName @ ''-tunnel-peers''"

section \<open>PlanReceiveHandover\<close>

record receive_handover =
  rh_receivers :: "receive_path list"
  rh_desired :: peer_list_doc

record owner =
  ow_prefix :: ip_prefix
  ow_key :: string
  ow_remote :: bool

text \<open>
  The variables of the loops: \<open>permissions\<close> maps a site key to a set of prefixes (a list without
  repetition, in insertion order), \<open>seen\<close> and \<open>owners\<close> start anew for each document.
\<close>

record plan_state =
  ps_permissions :: "(string \<times> string list) list"
  ps_roles :: "(string \<times> bool) list"
  ps_overlapOwners :: "owner list"
  ps_seen :: "string list"
  ps_owners :: "owner list"

definition source_ok :: "ip_prefix \<Rightarrow> bool" where
  "source_ok p = (p = Masked p \<and> pf_bits p \<noteq> 0 \<and> \<not> Is4In6 (pf_addr p) \<and> IsGlobalUnicast (pf_addr p))"

definition add_permission :: "string \<Rightarrow> string \<Rightarrow> (string \<times> string list) list \<Rightarrow> (string \<times> string list) list" where
  "add_permission key raw perms =
     (let old = (case map_of perms key of None \<Rightarrow> [] | Some s \<Rightarrow> s) in
      AList.update key (if raw \<in> set old then old else old @ [raw]) perms)"

definition plan_prefix :: "ip_prefix list \<Rightarrow> peer_spec \<Rightarrow> plan_state \<Rightarrow> string \<Rightarrow> plan_state res" where
  "plan_prefix native peer st raw =
     (case ParsePrefix raw of
        None \<Rightarrow> Inl (Error ''invalid peer source prefix'')
      | Some p \<Rightarrow>
          if \<not> source_ok p then Inl (Error ''invalid peer source prefix'')
          else if list_ex (\<lambda>boundary. \<not> p_remote peer \<and> Overlaps p boundary) native
            then Inl (Error ''site receiver overlaps a protected native prefix'')
          else if list_ex (\<lambda>prior. ow_key prior \<noteq> p_publicKey peer \<and> Overlaps p (ow_prefix prior)) (ps_owners st)
            then Inl (Error ''ambiguous source ownership within one generation'')
          else if list_ex (\<lambda>prior. ow_remote prior \<noteq> p_remote peer \<and> Overlaps p (ow_prefix prior)) (ps_overlapOwners st)
            then Inl (Error ''source ownership crosses site/cloud boundary during handover'')
          else
            (let entry = \<lparr>ow_prefix = p, ow_key = p_publicKey peer, ow_remote = p_remote peer\<rparr> in
             Inr (st\<lparr>ps_owners := ps_owners st @ [entry], ps_overlapOwners := ps_overlapOwners st @ [entry],
                     ps_permissions :=
                       (if p_remote peer then ps_permissions st
                        else add_permission (p_publicKey peer) (show_prefix p) (ps_permissions st))\<rparr>)))"

definition plan_peer :: "ip_prefix list \<Rightarrow> plan_state \<Rightarrow> peer_spec \<Rightarrow> plan_state res" where
  "plan_peer native st peer =
     (if \<not> validReceivePublicKey (p_publicKey peer) then Inl (Error ''invalid peer identity'')
      else if p_publicKey peer \<in> set (ps_seen st) then Inl (Error ''duplicate peer identity'')
      else if map_of (ps_roles st) (p_publicKey peer) = Some (\<not> p_remote peer) then Inl (Error ''peer changed site/cloud role'')
      else
        res_fold (plan_prefix native peer)
          (st\<lparr>ps_seen := p_publicKey peer # ps_seen st,
              ps_roles := AList.update (p_publicKey peer) (p_remote peer) (ps_roles st),
              ps_permissions :=
                (if \<not> p_remote peer \<and> map_of (ps_permissions st) (p_publicKey peer) = None
                   then AList.update (p_publicKey peer) [] (ps_permissions st) else ps_permissions st)\<rparr>)
          (p_wgAllowedIPs peer))"

definition plan_doc :: "ip_prefix list \<Rightarrow> plan_state \<Rightarrow> peer_list_doc \<Rightarrow> plan_state res" where
  "plan_doc native st doc = res_fold (plan_peer native) (st\<lparr>ps_seen := [], ps_owners := []\<rparr>) (doc_peers doc)"

definition plan_init :: plan_state where
  "plan_init = \<lparr>ps_permissions = [], ps_roles = [], ps_overlapOwners = [], ps_seen = [], ps_owners = []\<rparr>"

definition receiver_interface :: "'a round_env_scheme \<Rightarrow> string \<Rightarrow> string \<Rightarrow> string" where
  "receiver_interface env meshID key = ''cldr'' @ hex_encode (take 5 (sha256 env (meshID @ [CHR 0x00] @ key)))"

definition receiver_path :: "'a round_env_scheme \<Rightarrow> string \<Rightarrow> string \<times> string list \<Rightarrow> receive_path" where
  "receiver_path env meshID perm =
     \<lparr>rp_interface = receiver_interface env meshID (fst perm), rp_publicKey = fst perm, rp_allowedSources = sort (snd perm)\<rparr>"

definition PlanReceiveHandover ::
  "'a round_env_scheme \<Rightarrow> string \<Rightarrow> peer_list_doc \<Rightarrow> peer_list_doc \<Rightarrow> ip_prefix list \<Rightarrow> receive_handover res" where
  "PlanReceiveHandover env meshID previous desired native =
     (if TrimSpace meshID = [] then Inl (Error ''mesh identity required'')
      else if list_ex (\<lambda>p. \<not> IsValid p \<or> p \<noteq> Masked p \<or> pf_bits p = 0 \<or> Is4In6 (pf_addr p)) native
        then Inl (Error ''invalid native prefix boundary'')
      else if pl_peers previous = None \<or> pl_peers desired = None
        then Inl (Error ''explicit previous and desired peer lists required'')
      else
        (case res_fold (plan_doc native) plan_init [previous, desired] of
           Inl e \<Rightarrow> Inl e
         | Inr st \<Rightarrow>
             (let paths = map (receiver_path env meshID) (ps_permissions st) in
              if \<not> distinct (map rp_interface paths) then Inl (Error ''receiver interface identity collision'')
              else Inr \<lparr>rh_receivers = sort_key rp_publicKey paths, rh_desired = desired\<rparr>)))"

section \<open>Bindings\<close>

record receive_binding =
  bd_interface :: string
  bd_peerPublicKey :: string
  bd_publicKey :: string
  bd_listenPort :: int

text \<open>The loop over the bindings; \<open>seen\<close> holds the bindings accepted before.\<close>

fun check_bindings :: "(string \<times> string) list \<Rightarrow> string list \<Rightarrow> receive_binding list \<Rightarrow> receive_binding list \<Rightarrow> unit res" where
  "check_bindings expected reserved seen [] = Inr ()"
| "check_bindings expected reserved seen (b # bs) =
     (if map_of expected (bd_peerPublicKey b) \<noteq> Some (bd_interface b) \<or> bd_peerPublicKey b \<in> bd_peerPublicKey ` set seen
        then Inl (Error ''prepared receiver identity mismatch'')
      else if \<not> validReceivePublicKey (bd_publicKey b) \<or> bd_publicKey b \<in> set reserved \<or> bd_publicKey b \<in> bd_publicKey ` set seen \<or>
              bd_listenPort b \<le> 0 \<or> 65535 < bd_listenPort b \<or> bd_listenPort b \<in> bd_listenPort ` set seen
        then Inl (Error ''invalid prepared receiver binding'')
      else check_bindings expected reserved (b # seen) bs)"

definition ValidateReceiveBindings :: "receive_path list \<Rightarrow> string \<Rightarrow> receive_binding list \<Rightarrow> unit res" where
  "ValidateReceiveBindings paths root bindings =
     (if \<not> validReceivePublicKey root \<or> length bindings \<noteq> length paths then Inl (Error ''incomplete receiver preparation'')
      else
        check_bindings (rev (map (\<lambda>p. (rp_publicKey p, rp_interface p)) paths)) (root # map rp_publicKey paths) [] bindings)"

section \<open>Readiness of a cloud node\<close>

record prepare_predecessor =
  pp_clusterUID :: string
  pp_machineUID :: string
  pp_journalUID :: string
  pp_journalSHA256 :: string

record receive_prepare =
  rq_predecessor :: "prepare_predecessor option"
  rq_version :: int
  rq_receiverGeneration :: string
  rq_meshUID :: string
  rq_nodeName :: string
  rq_bootID :: string
  rq_nodeUID :: string
  rq_rootPublicKey :: string
  rq_baseHash :: string
  rq_desired :: peer_list_doc
  rq_native :: "ip_prefix list option"
  rq_ports :: "port_map option"

record receive_ready =
  rd_version :: int
  rd_meshUID :: string
  rd_secretUID :: string
  rd_nodeName :: string
  rd_bootID :: string
  rd_nodeUID :: string
  rd_rootPublicKey :: string
  rd_baseHash :: string
  rd_requestHash :: string
  rd_bindings :: "receive_binding list"

record receive_target =
  tg_meshUID :: string
  tg_secretUID :: string
  tg_nodeName :: string
  tg_nodeUID :: string
  tg_bootID :: string
  tg_rootPublicKey :: string
  tg_ready :: bool

record site_receive_client =
  cl_interface :: string
  cl_sitePublicKey :: string
  cl_cloudRootPublicKey :: string
  cl_publicKey :: string
  cl_endpoint :: string
  cl_allowedSources :: "string list"

record site_receive_ready =
  sr_version :: int
  sr_meshUID :: string
  sr_secretUID :: string
  sr_requestHash :: string
  sr_siteHash :: string
  sr_nodeName :: string
  sr_nodeUID :: string
  sr_bootID :: string
  sr_client :: site_receive_client
  sr_handshakeAt :: time

text \<open>
  The JSON decoders: \<open>json_peer_list\<close> is \<open>json.Unmarshal\<close>; the others are a strict decoder's first value,
  with whether the input ends there.
\<close>

record tunnel_env = store_env +
  json_peer_list :: "string \<Rightarrow> peer_list_doc option"
  json_prepare :: "string \<Rightarrow> (receive_prepare \<times> bool) option"
  json_ready :: "string \<Rightarrow> (receive_ready \<times> bool) option"
  json_site_ready :: "string \<Rightarrow> (site_receive_ready \<times> bool) option"

text \<open>\<open>ValidateReceiveReadiness\<close>: its identity checks, then the plan and its bindings.\<close>

definition target_current :: "receive_target \<Rightarrow> bool" where
  "target_current t =
     (tg_ready t \<and> tg_meshUID t \<noteq> [] \<and> tg_secretUID t \<noteq> [] \<and> tg_nodeName t \<noteq> [] \<and> tg_nodeUID t \<noteq> [] \<and> tg_bootID t \<noteq> [] \<and>
      validReceivePublicKey (tg_rootPublicKey t))"

definition request_matches :: "'a round_env_scheme \<Rightarrow> receive_target \<Rightarrow> string \<Rightarrow> receive_prepare \<Rightarrow> bool" where
  "request_matches env t baseRaw q =
     (rq_version q = 1 \<and> rq_meshUID q = tg_meshUID t \<and> rq_nodeName q = tg_nodeName t \<and> rq_nodeUID q = tg_nodeUID t \<and>
      rq_bootID q = tg_bootID t \<and> rq_rootPublicKey q = tg_rootPublicKey t \<and> rq_native q \<noteq> None \<and>
      rq_baseHash q = HashPeerList env baseRaw)"

definition receipt_matches :: "'a round_env_scheme \<Rightarrow> receive_target \<Rightarrow> string \<Rightarrow> receive_prepare \<Rightarrow> receive_ready \<Rightarrow> bool" where
  "receipt_matches env t requestRaw q r =
     (rd_version r = 1 \<and> rd_meshUID r = tg_meshUID t \<and> rd_secretUID r = tg_secretUID t \<and> rd_nodeName r = tg_nodeName t \<and>
      rd_nodeUID r = tg_nodeUID t \<and> rd_bootID r = tg_bootID t \<and> rd_rootPublicKey r = tg_rootPublicKey t \<and>
      rd_baseHash r = rq_baseHash q \<and> rd_requestHash r = HashPeerList env requestRaw)"

fun bind_ports :: "port_map \<Rightarrow> receive_binding list \<Rightarrow> (string \<times> receive_binding) list \<Rightarrow> (string \<times> receive_binding) list res" where
  "bind_ports ports [] acc = Inr acc"
| "bind_ports ports (b # bs) acc =
     (if bd_listenPort b \<noteq> port_of ports (bd_peerPublicKey b)
        then Inl (Error ''receiver listen port differs from the requested transport'')
      else bind_ports ports bs (AList.update (bd_peerPublicKey b) b acc))"

definition ports_of :: "port_map option \<Rightarrow> port_map" where
  "ports_of m = (case m of None \<Rightarrow> [] | Some ps \<Rightarrow> ps)"

definition ValidateReceiveReadiness ::
  "'a tunnel_env_scheme \<Rightarrow> receive_target \<Rightarrow> string \<Rightarrow> string \<Rightarrow> string \<Rightarrow> (string \<times> receive_binding) list res" where
  "ValidateReceiveReadiness env t baseRaw requestRaw receiptRaw =
     (if \<not> target_current t then Inl (Error ''receive readiness requires a current ready target identity'')
      else
        (case json_prepare env requestRaw of
           Some (q, True) \<Rightarrow>
             (case json_ready env receiptRaw of
                Some (r, True) \<Rightarrow>
                  if \<not> request_matches env t baseRaw q
                    then Inl (Error ''receive request does not match the current target or forwarding base'')
                  else if \<not> receipt_matches env t requestRaw q r
                    then Inl (Error ''receive readiness does not match the current target and request'')
                  else
                    (case json_peer_list env baseRaw of
                       None \<Rightarrow> Inl (Error ''invalid receive forwarding base'')
                     | Some previous \<Rightarrow>
                         (case ReceiveScope (rq_meshUID q) (rq_receiverGeneration q) of
                            Inl e \<Rightarrow> Inl e
                          | Inr scope \<Rightarrow>
                              (case PlanReceiveHandover env scope previous (rq_desired q) (case rq_native q of None \<Rightarrow> [] | Some n \<Rightarrow> n) of
                                 Inl e \<Rightarrow> Inl e
                               | Inr plan \<Rightarrow>
                                   (case ValidateReceivePorts (rh_receivers plan) (rq_ports q) of
                                      Inl e \<Rightarrow> Inl e
                                    | Inr _ \<Rightarrow>
                                        (case ValidateReceiveBindings (rh_receivers plan) (tg_rootPublicKey t) (rd_bindings r) of
                                           Inl e \<Rightarrow> Inl e
                                         | Inr _ \<Rightarrow> bind_ports (ports_of (rq_ports q)) (rd_bindings r) [])))))
              | _ \<Rightarrow> Inl (Error ''invalid receive readiness''))
         | _ \<Rightarrow> Inl (Error ''invalid receive request'')))"

definition SiteReceiveReadyKey :: "'a round_env_scheme \<Rightarrow> string \<Rightarrow> string" where
  "SiteReceiveReadyKey env publicKey = ''receive-site-ready-'' @ hex_sha env publicKey"

section \<open>The site's client\<close>

text \<open>The nested loops over the previous and the desired document; the desired one sets the endpoint.\<close>

record client_state =
  cs_sources :: "string list"
  cs_endpoint :: string
  cs_foundDesired :: bool

definition client_peer :: "string \<Rightarrow> bool \<Rightarrow> client_state \<Rightarrow> peer_spec \<Rightarrow> client_state res" where
  "client_peer cloudRoot isDesired st peer =
     (if \<not> p_remote peer then Inl (Error ''site client input contains a site peer'')
      else if p_publicKey peer \<noteq> cloudRoot then Inr st
      else
        (let st1 = st\<lparr>cs_sources := fold List.insert (p_wgAllowedIPs peer) (cs_sources st)\<rparr> in
         Inr (if isDesired then st1\<lparr>cs_endpoint := p_endpoint peer, cs_foundDesired := True\<rparr> else st1)))"

definition PlanSiteReceiveClient ::
  "'a round_env_scheme \<Rightarrow> string \<Rightarrow> string \<Rightarrow> string \<Rightarrow> receive_binding \<Rightarrow> peer_list_doc \<Rightarrow> peer_list_doc \<Rightarrow> site_receive_client res" where
  "PlanSiteReceiveClient env mesh site cloudRoot binding previous desired =
     (if TrimSpace mesh = [] \<or> \<not> validReceivePublicKey site \<or> \<not> validReceivePublicKey cloudRoot \<or> site = cloudRoot \<or>
         bd_peerPublicKey binding \<noteq> site \<or> \<not> validReceivePublicKey (bd_publicKey binding) \<or> bd_publicKey binding = site \<or>
         bd_publicKey binding = cloudRoot \<or> bd_listenPort binding < 1 \<or> 65535 < bd_listenPort binding
        then Inl (Error ''invalid site receiver identities or binding'')
      else
        (case PlanReceiveHandover env mesh previous desired [] of
           Inl e \<Rightarrow> Inl e
         | Inr _ \<Rightarrow>
             (case res_fold (client_peer cloudRoot False) \<lparr>cs_sources = [], cs_endpoint = [], cs_foundDesired = False\<rparr> (doc_peers previous) of
                Inl e \<Rightarrow> Inl e
              | Inr st0 \<Rightarrow>
                  (case res_fold (client_peer cloudRoot True) st0 (doc_peers desired) of
                     Inl e \<Rightarrow> Inl e
                   | Inr st \<Rightarrow>
                       if \<not> cs_foundDesired st \<or> cs_sources st = []
                         then Inl (Error ''site client requires a desired cloud peer with source permissions'')
                       else
                         (case ParseAddrPort (cs_endpoint st) of
                            None \<Rightarrow> Inl (Error ''site client requires an explicit cloud endpoint address'')
                          | Some (a, port) \<Rightarrow>
                              if port = 0 \<or> Is4In6 a \<or> Zone a \<noteq> [] \<or> \<not> IsGlobalUnicast a
                                then Inl (Error ''site client requires an explicit cloud endpoint address'')
                              else
                                Inr \<lparr>cl_interface = ''cldc'' @ hex_encode (take 5 (sha256 env (mesh @ [CHR 0x00] @ site @ [CHR 0x00] @ cloudRoot))),
                                     cl_sitePublicKey = site, cl_cloudRootPublicKey = cloudRoot, cl_publicKey = bd_publicKey binding,
                                     cl_endpoint = show_addr_port a (bd_listenPort binding), cl_allowedSources = sort (cs_sources st)\<rparr>)))))"

definition ReceiveHandshakeMaxAge :: duration where
  "ReceiveHandshakeMaxAge = 3 * 60 * 1000000000"

definition ValidateSiteReceiveReadiness :: "'a tunnel_env_scheme \<Rightarrow> site_receive_ready \<Rightarrow> string \<Rightarrow> time \<Rightarrow> unit res" where
  "ValidateSiteReceiveReadiness env expected raw now =
     (if sr_version expected \<noteq> 1 \<or> sr_meshUID expected = [] \<or> sr_secretUID expected = [] \<or> sr_requestHash expected = [] \<or>
         sr_siteHash expected = [] \<or> sr_nodeName expected = [] \<or> sr_nodeUID expected = [] \<or> sr_bootID expected = [] \<or>
         cl_interface (sr_client expected) = [] \<or> \<not> validReceivePublicKey (cl_sitePublicKey (sr_client expected)) \<or>
         \<not> validReceivePublicKey (cl_cloudRootPublicKey (sr_client expected)) \<or>
         \<not> validReceivePublicKey (cl_publicKey (sr_client expected)) \<or> now = 0
        then Inl (Error ''site receive readiness requires current identities and a validated client plan'')
      else
        (case json_site_ready env raw of
           None \<Rightarrow> Inl (Error ''invalid site receive readiness'')
         | Some (_, False) \<Rightarrow> Inl (Error ''trailing site receive readiness'')
         | Some (r, True) \<Rightarrow>
             (let handshake = sr_handshakeAt r in
              if handshake = 0 \<or> now < handshake \<or> ReceiveHandshakeMaxAge < time_sub now handshake
                then Inl (Error ''site receive handshake is not current'')
              else if r\<lparr>sr_handshakeAt := 0\<rparr> \<noteq> expected\<lparr>sr_handshakeAt := 0\<rparr>
                then Inl (Error ''site receive readiness differs from current identity or proposal'')
              else Inr ())))"

section \<open>What the plan establishes\<close>

definition owner_of :: "peer_spec \<Rightarrow> string \<Rightarrow> owner" where
  "owner_of peer raw = \<lparr>ow_prefix = the (ParsePrefix raw), ow_key = p_publicKey peer, ow_remote = p_remote peer\<rparr>"

definition owners_of :: "peer_list_doc \<Rightarrow> owner list" where
  "owners_of doc = concat (map (\<lambda>peer. map (owner_of peer) (p_wgAllowedIPs peer)) (doc_peers doc))"

definition site_keys :: "peer_list_doc \<Rightarrow> string set" where
  "site_keys doc = {p_publicKey peer | peer. peer \<in> set (doc_peers doc) \<and> \<not> p_remote peer}"

definition owners_ok :: "ip_prefix list \<Rightarrow> owner list \<Rightarrow> bool" where
  "owners_ok native os =
     ((\<forall>x \<in> set os. IsValid (ow_prefix x) \<and> (\<not> ow_remote x \<longrightarrow> (\<forall>b \<in> set native. \<not> Overlaps (ow_prefix x) b))) \<and>
      (\<forall>x \<in> set os. \<forall>y \<in> set os. ow_remote x \<noteq> ow_remote y \<longrightarrow> \<not> Overlaps (ow_prefix x) (ow_prefix y)))"

definition permitted :: "owner list \<Rightarrow> string \<Rightarrow> string set" where
  "permitted os key = {show_prefix (ow_prefix x) | x. x \<in> set os \<and> ow_key x = key \<and> \<not> ow_remote x}"

definition perms_match :: "(string \<times> string list) list \<Rightarrow> owner list \<Rightarrow> bool" where
  "perms_match perms os =
     (distinct (map fst perms) \<and> (\<forall>k s. map_of perms k = Some s \<longrightarrow> distinct s \<and> set s = permitted os k) \<and>
      (\<forall>x \<in> set os. \<not> ow_remote x \<longrightarrow> ow_key x \<in> fst ` set perms))"

definition plan_inv :: "ip_prefix list \<Rightarrow> plan_state \<Rightarrow> bool" where
  "plan_inv native st = (owners_ok native (ps_overlapOwners st) \<and> perms_match (ps_permissions st) (ps_overlapOwners st))"

lemma plan_prefix_Inr:
  "plan_prefix native peer st raw = Inr st' \<longleftrightarrow>
     (\<exists>p. ParsePrefix raw = Some p \<and> source_ok p \<and> (\<forall>b \<in> set native. \<not> p_remote peer \<longrightarrow> \<not> Overlaps p b) \<and>
      (\<forall>x \<in> set (ps_owners st). ow_key x \<noteq> p_publicKey peer \<longrightarrow> \<not> Overlaps p (ow_prefix x)) \<and>
      (\<forall>x \<in> set (ps_overlapOwners st). ow_remote x \<noteq> p_remote peer \<longrightarrow> \<not> Overlaps p (ow_prefix x)) \<and>
      st' = st\<lparr>ps_owners := ps_owners st @ [owner_of peer raw], ps_overlapOwners := ps_overlapOwners st @ [owner_of peer raw],
               ps_permissions := (if p_remote peer then ps_permissions st
                                  else add_permission (p_publicKey peer) (show_prefix p) (ps_permissions st))\<rparr>)"
  unfolding plan_prefix_def opt_case_Inr if_Inl_Inr Let_def owner_of_def by (auto simp: list_ex_iff)

lemma owners_ok_snoc:
  assumes "owners_ok native os" and "IsValid (ow_prefix x)"
    and "\<forall>b \<in> set native. \<not> ow_remote x \<longrightarrow> \<not> Overlaps (ow_prefix x) b"
    and "\<forall>y \<in> set os. ow_remote y \<noteq> ow_remote x \<longrightarrow> \<not> Overlaps (ow_prefix x) (ow_prefix y)"
  shows "owners_ok native (os @ [x])"
proof -
  have "\<not> Overlaps (ow_prefix y) (ow_prefix x)" if "y \<in> set os" "ow_remote y \<noteq> ow_remote x" for y
    using assms(4) that Overlaps_sym by blast
  with assms show ?thesis unfolding owners_ok_def by auto
qed

lemma permitted_empty: "(\<And>x. x \<in> set os \<Longrightarrow> \<not> ow_remote x \<Longrightarrow> ow_key x \<noteq> k) \<Longrightarrow> permitted os k = {}"
  by (auto simp: permitted_def)

lemma permitted_snoc:
  "permitted (os @ [x]) k =
     permitted os k \<union> (if ow_key x = k \<and> \<not> ow_remote x then {show_prefix (ow_prefix x)} else {})"
  by (auto simp: permitted_def)

lemma add_permission_match:
  assumes "perms_match perms os" and "ow_key x \<in> fst ` set perms" and "\<not> ow_remote x"
  shows "perms_match (add_permission (ow_key x) (show_prefix (ow_prefix x)) perms) (os @ [x])"
proof -
  from assms(2) obtain s where s: "map_of perms (ow_key x) = Some s" by (metis map_of_None_fst option.exhaust)
  from assms(1) s have "distinct s" "set s = permitted os (ow_key x)" by (auto simp: perms_match_def)
  with assms s show ?thesis
    by (auto simp: perms_match_def add_permission_def Let_def permitted_snoc update_conv' distinct_update dom_update split: if_splits)
qed

lemma add_permission_keys: "fst ` set (add_permission k s perms) = insert k (fst ` set perms)"
  by (simp add: add_permission_def Let_def dom_update)

lemma perms_match_remote: "perms_match perms os \<Longrightarrow> ow_remote x \<Longrightarrow> perms_match perms (os @ [x])"
  by (auto simp: perms_match_def permitted_snoc)

lemma plan_prefix_inv:
  assumes "plan_prefix native peer st raw = Inr st'" and "plan_inv native st"
    and "\<not> p_remote peer \<longrightarrow> p_publicKey peer \<in> fst ` set (ps_permissions st)"
  shows "plan_inv native st' \<and> ps_overlapOwners st' = ps_overlapOwners st @ [owner_of peer raw] \<and>
     fst ` set (ps_permissions st') = fst ` set (ps_permissions st)"
proof -
  from assms(1) obtain p where p: "ParsePrefix raw = Some p" "\<forall>b \<in> set native. \<not> p_remote peer \<longrightarrow> \<not> Overlaps p b"
    "\<forall>x \<in> set (ps_overlapOwners st). ow_remote x \<noteq> p_remote peer \<longrightarrow> \<not> Overlaps p (ow_prefix x)"
    and st': "ps_overlapOwners st' = ps_overlapOwners st @ [owner_of peer raw]"
      "ps_permissions st' = (if p_remote peer then ps_permissions st
                                  else add_permission (p_publicKey peer) (show_prefix p) (ps_permissions st))"
    unfolding plan_prefix_Inr by auto
  have x: "ow_prefix (owner_of peer raw) = p" "ow_key (owner_of peer raw) = p_publicKey peer" "ow_remote (owner_of peer raw) = p_remote peer"
    using p(1) by (simp_all add: owner_of_def)
  have "owners_ok native (ps_overlapOwners st')"
    unfolding st'(1) using assms(2) p ParsePrefix_valid [OF p(1)] by (intro owners_ok_snoc) (auto simp: plan_inv_def x)
  moreover have "perms_match (ps_permissions st') (ps_overlapOwners st')"
  proof (cases "p_remote peer")
    case True
    with assms(2) show ?thesis by (simp add: st' plan_inv_def perms_match_remote x)
  next
    case False
    with assms(2,3) add_permission_match [of "ps_permissions st" "ps_overlapOwners st" "owner_of peer raw"] show ?thesis
      by (simp add: st' plan_inv_def x)
  qed
  ultimately show ?thesis using assms(3) by (auto simp: plan_inv_def st' add_permission_keys)
qed

lemma plan_prefixes_inv:
  assumes "res_fold (plan_prefix native peer) st raws = Inr st'" and "plan_inv native st"
    and "\<not> p_remote peer \<longrightarrow> p_publicKey peer \<in> fst ` set (ps_permissions st)"
  shows "plan_inv native st' \<and> ps_overlapOwners st' = ps_overlapOwners st @ map (owner_of peer) raws \<and>
     fst ` set (ps_permissions st') = fst ` set (ps_permissions st)"
  using assms
proof (induction raws arbitrary: st)
  case (Cons raw raws)
  then obtain s1 where s1: "plan_prefix native peer st raw = Inr s1" "res_fold (plan_prefix native peer) s1 raws = Inr st'"
    by (auto split: sum.splits)
  with Cons.IH [OF s1(2)] plan_prefix_inv [OF s1(1) Cons.prems(2,3)] Cons.prems(3) show ?case by auto
qed simp

lemma plan_peer_inv:
  assumes "plan_peer native st peer = Inr st'" and "plan_inv native st"
  shows "plan_inv native st' \<and> ps_overlapOwners st' = ps_overlapOwners st @ map (owner_of peer) (p_wgAllowedIPs peer) \<and>
     fst ` set (ps_permissions st') = fst ` set (ps_permissions st) \<union> (if p_remote peer then {} else {p_publicKey peer})"
proof -
  define perms where "perms = (if \<not> p_remote peer \<and> map_of (ps_permissions st) (p_publicKey peer) = None
      then AList.update (p_publicKey peer) [] (ps_permissions st) else ps_permissions st)"
  define s1 where "s1 = st\<lparr>ps_seen := p_publicKey peer # ps_seen st,
     ps_roles := AList.update (p_publicKey peer) (p_remote peer) (ps_roles st), ps_permissions := perms\<rparr>"
  have keys: "fst ` set perms = fst ` set (ps_permissions st) \<union> (if p_remote peer then {} else {p_publicKey peer})"
    by (auto simp: perms_def dom_update map_of_None_fst)
  have fold: "res_fold (plan_prefix native peer) s1 (p_wgAllowedIPs peer) = Inr st'"
    using assms(1) unfolding plan_peer_def if_Inl_Inr s1_def perms_def by blast
  have "perms_match perms (ps_overlapOwners st)"
  proof (cases "\<not> p_remote peer \<and> map_of (ps_permissions st) (p_publicKey peer) = None")
    case True
    then have new: "p_publicKey peer \<notin> fst ` set (ps_permissions st)" by (simp add: map_of_None_fst)
    moreover have "\<forall>x \<in> set (ps_overlapOwners st). \<not> ow_remote x \<longrightarrow> ow_key x \<in> fst ` set (ps_permissions st)"
      using assms(2) unfolding plan_inv_def perms_match_def by blast
    ultimately have none: "permitted (ps_overlapOwners st) (p_publicKey peer) = {}"
      by (intro permitted_empty) metis
    have "perms = ps_permissions st @ [(p_publicKey peer, [])]" using True by (simp add: perms_def update_fresh)
    with assms(2) new none show ?thesis unfolding plan_inv_def perms_match_def
      by (simp add: map_add_def split: option.splits)
  next
    case False
    with assms(2) show ?thesis by (auto simp: plan_inv_def perms_def)
  qed
  with assms(2) have "plan_inv native s1" by (simp add: plan_inv_def s1_def)
  from plan_prefixes_inv [OF fold this] keys show ?thesis by (auto simp: s1_def)
qed

lemma plan_peers_inv:
  assumes "res_fold (plan_peer native) st peers = Inr st'" and "plan_inv native st"
  shows "plan_inv native st' \<and>
     ps_overlapOwners st' = ps_overlapOwners st @ concat (map (\<lambda>peer. map (owner_of peer) (p_wgAllowedIPs peer)) peers) \<and>
     fst ` set (ps_permissions st') = fst ` set (ps_permissions st) \<union> {p_publicKey p | p. p \<in> set peers \<and> \<not> p_remote p}"
  using assms
proof (induction peers arbitrary: st)
  case (Cons peer peers)
  then obtain s1 where s1: "plan_peer native st peer = Inr s1" "res_fold (plan_peer native) s1 peers = Inr st'"
    by (auto split: sum.splits)
  note one = plan_peer_inv [OF s1(1) Cons.prems(2)]
  with Cons.IH [OF s1(2)] show ?case by auto
qed simp

lemma plan_doc_inv:
  assumes "plan_doc native st doc = Inr st'" and "plan_inv native st"
  shows "plan_inv native st' \<and> ps_overlapOwners st' = ps_overlapOwners st @ owners_of doc \<and>
     fst ` set (ps_permissions st') = fst ` set (ps_permissions st) \<union> site_keys doc"
proof -
  have "plan_inv native (st\<lparr>ps_seen := [], ps_owners := []\<rparr>)" using assms(2) by (simp add: plan_inv_def)
  from plan_peers_inv [OF assms(1) [unfolded plan_doc_def] this] show ?thesis
    unfolding owners_of_def site_keys_def by (elim conjE) (intro conjI; simp)
qed

lemma PlanReceiveHandover_Inr:
  assumes "PlanReceiveHandover env mesh previous desired native = Inr plan"
  obtains st where "plan_inv native st" and "ps_overlapOwners st = owners_of previous @ owners_of desired"
    and "fst ` set (ps_permissions st) = site_keys previous \<union> site_keys desired"
    and "distinct (map rp_interface (map (receiver_path env mesh) (ps_permissions st)))"
    and "rh_receivers plan = sort_key rp_publicKey (map (receiver_path env mesh) (ps_permissions st))"
    and "rh_desired plan = desired"
proof -
  from assms obtain st where st: "res_fold (plan_doc native) plan_init [previous, desired] = Inr st"
    and d: "distinct (map rp_interface (map (receiver_path env mesh) (ps_permissions st)))"
    and plan: "plan = \<lparr>rh_receivers = sort_key rp_publicKey (map (receiver_path env mesh) (ps_permissions st)), rh_desired = desired\<rparr>"
    unfolding PlanReceiveHandover_def if_Inl_Inr res_case_Inr Let_def by auto
  from st obtain s1 where s1: "plan_doc native plan_init previous = Inr s1" "plan_doc native s1 desired = Inr st"
    by (auto split: sum.splits)
  have "plan_inv native plan_init" by (simp add: plan_inv_def plan_init_def owners_ok_def perms_match_def)
  note one = plan_doc_inv [OF s1(1) this]
  note two = plan_doc_inv [OF s1(2) one [THEN conjunct1]]
  show thesis by (rule that [of st]) (use one two d plan in \<open>simp_all add: plan_init_def\<close>)
qed

section \<open>Bindings are one to one\<close>

lemma check_bindings_Inr:
  "check_bindings expected reserved seen bs = Inr () \<longleftrightarrow>
     (\<forall>b \<in> set bs. map_of expected (bd_peerPublicKey b) = Some (bd_interface b) \<and> validReceivePublicKey (bd_publicKey b) \<and>
        bd_publicKey b \<notin> set reserved \<and> in_range (bd_listenPort b)) \<and>
     distinct (map bd_peerPublicKey bs) \<and> distinct (map bd_publicKey bs) \<and> distinct (map bd_listenPort bs) \<and>
     bd_peerPublicKey ` set bs \<inter> bd_peerPublicKey ` set seen = {} \<and> bd_publicKey ` set bs \<inter> bd_publicKey ` set seen = {} \<and>
     bd_listenPort ` set bs \<inter> bd_listenPort ` set seen = {}"
proof (induction bs arbitrary: seen)
  case (Cons b bs)
  show ?case unfolding check_bindings.simps if_Inl_Inr Cons.IH by (auto simp: in_range_def)
qed simp

lemma ValidateReceiveBindings_Inr:
  assumes "ValidateReceiveBindings paths root bs = Inr ()" and "distinct (map rp_publicKey paths)"
  shows "bd_peerPublicKey ` set bs = rp_publicKey ` set paths" and "distinct (map bd_peerPublicKey bs)"
    and "distinct (map bd_publicKey bs)" and "distinct (map bd_listenPort bs)"
    and "\<forall>b \<in> set bs. in_range (bd_listenPort b) \<and> bd_publicKey b \<notin> insert root (rp_publicKey ` set paths) \<and>
          (\<exists>p \<in> set paths. rp_publicKey p = bd_peerPublicKey b \<and> rp_interface p = bd_interface b)"
proof -
  let ?exp = "rev (map (\<lambda>p. (rp_publicKey p, rp_interface p)) paths)"
  have len: "length bs = length paths"
    and c: "check_bindings ?exp (root # map rp_publicKey paths) [] bs = Inr ()"
    using assms(1) by (auto simp: ValidateReceiveBindings_def split: if_splits)
  show d: "distinct (map bd_peerPublicKey bs)" and "distinct (map bd_publicKey bs)" and "distinct (map bd_listenPort bs)"
    using c by (simp_all add: check_bindings_Inr)
  have ex: "\<exists>p \<in> set paths. rp_publicKey p = bd_peerPublicKey b \<and> rp_interface p = bd_interface b" if "b \<in> set bs" for b
  proof -
    have "map_of ?exp (bd_peerPublicKey b) = Some (bd_interface b)" using c that by (simp add: check_bindings_Inr)
    from map_of_SomeD [OF this] show ?thesis by auto
  qed
  with c show "\<forall>b \<in> set bs. in_range (bd_listenPort b) \<and> bd_publicKey b \<notin> insert root (rp_publicKey ` set paths) \<and>
          (\<exists>p \<in> set paths. rp_publicKey p = bd_peerPublicKey b \<and> rp_interface p = bd_interface b)"
    by (auto simp: check_bindings_Inr)
  have "set (map bd_peerPublicKey bs) \<subseteq> set (map rp_publicKey paths)" using ex by force
  moreover have "card (set (map bd_peerPublicKey bs)) = card (set (map rp_publicKey paths))"
    using distinct_card [OF d] distinct_card [OF assms(2)] len by simp
  ultimately have "set (map bd_peerPublicKey bs) = set (map rp_publicKey paths)" by (intro card_subset_eq) auto
  then show "bd_peerPublicKey ` set bs = rp_publicKey ` set paths" by simp
qed

lemma bind_ports_Inr:
  assumes "bind_ports ports bs acc = Inr out" and "distinct (map bd_peerPublicKey bs)"
  shows "(\<forall>b \<in> set bs. map_of out (bd_peerPublicKey b) = Some b \<and> bd_listenPort b = port_of ports (bd_peerPublicKey b)) \<and>
     (\<forall>k. k \<notin> bd_peerPublicKey ` set bs \<longrightarrow> map_of out k = map_of acc k)"
  using assms
proof (induction bs arbitrary: acc)
  case (Cons b bs)
  then have eq: "bd_listenPort b = port_of ports (bd_peerPublicKey b)"
    and rest: "bind_ports ports bs (AList.update (bd_peerPublicKey b) b acc) = Inr out" by (auto split: if_splits)
  from Cons.IH [OF rest] Cons.prems(2) eq show ?case by (auto simp: update_conv')
qed simp

lemma receiver_keys_distinct:
  assumes "PlanReceiveHandover env mesh previous desired native = Inr plan"
  shows "distinct (map rp_publicKey (rh_receivers plan))" and "sorted (map rp_publicKey (rh_receivers plan))"
    and "rp_publicKey ` set (rh_receivers plan) = site_keys previous \<union> site_keys desired"
    and "distinct (map rp_interface (rh_receivers plan))"
proof -
  obtain st where st: "plan_inv native st" "fst ` set (ps_permissions st) = site_keys previous \<union> site_keys desired"
    "distinct (map rp_interface (map (receiver_path env mesh) (ps_permissions st)))"
    "rh_receivers plan = sort_key rp_publicKey (map (receiver_path env mesh) (ps_permissions st))"
    by (rule PlanReceiveHandover_Inr [OF assms])
  let ?ps = "map (receiver_path env mesh) (ps_permissions st)"
  have key: "map rp_publicKey ?ps = map fst (ps_permissions st)" by (simp add: receiver_path_def)
  have m: "mset (rh_receivers plan) = mset ?ps" by (simp add: st(4))
  have "distinct (map rp_publicKey ?ps)" unfolding key using st(1) by (simp add: plan_inv_def perms_match_def)
  with mset_eq_distinct_map [OF m] st(3) show "distinct (map rp_publicKey (rh_receivers plan))"
    and "distinct (map rp_interface (rh_receivers plan))" by blast+
  show "sorted (map rp_publicKey (rh_receivers plan))" by (simp add: st(4))
  have "rp_publicKey ` set (rh_receivers plan) = set (map rp_publicKey ?ps)" by (simp add: st(4) image_image)
  also have "\<dots> = fst ` set (ps_permissions st)" unfolding key by simp
  finally show "rp_publicKey ` set (rh_receivers plan) = site_keys previous \<union> site_keys desired" using st(2) by simp
qed

lemma receiver_sources:
  assumes "PlanReceiveHandover env mesh previous desired native = Inr plan" and "r \<in> set (rh_receivers plan)"
  shows "set (rp_allowedSources r) = permitted (owners_of previous @ owners_of desired) (rp_publicKey r)"
    and "sorted (rp_allowedSources r)" and "rp_interface r = receiver_interface env mesh (rp_publicKey r)"
proof -
  obtain st where st: "plan_inv native st" "ps_overlapOwners st = owners_of previous @ owners_of desired"
    "rh_receivers plan = sort_key rp_publicKey (map (receiver_path env mesh) (ps_permissions st))"
    by (rule PlanReceiveHandover_Inr [OF assms(1)])
  from assms(2) st(3) obtain k s where ks: "(k, s) \<in> set (ps_permissions st)" "r = receiver_path env mesh (k, s)" by auto
  from st(1) have pm: "perms_match (ps_permissions st) (owners_of previous @ owners_of desired)"
    unfolding plan_inv_def st(2) by blast
  with ks(1) have "map_of (ps_permissions st) k = Some s" by (simp add: perms_match_def)
  with pm have "set s = permitted (owners_of previous @ owners_of desired) k" unfolding perms_match_def by blast
  with ks(2) show "set (rp_allowedSources r) = permitted (owners_of previous @ owners_of desired) (rp_publicKey r)"
    and "sorted (rp_allowedSources r)" and "rp_interface r = receiver_interface env mesh (rp_publicKey r)"
    by (simp_all add: receiver_path_def)
qed

section \<open>One owner per source within a generation\<close>

definition one_owner :: "owner list \<Rightarrow> bool" where
  "one_owner os = (\<forall>x \<in> set os. \<forall>y \<in> set os. ow_key x \<noteq> ow_key y \<longrightarrow> \<not> Overlaps (ow_prefix x) (ow_prefix y))"

lemma one_owner_address:
  assumes "one_owner os" and "x \<in> set os" and "y \<in> set os" and "Contains (ow_prefix x) a" and "Contains (ow_prefix y) a"
  shows "ow_key x = ow_key y"
proof (rule ccontr)
  assume "ow_key x \<noteq> ow_key y"
  with assms(1-3) have "\<not> Overlaps (ow_prefix x) (ow_prefix y)" unfolding one_owner_def by metis
  from disjoint_prefixes [OF this assms(4)] assms(5) show False by contradiction
qed

lemma one_owner_snoc:
  assumes "one_owner os" and "\<forall>y \<in> set os. ow_key y \<noteq> ow_key x \<longrightarrow> \<not> Overlaps (ow_prefix x) (ow_prefix y)"
  shows "one_owner (os @ [x])"
proof -
  have "\<not> Overlaps (ow_prefix y) (ow_prefix x)" if "y \<in> set os" "ow_key y \<noteq> ow_key x" for y
    using assms(2) that Overlaps_sym by blast
  with assms show ?thesis unfolding one_owner_def by auto
qed

lemma plan_prefix_owners:
  assumes "plan_prefix native peer st raw = Inr st'" and "one_owner (ps_owners st)"
  shows "one_owner (ps_owners st') \<and> ps_owners st' = ps_owners st @ [owner_of peer raw]"
proof -
  from assms(1) obtain p where p: "ParsePrefix raw = Some p"
    "\<forall>x \<in> set (ps_owners st). ow_key x \<noteq> p_publicKey peer \<longrightarrow> \<not> Overlaps p (ow_prefix x)"
    and st': "ps_owners st' = ps_owners st @ [owner_of peer raw]"
    unfolding plan_prefix_Inr by auto
  have "one_owner (ps_owners st @ [owner_of peer raw])"
    using assms(2) p by (intro one_owner_snoc) (simp_all add: owner_of_def)
  with st' show ?thesis by simp
qed

lemma plan_prefixes_owners:
  assumes "res_fold (plan_prefix native peer) st raws = Inr st'" and "one_owner (ps_owners st)"
  shows "one_owner (ps_owners st') \<and> ps_owners st' = ps_owners st @ map (owner_of peer) raws"
  using assms
proof (induction raws arbitrary: st)
  case (Cons raw raws)
  then obtain s1 where s1: "plan_prefix native peer st raw = Inr s1" "res_fold (plan_prefix native peer) s1 raws = Inr st'"
    by (auto split: sum.splits)
  with Cons.IH [OF s1(2)] plan_prefix_owners [OF s1(1) Cons.prems(2)] show ?case by auto
qed simp

lemma plan_peers_owners:
  assumes "res_fold (plan_peer native) st peers = Inr st'" and "one_owner (ps_owners st)"
  shows "one_owner (ps_owners st') \<and>
     ps_owners st' = ps_owners st @ concat (map (\<lambda>peer. map (owner_of peer) (p_wgAllowedIPs peer)) peers)"
  using assms
proof (induction peers arbitrary: st)
  case (Cons peer peers)
  then obtain s1 where s1: "plan_peer native st peer = Inr s1" "res_fold (plan_peer native) s1 peers = Inr st'"
    by (auto split: sum.splits)
  from s1(1) obtain s0 where s0: "ps_owners s0 = ps_owners st" "res_fold (plan_prefix native peer) s0 (p_wgAllowedIPs peer) = Inr s1"
    unfolding plan_peer_def if_Inl_Inr by (metis (no_types, lifting) plan_state.select_convs(5) plan_state.simps plan_state.surjective plan_state.update_convs)
  with Cons.IH [OF s1(2)] plan_prefixes_owners [OF s0(2)] Cons.prems(2) show ?case by auto
qed simp

lemma plan_doc_owners: "plan_doc native st doc = Inr st' \<Longrightarrow> one_owner (owners_of doc)"
  using plan_peers_owners [of native "st\<lparr>ps_seen := [], ps_owners := []\<rparr>" "doc_peers doc" st']
  by (simp add: plan_doc_def owners_of_def one_owner_def)

lemma generation_owners:
  assumes "PlanReceiveHandover env mesh previous desired native = Inr plan"
  shows "one_owner (owners_of previous)" and "one_owner (owners_of desired)"
proof -
  from assms obtain st where "res_fold (plan_doc native) plan_init [previous, desired] = Inr st"
    unfolding PlanReceiveHandover_def if_Inl_Inr res_case_Inr Let_def by auto
  then obtain s1 where "plan_doc native plan_init previous = Inr s1" "plan_doc native s1 desired = Inr st"
    by (auto split: sum.splits)
  then show "one_owner (owners_of previous)" and "one_owner (owners_of desired)" using plan_doc_owners by blast+
qed

end
