(* ===== verification/Routes.thy ===== *)
theory Routes
  imports Receivers
begin

text \<open>
  Receiver route plans (\<open>controller/pkg/tunnel/receive_transition.go\<close>, \<open>receive_site_tunnel.go\<close>,
  \<open>receive_site_legacy.go\<close>, \<open>receive_site_forward.go\<close>, \<open>receive_local_network.go\<close>,
  \<open>receive_previous_receiver.go\<close>, \<open>receive_routes.go\<close> and the transit helpers of \<open>tunnel.go\<close>): the
  public plan persisted with a handover round, the validation of its site paths, and the routes each
  node may select.
\<close>

section \<open>Data\<close>

record transit_spec =
  tr_via :: string
  tr_viaOtherFamily :: string
  tr_hosts :: "string list"
  tr_blocks :: "string list"

record site_tunnel =
  st_addresses :: "string list"
  st_hosts :: "string list"

record site_path =
  sp_sources :: "string list"
  sp_peerPublicKey :: string
  sp_transit :: "transit_spec option"
  sp_tunnel :: "site_tunnel option"

record transition_site =
  ts_nodeName :: string
  ts_nodeUID :: string
  ts_routeSources :: "string list option"
  ts_client :: site_receive_client
  ts_legacy :: "site_path option"
  ts_forward :: "site_path option"

text \<open>
  \<open>ReceiveTransitionPlan\<close> is a record of its own fields and the previous receiver: its generation and
  a plan, both pointers possibly nil.
\<close>

record plan_fields =
  pn_namespace :: string
  pn_meshName :: string
  pn_machineName :: string
  pn_adoptionName :: string
  pn_cloudNodeName :: string
  pn_version :: int
  pn_receiverGeneration :: string
  pn_meshUID :: string
  pn_machineUID :: string
  pn_adoptionUID :: string
  pn_cloudNodeUID :: string
  pn_rootPublicKey :: string
  pn_cloudAddresses :: "string list option"
  pn_base :: string
  pn_desired :: peer_list_doc
  pn_siteDesired :: peer_list_doc
  pn_siteBase :: "peer_list_doc option"
  pn_native :: "ip_prefix list option"
  pn_ports :: "port_map option"
  pn_bindings :: "(string \<times> receive_binding) list"
  pn_sites :: "(string \<times> transition_site) list"

datatype transition_plan =
  TransitionPlan (plan_fields: plan_fields) (previousReceiver: "(string \<times> transition_plan option) option")

definition plan_ReceiveScope :: "plan_fields \<Rightarrow> string res" where
  "plan_ReceiveScope p = ReceiveScope (pn_meshUID p) (pn_receiverGeneration p)"

definition PreviousSitePeers :: "plan_fields \<Rightarrow> peer_list_doc" where
  "PreviousSitePeers p = (case pn_siteBase p of Some d \<Rightarrow> d | None \<Rightarrow> pn_siteDesired p)"

section \<open>Transit\<close>

text \<open>\<open>setTransitDestinations\<close>: hosts first seen, then permissions beyond a peer's own hosts.\<close>

definition add_seen :: "string \<Rightarrow> string list \<times> string list \<Rightarrow> string list \<times> string list" where
  "add_seen x acc = (if x \<in> set (fst acc) then acc else (x # fst acc, snd acc @ [x]))"

definition transit_peer :: "peer_spec \<Rightarrow> string list \<times> string list \<times> string list \<Rightarrow> string list \<times> string list \<times> string list" where
  "transit_peer peer = (\<lambda>(seen, hosts, blocks).
     let (seen1, hosts1) = fold add_seen (AllRouteHosts peer) (seen, hosts);
         hostSet = map (before CHR ''/'') (AllRouteHosts peer);
         (seen2, blocks1) = fold add_seen (filter (\<lambda>a. before CHR ''/'' a \<notin> set hostSet) (p_wgAllowedIPs peer)) (seen1, blocks)
     in (seen2, hosts1, blocks1))"

definition setTransitDestinations :: "transit_spec \<Rightarrow> peer_spec list \<Rightarrow> transit_spec" where
  "setTransitDestinations t peers =
     (let (_, hosts, blocks) = fold transit_peer peers ([], [], []) in t\<lparr>tr_hosts := sort hosts, tr_blocks := sort blocks\<rparr>)"

definition Gateway :: "transit_spec \<Rightarrow> addr \<Rightarrow> (128 word) option" where
  "Gateway t dst =
     (if dst = NoAddr then None
      else
        (case filter (\<lambda>r. case r of None \<Rightarrow> False | Some ip \<Rightarrow> is_To4 ip = (Is4 dst \<or> Is4In6 dst))
                (map ParseIP [tr_via t, tr_viaOtherFamily t]) of
           [] \<Rightarrow> None
         | r # _ \<Rightarrow> r))"

section \<open>The tunnel exception of a site\<close>

fun tunnel_addresses :: "string list \<Rightarrow> (bool \<times> ip_prefix) list \<Rightarrow> string list \<Rightarrow> ((bool \<times> ip_prefix) list \<times> string list) res" where
  "tunnel_addresses [] subnets out = Inr (subnets, out)"
| "tunnel_addresses (raw # rest) subnets out =
     (case ParsePrefix raw of
        None \<Rightarrow> Inl (Error ''legacy tunnel exception: invalid tunnel allocation'')
      | Some p \<Rightarrow>
          if pf_bits p = 0 \<or> \<not> IsGlobalUnicast (pf_addr p) \<or> Is4In6 (pf_addr p)
            then Inl (Error ''legacy tunnel exception: invalid tunnel allocation'')
          else if map_of subnets (Is4 (pf_addr p)) \<noteq> None
            then Inl (Error ''legacy tunnel exception: duplicate allocation family'')
          else tunnel_addresses rest ((Is4 (pf_addr p), p) # subnets) (out @ [show_prefix p]))"

fun tunnel_sources :: "(bool \<times> ip_prefix) list \<Rightarrow> string list \<Rightarrow> bool list \<Rightarrow> bool list res" where
  "tunnel_sources subnets [] accepted = Inr accepted"
| "tunnel_sources subnets (raw # rest) accepted =
     (case ParsePrefix raw of
        None \<Rightarrow> Inl (Error ''legacy tunnel exception: invalid legacy source permission'')
      | Some p \<Rightarrow>
          if \<not> source_ok p then Inl (Error ''legacy tunnel exception: invalid legacy source permission'')
          else tunnel_sources subnets rest (map fst (filter (\<lambda>(f, a). Contains p (pf_addr a)) subnets) @ accepted))"

fun tunnel_peers :: "(bool \<times> ip_prefix) list \<Rightarrow> string \<Rightarrow> peer_spec list \<Rightarrow> bool \<Rightarrow> bool list \<Rightarrow> bool list res" where
  "tunnel_peers subnets public [] found accepted = Inr accepted"
| "tunnel_peers subnets public (peer # rest) found accepted =
     (if p_publicKey peer \<noteq> public then tunnel_peers subnets public rest found accepted
      else if found \<or> p_remote peer then Inl (Error ''legacy tunnel exception: ambiguous legacy peer identity'')
      else
        (case tunnel_sources subnets (p_wgAllowedIPs peer) accepted of
           Inl e \<Rightarrow> Inl e
         | Inr accepted1 \<Rightarrow> tunnel_peers subnets public rest True accepted1))"

fun tunnel_hosts :: "(bool \<times> ip_prefix) list \<Rightarrow> bool list \<Rightarrow> string list \<Rightarrow> string list \<Rightarrow> string list res" where
  "tunnel_hosts subnets accepted [] out = Inr out"
| "tunnel_hosts subnets accepted (raw # rest) out =
     (case ParsePrefix (HostCIDR raw) of
        None \<Rightarrow> Inl (Error ''legacy tunnel exception: invalid cloud route host'')
      | Some host \<Rightarrow>
          if pf_bits host \<noteq> BitLen (pf_addr host) \<or> \<not> IsGlobalUnicast (pf_addr host) \<or> Is4In6 (pf_addr host)
            then Inl (Error ''legacy tunnel exception: invalid cloud route host'')
          else
            (let family = Is4 (pf_addr host) in
             case map_of subnets family of
               None \<Rightarrow> tunnel_hosts subnets accepted rest out
             | Some subnet \<Rightarrow>
                 if family \<notin> set accepted \<or> \<not> Contains subnet (pf_addr host) then tunnel_hosts subnets accepted rest out
                 else if show_prefix host \<in> set out then tunnel_hosts subnets accepted rest out
                 else tunnel_hosts subnets accepted rest (out @ [show_prefix host])))"

definition planReceiveSiteTunnel :: "string list \<Rightarrow> string \<Rightarrow> peer_list_doc \<Rightarrow> peer_spec \<Rightarrow> bool \<Rightarrow> site_tunnel res" where
  "planReceiveSiteTunnel addresses public base cloud relayed =
     (if addresses = [] then Inl (Error ''legacy tunnel exception: explicit tunnel allocation required'')
      else
        (case tunnel_addresses addresses [] [] of
           Inl e \<Rightarrow> Inl e
         | Inr (subnets, out) \<Rightarrow>
             (case tunnel_peers subnets public (doc_peers base) False [] of
                Inl e \<Rightarrow> Inl e
              | Inr accepted \<Rightarrow>
                  if \<not> relayed
                    then
                      (if list_ex (\<lambda>(family, _). family \<notin> set accepted) subnets
                         then Inl (Error ''legacy tunnel exception: direct legacy peer does not accept allocated tunnel source'')
                       else Inr \<lparr>st_addresses = sort out, st_hosts = []\<rparr>)
                  else
                    (case tunnel_hosts subnets accepted (AllRouteHosts cloud) [] of
                       Inl e \<Rightarrow> Inl e
                     | Inr hosts \<Rightarrow> Inr \<lparr>st_addresses = sort out, st_hosts = sort hosts\<rparr>))))"

section \<open>Source owners of a generation\<close>

text \<open>
  \<open>receiveLegacySourceOwner\<close>: \<open>owner\<close> and \<open>covered\<close> of one source over the permissions of all peers, and the
  peer that owns every source.
\<close>

fun owner_prefixes ::
  "ip_prefix \<Rightarrow> peer_spec \<Rightarrow> string list \<Rightarrow> string \<times> bool \<times> peer_spec option \<Rightarrow> (string \<times> bool \<times> peer_spec option) res" where
  "owner_prefixes source peer [] st = Inr st"
| "owner_prefixes source peer (allowed # rest) (ow, covered, result) =
     (case ParsePrefix allowed of
        None \<Rightarrow> Inl (Error ''invalid prefix'')
      | Some p \<Rightarrow>
          if \<not> Overlaps p source then owner_prefixes source peer rest (ow, covered, result)
          else if p_remote peer \<or> (ow \<noteq> [] \<and> ow \<noteq> p_publicKey peer)
            then Inl (Error ''ambiguous or partial legacy site source owner'')
          else if (case result of None \<Rightarrow> False | Some q \<Rightarrow> p_publicKey q \<noteq> [] \<and> p_publicKey q \<noteq> p_publicKey peer)
            then Inl (Error ''legacy site sources use different owners'')
          else owner_prefixes source peer rest (p_publicKey peer, covered \<or> pf_bits p \<le> pf_bits source, Some peer))"

fun owner_peers ::
  "ip_prefix \<Rightarrow> peer_spec list \<Rightarrow> string \<times> bool \<times> peer_spec option \<Rightarrow> (string \<times> bool \<times> peer_spec option) res" where
  "owner_peers source [] st = Inr st"
| "owner_peers source (peer # rest) st =
     (case owner_prefixes source peer (p_wgAllowedIPs peer) st of Inl e \<Rightarrow> Inl e | Inr st1 \<Rightarrow> owner_peers source rest st1)"

fun owner_sources :: "peer_spec list \<Rightarrow> string list \<Rightarrow> string list \<Rightarrow> peer_spec option \<Rightarrow> peer_spec option res" where
  "owner_sources peers [] seen result = Inr result"
| "owner_sources peers (raw # rest) seen result =
     (case ParsePrefix raw of
        None \<Rightarrow> Inl (Error ''invalid legacy site source allocation'')
      | Some source \<Rightarrow>
          if \<not> source_ok source \<or> raw \<in> set seen then Inl (Error ''invalid legacy site source allocation'')
          else
            (case owner_peers source peers ([], False, result) of
               Inl e \<Rightarrow> Inl e
             | Inr (ow, covered, result1) \<Rightarrow>
                 if ow = [] \<or> \<not> covered then Inl (Error ''legacy cloud document does not accept site source'')
                 else owner_sources peers rest (raw # seen) result1))"

definition receiveLegacySourceOwner :: "peer_list_doc \<Rightarrow> string list \<Rightarrow> peer_spec res" where
  "receiveLegacySourceOwner base sources =
     (if sources = [] then Inl (Error ''legacy site source allocation missing'')
      else
        (case owner_sources (doc_peers base) sources [] None of
           Inl e \<Rightarrow> Inl e
         | Inr None \<Rightarrow> Inl (Error ''invalid legacy site owner identity'')
         | Inr (Some peer) \<Rightarrow>
             if validReceivePublicKey (p_publicKey peer) then Inr peer else Inl (Error ''invalid legacy site owner identity'')))"

section \<open>Site paths\<close>

fun check_gateways :: "peer_list_doc \<Rightarrow> peer_spec \<Rightarrow> string list \<Rightarrow> string list \<Rightarrow> unit res" where
  "check_gateways base ow ownHosts [] = Inr ()"
| "check_gateways base ow ownHosts (raw # rest) =
     (if raw = [] then check_gateways base ow ownHosts rest
      else
        (case ParseAddr raw of
           None \<Rightarrow> Inl (Error ''legacy relay gateway is not its own admitted host'')
         | Some a \<Rightarrow>
             if \<not> IsGlobalUnicast a \<or> Is4In6 a \<or> HostCIDR raw \<notin> set ownHosts
               then Inl (Error ''legacy relay gateway is not its own admitted host'')
             else
               (case receiveLegacySourceOwner base [HostCIDR raw] of
                  Inl _ \<Rightarrow> Inl (Error ''legacy relay gateway is not accepted by its peer'')
                | Inr g \<Rightarrow>
                    if p_publicKey g \<noteq> p_publicKey ow then Inl (Error ''legacy relay gateway is not accepted by its peer'')
                    else check_gateways base ow ownHosts rest)))"

definition own_hosts :: "peer_spec \<Rightarrow> string list" where
  "own_hosts ow = filter (\<lambda>h. h \<notin> set (map HostCIDR (p_transitHosts ow))) (map HostCIDR (AllRouteHosts ow))"

definition destination_reached :: "transit_spec \<Rightarrow> string \<Rightarrow> bool" where
  "destination_reached t raw =
     (case ParsePrefix (HostCIDR raw) of None \<Rightarrow> False | Some p \<Rightarrow> Gateway t (pf_addr p) \<noteq> None)"

definition family_of :: "string \<Rightarrow> bool" where
  "family_of raw = (case ParseAddr raw of None \<Rightarrow> False | Some a \<Rightarrow> Is4 a)"

definition ValidateReceiveSiteLegacy :: "site_path \<Rightarrow> string \<Rightarrow> peer_list_doc \<Rightarrow> peer_spec \<Rightarrow> unit res" where
  "ValidateReceiveSiteLegacy path public base cloud =
     (if (case sp_tunnel path of
            None \<Rightarrow> False
          | Some t \<Rightarrow> planReceiveSiteTunnel (st_addresses t) public base cloud (sp_transit path \<noteq> None) \<noteq> Inr t)
        then Inl (Error ''legacy tunnel exception differs from admitted source permissions'')
      else
        (case receiveLegacySourceOwner base (sp_sources path) of
           Inl e \<Rightarrow> Inl e
         | Inr ow \<Rightarrow>
             if p_publicKey ow \<noteq> sp_peerPublicKey path then Inl (Error ''legacy source owner differs'')
             else if p_publicKey ow = public
               then (if sp_transit path \<noteq> None then Inl (Error ''direct legacy source owner has a relay'') else Inr ())
             else
               (case sp_transit path of
                  None \<Rightarrow> Inl (Error ''legacy relay path missing'')
                | Some t \<Rightarrow>
                    (case check_gateways base ow (own_hosts ow) [tr_via t, tr_viaOtherFamily t] of
                       Inl e \<Rightarrow> Inl e
                     | Inr _ \<Rightarrow>
                         if tr_via t = [] then Inl (Error ''legacy relay gateway missing'')
                         else if tr_viaOtherFamily t \<noteq> [] \<and> family_of (tr_via t) = family_of (tr_viaOtherFamily t)
                           then Inl (Error ''legacy relay gateways have the same family'')
                         else if setTransitDestinations \<lparr>tr_via = tr_via t, tr_viaOtherFamily = tr_viaOtherFamily t, tr_hosts = [], tr_blocks = []\<rparr> [cloud] \<noteq> t
                           then Inl (Error ''legacy relay destinations differ from worker'')
                         else if \<not> list_all (destination_reached t) (p_wgAllowedIPs cloud @ AllRouteHosts cloud)
                           then Inl (Error ''legacy relay lacks a destination address family'')
                         else Inr ()))))"

definition ValidateReceiveSiteForward :: "transition_site \<Rightarrow> string \<Rightarrow> peer_list_doc \<Rightarrow> peer_spec \<Rightarrow> unit res" where
  "ValidateReceiveSiteForward site public desired cloud =
     (case ts_forward site of
        None \<Rightarrow> Inr ()
      | Some fw \<Rightarrow>
          (case (ts_legacy site, sp_tunnel fw) of
             (Some lg, Some ft) \<Rightarrow>
               (case sp_tunnel lg of
                  None \<Rightarrow> Inl (Error ''forward site path requires both allocation projections'')
                | Some lt \<Rightarrow>
                    if sp_sources lg \<noteq> sp_sources fw \<or> st_addresses lt \<noteq> st_addresses ft
                      then Inl (Error ''site allocation changes across forwarding generations'')
                    else
                      (case ValidateReceiveSiteLegacy fw public desired cloud of
                         Inl e \<Rightarrow> Inl (wrap ''desired site forwarding: '' e)
                       | Inr _ \<Rightarrow> Inr ()))
           | _ \<Rightarrow> Inl (Error ''forward site path requires both allocation projections'')))"

section \<open>Local networks\<close>

definition ReceiveLocalNetwork :: "plan_fields \<Rightarrow> string \<Rightarrow> (string list \<times> string list) res" where
  "ReceiveLocalNetwork p nodeUID =
     (case pn_cloudAddresses p of
        None \<Rightarrow> Inl (Error ''receiver plan lacks cloud allocation'')
      | Some [] \<Rightarrow> Inl (Error ''receiver plan lacks cloud allocation'')
      | Some addresses \<Rightarrow>
          if nodeUID = pn_cloudNodeUID p then Inr ([], addresses)
          else
            (case find (\<lambda>(_, site). ts_nodeUID site = nodeUID) (pn_sites p) of
               None \<Rightarrow> Inl (Error ''receiver plan has no local network identity'')
             | Some (_, site) \<Rightarrow>
                 (case (ts_routeSources site, ts_legacy site) of
                    (Some (s # ss), Some lg) \<Rightarrow>
                      (case sp_tunnel lg of
                         None \<Rightarrow> Inl (Error ''receiver plan lacks site network identity'')
                       | Some t \<Rightarrow> Inr (s # ss, st_addresses t))
                  | _ \<Rightarrow> Inl (Error ''receiver plan lacks site network identity''))))"

fun cloud_allocations :: "string list \<Rightarrow> string list \<Rightarrow> bool list \<Rightarrow> unit res" where
  "cloud_allocations hosts [] families = Inr ()"
| "cloud_allocations hosts (raw # rest) families =
     (case ParsePrefix raw of
        None \<Rightarrow> Inl (Error ''invalid or unpublished receiver cloud allocation'')
      | Some p \<Rightarrow>
          if pf_bits p = 0 \<or> \<not> IsGlobalUnicast (pf_addr p) \<or> Is4In6 (pf_addr p) \<or> Is4 (pf_addr p) \<in> set families \<or>
             HostCIDR (show_addr (pf_addr p)) \<notin> set hosts
            then Inl (Error ''invalid or unpublished receiver cloud allocation'')
          else cloud_allocations hosts rest (Is4 (pf_addr p) # families))"

fun route_sources :: "site_path \<Rightarrow> site_path \<Rightarrow> string list \<Rightarrow> string list \<Rightarrow> unit res" where
  "route_sources lg fw [] seen = Inr ()"
| "route_sources lg fw (raw # rest) seen =
     (case ParseAddr raw of
        None \<Rightarrow> Inl (Error ''receiver route source lacks generation permission'')
      | Some a \<Rightarrow>
          if \<not> IsGlobalUnicast a \<or> Is4In6 a \<or> raw \<in> set seen \<or> HostCIDR raw \<notin> set (sp_sources lg) \<or> HostCIDR raw \<notin> set (sp_sources fw)
            then Inl (Error ''receiver route source lacks generation permission'')
          else route_sources lg fw rest (raw # seen))"

fun local_sites :: "(string \<times> transition_site) list \<Rightarrow> unit res" where
  "local_sites [] = Inr ()"
| "local_sites ((_, site) # rest) =
     (case (ts_routeSources site, ts_legacy site, ts_forward site) of
        (Some (s # ss), Some lg, Some fw) \<Rightarrow>
          (case route_sources lg fw (s # ss) [] of Inl e \<Rightarrow> Inl e | Inr _ \<Rightarrow> local_sites rest)
      | _ \<Rightarrow> Inl (Error ''missing receiver route source projection''))"

definition validateReceiveLocalNetwork :: "plan_fields \<Rightarrow> unit res" where
  "validateReceiveLocalNetwork p =
     (case pn_cloudAddresses p of
        None \<Rightarrow>
          if list_ex (\<lambda>(_, site). ts_routeSources site \<noteq> None) (pn_sites p)
            then Inl (Error ''partial receiver local network projection'')
          else Inr ()
      | Some [] \<Rightarrow> Inl (Error ''empty receiver cloud allocation'')
      | Some addresses \<Rightarrow>
          (case cloud_allocations
                  (map HostCIDR (concat (map AllRouteHosts (filter (\<lambda>q. p_publicKey q = pn_rootPublicKey p) (doc_peers (pn_siteDesired p))))))
                  addresses [] of
             Inl e \<Rightarrow> Inl e
           | Inr _ \<Rightarrow> local_sites (pn_sites p)))"

section \<open>Routes of one plan\<close>

record route_selection =
  rsel_interface :: string
  rsel_alias :: string
  rsel_publicKey :: string
  rsel_peerPublicKey :: string
  rsel_allowedSources :: "string list"

type_synonym routes = "(string \<times> route_selection) list"

definition empty_selection :: route_selection where
  "empty_selection = \<lparr>rsel_interface = [], rsel_alias = [], rsel_publicKey = [], rsel_peerPublicKey = [], rsel_allowedSources = []\<rparr>"

fun add_allowed :: "route_selection \<Rightarrow> string list \<Rightarrow> ip_prefix list \<Rightarrow> routes \<Rightarrow> (ip_prefix list \<times> routes) res" where
  "add_allowed sel [] allowed routes = Inr (allowed, routes)"
| "add_allowed sel (raw # rest) allowed routes =
     (case ParsePrefix raw of
        None \<Rightarrow> Inl (Error ''invalid prefix'')
      | Some p \<Rightarrow> add_allowed sel rest (allowed @ [p]) (AList.update (show_prefix p) sel routes))"

fun add_hosts :: "route_selection \<Rightarrow> ip_prefix list \<Rightarrow> string list \<Rightarrow> routes \<Rightarrow> routes res" where
  "add_hosts sel allowed [] routes = Inr routes"
| "add_hosts sel allowed (raw # rest) routes =
     (case ParsePrefix (HostCIDR raw) of
        None \<Rightarrow> Inl (Error ''receiver route host is not an explicit unicast host'')
      | Some p \<Rightarrow>
          if pf_bits p \<noteq> BitLen (pf_addr p) \<or> Is4In6 (pf_addr p) \<or> \<not> IsGlobalUnicast (pf_addr p)
            then Inl (Error ''receiver route host is not an explicit unicast host'')
          else if \<not> list_ex (\<lambda>source. Contains source (pf_addr p)) allowed
            then Inl (Error ''receiver route host is outside its peer's source permissions'')
          else add_hosts sel allowed rest (AList.update (show_prefix p) sel routes))"

definition addReceiveRoutes :: "routes \<Rightarrow> peer_spec \<Rightarrow> route_selection \<Rightarrow> routes res" where
  "addReceiveRoutes routes peer sel =
     (case add_allowed sel (p_wgAllowedIPs peer) [] routes of
        Inl e \<Rightarrow> Inl e
      | Inr (allowed, routes1) \<Rightarrow> add_hosts sel allowed (AllRouteHosts peer) routes1)"

text \<open>The loops of \<open>PlanReceiveRoutes\<close>.\<close>

fun check_old_cloud :: "string \<Rightarrow> peer_spec list \<Rightarrow> bool \<Rightarrow> bool res" where
  "check_old_cloud root [] found = Inr found"
| "check_old_cloud root (peer # rest) found =
     (if p_publicKey peer = root
        then (case addReceiveRoutes [] peer empty_selection of Inl e \<Rightarrow> Inl e | Inr _ \<Rightarrow> check_old_cloud root rest True)
      else check_old_cloud root rest found)"

definition bindings_reserved :: "plan_fields \<Rightarrow> bool" where
  "bindings_reserved p =
     list_all (\<lambda>(key, b). key = bd_peerPublicKey b \<and> bd_listenPort b = port_of (ports_of (pn_ports p)) key) (pn_bindings p)"

definition forward_complete :: "plan_fields \<Rightarrow> bool" where
  "forward_complete p =
     (list_ex (\<lambda>(_, site). ts_forward site \<noteq> None) (pn_sites p) \<longrightarrow> list_all (\<lambda>(_, site). ts_forward site \<noteq> None) (pn_sites p))"

text \<open>A key of \<open>p.Bindings\<close> that is absent reads as the zero binding.\<close>

definition binding_of :: "plan_fields \<Rightarrow> string \<Rightarrow> receive_binding" where
  "binding_of p key =
     (case map_of (pn_bindings p) key of
        Some b \<Rightarrow> b
      | None \<Rightarrow> \<lparr>bd_interface = [], bd_peerPublicKey = [], bd_publicKey = [], bd_listenPort = 0\<rparr>)"

definition desired_site :: "plan_fields \<Rightarrow> string \<Rightarrow> peer_spec option" where
  "desired_site p key = find (\<lambda>q. \<not> p_remote q \<and> p_publicKey q = key) (rev (doc_peers (pn_desired p)))"

definition old_cloud :: "plan_fields \<Rightarrow> peer_spec option" where
  "old_cloud p = find (\<lambda>q. p_publicKey q = pn_rootPublicKey p) (rev (doc_peers (PreviousSitePeers p)))"

fun site_routes ::
  "plan_fields \<Rightarrow> peer_list_doc \<Rightarrow> transition_site \<Rightarrow> string \<Rightarrow> route_selection \<Rightarrow> peer_spec list \<Rightarrow> routes \<Rightarrow> routes res" where
  "site_routes p previous site public sel [] routes = Inr routes"
| "site_routes p previous site public sel (cloud # rest) routes =
     (if p_publicKey cloud \<noteq> pn_rootPublicKey p then site_routes p previous site public sel rest routes
      else
        (case (case ts_legacy site of
                 None \<Rightarrow> Inr ()
               | Some lg \<Rightarrow>
                   (case old_cloud p of
                      None \<Rightarrow> Inl (Error ''legacy site cloud identity is missing'')
                    | Some oc \<Rightarrow> ValidateReceiveSiteLegacy lg public previous oc)) of
           Inl e \<Rightarrow> Inl e
         | Inr _ \<Rightarrow>
             (case ValidateReceiveSiteForward site public (pn_desired p) cloud of
                Inl e \<Rightarrow> Inl e
              | Inr _ \<Rightarrow>
                  (case addReceiveRoutes routes cloud sel of
                     Inl e \<Rightarrow> Inl e
                   | Inr routes1 \<Rightarrow> site_routes p previous site public sel rest routes1))))"

definition alias_of :: "'a round_env_scheme \<Rightarrow> string \<Rightarrow> string \<Rightarrow> string" where
  "alias_of env kind text = ''cloud-provisioning:'' @ kind @ '':v1:'' @ hex_sha env text"

text \<open>One receiver: the cloud node's selection towards the site and the site's towards the cloud node.\<close>

definition receiver_routes ::
  "'a round_env_scheme \<Rightarrow> plan_fields \<Rightarrow> string \<Rightarrow> peer_list_doc \<Rightarrow> routes \<times> (string \<times> routes) list \<Rightarrow> receive_path
     \<Rightarrow> (routes \<times> (string \<times> routes) list) res" where
  "receiver_routes env p scope previous acc path =
     (let key = rp_publicKey path; binding = binding_of p key in
      case map_of (pn_sites p) key of
        None \<Rightarrow> Inl (Error ''missing or duplicate receiver site identity'')
      | Some site \<Rightarrow>
          if ts_nodeUID site = [] \<or> ts_nodeName site = [] \<or> ts_nodeUID site = pn_cloudNodeUID p \<or> map_of (snd acc) (ts_nodeUID site) \<noteq> None
            then Inl (Error ''missing or duplicate receiver site identity'')
          else
            (case PlanSiteReceiveClient env scope key (pn_rootPublicKey p) binding (PreviousSitePeers p) (pn_siteDesired p) of
               Inl _ \<Rightarrow> Inl (Error ''site receiver differs from the committed peer document'')
             | Inr client \<Rightarrow>
                 if client \<noteq> ts_client site then Inl (Error ''site receiver differs from the committed peer document'')
                 else
                   (let cloudSel = \<lparr>rsel_interface = bd_interface binding, rsel_alias = alias_of env ''receive'' (scope @ [CHR 0x00] @ key),
                                    rsel_publicKey = bd_publicKey binding, rsel_peerPublicKey = key, rsel_allowedSources = rp_allowedSources path\<rparr>;
                        siteSel = \<lparr>rsel_interface = cl_interface client,
                                   rsel_alias = alias_of env ''receive-client'' (scope @ [CHR 0x00] @ key @ [CHR 0x00] @ pn_rootPublicKey p),
                                   rsel_publicKey = key, rsel_peerPublicKey = bd_publicKey binding, rsel_allowedSources = cl_allowedSources client\<rparr> in
                    case (case desired_site p key of None \<Rightarrow> Inr (fst acc) | Some peer \<Rightarrow> addReceiveRoutes (fst acc) peer cloudSel) of
                      Inl e \<Rightarrow> Inl e
                    | Inr cloudRoutes \<Rightarrow>
                        (case site_routes p previous site key siteSel (doc_peers (pn_siteDesired p)) [] of
                           Inl e \<Rightarrow> Inl e
                         | Inr routes \<Rightarrow> Inr (cloudRoutes, snd acc @ [(ts_nodeUID site, routes)])))))"

text \<open>The body of \<open>PlanReceiveRoutes\<close> after the check of the previous receiver.\<close>

definition plan_routes :: "'a tunnel_env_scheme \<Rightarrow> plan_fields \<Rightarrow> (string \<times> routes) list res" where
  "plan_routes env p =
     (case plan_ReceiveScope p of
        Inl e \<Rightarrow> Inl e
      | Inr scope \<Rightarrow>
          (case validateReceiveLocalNetwork p of
             Inl e \<Rightarrow> Inl e
           | Inr _ \<Rightarrow>
               if (pn_version p \<noteq> 1 \<and> pn_version p \<noteq> 2) \<or> pn_meshUID p = [] \<or> pn_cloudNodeUID p = [] \<or> pn_native p = None \<or>
                  pl_peers (pn_siteDesired p) = None
                 then Inl (Error ''receiver routes require a complete transport plan'')
               else
                 (case check_old_cloud (pn_rootPublicKey p) (doc_peers (PreviousSitePeers p)) False of
                    Inl e \<Rightarrow> Inl e
                  | Inr False \<Rightarrow> Inl (Error ''previous site document lacks the cloud identity'')
                  | Inr True \<Rightarrow>
                      (case json_peer_list env (pn_base p) of
                         None \<Rightarrow> Inl (Error ''invalid base document'')
                       | Some previous \<Rightarrow>
                           (case PlanReceiveHandover env scope previous (pn_desired p) (case pn_native p of None \<Rightarrow> [] | Some n \<Rightarrow> n) of
                              Inl e \<Rightarrow> Inl e
                            | Inr preparation \<Rightarrow>
                                if \<not> bindings_reserved p
                                  then Inl (Error ''receiver binding differs from its reserved identity or port'')
                                else
                                  (case ValidateReceivePorts (rh_receivers preparation) (pn_ports p) of
                                     Inl e \<Rightarrow> Inl e
                                   | Inr _ \<Rightarrow>
                                       (case ValidateReceiveBindings (rh_receivers preparation) (pn_rootPublicKey p) (map snd (pn_bindings p)) of
                                          Inl e \<Rightarrow> Inl e
                                        | Inr _ \<Rightarrow>
                                            if \<not> forward_complete p then Inl (Error ''desired site forwarding projection is incomplete'')
                                            else
                                              (case res_fold (receiver_routes env p scope previous) ([], []) (rh_receivers preparation) of
                                                 Inl e \<Rightarrow> Inl e
                                               | Inr (cloudRoutes, siteRoutes) \<Rightarrow>
                                                   if rh_receivers preparation = [] \<or> length (rh_receivers preparation) \<noteq> length (pn_sites p)
                                                     then Inl (Error ''receiver plan has missing or extra site paths'')
                                                   else Inr ((pn_cloudNodeUID p, cloudRoutes) # siteRoutes)))))))))"

section \<open>Previous receivers\<close>

definition receivers_generation :: "string \<Rightarrow> bool" where
  "receivers_generation generation =
     (let hash = TrimPrefix generation ''receivers:'' in
      prefix ''receivers:'' generation \<and>
      (case hex_decode hash of None \<Rightarrow> False | Some raw \<Rightarrow> length raw = 32 \<and> hex_encode raw = hash))"

definition same_identities :: "plan_fields \<Rightarrow> plan_fields \<Rightarrow> bool" where
  "same_identities p old =
     (pn_meshUID p = pn_meshUID old \<and> pn_meshName p = pn_meshName old \<and> pn_namespace p = pn_namespace old \<and>
      pn_machineUID p = pn_machineUID old \<and> pn_machineName p = pn_machineName old \<and> pn_adoptionUID p = pn_adoptionUID old \<and>
      pn_adoptionName p = pn_adoptionName old \<and> pn_cloudNodeUID p = pn_cloudNodeUID old \<and>
      pn_cloudNodeName p = pn_cloudNodeName old \<and> pn_rootPublicKey p = pn_rootPublicKey old \<and>
      pn_cloudAddresses p = pn_cloudAddresses old)"

definition same_sites :: "plan_fields \<Rightarrow> plan_fields \<Rightarrow> bool" where
  "same_sites p old =
     list_all (\<lambda>(public, site).
        case map_of (pn_sites old) public of
          None \<Rightarrow> False
        | Some previous \<Rightarrow> ts_nodeUID previous = ts_nodeUID site \<and> ts_nodeName previous = ts_nodeName site) (pn_sites p)"

definition fresh_bindings :: "plan_fields \<Rightarrow> plan_fields \<Rightarrow> bool" where
  "fresh_bindings p old =
     list_all (\<lambda>(_, b). list_all (\<lambda>(_, c).
        bd_interface b \<noteq> bd_interface c \<and> bd_publicKey b \<noteq> bd_publicKey c \<and> bd_listenPort b \<noteq> bd_listenPort c) (pn_bindings old)) (pn_bindings p)"

fun PlanReceiveRoutes :: "'a tunnel_env_scheme \<Rightarrow> transition_plan \<Rightarrow> (string \<times> routes) list res"
  and validateReceivePreviousReceiver :: "'a tunnel_env_scheme \<Rightarrow> transition_plan \<Rightarrow> unit res" where
  "PlanReceiveRoutes env plan =
     (case validateReceivePreviousReceiver env plan of Inl e \<Rightarrow> Inl e | Inr _ \<Rightarrow> plan_routes env (plan_fields plan))"
| "validateReceivePreviousReceiver env (TransitionPlan p None) =
     (if pn_version p = 2 then Inl (Error ''receiver successor plan has no previous graph'') else Inr ())"
| "validateReceivePreviousReceiver env (TransitionPlan p (Some (generation, None))) =
     Inl (Error ''previous receiver graph requires version two'')"
| "validateReceivePreviousReceiver env (TransitionPlan p (Some (generation, Some old))) =
     (if pn_version p \<noteq> 2 then Inl (Error ''previous receiver graph requires version two'')
      else if previousReceiver old \<noteq> None \<or> pn_version (plan_fields old) \<noteq> 1
        then Inl (Error ''previous receiver graph must be a single flattened transport'')
      else if \<not> receivers_generation generation then Inl (Error ''invalid previous receiver generation'')
      else if \<not> same_identities p (plan_fields old) then Inl (Error ''previous receiver graph belongs to different identities'')
      else if pn_receiverGeneration p = [] \<or> pn_receiverGeneration p = pn_receiverGeneration (plan_fields old) \<or>
              pn_base p \<noteq> pn_base (plan_fields old) \<or> pn_siteBase p \<noteq> Some (pn_siteDesired (plan_fields old))
        then Inl (Error ''successor does not preserve its previous receiver inputs'')
      else
        (case PlanReceiveRoutes env old of
           Inl e \<Rightarrow> Inl (wrap ''invalid previous receiver graph: '' e)
         | Inr _ \<Rightarrow>
             if length (pn_sites p) \<noteq> length (pn_sites (plan_fields old))
               then Inl (Error ''successor changes the previous receiver participant set'')
             else if \<not> same_sites p (plan_fields old) then Inl (Error ''successor changes a previous site identity'')
             else if \<not> fresh_bindings p (plan_fields old)
               then Inl (Error ''successor reuses a previous receiver identity or listener'')
             else Inr ()))"

declare PlanReceiveRoutes.simps [simp del] validateReceivePreviousReceiver.simps [simp del]

end
