(* ===== verification/Route_Set.thy ===== *)
theory Route_Set
  imports Routes
begin

text \<open>
  The combined routes of all active plans (\<open>controller/pkg/tunnel/receive_route_set.go\<close>) and what
  they protect from ordinary neighbours (\<open>receive_neighbors.go\<close>): every destination of a node, every
  device and every key has one owner among the journals.
\<close>

section \<open>State\<close>

text \<open>The maps of \<open>PlanReceiveRouteSet\<close>; a destination carries the machine that owns it.\<close>

record set_state =
  ss_result :: "(string \<times> routes) list"
  ss_nodes :: "(string \<times> string \<times> string \<times> string) list"
  ss_names :: "(string \<times> string) list"
  ss_keys :: "(string \<times> string) list"
  ss_machines :: "string list"
  ss_devices :: "(string \<times> routes) list"
  ss_destinations :: "(string \<times> (ip_prefix \<times> string) list) list"

definition get :: "('k \<times> 'v list) list \<Rightarrow> 'k \<Rightarrow> 'v list" where
  "get m k = (case map_of m k of None \<Rightarrow> [] | Some v \<Rightarrow> v)"

definition bindKey :: "string \<Rightarrow> string \<Rightarrow> set_state \<Rightarrow> set_state res" where
  "bindKey key node st =
     (case map_of (ss_keys st) key of
        Some ow \<Rightarrow>
          if ow \<noteq> node then Inl (Error ''receiver key belongs to conflicting nodes'')
          else Inr (st\<lparr>ss_keys := AList.update key node (ss_keys st)\<rparr>)
      | None \<Rightarrow> Inr (st\<lparr>ss_keys := AList.update key node (ss_keys st)\<rparr>))"

definition bindNode :: "string \<Rightarrow> string \<Rightarrow> string \<Rightarrow> string \<Rightarrow> set_state \<Rightarrow> set_state res" where
  "bindNode uid name key role st =
     (if uid = [] \<or> name = [] \<or> key = [] then Inl (Error ''receiver route set has incomplete node identity'')
      else if (case map_of (ss_nodes st) uid of None \<Rightarrow> False | Some old \<Rightarrow> old \<noteq> (name, key, role))
        then Inl (Error ''receiver node identity differs across plans'')
      else if (case map_of (ss_names st) name of None \<Rightarrow> False | Some old \<Rightarrow> old \<noteq> uid)
        then Inl (Error ''receiver node name refers to multiple incarnations'')
      else
        bindKey key uid
          (st\<lparr>ss_nodes := AList.update uid (name, key, role) (ss_nodes st), ss_names := AList.update name uid (ss_names st)\<rparr>))"

text \<open>A destination is claimed unless another machine owns an overlapping one on that node.\<close>

definition claim :: "string \<Rightarrow> string \<Rightarrow> string \<Rightarrow> set_state \<Rightarrow> string \<Rightarrow> set_state res" where
  "claim msg node machine st raw =
     (case ParsePrefix raw of
        None \<Rightarrow> Inl (Error ''invalid prefix'')
      | Some p \<Rightarrow>
          if list_ex (\<lambda>(q, m). m \<noteq> machine \<and> Overlaps q p) (get (ss_destinations st) node) then Inl (Error msg)
          else
            Inr (st\<lparr>ss_destinations :=
                     AList.update node (get (ss_destinations st) node @ [(p, machine)]) (ss_destinations st)\<rparr>))"

definition claim_device :: "string \<Rightarrow> string \<Rightarrow> route_selection \<Rightarrow> set_state \<Rightarrow> set_state res" where
  "claim_device msg node sel st =
     (case map_of (get (ss_devices st) node) (rsel_interface sel) of
        Some old \<Rightarrow>
          if old \<noteq> sel then Inl (Error msg)
          else Inr (st\<lparr>ss_devices := AList.update node (AList.update (rsel_interface sel) sel (get (ss_devices st) node)) (ss_devices st)\<rparr>)
      | None \<Rightarrow>
          Inr (st\<lparr>ss_devices := AList.update node (AList.update (rsel_interface sel) sel (get (ss_devices st) node)) (ss_devices st)\<rparr>))"

section \<open>The loop body\<close>

definition scope_ok :: "plan_fields \<Rightarrow> plan_fields \<Rightarrow> set_state \<Rightarrow> bool" where
  "scope_ok first p st =
     (pn_namespace p \<noteq> [] \<and> pn_meshName p \<noteq> [] \<and> pn_meshUID p \<noteq> [] \<and> pn_namespace p = pn_namespace first \<and>
      pn_meshName p = pn_meshName first \<and> pn_meshUID p = pn_meshUID first \<and> pn_machineUID p \<noteq> [] \<and>
      pn_machineUID p \<notin> set (ss_machines st))"

definition claim_old_peer :: "plan_fields \<Rightarrow> string \<Rightarrow> set_state \<Rightarrow> peer_spec \<Rightarrow> set_state res" where
  "claim_old_peer p node st peer =
     (if p_publicKey peer \<noteq> pn_rootPublicKey p then Inr st
      else
        (case addReceiveRoutes [] peer empty_selection of
           Inl e \<Rightarrow> Inl e
         | Inr routes \<Rightarrow>
             res_fold (claim ''previous journal destinations overlap another owner'' node (pn_machineUID p)) st (map fst routes)))"

definition claim_old_site :: "plan_fields \<Rightarrow> set_state \<Rightarrow> string \<times> transition_site \<Rightarrow> set_state res" where
  "claim_old_site p st site = res_fold (claim_old_peer p (ts_nodeUID (snd site))) st (doc_peers (PreviousSitePeers p))"

definition bind_site :: "plan_fields \<Rightarrow> set_state \<Rightarrow> string \<times> transition_site \<Rightarrow> set_state res" where
  "bind_site p st ks =
     (case bindNode (ts_nodeUID (snd ks)) (ts_nodeName (snd ks)) (fst ks) ''site'' st of
        Inl e \<Rightarrow> Inl e
      | Inr st1 \<Rightarrow> bindKey (bd_publicKey (binding_of p (fst ks))) (pn_cloudNodeUID p) st1)"

definition previous_route :: "string \<Rightarrow> string \<Rightarrow> set_state \<Rightarrow> string \<times> route_selection \<Rightarrow> set_state res" where
  "previous_route machine node st r =
     (case claim_device ''previous receiver conflicts with another device owner'' node (snd r) st of
        Inl e \<Rightarrow> Inl e
      | Inr st1 \<Rightarrow> claim ''previous receiver overlaps another destination owner'' node machine st1 (fst r))"

definition previous_node :: "string \<Rightarrow> set_state \<Rightarrow> string \<times> routes \<Rightarrow> set_state res" where
  "previous_node machine st nr = res_fold (previous_route machine (fst nr)) st (snd nr)"

definition claim_previous :: "'a tunnel_env_scheme \<Rightarrow> transition_plan \<Rightarrow> set_state \<Rightarrow> set_state res" where
  "claim_previous env plan st =
     (let p = plan_fields plan in
      case previousReceiver plan of
        None \<Rightarrow> Inr st
      | Some (_, None) \<Rightarrow> Inl (Error ''nil previous plan'')
      | Some (_, Some old) \<Rightarrow>
          (case PlanReceiveRoutes env old of
             Inl e \<Rightarrow> Inl e
           | Inr previousRoutes \<Rightarrow>
               (case res_fold (\<lambda>s b. bindKey (bd_publicKey (snd b)) (pn_cloudNodeUID p) s) st (pn_bindings (plan_fields old)) of
                  Inl e \<Rightarrow> Inl e
                | Inr st1 \<Rightarrow> res_fold (previous_node (pn_machineUID p)) st1 previousRoutes)))"

definition set_route :: "string \<Rightarrow> string \<Rightarrow> set_state \<Rightarrow> string \<times> route_selection \<Rightarrow> set_state res" where
  "set_route machine node st r =
     (case claim_device ''receiver interface has conflicting identities or permissions'' node (snd r) st of
        Inl e \<Rightarrow> Inl e
      | Inr st1 \<Rightarrow>
          (case claim ''receiver journals overlap destination ownership on a node'' node machine st1 (fst r) of
             Inl e \<Rightarrow> Inl e
           | Inr st2 \<Rightarrow>
               Inr (st2\<lparr>ss_result := AList.update node (AList.update (fst r) (snd r) (get (ss_result st2) node)) (ss_result st2)\<rparr>)))"

definition set_node :: "string \<Rightarrow> set_state \<Rightarrow> string \<times> routes \<Rightarrow> set_state res" where
  "set_node machine st nr =
     (let st1 = (if map_of (ss_result st) (fst nr) = None then st\<lparr>ss_result := AList.update (fst nr) [] (ss_result st)\<rparr> else st) in
      res_fold (set_route machine (fst nr)) st1 (snd nr))"

definition set_plan :: "'a tunnel_env_scheme \<Rightarrow> plan_fields \<Rightarrow> set_state \<Rightarrow> transition_plan \<Rightarrow> set_state res" where
  "set_plan env first st plan =
     (let p = plan_fields plan in
      if \<not> scope_ok first p st then Inl (Error ''receiver route set has inconsistent scope or duplicate machine'')
      else if map_of (ss_nodes st) (pn_cloudNodeUID p) \<noteq> None then Inl (Error ''receiver cloud node has multiple journal owners'')
      else
        (case bindNode (pn_cloudNodeUID p) (pn_cloudNodeName p) (pn_rootPublicKey p) ''cloud''
                (st\<lparr>ss_machines := pn_machineUID p # ss_machines st\<rparr>) of
           Inl e \<Rightarrow> Inl e
         | Inr st1 \<Rightarrow>
             (case PlanReceiveRoutes env plan of
                Inl e \<Rightarrow> Inl e
              | Inr routes \<Rightarrow>
                  (case res_fold (claim_old_site p) st1 (pn_sites p) of
                     Inl e \<Rightarrow> Inl e
                   | Inr st2 \<Rightarrow>
                       (case res_fold (bind_site p) st2 (pn_sites p) of
                          Inl e \<Rightarrow> Inl e
                        | Inr st3 \<Rightarrow>
                            (case claim_previous env plan st3 of
                               Inl e \<Rightarrow> Inl e
                             | Inr st4 \<Rightarrow> res_fold (set_node (pn_machineUID p)) st4 routes))))))"

definition set_init :: set_state where
  "set_init =
     \<lparr>ss_result = [], ss_nodes = [], ss_names = [], ss_keys = [], ss_machines = [], ss_devices = [], ss_destinations = []\<rparr>"

definition PlanReceiveRouteSet :: "'a tunnel_env_scheme \<Rightarrow> transition_plan list \<Rightarrow> (string \<times> routes) list res" where
  "PlanReceiveRouteSet env plans =
     (case plans of
        [] \<Rightarrow> Inl (Error ''receiver route set requires explicit active plans'')
      | first # _ \<Rightarrow>
          (case res_fold (set_plan env (plan_fields first)) set_init plans of
             Inl e \<Rightarrow> Inl e
           | Inr st \<Rightarrow> Inr (ss_result st)))"

section \<open>Neighbours\<close>

definition neighborPrefix :: "string \<Rightarrow> ip_prefix res" where
  "neighborPrefix raw =
     (case ParsePrefix raw of
        None \<Rightarrow> Inl (Error ''invalid neighbor source prefix'')
      | Some p \<Rightarrow> if source_ok p then Inr p else Inl (Error ''invalid neighbor source prefix''))"

fun map_res :: "('a \<Rightarrow> 'b res) \<Rightarrow> 'a list \<Rightarrow> 'b list res" where
  "map_res f [] = Inr []"
| "map_res f (x # xs) =
     (case f x of Inl e \<Rightarrow> Inl e | Inr y \<Rightarrow> (case map_res f xs of Inl e \<Rightarrow> Inl e | Inr ys \<Rightarrow> Inr (y # ys)))"

fun check_route_hosts :: "ip_prefix list \<Rightarrow> string list \<Rightarrow> unit res" where
  "check_route_hosts pfs [] = Inr ()"
| "check_route_hosts pfs (raw # rest) =
     (case ParseAddr raw of
        None \<Rightarrow> Inl (Error ''invalid neighbor route host'')
      | Some a \<Rightarrow>
          if Is4In6 a \<or> \<not> IsGlobalUnicast a then Inl (Error ''invalid neighbor route host'')
          else if \<not> list_ex (\<lambda>p. Contains p a) pfs then Inl (Error ''neighbor route exceeds its source authorization'')
          else check_route_hosts pfs rest)"

definition neighborPeerPrefixes :: "peer_spec \<Rightarrow> ip_prefix list res" where
  "neighborPeerPrefixes peer =
     (if p_wgAllowedIPs peer = [] then Inl (Error ''neighbor has no source authorization'')
      else
        (case map_res neighborPrefix (p_wgAllowedIPs peer) of
           Inl e \<Rightarrow> Inl e
         | Inr pfs \<Rightarrow>
             (case check_route_hosts pfs (AllRouteHosts peer) of Inl e \<Rightarrow> Inl e | Inr _ \<Rightarrow> Inr pfs)))"

text \<open>The maps \<open>planReceiveNeighborPeersWithWithdrawal\<close> collects from the plans.\<close>

record guard_state =
  gs_reserved :: "string list"
  gs_transport :: "string list"
  gs_protected :: "ip_prefix list"
  gs_cloudOwned :: "(string \<times> ip_prefix list) list"
  gs_foundCloud :: bool

definition own_or_protect :: "string \<Rightarrow> string \<Rightarrow> plan_fields \<Rightarrow> ip_prefix list \<Rightarrow> guard_state \<Rightarrow> guard_state" where
  "own_or_protect cloudRoot withdrawnRoot p pfs g =
     (if (cloudRoot \<noteq> [] \<and> cloudRoot \<noteq> pn_rootPublicKey p) \<or> withdrawnRoot = pn_rootPublicKey p
        then g\<lparr>gs_cloudOwned := AList.update (pn_rootPublicKey p) (get (gs_cloudOwned g) (pn_rootPublicKey p) @ pfs) (gs_cloudOwned g)\<rparr>
      else g\<lparr>gs_protected := gs_protected g @ pfs\<rparr>)"

definition guard_site_peer :: "guard_state \<Rightarrow> peer_spec \<Rightarrow> guard_state res" where
  "guard_site_peer g peer =
     (if p_remote peer then Inr g
      else
        (case neighborPeerPrefixes peer of
           Inl e \<Rightarrow> Inl e
         | Inr pfs \<Rightarrow> Inr (g\<lparr>gs_transport := p_publicKey peer # gs_transport g, gs_protected := gs_protected g @ pfs\<rparr>)))"

definition guard_path :: "guard_state \<Rightarrow> site_path option \<Rightarrow> guard_state res" where
  "guard_path g path =
     (case path of
        None \<Rightarrow> Inr g
      | Some q \<Rightarrow>
          (case map_res neighborPrefix (sp_sources q) of
             Inl e \<Rightarrow> Inl e
           | Inr pfs \<Rightarrow> Inr (g\<lparr>gs_protected := gs_protected g @ pfs\<rparr>)))"

definition guard_site :: "string \<Rightarrow> string \<Rightarrow> plan_fields \<Rightarrow> guard_state \<Rightarrow> string \<times> transition_site \<Rightarrow> guard_state res" where
  "guard_site cloudRoot withdrawnRoot p g ks =
     (case map_res neighborPrefix (cl_allowedSources (ts_client (snd ks))) of
        Inl e \<Rightarrow> Inl e
      | Inr pfs \<Rightarrow>
          res_fold guard_path
            (own_or_protect cloudRoot withdrawnRoot p pfs (g\<lparr>gs_transport := fst ks # gs_transport g\<rparr>))
            [ts_legacy (snd ks), ts_forward (snd ks)])"

definition guard_cloud_peer :: "string \<Rightarrow> string \<Rightarrow> plan_fields \<Rightarrow> guard_state \<Rightarrow> peer_spec \<Rightarrow> guard_state res" where
  "guard_cloud_peer cloudRoot withdrawnRoot p g peer =
     (if p_publicKey peer \<noteq> pn_rootPublicKey p then Inr g
      else
        (case neighborPeerPrefixes peer of
           Inl e \<Rightarrow> Inl e
         | Inr pfs \<Rightarrow> Inr (own_or_protect cloudRoot withdrawnRoot p pfs g)))"

definition guard_cloud_doc :: "string \<Rightarrow> string \<Rightarrow> plan_fields \<Rightarrow> guard_state \<Rightarrow> peer_list_doc \<Rightarrow> guard_state res" where
  "guard_cloud_doc cloudRoot withdrawnRoot p g doc =
     (case res_fold (guard_cloud_peer cloudRoot withdrawnRoot p) g (doc_peers doc) of
        Inl e \<Rightarrow> Inl e
      | Inr g1 \<Rightarrow>
          if list_ex (\<lambda>peer. p_publicKey peer = pn_rootPublicKey p) (doc_peers doc) then Inr g1
          else Inl (Error ''reserved worker has no destination projection''))"

definition guard_plan :: "'a tunnel_env_scheme \<Rightarrow> string \<Rightarrow> string \<Rightarrow> guard_state \<Rightarrow> transition_plan \<Rightarrow> guard_state res" where
  "guard_plan env cloudRoot withdrawnRoot g plan =
     (let p = plan_fields plan; root = pn_rootPublicKey p;
          g0 = g\<lparr>gs_reserved := (if (cloudRoot = [] \<or> cloudRoot = root) \<and> withdrawnRoot \<noteq> root then root # gs_reserved g else gs_reserved g),
                 gs_foundCloud := gs_foundCloud g \<or> cloudRoot = root\<rparr> in
      case json_peer_list env (pn_base p) of
        None \<Rightarrow> Inl (Error ''invalid base document'')
      | Some base \<Rightarrow>
          (case res_fold guard_site_peer g0 (doc_peers base @ doc_peers (pn_desired p)) of
             Inl e \<Rightarrow> Inl e
           | Inr g1 \<Rightarrow>
               (case res_fold (guard_site cloudRoot withdrawnRoot p) g1 (pn_sites p) of
                  Inl e \<Rightarrow> Inl e
                | Inr g2 \<Rightarrow>
                    res_fold (guard_cloud_doc cloudRoot withdrawnRoot p)
                      (g2\<lparr>gs_transport := map (bd_publicKey \<circ> snd) (pn_bindings p) @ gs_transport g2\<rparr>)
                      [PreviousSitePeers p, pn_siteDesired p])))"

text \<open>The loop over the peers: identities seen, owners of admitted prefixes, and the admitted peers.\<close>

record admit_state =
  as_seen :: "string list"
  as_owners :: "(ip_prefix \<times> string) list"
  as_result :: "peer_spec list"

definition admit_prefix :: "guard_state \<Rightarrow> string \<Rightarrow> (ip_prefix \<times> string) list \<Rightarrow> ip_prefix \<Rightarrow> (ip_prefix \<times> string) list res" where
  "admit_prefix g public owners p =
     (if list_ex (\<lambda>(ow, owned). ow \<noteq> public \<and> list_ex (Overlaps p) owned) (gs_cloudOwned g)
        then Inl (Error ''neighbor destination overlaps another cloud owner'')
      else if list_ex (Overlaps p) (gs_protected g) then Inl (Error ''neighbor destination overlaps reserved forwarding'')
      else if list_ex (\<lambda>(owned, ow). ow \<noteq> public \<and> Overlaps p owned) owners
        then Inl (Error ''neighbor destinations have competing owners'')
      else Inr (AList.update p public owners))"

definition admit_peer :: "guard_state \<Rightarrow> admit_state \<Rightarrow> peer_spec \<Rightarrow> admit_state res" where
  "admit_peer g st peer =
     (let key = p_publicKey peer in
      if \<not> validReceivePublicKey key \<or> key \<in> set (as_seen st) then Inl (Error ''invalid or duplicate neighbor identity'')
      else if key \<in> set (gs_reserved g) then Inr (st\<lparr>as_seen := key # as_seen st\<rparr>)
      else if key \<in> set (gs_transport g) \<or> \<not> p_remote peer \<or> p_transit peer \<noteq> [] \<or> p_transitHosts peer \<noteq> []
        then Inl (Error ''neighbor reuses a site or receiver identity'')
      else
        (case neighborPeerPrefixes peer of
           Inl e \<Rightarrow> Inl e
         | Inr pfs \<Rightarrow>
             (case res_fold (admit_prefix g key) (as_owners st) pfs of
                Inl e \<Rightarrow> Inl e
              | Inr owners \<Rightarrow>
                  Inr \<lparr>as_seen = key # as_seen st, as_owners = owners, as_result = as_result st @ [peer]\<rparr>)))"

definition planReceiveNeighborPeersWithWithdrawal ::
  "'a tunnel_env_scheme \<Rightarrow> peer_spec list option \<Rightarrow> transition_plan list option \<Rightarrow> string \<Rightarrow> string \<Rightarrow> peer_spec list res" where
  "planReceiveNeighborPeersWithWithdrawal env peers plans cloudRoot withdrawnRoot =
     (case (plans, peers) of
        (Some plans, Some peers) \<Rightarrow>
          (case (if plans = [] then Inr [] else PlanReceiveRouteSet env plans) of
             Inl e \<Rightarrow> Inl e
           | Inr _ \<Rightarrow>
               (case res_fold (guard_plan env cloudRoot withdrawnRoot)
                       \<lparr>gs_reserved = [], gs_transport = [], gs_protected = [], gs_cloudOwned = [], gs_foundCloud = (cloudRoot = [])\<rparr> plans of
                  Inl e \<Rightarrow> Inl e
                | Inr g \<Rightarrow>
                    if \<not> gs_foundCloud g then Inl (Error ''cloud neighbor root has no reserved journal'')
                    else
                      (case res_fold (admit_peer g) \<lparr>as_seen = [], as_owners = [], as_result = []\<rparr> peers of
                         Inl e \<Rightarrow> Inl e
                       | Inr st \<Rightarrow> Inr (as_result st))))
      | _ \<Rightarrow> Inl (Error ''neighbor planning requires a complete peer document and explicit plan inventory''))"

definition planReceiveNeighborPeers ::
  "'a tunnel_env_scheme \<Rightarrow> peer_spec list option \<Rightarrow> transition_plan list option \<Rightarrow> string \<Rightarrow> peer_spec list res" where
  "planReceiveNeighborPeers env peers plans cloudRoot = planReceiveNeighborPeersWithWithdrawal env peers plans cloudRoot []"

definition PlanReceiveNeighborPeers ::
  "'a tunnel_env_scheme \<Rightarrow> peer_spec list option \<Rightarrow> transition_plan list option \<Rightarrow> peer_spec list res" where
  "PlanReceiveNeighborPeers env peers plans = planReceiveNeighborPeers env peers plans []"

definition PlanReceiveCloudNeighborPeers ::
  "'a tunnel_env_scheme \<Rightarrow> peer_spec list option \<Rightarrow> transition_plan list option \<Rightarrow> string \<Rightarrow> peer_spec list res" where
  "PlanReceiveCloudNeighborPeers env peers plans root =
     (if root = [] then Inl (Error ''cloud neighbor root is required'') else planReceiveNeighborPeers env peers plans root)"

definition planReceiveNeighborRetirements ::
  "'a tunnel_env_scheme \<Rightarrow> peer_spec list \<Rightarrow> peer_spec list option \<Rightarrow> transition_plan list option \<Rightarrow> string \<Rightarrow> peer_spec list res" where
  "planReceiveNeighborRetirements env previous desired plans cloudRoot =
     (case planReceiveNeighborPeers env desired plans cloudRoot of
        Inl e \<Rightarrow> Inl e
      | Inr _ \<Rightarrow>
          (let wanted = p_publicKey ` set (case desired of None \<Rightarrow> [] | Some ps \<Rightarrow> ps) in
           case map_res (\<lambda>peer. planReceiveNeighborPeers env (Some [peer]) plans cloudRoot)
                  (filter (\<lambda>peer. p_publicKey peer \<notin> wanted) previous) of
             Inl e \<Rightarrow> Inl e
           | Inr admitted \<Rightarrow> Inr (concat admitted)))"

definition PlanReceiveNeighborRetirements ::
  "'a tunnel_env_scheme \<Rightarrow> peer_spec list \<Rightarrow> peer_spec list option \<Rightarrow> transition_plan list option \<Rightarrow> peer_spec list res" where
  "PlanReceiveNeighborRetirements env previous desired plans = planReceiveNeighborRetirements env previous desired plans []"

definition PlanReceiveCloudNeighborRetirements ::
  "'a tunnel_env_scheme \<Rightarrow> peer_spec list \<Rightarrow> peer_spec list option \<Rightarrow> transition_plan list option \<Rightarrow> string \<Rightarrow> peer_spec list res" where
  "PlanReceiveCloudNeighborRetirements env previous desired plans root =
     (if root = [] then Inl (Error ''cloud neighbor root is required'')
      else planReceiveNeighborRetirements env previous desired plans root)"

text \<open>One recorded variant of the withdrawn root, checked against the published owners.\<close>

definition withdrawn_variant ::
  "'a tunnel_env_scheme \<Rightarrow> peer_spec list \<Rightarrow> transition_plan list option \<Rightarrow> string \<Rightarrow> peer_spec \<Rightarrow> peer_spec list res" where
  "withdrawn_variant env current plans root peer =
     (if p_publicKey peer \<noteq> root then Inr []
      else
        (case planReceiveNeighborPeersWithWithdrawal env (Some [peer]) plans [] root of
           Inl e \<Rightarrow> Inl e
         | Inr admitted \<Rightarrow>
             (case neighborPeerPrefixes peer of
                Inl e \<Rightarrow> Inl e
              | Inr pfs \<Rightarrow>
                  (case map_res
                          (\<lambda>live. case neighborPeerPrefixes live of
                             Inl e \<Rightarrow> Inl e
                           | Inr other \<Rightarrow>
                               if list_ex (\<lambda>p. list_ex (Overlaps p) other) pfs
                                 then Inl (Error ''withdrawn neighbor overlaps a published owner'')
                               else Inr ()) current of
                     Inl e \<Rightarrow> Inl e
                   | Inr _ \<Rightarrow> Inr admitted))))"

definition PlanReceiveWithdrawnNeighborPeers ::
  "'a tunnel_env_scheme \<Rightarrow> peer_spec list \<Rightarrow> peer_spec list option \<Rightarrow> transition_plan list option \<Rightarrow> string \<Rightarrow> peer_spec list res" where
  "PlanReceiveWithdrawnNeighborPeers env previous current plans root =
     (let live = (case current of None \<Rightarrow> [] | Some ps \<Rightarrow> ps) in
      if \<not> validReceivePublicKey root then Inl (Error ''withdrawn neighbor requires exact root identity'')
      else
        (case PlanReceiveNeighborPeers env current plans of
           Inl e \<Rightarrow> Inl e
         | Inr _ \<Rightarrow>
             if \<not> list_ex (\<lambda>plan. pn_rootPublicKey (plan_fields plan) = root) (case plans of None \<Rightarrow> [] | Some ps \<Rightarrow> ps)
               then Inl (Error ''withdrawn neighbor has no reserved journal'')
             else if list_ex (\<lambda>peer. p_publicKey peer = root) live then Inl (Error ''withdrawn neighbor remains published'')
             else
               (case map_res (withdrawn_variant env live plans root) previous of
                  Inl e \<Rightarrow> Inl e
                | Inr admitted \<Rightarrow> Inr (concat admitted))))"

section \<open>Exclusive ownership\<close>

definition set_inv :: "set_state \<Rightarrow> bool" where
  "set_inv st =
     (\<forall>node p m q m'. (p, m) \<in> set (get (ss_destinations st) node) \<longrightarrow> (q, m') \<in> set (get (ss_destinations st) node) \<longrightarrow>
        m \<noteq> m' \<longrightarrow> \<not> Overlaps p q)"

lemma map_leD: "f \<subseteq>\<^sub>m g \<Longrightarrow> f k = Some v \<Longrightarrow> g k = Some v"
  by (auto simp: map_le_def dom_def)

lemma set_invD:
  "set_inv st \<Longrightarrow> (p, m) \<in> set (get (ss_destinations st) n) \<Longrightarrow> (q, m') \<in> set (get (ss_destinations st) n) \<Longrightarrow> m \<noteq> m' \<Longrightarrow> \<not> Overlaps p q"
  unfolding set_inv_def by blast

text \<open>Nothing that a step has bound or claimed is given up by a later one.\<close>

definition set_grow :: "set_state \<Rightarrow> set_state \<Rightarrow> bool" where
  "set_grow s t =
     ((\<forall>node. set (get (ss_destinations s) node) \<subseteq> set (get (ss_destinations t) node)) \<and>
      map_of (ss_keys s) \<subseteq>\<^sub>m map_of (ss_keys t) \<and> map_of (ss_nodes s) \<subseteq>\<^sub>m map_of (ss_nodes t) \<and>
      (\<forall>node. map_of (get (ss_devices s) node) \<subseteq>\<^sub>m map_of (get (ss_devices t) node)) \<and>
      set (ss_machines s) \<subseteq> set (ss_machines t))"

lemma set_grow_refl [simp, intro]: "set_grow s s"
  by (simp add: set_grow_def)

lemma set_grow_trans [trans]: "set_grow s t \<Longrightarrow> set_grow t u \<Longrightarrow> set_grow s u"
  unfolding set_grow_def by (meson map_le_trans subset_trans)

definition keeps :: "(set_state \<Rightarrow> 'x \<Rightarrow> set_state res) \<Rightarrow> bool" where
  "keeps f = (\<forall>s x t. set_inv s \<longrightarrow> f s x = Inr t \<longrightarrow> set_inv t \<and> set_grow s t \<and> ss_machines t = ss_machines s)"

lemma keepsI: "(\<And>s x t. set_inv s \<Longrightarrow> f s x = Inr t \<Longrightarrow> set_inv t \<and> set_grow s t \<and> ss_machines t = ss_machines s) \<Longrightarrow> keeps f"
  unfolding keeps_def by blast

lemma keepsD: "keeps f \<Longrightarrow> set_inv s \<Longrightarrow> f s x = Inr t \<Longrightarrow> set_inv t \<and> set_grow s t \<and> ss_machines t = ss_machines s"
  unfolding keeps_def by blast

lemma keeps_replay: "keeps f \<Longrightarrow> guarded_replay f set_inv (\<lambda>s t. set_grow s t \<and> ss_machines t = ss_machines s)"
  by unfold_locales (auto dest: keepsD intro: set_grow_trans)

lemma keeps_fold:
  assumes "keeps f" and "set_inv s" and "res_fold f s xs = Inr t"
  shows "set_inv t \<and> set_grow s t \<and> ss_machines t = ss_machines s"
  using guarded_replay.replay_inv [OF keeps_replay [OF assms(1)] assms(2,3)]
    guarded_replay.replay_rel [OF keeps_replay [OF assms(1)] assms(2,3)] by blast

lemma fold_keeps: "(\<And>y. keeps (f y)) \<Longrightarrow> keeps (\<lambda>s y. res_fold (f y) s (g y))"
  by (rule keepsI) (rule keeps_fold)

lemma bindKey_keeps: "keeps (\<lambda>s kn. bindKey (fst kn) (snd kn) s)"
proof (rule keepsI)
  fix s kn t
  assume "set_inv s" "bindKey (fst kn) (snd kn) s = Inr t"
  then have t: "t = s\<lparr>ss_keys := AList.update (fst kn) (snd kn) (ss_keys s)\<rparr>"
    "map_of (ss_keys s) (fst kn) = None \<or> map_of (ss_keys s) (fst kn) = Some (snd kn)"
    by (auto simp: bindKey_def split: option.splits if_splits)
  with \<open>set_inv s\<close> show "set_inv t \<and> set_grow s t \<and> ss_machines t = ss_machines s"
    by (auto simp: set_inv_def set_grow_def map_le_def update_conv' dom_def)
qed

lemma bindKey_rule: "bindKey k n s = Inr t \<Longrightarrow> set_inv s \<Longrightarrow> set_inv t \<and> set_grow s t \<and> ss_machines t = ss_machines s"
  using keepsD [OF bindKey_keeps, of s "(k, n)" t] by simp

lemma bindNode_rule:
  assumes "bindNode uid name key role s = Inr t" and "set_inv s"
  shows "set_inv t \<and> set_grow s t \<and> ss_machines t = ss_machines s" and "map_of (ss_nodes t) uid = Some (name, key, role)"
proof -
  let ?s = "s\<lparr>ss_nodes := AList.update uid (name, key, role) (ss_nodes s), ss_names := AList.update name uid (ss_names s)\<rparr>"
  from assms(1) have b: "bindKey key uid ?s = Inr t"
    and old: "map_of (ss_nodes s) uid = None \<or> map_of (ss_nodes s) uid = Some (name, key, role)"
    unfolding bindNode_def if_Inl_Inr by (auto split: option.splits)
  have "set_inv ?s" using assms(2) by (simp add: set_inv_def)
  note t = bindKey_rule [OF b this]
  have "set_grow s ?s" using old by (auto simp: set_grow_def map_le_def update_conv' dom_def)
  with t show "set_inv t \<and> set_grow s t \<and> ss_machines t = ss_machines s" using set_grow_trans by auto
  have "map_of (ss_nodes ?s) uid = Some (name, key, role)" by (simp add: update_conv')
  moreover have "map_of (ss_nodes ?s) \<subseteq>\<^sub>m map_of (ss_nodes t)" using t unfolding set_grow_def by blast
  ultimately show "map_of (ss_nodes t) uid = Some (name, key, role)" by (rule map_leD [rotated])
qed

lemma claim_rule:
  assumes "claim msg node machine s raw = Inr t" and "set_inv s"
  shows "set_inv t \<and> set_grow s t \<and> ss_machines t = ss_machines s"
    and "\<exists>p. ParsePrefix raw = Some p \<and> (p, machine) \<in> set (get (ss_destinations t) node)"
proof -
  from assms(1) obtain p where p: "ParsePrefix raw = Some p"
    and free: "\<forall>(q, m) \<in> set (get (ss_destinations s) node). m \<noteq> machine \<longrightarrow> \<not> Overlaps q p"
    and t: "t = s\<lparr>ss_destinations := AList.update node (get (ss_destinations s) node @ [(p, machine)]) (ss_destinations s)\<rparr>"
    by (auto simp: claim_def list_ex_iff split: option.splits if_splits)
  have free1: "\<not> Overlaps q p" if "(q, m) \<in> set (get (ss_destinations s) node)" "m \<noteq> machine" for q m
    using free that by fastforce
  have get: "get (ss_destinations t) n = (if n = node then get (ss_destinations s) node @ [(p, machine)] else get (ss_destinations s) n)" for n
    by (simp add: t get_def update_conv')
  have "set_inv t"
    unfolding set_inv_def
  proof (intro allI impI notI)
    fix n a m b m'
    assume am: "(a, m) \<in> set (get (ss_destinations t) n)" "(b, m') \<in> set (get (ss_destinations t) n)" and ne: "m \<noteq> m'" and ov: "Overlaps a b"
    have old: False if "(a, m) \<in> set (get (ss_destinations s) n)" "(b, m') \<in> set (get (ss_destinations s) n)"
      using set_invD [OF assms(2) that ne] ov by blast
    show False
    proof (cases "n = node")
      case True
      then have "(a, m) \<in> set (get (ss_destinations s) node) \<or> (a, m) = (p, machine)"
        "(b, m') \<in> set (get (ss_destinations s) node) \<or> (b, m') = (p, machine)"
        "\<not> ((a, m) \<in> set (get (ss_destinations s) node) \<and> (b, m') \<in> set (get (ss_destinations s) node))"
        using am old unfolding get by auto
      note cs = this
      show False
      proof (cases "(a, m) \<in> set (get (ss_destinations s) node)")
        case True
        with cs have "b = p" "m' = machine" by simp_all
        with free1 [OF True] ne ov show False by simp
      next
        case False
        with cs(1) have "a = p" "m = machine" by simp_all
        with cs(2) ne have "(b, m') \<in> set (get (ss_destinations s) node)" by auto
        with free1 [OF this] ne ov \<open>a = p\<close> \<open>m = machine\<close> Overlaps_sym [of p b] show False by simp
      qed
    next
      case False
      with am old show False unfolding get by simp
    qed
  qed
  with get show "set_inv t \<and> set_grow s t \<and> ss_machines t = ss_machines s" by (auto simp: set_grow_def t)
  show "\<exists>p. ParsePrefix raw = Some p \<and> (p, machine) \<in> set (get (ss_destinations t) node)" using p get by auto
qed

lemma claim_device_rule:
  assumes "claim_device msg node sel s = Inr t" and "set_inv s"
  shows "set_inv t \<and> set_grow s t \<and> ss_machines t = ss_machines s"
    and "map_of (get (ss_devices t) node) (rsel_interface sel) = Some sel"
proof -
  let ?m = "AList.update (rsel_interface sel) sel (get (ss_devices s) node)"
  from assms(1) have t: "t = s\<lparr>ss_devices := AList.update node ?m (ss_devices s)\<rparr>"
    and old: "map_of (get (ss_devices s) node) (rsel_interface sel) = None \<or> map_of (get (ss_devices s) node) (rsel_interface sel) = Some sel"
    by (auto simp: claim_device_def split: option.splits if_splits)
  have get: "get (ss_devices t) n = (if n = node then ?m else get (ss_devices s) n)" for n
    by (simp add: t get_def update_conv')
  have "map_of (get (ss_devices s) n) \<subseteq>\<^sub>m map_of (get (ss_devices t) n)" for n
    using old unfolding get by (auto simp: map_le_def update_conv' dom_def)
  with assms(2) show "set_inv t \<and> set_grow s t \<and> ss_machines t = ss_machines s" by (auto simp: set_inv_def set_grow_def t)
  show "map_of (get (ss_devices t) node) (rsel_interface sel) = Some sel" by (simp add: get update_conv')
qed

text \<open>The composed steps keep the invariant because their parts do.\<close>

abbreviation sound :: "set_state \<Rightarrow> set_state \<Rightarrow> bool" where
  "sound s t \<equiv> set_inv t \<and> set_grow s t \<and> ss_machines t = ss_machines s"

lemma sound_trans: "sound s t \<Longrightarrow> sound t u \<Longrightarrow> sound s u"
  using set_grow_trans by auto

lemma claim_keeps: "keeps (claim msg node machine)"
  by (rule keepsI) (rule claim_rule(1))

lemma claim_old_site_keeps: "keeps (claim_old_site p)"
proof -
  have "keeps (claim_old_peer p node)" for node
  proof (rule keepsI)
    fix s peer t
    assume "set_inv s" "claim_old_peer p node s peer = Inr t"
    then show "sound s t" unfolding claim_old_peer_def
      by (auto split: if_splits sum.splits dest: keeps_fold [OF claim_keeps])
  qed
  then show ?thesis unfolding claim_old_site_def by (rule fold_keeps)
qed

lemma bind_site_keeps: "keeps (bind_site p)"
proof (rule keepsI)
  fix s ks t
  assume inv: "set_inv s" and "bind_site p s ks = Inr t"
  then obtain s1 where s1: "bindNode (ts_nodeUID (snd ks)) (ts_nodeName (snd ks)) (fst ks) ''site'' s = Inr s1"
    "bindKey (bd_publicKey (binding_of p (fst ks))) (pn_cloudNodeUID p) s1 = Inr t"
    unfolding bind_site_def by (auto split: sum.splits)
  note one = bindNode_rule(1) [OF s1(1) inv]
  then show "sound s t" using bindKey_rule [OF s1(2)] sound_trans by blast
qed

lemma previous_node_keeps: "keeps (previous_node machine)"
proof -
  have "keeps (previous_route machine node)" for node
  proof (rule keepsI)
    fix s r t
    assume inv: "set_inv s" and "previous_route machine node s r = Inr t"
    then obtain s1 where s1: "claim_device ''previous receiver conflicts with another device owner'' node (snd r) s = Inr s1"
      "claim ''previous receiver overlaps another destination owner'' node machine s1 (fst r) = Inr t"
      unfolding previous_route_def by (auto split: sum.splits)
    note one = claim_device_rule(1) [OF s1(1) inv]
    then show "sound s t" using claim_rule(1) [OF s1(2)] sound_trans by blast
  qed
  then show ?thesis unfolding previous_node_def by (rule fold_keeps)
qed

lemma claim_previous_rule:
  assumes "claim_previous env plan s = Inr t" and "set_inv s"
  shows "sound s t"
proof (cases "previousReceiver plan")
  case None
  with assms show ?thesis by (simp add: claim_previous_def)
next
  case (Some gp)
  with assms(1) obtain old routes s1 where
      s1: "res_fold (\<lambda>s b. bindKey (bd_publicKey (snd b)) (pn_cloudNodeUID (plan_fields plan)) s) s (pn_bindings (plan_fields old)) = Inr s1"
    and t: "res_fold (previous_node (pn_machineUID (plan_fields plan))) s1 routes = Inr t"
    unfolding claim_previous_def Let_def by (auto split: option.splits sum.splits prod.splits)
  have "keeps (\<lambda>s b. bindKey (bd_publicKey (snd b)) (pn_cloudNodeUID (plan_fields plan)) s)"
    by (rule keepsI) (rule bindKey_rule)
  note one = keeps_fold [OF this assms(2) s1]
  then show ?thesis using keeps_fold [OF previous_node_keeps _ t] sound_trans by blast
qed

text \<open>What a claimed route leaves behind.\<close>

definition claimed :: "string \<Rightarrow> set_state \<Rightarrow> string \<Rightarrow> string \<times> route_selection \<Rightarrow> bool" where
  "claimed machine st node r =
     ((\<exists>p. ParsePrefix (fst r) = Some p \<and> (p, machine) \<in> set (get (ss_destinations st) node)) \<and>
      map_of (get (ss_devices st) node) (rsel_interface (snd r)) = Some (snd r))"

lemma claimed_grow: "claimed machine s node r \<Longrightarrow> set_grow s t \<Longrightarrow> claimed machine t node r"
  unfolding claimed_def set_grow_def by (meson map_leD subset_iff)

lemma set_route_rule:
  assumes "set_route machine node s r = Inr t" and "set_inv s"
  shows "sound s t \<and> claimed machine t node r"
proof -
  from assms(1) obtain s1 s2 where
      s1: "claim_device ''receiver interface has conflicting identities or permissions'' node (snd r) s = Inr s1"
    and s2: "claim ''receiver journals overlap destination ownership on a node'' node machine s1 (fst r) = Inr s2"
    and t: "t = s2\<lparr>ss_result := AList.update node (AList.update (fst r) (snd r) (get (ss_result s2) node)) (ss_result s2)\<rparr>"
    unfolding set_route_def by (auto split: sum.splits)
  note one = claim_device_rule [OF s1 assms(2)]
  note two = claim_rule [OF s2 one(1) [THEN conjunct1]]
  have "sound s s2" using one(1) two(1) sound_trans by blast
  moreover have "claimed machine s2 node r"
    using two one(2) unfolding claimed_def set_grow_def by (meson map_leD)
  ultimately show ?thesis by (auto simp: t set_inv_def set_grow_def claimed_def)
qed

lemma set_routes_rule:
  assumes "res_fold (set_route machine node) s rs = Inr t" and "set_inv s"
  shows "sound s t \<and> (\<forall>r \<in> set rs. claimed machine t node r)"
  using assms
proof (induction rs arbitrary: s)
  case (Cons r rs)
  then obtain s1 where s1: "set_route machine node s r = Inr s1" "res_fold (set_route machine node) s1 rs = Inr t"
    by (auto split: sum.splits)
  note one = set_route_rule [OF s1(1) Cons.prems(2)]
  note two = Cons.IH [OF s1(2)]
  with one sound_trans claimed_grow show ?case by (metis set_ConsD)
qed simp

lemma set_node_rule:
  assumes "set_node machine s nr = Inr t" and "set_inv s"
  shows "sound s t \<and> (\<forall>r \<in> set (snd nr). claimed machine t (fst nr) r)"
proof -
  define s1 where "s1 = (if map_of (ss_result s) (fst nr) = None then s\<lparr>ss_result := AList.update (fst nr) [] (ss_result s)\<rparr> else s)"
  have "set_inv s1" "sound s s1" using assms(2) by (auto simp: s1_def set_inv_def set_grow_def)
  moreover have "res_fold (set_route machine (fst nr)) s1 (snd nr) = Inr t"
    using assms(1) by (simp add: set_node_def s1_def Let_def)
  ultimately show ?thesis using set_routes_rule sound_trans by blast
qed

lemma set_nodes_rule:
  assumes "res_fold (set_node machine) s nrs = Inr t" and "set_inv s"
  shows "sound s t \<and> (\<forall>nr \<in> set nrs. \<forall>r \<in> set (snd nr). claimed machine t (fst nr) r)"
  using assms
proof (induction nrs arbitrary: s)
  case (Cons nr nrs)
  then obtain s1 where s1: "set_node machine s nr = Inr s1" "res_fold (set_node machine) s1 nrs = Inr t"
    by (auto split: sum.splits)
  note one = set_node_rule [OF s1(1) Cons.prems(2)]
  note two = Cons.IH [OF s1(2)]
  with one sound_trans claimed_grow show ?case by (metis set_ConsD)
qed simp

definition plan_claimed :: "'a tunnel_env_scheme \<Rightarrow> set_state \<Rightarrow> transition_plan \<Rightarrow> bool" where
  "plan_claimed env st plan =
     (\<exists>routes. PlanReceiveRoutes env plan = Inr routes \<and>
        (\<forall>nr \<in> set routes. \<forall>r \<in> set (snd nr). claimed (pn_machineUID (plan_fields plan)) st (fst nr) r))"

lemma plan_claimed_grow: "plan_claimed env s plan \<Longrightarrow> set_grow s t \<Longrightarrow> plan_claimed env t plan"
  unfolding plan_claimed_def using claimed_grow by blast

lemma set_plan_rule:
  assumes "set_plan env first s plan = Inr t" and "set_inv s"
  shows "set_inv t \<and> set_grow s t \<and> plan_claimed env t plan"
    and "ss_machines t = pn_machineUID (plan_fields plan) # ss_machines s" and "pn_machineUID (plan_fields plan) \<notin> set (ss_machines s)"
    and "map_of (ss_nodes s) (pn_cloudNodeUID (plan_fields plan)) = None" and "map_of (ss_nodes t) (pn_cloudNodeUID (plan_fields plan)) \<noteq> None"
proof -
  let ?p = "plan_fields plan"
  let ?s0 = "s\<lparr>ss_machines := pn_machineUID ?p # ss_machines s\<rparr>"
  from assms(1) obtain s1 routes s2 s3 s4 where scope: "scope_ok first ?p s" and none: "map_of (ss_nodes s) (pn_cloudNodeUID ?p) = None"
    and s1: "bindNode (pn_cloudNodeUID ?p) (pn_cloudNodeName ?p) (pn_rootPublicKey ?p) ''cloud'' ?s0 = Inr s1"
    and routes: "PlanReceiveRoutes env plan = Inr routes"
    and s2: "res_fold (claim_old_site ?p) s1 (pn_sites ?p) = Inr s2" and s3: "res_fold (bind_site ?p) s2 (pn_sites ?p) = Inr s3"
    and s4: "claim_previous env plan s3 = Inr s4" and t: "res_fold (set_node (pn_machineUID ?p)) s4 routes = Inr t"
    unfolding set_plan_def Let_def if_Inl_Inr res_case_Inr by blast
  have "set_inv ?s0" using assms(2) by (simp add: set_inv_def)
  note r1 = bindNode_rule [OF s1 this]
  note r2 = keeps_fold [OF claim_old_site_keeps r1(1) [THEN conjunct1] s2]
  note r3 = keeps_fold [OF bind_site_keeps r2 [THEN conjunct1] s3]
  note r4 = claim_previous_rule [OF s4 r3 [THEN conjunct1]]
  note r5 = set_nodes_rule [OF t r4 [THEN conjunct1]]
  have st: "sound s1 t" using r2 r3 r4 r5 sound_trans by blast
  then have 0: "sound ?s0 t" using r1(1) sound_trans by blast
  moreover have "set_grow s ?s0" by (auto simp: set_grow_def)
  ultimately have "set_grow s t" using set_grow_trans by blast
  with 0 r5 routes show "set_inv t \<and> set_grow s t \<and> plan_claimed env t plan" unfolding plan_claimed_def by blast
  show "ss_machines t = pn_machineUID ?p # ss_machines s" using 0 by simp
  show "pn_machineUID ?p \<notin> set (ss_machines s)" using scope by (simp add: scope_ok_def)
  show "map_of (ss_nodes s) (pn_cloudNodeUID ?p) = None" by (rule none)
  have "map_of (ss_nodes s1) \<subseteq>\<^sub>m map_of (ss_nodes t)" using st unfolding set_grow_def by blast
  with r1(2) show "map_of (ss_nodes t) (pn_cloudNodeUID ?p) \<noteq> None" using map_leD by force
qed

interpretation route_set: guarded_replay "set_plan env first" set_inv set_grow for env first
  by unfold_locales (use set_plan_rule(1) set_grow_trans in blast)+

lemma set_plans_rule:
  assumes "res_fold (set_plan env first) s plans = Inr t" and "set_inv s"
  shows "(\<forall>plan \<in> set plans. plan_claimed env t plan) \<and> distinct (map (pn_machineUID \<circ> plan_fields) plans) \<and>
     (pn_machineUID \<circ> plan_fields) ` set plans \<inter> set (ss_machines s) = {} \<and>
     distinct (map (pn_cloudNodeUID \<circ> plan_fields) plans) \<and>
     (\<forall>plan \<in> set plans. map_of (ss_nodes s) (pn_cloudNodeUID (plan_fields plan)) = None)"
  using assms
proof (induction plans arbitrary: s)
  case (Cons plan plans)
  then obtain s1 where s1: "set_plan env first s plan = Inr s1" "res_fold (set_plan env first) s1 plans = Inr t"
    by (auto split: sum.splits)
  note one = set_plan_rule [OF s1(1) Cons.prems(2)]
  then have inv: "set_inv s1" by blast
  note two = Cons.IH [OF s1(2) inv]
  have "set_grow s1 t" using route_set.replay_rel [OF inv s1(2)] .
  then have "plan_claimed env t plan" using one(1) plan_claimed_grow by blast
  moreover have "map_of (ss_nodes s) u = None" if "map_of (ss_nodes s1) u = None" for u
  proof -
    have "map_of (ss_nodes s) \<subseteq>\<^sub>m map_of (ss_nodes s1)" using one(1) unfolding set_grow_def by blast
    with that map_leD show ?thesis by (cases "map_of (ss_nodes s) u") force+
  qed
  ultimately show ?case using one(2-5) two by (auto simp: image_iff)
qed simp

lemma PlanReceiveRouteSet_Inr:
  assumes "PlanReceiveRouteSet env plans = Inr result"
  obtains st where "set_inv st" and "\<forall>plan \<in> set plans. plan_claimed env st plan"
    and "distinct (map (pn_machineUID \<circ> plan_fields) plans)" and "distinct (map (pn_cloudNodeUID \<circ> plan_fields) plans)"
proof -
  have init: "set_inv set_init" by (simp add: set_inv_def set_init_def get_def)
  from assms obtain first st where "res_fold (set_plan env (plan_fields first)) set_init plans = Inr st"
    by (auto simp: PlanReceiveRouteSet_def simp del: res_fold.simps split: list.splits sum.splits)
  from that [OF route_set.replay_inv [OF init this]] set_plans_rule [OF this init] show thesis by blast
qed

text \<open>Two journals never own a common address on a node, nor differ about a device.\<close>

lemma routes_exclusive:
  assumes "PlanReceiveRouteSet env plans = Inr result" and "p \<in> set plans" and "q \<in> set plans"
    and "PlanReceiveRoutes env p = Inr rp" and "PlanReceiveRoutes env q = Inr rq"
    and "(node, mp) \<in> set rp" and "(node, mq) \<in> set rq" and "(d, s) \<in> set mp" and "(d', s') \<in> set mq"
  shows "\<exists>a b. ParsePrefix d = Some a \<and> ParsePrefix d' = Some b \<and>
       (pn_machineUID (plan_fields p) \<noteq> pn_machineUID (plan_fields q) \<longrightarrow> \<not> Overlaps a b)"
    and "rsel_interface s = rsel_interface s' \<Longrightarrow> s = s'"
proof -
  obtain st where st: "set_inv st" "\<forall>plan \<in> set plans. plan_claimed env st plan"
    by (rule PlanReceiveRouteSet_Inr [OF assms(1)])
  have cp: "claimed (pn_machineUID (plan_fields p)) st node (d, s)"
    using st(2) assms(2,4,6,8) unfolding plan_claimed_def by fastforce
  have cq: "claimed (pn_machineUID (plan_fields q)) st node (d', s')"
    using st(2) assms(3,5,7,9) unfolding plan_claimed_def by fastforce
  from cp cq set_invD [OF st(1)] show "\<exists>a b. ParsePrefix d = Some a \<and> ParsePrefix d' = Some b \<and>
       (pn_machineUID (plan_fields p) \<noteq> pn_machineUID (plan_fields q) \<longrightarrow> \<not> Overlaps a b)"
    unfolding claimed_def by fastforce
  from cp cq show "rsel_interface s = rsel_interface s' \<Longrightarrow> s = s'" by (simp add: claimed_def)
qed

section \<open>Neighbours stay apart from reserved forwarding\<close>

lemma map_res_Inr: "map_res f xs = Inr ys \<Longrightarrow> length ys = length xs \<and> (\<forall>i < length xs. f (xs ! i) = Inr (ys ! i))"
proof (induction xs arbitrary: ys)
  case (Cons x xs)
  then obtain y ys' where "f x = Inr y" "map_res f xs = Inr ys'" "ys = y # ys'" by (auto split: sum.splits)
  with Cons.IH show ?case by (auto simp: nth_Cons split: nat.splits)
qed simp

lemma neighborPrefix_Inr: "neighborPrefix raw = Inr p \<longleftrightarrow> ParsePrefix raw = Some p \<and> source_ok p"
  by (auto simp: neighborPrefix_def split: option.splits if_splits)

lemma neighborPrefixes_set:
  "map_res neighborPrefix raws = Inr ps \<Longrightarrow> set ps = {p. \<exists>raw \<in> set raws. ParsePrefix raw = Some p} \<and> (\<forall>raw \<in> set raws. ParsePrefix raw \<noteq> None)"
proof (induction raws arbitrary: ps)
  case (Cons raw raws)
  then obtain p ps' where "ParsePrefix raw = Some p" "map_res neighborPrefix raws = Inr ps'" "ps = p # ps'"
    by (auto simp: neighborPrefix_Inr split: sum.splits)
  with Cons.IH [of ps'] show ?case by auto
qed simp

lemma neighborPeerPrefixes_set:
  assumes "neighborPeerPrefixes peer = Inr ps"
  shows "set ps = {p. \<exists>raw \<in> set (p_wgAllowedIPs peer). ParsePrefix raw = Some p}"
    and "\<forall>raw \<in> set (p_wgAllowedIPs peer). ParsePrefix raw \<noteq> None"
  using assms neighborPrefixes_set [of "p_wgAllowedIPs peer" ps]
  by (auto simp: neighborPeerPrefixes_def split: if_splits sum.splits)

definition guard_grow :: "guard_state \<Rightarrow> guard_state \<Rightarrow> bool" where
  "guard_grow g h =
     (set (gs_reserved g) \<subseteq> set (gs_reserved h) \<and> set (gs_transport g) \<subseteq> set (gs_transport h) \<and>
      set (gs_protected g) \<subseteq> set (gs_protected h))"

lemma guard_grow_refl [simp]: "guard_grow g g"
  by (simp add: guard_grow_def)

lemma guard_grow_trans: "guard_grow a b \<Longrightarrow> guard_grow b c \<Longrightarrow> guard_grow a c"
  by (auto simp: guard_grow_def)

definition grows :: "(guard_state \<Rightarrow> 'x \<Rightarrow> guard_state res) \<Rightarrow> bool" where
  "grows f = (\<forall>s x t. f s x = Inr t \<longrightarrow> guard_grow s t)"

lemma growsI: "(\<And>s x t. f s x = Inr t \<Longrightarrow> guard_grow s t) \<Longrightarrow> grows f"
  unfolding grows_def by blast

lemma growsD: "grows f \<Longrightarrow> f s x = Inr t \<Longrightarrow> guard_grow s t"
  unfolding grows_def by blast

lemma guard_replay: "grows f \<Longrightarrow> guarded_replay f (\<lambda>_. True) guard_grow"
  by unfold_locales (auto dest: growsD intro: guard_grow_trans)

lemma guard_fold: "grows f \<Longrightarrow> res_fold f s xs = Inr t \<Longrightarrow> guard_grow s t"
  using guarded_replay.replay_rel [OF guard_replay] by blast

lemma own_or_protect_grow: "guard_grow g (own_or_protect c w p pfs g)"
  by (auto simp: own_or_protect_def guard_grow_def)

lemma guard_site_peer_grow: "grows guard_site_peer"
  by (rule growsI) (auto simp: guard_site_peer_def guard_grow_def split: if_splits sum.splits)

lemma guard_path_grow: "grows guard_path"
  by (rule growsI) (auto simp: guard_path_def guard_grow_def split: option.splits sum.splits)

lemma guard_site_grow: "grows (guard_site c w p)"
proof (rule growsI)
  fix g x h
  assume "guard_site c w p g x = Inr h"
  then obtain pfs where f: "res_fold guard_path (own_or_protect c w p pfs (g\<lparr>gs_transport := fst x # gs_transport g\<rparr>))
      [ts_legacy (snd x), ts_forward (snd x)] = Inr h"
    unfolding guard_site_def res_case_Inr by blast
  have "guard_grow g (g\<lparr>gs_transport := fst x # gs_transport g\<rparr>)" by (auto simp: guard_grow_def)
  with own_or_protect_grow guard_fold [OF guard_path_grow f] show "guard_grow g h" using guard_grow_trans by blast
qed

lemma guard_cloud_peer_grow: "grows (guard_cloud_peer c w p)"
  by (rule growsI) (auto simp: guard_cloud_peer_def own_or_protect_grow split: if_splits sum.splits)

lemma guard_cloud_doc_grow: "guard_cloud_doc c w p g x = Inr h \<Longrightarrow> guard_grow g h"
  by (auto simp: guard_cloud_doc_def split: if_splits sum.splits intro: guard_fold [OF guard_cloud_peer_grow])

text \<open>The identities and source texts a journal holds, in both of its generations.\<close>

definition site_side :: "'a tunnel_env_scheme \<Rightarrow> plan_fields \<Rightarrow> peer_spec list" where
  "site_side env p =
     filter (\<lambda>peer. \<not> p_remote peer)
       ((case json_peer_list env (pn_base p) of None \<Rightarrow> [] | Some base \<Rightarrow> doc_peers base) @ doc_peers (pn_desired p))"

definition cloud_side :: "plan_fields \<Rightarrow> peer_spec list" where
  "cloud_side p = filter (\<lambda>peer. p_publicKey peer = pn_rootPublicKey p) (doc_peers (PreviousSitePeers p) @ doc_peers (pn_siteDesired p))"

definition path_sources :: "site_path option \<Rightarrow> string set" where
  "path_sources path = (case path of None \<Rightarrow> {} | Some q \<Rightarrow> set (sp_sources q))"

definition site_sources :: "transition_site \<Rightarrow> string set" where
  "site_sources t = set (cl_allowedSources (ts_client t)) \<union> path_sources (ts_legacy t) \<union> path_sources (ts_forward t)"

definition journal_keys :: "'a tunnel_env_scheme \<Rightarrow> plan_fields \<Rightarrow> string set" where
  "journal_keys env p =
     insert (pn_rootPublicKey p) ((bd_publicKey \<circ> snd) ` set (pn_bindings p) \<union> fst ` set (pn_sites p) \<union> p_publicKey ` set (site_side env p))"

definition journal_sources :: "'a tunnel_env_scheme \<Rightarrow> plan_fields \<Rightarrow> string set" where
  "journal_sources env p =
     (\<Union>peer \<in> set (site_side env p @ cloud_side p). set (p_wgAllowedIPs peer)) \<union> (\<Union>site \<in> snd ` set (pn_sites p). site_sources site)"

text \<open>What a guard holds of a set of keys and a set of source texts.\<close>

definition covers :: "string set \<Rightarrow> string set \<Rightarrow> guard_state \<Rightarrow> bool" where
  "covers ks raws g =
     (ks \<subseteq> set (gs_reserved g) \<union> set (gs_transport g) \<and> (\<forall>raw \<in> raws. \<exists>q \<in> set (gs_protected g). ParsePrefix raw = Some q))"

lemma covers_grow: "covers ks raws g \<Longrightarrow> guard_grow g h \<Longrightarrow> covers ks raws h"
  unfolding covers_def guard_grow_def by blast

lemma covers_Un: "covers ks raws g \<Longrightarrow> covers ks' raws' g \<Longrightarrow> covers (ks \<union> ks') (raws \<union> raws') g"
  unfolding covers_def by blast

lemma covers_UNION: "(\<And>x. x \<in> A \<Longrightarrow> covers (f x) (r x) g) \<Longrightarrow> covers (\<Union>x \<in> A. f x) (\<Union>x \<in> A. r x) g"
  unfolding covers_def by blast

lemma fold_covers:
  assumes "grows f" and "\<And>g h. f g x = Inr h \<Longrightarrow> covers ks raws h" and "res_fold f s xs = Inr t" and "x \<in> set xs"
  shows "covers ks raws t"
  using assms(3,4)
proof (induction xs arbitrary: s)
  case (Cons y ys)
  then obtain s1 where s1: "f s y = Inr s1" "res_fold f s1 ys = Inr t" by (auto split: sum.splits)
  show ?case
  proof (cases "y = x")
    case True
    with assms(2) s1(1) have "covers ks raws s1" by blast
    then show ?thesis by (rule covers_grow [OF _ guard_fold [OF assms(1) s1(2)]])
  next
    case False
    with Cons s1(2) show ?thesis by auto
  qed
qed simp

lemma prefixes_covered: "map_res neighborPrefix raws = Inr pfs \<Longrightarrow> set pfs \<subseteq> set (gs_protected h) \<Longrightarrow> covers {} (set raws) h"
  using neighborPrefixes_set [of raws pfs] unfolding covers_def by fastforce

lemma peer_covered: "neighborPeerPrefixes peer = Inr pfs \<Longrightarrow> set pfs \<subseteq> set (gs_protected h) \<Longrightarrow> covers {} (set (p_wgAllowedIPs peer)) h"
  using neighborPeerPrefixes_set [of peer pfs] unfolding covers_def by fastforce

lemma guard_site_peer_covers:
  "guard_site_peer g peer = Inr h \<Longrightarrow> \<not> p_remote peer \<Longrightarrow> covers {p_publicKey peer} (set (p_wgAllowedIPs peer)) h"
proof -
  assume "guard_site_peer g peer = Inr h" "\<not> p_remote peer"
  then obtain pfs where pfs: "neighborPeerPrefixes peer = Inr pfs"
    and h: "h = g\<lparr>gs_transport := p_publicKey peer # gs_transport g, gs_protected := gs_protected g @ pfs\<rparr>"
    by (auto simp: guard_site_peer_def split: sum.splits)
  have "covers {} (set (p_wgAllowedIPs peer)) h" by (rule peer_covered [OF pfs]) (simp add: h)
  moreover have "covers {p_publicKey peer} {} h" by (simp add: covers_def h)
  ultimately show ?thesis using covers_Un by fastforce
qed

lemma guard_path_covers: "guard_path g path = Inr h \<Longrightarrow> covers {} (path_sources path) h"
  by (cases path) (auto simp: guard_path_def path_sources_def covers_def [of "{}" "{}"] split: sum.splits intro!: prefixes_covered)

lemma protects_own: "pn_rootPublicKey p \<noteq> [] \<Longrightarrow> set pfs \<subseteq> set (gs_protected (own_or_protect [] [] p pfs g))"
  by (auto simp: own_or_protect_def)

lemma guard_site_covers:
  assumes "guard_site [] [] p g ks = Inr h" and "pn_rootPublicKey p \<noteq> []"
  shows "covers {fst ks} (site_sources (snd ks)) h"
proof -
  from assms(1) obtain pfs where pfs: "map_res neighborPrefix (cl_allowedSources (ts_client (snd ks))) = Inr pfs"
    and f: "res_fold guard_path (own_or_protect [] [] p pfs (g\<lparr>gs_transport := fst ks # gs_transport g\<rparr>)) [ts_legacy (snd ks), ts_forward (snd ks)] = Inr h"
    unfolding guard_site_def res_case_Inr by blast
  let ?g = "own_or_protect [] [] p pfs (g\<lparr>gs_transport := fst ks # gs_transport g\<rparr>)"
  have "covers {} (set (cl_allowedSources (ts_client (snd ks)))) ?g" by (rule prefixes_covered [OF pfs protects_own [OF assms(2)]])
  moreover have "covers {fst ks} {} ?g" by (auto simp: covers_def own_or_protect_def)
  ultimately have "covers {fst ks} (set (cl_allowedSources (ts_client (snd ks)))) ?g" using covers_Un by fastforce
  from covers_grow [OF this guard_fold [OF guard_path_grow f]]
  have one: "covers {fst ks} (set (cl_allowedSources (ts_client (snd ks)))) h" .
  have path: "covers {} (path_sources path) h" if "path \<in> set [ts_legacy (snd ks), ts_forward (snd ks)]" for path
    by (rule fold_covers [OF guard_path_grow guard_path_covers f that])
  have "covers {} (path_sources (ts_legacy (snd ks))) h" "covers {} (path_sources (ts_forward (snd ks))) h" by (simp_all add: path)
  from covers_Un [OF covers_Un [OF one this(1)] this(2)] show ?thesis by (simp add: site_sources_def)
qed

lemma guard_cloud_peer_covers:
  assumes "guard_cloud_peer [] [] p g peer = Inr h" "pn_rootPublicKey p \<noteq> []" "p_publicKey peer = pn_rootPublicKey p"
  shows "covers {} (set (p_wgAllowedIPs peer)) h"
proof -
  from assms obtain pfs where pfs: "neighborPeerPrefixes peer = Inr pfs" and h: "h = own_or_protect [] [] p pfs g"
    by (auto simp: guard_cloud_peer_def split: sum.splits)
  show ?thesis unfolding h by (rule peer_covered [OF pfs protects_own [OF assms(2)]])
qed

lemma guard_cloud_doc_covers:
  assumes "guard_cloud_doc [] [] p g doc = Inr h" "pn_rootPublicKey p \<noteq> []" "peer \<in> set (doc_peers doc)" "p_publicKey peer = pn_rootPublicKey p"
  shows "covers {} (set (p_wgAllowedIPs peer)) h"
proof -
  from assms(1) have f: "res_fold (guard_cloud_peer [] [] p) g (doc_peers doc) = Inr h"
    by (auto simp: guard_cloud_doc_def split: sum.splits if_splits)
  show ?thesis by (rule fold_covers [OF guard_cloud_peer_grow _ f assms(3)]) (rule guard_cloud_peer_covers [OF _ assms(2,4)])
qed

text \<open>What \<open>guard_plan\<close> protects, when no root is exempt.\<close>

definition plan_guarded :: "'a tunnel_env_scheme \<Rightarrow> plan_fields \<Rightarrow> guard_state \<Rightarrow> bool" where
  "plan_guarded env p g = covers (journal_keys env p) (journal_sources env p) g"

lemma plan_guarded_grow: "plan_guarded env p g \<Longrightarrow> guard_grow g h \<Longrightarrow> plan_guarded env p h"
  unfolding plan_guarded_def by (rule covers_grow)

lemma guard_plan_rule:
  assumes "guard_plan env [] [] g plan = Inr h" and root: "pn_rootPublicKey (plan_fields plan) \<noteq> []"
  shows "guard_grow g h \<and> plan_guarded env (plan_fields plan) h"
proof -
  let ?p = "plan_fields plan"
  define g0 where "g0 = g\<lparr>gs_reserved := pn_rootPublicKey ?p # gs_reserved g, gs_foundCloud := gs_foundCloud g \<or> [] = pn_rootPublicKey ?p\<rparr>"
  from assms obtain base g1 g2 where base: "json_peer_list env (pn_base ?p) = Some base"
    and g1: "res_fold guard_site_peer g0 (doc_peers base @ doc_peers (pn_desired ?p)) = Inr g1"
    and g2: "res_fold (guard_site [] [] ?p) g1 (pn_sites ?p) = Inr g2"
    and h: "res_fold (guard_cloud_doc [] [] ?p) (g2\<lparr>gs_transport := map (bd_publicKey \<circ> snd) (pn_bindings ?p) @ gs_transport g2\<rparr>)
              [PreviousSitePeers ?p, pn_siteDesired ?p] = Inr h"
    unfolding guard_plan_def Let_def opt_case_Inr res_case_Inr g0_def by auto
  let ?g3 = "g2\<lparr>gs_transport := map (bd_publicKey \<circ> snd) (pn_bindings ?p) @ gs_transport g2\<rparr>"
  have grow_doc: "grows (guard_cloud_doc [] [] ?p)" by (rule growsI) (rule guard_cloud_doc_grow)
  have g3: "guard_grow g2 ?g3" by (auto simp: guard_grow_def)
  note gh3 = guard_fold [OF grow_doc h]
  have gh2: "guard_grow g2 h" by (rule guard_grow_trans [OF g3 gh3])
  have gh1: "guard_grow g1 h" by (rule guard_grow_trans [OF guard_fold [OF guard_site_grow g2] gh2])
  have gh0: "guard_grow g0 h" by (rule guard_grow_trans [OF guard_fold [OF guard_site_peer_grow g1] gh1])
  have "guard_grow g g0" by (auto simp: g0_def guard_grow_def)
  with gh0 have "guard_grow g h" by (rule guard_grow_trans [rotated])
  moreover have "covers {pn_rootPublicKey ?p} {} h" using gh0 by (auto simp: covers_def g0_def guard_grow_def)
  moreover have "covers ((bd_publicKey \<circ> snd) ` set (pn_bindings ?p)) {} h" using gh3 by (auto simp: covers_def guard_grow_def)
  moreover have "covers (\<Union>ks \<in> set (pn_sites ?p). {fst ks}) (\<Union>ks \<in> set (pn_sites ?p). site_sources (snd ks)) h"
    by (rule covers_UNION, rule covers_grow [OF fold_covers [OF guard_site_grow guard_site_covers [OF _ root] g2] gh2])
  moreover have "covers (\<Union>peer \<in> set (site_side env ?p). {p_publicKey peer}) (\<Union>peer \<in> set (site_side env ?p). set (p_wgAllowedIPs peer)) h"
  proof (rule covers_UNION)
    fix peer
    assume "peer \<in> set (site_side env ?p)"
    then have peer: "peer \<in> set (doc_peers base @ doc_peers (pn_desired ?p))" "\<not> p_remote peer" by (auto simp: site_side_def base)
    show "covers {p_publicKey peer} (set (p_wgAllowedIPs peer)) h"
      by (rule covers_grow [OF fold_covers [OF guard_site_peer_grow guard_site_peer_covers [OF _ peer(2)] g1 peer(1)] gh1])
  qed
  moreover have "covers (\<Union>peer \<in> set (cloud_side ?p). {}) (\<Union>peer \<in> set (cloud_side ?p). set (p_wgAllowedIPs peer)) h"
  proof (rule covers_UNION)
    fix peer
    assume "peer \<in> set (cloud_side ?p)"
    then obtain doc where doc: "doc \<in> set [PreviousSitePeers ?p, pn_siteDesired ?p]" "peer \<in> set (doc_peers doc)"
      and key: "p_publicKey peer = pn_rootPublicKey ?p" unfolding cloud_side_def by auto
    show "covers {} (set (p_wgAllowedIPs peer)) h" by (rule fold_covers [OF grow_doc guard_cloud_doc_covers [OF _ root doc(2) key] h doc(1)])
  qed
  ultimately show ?thesis unfolding plan_guarded_def covers_def journal_keys_def journal_sources_def by auto
qed

lemma guard_plans_rule:
  assumes "res_fold (guard_plan env [] []) g plans = Inr h" and "\<forall>plan \<in> set plans. pn_rootPublicKey (plan_fields plan) \<noteq> []"
  shows "guard_grow g h \<and> (\<forall>plan \<in> set plans. plan_guarded env (plan_fields plan) h)"
  using assms
proof (induction plans arbitrary: g)
  case (Cons plan plans)
  then obtain g1 where g1: "guard_plan env [] [] g plan = Inr g1" "res_fold (guard_plan env [] []) g1 plans = Inr h"
    by (auto split: sum.splits)
  have one: "guard_grow g g1" "plan_guarded env (plan_fields plan) g1" using guard_plan_rule [OF g1(1)] Cons.prems(2) by simp_all
  have two: "guard_grow g1 h" "\<forall>plan \<in> set plans. plan_guarded env (plan_fields plan) h" using Cons.IH [OF g1(2)] Cons.prems(2) by simp_all
  with one guard_grow_trans plan_guarded_grow show ?case by (metis set_ConsD)
qed simp

text \<open>The reserved identities are the roots of the plans.\<close>

definition keeps_reserved :: "(guard_state \<Rightarrow> 'x \<Rightarrow> guard_state res) \<Rightarrow> bool" where
  "keeps_reserved f = (\<forall>g x h. f g x = Inr h \<longrightarrow> gs_reserved h = gs_reserved g)"

lemma keeps_reserved_fold: "keeps_reserved f \<Longrightarrow> res_fold f g xs = Inr h \<Longrightarrow> gs_reserved h = gs_reserved g"
  by (induction xs arbitrary: g) (auto simp: keeps_reserved_def split: sum.splits)

lemma own_keeps_reserved: "gs_reserved (own_or_protect c w p pfs g) = gs_reserved g"
  by (simp add: own_or_protect_def)

lemma guards_keep_reserved:
  "keeps_reserved guard_site_peer" "keeps_reserved guard_path" "keeps_reserved (guard_site c w p)" "keeps_reserved (guard_cloud_doc c w p)"
proof -
  show "keeps_reserved guard_site_peer" by (auto simp: keeps_reserved_def guard_site_peer_def split: if_splits sum.splits)
  show path: "keeps_reserved guard_path" by (auto simp: keeps_reserved_def guard_path_def split: option.splits sum.splits)
  show "keeps_reserved (guard_site c w p)"
    unfolding keeps_reserved_def guard_site_def res_case_Inr by (auto simp del: res_fold.simps dest!: keeps_reserved_fold [OF path] simp: own_keeps_reserved)
  have peer: "keeps_reserved (guard_cloud_peer c w p)"
    by (auto simp: keeps_reserved_def guard_cloud_peer_def own_keeps_reserved split: if_splits sum.splits)
  show "keeps_reserved (guard_cloud_doc c w p)"
    unfolding keeps_reserved_def guard_cloud_doc_def by (auto dest: keeps_reserved_fold [OF peer] split: if_splits sum.splits)
qed

lemma guard_plan_reserved: "guard_plan env [] [] g plan = Inr h \<Longrightarrow> pn_rootPublicKey (plan_fields plan) \<noteq> [] \<Longrightarrow>
    gs_reserved h = pn_rootPublicKey (plan_fields plan) # gs_reserved g"
  unfolding guard_plan_def Let_def opt_case_Inr res_case_Inr
  by (auto simp del: res_fold.simps dest!: keeps_reserved_fold [OF guards_keep_reserved(1)] keeps_reserved_fold [OF guards_keep_reserved(3)]
      keeps_reserved_fold [OF guards_keep_reserved(4)])

lemma guard_plans_reserved:
  "res_fold (guard_plan env [] []) g plans = Inr h \<Longrightarrow> \<forall>plan \<in> set plans. pn_rootPublicKey (plan_fields plan) \<noteq> [] \<Longrightarrow>
    set (gs_reserved h) = set (gs_reserved g) \<union> (pn_rootPublicKey \<circ> plan_fields) ` set plans"
proof (induction plans arbitrary: g)
  case (Cons plan plans)
  then obtain g1 where g1: "guard_plan env [] [] g plan = Inr g1" "res_fold (guard_plan env [] []) g1 plans = Inr h"
    by (auto split: sum.splits)
  with Cons guard_plan_reserved [OF g1(1)] show ?case by auto
qed simp

text \<open>Admitted prefixes keep off what is protected, and have one owner each.\<close>

definition owners_apart :: "guard_state \<Rightarrow> (ip_prefix \<times> string) list \<Rightarrow> bool" where
  "owners_apart g owners =
     ((\<forall>p k. (p, k) \<in> set owners \<longrightarrow> IsValid p \<and> (\<forall>q \<in> set (gs_protected g). \<not> Overlaps p q)) \<and>
      (\<forall>p k q k'. (p, k) \<in> set owners \<longrightarrow> (q, k') \<in> set owners \<longrightarrow> k \<noteq> k' \<longrightarrow> \<not> Overlaps p q))"

lemma set_update_subset: "set (AList.update k v m) \<subseteq> insert (k, v) (set m)"
  by (induction m) auto

lemma set_update_old: "(p, w) \<in> set m \<Longrightarrow> (p = k \<Longrightarrow> w = v) \<Longrightarrow> (p, w) \<in> set (AList.update k v m)"
  by (induction m) auto

lemma in_update: "(k, v) \<in> set (AList.update k v m)"
  by (induction m) auto

lemma admit_prefix_rule:
  assumes "admit_prefix g key owners p = Inr owners'" and "owners_apart g owners" and "IsValid p"
  shows "owners_apart g owners' \<and> (p, key) \<in> set owners' \<and> set owners \<subseteq> set owners'"
proof -
  have free: "\<not> Overlaps p q" if "(q, k) \<in> set owners" "k \<noteq> key" for q k
    using assms(1) that by (auto simp: admit_prefix_def list_ex_iff split: if_splits)
  have prot: "\<not> Overlaps p q" if "q \<in> set (gs_protected g)" for q
    using assms(1) that by (auto simp: admit_prefix_def list_ex_iff split: if_splits)
  have new: "owners' = AList.update p key owners" using assms(1) by (auto simp: admit_prefix_def split: if_splits)
  have sub: "set owners' \<subseteq> insert (p, key) (set owners)" unfolding new by (rule set_update_subset)
  have "(p', k) \<in> set owners'" if "(p', k) \<in> set owners" for p' k
    unfolding new using that free [of p' k] Overlaps_refl [OF assms(3)] by (intro set_update_old) auto
  then have mono: "set owners \<subseteq> set owners'" by auto
  have "IsValid a \<and> (\<forall>q \<in> set (gs_protected g). \<not> Overlaps a q)" if "(a, k) \<in> set owners'" for a k
    using assms(2,3) prot that sub unfolding owners_apart_def by blast
  moreover have "\<not> Overlaps a b" if ab: "(a, k) \<in> set owners'" "(b, k') \<in> set owners'" "k \<noteq> k'" for a k b k'
  proof -
    have cases: "(a, k) = (p, key) \<or> (a, k) \<in> set owners" "(b, k') = (p, key) \<or> (b, k') \<in> set owners" using ab sub by auto
    show ?thesis
    proof (cases "(a, k) = (p, key)")
      case True
      with cases(2) ab(3) free [of b k'] show ?thesis by auto
    next
      case False
      with cases(1) have a: "(a, k) \<in> set owners" by blast
      show ?thesis
      proof (cases "(b, k') = (p, key)")
        case True
        with free [OF a] ab(3) Overlaps_sym [of a b] show ?thesis by auto
      next
        case False
        with cases a ab(3) assms(2) show ?thesis unfolding owners_apart_def by blast
      qed
    qed
  qed
  ultimately have "owners_apart g owners'" unfolding owners_apart_def by blast
  with mono new in_update show ?thesis by simp
qed

lemma admit_prefixes_rule:
  assumes "res_fold (admit_prefix g key) owners pfs = Inr owners'" and "owners_apart g owners" and "\<forall>p \<in> set pfs. IsValid p"
  shows "owners_apart g owners' \<and> (\<forall>p \<in> set pfs. (p, key) \<in> set owners') \<and> set owners \<subseteq> set owners'"
  using assms
proof (induction pfs arbitrary: owners)
  case (Cons p pfs)
  then obtain o1 where o1: "admit_prefix g key owners p = Inr o1" "res_fold (admit_prefix g key) o1 pfs = Inr owners'"
    by (auto split: sum.splits)
  have one: "owners_apart g o1" "(p, key) \<in> set o1" "set owners \<subseteq> set o1"
    using admit_prefix_rule [OF o1(1) Cons.prems(2)] Cons.prems(3) by simp_all
  with Cons.IH [OF o1(2) one(1)] Cons.prems(3) show ?case by auto
qed simp

definition admit_inv :: "guard_state \<Rightarrow> admit_state \<Rightarrow> bool" where
  "admit_inv g st =
     (owners_apart g (as_owners st) \<and>
      (\<forall>x \<in> set (as_result st). p_publicKey x \<notin> set (gs_reserved g) \<and> p_publicKey x \<notin> set (gs_transport g) \<and>
         p_remote x \<and> p_transit x = [] \<and> p_transitHosts x = [] \<and>
         (\<exists>pfs. neighborPeerPrefixes x = Inr pfs \<and> (\<forall>p \<in> set pfs. (p, p_publicKey x) \<in> set (as_owners st)))))"

lemma admit_peer_rule:
  assumes "admit_peer g st peer = Inr st'" and "admit_inv g st"
  shows "admit_inv g st'"
proof (cases "p_publicKey peer \<in> set (gs_reserved g)")
  case True
  with assms show ?thesis by (auto simp: admit_peer_def admit_inv_def Let_def split: if_splits)
next
  case False
  with assms(1) obtain pfs owners where pfs: "neighborPeerPrefixes peer = Inr pfs"
    and fold: "res_fold (admit_prefix g (p_publicKey peer)) (as_owners st) pfs = Inr owners"
    and key: "p_publicKey peer \<notin> set (gs_transport g)" "p_remote peer" "p_transit peer = []" "p_transitHosts peer = []"
    and st': "st' = \<lparr>as_seen = p_publicKey peer # as_seen st, as_owners = owners, as_result = as_result st @ [peer]\<rparr>"
    by (auto simp: admit_peer_def Let_def split: if_splits sum.splits)
  have "\<forall>p \<in> set pfs. IsValid p" using neighborPeerPrefixes_set(1) [OF pfs] ParsePrefix_valid by blast
  moreover have "owners_apart g (as_owners st)" using assms(2) by (simp add: admit_inv_def)
  ultimately have "owners_apart g owners" "\<forall>p \<in> set pfs. (p, p_publicKey peer) \<in> set owners" "set (as_owners st) \<subseteq> set owners"
    using admit_prefixes_rule [OF fold] by blast+
  with assms(2) pfs key False show ?thesis unfolding admit_inv_def st' by (auto; blast)
qed

interpretation admitted: guarded_replay "admit_peer g" "admit_inv g" "\<lambda>_ _. True" for g
  by unfold_locales (auto intro: admit_peer_rule)

lemma validReceivePublicKey_nonempty: "validReceivePublicKey k \<Longrightarrow> k \<noteq> []"
  by (auto simp: validReceivePublicKey_def b64_decode_def)

lemma bool_case_Inr [res_inv]: "(case b of True \<Rightarrow> r | False \<Rightarrow> Inl e) = Inr z \<longleftrightarrow> b \<and> r = Inr z"
  by (cases b) simp_all

lemma PlanReceiveRoutes_root:
  assumes "PlanReceiveRoutes env plan = Inr routes"
  shows "validReceivePublicKey (pn_rootPublicKey (plan_fields plan))"
proof -
  from assms have "plan_routes env (plan_fields plan) = Inr routes"
    by (simp add: PlanReceiveRoutes.simps [of env plan] split: sum.splits)
  then obtain paths bs where "ValidateReceiveBindings paths (pn_rootPublicKey (plan_fields plan)) bs = Inr ()"
    unfolding plan_routes_def res_case_Inr if_Inl_Inr bool_case_Inr opt_case_Inr by (metis (full_types) old.unit.exhaust)
  then show ?thesis by (auto simp: ValidateReceiveBindings_def split: if_splits)
qed

text \<open>Every peer that is not a reserved root is admitted, once.\<close>

lemma admit_result:
  "res_fold (admit_peer g) st peers = Inr st' \<Longrightarrow>
     as_result st' = as_result st @ filter (\<lambda>x. p_publicKey x \<notin> set (gs_reserved g)) peers \<and> distinct (map p_publicKey peers) \<and>
     (\<forall>x \<in> set peers. p_publicKey x \<notin> set (as_seen st))"
proof (induction peers arbitrary: st)
  case (Cons x xs)
  then obtain st1 where st1: "admit_peer g st x = Inr st1" "res_fold (admit_peer g) st1 xs = Inr st'" by (auto split: sum.splits)
  from st1(1) have "as_result st1 = as_result st @ filter (\<lambda>x. p_publicKey x \<notin> set (gs_reserved g)) [x] \<and>
      set (as_seen st1) = insert (p_publicKey x) (set (as_seen st)) \<and> p_publicKey x \<notin> set (as_seen st)"
    by (auto simp: admit_peer_def Let_def split: if_splits sum.splits)
  with Cons.IH [OF st1(2)] show ?case by (auto simp: image_iff)
qed simp

lemma neighbors_Inr:
  assumes "PlanReceiveNeighborPeers env (Some peers) (Some plans) = Inr admitted_peers"
  obtains g owners where "\<forall>plan \<in> set plans. plan_guarded env (plan_fields plan) g" and "owners_apart g owners"
    and "\<forall>x \<in> set admitted_peers. p_publicKey x \<notin> set (gs_reserved g) \<and> p_publicKey x \<notin> set (gs_transport g) \<and>
          p_remote x \<and> p_transit x = [] \<and> p_transitHosts x = [] \<and>
          (\<exists>pfs. neighborPeerPrefixes x = Inr pfs \<and> (\<forall>p \<in> set pfs. (p, p_publicKey x) \<in> set owners))"
    and "admitted_peers = filter (\<lambda>x. p_publicKey x \<notin> (pn_rootPublicKey \<circ> plan_fields) ` set plans) peers" and "distinct (map p_publicKey peers)"
proof -
  from assms obtain r g st where set: "(if plans = [] then Inr [] else PlanReceiveRouteSet env plans) = Inr r"
    and g: "res_fold (guard_plan env [] []) \<lparr>gs_reserved = [], gs_transport = [], gs_protected = [], gs_cloudOwned = [], gs_foundCloud = True\<rparr> plans = Inr g"
    and st: "res_fold (admit_peer g) \<lparr>as_seen = [], as_owners = [], as_result = []\<rparr> peers = Inr st" and res: "admitted_peers = as_result st"
    unfolding PlanReceiveNeighborPeers_def planReceiveNeighborPeers_def planReceiveNeighborPeersWithWithdrawal_def
    by (auto split: sum.splits if_splits)
  have roots: "\<forall>plan \<in> set plans. pn_rootPublicKey (plan_fields plan) \<noteq> []"
  proof (cases "plans = []")
    case False
    with set obtain s where "\<forall>plan \<in> set plans. plan_claimed env s plan" using PlanReceiveRouteSet_Inr by (metis (full_types))
    then show ?thesis unfolding plan_claimed_def using PlanReceiveRoutes_root validReceivePublicKey_nonempty by blast
  qed simp
  have "admit_inv g \<lparr>as_seen = [], as_owners = [], as_result = []\<rparr>" by (simp add: admit_inv_def owners_apart_def)
  from admitted.replay_inv [OF this st] have inv: "admit_inv g st" .
  have kept: "admitted_peers = filter (\<lambda>x. p_publicKey x \<notin> (pn_rootPublicKey \<circ> plan_fields) ` set plans) peers" "distinct (map p_publicKey peers)"
    using admit_result [OF st] guard_plans_reserved [OF g roots] res by simp_all
  show thesis
    using that [of g "as_owners st", OF _ _ _ kept] guard_plans_rule [OF g roots] inv unfolding res admit_inv_def by blast
qed

section \<open>The combined routes are the plans' own\<close>

text \<open>Claims and bindings leave the selected routes alone.\<close>

definition silent :: "(set_state \<Rightarrow> 'x \<Rightarrow> set_state res) \<Rightarrow> bool" where
  "silent f = (\<forall>s x t. f s x = Inr t \<longrightarrow> ss_result t = ss_result s)"

lemma silentD: "silent f \<Longrightarrow> f s x = Inr t \<Longrightarrow> ss_result t = ss_result s"
  unfolding silent_def by blast

lemma silent_fold: "silent f \<Longrightarrow> res_fold f s xs = Inr t \<Longrightarrow> ss_result t = ss_result s"
proof (induction xs arbitrary: s)
  case (Cons x xs)
  then show ?case by (auto split: sum.splits dest: silentD)
qed simp

lemma fold_silent: "(\<And>y. silent (f y)) \<Longrightarrow> silent (\<lambda>s y. res_fold (f y) s (g y))"
  unfolding silent_def using silent_fold silent_def by blast

lemma bindKey_silent: "bindKey k n s = Inr t \<Longrightarrow> ss_result t = ss_result s"
  by (auto simp: bindKey_def split: option.splits if_splits)

lemma bindNode_silent: "bindNode uid name key role s = Inr t \<Longrightarrow> ss_result t = ss_result s"
  by (auto simp: bindNode_def split: if_splits dest: bindKey_silent)

lemma claim_silent: "claim msg node machine s raw = Inr t \<Longrightarrow> ss_result t = ss_result s"
  by (auto simp: claim_def split: option.splits if_splits)

lemma claim_device_silent: "claim_device msg node sel s = Inr t \<Longrightarrow> ss_result t = ss_result s"
  by (auto simp: claim_device_def split: option.splits if_splits)

lemma claim_old_peer_silent: "silent (claim_old_peer p node)"
proof -
  have "silent (claim msg node machine)" for msg machine unfolding silent_def using claim_silent by blast
  from silent_fold [OF this] show ?thesis
    unfolding silent_def claim_old_peer_def by (auto split: if_splits sum.splits)
qed

lemma claim_old_site_silent: "silent (claim_old_site p)"
  unfolding silent_def claim_old_site_def using silent_fold [OF claim_old_peer_silent] by blast

lemma bind_site_silent: "silent (bind_site p)"
  unfolding silent_def bind_site_def by (auto split: sum.splits dest!: bindNode_silent bindKey_silent)

lemma previous_node_silent: "silent (previous_node machine)"
proof -
  have "silent (previous_route machine node)" for node
    unfolding silent_def previous_route_def by (auto split: sum.splits dest!: claim_silent claim_device_silent)
  from silent_fold [OF this] show ?thesis unfolding silent_def previous_node_def by blast
qed

lemma claim_previous_silent: "claim_previous env plan s = Inr t \<Longrightarrow> ss_result t = ss_result s"
proof -
  have "silent (\<lambda>s b. bindKey (bd_publicKey (snd b)) n s)" for n unfolding silent_def using bindKey_silent by blast
  note keys = silent_fold [OF this]
  note nodes = silent_fold [OF previous_node_silent]
  assume "claim_previous env plan s = Inr t"
  then show ?thesis unfolding claim_previous_def Let_def
    by (auto split: option.splits sum.splits prod.splits dest!: keys nodes)
qed

text \<open>A route of the result is one of the given routes, or was there before.\<close>

lemma get_update: "get (AList.update k v m) n = (if n = k then v else get m n)"
  by (simp add: get_def update_conv')

lemma set_routes_origin:
  assumes "res_fold (set_route machine node) s rs = Inr t" and "(d, sel) \<in> set (get (ss_result t) n)"
  shows "(n = node \<and> (d, sel) \<in> set rs) \<or> (d, sel) \<in> set (get (ss_result s) n)"
  using assms
proof (induction rs arbitrary: s)
  case (Cons r rs)
  then obtain s1 where s1: "set_route machine node s r = Inr s1" "res_fold (set_route machine node) s1 rs = Inr t"
    by (auto split: sum.splits)
  then have "ss_result s1 = AList.update node (AList.update (fst r) (snd r) (get (ss_result s) node)) (ss_result s)"
    by (auto simp: set_route_def split: sum.splits dest!: claim_silent claim_device_silent)
  with Cons.IH [OF s1(2) Cons.prems(2)] set_update_subset [of "fst r" "snd r" "get (ss_result s) node"] show ?case
    by (auto simp: get_update split: if_splits)
qed simp

lemma set_nodes_origin:
  assumes "res_fold (set_node machine) s nrs = Inr t" and "(d, sel) \<in> set (get (ss_result t) n)"
  shows "(\<exists>rs. (n, rs) \<in> set nrs \<and> (d, sel) \<in> set rs) \<or> (d, sel) \<in> set (get (ss_result s) n)"
  using assms
proof (induction nrs arbitrary: s)
  case (Cons nr nrs)
  obtain node rs where nr: "nr = (node, rs)" by force
  from Cons nr obtain s1 where s1: "set_node machine s nr = Inr s1" "res_fold (set_node machine) s1 nrs = Inr t"
    by (auto split: sum.splits)
  let ?s = "if map_of (ss_result s) node = None then s\<lparr>ss_result := AList.update node [] (ss_result s)\<rparr> else s"
  have "set (get (ss_result ?s) n) \<subseteq> set (get (ss_result s) n)" by (auto simp: get_update)
  moreover have "res_fold (set_route machine node) ?s rs = Inr s1"
    using s1(1) unfolding set_node_def nr Let_def fst_conv snd_conv .
  ultimately show ?case using Cons.IH [OF s1(2) Cons.prems(2)] set_routes_origin nr by fastforce
qed simp

lemma set_plan_origin:
  assumes "set_plan env first s plan = Inr t" and "(d, sel) \<in> set (get (ss_result t) n)"
  shows "(\<exists>routes rs. PlanReceiveRoutes env plan = Inr routes \<and> (n, rs) \<in> set routes \<and> (d, sel) \<in> set rs) \<or> (d, sel) \<in> set (get (ss_result s) n)"
proof -
  let ?p = "plan_fields plan"
  from assms(1) obtain s1 routes s2 s3 s4 where
      s1: "bindNode (pn_cloudNodeUID ?p) (pn_cloudNodeName ?p) (pn_rootPublicKey ?p) ''cloud'' (s\<lparr>ss_machines := pn_machineUID ?p # ss_machines s\<rparr>) = Inr s1"
    and routes: "PlanReceiveRoutes env plan = Inr routes"
    and s2: "res_fold (claim_old_site ?p) s1 (pn_sites ?p) = Inr s2" and s3: "res_fold (bind_site ?p) s2 (pn_sites ?p) = Inr s3"
    and s4: "claim_previous env plan s3 = Inr s4" and t: "res_fold (set_node (pn_machineUID ?p)) s4 routes = Inr t"
    unfolding set_plan_def Let_def if_Inl_Inr res_case_Inr by blast
  have "ss_result s4 = ss_result s"
    using bindNode_silent [OF s1] silent_fold [OF claim_old_site_silent s2] silent_fold [OF bind_site_silent s3]
      claim_previous_silent [OF s4] by simp
  with set_nodes_origin [OF t assms(2)] routes show ?thesis by auto
qed

lemma route_set_origin:
  assumes "PlanReceiveRouteSet env plans = Inr result" and "(d, sel) \<in> set (get result n)"
  shows "\<exists>plan \<in> set plans. \<exists>routes rs. PlanReceiveRoutes env plan = Inr routes \<and> (n, rs) \<in> set routes \<and> (d, sel) \<in> set rs"
proof -
  have fold: "\<exists>plan \<in> set ps. \<exists>routes rs. PlanReceiveRoutes env plan = Inr routes \<and> (n, rs) \<in> set routes \<and> (d, sel) \<in> set rs"
    if "res_fold (set_plan env first) s ps = Inr t" "(d, sel) \<in> set (get (ss_result t) n)" "(d, sel) \<notin> set (get (ss_result s) n)"
    for first ps s t
    using that
  proof (induction ps arbitrary: s)
    case (Cons plan ps)
    then obtain s1 where s1: "set_plan env first s plan = Inr s1" "res_fold (set_plan env first) s1 ps = Inr t"
      by (auto split: sum.splits)
    show ?case
    proof (cases "(d, sel) \<in> set (get (ss_result s1) n)")
      case True
      with set_plan_origin [OF s1(1) True] Cons.prems(3) show ?thesis by auto
    next
      case False
      with Cons.IH [OF s1(2) Cons.prems(2)] show ?thesis by auto
    qed
  qed simp
  from assms obtain first st where "res_fold (set_plan env (plan_fields first)) set_init plans = Inr st" "result = ss_result st"
    by (auto simp: PlanReceiveRouteSet_def simp del: res_fold.simps split: list.splits sum.splits)
  with fold [of "plan_fields first" set_init plans st] assms(2) show ?thesis by (simp add: set_init_def get_def)
qed

end
