(* ===== verification/Journal_Routes.thy ===== *)
theory Journal_Routes
  imports Route_Set Succession
begin

text \<open>
  Receiver journals (\<open>controller/pkg/tunnel/receive_journal.go\<close>, \<open>receive_journal_routes.go\<close>,
  \<open>receive_source_routes.go\<close>, \<open>receive_prepare_predecessor.go\<close> and the history check of
  \<open>receive_previous_receiver.go\<close>): a handover journal whose plan is a receiver transition plan, the
  spec that binds its members to the plan, and the transport every journal of a set selects.
\<close>

section \<open>Decoding\<close>

record plan_env = tunnel_env +
  json_plan :: "string \<Rightarrow> (transition_plan \<times> bool) option"

definition Metadata :: "snapshot \<Rightarrow> config_map" where
  "Metadata s = (case sn_object s of None \<Rightarrow> empty_map | Some obj \<Rightarrow> obj)"

definition snapshot_Predecessor :: "snapshot \<Rightarrow> predecessor option" where
  "snapshot_Predecessor s = j_predecessor (sn_transition s)"

definition ReceiveTransitionName :: "'a round_env_scheme \<Rightarrow> string \<Rightarrow> string" where
  "ReceiveTransitionName env machineUID = ''receive-transition-'' @ hex_encode (take 16 (sha256 env machineUID))"

definition from_key :: "transition_plan \<Rightarrow> string \<Rightarrow> string" where
  "from_key plan pub =
     (case previousReceiver plan of
        Some (_, Some old) \<Rightarrow> bd_publicKey (binding_of (plan_fields old) pub)
      | _ \<Rightarrow> pn_rootPublicKey (plan_fields plan))"

definition site_members :: "transition_plan \<Rightarrow> string \<times> transition_site \<Rightarrow> member list" where
  "site_members plan ks =
     (let p = plan_fields plan; pub = fst ks; binding = binding_of p pub; fromKey = from_key plan pub in
      [\<lparr>m_nodeUID = pn_cloudNodeUID p, m_fromKey = fromKey, m_toKey = bd_publicKey binding, m_deviceID = ''site:'' @ pub,
        m_fromPeerKey = pub, m_toPeerKey = pub\<rparr>,
       \<lparr>m_nodeUID = ts_nodeUID (snd ks), m_fromKey = pub, m_toKey = pub, m_deviceID = ''cloud:'' @ pn_rootPublicKey p,
        m_fromPeerKey = fromKey, m_toPeerKey = bd_publicKey binding\<rparr>])"

definition legacy_generation :: "'a round_env_scheme \<Rightarrow> plan_fields \<Rightarrow> string" where
  "legacy_generation env p = ''legacy:'' @ HashPeerList env (pn_base p)"

definition from_generation :: "'a round_env_scheme \<Rightarrow> transition_plan \<Rightarrow> string" where
  "from_generation env plan =
     (case previousReceiver plan of Some (generation, _) \<Rightarrow> generation | None \<Rightarrow> legacy_generation env (plan_fields plan))"

definition ReceiveTransitionSpec :: "'a tunnel_env_scheme \<Rightarrow> transition_plan \<Rightarrow> string \<Rightarrow> string \<Rightarrow> spec res" where
  "ReceiveTransitionSpec env plan cluster hash =
     (case PlanReceiveRoutes env plan of
        Inl e \<Rightarrow> Inl (wrap ''receiver journal has an invalid route plan: '' e)
      | Inr _ \<Rightarrow>
          Inr \<lparr>clusterUID = cluster, transitionUID = pn_machineUID (plan_fields plan) @ '':'' @ hash, planHash = hash,
               fromGeneration = from_generation env plan, toGeneration = ''receivers:'' @ hash, phase = Prepare,
               members = sort_key ident (concat (map (site_members plan) (pn_sites (plan_fields plan))))\<rparr>)"

definition expected_spec :: "spec \<Rightarrow> view \<Rightarrow> spec" where
  "expected_spec s v =
     (if vw_rollbackRequested v \<and> phase (rspec (vw_round v)) \<noteq> Abort
        then s\<lparr>phase := phase (rspec (vw_round v)), fromGeneration := toGeneration s, toGeneration := fromGeneration s,
               members := map swap_member (members s)\<rparr>
      else s\<lparr>phase := phase (rspec (vw_round v))\<rparr>)"

definition validateReceiveTransitionBinding ::
  "'a tunnel_env_scheme \<Rightarrow> snapshot \<Rightarrow> transition_plan \<Rightarrow> string \<Rightarrow> unit res" where
  "validateReceiveTransitionBinding env sn plan cluster =
     (case snapshot_View env sn of
        Inl e \<Rightarrow> Inl e
      | Inr v \<Rightarrow>
          (case ReceiveTransitionSpec env plan cluster (planHash (rspec (vw_round v))) of
             Inl e \<Rightarrow> Inl e
           | Inr s \<Rightarrow>
               if (case previousReceiver plan of
                     None \<Rightarrow> False
                   | Some (generation, _) \<Rightarrow>
                       (case snapshot_Predecessor sn of None \<Rightarrow> True | Some q \<Rightarrow> servingGeneration q \<noteq> generation))
                 then Inl (Error ''receiver graph is not bound to the journal predecessor'')
               else if expected_spec s v \<noteq> rspec (vw_round v)
                 then Inl (Error ''receiver journal round does not match its public transport plan'')
               else Inr ()))"

definition identities_complete :: "plan_fields \<Rightarrow> bool" where
  "identities_complete p =
     ((pn_version p = 1 \<or> pn_version p = 2) \<and> pn_namespace p \<noteq> [] \<and> pn_meshName p \<noteq> [] \<and> pn_meshUID p \<noteq> [] \<and>
      pn_machineName p \<noteq> [] \<and> pn_machineUID p \<noteq> [] \<and> pn_adoptionName p = AdoptionSecretName (pn_machineName p) \<and>
      pn_adoptionUID p \<noteq> [] \<and> pn_cloudNodeName p \<noteq> [] \<and> pn_cloudNodeUID p \<noteq> [])"

definition decodeReceiveTransitionContents :: "'a plan_env_scheme \<Rightarrow> snapshot \<Rightarrow> string \<Rightarrow> transition_plan res" where
  "decodeReceiveTransitionContents env sn cluster =
     (case json_plan env (snapshot_Plan sn) of
        None \<Rightarrow> Inl (Error ''decoding receiver journal plan'')
      | Some (plan, eof) \<Rightarrow>
          if \<not> eof then Inl (Error ''receiver journal contains trailing plan data'')
          else if \<not> identities_complete (plan_fields plan) then Inl (Error ''receiver journal has incomplete public identities'')
          else
            (case validateReceiveTransitionBinding env sn plan cluster of
               Inl e \<Rightarrow> Inl e
             | Inr _ \<Rightarrow> Inr plan))"

definition DecodeReceiveTransition :: "'a plan_env_scheme \<Rightarrow> snapshot \<Rightarrow> string \<Rightarrow> transition_plan res" where
  "DecodeReceiveTransition env sn cluster =
     (case decodeReceiveTransitionContents env sn cluster of
        Inl e \<Rightarrow> Inl e
      | Inr plan \<Rightarrow>
          if cm_name (Metadata sn) \<noteq> ReceiveTransitionName env (pn_machineUID (plan_fields plan)) \<or>
             cm_namespace (Metadata sn) \<noteq> pn_namespace (plan_fields plan) \<or> cm_deletionTimestamp (Metadata sn) \<noteq> None
            then Inl (Error ''receiver journal object does not match its public scope or is being deleted'')
          else Inr plan)"

section \<open>Selected transport\<close>

definition CompletedSitePeers :: "'a tunnel_env_scheme \<Rightarrow> transition_plan \<Rightarrow> view \<Rightarrow> peer_list_doc res" where
  "CompletedSitePeers env plan v =
     (let p = plan_fields plan in
      if \<not> vw_complete v then Inl (Error ''site permissions require a completed transition'')
      else
        (case previousReceiver plan of
           Some (generation, old) \<Rightarrow>
             if vw_servingGeneration v = generation
               then
                 (case validateReceivePreviousReceiver env plan of
                    Inl e \<Rightarrow> Inl e
                  | Inr _ \<Rightarrow>
                      (case old of
                         None \<Rightarrow> Inl (Error ''nil previous plan'')
                       | Some q \<Rightarrow> Inr (pn_siteDesired (plan_fields q))))
             else if vw_servingGeneration v = legacy_generation env p then Inr (PreviousSitePeers p)
             else if vw_servingGeneration v = ''receivers:'' @ planHash (rspec (vw_round v)) then Inr (pn_siteDesired p)
             else Inl (Error ''unknown completed site generation'')
         | None \<Rightarrow>
             if vw_servingGeneration v = legacy_generation env p then Inr (PreviousSitePeers p)
             else if vw_servingGeneration v = ''receivers:'' @ planHash (rspec (vw_round v)) then Inr (pn_siteDesired p)
             else Inl (Error ''unknown completed site generation'')))"

definition routing_generation :: "view \<Rightarrow> string res" where
  "routing_generation v =
     (if vw_complete v then Inr (vw_servingGeneration v)
      else
        (case phase (rspec (vw_round v)) of
           Prepare \<Rightarrow> Inr (fromGeneration (rspec (vw_round v)))
         | Abort \<Rightarrow> Inr (fromGeneration (rspec (vw_round v)))
         | Switch \<Rightarrow> Inr (toGeneration (rspec (vw_round v)))
         | Drain \<Rightarrow> Inr (toGeneration (rspec (vw_round v)))
         | Retire \<Rightarrow> Inr (toGeneration (rspec (vw_round v)))
         | OtherPhase _ \<Rightarrow> Inl (Error ''unknown receiver routing phase'')))"

definition own_receivers :: "transition_plan \<Rightarrow> view \<Rightarrow> string \<Rightarrow> (transition_plan \<times> bool) res" where
  "own_receivers plan v generation =
     (if planHash (rspec (vw_round v)) \<noteq> [] \<and> generation = ''receivers:'' @ planHash (rspec (vw_round v)) then Inr (plan, False)
      else Inl (Error ''journal selects an unknown transport generation''))"

definition SelectedReceiveTransport :: "'a round_env_scheme \<Rightarrow> transition_plan \<Rightarrow> view \<Rightarrow> (transition_plan \<times> bool) res" where
  "SelectedReceiveTransport env plan v =
     (case routing_generation v of
        Inl e \<Rightarrow> Inl e
      | Inr generation \<Rightarrow>
          (case previousReceiver plan of
             Some (_, None) \<Rightarrow> Inl (Error ''missing predecessor receiver graph'')
           | Some (previous, Some old) \<Rightarrow>
               if generation = previous then Inr (old, False) else own_receivers plan v generation
           | None \<Rightarrow>
               if generation = legacy_generation env (plan_fields plan) then Inr (plan, True) else own_receivers plan v generation))"

section \<open>Routes of a journal set\<close>

record journal_routes =
  jr_views :: "(string \<times> view) list"
  jr_receivers :: "(string \<times> routes) list"
  jr_legacy :: "(string \<times> transition_plan) list"
  jr_plans :: "(string \<times> transition_plan) list"
  jr_sources :: "(string \<times> site_tunnel) list"
  jr_withdrawn :: "(string \<times> string) list"

text \<open>Equality of Go maps: the same keys with related values.\<close>

definition same_map :: "('v \<Rightarrow> 'v \<Rightarrow> bool) \<Rightarrow> ('k \<times> 'v) list \<Rightarrow> ('k \<times> 'v) list \<Rightarrow> bool" where
  "same_map eq a b =
     (list_all (\<lambda>(k, v). case map_of b k of None \<Rightarrow> False | Some w \<Rightarrow> eq v w) a \<and> list_all (\<lambda>(k, _). map_of a k \<noteq> None) b)"

definition overlay :: "('k \<times> 'v) list \<Rightarrow> ('k \<times> 'v) list \<Rightarrow> ('k \<times> 'v) list" where
  "overlay active all = fold (\<lambda>(k, v). AList.update k v) active all"

definition receiver_map :: "'a tunnel_env_scheme \<Rightarrow> (string \<times> routes) list \<Rightarrow> transition_plan list \<Rightarrow> (string \<times> routes) list res" where
  "receiver_map env all selected =
     (let empty = map (\<lambda>(node, _). (node, [])) all in
      if selected = [] then Inr empty
      else (case PlanReceiveRouteSet env selected of Inl e \<Rightarrow> Inl e | Inr active \<Rightarrow> Inr (overlay active empty)))"

text \<open>\<open>PlanReceiveSourceRoutes\<close>: the serving plan of each machine, then the allocations of the sites.\<close>

definition serving_plan :: "'a round_env_scheme \<Rightarrow> journal_routes \<Rightarrow> string \<times> transition_plan \<Rightarrow> transition_plan option res" where
  "serving_plan env intent mp =
     (let machine = fst mp; p = snd mp in
      if machine \<noteq> pn_machineUID (plan_fields p) then Inl (Error ''journal source routes: plan identity differs'')
      else
        (case map_of (jr_legacy intent) machine of
           Some legacy \<Rightarrow>
             if previousReceiver p \<noteq> None \<or> legacy \<noteq> p then Inl (Error ''journal source routes: legacy selection differs'')
             else Inr None
         | None \<Rightarrow>
             if previousReceiver p = None then Inr (Some p)
             else
               (case map_of (jr_views intent) machine of
                  None \<Rightarrow> Inl (Error ''journal source routes: successor source selection has no committed view'')
                | Some v \<Rightarrow>
                    (case SelectedReceiveTransport env p v of
                       Inr (active, False) \<Rightarrow> Inr (Some active)
                     | _ \<Rightarrow> Inl (Error ''journal source routes: unknown successor source generation'')))))"

record source_state =
  sc_result :: "(string \<times> string list) list"
  sc_hosts :: "(string \<times> string list) list"
  sc_allocations :: "(addr \<times> string) list"

fun allocate :: "string \<Rightarrow> string list \<Rightarrow> (addr \<times> string) list \<Rightarrow> (addr \<times> string) list res" where
  "allocate node [] allocations = Inr allocations"
| "allocate node (raw # rest) allocations =
     (case ParsePrefix raw of
        None \<Rightarrow> Inl (Error ''invalid prefix'')
      | Some p \<Rightarrow>
          (case map_of allocations (pf_addr p) of
             Some ow \<Rightarrow>
               if ow \<noteq> node then Inl (Error ''journal source routes: tunnel allocation belongs to multiple sites'')
               else allocate node rest (AList.update (pf_addr p) node allocations)
           | None \<Rightarrow> allocate node rest (AList.update (pf_addr p) node allocations)))"

definition source_site :: "bool \<Rightarrow> source_state \<Rightarrow> string \<times> transition_site \<Rightarrow> source_state res" where
  "source_site legacy st ks =
     (let site = snd ks; node = ts_nodeUID site in
      case Option.bind (ts_legacy site) sp_tunnel of
        None \<Rightarrow> Inl (Error ''journal source routes: explicit site tunnel projection missing'')
      | Some tunnel \<Rightarrow>
          (case (case map_of (sc_result st) node of
                   Some addresses \<Rightarrow>
                     if addresses \<noteq> st_addresses tunnel then Inl (Error ''journal source routes: site allocation differs across journals'')
                     else Inr st
                 | None \<Rightarrow>
                     (case allocate node (st_addresses tunnel) (sc_allocations st) of
                        Inl e \<Rightarrow> Inl e
                      | Inr allocations \<Rightarrow>
                          Inr (st\<lparr>sc_allocations := allocations, sc_result := AList.update node (st_addresses tunnel) (sc_result st),
                                  sc_hosts := AList.update node [] (sc_hosts st)\<rparr>))) of
             Inl e \<Rightarrow> Inl e
           | Inr st1 \<Rightarrow>
               (let selected = (if legacy then Some tunnel else Option.bind (ts_forward site) sp_tunnel);
                    hosts = (case selected of None \<Rightarrow> [] | Some t \<Rightarrow> st_hosts t) in
                Inr (st1\<lparr>sc_hosts := AList.update node (fold List.insert hosts (get (sc_hosts st1) node)) (sc_hosts st1)\<rparr>))))"

definition source_plan :: "journal_routes \<Rightarrow> source_state \<Rightarrow> transition_plan \<times> transition_plan option \<Rightarrow> source_state res" where
  "source_plan intent st ps =
     (let p = plan_fields (fst ps); active = (case snd ps of None \<Rightarrow> p | Some q \<Rightarrow> plan_fields q) in
      res_fold (source_site (map_of (jr_legacy intent) (pn_machineUID p) \<noteq> None)) st (pn_sites active))"

definition PlanReceiveSourceRoutes :: "'a tunnel_env_scheme \<Rightarrow> journal_routes \<Rightarrow> (string \<times> site_tunnel) list res" where
  "PlanReceiveSourceRoutes env intent =
     (case map_res (serving_plan env intent) (jr_plans intent) of
        Inl e \<Rightarrow> Inl e
      | Inr serving \<Rightarrow>
          (let plans = map snd (jr_plans intent); selected = List.map_filter id serving in
           if list_ex (\<lambda>(machine, _). map_of (jr_plans intent) machine = None) (jr_legacy intent)
             then Inl (Error ''journal source routes: legacy selection is not admitted'')
           else
             (case PlanReceiveRouteSet env plans of
                Inl e \<Rightarrow> Inl e
              | Inr all \<Rightarrow>
                  (case receiver_map env all selected of
                     Inl e \<Rightarrow> Inl e
                   | Inr expected \<Rightarrow>
                       if \<not> same_map (same_map (=)) expected (jr_receivers intent)
                         then Inl (Error ''journal source routes: receiver and legacy generation selections disagree'')
                       else
                         (case res_fold (source_plan intent) \<lparr>sc_result = [], sc_hosts = [], sc_allocations = []\<rparr> (zip plans serving) of
                            Inl e \<Rightarrow> Inl e
                          | Inr st \<Rightarrow>
                              Inr (map (\<lambda>(node, addresses). (node, \<lparr>st_addresses = addresses, st_hosts = sort (get (sc_hosts st) node)\<rparr>)) (sc_result st)))))))"

text \<open>\<open>PlanReceiveJournalRoutes\<close>: decode and select every journal, then check all plans together.\<close>

record select_state =
  sl_plans :: "transition_plan list"
  sl_selected :: "transition_plan list"
  sl_legacy :: "(string \<times> transition_plan) list"
  sl_views :: "(string \<times> view) list"

definition select_journal :: "'a plan_env_scheme \<Rightarrow> string \<Rightarrow> select_state \<Rightarrow> snapshot \<Rightarrow> select_state res" where
  "select_journal env cluster st sn =
     (case DecodeReceiveTransition env sn cluster of
        Inl e \<Rightarrow> Inl e
      | Inr plan \<Rightarrow>
          (case snapshot_View env sn of
             Inl e \<Rightarrow> Inl e
           | Inr v \<Rightarrow>
               (case SelectedReceiveTransport env plan v of
                  Inl e \<Rightarrow> Inl e
                | Inr (active, root) \<Rightarrow>
                    (let m = pn_machineUID (plan_fields plan);
                         st1 = st\<lparr>sl_views := AList.update m v (sl_views st), sl_plans := sl_plans st @ [plan]\<rparr> in
                     Inr (if root then st1\<lparr>sl_legacy := AList.update m plan (sl_legacy st)\<rparr>
                          else st1\<lparr>sl_selected := sl_selected st @ [active]\<rparr>)))))"

definition has_sources :: "transition_plan list \<Rightarrow> bool" where
  "has_sources plans =
     list_ex (\<lambda>plan. list_ex (\<lambda>(_, site). Option.bind (ts_legacy site) sp_tunnel \<noteq> None) (pn_sites (plan_fields plan))) plans"

definition PlanReceiveJournalRoutes :: "'a plan_env_scheme \<Rightarrow> snapshot list \<Rightarrow> string \<Rightarrow> journal_routes res" where
  "PlanReceiveJournalRoutes env snapshots cluster =
     (if snapshots = [] then Inl (Error ''journal route planning requires an explicit complete set'')
      else
        (case res_fold (select_journal env cluster) \<lparr>sl_plans = [], sl_selected = [], sl_legacy = [], sl_views = []\<rparr> snapshots of
           Inl e \<Rightarrow> Inl e
         | Inr st \<Rightarrow>
             (case PlanReceiveRouteSet env (sl_plans st) of
                Inl e \<Rightarrow> Inl e
              | Inr all \<Rightarrow>
                  (case receiver_map env all (sl_selected st) of
                     Inl e \<Rightarrow> Inl e
                   | Inr receivers \<Rightarrow>
                       (let result = \<lparr>jr_views = sl_views st, jr_receivers = receivers, jr_legacy = sl_legacy st,
                                      jr_plans = fold (\<lambda>plan. AList.update (pn_machineUID (plan_fields plan)) plan) (sl_plans st) [],
                                      jr_sources = [], jr_withdrawn = []\<rparr> in
                        if \<not> has_sources (sl_plans st) then Inr result
                        else
                          (case PlanReceiveSourceRoutes env result of
                             Inl e \<Rightarrow> Inl e
                           | Inr sources \<Rightarrow> Inr (result\<lparr>jr_sources := sources\<rparr>)))))))"

section \<open>Survivors of a withdrawal\<close>

definition empty_routes :: journal_routes where
  "empty_routes = \<lparr>jr_views = [], jr_receivers = [], jr_legacy = [], jr_plans = [], jr_sources = [], jr_withdrawn = []\<rparr>"

definition survivor :: "'a plan_env_scheme \<Rightarrow> string \<Rightarrow> (string \<times> string) list \<Rightarrow> snapshot list \<Rightarrow> snapshot \<Rightarrow> snapshot list res" where
  "survivor env cluster withdrawn survivors sn =
     (case DecodeReceiveTransition env sn cluster of
        Inl e \<Rightarrow> Inl e
      | Inr plan \<Rightarrow>
          (case map_of withdrawn (pn_machineUID (plan_fields plan)) of
             None \<Rightarrow> Inr (survivors @ [sn])
           | Some journalUID \<Rightarrow>
               if cm_uid (Metadata sn) \<noteq> journalUID \<or> \<not> RetirementFrozen env sn
                 then Inl (Error ''withdrawal requires the exact retirement-fenced journal'')
               else Inr survivors))"

definition PlanReceiveSurvivorRoutes ::
  "'a plan_env_scheme \<Rightarrow> snapshot list \<Rightarrow> string \<Rightarrow> (string \<times> string) list \<Rightarrow> (journal_routes \<times> journal_routes) res" where
  "PlanReceiveSurvivorRoutes env snapshots cluster withdrawn =
     (case PlanReceiveJournalRoutes env snapshots cluster of
        Inl e \<Rightarrow> Inl e
      | Inr reserved \<Rightarrow>
          if list_ex (\<lambda>(uid, journalUID). map_of (jr_plans reserved) uid = None \<or> journalUID = []) withdrawn
            then Inl (Error ''withdrawal requires a reserved journal incarnation'')
          else
            (case res_fold (survivor env cluster withdrawn) [] snapshots of
               Inl e \<Rightarrow> Inl e
             | Inr survivors \<Rightarrow>
                 (case (if survivors = [] then Inr empty_routes else PlanReceiveJournalRoutes env survivors cluster) of
                    Inl e \<Rightarrow> Inl e
                  | Inr serving \<Rightarrow>
                      Inr (reserved,
                           serving\<lparr>jr_withdrawn := map (\<lambda>(uid, _). (uid, case map_of (jr_plans reserved) uid of
                                                       None \<Rightarrow> [] | Some plan \<Rightarrow> pn_rootPublicKey (plan_fields plan))) withdrawn\<rparr>))))"

section \<open>Predecessors\<close>

definition NewReceivePreparePredecessor :: "'a plan_env_scheme \<Rightarrow> snapshot \<Rightarrow> string \<Rightarrow> prepare_predecessor res" where
  "NewReceivePreparePredecessor env sn cluster =
     (if Frozen sn then Inl (Error ''frozen journal cannot authorize successor preparation'')
      else
        (case DecodeReceiveTransition env sn cluster of
           Inl e \<Rightarrow> Inl e
         | Inr plan \<Rightarrow>
             (case snapshot_View env sn of
                Inl e \<Rightarrow> Inl e
              | Inr v \<Rightarrow>
                  if \<not> vw_complete v \<or> cm_uid (Metadata sn) = [] \<or> cm_resourceVersion (Metadata sn) = []
                    then Inl (Error ''successor preparation requires a completed versioned journal'')
                  else
                    (case Bytes env (sn_transition sn) of
                       Inl e \<Rightarrow> Inl e
                     | Inr raw \<Rightarrow>
                         Inr \<lparr>pp_clusterUID = cluster, pp_machineUID = pn_machineUID (plan_fields plan),
                              pp_journalUID = cm_uid (Metadata sn), pp_journalSHA256 = HashPeerList env raw\<rparr>))))"

definition predecessor_graphs :: "transition_plan \<Rightarrow> plan_fields list option" where
  "predecessor_graphs plan =
     (case previousReceiver plan of
        None \<Rightarrow> Some [plan_fields plan]
      | Some (_, None) \<Rightarrow> None
      | Some (_, Some old) \<Rightarrow> Some [plan_fields plan, plan_fields old])"

fun graphs_unused :: "receive_prepare \<Rightarrow> plan_fields list \<Rightarrow> unit res" where
  "graphs_unused r [] = Inr ()"
| "graphs_unused r (graph # rest) =
     (if rq_receiverGeneration r = pn_receiverGeneration graph then Inl (Error ''successor preparation reuses a predecessor generation'')
      else if set (map snd (ports_of (rq_ports r))) \<inter> set (map snd (ports_of (pn_ports graph))) \<noteq> {}
        then Inl (Error ''successor preparation reuses a predecessor listener'')
      else graphs_unused r rest)"

definition ValidatePredecessor :: "'a plan_env_scheme \<Rightarrow> receive_prepare \<Rightarrow> snapshot \<Rightarrow> transition_plan res" where
  "ValidatePredecessor env r sn =
     (case rq_predecessor r of
        None \<Rightarrow> Inl (Error ''missing preparation predecessor'')
      | Some expected \<Rightarrow>
          (case ReceiveScope (rq_meshUID r) (rq_receiverGeneration r) of
             Inl e \<Rightarrow> Inl e
           | Inr _ \<Rightarrow>
               (case NewReceivePreparePredecessor env sn (pp_clusterUID expected) of
                  Inl e \<Rightarrow> Inl e
                | Inr actual \<Rightarrow>
                    if actual \<noteq> expected then Inl (Error ''preparation predecessor changed'')
                    else
                      (case DecodeReceiveTransition env sn (pp_clusterUID actual) of
                         Inl e \<Rightarrow> Inl e
                       | Inr plan \<Rightarrow>
                           (let p = plan_fields plan in
                            if rq_version r \<noteq> 1 \<or> rq_receiverGeneration r = [] \<or> rq_receiverGeneration r = pn_receiverGeneration p \<or>
                               rq_meshUID r \<noteq> pn_meshUID p \<or> rq_nodeName r \<noteq> pn_cloudNodeName p \<or> rq_nodeUID r \<noteq> pn_cloudNodeUID p \<or>
                               rq_rootPublicKey r \<noteq> pn_rootPublicKey p \<or> rq_baseHash r \<noteq> HashPeerList env (pn_base p)
                              then Inl (Error ''successor preparation identity differs from its predecessor'')
                            else
                              (case predecessor_graphs plan of
                                 None \<Rightarrow> Inl (Error ''successor preparation has no previous receiver graph'')
                               | Some graphs \<Rightarrow> (case graphs_unused r graphs of Inl e \<Rightarrow> Inl e | Inr _ \<Rightarrow> Inr plan)))))))"

text \<open>The serving graph of an archived plan, flattened; \<open>None\<close> is the original transport.\<close>

definition archived_serving :: "'a round_env_scheme \<Rightarrow> transition_plan \<Rightarrow> view \<Rightarrow> transition_plan option res" where
  "archived_serving env previous v =
     (if vw_servingGeneration v = legacy_generation env (plan_fields previous) then Inr None
      else if vw_servingGeneration v = ''receivers:'' @ planHash (rspec (vw_round v))
        then Inr (Some (TransitionPlan ((plan_fields previous)\<lparr>pn_version := 1\<rparr>) None))
      else
        (case previousReceiver previous of
           Some (generation, Some old) \<Rightarrow>
             if vw_servingGeneration v = generation then Inr (Some old) else Inl (Error ''archive selects an unknown receiver transport'')
         | _ \<Rightarrow> Inl (Error ''archive selects an unknown receiver transport'')))"

definition continues_serving :: "transition_plan \<Rightarrow> transition_plan \<Rightarrow> view \<Rightarrow> transition_plan option \<Rightarrow> unit res" where
  "continues_serving plan previous v serving =
     (case serving of
        None \<Rightarrow>
          if previousReceiver plan \<noteq> None \<or> pn_base (plan_fields plan) \<noteq> pn_base (plan_fields previous) \<or>
             PreviousSitePeers (plan_fields plan) \<noteq> PreviousSitePeers (plan_fields previous)
            then Inl (Error ''successor differs from archived original transport'')
          else Inr ()
      | Some s \<Rightarrow>
          if previousReceiver plan = Some (vw_servingGeneration v, Some s) then Inr ()
          else Inl (Error ''successor receiver graph differs from archived serving transport''))"

definition ValidateReceiveTransportHistory :: "'a plan_env_scheme \<Rightarrow> 'w store \<Rightarrow> snapshot \<Rightarrow> ('w, unit) io" where
  "ValidateReceiveTransportHistory env store current =
     (if snapshot_Predecessor current = None then io_lift (Inr ())
      else
        io_bind (io_lift (DecodeReceiveTransition env current (s_clusterUID store))) (\<lambda>plan.
        io_bind (PredecessorArchive env store current) (\<lambda>archive.
        io_bind (io_lift (decodeReceiveTransitionContents env archive (s_clusterUID store))) (\<lambda>previous.
        io_bind (io_lift (snapshot_View env archive)) (\<lambda>v.
        io_bind (io_lift (archived_serving env previous v)) (\<lambda>serving.
        io_lift (continues_serving plan previous v serving)))))))"

section \<open>A decoded journal selects one of its two transports\<close>

text \<open>The generations of a bound round are the plan's, exchanged after a rollback other than an abort.\<close>

lemma binding_generations:
  assumes "validateReceiveTransitionBinding env sn plan cluster = Inr ()" and "snapshot_View env sn = Inr v"
  shows "(if vw_rollbackRequested v \<and> phase (rspec (vw_round v)) \<noteq> Abort
      then fromGeneration (rspec (vw_round v)) = ''receivers:'' @ planHash (rspec (vw_round v)) \<and>
           toGeneration (rspec (vw_round v)) = from_generation env plan
      else fromGeneration (rspec (vw_round v)) = from_generation env plan \<and>
           toGeneration (rspec (vw_round v)) = ''receivers:'' @ planHash (rspec (vw_round v)))"
    and "is_Inr (PlanReceiveRoutes env plan)"
proof -
  from assms obtain s where s: "ReceiveTransitionSpec env plan cluster (planHash (rspec (vw_round v))) = Inr s"
    and eq: "expected_spec s v = rspec (vw_round v)"
    unfolding validateReceiveTransitionBinding_def res_case_Inr if_Inl_Inr by auto
  from s have gen: "fromGeneration s = from_generation env plan" "toGeneration s = ''receivers:'' @ planHash (rspec (vw_round v))"
    "is_Inr (PlanReceiveRoutes env plan)"
    by (auto simp: ReceiveTransitionSpec_def split: sum.splits)
  have "fromGeneration (expected_spec s v) = fromGeneration (rspec (vw_round v))"
    "toGeneration (expected_spec s v) = toGeneration (rspec (vw_round v))" using eq by simp_all
  with gen show "(if vw_rollbackRequested v \<and> phase (rspec (vw_round v)) \<noteq> Abort
      then fromGeneration (rspec (vw_round v)) = ''receivers:'' @ planHash (rspec (vw_round v)) \<and>
           toGeneration (rspec (vw_round v)) = from_generation env plan
      else fromGeneration (rspec (vw_round v)) = from_generation env plan \<and>
           toGeneration (rspec (vw_round v)) = ''receivers:'' @ planHash (rspec (vw_round v)))"
    by (auto simp: expected_spec_def split: if_splits)
  show "is_Inr (PlanReceiveRoutes env plan)" by (rule gen(3))
qed

text \<open>Whether a view has moved to the plan's own receivers.\<close>

definition forward_selected :: "view \<Rightarrow> bool" where
  "forward_selected v = (\<not> vw_rollbackRequested v \<and> (vw_complete v \<or> phase (rspec (vw_round v)) \<noteq> Prepare))"

lemma View_facts:
  assumes "View env j = Inr v"
  shows "fromGeneration (rspec (vw_round v)) \<noteq> toGeneration (rspec (vw_round v))" and "planHash (rspec (vw_round v)) \<noteq> []"
    and "routing_generation v =
      Inr (if vw_rollbackRequested v
             then (if phase (rspec (vw_round v)) = Abort then fromGeneration (rspec (vw_round v)) else toGeneration (rspec (vw_round v)))
           else if forward_selected v then toGeneration (rspec (vw_round v)) else fromGeneration (rspec (vw_round v)))"
proof -
  from assms obtain r st where "canonical env (j_initial j) = Inr r" and v: "v = rp_view st"
    and inv: "replay_inv env (j_policy j) (rspec r) st" by (rule View_inv)
  let ?s = "rspec (vw_round v)"
  from inv v obtain q where q: "canonical env q = Inr (vw_round v)" and lin: "lineage (rspec r) (vw_rollbackRequested v) ?s"
    and c: "vw_complete v \<longrightarrow> phase ?s \<in> {Retire, Abort} \<and>
         vw_servingGeneration v = (if vw_rollbackRequested v then fromGeneration (rspec r) else toGeneration (rspec r))"
    unfolding replay_inv_def Let_def by blast
  from q have ok: "fromGeneration ?s \<noteq> toGeneration ?s \<and> hexToken (planHash ?s) 32" by (auto simp: canonical_iff round_ok_def)
  then show "fromGeneration ?s \<noteq> toGeneration ?s" and "planHash ?s \<noteq> []" by (auto simp: hexToken_def)
  show "routing_generation v =
      Inr (if vw_rollbackRequested v
             then (if phase ?s = Abort then fromGeneration ?s else toGeneration ?s)
           else if forward_selected v then toGeneration ?s else fromGeneration ?s)"
    using lin c by (auto simp: routing_generation_def forward_selected_def lineage_def unchanged_def reversed_def split: if_splits phase.splits)
qed

lemma SelectedReceiveTransport_bound:
  assumes "View env j = Inr v" and "validateReceiveTransitionBinding env sn plan cluster = Inr ()" and "snapshot_View env sn = Inr v"
  shows "SelectedReceiveTransport env plan v =
     Inr (if forward_selected v then (plan, False)
          else case previousReceiver plan of Some (_, Some old) \<Rightarrow> (old, False) | _ \<Rightarrow> (plan, True))"
proof -
  let ?s = "rspec (vw_round v)"
  note gen = binding_generations [OF assms(2,3)]
  note vf = View_facts [OF assms(1)]
  have old: "previousReceiver plan \<noteq> Some (g, None)" for g
  proof
    assume none: "previousReceiver plan = Some (g, None)"
    obtain x1 x2 where plan: "plan = TransitionPlan x1 x2" by (cases plan)
    with none have "x2 = Some (g, None)" by simp
    with gen(2) plan show False
      by (simp add: PlanReceiveRoutes.simps [of env "TransitionPlan x1 (Some (g, None))"] validateReceivePreviousReceiver.simps)
  qed
  have T: "from_generation env plan \<noteq> ''receivers:'' @ planHash ?s" using gen(1) vf(1) by (auto split: if_splits)
  have "routing_generation v = Inr (if forward_selected v then ''receivers:'' @ planHash ?s else from_generation env plan)"
    unfolding vf(3) using gen(1) by (auto simp: forward_selected_def split: if_splits)
  with T vf(2) old show ?thesis
    by (auto simp: SelectedReceiveTransport_def own_receivers_def from_generation_def split: option.splits)
qed

lemma DecodeReceiveTransition_Inr:
  "DecodeReceiveTransition env sn cluster = Inr plan \<longleftrightarrow>
     json_plan env (snapshot_Plan sn) = Some (plan, True) \<and> identities_complete (plan_fields plan) \<and>
     validateReceiveTransitionBinding env sn plan cluster = Inr () \<and>
     cm_name (Metadata sn) = ReceiveTransitionName env (pn_machineUID (plan_fields plan)) \<and>
     cm_namespace (Metadata sn) = pn_namespace (plan_fields plan) \<and> cm_deletionTimestamp (Metadata sn) = None"
proof (cases "json_plan env (snapshot_Plan sn)")
  case None
  then show ?thesis by (simp add: DecodeReceiveTransition_def decodeReceiveTransitionContents_def)
next
  case (Some pe)
  obtain q eof where pe: "pe = (q, eof)" by force
  show ?thesis
    unfolding DecodeReceiveTransition_def decodeReceiveTransitionContents_def res_case_Inr Some pe option.case prod.case if_Inl_Inr
    by auto
qed

end
