(* ===== verification/Tunnel_Sample.thy ===== *)
theory Tunnel_Sample
  imports Journal_Routes
begin

text \<open>
  Two concrete receiver plans, of two machines that share one site, a journal that persists the first
  and a readiness exchange, on which the hypotheses of the theorems about receivers hold. Keys are the
  encodings of constant bytes, a hash is the padded reversed text, and each text read back is one word.
\<close>

section \<open>Keys, documents and plans\<close>

definition sample_key :: "char \<Rightarrow> string" where
  "sample_key c = b64_encode (replicate 32 c)"

definition sample_site_key :: string where
  "sample_site_key = sample_key CHR 0x01"

definition sample_peer :: "string \<Rightarrow> bool \<Rightarrow> string \<Rightarrow> string \<Rightarrow> peer_spec" where
  "sample_peer key remote endpoint host =
     \<lparr>p_publicKey = key, p_endpoint = endpoint, p_wgAllowedIPs = [host @ ''/32''], p_routeHosts = [host], p_routeHost = [],
      p_remote = remote, p_transit = [], p_transitHosts = []\<rparr>"

definition sample_base :: peer_list_doc where
  "sample_base = \<lparr>pl_peers = Some [sample_peer sample_site_key False [] ''10.0.0.1''], pl_apiServers = []\<rparr>"

text \<open>The cloud node of machine \<open>i\<close>, a digit: its root key, receiver key, address and port.\<close>

definition sample_root :: "nat \<Rightarrow> string" where
  "sample_root i = sample_key (char_of (16 + i))"

definition sample_receiver :: "nat \<Rightarrow> string" where
  "sample_receiver i = sample_key (char_of (32 + i))"

definition sample_host :: "nat \<Rightarrow> string" where
  "sample_host i = ''10.1.0.'' @ [char_of (48 + i)]"

definition sample_cloud :: "nat \<Rightarrow> peer_list_doc" where
  "sample_cloud i = \<lparr>pl_peers = Some [sample_peer (sample_root i) True ''203.0.113.5:51820'' (sample_host i)], pl_apiServers = []\<rparr>"

definition sample_sha :: "string \<Rightarrow> string" where
  "sample_sha s = take 32 (rev s @ replicate 32 CHR 0x00)"

definition sample_binding :: "nat \<Rightarrow> receive_binding" where
  "sample_binding i =
     \<lparr>bd_interface = ''cldr'' @ hex_encode (take 5 (sample_sha (''m'' @ [CHR 0x00] @ sample_site_key))),
      bd_peerPublicKey = sample_site_key, bd_publicKey = sample_receiver i, bd_listenPort = 51821\<rparr>"

definition sample_client :: "nat \<Rightarrow> site_receive_client" where
  "sample_client i =
     \<lparr>cl_interface = ''cldc'' @ hex_encode (take 5 (sample_sha (''m'' @ [CHR 0x00] @ sample_site_key @ [CHR 0x00] @ sample_root i))),
      cl_sitePublicKey = sample_site_key, cl_cloudRootPublicKey = sample_root i, cl_publicKey = sample_receiver i,
      cl_endpoint = ''203.0.113.5:51821'', cl_allowedSources = [sample_host i @ ''/32'']\<rparr>"

definition sample_fields :: "nat \<Rightarrow> plan_fields" where
  "sample_fields i =
     \<lparr>pn_namespace = ''ns'', pn_meshName = ''mesh'', pn_machineName = ''machine'', pn_adoptionName = ''machine-tunnel-peers'',
      pn_cloudNodeName = ''cloud'' @ [char_of (48 + i)], pn_version = 1, pn_receiverGeneration = [], pn_meshUID = ''m'', pn_machineUID = ''mu'' @ [char_of (48 + i)],
      pn_adoptionUID = ''au'', pn_cloudNodeUID = ''cu'' @ [char_of (48 + i)], pn_rootPublicKey = sample_root i, pn_cloudAddresses = None,
      pn_base = ''base'', pn_desired = sample_base, pn_siteDesired = sample_cloud i, pn_siteBase = None, pn_native = Some [],
      pn_ports = Some [(sample_site_key, 51821)], pn_bindings = [(sample_site_key, sample_binding i)],
      pn_sites = [(sample_site_key, \<lparr>ts_nodeName = ''site'', ts_nodeUID = ''su'', ts_routeSources = None, ts_client = sample_client i,
        ts_legacy = None, ts_forward = None\<rparr>)]\<rparr>"

definition sample_transition :: "nat \<Rightarrow> transition_plan" where
  "sample_transition i = TransitionPlan (sample_fields i) None"

section \<open>A journal of the first machine\<close>

definition sample_hash :: string where
  "sample_hash = hex_encode (sample_sha ''plan'')"

definition tunnel_spec :: "phase \<Rightarrow> spec" where
  "tunnel_spec ph =
     \<lparr>clusterUID = ''c'', transitionUID = ''mu1:'' @ sample_hash, planHash = sample_hash,
      fromGeneration = ''legacy:'' @ hex_encode (sample_sha ''base''), toGeneration = ''receivers:'' @ sample_hash, phase = ph,
      members = sort_key ident (site_members (sample_transition 1) (hd (pn_sites (sample_fields 1))))\<rparr>"

definition tunnel_round :: "phase \<Rightarrow> char \<Rightarrow> time \<Rightarrow> round" where
  "tunnel_round ph c at =
     \<lparr>rspec = tunnel_spec ph, nonce = replicate 32 c, issuedAt = at, expiresAt = at + 1000, maxReceiptAge = 500\<rparr>"

definition tunnel_journal :: journal where
  "tunnel_journal =
     \<lparr>j_version = 1, j_predecessor = None, j_planRequired = True,
      j_policy = \<lparr>roundLifetime = 1000, p_maxReceiptAge = 500, drainInterval = 50\<rparr>,
      j_initial = tunnel_round Prepare CHR ''0'' 100, j_events = []\<rparr>"

section \<open>A readiness exchange of the first machine's node\<close>

definition sample_request :: receive_prepare where
  "sample_request =
     \<lparr>rq_predecessor = None, rq_version = 1, rq_receiverGeneration = [], rq_meshUID = ''m'', rq_nodeName = ''cloud1'', rq_bootID = ''boot'',
      rq_nodeUID = ''cu1'', rq_rootPublicKey = sample_root 1, rq_baseHash = hex_encode (sample_sha ''base''), rq_desired = sample_base,
      rq_native = Some [], rq_ports = Some [(sample_site_key, 51821)]\<rparr>"

definition sample_ready_receipt :: receive_ready where
  "sample_ready_receipt =
     \<lparr>rd_version = 1, rd_meshUID = ''m'', rd_secretUID = ''secret'', rd_nodeName = ''cloud1'', rd_bootID = ''boot'', rd_nodeUID = ''cu1'',
      rd_rootPublicKey = sample_root 1, rd_baseHash = hex_encode (sample_sha ''base''), rd_requestHash = hex_encode (sample_sha ''request''),
      rd_bindings = [sample_binding 1]\<rparr>"

definition sample_target :: receive_target where
  "sample_target =
     \<lparr>tg_meshUID = ''m'', tg_secretUID = ''secret'', tg_nodeName = ''cloud1'', tg_nodeUID = ''cu1'', tg_bootID = ''boot'',
      tg_rootPublicKey = sample_root 1, tg_ready = True\<rparr>"

section \<open>Their environment, object and store\<close>

definition sample_plan_env :: plan_env where
  "sample_plan_env =
     \<lparr>ParseKey = (\<lambda>s. if validReceivePublicKey s then Some s else None), KeyString = (\<lambda>k. k), sha256 = sample_sha,
      marshal_round = (\<lambda>r. Some (nonce r)), json_round = (\<lambda>s. None),
      marshal_journal = (\<lambda>j. None), json_journal = (\<lambda>s. if s = ''journal'' then Some (tunnel_journal, True) else None),
      marshal_checkpoint = (\<lambda>obj. None), json_checkpoint = (\<lambda>s. None),
      json_peer_list = (\<lambda>s. if s = ''base'' then Some sample_base else None),
      json_prepare = (\<lambda>s. if s = ''request'' then Some (sample_request, True) else None),
      json_ready = (\<lambda>s. if s = ''receipt'' then Some (sample_ready_receipt, True) else None), json_site_ready = (\<lambda>s. None),
      json_plan = (\<lambda>s. if s = ''plan'' then Some (sample_transition 1, True) else None)\<rparr>"

definition tunnel_object :: config_map where
  "tunnel_object =
     empty_map\<lparr>cm_name := ReceiveTransitionName sample_plan_env ''mu1'', cm_namespace := ''ns'', cm_uid := ''u'', cm_resourceVersion := ''v'',
       cm_data := Mapping.update planKey ''plan'' (Mapping.update journalKey ''journal'' Mapping.empty)\<rparr>"

definition tunnel_store :: "unit store" where
  "tunnel_store =
     \<lparr>configMaps = None, s_name = ReceiveTransitionName sample_plan_env ''mu1'', s_clusterUID = ''c'', s_expectedUID = [], s_ownerReferences = []\<rparr>"

section \<open>Evaluations\<close>

lemma sample_keys_valid:
  "validReceivePublicKey sample_site_key" "validReceivePublicKey (sample_root 1)" "validReceivePublicKey (sample_root 2)"
  by code_simp+

lemma sample_handover: "is_Inr (PlanReceiveHandover sample_plan_env ''m'' sample_base sample_base [])"
  by code_simp

lemma sample_readiness: "ValidateReceiveReadiness sample_plan_env sample_target ''base'' ''request'' ''receipt'' = Inr [(sample_site_key, sample_binding 1)]"
  by code_simp

lemma sample_routes: "is_Inr (PlanReceiveRoutes sample_plan_env (sample_transition 1))"
  "is_Inr (PlanReceiveRoutes sample_plan_env (sample_transition 2))"
  by code_simp+

lemma sample_route_set: "is_Inr (PlanReceiveRouteSet sample_plan_env [sample_transition 1, sample_transition 2])"
  by code_simp

definition sample_neighbor :: peer_spec where
  "sample_neighbor = sample_peer (sample_root 7) True [] ''10.1.0.7''"

lemma sample_neighbors:
  "PlanReceiveNeighborPeers sample_plan_env (Some [sample_neighbor]) (Some [sample_transition 1]) = Inr [sample_neighbor]"
  by code_simp

definition tunnel_view :: view where
  "tunnel_view =
     \<lparr>vw_observed = [], vw_round = tunnel_round Prepare CHR ''0'' 100, vw_rollbackRequested = False,
      vw_complete = False, vw_servingGeneration = [], vw_drainUntil = 0\<rparr>"

definition tunnel_snapshot :: snapshot where
  "tunnel_snapshot = \<lparr>sn_transition = tunnel_journal, sn_object = Some tunnel_object, sn_view = Some tunnel_view\<rparr>"

lemma tunnel_stored: "store_snapshot sample_plan_env tunnel_store tunnel_object = Inr tunnel_snapshot"
  by code_simp

lemma tunnel_decoded: "DecodeReceiveTransition sample_plan_env tunnel_snapshot ''c'' = Inr (sample_transition 1)"
  by code_simp

end
