(* ===== verification/Tunnel_Properties.thy ===== *)
theory Tunnel_Properties
  imports Tunnel_Sample
begin

text \<open>
  The properties of receiver preparation, of listener ports, of combined routes and ordinary peers, and
  of the transport a journal selects, each with a concrete instance on the sample plans.
\<close>

section \<open>Listener ports\<close>

text \<open>C24: a successful assignment serves exactly the planned peers, keeps every reservation, and gives each
  reservation a port of its own: within 1 and 65535, of the permitted pool, and not occupied elsewhere.\<close>

theorem ports_assigned:
  assumes "AssignReceivePorts paths (Some reserved) (Some pool) occupied = Inr (assigned, retained)" and "distinct (map fst reserved)"
  shows "dom (map_of assigned) = rp_publicKey ` set paths \<and> map_of assigned \<subseteq>\<^sub>m map_of retained \<and>
     map_of reserved \<subseteq>\<^sub>m map_of retained \<and> dom (map_of retained) = dom (map_of reserved) \<union> rp_publicKey ` set paths \<and>
     distinct (map fst retained) \<and> distinct (map snd retained) \<and>
     (\<forall>n \<in> snd ` set retained. 1 \<le> n \<and> n \<le> 65535 \<and> n \<in> set pool \<and> n \<notin> set occupied)"
proof -
  note facts = receive_ports.keys [OF assms] receive_ports.ports [OF assms]
  have served: "map_of assigned k = (if k \<in> rp_publicKey ` set paths then map_of retained k else None)" for k
    by (rule receive_ports.serves [OF assms])
  have "map_of retained k \<noteq> None" if "k \<in> rp_publicKey ` set paths" for k
    using facts(1) that by (simp add: map_of_None_fst)
  then have "dom (map_of assigned) = rp_publicKey ` set paths" unfolding dom_def served by auto
  moreover have "map_of assigned \<subseteq>\<^sub>m map_of retained" by (auto simp: map_le_def served dom_def)
  moreover have "map_of reserved \<subseteq>\<^sub>m map_of retained"
    using receive_ports.retains [OF assms] by (fastforce simp: map_le_def dom_def)
  ultimately show ?thesis using facts by (auto simp: dom_map_of_conv_image_fst in_range_def)
qed

theorem ports_assigned_witness:
  "dom (map_of [(sample_site_key, 7 :: int)]) = {sample_site_key} \<and> distinct (map snd [(sample_root 1, 5 :: int), (sample_site_key, 7)]) \<and>
     7 \<in> set [5, 6, 7 :: int] \<and> 7 \<notin> set [6 :: int]"
proof -
  have "AssignReceivePorts [\<lparr>rp_interface = ''i'', rp_publicKey = sample_site_key, rp_allowedSources = []\<rparr>]
      (Some [(sample_root 1, 5)]) (Some [5, 6, 7]) [6] = Inr ([(sample_site_key, 7)], [(sample_root 1, 5), (sample_site_key, 7)])"
    by code_simp
  from ports_assigned [OF this] show ?thesis by simp
qed

text \<open>C25: on well-formed input the only failure is an exhausted pool, and it happens exactly when fewer
  permitted ports are free than planned peers lack a reservation.\<close>

theorem ports_exhausted:
  assumes "list_all in_range pool \<and> distinct pool" and "list_all in_range occupied \<and> distinct occupied"
    and "list_all (\<lambda>(k, p). validReceivePublicKey k \<and> p \<in> set pool \<and> p \<notin> set occupied) reserved"
    and "distinct (map fst reserved) \<and> distinct (map snd reserved)"
    and "list_all (\<lambda>p. validReceivePublicKey (rp_publicKey p)) paths \<and> distinct (map rp_publicKey paths)"
  shows "if card (rp_publicKey ` set paths - fst ` set reserved) \<le> card (set pool - snd ` set reserved - set occupied)
     then is_Inr (AssignReceivePorts paths (Some reserved) (Some pool) occupied)
     else AssignReceivePorts paths (Some reserved) (Some pool) occupied =
       Inl (Error ''receive port pool exhausted; retained reservations cannot be reused'')"
proof -
  let ?used = "rev (map snd reserved) @ rev occupied"
  have "check_reserved (rev pool @ []) (rev occupied @ []) reserved = Inr ?used"
    using assms(3,4) by (auto simp: check_reserved_Inr list_all_iff)
  moreover have "check_ports m [] pool = Inr (rev pool @ [])" "check_ports m [] occupied = Inr (rev occupied @ [])" for m
    using assms(1,2) by (simp_all add: check_ports_Inr)
  moreover have "path_keys [] paths = Inr (map rp_publicKey paths)" using assms(5) by (simp add: path_keys_Inr)
  ultimately have run: "AssignReceivePorts paths (Some reserved) (Some pool) occupied = assign_each (sort pool) (sort (map rp_publicKey paths)) [] reserved ?used"
    by (simp add: AssignReceivePorts_def)
  have "loop_ok reserved ?used" "distinct (sort (map rp_publicKey paths))" using assms(4,5) by (auto simp: loop_ok_def)
  note total = assign_each_total [OF this, of "sort pool" "[]"]
  have free: "set (sort pool) - set ?used = set pool - snd ` set reserved - set occupied" by auto
  show ?thesis
  proof (cases "assign_each (sort pool) (sort (map rp_publicKey paths)) [] reserved ?used")
    case (Inl e)
    with assign_each_error [OF Inl] total free show ?thesis by (simp add: run is_Inr_def)
  next
    case (Inr b)
    with total free show ?thesis by (simp add: run is_Inr_def)
  qed
qed

theorem ports_exhausted_witness:
  "AssignReceivePorts [\<lparr>rp_interface = ''i'', rp_publicKey = sample_site_key, rp_allowedSources = []\<rparr>]
     (Some [(sample_root 1, 5)]) (Some [5, 6]) [6] =
   Inl (Error ''receive port pool exhausted; retained reservations cannot be reused'')"
proof -
  have "set [5, 6 :: int] - snd ` set [(sample_root 1, 5)] - set [6] = {}" by auto
  moreover have "sample_site_key \<noteq> sample_root 1" by code_simp
  ultimately show ?thesis
    using ports_exhausted [of "[5, 6]" "[6]" "[(sample_root 1, 5)]"
        "[\<lparr>rp_interface = ''i'', rp_publicKey = sample_site_key, rp_allowedSources = []\<rparr>]"] sample_keys_valid
    by (simp add: in_range_def del: One_nat_def)
qed

text \<open>C26: assigning ports keeps the reservations well formed: from a valid record the new one is valid, so the
  final check never rejects an assignment; no two generations share a port, and every other generation
  and the identity of the record stay as they were.\<close>

theorem reservations_stay_valid:
  assumes "reservations_Validate r = Inr ()" and "maps_wf r" and "is_Inr (ReceiveScope (rs_meshUID r) g)"
    and "AssignReceivePorts paths (active_ports r g) (Some pool) (occupied_ports r g) = Inr (assigned, retained)"
  shows "\<exists>r'. reservations_Assign r g paths (Some pool) = Inr (assigned, r') \<and> reservations_Validate r' = Inr () \<and> maps_wf r' \<and>
     active_ports r' g = Some retained \<and> distinct (map_ports (rs_ports r') @ all_ports (rs_generations r')) \<and>
     (\<forall>h. h \<noteq> g \<longrightarrow> active_ports r' h = active_ports r h) \<and>
     (rs_meshUID r', rs_nodeUID r', rs_rootPublicKey r') = (rs_meshUID r, rs_nodeUID r, rs_rootPublicKey r)"
proof -
  obtain act where act: "active_ports r g = Some act" "distinct (map fst act)" by (rule active_ports_wf [OF assms(1,2)])
  note own = receive_ports.own_ports [OF assms(4) [unfolded act(1)] act(2)]
  let ?r = "retain_ports r g retained"
  have valid: "reservations_Validate ?r = Inr ()"
    using retain_ports_valid [OF assms(1-3) own(1) own(3) own(2)] .
  moreover have "reservations_Assign r g paths (Some pool) = Inr (assigned, ?r)"
    using assms(1,3,4) valid by (auto simp: reservations_Assign_def is_Inr_def split: sum.splits)
  moreover have "maps_wf ?r"
    using assms(2) receive_ports.keys [OF assms(4) [unfolded act(1)] act(2)] set_update_subset [of g "Some retained" "rs_generations r"]
    by (auto simp: maps_wf_def retain_ports_def list_all_iff distinct_update)
  ultimately show ?thesis
    by (intro exI [of _ ?r]) (auto simp: retain_ports_def active_ports_def update_conv' Validate_Inr split: if_splits)
qed

definition sample_reservations :: reservations where
  "sample_reservations =
     \<lparr>rs_version = 1, rs_meshUID = ''m'', rs_nodeUID = ''n'', rs_rootPublicKey = sample_root 1,
      rs_ports = Some [(sample_site_key, 5)], rs_generations = []\<rparr>"

theorem reservations_stay_valid_witness:
  "\<exists>r'. reservations_Assign sample_reservations (hex_encode (replicate 32 CHR 0x01))
        [\<lparr>rp_interface = ''i'', rp_publicKey = sample_site_key, rp_allowedSources = []\<rparr>] (Some [5, 6]) = Inr ([(sample_site_key, 6)], r') \<and>
      reservations_Validate r' = Inr ()"
proof -
  have "AssignReceivePorts [\<lparr>rp_interface = ''i'', rp_publicKey = sample_site_key, rp_allowedSources = []\<rparr>]
      (active_ports sample_reservations (hex_encode (replicate 32 CHR 0x01))) (Some [5, 6])
      (occupied_ports sample_reservations (hex_encode (replicate 32 CHR 0x01))) = Inr ([(sample_site_key, 6)], [(sample_site_key, 6)])"
    by code_simp
  moreover have "reservations_Validate sample_reservations = Inr ()" by code_simp
  moreover have "maps_wf sample_reservations" by (simp add: maps_wf_def sample_reservations_def)
  moreover have "is_Inr (ReceiveScope (rs_meshUID sample_reservations) (hex_encode (replicate 32 CHR 0x01)))" by code_simp
  ultimately show ?thesis using reservations_stay_valid by blast
qed

section \<open>Receivers and their readiness\<close>

text \<open>C20: the receivers of a handover are one per site of either generation, each with its own device and with
  exactly the source permissions the site had or is to have. No address behind a site is native or
  behind a cloud peer of either generation, and within one generation no address has two owners.\<close>

theorem receivers_keep_permissions:
  assumes "PlanReceiveHandover env mesh previous desired native = Inr plan"
  shows "rp_publicKey ` set (rh_receivers plan) = site_keys previous \<union> site_keys desired \<and>
     distinct (map rp_publicKey (rh_receivers plan)) \<and> distinct (map rp_interface (rh_receivers plan)) \<and>
     (\<forall>r \<in> set (rh_receivers plan).
        set (rp_allowedSources r) = permitted (owners_of previous @ owners_of desired) (rp_publicKey r)) \<and>
     (\<forall>x \<in> set (owners_of previous @ owners_of desired). \<forall>a. Contains (ow_prefix x) a \<longrightarrow>
        (\<not> ow_remote x \<longrightarrow> (\<forall>b \<in> set native. \<not> Contains b a)) \<and>
        (\<forall>y \<in> set (owners_of previous @ owners_of desired). ow_remote y \<noteq> ow_remote x \<longrightarrow> \<not> Contains (ow_prefix y) a)) \<and>
     (\<forall>doc \<in> {previous, desired}. \<forall>x \<in> set (owners_of doc). \<forall>y \<in> set (owners_of doc). \<forall>a.
        Contains (ow_prefix x) a \<longrightarrow> Contains (ow_prefix y) a \<longrightarrow> ow_key x = ow_key y)"
proof -
  obtain st where "plan_inv native st" "ps_overlapOwners st = owners_of previous @ owners_of desired"
    by (rule PlanReceiveHandover_Inr [OF assms])
  then have ok: "owners_ok native (owners_of previous @ owners_of desired)" by (simp add: plan_inv_def)
  have apart: "\<forall>x \<in> set (owners_of previous @ owners_of desired). \<forall>a. Contains (ow_prefix x) a \<longrightarrow>
        (\<not> ow_remote x \<longrightarrow> (\<forall>b \<in> set native. \<not> Contains b a)) \<and>
        (\<forall>y \<in> set (owners_of previous @ owners_of desired). ow_remote y \<noteq> ow_remote x \<longrightarrow> \<not> Contains (ow_prefix y) a)"
  proof (intro ballI allI impI conjI)
    fix x a b
    assume "x \<in> set (owners_of previous @ owners_of desired)" "Contains (ow_prefix x) a" "\<not> ow_remote x" "b \<in> set native"
    with ok have "\<not> Overlaps (ow_prefix x) b" unfolding owners_ok_def by metis
    with \<open>Contains (ow_prefix x) a\<close> show "\<not> Contains b a" by (rule disjoint_prefixes [rotated])
  next
    fix x a y
    assume "x \<in> set (owners_of previous @ owners_of desired)" "Contains (ow_prefix x) a"
      "y \<in> set (owners_of previous @ owners_of desired)" "ow_remote y \<noteq> ow_remote x"
    with ok have "\<not> Overlaps (ow_prefix x) (ow_prefix y)" unfolding owners_ok_def by metis
    with \<open>Contains (ow_prefix x) a\<close> show "\<not> Contains (ow_prefix y) a" by (rule disjoint_prefixes [rotated])
  qed
  have one: "one_owner (owners_of doc)" if "doc \<in> {previous, desired}" for doc
    using that generation_owners [OF assms] by blast
  have gens: "\<forall>doc \<in> {previous, desired}. \<forall>x \<in> set (owners_of doc). \<forall>y \<in> set (owners_of doc). \<forall>a.
        Contains (ow_prefix x) a \<longrightarrow> Contains (ow_prefix y) a \<longrightarrow> ow_key x = ow_key y"
    by (intro ballI allI impI) (rule one_owner_address [OF one])
  have srcs: "\<forall>r \<in> set (rh_receivers plan).
        set (rp_allowedSources r) = permitted (owners_of previous @ owners_of desired) (rp_publicKey r)"
    using receiver_sources(1) [OF assms] by blast
  show ?thesis
    by (intro conjI) (fact receiver_keys_distinct(3) [OF assms] receiver_keys_distinct(1) [OF assms]
      receiver_keys_distinct(4) [OF assms] srcs apart gens)+
qed

theorem receivers_keep_permissions_witness:
  "\<exists>plan. PlanReceiveHandover sample_plan_env ''m'' sample_base sample_base [] = Inr plan \<and>
     rp_publicKey ` set (rh_receivers plan) = site_keys sample_base \<union> site_keys sample_base"
proof -
  obtain plan where "PlanReceiveHandover sample_plan_env ''m'' sample_base sample_base [] = Inr plan"
    using sample_handover by (auto simp: is_Inr_iff)
  with receivers_keep_permissions [OF this] show ?thesis by blast
qed

text \<open>C22: an accepted readiness receipt answers the exact request of the current target over the current
  forwarding base, and its bindings are one to one: each planned site has one receiver, on the planned
  device and the requested port, with a key that is neither the root's, nor a site's, nor another receiver's.\<close>

theorem readiness_binds_request:
  assumes "ValidateReceiveReadiness env t baseRaw requestRaw receiptRaw = Inr bindings"
  shows "\<exists>q r previous scope plan. json_prepare env requestRaw = Some (q, True) \<and> json_ready env receiptRaw = Some (r, True) \<and>
     target_current t \<and> request_matches env t baseRaw q \<and> receipt_matches env t requestRaw q r \<and>
     json_peer_list env baseRaw = Some previous \<and>
     PlanReceiveHandover env scope previous (rq_desired q) (the (rq_native q)) = Inr plan \<and>
     dom (map_of bindings) = site_keys previous \<union> site_keys (rq_desired q) \<and>
     (\<forall>k b. map_of bindings k = Some b \<longrightarrow> bd_peerPublicKey b = k \<and> bd_listenPort b = port_of (ports_of (rq_ports q)) k \<and>
        1 \<le> bd_listenPort b \<and> bd_listenPort b \<le> 65535 \<and> bd_interface b = receiver_interface env scope k \<and>
        bd_publicKey b \<notin> insert (tg_rootPublicKey t) (site_keys previous \<union> site_keys (rq_desired q))) \<and>
     (\<forall>k l b c. map_of bindings k = Some b \<longrightarrow> map_of bindings l = Some c \<longrightarrow> k \<noteq> l \<longrightarrow>
        bd_publicKey b \<noteq> bd_publicKey c \<and> bd_listenPort b \<noteq> bd_listenPort c)"
proof -
  obtain q r previous scope plan where dec: "json_prepare env requestRaw = Some (q, True)" "json_ready env receiptRaw = Some (r, True)"
    and cur: "target_current t" "request_matches env t baseRaw q" "receipt_matches env t requestRaw q r"
    and base: "json_peer_list env baseRaw = Some previous"
    and plan: "PlanReceiveHandover env scope previous (rq_desired q) (the (rq_native q)) = Inr plan"
    and vb: "ValidateReceiveBindings (rh_receivers plan) (tg_rootPublicKey t) (rd_bindings r) = Inr ()"
    and bp: "bind_ports (ports_of (rq_ports q)) (rd_bindings r) [] = Inr bindings"
    using assms unfolding ValidateReceiveReadiness_def
    by (auto simp: request_matches_def split: if_splits option.splits prod.splits bool.splits sum.splits)
  note keys = receiver_keys_distinct [OF plan]
  note bs = ValidateReceiveBindings_Inr [OF vb keys(1)]
  have found: "map_of bindings (bd_peerPublicKey b) = Some b \<and> bd_listenPort b = port_of (ports_of (rq_ports q)) (bd_peerPublicKey b)"
    if "b \<in> set (rd_bindings r)" for b using bind_ports_Inr [OF bp bs(2)] that by blast
  have none: "map_of bindings k = None" if "k \<notin> bd_peerPublicKey ` set (rd_bindings r)" for k
    using bind_ports_Inr [OF bp bs(2)] that by simp
  have origin: "\<exists>b' \<in> set (rd_bindings r). b' = b \<and> bd_peerPublicKey b = k" if "map_of bindings k = Some b" for k b
    using found none that by (metis imageE option.distinct(1) option.inject)
  have dom: "dom (map_of bindings) = site_keys previous \<union> site_keys (rq_desired q)"
  proof (intro set_eqI)
    fix k
    have "k \<in> dom (map_of bindings) \<longleftrightarrow> k \<in> bd_peerPublicKey ` set (rd_bindings r)"
      using found none by (cases "k \<in> bd_peerPublicKey ` set (rd_bindings r)") (auto simp: dom_def)
    with bs(1) keys(3) show "k \<in> dom (map_of bindings) \<longleftrightarrow> k \<in> site_keys previous \<union> site_keys (rq_desired q)" by simp
  qed
  have each: "bd_peerPublicKey b = k \<and> bd_listenPort b = port_of (ports_of (rq_ports q)) k \<and>
        1 \<le> bd_listenPort b \<and> bd_listenPort b \<le> 65535 \<and> bd_interface b = receiver_interface env scope k \<and>
        bd_publicKey b \<notin> insert (tg_rootPublicKey t) (site_keys previous \<union> site_keys (rq_desired q))"
    if "map_of bindings k = Some b" for k b
  proof -
    from origin [OF that] have b: "b \<in> set (rd_bindings r)" "bd_peerPublicKey b = k" by auto
    then obtain p where "p \<in> set (rh_receivers plan)" "rp_publicKey p = k" "rp_interface p = bd_interface b" using bs(5) by blast
    with receiver_sources(3) [OF plan] b bs(5) found [OF b(1)] keys(3) show ?thesis by (auto simp: in_range_def)
  qed
  have "bd_publicKey b \<noteq> bd_publicKey c \<and> bd_listenPort b \<noteq> bd_listenPort c"
    if "map_of bindings k = Some b" "map_of bindings l = Some c" "k \<noteq> l" for k l b c
  proof -
    from origin that have "b \<in> set (rd_bindings r)" "c \<in> set (rd_bindings r)" "b \<noteq> c" by blast+
    with bs(3,4) show ?thesis by (metis distinct_map inj_onD)
  qed
  with dec cur base plan dom each show ?thesis by blast
qed

theorem readiness_binds_request_witness:
  "dom (map_of [(sample_site_key, sample_binding 1)]) =
     site_keys (the (json_peer_list sample_plan_env ''base'')) \<union> site_keys (rq_desired sample_request)"
proof -
  have "json_prepare sample_plan_env ''request'' = Some (sample_request, True)" by (simp add: sample_plan_env_def)
  with readiness_binds_request [OF sample_readiness] show ?thesis by auto
qed

section \<open>Combined routes\<close>

text \<open>C19: in an accepted set of plans every machine and every cloud node has one journal, every combined route is
  a route of one of the plans, and no address is routed on a node for two machines.\<close>

theorem routes_owned_once:
  assumes "PlanReceiveRouteSet env plans = Inr result"
  shows "distinct (map (pn_machineUID \<circ> plan_fields) plans) \<and> distinct (map (pn_cloudNodeUID \<circ> plan_fields) plans) \<and>
     (\<forall>node d sel. (d, sel) \<in> set (get result node) \<longrightarrow>
        (\<exists>p \<in> set plans. \<exists>routes rs. PlanReceiveRoutes env p = Inr routes \<and> (node, rs) \<in> set routes \<and> (d, sel) \<in> set rs)) \<and>
     (\<forall>p \<in> set plans. \<forall>q \<in> set plans. \<forall>rp rq node mp mq d e s t. pn_machineUID (plan_fields p) \<noteq> pn_machineUID (plan_fields q) \<longrightarrow>
        PlanReceiveRoutes env p = Inr rp \<longrightarrow> PlanReceiveRoutes env q = Inr rq \<longrightarrow> (node, mp) \<in> set rp \<longrightarrow> (node, mq) \<in> set rq \<longrightarrow>
        (d, s) \<in> set mp \<longrightarrow> (e, t) \<in> set mq \<longrightarrow>
        (\<nexists>a. Contains (the (ParsePrefix d)) a \<and> Contains (the (ParsePrefix e)) a))"
proof -
  obtain st where "distinct (map (pn_machineUID \<circ> plan_fields) plans)" "distinct (map (pn_cloudNodeUID \<circ> plan_fields) plans)"
    by (rule PlanReceiveRouteSet_Inr [OF assms])
  moreover have "\<nexists>a. Contains (the (ParsePrefix d)) a \<and> Contains (the (ParsePrefix e)) a"
    if "p \<in> set plans" "q \<in> set plans" "pn_machineUID (plan_fields p) \<noteq> pn_machineUID (plan_fields q)"
      "PlanReceiveRoutes env p = Inr rp" "PlanReceiveRoutes env q = Inr rq" "(node, mp) \<in> set rp" "(node, mq) \<in> set rq"
      "(d, s) \<in> set mp" "(e, t) \<in> set mq" for p q rp rq node mp mq d e s t
  proof -
    from routes_exclusive(1) [OF assms that(1,2,4-9)] that(3) obtain a b
      where "ParsePrefix d = Some a" "ParsePrefix e = Some b" "\<not> Overlaps a b" by blast
    with disjoint_prefixes show ?thesis by auto
  qed
  ultimately show ?thesis using route_set_origin [OF assms] by (intro conjI) blast+
qed

theorem routes_owned_once_witness:
  "\<exists>result. PlanReceiveRouteSet sample_plan_env [sample_transition 1, sample_transition 2] = Inr result \<and>
     distinct (map (pn_cloudNodeUID \<circ> plan_fields) [sample_transition 1, sample_transition 2])"
proof -
  obtain result where "PlanReceiveRouteSet sample_plan_env [sample_transition 1, sample_transition 2] = Inr result"
    using sample_route_set by (auto simp: is_Inr_iff)
  with routes_owned_once [OF this] show ?thesis by blast
qed

text \<open>The addresses a source text allows.\<close>

definition addresses :: "string \<Rightarrow> addr set" where
  "addresses raw = {a. \<exists>p. ParsePrefix raw = Some p \<and> Contains p a}"

text \<open>C23: the admitted ordinary peers are exactly the published peers that are no journal's root, each published once, and they take nothing
  a journal holds in either generation: their keys are no root, receiver, site or site peer of a journal, and none of their addresses is one of
  a site peer, of the sources or paths of a site, or of the journal's own cloud node. They are remote, carry no transit, and no two of them
  share an address.\<close>

theorem neighbors_respect_journals:
  assumes "PlanReceiveNeighborPeers env (Some peers) (Some plans) = Inr admitted"
  shows "admitted = filter (\<lambda>x. p_publicKey x \<notin> (pn_rootPublicKey \<circ> plan_fields) ` set plans) peers \<and> distinct (map p_publicKey peers) \<and>
     (\<forall>x \<in> set admitted. p_remote x \<and> p_transit x = [] \<and> p_transitHosts x = [] \<and>
        (\<forall>plan \<in> set plans. p_publicKey x \<notin> journal_keys env (plan_fields plan) \<and>
           (\<forall>raw \<in> set (p_wgAllowedIPs x). \<forall>other \<in> journal_sources env (plan_fields plan).
              ParsePrefix raw \<noteq> None \<and> ParsePrefix other \<noteq> None \<and> addresses raw \<inter> addresses other = {})) \<and>
        (\<forall>y \<in> set admitted. p_publicKey y \<noteq> p_publicKey x \<longrightarrow>
           (\<forall>raw \<in> set (p_wgAllowedIPs x). \<forall>other \<in> set (p_wgAllowedIPs y). addresses raw \<inter> addresses other = {})))"
proof -
  obtain g owners where guarded: "\<forall>plan \<in> set plans. plan_guarded env (plan_fields plan) g" and apart: "owners_apart g owners"
    and adm: "\<forall>x \<in> set admitted. p_publicKey x \<notin> set (gs_reserved g) \<and> p_publicKey x \<notin> set (gs_transport g) \<and>
          p_remote x \<and> p_transit x = [] \<and> p_transitHosts x = [] \<and>
          (\<exists>pfs. neighborPeerPrefixes x = Inr pfs \<and> (\<forall>p \<in> set pfs. (p, p_publicKey x) \<in> set owners))"
    and kept: "admitted = filter (\<lambda>x. p_publicKey x \<notin> (pn_rootPublicKey \<circ> plan_fields) ` set plans) peers" "distinct (map p_publicKey peers)"
    by (rule neighbors_Inr [OF assms])
  have own: "\<exists>p. ParsePrefix raw = Some p \<and> (p, p_publicKey x) \<in> set owners" if "x \<in> set admitted" "raw \<in> set (p_wgAllowedIPs x)" for x raw
    using adm that neighborPeerPrefixes_set by blast
  have disjoint: "addresses raw \<inter> addresses other = {}" if "ParsePrefix raw = Some p" "ParsePrefix other = Some q" "\<not> Overlaps p q" for raw other p q
    using that disjoint_prefixes [of p q] by (auto simp: addresses_def)
  have "p_publicKey x \<notin> journal_keys env (plan_fields plan)" if "x \<in> set admitted" "plan \<in> set plans" for x plan
    using adm guarded that unfolding plan_guarded_def covers_def by blast
  moreover have "ParsePrefix raw \<noteq> None \<and> ParsePrefix other \<noteq> None \<and> addresses raw \<inter> addresses other = {}"
    if x: "x \<in> set admitted" "plan \<in> set plans" "raw \<in> set (p_wgAllowedIPs x)" "other \<in> journal_sources env (plan_fields plan)" for x plan raw other
  proof -
    from own [OF x(1,3)] obtain p where p: "ParsePrefix raw = Some p" "(p, p_publicKey x) \<in> set owners" by blast
    from guarded x(2,4) obtain q where q: "ParsePrefix other = Some q" "q \<in> set (gs_protected g)" unfolding plan_guarded_def covers_def by blast
    have "\<not> Overlaps p q" using apart p(2) q(2) unfolding owners_apart_def by blast
    with disjoint [OF p(1) q(1)] p(1) q(1) show ?thesis by simp
  qed
  moreover have "addresses raw \<inter> addresses other = {}"
    if x: "x \<in> set admitted" "y \<in> set admitted" "p_publicKey y \<noteq> p_publicKey x" "raw \<in> set (p_wgAllowedIPs x)" "other \<in> set (p_wgAllowedIPs y)" for x y raw other
  proof -
    from own [OF x(1,4)] obtain p where p: "ParsePrefix raw = Some p" "(p, p_publicKey x) \<in> set owners" by blast
    from own [OF x(2,5)] obtain q where q: "ParsePrefix other = Some q" "(q, p_publicKey y) \<in> set owners" by blast
    have "\<not> Overlaps p q" using apart p(2) q(2) x(3) unfolding owners_apart_def by metis
    with disjoint [OF p(1) q(1)] show ?thesis .
  qed
  ultimately show ?thesis using kept adm by blast
qed

theorem neighbors_respect_journals_witness:
  "p_publicKey sample_neighbor \<noteq> pn_rootPublicKey (sample_fields 1)"
  using neighbors_respect_journals [OF sample_neighbors] by (auto simp: sample_transition_def)

section \<open>The selected transport\<close>

text \<open>C21: the transport a stored journal selects is a function of its phase alone: its own receivers once the
  switch was committed and no rollback was requested, and otherwise what served before, the previous
  receivers or, without any, the original tunnel. It is never undetermined.\<close>

theorem selected_transport:
  assumes "store_snapshot env s obj = Inr sn" and "DecodeReceiveTransition env sn cluster = Inr plan"
  shows "\<exists>v. View env (sn_transition sn) = Inr v \<and>
     SelectedReceiveTransport env plan v =
       Inr (if \<not> vw_rollbackRequested v \<and> (vw_complete v \<or> phase (rspec (vw_round v)) \<noteq> Prepare) then (plan, False)
            else case previousReceiver plan of Some (_, Some old) \<Rightarrow> (old, False) | _ \<Rightarrow> (plan, True))"
proof -
  from store_snapshot_valid [OF assms(1)] have valid: "valid_snapshot env s sn" by blast
  from valid_Inr [OF this] obtain v where v: "View env (sn_transition sn) = Inr v" by blast
  moreover have "snapshot_View env sn = Inr v" using valid_view [OF valid] v by simp
  moreover have "validateReceiveTransitionBinding env sn plan cluster = Inr ()"
    using assms(2) by (simp add: DecodeReceiveTransition_Inr)
  ultimately show ?thesis using SelectedReceiveTransport_bound unfolding forward_selected_def by blast
qed

theorem selected_transport_witness:
  "SelectedReceiveTransport sample_plan_env (sample_transition 1) tunnel_view = Inr (sample_transition 1, True)"
proof -
  have "View sample_plan_env (sn_transition tunnel_snapshot) = Inr tunnel_view"
    using store_snapshot_valid [OF tunnel_stored] by (auto simp: valid_snapshot_def admissible_def tunnel_snapshot_def)
  with selected_transport [OF tunnel_stored tunnel_decoded] show ?thesis
    by (auto simp: sample_transition_def tunnel_view_def tunnel_round_def tunnel_spec_def)
qed

end
