(* ===== verification/Mesh.thy ===== *)
theory Mesh
  imports Journal_Routes
begin

text \<open>
  Renders of the mesh Secret (\<open>controller/pkg/tunnel/tunnel.go\<close>, \<open>gateway.go\<close>, \<open>native_network.go\<close>,
  \<open>relay_preference.go\<close>, \<open>remote_document.go\<close>, \<open>site_peers.go\<close>, \<open>withdraw.go\<close>): the peers of a remote and of a site, the relay both elect,
  the transit through it, and what a gateway or a native network changes in them.
  The Secret's data is an association list with distinct keys, in the order a \<open>range\<close> visits it.
  \<open>sort.Slice\<close> is an insertion sort, as Go performs it up to twelve elements; beyond that Go may order
  equal elements differently.
\<close>

section \<open>Keys of the Secret\<close>

type_synonym mesh = "(string \<times> string) list"

definition NodePublicKeyPrefix :: string where "NodePublicKeyPrefix = ''node-public-key-''"
definition NodeTunnelAddressPrefix :: string where "NodeTunnelAddressPrefix = ''node-tunnel-address-''"
definition NodeTunnelAddress6Prefix :: string where "NodeTunnelAddress6Prefix = ''node-tunnel-address6-''"
definition NodeTransitAddress6Prefix :: string where "NodeTransitAddress6Prefix = ''node-transit-address6-''"
definition NodeAddressesPrefix :: string where "NodeAddressesPrefix = ''node-addresses-''"
definition NodePodCIDRsPrefix :: string where "NodePodCIDRsPrefix = ''node-pod-cidrs-''"
definition SiteAddressesPrefix :: string where "SiteAddressesPrefix = ''site-addresses-''"
definition SitePodCIDRsPrefix :: string where "SitePodCIDRsPrefix = ''site-pod-cidrs-''"
definition PeerPublicKeyPrefix :: string where "PeerPublicKeyPrefix = ''peer-public-key-''"
definition PeerEndpointPrefix :: string where "PeerEndpointPrefix = ''peer-endpoint-''"
definition PeerAllowedIPsPrefix :: string where "PeerAllowedIPsPrefix = ''peer-allowed-ips-''"
definition PeerRouteHostsPrefix :: string where "PeerRouteHostsPrefix = ''peer-route-hosts-''"
definition PeerRouteHostPrefix :: string where "PeerRouteHostPrefix = ''peer-route-host-''"
definition PeerEndpointPending :: string where "PeerEndpointPending = ''pending''"
definition NodeDepartedAtPrefix :: string where "NodeDepartedAtPrefix = ''node-departed-at-''"
definition APIServersKey :: string where "APIServersKey = ''api-servers''"
definition RelayPublicKeyKey :: string where "RelayPublicKeyKey = ''relay-public-key''"
definition PeerNativeNetworkPrefix :: string where "PeerNativeNetworkPrefix = ''peer-native-network-''"
definition GatewayProjectionsKey :: string where "GatewayProjectionsKey = ''gateway-projections.json''"
definition SiteAppliedPrefix :: string where "SiteAppliedPrefix = ''site-applied-''"

text \<open>Reading a missing key gives the empty text; the names published under a prefix, in range order.\<close>

definition field :: "mesh \<Rightarrow> string \<Rightarrow> string" where
  "field data key = (case map_of data key of None \<Rightarrow> [] | Some v \<Rightarrow> v)"

definition names_under :: "string \<Rightarrow> mesh \<Rightarrow> string list" where
  "names_under p data = map (drop (length p)) (filter (prefix p) (map fst data))"

definition SplitList :: "string list \<Rightarrow> string list" where
  "SplitList texts = filter (\<lambda>item. item \<noteq> []) (map TrimSpace (concat (map (split_on CHR '','') texts)))"

definition listed :: "mesh \<Rightarrow> string \<Rightarrow> string list" where
  "listed data key = SplitList [field data key]"

definition trimmed :: "mesh \<Rightarrow> string \<Rightarrow> string" where
  "trimmed data key = TrimSpace (field data key)"

definition containsHost :: "string list \<Rightarrow> string \<Rightarrow> bool" where
  "containsHost hosts a = list_ex (\<lambda>h. before CHR ''/'' (TrimSpace h) = a) hosts"

definition InterfaceName :: "'a round_env_scheme \<Rightarrow> string \<Rightarrow> string" where
  "InterfaceName env meshID = ''cldt'' @ hex_encode (take 4 (sha256 env meshID))"

section \<open>Sorting\<close>

text \<open>An element moves towards the front while it is less than the one before; the sorted part is reversed.\<close>

fun sink :: "('a \<Rightarrow> 'a \<Rightarrow> bool) \<Rightarrow> 'a \<Rightarrow> 'a list \<Rightarrow> 'a list" where
  "sink lt x [] = [x]"
| "sink lt x (y # ys) = (if lt x y then y # sink lt x ys else x # y # ys)"

definition sort_by :: "('a \<Rightarrow> 'a \<Rightarrow> bool) \<Rightarrow> 'a list \<Rightarrow> 'a list" where
  "sort_by lt xs = rev (fold (sink lt) xs [])"

section \<open>The election\<close>

definition LessIP :: "string \<Rightarrow> string \<Rightarrow> bool" where
  "LessIP a b =
     (case (ParseIP a, ParseIP b) of
        (Some x, Some y) \<Rightarrow> x < y
      | _ \<Rightarrow> a < b)"

definition relayLess :: "mesh \<Rightarrow> string \<Rightarrow> string \<Rightarrow> string \<Rightarrow> string \<Rightarrow> bool" where
  "relayLess data aName aAddr bName bAddr =
     (let aDeparted = field data (NodeDepartedAtPrefix @ aName) \<noteq> [];
          bDeparted = field data (NodeDepartedAtPrefix @ bName) \<noteq> [];
          preferred = trimmed data RelayPublicKeyKey;
          aPreferred = trimmed data (NodePublicKeyPrefix @ aName) = preferred;
          bPreferred = trimmed data (NodePublicKeyPrefix @ bName) = preferred in
      if aDeparted \<noteq> bDeparted then \<not> aDeparted
      else if preferred \<noteq> [] \<and> aPreferred \<noteq> bPreferred then aPreferred
      else LessIP aAddr bAddr)"

text \<open>A candidate is a name and its tunnel address without the prefix length.\<close>

definition candidateLess :: "mesh \<Rightarrow> string \<times> string \<Rightarrow> string \<times> string \<Rightarrow> bool" where
  "candidateLess data a b = relayLess data (fst a) (snd a) (fst b) (snd b)"

definition tunnel_address :: "mesh \<Rightarrow> string \<Rightarrow> string" where
  "tunnel_address data name = before CHR ''/'' (trimmed data (NodeTunnelAddressPrefix @ name))"

definition allocated :: "mesh \<Rightarrow> string \<Rightarrow> bool" where
  "allocated data name = (trimmed data (NodeTunnelAddressPrefix @ name) \<noteq> [])"

definition published :: "mesh \<Rightarrow> string \<Rightarrow> bool" where
  "published data name = (trimmed data (NodePublicKeyPrefix @ name) \<noteq> [])"

text \<open>The nodes of \<open>RemotePeers\<close>, and the candidates of \<open>SiteTransit\<close> and \<open>PinRelay\<close>, which must have a key.\<close>

definition remote_nodes :: "mesh \<Rightarrow> (string \<times> string) list" where
  "remote_nodes data =
     sort_by (candidateLess data)
       (map (\<lambda>name. (name, tunnel_address data name)) (filter (allocated data) (names_under NodePublicKeyPrefix data)))"

definition relay_candidates :: "mesh \<Rightarrow> (string \<times> string) list" where
  "relay_candidates data =
     sort_by (candidateLess data)
       (map (\<lambda>name. (name, tunnel_address data name))
         (filter (\<lambda>name. published data name \<and> allocated data name) (names_under NodePublicKeyPrefix data)))"

text \<open>\<open>PinRelay\<close> returns the changed data and whether it changed.\<close>

definition PinRelay :: "mesh \<Rightarrow> mesh \<times> bool" where
  "PinRelay data =
     (let key = (case relay_candidates data of [] \<Rightarrow> [] | c # _ \<Rightarrow> trimmed data (NodePublicKeyPrefix @ fst c)) in
      if field data RelayPublicKeyKey = key then (data, False)
      else if key = [] then (AList.delete RelayPublicKeyKey data, True)
      else (AList.update RelayPublicKeyKey key data, True))"

section \<open>Transit\<close>

definition otherFamilyVia :: "mesh \<Rightarrow> string \<Rightarrow> string \<Rightarrow> string" where
  "otherFamilyVia data relay via =
     (case ParseIP via of
        None \<Rightarrow> []
      | Some viaIP \<Rightarrow>
          (let wantV4 = \<not> is_To4 viaIP;
               transit = trimmed data (NodeTransitAddress6Prefix @ relay) in
           if \<not> wantV4 \<and> ParseIP transit \<noteq> None then transit
           else
             (case find (\<lambda>a. case ParseIP a of None \<Rightarrow> False | Some ip \<Rightarrow> is_To4 ip = wantV4)
                     (listed data (NodeAddressesPrefix @ relay) @ listed data (SiteAddressesPrefix @ relay)) of
                None \<Rightarrow> []
              | Some a \<Rightarrow> a)))"

definition siteTransitThrough :: "mesh \<Rightarrow> string \<Rightarrow> peer_spec list \<Rightarrow> transit_spec option" where
  "siteTransitThrough data relay peers =
     (case listed data (NodeAddressesPrefix @ relay) @ listed data (SiteAddressesPrefix @ relay) of
        [] \<Rightarrow> None
      | via # _ \<Rightarrow>
          Some (setTransitDestinations
                  \<lparr>tr_via = via, tr_viaOtherFamily = otherFamilyVia data relay via, tr_hosts = [], tr_blocks = []\<rparr> peers))"

definition siteNodeNames :: "mesh \<Rightarrow> string list" where
  "siteNodeNames data = sort (names_under SiteAddressesPrefix data)"

definition DocRelaysNode :: "peer_list_doc \<Rightarrow> string \<Rightarrow> string list \<Rightarrow> bool" where
  "DocRelaysNode doc publicKey addrs =
     (let same = (\<lambda>a b. HostCIDR (TrimSpace a) = HostCIDR b) in
      \<not> list_ex (\<lambda>p. p_publicKey p = publicKey \<and> list_ex (\<lambda>a. list_ex (same a) addrs) (p_wgAllowedIPs p)) (doc_peers doc) \<and>
      addrs \<noteq> [] \<and>
      list_all (\<lambda>a. list_ex (\<lambda>p. p_publicKey p \<noteq> publicKey \<and> list_ex (\<lambda>host. same host a) (p_transitHosts p)) (doc_peers doc)) addrs)"

section \<open>IPv6 tunnel addresses\<close>

text \<open>The IPv4 address in the low 32 bits of a masked IPv6 prefix.\<close>

definition pair_address :: "ip_prefix \<Rightarrow> 32 word \<Rightarrow> ip_prefix" where
  "pair_address p w = PrefixFrom (V6 (push_bit 32 (drop_bit 32 (As16 (pf_addr (Masked p)))) OR ucast w) []) (pf_bits p)"

definition TunnelAddress6 :: "string \<Rightarrow> string \<Rightarrow> string res" where
  "TunnelAddress6 prefix6 addr4 =
     (case ParsePrefix (TrimSpace prefix6) of
        None \<Rightarrow> Inl (Error ''tunnel IPv6 prefix must be an IPv6 prefix'')
      | Some p \<Rightarrow>
          if \<not> Is6 (pf_addr p) \<or> Is4In6 (pf_addr p) then Inl (Error ''tunnel IPv6 prefix must be an IPv6 prefix'')
          else if 96 < pf_bits p then Inl (Error ''tunnel IPv6 prefix must leave 32 host bits (/96 or shorter)'')
          else
            (case ParseAddr (before CHR ''/'' (TrimSpace addr4)) of
               Some (V4 w) \<Rightarrow> Inr (show_prefix (pair_address p w))
             | _ \<Rightarrow> Inl (Error ''tunnel address must be IPv4'')))"

section \<open>Withdrawal\<close>

definition withdrawn_keys :: "string \<Rightarrow> string list" where
  "withdrawn_keys name =
     map (\<lambda>p. p @ name)
       [PeerPublicKeyPrefix, PeerEndpointPrefix, PeerAllowedIPsPrefix, PeerRouteHostsPrefix, PeerRouteHostPrefix, PeerNativeNetworkPrefix]"

definition WithdrawRemotePeer :: "mesh \<Rightarrow> string \<Rightarrow> string \<Rightarrow> (mesh \<times> bool) res" where
  "WithdrawRemotePeer data name publicKey =
     (let current = field data (PeerPublicKeyPrefix @ name) in
      if name = [] \<or> TrimSpace name \<noteq> name \<or> publicKey = [] \<or> TrimSpace publicKey \<noteq> publicKey
        then Inl (Error ''peer name and expected public key required'')
      else if current \<noteq> [] \<and> current \<noteq> publicKey then Inl (Error ''remote peer public key changed'')
      else if current = [] \<and> list_ex (\<lambda>k. map_of data k \<noteq> None) (withdrawn_keys name)
        then Inl (Error ''peer fields remain without their public key identity'')
      else Inr (fold AList.delete (withdrawn_keys name) data, list_ex (\<lambda>k. map_of data k \<noteq> None) (withdrawn_keys name)))"

section \<open>Environment\<close>

record gateway_projection =
  gp_lease :: string
  gp_workerKey :: string
  gp_gatewayKey :: string
  gp_workerAddress :: addr
  gp_workerHost :: ip_prefix
  gp_directHosts :: "ip_prefix list"
  gp_retiringWorker :: bool

record native_network =
  nn_publicKey :: string
  nn_id :: string
  nn_prefixes :: "string list"

record site_applied =
  sa_nodeUID :: string
  sa_publicKey :: string
  sa_hash :: string
  sa_role :: string
  sa_transitHash :: string

text \<open>
  \<open>json.Unmarshal\<close> of the documents in the Secret and \<open>json.Marshal\<close> of the rendered ones;
  \<open>json_peer_list_into\<close> decodes into a given document.
\<close>

record mesh_env = plan_env +
  json_native :: "string \<Rightarrow> native_network option"
  json_gateways :: "string \<Rightarrow> gateway_projection list option"
  json_applied :: "string \<Rightarrow> site_applied option"
  json_peer_list_into :: "peer_list_doc \<Rightarrow> string \<Rightarrow> peer_list_doc option"
  marshal_doc :: "peer_list_doc \<Rightarrow> string option"
  marshal_transit :: "string \<times> transit_spec \<Rightarrow> string option"

section \<open>Gateway projections\<close>

definition appendUnique :: "string list \<Rightarrow> string \<Rightarrow> string list" where
  "appendUnique vs v = (if v \<in> set vs then vs else vs @ [v])"

definition host_address :: "string \<Rightarrow> addr" where
  "host_address raw =
     (case ParseAddr raw of
        Some a \<Rightarrow> a
      | None \<Rightarrow>
          (case ParsePrefix raw of
             Some p \<Rightarrow> if pf_bits p = BitLen (pf_addr p) then pf_addr p else NoAddr
           | None \<Rightarrow> NoAddr))"

definition withoutHosts :: "string list \<Rightarrow> addr list \<Rightarrow> string list" where
  "withoutHosts vs exclude = filter (\<lambda>raw. host_address raw \<notin> set exclude) vs"

fun gateway_allowed :: "gateway_projection \<Rightarrow> string \<Rightarrow> peer_spec \<Rightarrow> string list \<Rightarrow> unit res" where
  "gateway_allowed plan key peer [] = Inr ()"
| "gateway_allowed plan key peer (raw # raws) =
     (case ParsePrefix raw of
        None \<Rightarrow> Inl (Error ''invalid peer allowed prefix'')
      | Some p \<Rightarrow>
          if Contains p (gp_workerAddress plan) \<and> (p_publicKey peer \<noteq> key \<or> p \<noteq> gp_workerHost plan)
            then Inl (Error ''worker native address is already owned by another peer or a broader prefix'')
          else gateway_allowed plan key peer raws)"

text \<open>The loop that finds the gateway's entry; \<open>i\<close> is the index, \<open>target\<close> the entry found before.\<close>

fun gateway_target :: "gateway_projection \<Rightarrow> string \<Rightarrow> nat \<Rightarrow> nat option \<Rightarrow> peer_spec list \<Rightarrow> nat option res" where
  "gateway_target plan key i target [] = Inr target"
| "gateway_target plan key i target (p # ps) =
     (if p_publicKey p = key \<and> target \<noteq> None then Inl (Error ''gateway key is published more than once'')
      else
        (case gateway_allowed plan key p (p_wgAllowedIPs p) of
           Inl e \<Rightarrow> Inl e
         | Inr _ \<Rightarrow> gateway_target plan key (Suc i) (if p_publicKey p = key then Some i else target) ps))"

definition worker_view :: "gateway_projection \<Rightarrow> peer_spec \<Rightarrow> peer_spec" where
  "worker_view plan p =
     (let direct = map pf_addr (gp_directHosts plan) in
      p\<lparr>p_routeHosts := withoutHosts (AllRouteHosts p) direct, p_routeHost := [], p_transitHosts := withoutHosts (p_transitHosts p) direct\<rparr>)"

definition gateway_view :: "gateway_projection \<Rightarrow> peer_spec \<Rightarrow> peer_spec" where
  "gateway_view plan p =
     (let p1 = p\<lparr>p_wgAllowedIPs := appendUnique (p_wgAllowedIPs p) (show_prefix (gp_workerHost plan))\<rparr> in
      if length (withoutHosts (AllRouteHosts p1) [gp_workerAddress plan]) = length (AllRouteHosts p1)
        then p1\<lparr>p_routeHosts := p_routeHosts p1 @ [show_addr (gp_workerAddress plan)]\<rparr>
      else p1)"

definition GatewayPeers :: "gateway_projection \<Rightarrow> peer_spec list \<Rightarrow> string \<Rightarrow> bool \<Rightarrow> peer_spec list res" where
  "GatewayPeers plan peers key forWorker =
     (if key = [] then Inl (Error ''gateway has not published a WireGuard key'')
      else if \<not> IsValid (gp_workerHost plan) \<or> pf_bits (gp_workerHost plan) \<noteq> 32 \<or> pf_addr (gp_workerHost plan) \<noteq> gp_workerAddress plan
        then Inl (Error ''invalid gateway worker host'')
      else
        (case gateway_target plan key 0 None peers of
           Inl e \<Rightarrow> Inl e
         | Inr None \<Rightarrow> Inl (Error ''gateway is absent from rendered peers'')
         | Inr (Some i) \<Rightarrow>
             Inr (if forWorker then map (worker_view plan) peers else peers[i := gateway_view plan (peers ! i)])))"

fun check_projections :: "string list \<Rightarrow> addr list \<Rightarrow> gateway_projection list \<Rightarrow> unit res" where
  "check_projections seen hosts [] = Inr ()"
| "check_projections seen hosts (p # ps) =
     (if gp_lease p = [] \<or> gp_lease p \<in> set seen \<or> gp_workerKey p = [] \<or> gp_gatewayKey p = [] \<or> gp_workerKey p = gp_gatewayKey p \<or>
         gp_workerAddress p \<in> set hosts \<or> \<not> Is4 (gp_workerAddress p) \<or> gp_workerHost p \<noteq> PrefixFrom (gp_workerAddress p) 32
        then Inl (Error ''invalid or duplicate gateway projection'')
      else if list_ex (\<lambda>host. \<not> IsValid host \<or> \<not> Is4 (pf_addr host) \<or> pf_bits host \<noteq> 32) (gp_directHosts p)
        then Inl (Error ''invalid direct host'')
      else check_projections (gp_lease p # seen) (gp_workerAddress p # hosts) ps)"

definition project_gateway :: "string \<Rightarrow> peer_spec list \<Rightarrow> gateway_projection \<Rightarrow> peer_spec list res" where
  "project_gateway selfKey peers p =
     (if selfKey = gp_gatewayKey p \<or> (selfKey = gp_workerKey p \<and> gp_retiringWorker p) then Inr peers
      else GatewayPeers p peers (gp_gatewayKey p) (selfKey = gp_workerKey p))"

definition ProjectGateways :: "'a mesh_env_scheme \<Rightarrow> mesh \<Rightarrow> peer_spec list \<Rightarrow> string \<Rightarrow> peer_spec list res" where
  "ProjectGateways env data peers selfKey =
     (let raw = field data GatewayProjectionsKey in
      if raw = [] then Inr peers
      else
        (case json_gateways env raw of
           None \<Rightarrow> Inl (Error ''gateway projections'')
         | Some plans \<Rightarrow>
             (let plans = sort_by (\<lambda>a b. gp_lease a < gp_lease b) plans in
              case check_projections [] [] plans of
                Inl e \<Rightarrow> Inl e
              | Inr _ \<Rightarrow> res_fold (project_gateway selfKey) peers plans)))"

text \<open>The hosts published for a machine, with the legacy field read when the list is empty.\<close>

definition peer_hosts :: "mesh \<Rightarrow> string \<Rightarrow> string list" where
  "peer_hosts data name =
     (let hosts = listed data (PeerRouteHostsPrefix @ name) in
      if hosts = [] then listed data (PeerRouteHostPrefix @ name) else hosts)"

definition remoteSelfKey :: "mesh \<Rightarrow> string \<Rightarrow> string" where
  "remoteSelfKey data a =
     (if a = [] then []
      else
        (case find (\<lambda>name. containsHost (peer_hosts data name) a) (names_under PeerPublicKeyPrefix data) of
           None \<Rightarrow> []
         | Some name \<Rightarrow> trimmed data (PeerPublicKeyPrefix @ name)))"

section \<open>Native networks\<close>

definition IsUnspecified :: "addr \<Rightarrow> bool" where
  "IsUnspecified a = (a = V4 0 \<or> a = V6 0 [])"

definition native_ok :: "string \<Rightarrow> bool" where
  "native_ok raw =
     (case ParsePrefix raw of
        None \<Rightarrow> False
      | Some p \<Rightarrow>
          p = Masked p \<and> pf_bits p \<noteq> 0 \<and> \<not> Is4In6 (pf_addr p) \<and> \<not> IsUnspecified (pf_addr p) \<and>
          \<not> IsLoopback (pf_addr p) \<and> \<not> IsMulticast (pf_addr p))"

definition nativeNetwork :: "'a mesh_env_scheme \<Rightarrow> mesh \<Rightarrow> string \<Rightarrow> native_network res" where
  "nativeNetwork env data name =
     (let raw = field data (PeerNativeNetworkPrefix @ name) in
      if raw = [] then Inr \<lparr>nn_publicKey = [], nn_id = [], nn_prefixes = []\<rparr>
      else
        (case json_native env raw of
           None \<Rightarrow> Inl (Error ''invalid native network document'')
         | Some n \<Rightarrow>
             if nn_publicKey n = [] \<or> nn_publicKey n \<noteq> field data (PeerPublicKeyPrefix @ name)
               then Inl (Error ''native network peer identity changed'')
             else if nn_id n = [] then Inl (Error ''native network identity missing'')
             else if \<not> list_all native_ok (nn_prefixes n) then Inl (Error ''invalid native destination'')
             else Inr n))"

definition host_prefix :: "string \<Rightarrow> string" where
  "host_prefix host = (case ParseAddr host of Some a \<Rightarrow> show_prefix (PrefixFrom a (BitLen a)) | None \<Rightarrow> host)"

definition projectNativeNetwork :: "'a mesh_env_scheme \<Rightarrow> mesh \<Rightarrow> string \<Rightarrow> string \<Rightarrow> peer_spec \<Rightarrow> peer_spec res" where
  "projectNativeNetwork env data self other peer =
     (case nativeNetwork env data self of
        Inl e \<Rightarrow> Inl e
      | Inr here \<Rightarrow>
          (case nativeNetwork env data other of
             Inl e \<Rightarrow> Inl e
           | Inr there \<Rightarrow>
               if nn_id here = [] \<or> nn_id here \<noteq> nn_id there then Inr peer
               else
                 Inr (peer\<lparr>p_wgAllowedIPs := filter (\<lambda>p. p \<notin> set (nn_prefixes there)) (p_wgAllowedIPs peer),
                           p_routeHosts := filter (\<lambda>host. host_prefix host \<notin> set (nn_prefixes there)) (AllRouteHosts peer),
                           p_routeHost := []\<rparr>)))"

section \<open>RemotePeers\<close>

definition tunnel_address6 :: "mesh \<Rightarrow> string \<Rightarrow> string" where
  "tunnel_address6 data name = before CHR ''/'' (trimmed data (NodeTunnelAddress6Prefix @ name))"

text \<open>What the published nodes own on their own entries.\<close>

definition own_addresses :: "mesh \<Rightarrow> string \<times> string \<Rightarrow> string list" where
  "own_addresses data n =
     snd n # (if tunnel_address6 data (fst n) = [] then [] else [tunnel_address6 data (fst n)]) @ listed data (NodeAddressesPrefix @ fst n)"

definition ownHosts :: "mesh \<Rightarrow> string list" where
  "ownHosts data = concat (map (own_addresses data) (filter (\<lambda>n. published data (fst n)) (remote_nodes data)))"

definition owns :: "mesh \<Rightarrow> string \<Rightarrow> string \<Rightarrow> bool" where
  "owns data p name =
     (list_ex (\<lambda>n. fst n = name \<and> published data name) (remote_nodes data) \<and> listed data (p @ name) \<noteq> [])"

text \<open>The four lists of a local peer while the relay's share is added.\<close>

record relay_lists =
  rl_allowed :: "string list"
  rl_hosts :: "string list"
  rl_transit :: "string list"
  rl_transitHosts :: "string list"

definition add_transit :: "string \<Rightarrow> relay_lists \<Rightarrow> relay_lists" where
  "add_transit host r =
     \<lparr>rl_allowed = rl_allowed r @ [HostCIDR host], rl_hosts = rl_hosts r @ [host],
      rl_transit = rl_transit r @ [HostCIDR host], rl_transitHosts = rl_transitHosts r @ [host]\<rparr>"

definition add_api :: "string list \<Rightarrow> string \<Rightarrow> relay_lists \<Rightarrow> relay_lists" where
  "add_api owned api r =
     (let api = TrimSpace api in
      if api = [] \<or> containsHost (rl_hosts r) api \<or> api \<in> set owned then r else add_transit api r)"

definition add_site :: "mesh \<Rightarrow> string \<Rightarrow> relay_lists \<Rightarrow> relay_lists" where
  "add_site data name r =
     (let r1 = (if owns data NodeAddressesPrefix name then r
                else fold (\<lambda>a r. if containsHost (rl_hosts r) a then r else add_transit a r) (listed data (SiteAddressesPrefix @ name)) r);
          blocks = listed data (SitePodCIDRsPrefix @ name) in
      if owns data NodePodCIDRsPrefix name then r1
      else r1\<lparr>rl_allowed := rl_allowed r1 @ blocks, rl_transit := rl_transit r1 @ blocks\<rparr>)"

definition relay_share :: "mesh \<Rightarrow> string list \<Rightarrow> relay_lists \<Rightarrow> relay_lists" where
  "relay_share data apis r = fold (add_site data) (siteNodeNames data) (fold (add_api (ownHosts data)) apis r)"

definition local_lists :: "mesh \<Rightarrow> string \<times> string \<Rightarrow> relay_lists" where
  "local_lists data n =
     \<lparr>rl_allowed = map HostCIDR (own_addresses data n) @ listed data (NodePodCIDRsPrefix @ fst n),
      rl_hosts = own_addresses data n, rl_transit = [], rl_transitHosts = []\<rparr>"

definition local_peer :: "mesh \<Rightarrow> string \<times> string \<Rightarrow> relay_lists \<Rightarrow> peer_spec" where
  "local_peer data n r =
     \<lparr>p_publicKey = trimmed data (NodePublicKeyPrefix @ fst n), p_endpoint = [], p_wgAllowedIPs = rl_allowed r, p_routeHosts = rl_hosts r,
      p_routeHost = [], p_remote = False, p_transit = rl_transit r, p_transitHosts = rl_transitHosts r\<rparr>"

text \<open>The first published node relays; the others carry only what is theirs.\<close>

fun local_peers :: "mesh \<Rightarrow> string list \<Rightarrow> bool \<Rightarrow> (string \<times> string) list \<Rightarrow> peer_spec list" where
  "local_peers data apis relayed [] = []"
| "local_peers data apis relayed (n # ns) =
     (if \<not> published data (fst n) then local_peers data apis relayed ns
      else
        local_peer data n (if relayed then local_lists data n else relay_share data apis (local_lists data n)) #
        local_peers data apis True ns)"

fun self_name :: "mesh \<Rightarrow> string \<Rightarrow> string \<Rightarrow> string list \<Rightarrow> string res" where
  "self_name data self found [] = Inr found"
| "self_name data self found (name # names) =
     (if self \<noteq> [] \<and> containsHost (peer_hosts data name) self
        then (if found \<noteq> [] then Inl (Error ''ambiguous native network membership'') else self_name data self name names)
      else self_name data self found names)"

definition published_hosts :: "mesh \<Rightarrow> string \<Rightarrow> string list" where
  "published_hosts data name =
     (case map_of data (PeerRouteHostsPrefix @ name) of
        Some raw \<Rightarrow> SplitList [raw]
      | None \<Rightarrow> (case map_of data (PeerRouteHostPrefix @ name) of Some raw \<Rightarrow> [TrimSpace raw] | None \<Rightarrow> []))"

definition published_endpoint :: "mesh \<Rightarrow> string \<Rightarrow> string" where
  "published_endpoint data name =
     (let e = trimmed data (PeerEndpointPrefix @ name) in if e = PeerEndpointPending then [] else e)"

definition machine_peer :: "mesh \<Rightarrow> string \<Rightarrow> peer_spec" where
  "machine_peer data name =
     \<lparr>p_publicKey = trimmed data (PeerPublicKeyPrefix @ name), p_endpoint = published_endpoint data name,
      p_wgAllowedIPs = listed data (PeerAllowedIPsPrefix @ name), p_routeHosts = published_hosts data name, p_routeHost = [],
      p_remote = True, p_transit = [], p_transitHosts = []\<rparr>"

definition add_remote :: "'a mesh_env_scheme \<Rightarrow> mesh \<Rightarrow> string \<Rightarrow> string \<Rightarrow> peer_spec list \<Rightarrow> string \<Rightarrow> peer_spec list res" where
  "add_remote env data self selfName remotes name =
     (if self \<noteq> [] \<and> containsHost (published_hosts data name) self then Inr remotes
      else
        (case projectNativeNetwork env data selfName name (machine_peer data name) of
           Inl e \<Rightarrow> Inl e
         | Inr peer \<Rightarrow> Inr (remotes @ [peer])))"

definition keyLess :: "peer_spec \<Rightarrow> peer_spec \<Rightarrow> bool" where
  "keyLess a b = (p_publicKey a < p_publicKey b)"

definition RemotePeers :: "'a mesh_env_scheme \<Rightarrow> mesh \<Rightarrow> string \<Rightarrow> string list \<Rightarrow> peer_spec list res" where
  "RemotePeers env data self apis =
     (let peers = local_peers data apis False (remote_nodes data) in
      if peers = [] then Inr []
      else
        (case self_name data self [] (names_under PeerPublicKeyPrefix data) of
           Inl e \<Rightarrow> Inl e
         | Inr selfName \<Rightarrow>
             (case res_fold (add_remote env data self selfName) [] (names_under PeerPublicKeyPrefix data) of
                Inl e \<Rightarrow> Inl e
              | Inr remotes \<Rightarrow> ProjectGateways env data (peers @ sort_by keyLess remotes) (remoteSelfKey data self))))"

section \<open>Documents for remotes\<close>

definition CanonicalAPIHosts :: "string list \<Rightarrow> string list" where
  "CanonicalAPIHosts texts = remdups_adj (sort (SplitList texts))"

definition JoinHostPort :: "string \<Rightarrow> string \<Rightarrow> string" where
  "JoinHostPort host port = (if CHR '':'' \<in> set host then ''['' @ host @ '']:'' @ port else host @ '':'' @ port)"

definition RemotePeerDocument :: "'a mesh_env_scheme \<Rightarrow> mesh \<Rightarrow> string \<Rightarrow> string \<Rightarrow> string \<Rightarrow> string option res" where
  "RemotePeerDocument env data self apiVIP apiPort =
     (let hosts = CanonicalAPIHosts [field data APIServersKey, apiVIP] in
      case RemotePeers env data self hosts of
        Inl e \<Rightarrow> Inl e
      | Inr peers \<Rightarrow>
          if peers = [] then Inr None
          else
            (case marshal_doc env \<lparr>pl_peers = Some peers, pl_apiServers = map (\<lambda>host. JoinHostPort host apiPort) hosts\<rparr> of
               None \<Rightarrow> Inl (Error ''marshal'')
             | Some raw \<Rightarrow> Inr (Some raw)))"

section \<open>Site peers and convergence\<close>

definition add_site_peer :: "mesh \<Rightarrow> bool \<Rightarrow> peer_spec list \<Rightarrow> string \<Rightarrow> peer_spec list res" where
  "add_site_peer data strict peers machine =
     (if strict \<and> map_of data (PeerAllowedIPsPrefix @ machine) = None
        then Inl (Error ''secret has a peer key but no matching allowed IPs'')
      else if strict \<and> map_of data (PeerRouteHostsPrefix @ machine) = None \<and> map_of data (PeerRouteHostPrefix @ machine) = None
        then Inl (Error ''secret has a peer key but no matching route hosts'')
      else Inr (peers @ [machine_peer data machine]))"

definition site_peers :: "'a mesh_env_scheme \<Rightarrow> mesh \<Rightarrow> bool \<Rightarrow> peer_spec list res" where
  "site_peers env data strict =
     (case res_fold (add_site_peer data strict) [] (names_under PeerPublicKeyPrefix data) of
        Inl e \<Rightarrow> Inl e
      | Inr peers \<Rightarrow> ProjectGateways env data (sort_by keyLess peers) [])"

definition SitePeers :: "'a mesh_env_scheme \<Rightarrow> mesh \<Rightarrow> peer_spec list res" where
  "SitePeers env data = site_peers env data True"

definition SitePeerHash :: "'a mesh_env_scheme \<Rightarrow> mesh \<Rightarrow> string res" where
  "SitePeerHash env data =
     (case SitePeers env data of
        Inl e \<Rightarrow> Inl e
      | Inr peers \<Rightarrow>
          (case marshal_doc env \<lparr>pl_peers = Some peers, pl_apiServers = []\<rparr> of
             None \<Rightarrow> Inl (Error ''marshal'')
           | Some raw \<Rightarrow> Inr (HashPeerList env raw)))"

definition elect :: "string list \<Rightarrow> (string \<times> string) list \<Rightarrow> string option" where
  "elect notReady nodes =
     (case nodes of
        [] \<Rightarrow> None
      | first # _ \<Rightarrow> (case find (\<lambda>n. fst n \<notin> set notReady) nodes of None \<Rightarrow> Some (fst first) | Some n \<Rightarrow> Some (fst n)))"

definition SiteTransit :: "'a mesh_env_scheme \<Rightarrow> mesh \<Rightarrow> string list \<Rightarrow> transit_spec option res" where
  "SiteTransit env data notReady =
     (case elect notReady (relay_candidates data) of
        None \<Rightarrow> Inr None
      | Some relay \<Rightarrow>
          (case site_peers env data False of
             Inl e \<Rightarrow> Inl e
           | Inr peers \<Rightarrow> Inr (siteTransitThrough data relay peers)))"

definition SiteForwardingRole :: "'a mesh_env_scheme \<Rightarrow> mesh \<Rightarrow> string \<Rightarrow> string list \<Rightarrow> (string \<times> transit_spec option) res" where
  "SiteForwardingRole env data node notReady =
     (let addresses = listed data (SiteAddressesPrefix @ node) in
      if addresses = [] then Inr (''direct'', None)
      else
        (case SiteTransit env data notReady of
           Inl e \<Rightarrow> Inl e
         | Inr None \<Rightarrow> Inl (Error ''site relay unavailable'')
         | Inr (Some transit) \<Rightarrow>
             if field data (NodeTunnelAddressPrefix @ node) = [] then Inr (''transit'', Some transit)
             else if containsHost addresses (tr_via transit) then Inr (''direct'', None)
             else Inr (''relayed'', Some transit)))"

definition SiteTransitHash :: "'a mesh_env_scheme \<Rightarrow> mesh \<Rightarrow> transit_spec option \<Rightarrow> string res" where
  "SiteTransitHash env data transit =
     (case transit of
        None \<Rightarrow> Inl (Error ''transit observation required'')
      | Some t \<Rightarrow>
          (case SitePeerHash env data of
             Inl e \<Rightarrow> Inl e
           | Inr peers \<Rightarrow>
               (case marshal_transit env (peers, t) of
                  None \<Rightarrow> Inl (Error ''marshal'')
                | Some raw \<Rightarrow> Inr (HashPeerList env raw))))"

definition role_acknowledged :: "'a mesh_env_scheme \<Rightarrow> mesh \<Rightarrow> site_applied \<Rightarrow> string \<Rightarrow> transit_spec option \<Rightarrow> bool" where
  "role_acknowledged env data ack role transit =
     (if role = ''relayed'' \<or> role = ''transit''
        then sa_role ack = role \<and> SiteTransitHash env data transit = Inr (sa_transitHash ack)
      else sa_role ack = [] \<or> sa_role ack = ''direct'')"

definition SiteConverged :: "'a mesh_env_scheme \<Rightarrow> mesh \<Rightarrow> string \<Rightarrow> string \<Rightarrow> string list \<Rightarrow> bool" where
  "SiteConverged env data nodeName nodeUID notReady =
     (nodeName \<noteq> [] \<and> nodeUID \<noteq> [] \<and>
      (case json_applied env (field data (SiteAppliedPrefix @ nodeName)) of
         None \<Rightarrow> False
       | Some ack \<Rightarrow>
           (let key = trimmed data (NodePublicKeyPrefix @ nodeName) in
            sa_nodeUID ack = nodeUID \<and> sa_publicKey ack = key \<and>
            (case SiteForwardingRole env data nodeName notReady of
               Inl _ \<Rightarrow> False
             | Inr (role, transit) \<Rightarrow>
                 (role = ''transit'' \<or> key \<noteq> []) \<and> role_acknowledged env data ack role transit \<and>
                 SitePeerHash env data = Inr (sa_hash ack)))))"

end
