(* ===== verification/Relay_Election.thy ===== *)
theory Relay_Election
  imports Mesh
begin

text \<open>
  Lemmas on the renders of the mesh Secret: the sorts of the renders as interpretations of one contract,
  the endpoint that comes before every other and that both renders elect, what pinning and withdrawal
  keep of the Secret, and the IPv6 pairing.
\<close>

section \<open>Sorting by a rank\<close>

text \<open>What the renders rely on: on the elements they sort, the comparison is a linear order of ranks.\<close>

locale ranked_sort =
  fixes lt :: "'a \<Rightarrow> 'a \<Rightarrow> bool" and rank :: "'a \<Rightarrow> 'r :: linorder" and ranked :: "'a \<Rightarrow> bool"
  assumes lt_rank: "ranked a \<Longrightarrow> ranked b \<Longrightarrow> lt a b \<longleftrightarrow> rank a < rank b"
begin

lemma sink_sorted:
  assumes "ranked x" and "list_all ranked ys" and "sorted_wrt (\<lambda>a b. rank b \<le> rank a) ys"
  shows "sorted_wrt (\<lambda>a b. rank b \<le> rank a) (sink lt x ys) \<and> mset (sink lt x ys) = add_mset x (mset ys)"
  using assms
proof (induction ys)
  case (Cons y ys)
  note ih = Cons.IH [OF Cons.prems(1)]
  show ?case
  proof (cases "lt x y")
    case True
    then have xy: "rank x < rank y" using lt_rank Cons.prems by simp
    have i: "sorted_wrt (\<lambda>a b. rank b \<le> rank a) (sink lt x ys)" "mset (sink lt x ys) = add_mset x (mset ys)"
      using ih Cons.prems by simp_all
    from i(2) have "set (sink lt x ys) = insert x (set ys)" by (metis set_mset_add_mset_insert set_mset_mset)
    with i True xy Cons.prems show ?thesis by auto
  next
    case False
    then have "rank y \<le> rank x" using lt_rank Cons.prems by (simp add: not_less)
    with False Cons.prems show ?thesis by (auto intro: order_trans)
  qed
qed simp

lemma fold_sorted:
  assumes "list_all ranked xs" and "list_all ranked acc" and "sorted_wrt (\<lambda>a b. rank b \<le> rank a) acc"
  shows "sorted_wrt (\<lambda>a b. rank b \<le> rank a) (fold (sink lt) xs acc) \<and> mset (fold (sink lt) xs acc) = mset xs + mset acc"
  using assms
proof (induction xs arbitrary: acc)
  case (Cons x xs)
  then have s: "sorted_wrt (\<lambda>a b. rank b \<le> rank a) (sink lt x acc)" "mset (sink lt x acc) = add_mset x (mset acc)"
    using sink_sorted by simp_all
  from s(2) have "set (sink lt x acc) = insert x (set acc)" by (metis set_mset_add_mset_insert set_mset_mset)
  then have "list_all ranked (sink lt x acc)" using Cons.prems by (auto simp: list_all_iff)
  with Cons.IH s Cons.prems show ?case by simp
qed simp

lemma sort_by_sorted:
  assumes "list_all ranked xs"
  shows "sorted_wrt (\<lambda>a b. rank a \<le> rank b) (sort_by lt xs)" and "mset (sort_by lt xs) = mset xs" and "set (sort_by lt xs) = set xs"
proof -
  have f: "sorted_wrt (\<lambda>a b. rank b \<le> rank a) (fold (sink lt) xs [])" "mset (fold (sink lt) xs []) = mset xs"
    using fold_sorted [OF assms, of "[]"] by simp_all
  show "sorted_wrt (\<lambda>a b. rank a \<le> rank b) (sort_by lt xs)" using f(1) by (simp add: sort_by_def sorted_wrt_rev)
  show m: "mset (sort_by lt xs) = mset xs" using f(2) by (simp add: sort_by_def)
  then show "set (sort_by lt xs) = set xs" by (metis set_mset_mset)
qed

text \<open>The first element with a property has the least rank among those that have it.\<close>

lemma first_least:
  assumes "list_all ranked xs" and "find P (sort_by lt xs) = Some y"
  shows "y \<in> set xs \<and> P y \<and> (\<forall>x \<in> set xs. P x \<longrightarrow> rank y \<le> rank x)"
proof -
  note s = sort_by_sorted [OF assms(1)]
  from assms(2) obtain i where i: "i < length (sort_by lt xs)" "P (sort_by lt xs ! i)" "sort_by lt xs ! i = y"
    "\<forall>j < i. \<not> P (sort_by lt xs ! j)" by (auto simp: find_Some_iff)
  have "rank y \<le> rank x" if x: "x \<in> set xs" "P x" for x
  proof -
    from x(1) s(3) obtain j where j: "j < length (sort_by lt xs)" "sort_by lt xs ! j = x" by (metis in_set_conv_nth)
    with i(4) x(2) have "i \<le> j" by (metis not_le)
    with s(1) i j show ?thesis by (cases "i = j") (auto simp: sorted_wrt_iff_nth_less)
  qed
  moreover have "y \<in> set xs" using i s(3) by (metis nth_mem)
  ultimately show ?thesis using i by auto
qed

lemma first_exists: "list_all ranked xs \<Longrightarrow> x \<in> set xs \<Longrightarrow> P x \<Longrightarrow> \<exists>y. find P (sort_by lt xs) = Some y"
  using sort_by_sorted(3) by (metis find_None_iff not_None_eq)

end

text \<open>Candidates whose tunnel address parses are ranked: departed last, the pinned key first, then the address.\<close>

definition relay_rank :: "mesh \<Rightarrow> string \<times> string \<Rightarrow> bool \<times> bool \<times> 128 word" where
  "relay_rank data c =
     (field data (NodeDepartedAtPrefix @ fst c) \<noteq> [],
      trimmed data RelayPublicKeyKey \<noteq> [] \<and> trimmed data (NodePublicKeyPrefix @ fst c) \<noteq> trimmed data RelayPublicKeyKey,
      the (ParseIP (snd c)))"

interpretation relay: ranked_sort "candidateLess data" "relay_rank data" "\<lambda>c. ParseIP (snd c) \<noteq> None" for data
  by unfold_locales (auto simp: candidateLess_def relayLess_def relay_rank_def LessIP_def Let_def)

interpretation by_key: ranked_sort keyLess p_publicKey "\<lambda>_. True"
  by unfold_locales (simp_all add: keyLess_def)

section \<open>One relay\<close>

definition usable :: "mesh \<Rightarrow> string \<Rightarrow> bool" where
  "usable data name = (published data name \<and> allocated data name)"

definition endpoint_names :: "mesh \<Rightarrow> string list" where
  "endpoint_names data = filter (allocated data) (names_under NodePublicKeyPrefix data)"

text \<open>The tunnel addresses of the mesh are addresses, and no two endpoints share one.\<close>

definition addresses_ok :: "mesh \<Rightarrow> bool" where
  "addresses_ok data =
     ((\<forall>n \<in> set (endpoint_names data). ParseIP (tunnel_address data n) \<noteq> None) \<and>
      inj_on (\<lambda>n. ParseIP (tunnel_address data n)) (set (endpoint_names data)))"

text \<open>The relay a mesh should have: before every other usable endpoint.\<close>

definition best_relay :: "mesh \<Rightarrow> string \<Rightarrow> bool" where
  "best_relay data relay =
     (usable data relay \<and>
      (\<forall>n. usable data n \<longrightarrow> n \<noteq> relay \<longrightarrow> relayLess data relay (tunnel_address data relay) n (tunnel_address data n)))"

lemma strip_front_Nil [simp]: "strip_front ws [] = []"
proof -
  have "find (\<lambda>w. w \<noteq> [] \<and> prefix w []) ws = None" by (auto simp: find_None_iff)
  then show ?thesis by (subst strip_front.simps) simp
qed

lemma TrimSpace_Nil [simp]: "TrimSpace [] = []"
  by (simp add: TrimSpace_def)

lemma published_named: "published data name \<Longrightarrow> name \<in> set (names_under NodePublicKeyPrefix data)"
proof -
  assume "published data name"
  then have "map_of data (NodePublicKeyPrefix @ name) \<noteq> None"
    by (cases "map_of data (NodePublicKeyPrefix @ name)") (simp_all add: published_def trimmed_def field_def)
  then have "NodePublicKeyPrefix @ name \<in> fst ` set data" by (metis map_of_None_fst)
  then have "NodePublicKeyPrefix @ name \<in> set (filter (prefix NodePublicKeyPrefix) (map fst data))" by simp
  then have "drop (length NodePublicKeyPrefix) (NodePublicKeyPrefix @ name) \<in> set (names_under NodePublicKeyPrefix data)"
    unfolding names_under_def set_map by (rule imageI)
  then show ?thesis by simp
qed

lemma usable_endpoint: "usable data n \<Longrightarrow> n \<in> set (endpoint_names data)"
  by (simp add: usable_def endpoint_names_def published_named)

lemma usable_candidates:
  "filter (\<lambda>name. published data name \<and> allocated data name) (names_under NodePublicKeyPrefix data) = filter (usable data) (endpoint_names data)"
  by (simp add: endpoint_names_def usable_def conj_commute)

definition candidate :: "mesh \<Rightarrow> string \<Rightarrow> string \<times> string" where
  "candidate data n = (n, tunnel_address data n)"

lemma remote_nodes_eq: "remote_nodes data = sort_by (candidateLess data) (map (candidate data) (endpoint_names data))"
  by (simp add: remote_nodes_def endpoint_names_def candidate_def [abs_def])

lemma relay_candidates_eq: "relay_candidates data = sort_by (candidateLess data) (map (candidate data) (filter (usable data) (endpoint_names data)))"
  by (simp add: relay_candidates_def usable_candidates candidate_def [abs_def])

lemma relay_rank_inj:
  assumes "addresses_ok data" and "m \<in> set (endpoint_names data)" and "n \<in> set (endpoint_names data)"
    and "relay_rank data (candidate data m) = relay_rank data (candidate data n)"
  shows "m = n"
proof -
  have "ParseIP (tunnel_address data m) = ParseIP (tunnel_address data n)"
  proof -
    have "ParseIP (tunnel_address data m) \<noteq> None" "ParseIP (tunnel_address data n) \<noteq> None"
      using assms(1-3) unfolding addresses_ok_def by blast+
    moreover have "the (ParseIP (tunnel_address data m)) = the (ParseIP (tunnel_address data n))"
      using assms(4) unfolding relay_rank_def candidate_def by simp
    ultimately show ?thesis by auto
  qed
  with assms(1-3) show ?thesis unfolding addresses_ok_def by (meson inj_onD)
qed

lemma ranked_nodes: "addresses_ok data \<Longrightarrow> set ns \<subseteq> set (endpoint_names data) \<Longrightarrow> list_all (\<lambda>c. ParseIP (snd c) \<noteq> None) (map (candidate data) ns)"
  by (auto simp: list_all_iff addresses_ok_def candidate_def)

text \<open>The first usable node of a sorted list of endpoints is the best relay.\<close>

lemma first_is_best:
  assumes "addresses_ok data" and "set ns \<subseteq> set (endpoint_names data)" and "\<And>n. usable data n \<Longrightarrow> n \<in> set ns"
    and "find (\<lambda>c. published data (fst c)) (sort_by (candidateLess data) (map (candidate data) ns)) = Some c"
  shows "\<exists>relay. c = candidate data relay \<and> best_relay data relay"
proof -
  have r: "list_all (\<lambda>c. ParseIP (snd c) \<noteq> None) (map (candidate data) ns)" using ranked_nodes [OF assms(1,2)] .
  have c: "c \<in> set (map (candidate data) ns)" "published data (fst c)"
    and least: "\<forall>x \<in> set (map (candidate data) ns). published data (fst x) \<longrightarrow> relay_rank data c \<le> relay_rank data x"
    using relay.first_least [OF r assms(4)] by blast+
  from c(1) obtain relay where relay: "relay \<in> set ns" "c = candidate data relay" by auto
  then have ep: "relay \<in> set (endpoint_names data)" using assms(2) by blast
  then have us: "usable data relay" using c(2) relay(2) by (simp add: usable_def endpoint_names_def candidate_def)
  have "relayLess data relay (tunnel_address data relay) n (tunnel_address data n)" if n: "usable data n" "n \<noteq> relay" for n
  proof -
    have nep: "n \<in> set (endpoint_names data)" using usable_endpoint [OF n(1)] .
    have "published data (fst (candidate data n))" using n(1) by (simp add: usable_def candidate_def)
    then have "relay_rank data c \<le> relay_rank data (candidate data n)" using least assms(3) [OF n(1)] by simp
    moreover have "relay_rank data c \<noteq> relay_rank data (candidate data n)"
      using relay_rank_inj [OF assms(1) ep nep] n(2) relay(2) by auto
    ultimately have "relay_rank data (candidate data relay) < relay_rank data (candidate data n)" using relay(2) by simp
    then have "candidateLess data (candidate data relay) (candidate data n)"
      using relay.lt_rank [of "candidate data relay" "candidate data n"] assms(1) ep nep by (simp add: addresses_ok_def candidate_def)
    then show ?thesis by (simp add: candidateLess_def candidate_def)
  qed
  with us relay(2) show ?thesis unfolding best_relay_def by blast
qed

lemma relayLess_asym:
  assumes "addresses_ok data" and "m \<in> set (endpoint_names data)" and "n \<in> set (endpoint_names data)"
    and "relayLess data m (tunnel_address data m) n (tunnel_address data n)"
  shows "\<not> relayLess data n (tunnel_address data n) m (tunnel_address data m)"
  using assms relay.lt_rank [of "candidate data m" "candidate data n"] relay.lt_rank [of "candidate data n" "candidate data m"]
  by (auto simp: addresses_ok_def candidateLess_def candidate_def)

lemma best_relay_unique:
  assumes "addresses_ok data" and "best_relay data m" and "best_relay data n"
  shows "m = n"
proof (rule ccontr)
  assume "m \<noteq> n"
  with assms(2,3) have "relayLess data m (tunnel_address data m) n (tunnel_address data n)"
    "relayLess data n (tunnel_address data n) m (tunnel_address data m)" "usable data m" "usable data n"
    by (auto simp: best_relay_def)
  with relayLess_asym [OF assms(1)] usable_endpoint show False by blast
qed

lemma find_all: "list_all P xs \<Longrightarrow> find P xs = (case xs of [] \<Rightarrow> None | x # _ \<Rightarrow> Some x)"
  by (cases xs) simp_all

lemma both_find_best:
  assumes "addresses_ok data" and "usable data name"
  obtains relay where "best_relay data relay"
    and "find (\<lambda>c. published data (fst c)) (remote_nodes data) = Some (candidate data relay)"
    and "\<exists>rest. relay_candidates data = candidate data relay # rest"
proof -
  let ?P = "\<lambda>c. published data (fst c)"
  let ?all = "map (candidate data) (endpoint_names data)" and ?us = "map (candidate data) (filter (usable data) (endpoint_names data))"
  have name: "name \<in> set (endpoint_names data)" "?P (candidate data name)" using assms(2) usable_endpoint by (auto simp: usable_def candidate_def)
  have ra: "list_all (\<lambda>c. ParseIP (snd c) \<noteq> None) ?all" using ranked_nodes [OF assms(1) subset_refl] .
  have rb: "list_all (\<lambda>c. ParseIP (snd c) \<noteq> None) ?us" using ranked_nodes [OF assms(1)] by simp
  obtain c where c: "find ?P (remote_nodes data) = Some c"
    using relay.first_exists [OF ra, of "candidate data name" ?P data] name unfolding remote_nodes_eq by auto
  obtain d where d: "find ?P (relay_candidates data) = Some d"
    using relay.first_exists [OF rb, of "candidate data name" ?P data] name assms(2) unfolding relay_candidates_eq by auto
  from first_is_best [OF assms(1) subset_refl usable_endpoint c [unfolded remote_nodes_eq]] obtain relay
    where r: "c = candidate data relay" "best_relay data relay" by blast
  from first_is_best [OF assms(1) _ _ d [unfolded relay_candidates_eq]] usable_endpoint obtain relay'
    where "d = candidate data relay'" "best_relay data relay'" by auto
  with best_relay_unique [OF assms(1)] r have d': "d = candidate data relay" by blast
  have "set (relay_candidates data) = set ?us" unfolding relay_candidates_eq using relay.sort_by_sorted(3) [OF rb] .
  then have "list_all ?P (relay_candidates data)" by (auto simp: list_all_iff usable_def candidate_def)
  with d d' have "\<exists>rest. relay_candidates data = candidate data relay # rest" by (auto simp: find_all split: list.splits)
  with that r c show thesis by blast
qed

section \<open>The relay in the renders\<close>

lemma local_peers_relayed: "p \<in> set (local_peers data apis True ns) \<Longrightarrow> p_transit p = [] \<and> p_transitHosts p = []"
  by (induction ns) (auto simp: local_peer_def local_lists_def split: if_splits)

lemma local_peers_first:
  assumes "find (\<lambda>n. published data (fst n)) ns = Some n"
  obtains rest where "local_peers data apis False ns = local_peer data n (relay_share data apis (local_lists data n)) # rest"
    and "\<forall>p \<in> set rest. p_transit p = [] \<and> p_transitHosts p = []"
proof -
  have "\<exists>rest. local_peers data apis False ns = local_peer data n (relay_share data apis (local_lists data n)) # rest \<and>
      (\<forall>p \<in> set rest. p_transit p = [] \<and> p_transitHosts p = [])"
    using assms by (induction ns) (auto dest: local_peers_relayed split: if_splits)
  with that show thesis by blast
qed

lemma native_transit: "projectNativeNetwork env data a b p = Inr q \<Longrightarrow> p_transit q = p_transit p \<and> p_transitHosts q = p_transitHosts p"
  unfolding projectNativeNetwork_def res_case_Inr by (auto split: if_splits)

lemma add_remote_Inr:
  "add_remote env data self selfName acc name = Inr a \<Longrightarrow>
     a = acc \<or> (\<exists>peer. projectNativeNetwork env data selfName name (machine_peer data name) = Inr peer \<and> a = acc @ [peer])"
  by (simp add: add_remote_def split: if_splits sum.splits)

lemma remotes_no_transit:
  assumes "res_fold (add_remote env data self selfName) acc names = Inr remotes" and "\<forall>p \<in> set acc. p_transit p = [] \<and> p_transitHosts p = []"
  shows "\<forall>p \<in> set remotes. p_transit p = [] \<and> p_transitHosts p = []"
  using assms
proof (induction names arbitrary: acc)
  case (Cons name names)
  from Cons.prems(1) obtain a where a: "add_remote env data self selfName acc name = Inr a" "res_fold (add_remote env data self selfName) a names = Inr remotes"
    by (auto split: sum.splits)
  have "\<forall>p \<in> set a. p_transit p = [] \<and> p_transitHosts p = []"
  proof (cases "a = acc")
    case True
    with Cons.prems(2) show ?thesis by simp
  next
    case False
    with add_remote_Inr [OF a(1)] obtain peer
      where peer: "projectNativeNetwork env data selfName name (machine_peer data name) = Inr peer" "a = acc @ [peer]" by blast
    with native_transit [OF peer(1)] Cons.prems(2) show ?thesis by (simp add: machine_peer_def)
  qed
  with Cons.IH [OF a(2)] show ?case by blast
qed simp

lemma RemotePeers_relay:
  assumes "RemotePeers env data self apis = Inr ps" and "field data GatewayProjectionsKey = []"
    and "find (\<lambda>n. published data (fst n)) (remote_nodes data) = Some n"
  shows "\<exists>rest. ps = local_peer data n (relay_share data apis (local_lists data n)) # rest \<and>
     (\<forall>p \<in> set rest. p_transit p = [] \<and> p_transitHosts p = [])"
proof -
  obtain rest where rest: "local_peers data apis False (remote_nodes data) = local_peer data n (relay_share data apis (local_lists data n)) # rest"
    "\<forall>p \<in> set rest. p_transit p = [] \<and> p_transitHosts p = []" by (rule local_peers_first [OF assms(3)])
  with assms(1,2) obtain selfName remotes where
      r: "res_fold (add_remote env data self selfName) [] (names_under PeerPublicKeyPrefix data) = Inr remotes"
    and ps: "ps = local_peer data n (relay_share data apis (local_lists data n)) # rest @ sort_by keyLess remotes"
    by (auto simp: RemotePeers_def Let_def ProjectGateways_def split: sum.splits)
  have "set (sort_by keyLess remotes) = set remotes" by (rule by_key.sort_by_sorted(3)) (simp add: list_all_iff)
  with remotes_no_transit [OF r] rest(2) ps show ?thesis by auto
qed

lemma candidates_usable:
  assumes "addresses_ok data" and "c \<in> set (relay_candidates data)"
  shows "usable data (fst c)"
proof -
  have "list_all (\<lambda>c. ParseIP (snd c) \<noteq> None) (map (candidate data) (filter (usable data) (endpoint_names data)))" using ranked_nodes [OF assms(1)] by simp
  from relay.sort_by_sorted(3) [OF this] assms(2) show ?thesis by (auto simp: relay_candidates_eq candidate_def)
qed

text \<open>The site render uses the best relay when it is ready, and when no endpoint is.\<close>

lemma SiteTransit_relay:
  assumes "addresses_ok data" and "\<exists>rest. relay_candidates data = candidate data relay # rest"
    and "relay \<notin> set notReady \<or> (\<forall>n. usable data n \<longrightarrow> n \<in> set notReady)"
  shows "SiteTransit env data notReady =
     (case site_peers env data False of Inl e \<Rightarrow> Inl e | Inr peers \<Rightarrow> Inr (siteTransitThrough data relay peers))"
proof -
  from assms(2) obtain rest where rest: "relay_candidates data = candidate data relay # rest" by blast
  have "elect notReady (relay_candidates data) = Some relay"
  proof (cases "relay \<in> set notReady")
    case True
    with assms(3) candidates_usable [OF assms(1)] have "find (\<lambda>n. fst n \<notin> set notReady) (relay_candidates data) = None"
      by (auto simp: find_None_iff)
    then show ?thesis by (simp add: elect_def rest candidate_def)
  next
    case False
    then show ?thesis by (simp add: elect_def rest candidate_def)
  qed
  then show ?thesis by (simp add: SiteTransit_def)
qed

section \<open>Pinning\<close>

declare TrimSpace_idem [simp]

text \<open>An endpoint that holds the pinned key is elected, unless it departed and another did not.\<close>

lemma pinned_elected:
  assumes "addresses_ok data" and "best_relay data relay" and "usable data n"
    and "trimmed data (NodePublicKeyPrefix @ n) = trimmed data RelayPublicKeyKey"
    and "field data (NodeDepartedAtPrefix @ n) = [] \<or> field data (NodeDepartedAtPrefix @ relay) \<noteq> []"
  shows "trimmed data (NodePublicKeyPrefix @ relay) = trimmed data RelayPublicKeyKey"
proof (cases "n = relay")
  case False
  have "trimmed data RelayPublicKeyKey \<noteq> []" using assms(3,4) by (simp add: usable_def published_def)
  moreover have "relayLess data relay (tunnel_address data relay) n (tunnel_address data n)"
    using assms(2,3) False by (simp add: best_relay_def)
  ultimately show ?thesis using assms(4,5) by (auto simp: relayLess_def Let_def split: if_splits)
qed (use assms in simp)

text \<open>Writing another key leaves the endpoints of a mesh alone.\<close>

definition same_endpoints :: "mesh \<Rightarrow> mesh \<Rightarrow> bool" where
  "same_endpoints data data' =
     (names_under NodePublicKeyPrefix data' = names_under NodePublicKeyPrefix data \<and> (\<forall>k. k \<noteq> RelayPublicKeyKey \<longrightarrow> field data' k = field data k))"

lemma relay_key_apart: "p @ n \<noteq> RelayPublicKeyKey"
  if "p \<in> {NodePublicKeyPrefix, NodeTunnelAddressPrefix, NodeDepartedAtPrefix}"
  using that by (auto simp: NodePublicKeyPrefix_def NodeTunnelAddressPrefix_def NodeDepartedAtPrefix_def RelayPublicKeyKey_def)

lemma same_endpoints_keep:
  assumes "same_endpoints data data'"
  shows "trimmed data' (NodePublicKeyPrefix @ n) = trimmed data (NodePublicKeyPrefix @ n)" and "usable data' n = usable data n"
    and "field data' (NodeDepartedAtPrefix @ n) = field data (NodeDepartedAtPrefix @ n)"
    and "tunnel_address data' n = tunnel_address data n" and "addresses_ok data' = addresses_ok data"
    and "endpoint_names data' = endpoint_names data"
proof -
  have f: "field data' (p @ m) = field data (p @ m)" if "p \<in> {NodePublicKeyPrefix, NodeTunnelAddressPrefix, NodeDepartedAtPrefix}" for p m
    using assms relay_key_apart [OF that] by (simp add: same_endpoints_def)
  show t: "trimmed data' (NodePublicKeyPrefix @ n) = trimmed data (NodePublicKeyPrefix @ n)"
    and "field data' (NodeDepartedAtPrefix @ n) = field data (NodeDepartedAtPrefix @ n)" for n
    using f by (simp_all add: trimmed_def)
  have a: "trimmed data' (NodeTunnelAddressPrefix @ m) = trimmed data (NodeTunnelAddressPrefix @ m)" for m using f by (simp add: trimmed_def)
  then show addr: "tunnel_address data' n = tunnel_address data n" for n by (simp add: tunnel_address_def)
  have al: "allocated data' = allocated data" using a by (simp add: allocated_def fun_eq_iff)
  then show "usable data' n = usable data n" using t by (simp add: usable_def published_def)
  show ep: "endpoint_names data' = endpoint_names data"
    using assms al by (simp add: endpoint_names_def same_endpoints_def)
  show "addresses_ok data' = addresses_ok data" unfolding addresses_ok_def ep addr ..
qed

lemma same_endpoints_write: "same_endpoints data (AList.update RelayPublicKeyKey key data)" "same_endpoints data (AList.delete RelayPublicKeyKey data)"
proof -
  have no: "\<not> prefix NodePublicKeyPrefix RelayPublicKeyKey" by (simp add: NodePublicKeyPrefix_def RelayPublicKeyKey_def)
  have "filter (prefix NodePublicKeyPrefix) (map fst (AList.update RelayPublicKeyKey key data)) = filter (prefix NodePublicKeyPrefix) (map fst data)"
    using no by (induction data) auto
  moreover have "filter (prefix NodePublicKeyPrefix) (map fst (AList.delete RelayPublicKeyKey data)) = filter (prefix NodePublicKeyPrefix) (map fst data)"
    using no by (induction data) auto
  ultimately show "same_endpoints data (AList.update RelayPublicKeyKey key data)" "same_endpoints data (AList.delete RelayPublicKeyKey data)"
    by (auto simp: same_endpoints_def names_under_def field_def update_conv' delete_conv')
qed

lemma relay_candidates_cases:
  assumes "addresses_ok data"
  obtains (none) "relay_candidates data = []" and "\<And>n. \<not> usable data n"
    | (some) relay rest where "relay_candidates data = candidate data relay # rest" and "best_relay data relay"
proof (cases "\<exists>n. usable data n")
  case True
  with both_find_best [OF assms] some show thesis by metis
next
  case False
  then have "relay_candidates data = []" by (simp add: relay_candidates_eq sort_by_def)
  with none False show thesis by blast
qed

lemma PinRelay_fixpoint:
  assumes "addresses_ok data" and "usable data n" and "trimmed data (NodePublicKeyPrefix @ n) = field data RelayPublicKeyKey"
    and "\<And>m. usable data m \<Longrightarrow> field data (NodeDepartedAtPrefix @ m) = [] \<Longrightarrow> field data (NodeDepartedAtPrefix @ n) = []"
  shows "PinRelay data = (data, False)"
  using assms(1)
proof (cases rule: relay_candidates_cases)
  case none
  with assms(2) show ?thesis by blast
next
  case (some relay rest)
  have pin: "trimmed data RelayPublicKeyKey = field data RelayPublicKeyKey"
    using assms(3) [symmetric] by (simp add: trimmed_def)
  have "field data (NodeDepartedAtPrefix @ n) = [] \<or> field data (NodeDepartedAtPrefix @ relay) \<noteq> []"
    using assms(4) [of relay] some(2) by (auto simp: best_relay_def)
  then have "trimmed data (NodePublicKeyPrefix @ relay) = field data RelayPublicKeyKey"
    using pinned_elected [OF assms(1) some(2) assms(2)] assms(3) pin by simp
  with some(1) show ?thesis by (simp add: PinRelay_def candidate_def)
qed

lemma best_departed_last:
  assumes "best_relay data relay" and "usable data m" and "field data (NodeDepartedAtPrefix @ m) = []"
  shows "field data (NodeDepartedAtPrefix @ relay) = []"
proof (cases "m = relay")
  case False
  have "relayLess data relay (tunnel_address data relay) m (tunnel_address data m)" using assms(1,2) False unfolding best_relay_def by blast
  with assms(3) show ?thesis by (auto simp: relayLess_def Let_def split: if_splits)
qed (use assms in simp)

section \<open>Withdrawal\<close>

lemma map_of_deletes: "map_of (fold AList.delete ks m) = (map_of m) |` (- set ks)"
  by (induction ks arbitrary: m) (auto simp: delete_conv' restrict_map_def fun_eq_iff)

lemma deletes_absent: "(\<And>k. k \<in> set ks \<Longrightarrow> map_of m k = None) \<Longrightarrow> fold AList.delete ks m = m"
proof (induction ks)
  case (Cons k ks)
  then have "k \<notin> fst ` set m" by (simp add: map_of_None_fst)
  then have "AList.delete k m = m" by (induction m) auto
  with Cons show ?case by simp
qed simp

lemma names_deletes: "map fst (fold AList.delete ks m) = filter (\<lambda>k. k \<notin> set ks) (map fst m)"
proof (induction ks arbitrary: m)
  case (Cons k ks)
  have "map fst (AList.delete k m) = filter (\<lambda>x. x \<noteq> k) (map fst m)" by (induction m) auto
  with Cons show ?case by (simp add: conj_commute)
qed simp

lemmas peer_prefix_defs = PeerPublicKeyPrefix_def PeerEndpointPrefix_def PeerAllowedIPsPrefix_def PeerRouteHostsPrefix_def
  PeerRouteHostPrefix_def PeerNativeNetworkPrefix_def

lemma withdrawn_own:
  "p @ other \<in> set (withdrawn_keys name) \<longleftrightarrow> other = name"
  if "p \<in> {PeerPublicKeyPrefix, PeerEndpointPrefix, PeerAllowedIPsPrefix, PeerRouteHostsPrefix, PeerRouteHostPrefix, PeerNativeNetworkPrefix}"
  using that by (auto simp: withdrawn_keys_def peer_prefix_defs)

lemma machine_peer_cong:
  assumes "\<And>p. p \<in> {PeerPublicKeyPrefix, PeerEndpointPrefix, PeerAllowedIPsPrefix, PeerRouteHostsPrefix, PeerRouteHostPrefix} \<Longrightarrow>
    map_of out (p @ other) = map_of data (p @ other)"
  shows "machine_peer out other = machine_peer data other"
proof -
  note eqs = assms [of PeerPublicKeyPrefix, simplified] assms [of PeerEndpointPrefix, simplified] assms [of PeerAllowedIPsPrefix, simplified]
    assms [of PeerRouteHostsPrefix, simplified] assms [of PeerRouteHostPrefix, simplified]
  show ?thesis unfolding machine_peer_def trimmed_def listed_def field_def published_endpoint_def published_hosts_def eqs ..
qed

lemma names_under_withdrawn:
  "names_under PeerPublicKeyPrefix (fold AList.delete (withdrawn_keys name) data) =
    filter (\<lambda>m. m \<noteq> name) (names_under PeerPublicKeyPrefix data)"
proof -
  have own: "k \<in> set (withdrawn_keys name) \<longleftrightarrow> drop (length PeerPublicKeyPrefix) k = name" if pre: "prefix PeerPublicKeyPrefix k" for k
  proof -
    from pre obtain r where "k = PeerPublicKeyPrefix @ r" unfolding prefix_def by blast
    then show ?thesis using withdrawn_own [of PeerPublicKeyPrefix r name] by simp
  qed
  then have "filter (\<lambda>x. prefix PeerPublicKeyPrefix (fst x) \<and> fst x \<notin> set (withdrawn_keys name)) data =
      filter (\<lambda>x. prefix PeerPublicKeyPrefix (fst x) \<and> drop (length PeerPublicKeyPrefix) (fst x) \<noteq> name) data"
    by (intro filter_cong) auto
  then show ?thesis unfolding names_under_def names_deletes by (simp add: filter_map comp_def conj_commute)
qed

section \<open>IPv6 pairing\<close>

lemma pair_address_low: "ucast (As16 (pf_addr (pair_address p w))) = w"
  by (rule bit_word_eqI) (auto simp: pair_address_def PrefixFrom_def bit_simps)

lemma pair_address_contains:
  assumes "IsValid p" and "pf_addr p = V6 a []" and "pf_bits p \<le> 96"
  shows "Contains p (pf_addr (pair_address p w))" and "pf_bits (pair_address p w) = pf_bits p"
proof -
  let ?n = "nat (pf_bits p)"
  have n: "32 \<le> 128 - ?n" using assms(3) by simp
  have "bit (push_bit (128 - ?n) (drop_bit (128 - ?n) (push_bit 32 (drop_bit 32 (push_bit (128 - ?n) (drop_bit (128 - ?n) a))) OR ucast w))) i \<longleftrightarrow>
      bit (push_bit (128 - ?n) (drop_bit (128 - ?n) a)) i" for i
    using n by (auto simp: bit_keep_high bit_or_iff bit_ucast_iff dest: bit_imp_le_length)
  then have "push_bit (128 - ?n) (drop_bit (128 - ?n) (push_bit 32 (drop_bit 32 (push_bit (128 - ?n) (drop_bit (128 - ?n) a))) OR ucast w)) =
      push_bit (128 - ?n) (drop_bit (128 - ?n) a)" by (rule bit_eqI)
  with assms show "Contains p (pf_addr (pair_address p w))" and "pf_bits (pair_address p w) = pf_bits p"
    by (simp_all add: Contains_def pair_address_def PrefixFrom_def Masked_def IsValid_def)
qed

lemma pair_address_inj: "pair_address p v = pair_address p w \<Longrightarrow> v = w"
  by (metis pair_address_low)

end
