(* ===== verification/Site_Paths.thy ===== *)
theory Site_Paths
  imports Mesh
begin

text \<open>
  Planning the path of a site (\<open>controller/pkg/tunnel/receive_site_legacy.go\<close>, \<open>receive_follower.go\<close>,
  \<open>receive_site_tunnel.go\<close>, \<open>receive_local_network.go\<close>): the sources, the owner that carries them in a
  generation, the relay in front of it and the tunnel exceptions, from the mesh Secret.
\<close>

section \<open>Sources\<close>

definition ReceiveSiteRouteSources :: "mesh \<Rightarrow> string \<Rightarrow> string list" where
  "ReceiveSiteRouteSources data node = SplitList [field data (NodeAddressesPrefix @ node), field data (SiteAddressesPrefix @ node)]"

definition site_sources :: "mesh \<Rightarrow> string \<Rightarrow> string list" where
  "site_sources data node =
     sort (remdups
       (map HostCIDR (listed data (NodeAddressesPrefix @ node) @ listed data (SiteAddressesPrefix @ node)) @
        listed data (NodePodCIDRsPrefix @ node) @ listed data (SitePodCIDRsPrefix @ node)))"

definition site_allocations :: "mesh \<Rightarrow> string \<Rightarrow> string list" where
  "site_allocations data node =
     filter (\<lambda>raw. raw \<noteq> []) [trimmed data (NodeTunnelAddressPrefix @ node), trimmed data (NodeTunnelAddress6Prefix @ node)]"

definition ValidateReceiveSiteTunnelAllocation :: "site_tunnel \<Rightarrow> mesh \<Rightarrow> string \<Rightarrow> unit res" where
  "ValidateReceiveSiteTunnelAllocation path data node =
     (let parsed = map ParsePrefix (site_allocations data node) in
      if None \<in> set parsed then Inl (Error ''invalid tunnel allocation'')
      else
        (let actual = sort (map (show_prefix \<circ> the) parsed) in
         if actual = [] \<or> actual \<noteq> st_addresses path then Inl (Error ''site tunnel allocation changed after journal creation'')
         else Inr ()))"

section \<open>Paths\<close>

fun relay_of :: "mesh \<Rightarrow> string \<Rightarrow> string \<Rightarrow> string list \<Rightarrow> string res" where
  "relay_of data owner relay [] = Inr relay"
| "relay_of data owner relay (name # names) =
     (if trimmed data (NodePublicKeyPrefix @ name) = owner
        then (if relay \<noteq> [] then Inl (Error ''relay identity ambiguous'') else relay_of data owner name names)
      else relay_of data owner relay names)"

definition path_identity :: "mesh \<Rightarrow> string \<Rightarrow> string \<Rightarrow> peer_spec \<Rightarrow> bool \<Rightarrow> unit res" where
  "path_identity data node public cloud follower =
     (if \<not> validReceivePublicKey (p_publicKey cloud) then Inl (Error ''cloud identity differs'')
      else if node = [] then Inl (Error ''site identity differs'')
      else if follower
        then (if list_ex (\<lambda>p. field data (p @ node) \<noteq> []) [NodePublicKeyPrefix, NodeTunnelAddressPrefix, NodeTunnelAddress6Prefix]
                then Inl (Error ''follower has published endpoint ownership'') else Inr ())
      else if \<not> validReceivePublicKey public \<or> trimmed data (NodePublicKeyPrefix @ node) \<noteq> public
        then Inl (Error ''site identity differs'')
      else Inr ())"

definition path_transit :: "mesh \<Rightarrow> string \<Rightarrow> string \<Rightarrow> peer_spec \<Rightarrow> transit_spec option res" where
  "path_transit data public owner cloud =
     (if owner = public then Inr None
      else
        (case relay_of data owner [] (names_under NodePublicKeyPrefix data) of
           Inl e \<Rightarrow> Inl e
         | Inr relay \<Rightarrow>
             if relay = [] then Inl (Error ''legacy relay identity missing'')
             else
               (case siteTransitThrough data relay [cloud] of
                  None \<Rightarrow> Inl (Error ''legacy relay has no next hop'')
                | Some t \<Rightarrow> Inr (Some t))))"

definition path_tunnel :: "mesh \<Rightarrow> string \<Rightarrow> string \<Rightarrow> peer_list_doc \<Rightarrow> peer_spec \<Rightarrow> bool \<Rightarrow> bool \<Rightarrow> site_tunnel option res" where
  "path_tunnel data node public base cloud relayed follower =
     (if follower then Inr None
      else
        (case planReceiveSiteTunnel (site_allocations data node) public base cloud relayed of
           Inl e \<Rightarrow> Inl e
         | Inr t \<Rightarrow> Inr (Some t)))"

definition path_result ::
  "mesh \<Rightarrow> string \<Rightarrow> string \<Rightarrow> peer_list_doc \<Rightarrow> peer_spec \<Rightarrow> bool \<Rightarrow> site_path res" where
  "path_result data node public base cloud follower =
     (case path_identity data node public cloud follower of
        Inl e \<Rightarrow> Inl e
      | Inr _ \<Rightarrow>
          (case receiveLegacySourceOwner base (site_sources data node) of
             Inl e \<Rightarrow> Inl e
           | Inr owner \<Rightarrow>
               (case path_transit data public (p_publicKey owner) cloud of
                  Inl e \<Rightarrow> Inl e
                | Inr transit \<Rightarrow>
                    (case path_tunnel data node public base cloud (transit \<noteq> None) follower of
                       Inl e \<Rightarrow> Inl e
                     | Inr tunnel \<Rightarrow>
                         (let result = \<lparr>sp_sources = site_sources data node, sp_peerPublicKey = p_publicKey owner,
                                        sp_transit = transit, sp_tunnel = tunnel\<rparr> in
                          case ValidateReceiveSiteLegacy result public base cloud of
                            Inl e \<Rightarrow> Inl e
                          | Inr _ \<Rightarrow> Inr result)))))"

definition planReceiveSitePathForPeer ::
  "mesh \<Rightarrow> string \<Rightarrow> string \<Rightarrow> peer_list_doc \<Rightarrow> peer_spec \<Rightarrow> bool \<Rightarrow> site_path res" where
  "planReceiveSitePathForPeer data node public base cloud follower =
     (case path_result data node public base cloud follower of
        Inl e \<Rightarrow> Inl (wrap ''legacy site path: '' e)
      | Inr path \<Rightarrow> Inr path)"

definition PlanReceiveSitePathForPeer :: "mesh \<Rightarrow> string \<Rightarrow> string \<Rightarrow> peer_list_doc \<Rightarrow> peer_spec \<Rightarrow> site_path res" where
  "PlanReceiveSitePathForPeer data node public base cloud = planReceiveSitePathForPeer data node public base cloud False"

definition PlanReceiveFollowerPath :: "mesh \<Rightarrow> string \<Rightarrow> peer_list_doc \<Rightarrow> peer_spec \<Rightarrow> site_path res" where
  "PlanReceiveFollowerPath data node base cloud = planReceiveSitePathForPeer data node [] base cloud True"

definition PlanReceiveSitePath :: "'a mesh_env_scheme \<Rightarrow> mesh \<Rightarrow> string \<Rightarrow> string \<Rightarrow> string \<Rightarrow> peer_list_doc \<Rightarrow> site_path res" where
  "PlanReceiveSitePath env data node public cloud base =
     (case SitePeers env data of
        Inl e \<Rightarrow> Inl e
      | Inr peers \<Rightarrow>
          (case filter (\<lambda>p. p_publicKey p = cloud) peers of
             [worker] \<Rightarrow> PlanReceiveSitePathForPeer data node public base worker
           | _ \<Rightarrow> Inl (Error ''site path cloud destination identity missing or ambiguous'')))"

definition PlanReceiveSiteLegacy :: "'a mesh_env_scheme \<Rightarrow> mesh \<Rightarrow> string \<Rightarrow> string \<Rightarrow> string \<Rightarrow> peer_list_doc \<Rightarrow> site_path res" where
  "PlanReceiveSiteLegacy env data node public cloud base = PlanReceiveSitePath env data node public cloud base"

section \<open>Followers of a journal\<close>

text \<open>
  The base document is decoded into the variable that holds the desired one. Go decodes into what is there: a
  field the base omits keeps the value of the desired document, also within the peer of the same index. The decoder
  \<open>json_peer_list_into\<close> therefore takes the value it overwrites.
\<close>

definition PlanReceiveJournalFollowerPath ::
  "'a mesh_env_scheme \<Rightarrow> mesh \<Rightarrow> string \<Rightarrow> snapshot \<Rightarrow> string \<Rightarrow> site_path res" where
  "PlanReceiveJournalFollowerPath env data node sn cluster =
     (case DecodeReceiveTransition env sn cluster of
        Inl e \<Rightarrow> Inl e
      | Inr plan \<Rightarrow>
          (case snapshot_View env sn of
             Inl e \<Rightarrow> Inl e
           | Inr v \<Rightarrow>
               (case SelectedReceiveTransport env plan v of
                  Inl e \<Rightarrow> Inl e
                | Inr (selected, root) \<Rightarrow>
                    (let p = plan_fields selected in
                     case (if root then json_peer_list_into env (pn_desired p) (pn_base p) else Some (pn_desired p)) of
                       None \<Rightarrow> Inl (Error ''invalid base document'')
                     | Some sources \<Rightarrow>
                         (let destinations = (if root then PreviousSitePeers p else pn_siteDesired p) in
                          case filter (\<lambda>q. p_publicKey q = pn_rootPublicKey (plan_fields plan)) (doc_peers destinations) of
                            [] \<Rightarrow> Inl (Error ''follower destination identity missing'')
                          | [cloud] \<Rightarrow> PlanReceiveFollowerPath data node sources cloud
                          | _ \<Rightarrow> Inl (Error ''follower destination identity is ambiguous''))))))"

section \<open>Owners of sources\<close>

text \<open>
  A source is carried by \<open>ow\<close> in a generation: every permission parses, those that overlap it belong to site
  peers with that key (or with none), and one of them covers it.
\<close>

definition overlaps_own :: "ip_prefix \<Rightarrow> string \<Rightarrow> peer_spec \<Rightarrow> string \<Rightarrow> bool" where
  "overlaps_own source ow peer raw =
     (case ParsePrefix raw of None \<Rightarrow> False | Some p \<Rightarrow> Overlaps p source \<longrightarrow> \<not> p_remote peer \<and> p_publicKey peer \<in> {ow, []})"

definition covers_source :: "ip_prefix \<Rightarrow> string \<Rightarrow> bool" where
  "covers_source source raw = (case ParsePrefix raw of None \<Rightarrow> False | Some p \<Rightarrow> Overlaps p source \<and> pf_bits p \<le> pf_bits source)"

definition carried_by :: "peer_spec list \<Rightarrow> ip_prefix \<Rightarrow> string \<Rightarrow> bool" where
  "carried_by peers source ow =
     (ow \<noteq> [] \<and> list_all (\<lambda>peer. list_all (overlaps_own source ow peer) (p_wgAllowedIPs peer)) peers \<and>
      list_ex (\<lambda>peer. list_ex (covers_source source) (p_wgAllowedIPs peer)) peers)"

definition okey :: "peer_spec option \<Rightarrow> string" where
  "okey r = (case r of None \<Rightarrow> [] | Some q \<Rightarrow> p_publicKey q)"

lemma okey_simps [simp]: "okey None = []" "okey (Some q) = p_publicKey q" by (simp_all add: okey_def)

text \<open>What the loops keep: an owner once found stays, and is the key of the result.\<close>

definition owner_step :: "string \<times> bool \<times> peer_spec option \<Rightarrow> string \<times> bool \<times> peer_spec option \<Rightarrow> bool" where
  "owner_step s t =
     (case (s, t) of ((ow, _, r), (ow', _, r')) \<Rightarrow>
        (ow \<noteq> [] \<longrightarrow> ow' = ow) \<and> (okey r \<noteq> [] \<longrightarrow> okey r' = okey r) \<and> ((ow \<noteq> [] \<longrightarrow> okey r = ow) \<longrightarrow> ow' \<noteq> [] \<longrightarrow> okey r' = ow'))"

lemma owner_step_refl: "owner_step s s" by (auto simp: owner_step_def)

lemma owner_step_trans: "owner_step s t \<Longrightarrow> owner_step t u \<Longrightarrow> owner_step s u"
  by (cases s; cases t; cases u) (simp add: owner_step_def)

lemma owner_prefixes_Cons:
  assumes "owner_prefixes source peer (raw # raws) (ow, cov, r) = Inr t"
  obtains p ow1 cov1 r1 where "ParsePrefix raw = Some p" and "owner_prefixes source peer raws (ow1, cov1, r1) = Inr t"
    and "owner_step (ow, cov, r) (ow1, cov1, r1)"
    and "if Overlaps p source then \<not> p_remote peer \<and> ow1 = p_publicKey peer \<and> cov1 = (cov \<or> pf_bits p \<le> pf_bits source)
      else (ow1, cov1, r1) = (ow, cov, r)"
proof (cases "ParsePrefix raw")
  case None
  with assms show ?thesis by simp
next
  case (Some p)
  show ?thesis
  proof (cases "Overlaps p source")
    case False
    with assms Some that [OF Some, of ow cov r] owner_step_refl show ?thesis by simp
  next
    case True
    with assms Some have g: "\<not> p_remote peer" "ow = [] \<or> ow = p_publicKey peer" "okey r = [] \<or> okey r = p_publicKey peer"
      and rest: "owner_prefixes source peer raws (p_publicKey peer, cov \<or> pf_bits p \<le> pf_bits source, Some peer) = Inr t"
      by (auto split: if_splits option.splits)
    from that [OF Some rest] g True show ?thesis by (auto simp: owner_step_def)
  qed
qed

lemma owner_prefixes_spec:
  assumes "owner_prefixes source peer raws (ow, cov, r) = Inr (ow', cov', r')"
  shows "owner_step (ow, cov, r) (ow', cov', r') \<and> list_all (overlaps_own source ow' peer) raws \<and>
    (cov' \<longrightarrow> cov \<or> list_ex (covers_source source) raws)"
  using assms
proof (induction raws arbitrary: ow cov r)
  case Nil
  then show ?case by (simp add: owner_step_refl)
next
  case (Cons raw raws)
  from Cons.prems show ?case
  proof (rule owner_prefixes_Cons)
    fix p ow1 cov1 r1
    assume p: "ParsePrefix raw = Some p" and rest: "owner_prefixes source peer raws (ow1, cov1, r1) = Inr (ow', cov', r')"
      and st: "owner_step (ow, cov, r) (ow1, cov1, r1)"
      and ov: "if Overlaps p source then \<not> p_remote peer \<and> ow1 = p_publicKey peer \<and> cov1 = (cov \<or> pf_bits p \<le> pf_bits source)
        else (ow1, cov1, r1) = (ow, cov, r)"
    note ih = Cons.IH [OF rest]
    have st': "owner_step (ow, cov, r) (ow', cov', r')" using st ih by (blast intro: owner_step_trans)
    have "ow1 \<noteq> [] \<Longrightarrow> ow' = ow1" using ih by (simp add: owner_step_def)
    then have "overlaps_own source ow' peer raw" using ov p by (auto simp: overlaps_own_def split: if_splits)
    moreover have "cov1 \<longrightarrow> cov \<or> covers_source source raw" using ov p by (auto simp: covers_source_def split: if_splits)
    ultimately show ?thesis using st' ih by auto
  qed
qed

lemma owner_peers_spec:
  assumes "owner_peers source peers (ow, cov, r) = Inr (ow', cov', r')"
  shows "owner_step (ow, cov, r) (ow', cov', r') \<and>
    list_all (\<lambda>peer. list_all (overlaps_own source ow' peer) (p_wgAllowedIPs peer)) peers \<and>
    (cov' \<longrightarrow> cov \<or> list_ex (\<lambda>peer. list_ex (covers_source source) (p_wgAllowedIPs peer)) peers)"
  using assms
proof (induction peers arbitrary: ow cov r)
  case Nil
  then show ?case by (simp add: owner_step_refl)
next
  case (Cons peer peers)
  from Cons.prems obtain ow1 cov1 r1 where one: "owner_prefixes source peer (p_wgAllowedIPs peer) (ow, cov, r) = Inr (ow1, cov1, r1)"
    and rest: "owner_peers source peers (ow1, cov1, r1) = Inr (ow', cov', r')" by (auto split: sum.splits)
  note h = owner_prefixes_spec [OF one] and ih = Cons.IH [OF rest]
  have "overlaps_own source ow' peer raw" if "overlaps_own source ow1 peer raw" for raw
    using that ih by (cases "ow1 = []") (auto simp: overlaps_own_def owner_step_def split: option.splits)
  then have "list_all (overlaps_own source ow' peer) (p_wgAllowedIPs peer)" using h by (auto simp: list_all_iff)
  with h ih show ?case by (auto intro: owner_step_trans)
qed

lemma owner_sources_spec:
  assumes "owner_sources peers raws seen r = Inr r'"
  shows "(okey r \<noteq> [] \<longrightarrow> okey r' = okey r) \<and>
    list_all (\<lambda>raw. case ParsePrefix raw of None \<Rightarrow> False | Some s \<Rightarrow> source_ok s \<and> carried_by peers s (okey r')) raws"
  using assms
proof (induction raws arbitrary: seen r)
  case (Cons raw raws)
  then obtain s ow cov r1 where s: "ParsePrefix raw = Some s" "source_ok s"
    and one: "owner_peers s peers ([], False, r) = Inr (ow, cov, r1)" and ok: "ow \<noteq> []" cov
    and rest: "owner_sources peers raws (raw # seen) r1 = Inr r'"
    by (auto split: option.splits if_splits sum.splits)
  note h = owner_peers_spec [OF one] and ih = Cons.IH [OF rest]
  have k: "okey r1 = ow" using h ok by (simp add: owner_step_def)
  then have k': "okey r' = ow" using ih ok by simp
  have "carried_by peers s ow" unfolding carried_by_def using h ok by blast
  moreover have "okey r \<noteq> [] \<longrightarrow> okey r1 = okey r" using h by (simp add: owner_step_def)
  ultimately show ?case using ih s k k' by auto
qed simp

lemma source_owner_carries:
  assumes "receiveLegacySourceOwner base sources = Inr owner"
  shows "sources \<noteq> [] \<and>
    list_all (\<lambda>raw. case ParsePrefix raw of None \<Rightarrow> False | Some s \<Rightarrow> source_ok s \<and> carried_by (doc_peers base) s (p_publicKey owner)) sources"
proof -
  from assms have ne: "sources \<noteq> []" and o: "owner_sources (doc_peers base) sources [] None = Inr (Some owner)"
    by (auto simp: receiveLegacySourceOwner_def split: if_splits sum.splits option.splits)
  show ?thesis using owner_sources_spec [OF o] ne unfolding okey_simps by blast
qed

section \<open>Tunnel allocations\<close>

lemma tunnel_addresses_spec:
  "tunnel_addresses raws subnets out = Inr (subnets', out') \<Longrightarrow>
    None \<notin> set (map ParsePrefix raws) \<and> out' = out @ map (show_prefix \<circ> the \<circ> ParsePrefix) raws"
proof (induction raws arbitrary: subnets out)
  case (Cons raw raws)
  then obtain p where p: "ParsePrefix raw = Some p"
    and rest: "tunnel_addresses raws ((Is4 (pf_addr p), p) # subnets) (out @ [show_prefix p]) = Inr (subnets', out')"
    by (auto split: option.splits if_splits)
  from Cons.IH [OF rest] p show ?case by simp
qed simp

lemma planned_allocation:
  assumes "planReceiveSiteTunnel (site_allocations data node) public base cloud relayed = Inr t"
  shows "ValidateReceiveSiteTunnelAllocation t data node = Inr ()"
proof -
  from assms obtain subnets out where ne: "site_allocations data node \<noteq> []"
    and t: "tunnel_addresses (site_allocations data node) [] [] = Inr (subnets, out)" and a: "st_addresses t = sort out"
    by (auto simp: planReceiveSiteTunnel_def split: if_splits sum.splits)
  from tunnel_addresses_spec [OF t] ne have "sort out \<noteq> []" by (metis append_Nil map_is_Nil_conv sort_key_simps(1) set_sort set_empty)
  with tunnel_addresses_spec [OF t] a show ?thesis by (simp add: ValidateReceiveSiteTunnelAllocation_def comp_assoc)
qed

lemma path_tunnel_validates:
  assumes "path_tunnel data node public base cloud relayed follower = Inr tunnel"
  shows "case tunnel of None \<Rightarrow> follower | Some t \<Rightarrow> \<not> follower \<and> ValidateReceiveSiteTunnelAllocation t data node = Inr ()"
  using assms planned_allocation [of data node public base cloud relayed]
  by (cases "planReceiveSiteTunnel (site_allocations data node) public base cloud relayed") (auto simp: path_tunnel_def split: if_splits)

section \<open>Relays\<close>

lemma relay_of_spec:
  assumes "relay_of data owner r names = Inr relay"
  shows "(r \<noteq> [] \<longrightarrow> relay = r \<and> (\<forall>name \<in> set names. trimmed data (NodePublicKeyPrefix @ name) \<noteq> owner)) \<and>
    (r = [] \<longrightarrow> relay \<noteq> [] \<longrightarrow> filter (\<lambda>name. name \<noteq> [] \<and> trimmed data (NodePublicKeyPrefix @ name) = owner) names = [relay])"
  using assms
proof (induction names arbitrary: r)
  case (Cons name names)
  show ?case
  proof (cases "trimmed data (NodePublicKeyPrefix @ name) = owner")
    case True
    with Cons.prems have "r = []" and rest: "relay_of data owner name names = Inr relay" by (simp_all split: if_splits)
    note ih = Cons.IH [OF rest]
    show ?thesis
    proof (cases "name = []")
      case True
      with ih \<open>r = []\<close> show ?thesis by simp
    next
      case False
      then have "filter (\<lambda>name. name \<noteq> [] \<and> trimmed data (NodePublicKeyPrefix @ name) = owner) names = []" using ih by (simp add: filter_empty_conv)
      with False ih \<open>r = []\<close> True show ?thesis by simp
    qed
  next
    case False
    with Cons.prems have rest: "relay_of data owner r names = Inr relay" by simp
    from Cons.IH [OF rest] False show ?thesis by simp
  qed
qed simp

lemma path_transit_relay:
  assumes "path_transit data public owner cloud = Inr tr" and "owner \<noteq> public"
  obtains relay t where "relay_of data owner [] (names_under NodePublicKeyPrefix data) = Inr relay" and "relay \<noteq> []"
    and "siteTransitThrough data relay [cloud] = Some t" and "tr = Some t"
proof -
  from assms obtain relay where r: "relay_of data owner [] (names_under NodePublicKeyPrefix data) = Inr relay" "relay \<noteq> []"
    by (auto simp: path_transit_def split: sum.splits if_splits)
  show ?thesis
  proof (cases "siteTransitThrough data relay [cloud]")
    case None
    with assms r show ?thesis by (simp add: path_transit_def)
  next
    case (Some t)
    with assms r that [OF r Some] show ?thesis by (simp add: path_transit_def)
  qed
qed

end
