(* ===== verification/Mesh_Properties.thy ===== *)
theory Mesh_Properties
  imports Tunnel_Sample Relay_Election Site_Paths
begin

text \<open>
  The properties of the renders of the mesh Secret and of planned site paths, each with a concrete
  instance.
\<close>

section \<open>A concrete mesh\<close>

definition sample_mesh_env :: mesh_env where
  "sample_mesh_env = plan_env.extend sample_plan_env
     \<lparr>json_native = (\<lambda>s. None), json_gateways = (\<lambda>s. None), json_applied = (\<lambda>s. None), json_peer_list_into = (\<lambda>d s. None),
      marshal_doc = (\<lambda>d. None), marshal_transit = (\<lambda>t. None)\<rparr>"

definition sample_mesh :: mesh where
  "sample_mesh =
     [(''node-public-key-a'', ''ka''), (''node-tunnel-address-a'', ''10.0.0.10/24''), (''node-addresses-a'', ''192.168.0.1''),
      (''node-public-key-b'', ''kb''), (''node-tunnel-address-b'', ''10.0.0.2/24''), (''node-addresses-b'', ''192.168.0.2''),
      (''peer-public-key-w'', ''kw''), (''peer-allowed-ips-w'', ''10.1.0.1/32''), (''peer-route-hosts-w'', ''10.1.0.1''),
      (''relay-public-key'', ''ka'')]"

lemma sample_mesh_ok: "addresses_ok sample_mesh"
proof -
  have e: "endpoint_names sample_mesh = [''a'', ''b'']" by code_simp
  have "ParseIP (tunnel_address sample_mesh ''a'') \<noteq> None" "ParseIP (tunnel_address sample_mesh ''b'') \<noteq> None"
    "ParseIP (tunnel_address sample_mesh ''a'') \<noteq> ParseIP (tunnel_address sample_mesh ''b'')" by code_simp+
  then show ?thesis unfolding addresses_ok_def e inj_on_def by auto
qed

lemma sample_mesh_usable: "usable sample_mesh ''a''" "usable sample_mesh ''b''"
  by code_simp+

section \<open>The relay\<close>

text \<open>C27: in a snapshot of the mesh with a usable endpoint (a published key and an allocated tunnel address) whose endpoints' tunnel addresses parse as
  addresses and are distinct, there is exactly one endpoint that comes before every other usable one, whatever the order in which the Secret's
  keys are visited. The site render goes through it unless it is reported not ready while another usable endpoint is ready; and
  when the Secret has no gateway projections, its entry is the first of a remote's peers and the only one of the endpoints that carries transit. So the two
  renders use the same relay.\<close>

theorem renders_elect_same_relay:
  assumes "addresses_ok data" and "usable data name"
  shows "\<exists>relay. (\<forall>m. best_relay data m \<longleftrightarrow> m = relay) \<and>
     (\<forall>notReady. relay \<notin> set notReady \<or> (\<forall>n. usable data n \<longrightarrow> n \<in> set notReady) \<longrightarrow>
        SiteTransit env data notReady = (case site_peers env data False of Inl e \<Rightarrow> Inl e | Inr peers \<Rightarrow> Inr (siteTransitThrough data relay peers))) \<and>
     (\<forall>self apis ps. RemotePeers env data self apis = Inr ps \<longrightarrow> field data GatewayProjectionsKey = [] \<longrightarrow>
        ps \<noteq> [] \<and> p_publicKey (hd ps) = trimmed data (NodePublicKeyPrefix @ relay) \<and>
        (\<forall>p \<in> set (tl ps). p_transit p = [] \<and> p_transitHosts p = []))"
proof -
  obtain relay where best: "best_relay data relay"
    and remote: "find (\<lambda>c. published data (fst c)) (remote_nodes data) = Some (candidate data relay)"
    and site: "\<exists>rest. relay_candidates data = candidate data relay # rest"
    by (rule both_find_best [OF assms])
  have "ps \<noteq> [] \<and> p_publicKey (hd ps) = trimmed data (NodePublicKeyPrefix @ relay) \<and> (\<forall>p \<in> set (tl ps). p_transit p = [] \<and> p_transitHosts p = [])"
    if "RemotePeers env data self apis = Inr ps" "field data GatewayProjectionsKey = []" for self apis ps
    using RemotePeers_relay [OF that remote] by (auto simp: local_peer_def candidate_def)
  moreover have "best_relay data m \<longleftrightarrow> m = relay" for m using best best_relay_unique [OF assms(1)] by blast
  ultimately show ?thesis using SiteTransit_relay [OF assms(1) site, where env = env] by blast
qed

theorem renders_elect_same_relay_witness:
  "\<exists>relay. best_relay sample_mesh relay \<and>
     SiteTransit sample_mesh_env sample_mesh [''a'', ''b''] =
       (case site_peers sample_mesh_env sample_mesh False of Inl e \<Rightarrow> Inl e | Inr peers \<Rightarrow> Inr (siteTransitThrough sample_mesh relay peers))"
proof -
  have "endpoint_names sample_mesh = [''a'', ''b'']" by code_simp
  then have "n \<in> set [''a'', ''b'']" if "usable sample_mesh n" for n using usable_endpoint [OF that] by simp
  with renders_elect_same_relay [OF sample_mesh_ok sample_mesh_usable(1), of sample_mesh_env] show ?thesis by blast
qed

text \<open>C28: in a mesh whose endpoints' tunnel addresses parse as addresses and are distinct, pinning keeps a usable relay: while an endpoint that holds the pinned
  key is published, allocated and has not departed, pinning changes nothing, whatever other endpoints the mesh has. And pinning settles
  in one step: pinning the result changes nothing.\<close>

theorem relay_pin_settles:
  assumes "addresses_ok data"
  shows "(usable data n \<and> trimmed data (NodePublicKeyPrefix @ n) = field data RelayPublicKeyKey \<and> field data (NodeDepartedAtPrefix @ n) = []
       \<longrightarrow> PinRelay data = (data, False)) \<and>
     PinRelay (fst (PinRelay data)) = (fst (PinRelay data), False)"
proof
  show "usable data n \<and> trimmed data (NodePublicKeyPrefix @ n) = field data RelayPublicKeyKey \<and> field data (NodeDepartedAtPrefix @ n) = []
       \<longrightarrow> PinRelay data = (data, False)"
    using PinRelay_fixpoint [OF assms] by blast
  show "PinRelay (fst (PinRelay data)) = (fst (PinRelay data), False)"
    using assms
  proof (cases rule: relay_candidates_cases)
    case none
    then have "relay_candidates (AList.delete RelayPublicKeyKey data) = []"
      by (simp add: relay_candidates_eq sort_by_def same_endpoints_keep [OF same_endpoints_write(2)])
    with none(1) show ?thesis by (simp add: PinRelay_def field_def delete_conv')
  next
    case (some relay rest)
    let ?key = "trimmed data (NodePublicKeyPrefix @ relay)"
    let ?data = "AList.update RelayPublicKeyKey ?key data"
    note same = same_endpoints_keep [OF same_endpoints_write(1), of ?key data]
    have us: "usable data relay" using some(2) by (simp add: best_relay_def)
    have ne: "?key \<noteq> []" using us by (simp add: usable_def published_def)
    have pinned: "PinRelay ?data = (?data, False)"
    proof (rule PinRelay_fixpoint)
      show "addresses_ok ?data" and "usable ?data relay" using assms us same by simp_all
      show "trimmed ?data (NodePublicKeyPrefix @ relay) = field ?data RelayPublicKeyKey"
        unfolding same(1) by (simp add: field_def update_conv')
      show "field ?data (NodeDepartedAtPrefix @ relay) = []" if "usable ?data m" "field ?data (NodeDepartedAtPrefix @ m) = []" for m
        using that best_departed_last [OF some(2)] unfolding same by blast
    qed
    show ?thesis
    proof (cases "field data RelayPublicKeyKey = ?key")
      case True
      then have "PinRelay data = (data, False)" using some(1) by (simp add: PinRelay_def candidate_def)
      then show ?thesis by simp
    next
      case False
      then have "PinRelay data = (?data, True)" using some(1) ne by (simp add: PinRelay_def candidate_def)
      with pinned show ?thesis by simp
    qed
  qed
qed

theorem relay_pin_settles_witness: "PinRelay sample_mesh = (sample_mesh, False)"
proof -
  have "trimmed sample_mesh (NodePublicKeyPrefix @ ''a'') = field sample_mesh RelayPublicKeyKey"
    "field sample_mesh (NodeDepartedAtPrefix @ ''a'') = []" by code_simp+
  with relay_pin_settles [OF sample_mesh_ok, of "''a''"] sample_mesh_usable show ?thesis by blast
qed

definition malformed_mesh :: "string list \<Rightarrow> mesh" where
  "malformed_mesh names =
     concat (map (\<lambda>n. [(NodePublicKeyPrefix @ n, ''k'' @ n),
       (NodeTunnelAddressPrefix @ n, if n = ''a'' then ''10.0.0.2'' else if n = ''b'' then ''10.0.0.10'' else ''10.0.0.1x'')]) names)"

text \<open>The hypothesis on the addresses is needed: the comparison of addresses is an order only where they parse: with a malformed one it has a cycle, and the
  relay elected from the same mesh then depends on the order in which the keys of the Secret are
  visited.\<close>

lemma election_depends_on_order:
  "LessIP ''10.0.0.2'' ''10.0.0.10'' \<and> LessIP ''10.0.0.10'' ''10.0.0.1x'' \<and> LessIP ''10.0.0.1x'' ''10.0.0.2'' \<and>
   set (malformed_mesh [''a'', ''b'', ''c'']) = set (malformed_mesh [''b'', ''c'', ''a'']) \<and>
   elect [] (relay_candidates (malformed_mesh [''a'', ''b'', ''c''])) \<noteq> elect [] (relay_candidates (malformed_mesh [''b'', ''c'', ''a'']))"
  by code_simp

section \<open>Withdrawal\<close>

text \<open>C29: withdrawing a machine removes exactly its published fields, and only under its expected key: every other
  entry of the Secret and the peer of every other machine stay as they were, the machine is gone from
  the peers, and withdrawing it again changes nothing.\<close>

theorem withdrawal_is_exact:
  assumes "WithdrawRemotePeer data name key = Inr (out, changed)"
  shows "map_of out = (map_of data) |` (- (\<lambda>p. p @ name) ` {PeerPublicKeyPrefix, PeerEndpointPrefix, PeerAllowedIPsPrefix,
       PeerRouteHostsPrefix, PeerRouteHostPrefix, PeerNativeNetworkPrefix}) \<and>
     (field data (PeerPublicKeyPrefix @ name) = [] \<or> field data (PeerPublicKeyPrefix @ name) = key) \<and>
     names_under PeerPublicKeyPrefix out = filter (\<lambda>m. m \<noteq> name) (names_under PeerPublicKeyPrefix data) \<and>
     (\<forall>other. other \<noteq> name \<longrightarrow> machine_peer out other = machine_peer data other) \<and>
     (changed \<longleftrightarrow> (\<exists>k. k \<in> set (withdrawn_keys name) \<and> map_of data k \<noteq> None)) \<and> WithdrawRemotePeer out name key = Inr (out, False)"
proof -
  have out: "out = fold AList.delete (withdrawn_keys name) data"
    and id: "\<not> (name = [] \<or> TrimSpace name \<noteq> name \<or> key = [] \<or> TrimSpace key \<noteq> key)"
    and cur: "field data (PeerPublicKeyPrefix @ name) = [] \<or> field data (PeerPublicKeyPrefix @ name) = key"
    and ch: "changed = list_ex (\<lambda>k. map_of data k \<noteq> None) (withdrawn_keys name)"
    using assms by (auto simp: WithdrawRemotePeer_def Let_def split: if_splits)
  have m: "map_of out = (map_of data) |` (- set (withdrawn_keys name))" by (simp add: out map_of_deletes)
  have gone: "\<not> list_ex (\<lambda>k. map_of out k \<noteq> None) (withdrawn_keys name)" by (simp add: m list_ex_iff)
  have "PeerPublicKeyPrefix @ name \<in> set (withdrawn_keys name)" by (simp add: withdrawn_own)
  then have f: "field out (PeerPublicKeyPrefix @ name) = []" by (simp add: field_def m)
  have again: "WithdrawRemotePeer out name key = Inr (out, False)"
  proof -
    have "fold AList.delete (withdrawn_keys name) out = out"
      using gone by (intro deletes_absent) (auto simp: list_ex_iff)
    with id f gone show ?thesis by (simp add: WithdrawRemotePeer_def)
  qed
  have "machine_peer out other = machine_peer data other" if "other \<noteq> name" for other
  proof (rule machine_peer_cong)
    fix p
    assume "p \<in> {PeerPublicKeyPrefix, PeerEndpointPrefix, PeerAllowedIPsPrefix, PeerRouteHostsPrefix, PeerRouteHostPrefix}"
    then have "p @ other \<notin> set (withdrawn_keys name)" using withdrawn_own [of p other name] that by blast
    then show "map_of out (p @ other) = map_of data (p @ other)" by (simp add: m)
  qed
  moreover have "names_under PeerPublicKeyPrefix out = filter (\<lambda>m. m \<noteq> name) (names_under PeerPublicKeyPrefix data)"
    unfolding out by (rule names_under_withdrawn)
  moreover have "changed \<longleftrightarrow> (\<exists>k. k \<in> set (withdrawn_keys name) \<and> map_of data k \<noteq> None)" unfolding ch list_ex_iff by blast
  moreover have "set (withdrawn_keys name) = (\<lambda>p. p @ name) ` {PeerPublicKeyPrefix, PeerEndpointPrefix, PeerAllowedIPsPrefix,
       PeerRouteHostsPrefix, PeerRouteHostPrefix, PeerNativeNetworkPrefix}" by (simp add: withdrawn_keys_def)
  ultimately show ?thesis using m cur again by metis
qed

theorem withdrawal_is_exact_witness:
  "\<exists>out. WithdrawRemotePeer sample_mesh ''w'' ''kw'' = Inr (out, True) \<and> names_under PeerPublicKeyPrefix out = []"
proof -
  have "is_Inr (WithdrawRemotePeer sample_mesh ''w'' ''kw'')" by code_simp
  then obtain out ch where o: "WithdrawRemotePeer sample_mesh ''w'' ''kw'' = Inr (out, ch)" by (auto simp: is_Inr_iff)
  have "names_under PeerPublicKeyPrefix sample_mesh = [''w'']" by code_simp
  moreover have "map_of sample_mesh (PeerPublicKeyPrefix @ ''w'') \<noteq> None" by code_simp
  moreover have "PeerPublicKeyPrefix @ ''w'' \<in> set (withdrawn_keys ''w'')" by code_simp
  ultimately show ?thesis using withdrawal_is_exact [OF o] o by auto
qed

section \<open>IPv6 tunnel addresses\<close>

text \<open>The IPv6 tunnel address of a node is the printed form of an address inside the mesh's IPv6 prefix, with its
  length, whose low 32 bits are the IPv4 address; so two nodes get the same address only when their
  IPv4 addresses are equal.\<close>

theorem tunnel_address6_paired:
  assumes "TunnelAddress6 prefix6 addr4 = Inr s"
  shows "\<exists>p w. ParsePrefix (TrimSpace prefix6) = Some p \<and> ParseAddr (before CHR ''/'' (TrimSpace addr4)) = Some (V4 w) \<and>
     s = show_prefix (pair_address p w) \<and> Contains p (pf_addr (pair_address p w)) \<and> pf_bits (pair_address p w) = pf_bits p \<and>
     pf_bits p \<le> 96 \<and> ucast (As16 (pf_addr (pair_address p w))) = w \<and> (\<forall>v. pair_address p v = pair_address p w \<longrightarrow> v = w)"
proof -
  from assms obtain p w where p: "ParsePrefix (TrimSpace prefix6) = Some p" "Is6 (pf_addr p)" "pf_bits p \<le> 96"
    and w: "ParseAddr (before CHR ''/'' (TrimSpace addr4)) = Some (V4 w)" and s: "s = show_prefix (pair_address p w)"
    by (auto simp: TunnelAddress6_def split: option.splits if_splits addr.splits)
  from p(1) have "Zone (pf_addr p) = []" by (auto simp: ParsePrefix_def PrefixFrom_def split: option.splits prod.splits if_splits addr.splits)
  with p(2) obtain a where a: "pf_addr p = V6 a []" by (cases "pf_addr p") auto
  have "IsValid p" using ParsePrefix_valid [OF p(1)] by blast
  from pair_address_contains [OF this a p(3)] p w s pair_address_low pair_address_inj show ?thesis by blast
qed

theorem tunnel_address6_paired_witness: "TunnelAddress6 ''fd00::/64'' ''10.0.0.2/24'' = Inr ''fd00::a00:2/64'' \<and>
   Contains (the (ParsePrefix (TrimSpace ''fd00::/64''))) (pf_addr (pair_address (the (ParsePrefix (TrimSpace ''fd00::/64''))) (the (parse_v4 ''10.0.0.2''))))"
proof -
  have t: "TunnelAddress6 ''fd00::/64'' ''10.0.0.2/24'' = Inr ''fd00::a00:2/64''" by code_simp
  have "ParseAddr (before CHR ''/'' (TrimSpace ''10.0.0.2/24'')) = Some (V4 (the (parse_v4 ''10.0.0.2'')))" by code_simp
  with tunnel_address6_paired [OF t] t show ?thesis by auto
qed

section \<open>Site paths\<close>


definition sample_site_mesh :: mesh where
  "sample_site_mesh =
     [(''node-public-key-site'', sample_site_key), (''node-tunnel-address-site'', ''10.0.0.1/24''), (''node-addresses-site'', ''10.0.0.1''),
      (''site-addresses-other'', ''10.0.0.9'')]"


end
