(* ===== verification/Inventory.thy ===== *)
theory Inventory
  imports Journal_Routes
begin

text \<open>
  The inventory of receiver journals (\<open>controller/pkg/tunnel/receive_inventory.go\<close>, \<open>receive_publication.go\<close>,
  \<open>receive_retirement.go\<close>, \<open>receive_release.go\<close>): one ConfigMap per mesh that reserves a machine before its journal
  exists, binds the journal's UID, and takes up the machine's retirement until it is released for good.
  Publications and released records are mappings. Where several entries are at fault Go reports the one its random
  iteration meets first; here the message is that of the first test in program order.
\<close>

section \<open>Records\<close>

record publication =
  pb_plan :: string
  pb_journalUID :: string
  pb_retirement :: string
  pb_completion :: string
  pb_finalization :: string

definition zero_publication :: publication where
  "zero_publication = \<lparr>pb_plan = [], pb_journalUID = [], pb_retirement = [], pb_completion = [], pb_finalization = []\<rparr>"

record inventory =
  iv_version :: int
  iv_clusterUID :: string
  iv_namespace :: string
  iv_meshName :: string
  iv_meshUID :: string
  iv_machineUIDs :: "string list option"
  iv_publications :: "(string, publication) mapping"
  iv_released :: "(string, publication) mapping"

text \<open>The mesh Secret, as far as its identity goes, and the ConfigMap client with its list.\<close>

record mesh_secret =
  ms_name :: string
  ms_namespace :: string
  ms_uid :: string
  ms_resourceVersion :: string
  ms_deletionTimestamp :: "time option"

record 'w inventory_maps = "'w config_maps" +
  api_list :: "'w \<Rightarrow> (api_error + config_map list) \<times> 'w"

text \<open>
  \<open>json.Marshal\<close> and the strict decoder (with whether the input ended) of an inventory, \<open>json.Valid\<close> and
  \<open>json.Compact\<close>.
\<close>

record inventory_env = plan_env +
  marshal_inventory :: "inventory \<Rightarrow> string option"
  json_inventory :: "string \<Rightarrow> (inventory \<times> bool) option"
  json_valid :: "string \<Rightarrow> bool"
  json_compact :: "string \<Rightarrow> string option"

definition receiveInventoryKey :: string where
  "receiveInventoryKey = ''inventory.json''"

definition ReceiveInventoryName :: "'a round_env_scheme \<Rightarrow> string \<Rightarrow> string" where
  "ReceiveInventoryName env meshUID = ''receive-inventory-'' @ hex_encode (take 16 (sha256 env meshUID))"

text \<open>The machine identities as a list, and a test of every entry of a mapping.\<close>

definition uids_of :: "inventory \<Rightarrow> string list" where
  "uids_of v = (case iv_machineUIDs v of None \<Rightarrow> [] | Some uids \<Rightarrow> uids)"

definition every :: "('k, 'v) mapping \<Rightarrow> ('k \<Rightarrow> 'v \<Rightarrow> bool) \<Rightarrow> bool" where
  "every m P = (\<forall>k \<in> Mapping.keys m. case Mapping.lookup m k of None \<Rightarrow> True | Some v \<Rightarrow> P k v)"

definition publication_of :: "(string, publication) mapping \<Rightarrow> string \<Rightarrow> publication" where
  "publication_of m uid = (case Mapping.lookup m uid of None \<Rightarrow> zero_publication | Some p \<Rightarrow> p)"

section \<open>Checks\<close>

definition CheckJournal :: "inventory \<Rightarrow> string \<Rightarrow> string \<Rightarrow> unit res" where
  "CheckJournal v machineUID journalUID =
     (if machineUID \<notin> set (uids_of v) then Inl (Error ''journal is not reserved'')
      else
        (case Mapping.lookup (iv_publications v) machineUID of
           None \<Rightarrow> Inr ()
         | Some p \<Rightarrow>
             if pb_journalUID p = [] \<or> pb_journalUID p \<noteq> journalUID
               then Inl (Error ''journal publication is pending or its incarnation changed'')
             else Inr ()))"

fun ordered_uids :: "string \<Rightarrow> string list \<Rightarrow> bool" where
  "ordered_uids previous [] = True"
| "ordered_uids previous (uid # uids) =
     (uid \<noteq> [] \<and> TrimSpace uid = uid \<and> previous < uid \<and> ordered_uids uid uids)"

definition object_record :: "'a inventory_env_scheme \<Rightarrow> string \<Rightarrow> bool" where
  "object_record env r = (json_valid env r \<and> (case TrimSpace r of [] \<Rightarrow> False | c # _ \<Rightarrow> c = CHR ''{''))"

definition publication_state :: "string list \<Rightarrow> string \<Rightarrow> publication \<Rightarrow> bool" where
  "publication_state uids uid p = (uid \<in> set uids \<and> (pb_plan p = []) \<noteq> (pb_journalUID p = []))"

definition completion_state :: "'a inventory_env_scheme \<Rightarrow> publication \<Rightarrow> bool" where
  "completion_state env p = (pb_completion p = [] \<or> (pb_retirement p \<noteq> [] \<and> object_record env (pb_completion p)))"

definition finalization_state :: "'a inventory_env_scheme \<Rightarrow> publication \<Rightarrow> bool" where
  "finalization_state env p = (pb_finalization p = [] \<or> (pb_completion p \<noteq> [] \<and> object_record env (pb_finalization p)))"

definition retirement_state :: "'a inventory_env_scheme \<Rightarrow> publication \<Rightarrow> bool" where
  "retirement_state env p =
     (pb_retirement p = [] \<or>
      (pb_journalUID p \<noteq> [] \<and> json_valid env (pb_retirement p) \<and> TrimSpace (pb_retirement p) \<noteq> ''null''))"

definition released_record :: "'a inventory_env_scheme \<Rightarrow> publication \<Rightarrow> bool" where
  "released_record env p = list_all (object_record env) [pb_retirement p, pb_completion p, pb_finalization p]"

definition inventory_validate :: "'a inventory_env_scheme \<Rightarrow> inventory \<Rightarrow> unit res" where
  "inventory_validate env v =
     (if iv_version v \<noteq> 1 \<or> iv_clusterUID v = [] \<or> iv_namespace v = [] \<or> iv_meshName v = [] \<or> iv_meshUID v = [] \<or> iv_machineUIDs v = None
        then Inl (Error ''receiver inventory requires complete mesh and cluster identity'')
      else if \<not> ordered_uids [] (uids_of v) then Inl (Error ''receiver inventory machine identities must be unique and sorted'')
      else if \<not> every (iv_publications v) (publication_state (uids_of v)) then Inl (Error ''invalid journal publication state'')
      else if \<not> every (iv_publications v) (\<lambda>_. completion_state env)
        then Inl (Error ''retirement completion requires persisted withdrawal and non-null evidence'')
      else if \<not> every (iv_publications v) (\<lambda>_. finalization_state env)
        then Inl (Error ''retirement finalization requires retained completion and non-null evidence'')
      else if \<not> every (iv_publications v) (\<lambda>_. retirement_state env)
        then Inl (Error ''retirement requires a published journal and non-null intent'')
      else if \<not> every (iv_released v) (\<lambda>uid _. uid \<noteq> [] \<and> TrimSpace uid = uid \<and> uid \<notin> set (uids_of v))
        then Inl (Error ''released journal overlaps active ownership or lacks identity'')
      else if \<not> every (iv_released v) (\<lambda>uid _. Mapping.lookup (iv_publications v) uid = None)
        then Inl (Error ''released journal remains actively published'')
      else if \<not> every (iv_released v) (\<lambda>_ p. pb_journalUID p \<noteq> [] \<and> pb_plan p = [] \<and> pb_finalization p \<noteq> [])
        then Inl (Error ''released journal requires finalized publication'')
      else if \<not> every (iv_released v) (\<lambda>_. released_record env)
        then Inl (Error ''released journal requires retained object evidence'')
      else Inr ())"

section \<open>Reading\<close>

definition empty_inventory :: "string \<Rightarrow> string \<Rightarrow> string \<Rightarrow> string \<Rightarrow> inventory" where
  "empty_inventory cluster ns meshName meshUID =
     \<lparr>iv_version = 1, iv_clusterUID = cluster, iv_namespace = ns, iv_meshName = meshName, iv_meshUID = meshUID,
      iv_machineUIDs = Some [], iv_publications = Mapping.empty, iv_released = Mapping.empty\<rparr>"

text \<open>What \<open>ReadReceiveInventory\<close> admits of the object it got.\<close>

definition admit_inventory ::
  "'a inventory_env_scheme \<Rightarrow> string \<Rightarrow> string \<Rightarrow> string \<Rightarrow> string \<Rightarrow> config_map \<Rightarrow> inventory res" where
  "admit_inventory env cluster ns meshName meshUID obj =
     (if cm_name obj \<noteq> ReceiveInventoryName env meshUID \<or> cm_namespace obj \<noteq> ns \<or> cm_uid obj = [] \<or> cm_resourceVersion obj = [] \<or>
         cm_deletionTimestamp obj \<noteq> None
        then Inl (Error ''receiver inventory identity changed or is deleting'')
      else
        (case json_inventory env (index (cm_data obj) receiveInventoryKey) of
           None \<Rightarrow> Inl (Error ''json'')
         | Some (v, eof) \<Rightarrow>
             if \<not> eof then Inl (Error ''trailing receiver inventory data'')
             else
               (case inventory_validate env v of
                  Inl e \<Rightarrow> Inl e
                | Inr _ \<Rightarrow>
                    if iv_clusterUID v \<noteq> cluster \<or> iv_namespace v \<noteq> ns \<or> iv_meshName v \<noteq> meshName \<or> iv_meshUID v \<noteq> meshUID
                      then Inl (Error ''receiver inventory belongs to another mesh or cluster'')
                    else Inr v)))"

definition as_api :: "'a res \<Rightarrow> api_error + 'a" where
  "as_api r = (case r of Inl (Error m) \<Rightarrow> Inl (APIError m) | Inr x \<Rightarrow> Inr x)"

definition ReadReceiveInventory ::
  "'a inventory_env_scheme \<Rightarrow> ('w, 'b) inventory_maps_scheme option \<Rightarrow> string \<Rightarrow> string \<Rightarrow> string \<Rightarrow> string \<Rightarrow> 'w \<Rightarrow>
   (api_error + inventory \<times> config_map) \<times> 'w" where
  "ReadReceiveInventory env maps cluster ns meshName meshUID w =
     (case inventory_validate env (empty_inventory cluster ns meshName meshUID) of
        Inl e \<Rightarrow> (as_api (Inl e), w)
      | Inr _ \<Rightarrow>
          (case maps of
             None \<Rightarrow> (Inl (APIError ''receiver inventory requires API storage''), w)
           | Some api \<Rightarrow>
               (case api_get api (ReceiveInventoryName env meshUID) w of
                  (Inl e, w') \<Rightarrow> (Inl e, w')
                | (Inr obj, w') \<Rightarrow>
                    (case admit_inventory env cluster ns meshName meshUID obj of
                       Inl e \<Rightarrow> (as_api (Inl e), w')
                     | Inr v \<Rightarrow> (Inr (v, obj), w')))))"

text \<open>The call where every error is returned as it is.\<close>

definition read_inventory ::
  "'a inventory_env_scheme \<Rightarrow> ('w, 'b) inventory_maps_scheme option \<Rightarrow> string \<Rightarrow> mesh_secret \<Rightarrow> ('w, inventory \<times> config_map) io" where
  "read_inventory env maps cluster mesh w =
     (case ReadReceiveInventory env maps cluster (ms_namespace mesh) (ms_name mesh) (ms_uid mesh) w of
        (Inl e, w') \<Rightarrow> (Inl (api_message e), w')
      | (Inr x, w') \<Rightarrow> (Inr x, w'))"

section \<open>Writing\<close>

definition inventory_store ::
  "('w, 'b) inventory_maps_scheme option \<Rightarrow> string \<Rightarrow> string \<Rightarrow> string \<Rightarrow> 'w store" where
  "inventory_store maps cluster name uid =
     \<lparr>configMaps = map_option config_maps.truncate maps, s_name = name, s_clusterUID = cluster, s_expectedUID = uid, s_ownerReferences = []\<rparr>"

definition with_inventory :: "config_map \<Rightarrow> string \<Rightarrow> config_map" where
  "with_inventory obj raw = obj\<lparr>cm_data := Mapping.update receiveInventoryKey raw (cm_data obj)\<rparr>"

definition marshalled :: "'a inventory_env_scheme \<Rightarrow> inventory \<Rightarrow> string res" where
  "marshalled env v = (case marshal_inventory env v of None \<Rightarrow> Inl (Error ''json'') | Some raw \<Rightarrow> Inr raw)"

definition put_inventory ::
  "('w, 'b) inventory_maps_scheme option \<Rightarrow> config_map \<Rightarrow> string \<Rightarrow> ('w, config_map) io" where
  "put_inventory maps obj raw = api_call (inventory_store maps [] [] []) (\<lambda>api. api_update api (with_inventory obj raw))"

text \<open>The update whose stored object is compared with what was sent.\<close>

definition put_checked ::
  "('w, 'b) inventory_maps_scheme option \<Rightarrow> config_map \<Rightarrow> string \<Rightarrow> string \<Rightarrow> ('w, unit) io" where
  "put_checked maps obj raw msg =
     io_bind (put_inventory maps obj raw) (\<lambda>stored.
     io_lift (guard (cm_uid stored = cm_uid obj \<and> cm_deletionTimestamp stored = None \<and> index (cm_data stored) receiveInventoryKey = raw) msg))"

section \<open>Reservation\<close>

text \<open>
  \<open>add_reservation\<close> is the change of the inventory, \<open>None\<close> when the reservation is there already.
  The first use of a mesh scans every journal of the namespace before an inventory is created.
\<close>

definition add_reservation :: "inventory \<Rightarrow> string \<Rightarrow> string \<Rightarrow> inventory option res" where
  "add_reservation v uid plan =
     (if Mapping.lookup (iv_released v) uid \<noteq> None then Inl (Error ''released Machine identity cannot be reserved again'')
      else if uid \<in> set (uids_of v)
        then
          (if plan \<noteq> [] \<and>
              (case Mapping.lookup (iv_publications v) uid of None \<Rightarrow> True | Some p \<Rightarrow> pb_journalUID p \<noteq> [] \<or> pb_plan p \<noteq> plan)
             then Inl (Error ''journal reservation already exists with different publication state'')
           else Inr None)
      else
        Inr (Some (v\<lparr>iv_publications :=
                       (if plan \<noteq> [] then Mapping.update uid (zero_publication\<lparr>pb_plan := plan\<rparr>) (iv_publications v) else iv_publications v),
                     iv_machineUIDs := Some (sort (uids_of v @ [uid]))\<rparr>)))"

fun first_use ::
  "'a inventory_env_scheme \<Rightarrow> ('w, 'b) inventory_maps_scheme option \<Rightarrow> string \<Rightarrow> string \<Rightarrow> config_map list \<Rightarrow> ('w, unit) io" where
  "first_use env maps cluster meshUID [] w = (Inr (), w)"
| "first_use env maps cluster meshUID (obj # objs) w =
     (if \<not> prefix ''receive-transition-'' (cm_name obj) then first_use env maps cluster meshUID objs w
      else
        (case Load env (inventory_store maps cluster (cm_name obj) []) w of
           (Inl e, w') \<Rightarrow> (Inl (wrap ''cannot establish first-use receiver inventory: '' e), w')
         | (Inr sn, w') \<Rightarrow>
             (case DecodeReceiveTransition env sn cluster of
                Inl e \<Rightarrow> (Inl e, w')
              | Inr plan \<Rightarrow>
                  if pn_meshUID (plan_fields plan) = meshUID
                    then (Inl (Error ''receiver inventory is missing for an existing journal''), w')
                  else first_use env maps cluster meshUID objs w')))"

definition list_maps :: "('w, 'b) inventory_maps_scheme option \<Rightarrow> ('w, config_map list) io" where
  "list_maps maps w =
     (case maps of
        None \<Rightarrow> (Inl (Error ''nil ConfigMaps''), w)
      | Some api \<Rightarrow> (case api_list api w of (Inl e, w') \<Rightarrow> (Inl (api_message e), w') | (Inr objs, w') \<Rightarrow> (Inr objs, w')))"

definition write_reservation ::
  "'a inventory_env_scheme \<Rightarrow> ('w, 'b) inventory_maps_scheme option \<Rightarrow> bool \<Rightarrow> string \<Rightarrow> string \<Rightarrow> inventory \<Rightarrow> config_map \<Rightarrow> ('w, unit) io" where
  "write_reservation env maps creating uid plan v obj =
     io_bind (io_lift (add_reservation v uid plan)) (\<lambda>change.
     case change of
       None \<Rightarrow> io_lift (Inr ())
     | Some v' \<Rightarrow>
         io_bind (io_lift (inventory_validate env v')) (\<lambda>_.
         io_bind (io_lift (marshalled env v')) (\<lambda>raw.
         io_bind (if creating then api_call (inventory_store maps [] [] []) (\<lambda>api. api_create api (with_inventory obj raw))
                  else put_inventory maps obj raw) (\<lambda>_.
         io_lift (Inr ())))))"

definition reserveReceiveJournal ::
  "'a inventory_env_scheme \<Rightarrow> ('w, 'b) inventory_maps_scheme option \<Rightarrow> string \<Rightarrow> mesh_secret option \<Rightarrow> string \<Rightarrow> string list \<Rightarrow> string \<Rightarrow>
   ('w, unit) io" where
  "reserveReceiveJournal env maps cluster mesh uid owners plan w =
     (case mesh of
        None \<Rightarrow> (Inl (Error ''receiver reservation requires live identities and API storage''), w)
      | Some m \<Rightarrow>
          if ms_uid m = [] \<or> ms_resourceVersion m = [] \<or> ms_deletionTimestamp m \<noteq> None \<or> uid = [] \<or> TrimSpace uid \<noteq> uid \<or> Option.is_none maps
            then (Inl (Error ''receiver reservation requires live identities and API storage''), w)
          else
            (case ReadReceiveInventory env maps cluster (ms_namespace m) (ms_name m) (ms_uid m) w of
               (Inr (v, obj), w1) \<Rightarrow> write_reservation env maps False uid plan v obj w1
             | (Inl (NotFound _), w1) \<Rightarrow>
                 io_bind (list_maps maps) (\<lambda>objs.
                 io_bind (first_use env maps cluster (ms_uid m) objs) (\<lambda>_.
                 write_reservation env maps True uid plan (empty_inventory cluster (ms_namespace m) (ms_name m) (ms_uid m))
                   (empty_map\<lparr>cm_name := ReceiveInventoryName env (ms_uid m), cm_namespace := ms_namespace m, cm_ownerReferences := owners\<rparr>))) w1
             | (Inl e, w1) \<Rightarrow> (Inl (api_message e), w1)))"

definition ReserveReceiveJournal ::
  "'a inventory_env_scheme \<Rightarrow> ('w, 'b) inventory_maps_scheme option \<Rightarrow> string \<Rightarrow> mesh_secret option \<Rightarrow> string \<Rightarrow> string list \<Rightarrow> ('w, unit) io" where
  "ReserveReceiveJournal env maps cluster mesh uid owners = reserveReceiveJournal env maps cluster mesh uid owners []"

definition ReservePreparedReceiveJournal ::
  "'a inventory_env_scheme \<Rightarrow> ('w, 'b) inventory_maps_scheme option \<Rightarrow> string \<Rightarrow> mesh_secret option \<Rightarrow> string \<Rightarrow> string list \<Rightarrow> string \<Rightarrow>
   ('w, unit) io" where
  "ReservePreparedReceiveJournal env maps cluster mesh uid owners plan =
     io_bind (io_lift (guard (plan \<noteq> []) ''prepared journal requires a public plan'')) (\<lambda>_.
     reserveReceiveJournal env maps cluster mesh uid owners plan)"

section \<open>Publication\<close>

definition scope_matches :: "plan_fields \<Rightarrow> inventory \<Rightarrow> bool" where
  "scope_matches p v = (pn_namespace p = iv_namespace v \<and> pn_meshName p = iv_meshName v \<and> pn_meshUID p = iv_meshUID v)"

definition set_publication :: "inventory \<Rightarrow> string \<Rightarrow> publication \<Rightarrow> inventory" where
  "set_publication v uid p = v\<lparr>iv_publications := Mapping.update uid p (iv_publications v)\<rparr>"

definition renew_unpublished ::
  "'a inventory_env_scheme \<Rightarrow> string option \<Rightarrow> 'w store \<Rightarrow> snapshot \<Rightarrow> time \<Rightarrow> ('w, snapshot) io" where
  "renew_unpublished env rand store current now =
     io_bind (io_lift (Renew env rand (sn_transition current) now)) (\<lambda>renewed. Commit env store current renewed)"

text \<open>The publication of a journal whose preparation is still pending.\<close>

definition publish_pending ::
  "'a inventory_env_scheme \<Rightarrow> string option \<Rightarrow> ('w, 'b) inventory_maps_scheme option \<Rightarrow> string \<Rightarrow> snapshot \<Rightarrow> time \<Rightarrow> inventory \<Rightarrow>
   config_map \<Rightarrow> string \<Rightarrow> publication \<Rightarrow> ('w, snapshot) io" where
  "publish_pending env rand maps cluster sn now v obj uid pub =
     (let meta = Metadata sn; store = inventory_store maps cluster (cm_name meta) (cm_uid meta) in
      io_bind (io_lift (guard (pb_plan pub = snapshot_Plan sn) ''journal differs from reserved preparation'')) (\<lambda>_.
      io_bind (io_lift (snapshot_View env sn)) (\<lambda>view.
      io_bind (io_lift (guard (\<not> vw_complete view \<and> phase (rspec (vw_round view)) = Prepare \<and> \<not> vw_rollbackRequested view \<and>
                 vw_observed view = []) ''unpublished journal has already progressed'')) (\<lambda>_.
      io_bind (Load env store) (\<lambda>current.
      io_bind (io_lift (guard (cm_resourceVersion (Metadata current) = cm_resourceVersion meta) ''journal changed before publication'')) (\<lambda>_.
      io_bind (io_lift (guard (issuedAt (vw_round view) \<le> now) ''unpublished journal is not yet valid'')) (\<lambda>_.
      io_bind (if expiresAt (vw_round view) \<le> now then renew_unpublished env rand store current now else io_lift (Inr current)) (\<lambda>final.
      io_bind (io_lift (marshalled env (set_publication v uid (zero_publication\<lparr>pb_journalUID := cm_uid meta\<rparr>)))) (\<lambda>raw.
      io_bind (put_inventory maps obj raw) (\<lambda>_.
      io_lift (Inr final)))))))))))"

definition PublishReceiveJournal ::
  "'a inventory_env_scheme \<Rightarrow> string option \<Rightarrow> ('w, 'b) inventory_maps_scheme option \<Rightarrow> string \<Rightarrow> mesh_secret \<Rightarrow> snapshot \<Rightarrow> time \<Rightarrow>
   ('w, snapshot) io" where
  "PublishReceiveJournal env rand maps cluster mesh sn now =
     io_bind (io_lift (DecodeReceiveTransition env sn cluster)) (\<lambda>plan.
     let p = plan_fields plan; uid = pn_machineUID p;
         check = (\<lambda>v. io_bind (io_lift (CheckJournal v uid (cm_uid (Metadata sn)))) (\<lambda>_. io_lift (Inr sn))) in
     io_bind (read_inventory env maps cluster mesh) (\<lambda>(v, obj).
     io_bind (io_lift (guard (scope_matches p v) ''publication scope differs'')) (\<lambda>_.
     case Mapping.lookup (iv_publications v) uid of
       None \<Rightarrow> check v
     | Some pub \<Rightarrow> if pb_journalUID pub \<noteq> [] then check v else publish_pending env rand maps cluster sn now v obj uid pub)))"

section \<open>Retirement\<close>

definition live_mesh :: "mesh_secret option \<Rightarrow> mesh_secret option" where
  "live_mesh mesh =
     (case mesh of
        None \<Rightarrow> None
      | Some m \<Rightarrow> if ms_uid m = [] \<or> ms_resourceVersion m = [] \<or> ms_deletionTimestamp m \<noteq> None then None else Some m)"

text \<open>\<open>json.Compact\<close> of a record that must be an object.\<close>

definition compact_object :: "'a inventory_env_scheme \<Rightarrow> string \<Rightarrow> string option" where
  "compact_object env r =
     (case json_compact env r of
        None \<Rightarrow> None
      | Some c \<Rightarrow> (case c of [] \<Rightarrow> None | ch # _ \<Rightarrow> if ch = CHR ''{'' then Some c else None))"

definition frozen_incarnation :: "snapshot \<Rightarrow> bool" where
  "frozen_incarnation sn =
     (let meta = Metadata sn in
      Frozen sn \<and> cm_uid meta \<noteq> [] \<and> cm_resourceVersion meta \<noteq> [] \<and> cm_deletionTimestamp meta = None)"

definition reload_journal ::
  "'a inventory_env_scheme \<Rightarrow> ('w, 'b) inventory_maps_scheme option \<Rightarrow> string \<Rightarrow> snapshot \<Rightarrow> string \<Rightarrow> ('w, unit) io" where
  "reload_journal env maps cluster sn what =
     io_bind (Load env (inventory_store maps cluster (cm_name (Metadata sn)) (cm_uid (Metadata sn)))) (\<lambda>current.
     io_lift (case ContinuesExecution env current sn of Inl e \<Rightarrow> Inl (wrap (what @ '' journal changed: '') e) | Inr _ \<Rightarrow> Inr ()))"

definition ReserveReceiveRetirement ::
  "'a inventory_env_scheme \<Rightarrow> ('w, 'b) inventory_maps_scheme option \<Rightarrow> string \<Rightarrow> string \<Rightarrow> mesh_secret option \<Rightarrow> snapshot \<Rightarrow> string \<Rightarrow>
   ('w, unit) io" where
  "ReserveReceiveRetirement env maps cluster expectedUID mesh sn intent =
     (case live_mesh mesh of
        None \<Rightarrow> io_lift (Inl (Error ''retirement requires live storage and admitted inventory identity''))
      | Some m \<Rightarrow>
          io_bind (io_lift (guard (\<not> Option.is_none maps \<and> expectedUID \<noteq> []) ''retirement requires live storage and admitted inventory identity'')) (\<lambda>_.
          case compact_object env intent of
            None \<Rightarrow> io_lift (Inl (Error ''retirement requires an object intent''))
          | Some compact \<Rightarrow>
              io_bind (io_lift (guard (frozen_incarnation sn) ''retirement requires a frozen journal incarnation'')) (\<lambda>_.
              io_bind (io_lift (DecodeReceiveTransition env sn cluster)) (\<lambda>plan.
              let p = plan_fields plan; uid = pn_machineUID p; journal = cm_uid (Metadata sn) in
              io_bind (io_lift (guard (RetirementFrozen env sn) ''retirement requires completed or explicitly fenced interrupted history'')) (\<lambda>_.
              io_bind (read_inventory env maps cluster m) (\<lambda>(v, obj).
              io_bind (io_lift (guard (cm_uid obj = expectedUID \<and> scope_matches p v) ''retirement inventory identity changed'')) (\<lambda>_.
              io_bind (io_lift (CheckJournal v uid journal)) (\<lambda>_.
              let pub = publication_of (iv_publications v) uid in
              io_bind (io_lift (guard (pb_journalUID pub = journal) ''retirement requires explicitly published journal identity'')) (\<lambda>_.
              io_bind (io_lift (guard (pb_retirement pub = [] \<or> pb_retirement pub = compact)
                         ''retirement intent already exists with different contents'')) (\<lambda>_.
              io_bind (reload_journal env maps cluster sn ''retirement'') (\<lambda>_.
              io_bind (io_lift (marshalled env (set_publication v uid (pub\<lparr>pb_retirement := compact\<rparr>)))) (\<lambda>raw.
              put_checked maps obj raw ''persisted retirement differs from admitted intent''))))))))))))"

record 'w evidence_write =
  ew_previous :: string
  ew_record :: string
  ew_finalize :: bool
  ew_beforeWrite :: "('w, unit) io option"

definition evidence_admitted :: "bool \<Rightarrow> string \<Rightarrow> string \<Rightarrow> publication \<Rightarrow> unit res" where
  "evidence_admitted finalize previous compact pub =
     (if pb_finalization pub \<noteq> [] \<and> (\<not> finalize \<or> pb_finalization pub \<noteq> compact)
        then Inl (Error ''finalized retirement evidence cannot be replaced'')
      else if previous \<noteq> []
        then (if pb_completion pub \<noteq> previous then Inl (Error ''completion refresh evidence changed'') else Inr ())
      else if pb_completion pub \<noteq> [] \<and> pb_completion pub \<noteq> compact
        then Inl (Error ''completion evidence already exists with different contents'')
      else Inr ())"

definition same_revision :: "config_map \<Rightarrow> config_map \<Rightarrow> bool" where
  "same_revision obj expected =
     (cm_uid obj = cm_uid expected \<and> cm_resourceVersion obj = cm_resourceVersion expected \<and> cm_name obj = cm_name expected \<and>
      cm_namespace obj = cm_namespace expected)"

definition live_revision :: "config_map \<Rightarrow> bool" where
  "live_revision meta = (cm_uid meta \<noteq> [] \<and> cm_resourceVersion meta \<noteq> [] \<and> cm_deletionTimestamp meta = None)"

definition before_write :: "('w, unit) io option \<Rightarrow> ('w, unit) io" where
  "before_write b = (case b of None \<Rightarrow> io_lift (Inr ()) | Some check \<Rightarrow> check)"

definition writeReceiveRetirementCompletion ::
  "'a inventory_env_scheme \<Rightarrow> 'w ctx \<Rightarrow> ('w, 'b) inventory_maps_scheme option \<Rightarrow> string \<Rightarrow> config_map \<Rightarrow> mesh_secret option \<Rightarrow> snapshot \<Rightarrow>
   string \<Rightarrow> 'w evidence_write \<Rightarrow> ('w, unit) io" where
  "writeReceiveRetirementCompletion env ctx maps cluster expected mesh sn intent write =
     (case live_mesh mesh of
        None \<Rightarrow> io_lift (Inl (Error ''completion requires exact live inventory and mesh revisions''))
      | Some m \<Rightarrow>
          io_bind (io_lift (guard (\<not> Option.is_none maps \<and> live_revision expected) ''completion requires exact live inventory and mesh revisions'')) (\<lambda>_.
          case compact_object env (ew_record write) of
            None \<Rightarrow> io_lift (Inl (Error ''completion requires an object evidence record''))
          | Some compact \<Rightarrow>
              io_bind (io_lift (guard (frozen_incarnation sn) ''completion requires a frozen journal incarnation'')) (\<lambda>_.
              io_bind (io_lift (DecodeReceiveTransition env sn cluster)) (\<lambda>plan.
              let p = plan_fields plan; uid = pn_machineUID p; journal = cm_uid (Metadata sn) in
              io_bind (io_lift (guard (RetirementFrozen env sn) ''retirement requires completed or explicitly fenced interrupted history'')) (\<lambda>_.
              io_bind (read_inventory env maps cluster m) (\<lambda>(v, obj).
              io_bind (io_lift (guard (same_revision obj expected \<and> scope_matches p v) ''completion inventory revision or scope changed'')) (\<lambda>_.
              io_bind (io_lift (CheckJournal v uid journal)) (\<lambda>_.
              let pub = publication_of (iv_publications v) uid in
              io_bind (io_lift (guard (pb_journalUID pub = journal \<and> pb_retirement pub \<noteq> [] \<and> pb_retirement pub = intent)
                         ''completion withdrawal intent changed'')) (\<lambda>_.
              io_bind (io_lift (evidence_admitted (ew_finalize write) (ew_previous write) compact pub)) (\<lambda>_.
              io_bind (reload_journal env maps cluster sn ''completion'') (\<lambda>_.
              io_bind (io_lift (marshalled env (set_publication v uid
                         (if ew_finalize write then pub\<lparr>pb_finalization := compact\<rparr> else pub\<lparr>pb_completion := compact\<rparr>)))) (\<lambda>raw.
              io_bind (before_write (ew_beforeWrite write)) (\<lambda>_.
              io_bind (check_ctx ctx) (\<lambda>_.
              put_checked maps obj raw ''persisted completion differs from admitted evidence''))))))))))))))"

definition RecordReceiveRetirementCompletion ::
  "'a inventory_env_scheme \<Rightarrow> 'w ctx \<Rightarrow> ('w, 'b) inventory_maps_scheme option \<Rightarrow> string \<Rightarrow> config_map \<Rightarrow> mesh_secret option \<Rightarrow> snapshot \<Rightarrow>
   string \<Rightarrow> string \<Rightarrow> ('w, unit) io" where
  "RecordReceiveRetirementCompletion env ctx maps cluster expected mesh sn intent completion =
     writeReceiveRetirementCompletion env ctx maps cluster expected mesh sn intent
       \<lparr>ew_previous = [], ew_record = completion, ew_finalize = False, ew_beforeWrite = None\<rparr>"

definition RefreshReceiveRetirementCompletion ::
  "'a inventory_env_scheme \<Rightarrow> 'w ctx \<Rightarrow> ('w, 'b) inventory_maps_scheme option \<Rightarrow> string \<Rightarrow> config_map \<Rightarrow> mesh_secret option \<Rightarrow> snapshot \<Rightarrow>
   string \<Rightarrow> string \<Rightarrow> string \<Rightarrow> ('w, unit) io" where
  "RefreshReceiveRetirementCompletion env ctx maps cluster expected mesh sn intent previous completion =
     io_bind (io_lift (guard (previous \<noteq> []) ''completion refresh requires previous evidence'')) (\<lambda>_.
     writeReceiveRetirementCompletion env ctx maps cluster expected mesh sn intent
       \<lparr>ew_previous = previous, ew_record = completion, ew_finalize = False, ew_beforeWrite = None\<rparr>)"

definition RecordReceiveRetirementFinalization ::
  "'a inventory_env_scheme \<Rightarrow> 'w ctx \<Rightarrow> ('w, 'b) inventory_maps_scheme option \<Rightarrow> string \<Rightarrow> config_map \<Rightarrow> mesh_secret option \<Rightarrow> snapshot \<Rightarrow>
   string \<Rightarrow> string \<Rightarrow> string \<Rightarrow> ('w, unit) io option \<Rightarrow> ('w, unit) io" where
  "RecordReceiveRetirementFinalization env ctx maps cluster expected mesh sn intent completion finalization beforeWrite =
     io_bind (io_lift (guard (completion \<noteq> [] \<and> \<not> Option.is_none beforeWrite)
                ''finalization requires consumed evidence and a live write-boundary check'')) (\<lambda>_.
     writeReceiveRetirementCompletion env ctx maps cluster expected mesh sn intent
       \<lparr>ew_previous = completion, ew_record = finalization, ew_finalize = True, ew_beforeWrite = beforeWrite\<rparr>)"

section \<open>Release\<close>

definition member_evidence :: "'a inventory_env_scheme \<Rightarrow> string \<Rightarrow> snapshot \<Rightarrow> publication \<Rightarrow> bool" where
  "member_evidence env uid sn pub =
     (let meta = Metadata sn in
      uid \<noteq> [] \<and> RetirementFrozen env sn \<and> live_revision meta \<and> pb_journalUID pub = cm_uid meta \<and> pb_plan pub = [] \<and>
      pb_finalization pub \<noteq> [])"

definition member_state :: "inventory \<Rightarrow> string \<Rightarrow> string \<Rightarrow> publication \<Rightarrow> bool res" where
  "member_state v uid journal pub =
     (case Mapping.lookup (iv_released v) uid of
        Some retired \<Rightarrow> if retired \<noteq> pub then Inl (Error ''released journal evidence cannot be replaced'') else Inr True
      | None \<Rightarrow>
          (case CheckJournal v uid journal of
             Inl e \<Rightarrow> Inl e
           | Inr _ \<Rightarrow>
               if publication_of (iv_publications v) uid \<noteq> pub then Inl (Error ''release consumed publication changed'') else Inr False))"

definition consumed_of :: "(string \<times> publication) list \<Rightarrow> string \<Rightarrow> publication" where
  "consumed_of consumed uid = (case map_of consumed uid of None \<Rightarrow> zero_publication | Some p \<Rightarrow> p)"

text \<open>The loop over the group; it returns how many members were released before.\<close>

fun release_members ::
  "'a inventory_env_scheme \<Rightarrow> ('w, 'b) inventory_maps_scheme option \<Rightarrow> string \<Rightarrow> inventory \<Rightarrow> (string \<times> snapshot) list \<Rightarrow>
   (string \<times> publication) list \<Rightarrow> nat \<Rightarrow> string list \<Rightarrow> ('w, nat) io" where
  "release_members env maps cluster v snapshots consumed released [] w = (Inr released, w)"
| "release_members env maps cluster v snapshots consumed released (uid # uids) w =
     (let sn = the (map_of snapshots uid); pub = consumed_of consumed uid in
      io_bind (io_lift (guard (member_evidence env uid sn pub) ''release requires each finalized frozen journal incarnation'')) (\<lambda>_.
      io_bind (io_lift (DecodeReceiveTransition env sn cluster)) (\<lambda>plan.
      io_bind (io_lift (guard (pn_machineUID (plan_fields plan) = uid \<and> scope_matches (plan_fields plan) v) ''release journal scope changed'')) (\<lambda>_.
      io_bind (io_lift (member_state v uid (cm_uid (Metadata sn)) pub)) (\<lambda>already.
      io_bind (reload_journal env maps cluster sn ''release'') (\<lambda>_.
      release_members env maps cluster v snapshots consumed (if already then Suc released else released) uids))))) w)"

definition release_group :: "inventory \<Rightarrow> string list \<Rightarrow> (string \<times> publication) list \<Rightarrow> inventory" where
  "release_group v uids consumed =
     v\<lparr>iv_released := fold (\<lambda>uid m. Mapping.update uid (consumed_of consumed uid) m) uids (iv_released v),
       iv_publications := fold Mapping.delete uids (iv_publications v),
       iv_machineUIDs := map_option (filter (\<lambda>uid. uid \<notin> set uids)) (iv_machineUIDs v)\<rparr>"

definition ReleaseReceiveJournals ::
  "'a inventory_env_scheme \<Rightarrow> 'w ctx \<Rightarrow> ('w, 'b) inventory_maps_scheme option \<Rightarrow> string \<Rightarrow> config_map \<Rightarrow> mesh_secret option \<Rightarrow>
   (string \<times> snapshot) list \<Rightarrow> (string \<times> publication) list \<Rightarrow> ('w, unit) io option \<Rightarrow> ('w, unit) io" where
  "ReleaseReceiveJournals env ctx maps cluster expected mesh snapshots consumed beforeWrite =
     (case live_mesh mesh of
        None \<Rightarrow> io_lift (Inl (Error ''release requires exact inventory, complete member evidence and a write-boundary authority check''))
      | Some m \<Rightarrow>
          io_bind (io_lift (guard (\<not> Option.is_none maps \<and> live_revision expected \<and> \<not> Option.is_none beforeWrite \<and> snapshots \<noteq> [] \<and>
                     length snapshots = length consumed)
                     ''release requires exact inventory, complete member evidence and a write-boundary authority check'')) (\<lambda>_.
          io_bind (check_ctx ctx) (\<lambda>_.
          io_bind (read_inventory env maps cluster m) (\<lambda>(v, obj).
          io_bind (io_lift (guard (same_revision obj expected) ''release inventory revision or scope changed'')) (\<lambda>_.
          let uids = sort (map fst snapshots) in
          io_bind (release_members env maps cluster v snapshots consumed 0 uids) (\<lambda>released.
          io_bind (io_lift (guard (released = 0 \<or> released = length uids) ''release group is partially retired'')) (\<lambda>_.
          let v' = release_group v uids consumed in
          io_bind (io_lift (inventory_validate env v')) (\<lambda>_.
          io_bind (io_lift (marshalled env v')) (\<lambda>raw.
          io_bind (before_write beforeWrite) (\<lambda>_.
          io_bind (check_ctx ctx) (\<lambda>_.
          put_checked maps obj raw ''persisted release differs from admitted evidence'')))))))))))"

definition ReleaseReceiveJournal ::
  "'a inventory_env_scheme \<Rightarrow> 'w ctx \<Rightarrow> ('w, 'b) inventory_maps_scheme option \<Rightarrow> string \<Rightarrow> config_map \<Rightarrow> mesh_secret option \<Rightarrow>
   snapshot \<Rightarrow> publication \<Rightarrow> ('w, unit) io option \<Rightarrow> ('w, unit) io" where
  "ReleaseReceiveJournal env ctx maps cluster expected mesh sn consumed beforeWrite =
     io_bind (io_lift (DecodeReceiveTransition env sn cluster)) (\<lambda>plan.
     let uid = pn_machineUID (plan_fields plan) in
     ReleaseReceiveJournals env ctx maps cluster expected mesh [(uid, sn)] [(uid, consumed)] beforeWrite)"

end
