(* ===== verification/Inventory_Life.thy ===== *)
theory Inventory_Life
  imports Inventory
begin

text \<open>
  The life of a machine in the inventory of receiver journals: what a valid inventory says of it, what each operation is to
  make of that, that every successful operation stores its own step, and what any sequence of steps keeps.
\<close>

section \<open>Well-formed inventories\<close>

lemma every_iff: "every m P \<longleftrightarrow> (\<forall>k v. Mapping.lookup m k = Some v \<longrightarrow> P k v)"
proof -
  have "k \<in> Mapping.keys m" if "Mapping.lookup m k = Some v" for k v using that by (simp add: keys_is_none_rep)
  then show ?thesis unfolding every_def by (fastforce split: option.splits)
qed

definition publication_wf :: "'a inventory_env_scheme \<Rightarrow> publication \<Rightarrow> bool" where
  "publication_wf env p =
     ((pb_plan p = []) \<noteq> (pb_journalUID p = []) \<and> completion_state env p \<and> finalization_state env p \<and> retirement_state env p)"

definition released_wf :: "'a inventory_env_scheme \<Rightarrow> publication \<Rightarrow> bool" where
  "released_wf env p = (pb_journalUID p \<noteq> [] \<and> pb_plan p = [] \<and> pb_finalization p \<noteq> [] \<and> released_record env p)"

definition scoped :: "inventory \<Rightarrow> bool" where
  "scoped v = (iv_version v = 1 \<and> iv_clusterUID v \<noteq> [] \<and> iv_namespace v \<noteq> [] \<and> iv_meshName v \<noteq> [] \<and> iv_meshUID v \<noteq> [] \<and> iv_machineUIDs v \<noteq> None)"

lemma inventory_validate_iff:
  "inventory_validate env v = Inr () \<longleftrightarrow>
     scoped v \<and> ordered_uids [] (uids_of v) \<and>
     (\<forall>uid p. Mapping.lookup (iv_publications v) uid = Some p \<longrightarrow> uid \<in> set (uids_of v) \<and> publication_wf env p) \<and>
     (\<forall>uid p. Mapping.lookup (iv_released v) uid = Some p \<longrightarrow>
        uid \<noteq> [] \<and> TrimSpace uid = uid \<and> uid \<notin> set (uids_of v) \<and> Mapping.lookup (iv_publications v) uid = None \<and> released_wf env p)"
proof -
  have "inventory_validate env v = Inr () \<longleftrightarrow>
     scoped v \<and> ordered_uids [] (uids_of v) \<and> every (iv_publications v) (publication_state (uids_of v)) \<and>
     every (iv_publications v) (\<lambda>_. completion_state env) \<and> every (iv_publications v) (\<lambda>_. finalization_state env) \<and>
     every (iv_publications v) (\<lambda>_. retirement_state env) \<and>
     every (iv_released v) (\<lambda>uid _. uid \<noteq> [] \<and> TrimSpace uid = uid \<and> uid \<notin> set (uids_of v)) \<and>
     every (iv_released v) (\<lambda>uid _. Mapping.lookup (iv_publications v) uid = None) \<and>
     every (iv_released v) (\<lambda>_ p. pb_journalUID p \<noteq> [] \<and> pb_plan p = [] \<and> pb_finalization p \<noteq> []) \<and>
     every (iv_released v) (\<lambda>_. released_record env)"
    unfolding inventory_validate_def scoped_def by (simp add: if_Inl_Inr)
  also have "\<dots> \<longleftrightarrow> scoped v \<and> ordered_uids [] (uids_of v) \<and>
     (\<forall>uid p. Mapping.lookup (iv_publications v) uid = Some p \<longrightarrow> uid \<in> set (uids_of v) \<and> publication_wf env p) \<and>
     (\<forall>uid p. Mapping.lookup (iv_released v) uid = Some p \<longrightarrow>
        uid \<noteq> [] \<and> TrimSpace uid = uid \<and> uid \<notin> set (uids_of v) \<and> Mapping.lookup (iv_publications v) uid = None \<and> released_wf env p)"
    unfolding every_iff publication_state_def publication_wf_def released_wf_def by blast
  finally show ?thesis .
qed

lemma ordered_uids_iff:
  "ordered_uids previous uids \<longleftrightarrow> sorted_wrt (<) (previous # uids) \<and> (\<forall>uid \<in> set uids. uid \<noteq> [] \<and> TrimSpace uid = uid)"
  by (induction uids arbitrary: previous) (auto intro: less_trans)

section \<open>The life of a machine\<close>

text \<open>
  What an inventory says of one machine: not reserved, reserved without a prepared plan, in the publications (with a plan, or
  with a journal and the records of its retirement), or released.
\<close>

datatype stage = Unreserved | Unpublished | Active publication | Released publication

definition stage_of :: "inventory \<Rightarrow> string \<Rightarrow> stage" where
  "stage_of v uid =
     (case Mapping.lookup (iv_released v) uid of
        Some p \<Rightarrow> Released p
      | None \<Rightarrow>
          if uid \<notin> set (uids_of v) then Unreserved
          else (case Mapping.lookup (iv_publications v) uid of None \<Rightarrow> Unpublished | Some p \<Rightarrow> Active p))"

text \<open>
  The operations on an inventory, each with the identities and records it was called with, and what each makes of the stages:
  a reservation takes a machine that is neither reserved nor released; a publication replaces the reserved plan, which is the
  journal's, by the UID of the journal; a withdrawal, a completion and a finalization each set one record of a publication of
  the journal, which is frozen, over the record before it; a release moves all its machines, finalized with the evidence it was
  called with, out of the publications at once. Every other machine stays as it is.
\<close>

datatype inventory_op =
    Reserve_op string string
  | Publish_op string snapshot
  | Withdraw_op string snapshot string
  | Complete_op string snapshot string string string
  | Finalize_op string snapshot string string string
  | Release_op "string list" "string \<Rightarrow> snapshot" "string \<Rightarrow> publication"

definition retired_journal :: "'a journal_env_scheme \<Rightarrow> snapshot \<Rightarrow> publication \<Rightarrow> bool" where
  "retired_journal env sn p =
     (pb_journalUID p \<noteq> [] \<and> (\<exists>obj. sn_object sn = Some obj \<and> cm_immutable obj = Some True \<and> cm_uid obj = pb_journalUID p) \<and>
      ((\<exists>v. snapshot_View env sn = Inr v \<and> vw_complete v \<and> vw_servingGeneration v \<noteq> []) \<or> hexToken (WithdrawalIntentHash sn) 32))"

fun performs :: "'a journal_env_scheme \<Rightarrow> inventory_op \<Rightarrow> (string \<Rightarrow> stage) \<Rightarrow> (string \<Rightarrow> stage) \<Rightarrow> bool" where
  "performs env (Reserve_op uid plan) s t =
     (s uid = Unreserved \<and> t = s(uid := (if plan = [] then Unpublished else Active (zero_publication\<lparr>pb_plan := plan\<rparr>))))"
| "performs env (Publish_op uid sn) s t =
     (\<exists>p. s uid = Active p \<and> pb_journalUID p = [] \<and> pb_plan p = snapshot_Plan sn \<and> cm_uid (Metadata sn) \<noteq> [] \<and>
        t = s(uid := Active (zero_publication\<lparr>pb_journalUID := cm_uid (Metadata sn)\<rparr>)))"
| "performs env (Withdraw_op uid sn intent) s t =
     (\<exists>p. s uid = Active p \<and> retired_journal env sn p \<and> intent \<noteq> [] \<and> (pb_retirement p = [] \<and> pb_finalization p = [] \<or> pb_retirement p = intent) \<and>
        t = s(uid := Active (p\<lparr>pb_retirement := intent\<rparr>)))"
| "performs env (Complete_op uid sn intent previous c) s t =
     (\<exists>p. s uid = Active p \<and> retired_journal env sn p \<and> pb_retirement p \<noteq> [] \<and> pb_retirement p = intent \<and> pb_finalization p = [] \<and> c \<noteq> [] \<and>
        (if previous = [] then pb_completion p = [] \<or> pb_completion p = c else pb_completion p = previous) \<and>
        t = s(uid := Active (p\<lparr>pb_completion := c\<rparr>)))"
| "performs env (Finalize_op uid sn intent c f) s t =
     (\<exists>p. s uid = Active p \<and> retired_journal env sn p \<and> pb_retirement p \<noteq> [] \<and> pb_retirement p = intent \<and> pb_completion p \<noteq> [] \<and>
        pb_completion p = c \<and> f \<noteq> [] \<and> (pb_finalization p = [] \<or> pb_finalization p = f) \<and> t = s(uid := Active (p\<lparr>pb_finalization := f\<rparr>)))"
| "performs env (Release_op uids sn consumed) s t =
     (uids \<noteq> [] \<and> (\<forall>uid \<in> set uids. retired_journal env (sn uid) (consumed uid) \<and> pb_finalization (consumed uid) \<noteq> []) \<and>
      ((\<forall>uid \<in> set uids. s uid = Active (consumed uid)) \<or> (\<forall>uid \<in> set uids. s uid = Released (consumed uid))) \<and>
      t = (\<lambda>uid. if uid \<in> set uids then Released (consumed uid) else s uid))"

text \<open>When an operation has nothing to write: the machine is reserved with the same plan, or its publication is the journal's.\<close>

fun in_place :: "inventory_op \<Rightarrow> (string \<Rightarrow> stage) \<Rightarrow> bool" where
  "in_place (Reserve_op uid plan) s =
     (if plan = [] then s uid = Unpublished \<or> (\<exists>p. s uid = Active p) else \<exists>p. s uid = Active p \<and> pb_journalUID p = [] \<and> pb_plan p = plan)"
| "in_place (Publish_op uid sn) s = (s uid = Unpublished \<or> (\<exists>p. s uid = Active p \<and> pb_journalUID p \<noteq> [] \<and> pb_journalUID p = cm_uid (Metadata sn)))"
| "in_place _ s = False"

definition same_scope :: "inventory \<Rightarrow> inventory \<Rightarrow> bool" where
  "same_scope v v' =
     (iv_clusterUID v' = iv_clusterUID v \<and> iv_namespace v' = iv_namespace v \<and> iv_meshName v' = iv_meshName v \<and> iv_meshUID v' = iv_meshUID v)"

lemma add_reservation_performs:
  assumes valid: "inventory_validate env v = Inr ()" and add: "add_reservation v uid plan = Inr (Some v')"
  shows "performs env (Reserve_op uid plan) (stage_of v) (stage_of v')" "same_scope v v'"
proof -
  from add have n: "Mapping.lookup (iv_released v) uid = None" "uid \<notin> set (uids_of v)"
    and v': "v' = v\<lparr>iv_publications := (if plan \<noteq> [] then Mapping.update uid (zero_publication\<lparr>pb_plan := plan\<rparr>) (iv_publications v) else iv_publications v),
                iv_machineUIDs := Some (sort (uids_of v @ [uid]))\<rparr>"
    unfolding add_reservation_def by (auto split: if_splits)
  have none: "Mapping.lookup (iv_publications v) uid = None" using valid n(2) unfolding inventory_validate_iff by (metis option.exhaust)
  have u: "set (uids_of v') = insert uid (set (uids_of v))" by (simp add: v' uids_of_def)
  have r: "iv_released v' = iv_released v" by (simp add: v')
  have p: "Mapping.lookup (iv_publications v') k =
      (if k = uid \<and> plan \<noteq> [] then Some (zero_publication\<lparr>pb_plan := plan\<rparr>) else Mapping.lookup (iv_publications v) k)" for k
    by (simp add: v' lookup_update')
  have "stage_of v' = (stage_of v)(uid := (if plan = [] then Unpublished else Active (zero_publication\<lparr>pb_plan := plan\<rparr>)))"
    by (rule ext) (simp add: stage_of_def u r p n none split: option.split)
  moreover have "stage_of v uid = Unreserved" using n by (simp add: stage_of_def)
  ultimately show "performs env (Reserve_op uid plan) (stage_of v) (stage_of v')" by simp
  show "same_scope v v'" by (simp add: same_scope_def v')
qed

lemma add_reservation_settled:
  assumes "add_reservation v uid plan = Inr None"
  shows "in_place (Reserve_op uid plan) (stage_of v)"
  using assms by (auto simp: add_reservation_def stage_of_def split: if_splits option.splits)

lemma retired_journalI:
  assumes "RetirementFrozen env sn" and "pb_journalUID p = cm_uid (Metadata sn)" and "pb_journalUID p \<noteq> []"
  shows "retired_journal env sn p"
  using assms by (auto simp: retired_journal_def RetirementFrozen_def Frozen_def Metadata_def empty_map_def split: option.splits sum.splits)

lemma published_active:
  assumes "inventory_validate env v = Inr ()" and "Mapping.lookup (iv_publications v) uid = Some p"
  shows "Mapping.lookup (iv_released v) uid = None" "uid \<in> set (uids_of v)" "publication_wf env p"
proof -
  note v = assms(1) [unfolded inventory_validate_iff]
  show "uid \<in> set (uids_of v)" "publication_wf env p" using v assms(2) by blast+
  show "Mapping.lookup (iv_released v) uid = None"
  proof (cases "Mapping.lookup (iv_released v) uid")
    case (Some q)
    with v have "Mapping.lookup (iv_publications v) uid = None" by blast
    with assms(2) show ?thesis by simp
  qed
qed

lemma stage_Active: "inventory_validate env v = Inr () \<Longrightarrow> Mapping.lookup (iv_publications v) uid = Some p \<Longrightarrow> stage_of v uid = Active p"
  using published_active [of env v uid p] by (simp add: stage_of_def)

lemma stage_Released: "Mapping.lookup (iv_released v) uid = Some p \<Longrightarrow> stage_of v uid = Released p"
  by (simp add: stage_of_def)

lemma set_publication_stage:
  assumes valid: "inventory_validate env v = Inr ()" and old: "Mapping.lookup (iv_publications v) uid = Some p"
  shows "stage_of (set_publication v uid q) = (stage_of v)(uid := Active q)"
proof -
  note rel = published_active(1) [OF assms] and u = published_active(2) [OF assms]
  have k: "uids_of (set_publication v uid q) = uids_of v" "iv_released (set_publication v uid q) = iv_released v"
    "Mapping.lookup (iv_publications (set_publication v uid q)) k = (if k = uid then Some q else Mapping.lookup (iv_publications v) k)" for k
    by (simp_all add: set_publication_def uids_of_def lookup_update')
  show ?thesis by (rule ext) (simp add: stage_of_def k rel u split: option.split)
qed

lemma set_publication_valid:
  assumes "inventory_validate env v = Inr ()" and "Mapping.lookup (iv_publications v) uid = Some p" and "publication_wf env q"
  shows "inventory_validate env (set_publication v uid q) = Inr ()"
proof -
  note v = assms(1) [unfolded inventory_validate_iff]
  note published_active(1,2) [OF assms(1,2)]
  with v assms(3) show ?thesis
    unfolding inventory_validate_iff by (auto simp: set_publication_def uids_of_def scoped_def lookup_update')
qed

lemma lookup_updates: "Mapping.lookup (fold (\<lambda>k m. Mapping.update k (f k) m) ks m) k = (if k \<in> set ks then Some (f k) else Mapping.lookup m k)"
  by (induction ks arbitrary: m) (auto simp: lookup_update')

lemma lookup_deletes: "Mapping.lookup (fold Mapping.delete ks m) k = (if k \<in> set ks then None else Mapping.lookup m k)"
  by (induction ks arbitrary: m) (auto simp: Mapping.lookup_delete lookup_delete_neq)

lemma release_group_stage:
  "stage_of (release_group v uids consumed) uid = (if uid \<in> set uids then Released (consumed_of consumed uid) else stage_of v uid)"
proof -
  have u: "set (uids_of (release_group v uids consumed)) = set (uids_of v) - set uids"
    by (auto simp: release_group_def uids_of_def split: option.splits)
  show ?thesis unfolding stage_of_def u by (simp add: release_group_def lookup_updates lookup_deletes split: option.split)
qed

section \<open>Records of objects\<close>

lemma strip_front_stops:
  assumes "\<And>w. w \<in> set ws \<Longrightarrow> c \<notin> set w"
  shows "\<exists>ys. strip_front ws (xs @ [c]) = ys @ [c]"
  using assms
proof (induction "length xs" arbitrary: xs rule: less_induct)
  case less
  show ?case
  proof (cases "find (\<lambda>w. w \<noteq> [] \<and> prefix w (xs @ [c])) ws")
    case None
    then show ?thesis by (subst strip_front.simps) simp
  next
    case (Some w)
    then have w: "w \<in> set ws" "w \<noteq> []" "prefix w (xs @ [c])" by (auto simp: find_Some_iff) (metis nth_mem)
    have "c \<notin> set w" by (rule less.prems) (rule w(1))
    with w(3) have p: "prefix w xs" by (auto simp: prefix_append prefix_Cons)
    with w(2) have "length (drop (length w) xs) < length xs" by (cases w) (auto dest: prefix_length_le)
    then obtain ys where "strip_front ws (drop (length w) xs @ [c]) = ys @ [c]" using less.hyps less.prems by blast
    moreover have "drop (length w) (xs @ [c]) = drop (length w) xs @ [c]" using p by (auto dest: prefix_length_le)
    ultimately show ?thesis using Some by (subst strip_front.simps) simp
  qed
qed

lemma TrimSpace_brace: "\<exists>s. TrimSpace (CHR ''{'' # r) = CHR ''{'' # s"
proof -
  have runes: "CHR ''{'' \<notin> set w" if "w \<in> set space_runes" for w using that by (auto simp: space_runes_def)
  have "strip_front space_runes (CHR ''{'' # r) = CHR ''{'' # r"
  proof (rule strip_front_id)
    fix w :: string
    assume "w \<in> set space_runes" "w \<noteq> []"
    with runes [of w] show "\<not> prefix w (CHR ''{'' # r)" by (cases w) auto
  qed
  moreover obtain ys where "strip_front (map rev space_runes) (rev r @ CHR ''{'' # []) = ys @ [CHR ''{'']"
  proof -
    have "CHR ''{'' \<notin> set w" if "w \<in> set (map rev space_runes)" for w using that runes by auto
    then have "\<exists>ys. strip_front (map rev space_runes) (rev r @ [CHR ''{'']) = ys @ [CHR ''{'']" by (rule strip_front_stops)
    with that show ?thesis by blast
  qed
  ultimately show ?thesis by (simp add: TrimSpace_def)
qed

text \<open>\<open>json.Compact\<close> returns valid JSON.\<close>

definition compact_valid :: "'a inventory_env_scheme \<Rightarrow> bool" where
  "compact_valid env = (\<forall>r c. json_compact env r = Some c \<longrightarrow> json_valid env c)"

lemma compact_object_record:
  assumes "compact_valid env" and "compact_object env r = Some c"
  shows "object_record env c" "c \<noteq> []" "TrimSpace c \<noteq> ''null'' \<and> json_valid env c"
proof -
  from assms(2) obtain s where c: "json_compact env r = Some c" "c = CHR ''{'' # s"
    by (auto simp: compact_object_def split: option.splits list.splits if_splits)
  with assms(1) have v: "json_valid env c" unfolding compact_valid_def by blast
  obtain s' where "TrimSpace c = CHR ''{'' # s'" using TrimSpace_brace [of s] c(2) by blast
  with v c(2) show "object_record env c" "c \<noteq> []" "TrimSpace c \<noteq> ''null'' \<and> json_valid env c" by (simp_all add: object_record_def)
qed

section \<open>Calls\<close>

lemma inventory_store_simps [simp]:
  "configMaps (inventory_store maps cluster name uid) = map_option config_maps.truncate maps"
  "s_name (inventory_store maps cluster name uid) = name" "s_expectedUID (inventory_store maps cluster name uid) = uid"
  by (simp_all add: inventory_store_def)

lemma truncate_maps [simp]: "api_update (config_maps.truncate api) = api_update api" "api_create (config_maps.truncate api) = api_create api"
  "api_get (config_maps.truncate api) = api_get api"
  by (simp_all add: config_maps.defs)

lemma admit_inventory_Inr:
  "admit_inventory env cluster ns meshName meshUID obj = Inr v \<longleftrightarrow>
     cm_name obj = ReceiveInventoryName env meshUID \<and> cm_namespace obj = ns \<and> cm_uid obj \<noteq> [] \<and> cm_resourceVersion obj \<noteq> [] \<and>
     cm_deletionTimestamp obj = None \<and> json_inventory env (index (cm_data obj) receiveInventoryKey) = Some (v, True) \<and>
     inventory_validate env v = Inr () \<and> iv_clusterUID v = cluster \<and> iv_namespace v = ns \<and> iv_meshName v = meshName \<and> iv_meshUID v = meshUID"
  unfolding admit_inventory_def by (auto simp: if_Inl_Inr split: option.splits sum.splits)

lemma ReadReceiveInventory_Inr:
  "ReadReceiveInventory env maps cluster ns meshName meshUID w = (Inr (v, obj), w') \<longleftrightarrow>
     (\<exists>api. maps = Some api \<and> inventory_validate env (empty_inventory cluster ns meshName meshUID) = Inr () \<and>
        api_get api (ReceiveInventoryName env meshUID) w = (Inr obj, w') \<and> admit_inventory env cluster ns meshName meshUID obj = Inr v)"
  unfolding ReadReceiveInventory_def as_api_def by (auto split: sum.splits option.splits prod.splits error.splits)

lemma read_inventory_Inr:
  "read_inventory env maps cluster m w = (Inr (v, obj), w') \<longleftrightarrow>
     ReadReceiveInventory env maps cluster (ms_namespace m) (ms_name m) (ms_uid m) w = (Inr (v, obj), w')"
  unfolding read_inventory_def by (auto split: prod.splits sum.splits)

lemma put_inventory_Inr:
  "put_inventory maps obj raw w = (Inr stored, w') \<longleftrightarrow> (\<exists>api. maps = Some api \<and> api_update api (with_inventory obj raw) w = (Inr stored, w'))"
  unfolding put_inventory_def api_call_Inr by auto

lemma put_checked_Inr:
  "put_checked maps obj raw msg w = (Inr u, w') \<Longrightarrow> \<exists>stored. put_inventory maps obj raw w = (Inr stored, w')"
  unfolding put_checked_def io_bind_Inr io_lift_eq by blast

lemma live_mesh_Some:
  "live_mesh mesh = Some m \<longleftrightarrow> mesh = Some m \<and> ms_uid m \<noteq> [] \<and> ms_resourceVersion m \<noteq> [] \<and> ms_deletionTimestamp m = None"
  by (auto simp: live_mesh_def split: option.splits if_splits)

lemma CheckJournal_Inr:
  "CheckJournal v uid journal = Inr () \<longleftrightarrow>
     uid \<in> set (uids_of v) \<and> (\<forall>p. Mapping.lookup (iv_publications v) uid = Some p \<longrightarrow> pb_journalUID p \<noteq> [] \<and> pb_journalUID p = journal)"
  by (auto simp: CheckJournal_def split: option.splits if_splits)

lemma publication_of_named:
  "pb_journalUID (publication_of m uid) \<noteq> [] \<Longrightarrow> Mapping.lookup m uid = Some (publication_of m uid)"
  by (auto simp: publication_of_def zero_publication_def split: option.splits)

text \<open>A call that wrote: it read \<open>v\<close>, and its last call to the API stored a valid \<open>v'\<close> of the same scope over that.\<close>

definition updates ::
  "'a inventory_env_scheme \<Rightarrow> ('w, 'b) inventory_maps_scheme option \<Rightarrow> string \<Rightarrow> mesh_secret \<Rightarrow> inventory \<Rightarrow> inventory \<Rightarrow> 'w \<Rightarrow> bool" where
  "updates env maps cluster m v v' w' =
     (\<exists>w0 wr obj raw w1 stored. read_inventory env maps cluster m w0 = (Inr (v, obj), wr) \<and> marshal_inventory env v' = Some raw \<and>
        put_inventory maps obj raw w1 = (Inr stored, w') \<and> same_scope v v' \<and> inventory_validate env v' = Inr ())"

lemma updatesI:
  assumes "read_inventory env maps cluster m w0 = (Inr (v, obj), wr)" and "marshalled env v' = Inr raw"
    and "put_inventory maps obj raw w1 = (Inr stored, w')" and "same_scope v v'" and "inventory_validate env v' = Inr ()"
  shows "updates env maps cluster m v v' w'"
proof -
  have "marshal_inventory env v' = Some raw" using assms(2) by (auto simp: marshalled_def split: option.splits)
  with assms(1,3-) show ?thesis unfolding updates_def by blast
qed

lemma read_valid:
  "read_inventory env maps cluster m w0 = (Inr (v, obj), wr) \<Longrightarrow> inventory_validate env v = Inr ()"
  unfolding read_inventory_Inr ReadReceiveInventory_Inr admit_inventory_Inr by blast

section \<open>Effects of the operations\<close>

lemma write_reservation_Inr:
  assumes "write_reservation env maps creating uid plan v obj w = (Inr u, w')"
  shows "add_reservation v uid plan = Inr None \<and> w' = w \<or>
    (\<exists>v' raw stored. add_reservation v uid plan = Inr (Some v') \<and> inventory_validate env v' = Inr () \<and> marshalled env v' = Inr raw \<and>
       (if creating then \<exists>api. maps = Some api \<and> api_create api (with_inventory obj raw) w = (Inr stored, w')
        else put_inventory maps obj raw w = (Inr stored, w')))"
proof -
  from assms obtain change where c: "add_reservation v uid plan = Inr change"
    and rest: "(case change of None \<Rightarrow> io_lift (Inr ()) | Some v' \<Rightarrow>
         io_bind (io_lift (inventory_validate env v')) (\<lambda>_.
         io_bind (io_lift (marshalled env v')) (\<lambda>raw.
         io_bind (if creating then api_call (inventory_store maps [] [] []) (\<lambda>api. api_create api (with_inventory obj raw))
                  else put_inventory maps obj raw) (\<lambda>_.
         io_lift (Inr ()))))) w = (Inr u, w')"
    unfolding write_reservation_def io_bind_Inr io_lift_eq by blast
  show ?thesis
  proof (cases change)
    case None
    with c rest show ?thesis by (simp add: io_lift_eq)
  next
    case (Some v')
    from rest [unfolded Some option.case io_bind_Inr io_lift_eq] obtain raw stored where "inventory_validate env v' = Inr ()" "marshalled env v' = Inr raw"
      "(if creating then api_call (inventory_store maps [] [] []) (\<lambda>api. api_create api (with_inventory obj raw))
                  else put_inventory maps obj raw) w = (Inr stored, w')"
      by auto
    with c Some show ?thesis by (auto simp: api_call_Inr split: if_splits)
  qed
qed

lemma publication_updates:
  assumes r: "read_inventory env maps cluster m w0 = (Inr (v, obj), wr)" and lk: "Mapping.lookup (iv_publications v) uid = Some p"
    and "marshalled env (set_publication v uid q) = Inr raw" and "put_inventory maps obj raw w1 = (Inr stored, w')"
    and wf: "publication_wf env p \<Longrightarrow> publication_wf env q"
  shows "updates env maps cluster m v (set_publication v uid q) w'" "stage_of v uid = Active p"
    "stage_of (set_publication v uid q) = (stage_of v)(uid := Active q)"
proof -
  note valid = read_valid [OF r]
  show "updates env maps cluster m v (set_publication v uid q) w'"
    using assms(3,4) published_active(3) [OF valid lk]
    by (intro updatesI [OF r] set_publication_valid [OF valid lk] wf) (simp_all add: same_scope_def set_publication_def)
  show "stage_of v uid = Active p" using stage_Active [OF valid lk] .
  show "stage_of (set_publication v uid q) = (stage_of v)(uid := Active q)" using set_publication_stage [OF valid lk] .
qed

lemma retirement_updates:
  assumes "compact_valid env" and "DecodeReceiveTransition env sn cluster = Inr plan" and "compact_object env intent = Some compact"
    and "ReserveReceiveRetirement env maps cluster expectedUID (Some m) sn intent w = (Inr u, w')"
  shows "\<exists>v v'. updates env maps cluster m v v' w' \<and> performs env (Withdraw_op (pn_machineUID (plan_fields plan)) sn compact) (stage_of v) (stage_of v')"
proof -
  let ?uid = "pn_machineUID (plan_fields plan)"
  note c = assms(3)
  have lm: "live_mesh (Some m) = Some m" using assms(4) unfolding ReserveReceiveRetirement_def by (auto simp: live_mesh_def io_lift_eq split: if_splits)
  from assms(4) obtain w0 v obj wr w1 raw where
    g: "frozen_incarnation sn" "RetirementFrozen env sn" and r: "read_inventory env maps cluster m w0 = (Inr (v, obj), wr)"
    and pub: "pb_journalUID (publication_of (iv_publications v) ?uid) = cm_uid (Metadata sn)"
    and old: "pb_retirement (publication_of (iv_publications v) ?uid) = [] \<or> pb_retirement (publication_of (iv_publications v) ?uid) = compact"
    and raw: "marshalled env (set_publication v ?uid ((publication_of (iv_publications v) ?uid)\<lparr>pb_retirement := compact\<rparr>)) = Inr raw"
    and put: "put_checked maps obj raw ''persisted retirement differs from admitted intent'' w1 = (Inr u, w')"
    unfolding ReserveReceiveRetirement_def Let_def lm c option.case
    by (auto simp: io_bind_Inr io_lift_eq guard_Inr assms(2))
  have ne: "pb_journalUID (publication_of (iv_publications v) ?uid) \<noteq> []" using g pub by (auto simp: frozen_incarnation_def Let_def)
  note rec = compact_object_record [OF assms(1) c]
  from put_checked_Inr [OF put] obtain stored where st: "put_inventory maps obj raw w1 = (Inr stored, w')" by blast
  have "publication_wf env ((publication_of (iv_publications v) ?uid)\<lparr>pb_retirement := compact\<rparr>)" if "publication_wf env (publication_of (iv_publications v) ?uid)"
    using that rec ne by (auto simp: publication_wf_def completion_state_def finalization_state_def retirement_state_def)
  note up = publication_updates [OF r publication_of_named [OF ne] raw st this]
  have "pb_retirement (publication_of (iv_publications v) ?uid) = [] \<Longrightarrow> pb_finalization (publication_of (iv_publications v) ?uid) = []"
    using published_active(3) [OF read_valid [OF r] publication_of_named [OF ne]]
    by (auto simp: publication_wf_def completion_state_def finalization_state_def)
  with retired_journalI [OF g(2) pub ne] up old rec(2) show ?thesis by (intro exI conjI) auto
qed

lemma evidence_admitted_Inr:
  "evidence_admitted finalize previous compact p = Inr () \<longleftrightarrow>
     (pb_finalization p = [] \<or> finalize \<and> pb_finalization p = compact) \<and>
     (if previous \<noteq> [] then pb_completion p = previous else pb_completion p = [] \<or> pb_completion p = compact)"
  by (auto simp: evidence_admitted_def)

lemma completion_updates:
  assumes "compact_valid env" and "DecodeReceiveTransition env sn cluster = Inr plan" and "compact_object env (ew_record wr) = Some compact"
    and "ew_finalize wr \<Longrightarrow> ew_previous wr \<noteq> []"
    and "writeReceiveRetirementCompletion env ctx maps cluster expected (Some m) sn intent wr w = (Inr u, w')"
  shows "\<exists>v v'. updates env maps cluster m v v' w' \<and>
    performs env (if ew_finalize wr then Finalize_op (pn_machineUID (plan_fields plan)) sn intent (ew_previous wr) compact
      else Complete_op (pn_machineUID (plan_fields plan)) sn intent (ew_previous wr) compact) (stage_of v) (stage_of v')"
proof -
  let ?uid = "pn_machineUID (plan_fields plan)"
  note c = assms(3)
  have lm: "live_mesh (Some m) = Some m"
    using assms(5) unfolding writeReceiveRetirementCompletion_def by (auto simp: live_mesh_def io_lift_eq split: if_splits)
  define q where "q p = (if ew_finalize wr then p\<lparr>pb_finalization := compact\<rparr> else p\<lparr>pb_completion := compact\<rparr>)" for p :: publication
  from assms(5) obtain w0 v obj w3 w1 raw where
    r: "read_inventory env maps cluster m w0 = (Inr (v, obj), w3)" and g: "frozen_incarnation sn" "RetirementFrozen env sn"
    and pub: "pb_journalUID (publication_of (iv_publications v) ?uid) = cm_uid (Metadata sn)" "pb_retirement (publication_of (iv_publications v) ?uid) \<noteq> []"
      "pb_retirement (publication_of (iv_publications v) ?uid) = intent"
    and ev: "evidence_admitted (ew_finalize wr) (ew_previous wr) compact (publication_of (iv_publications v) ?uid) = Inr ()"
    and raw: "marshalled env (set_publication v ?uid (q (publication_of (iv_publications v) ?uid))) = Inr raw"
    and put: "put_checked maps obj raw ''persisted completion differs from admitted evidence'' w1 = (Inr u, w')"
    unfolding writeReceiveRetirementCompletion_def Let_def q_def [symmetric] lm c option.case
    by (auto simp: io_bind_Inr io_lift_eq guard_Inr assms(2))
  let ?p = "publication_of (iv_publications v) ?uid"
  have ne: "pb_journalUID ?p \<noteq> []" using g pub by (auto simp: frozen_incarnation_def Let_def)
  note rec = compact_object_record [OF assms(1) c]
  from put_checked_Inr [OF put] obtain stored where st: "put_inventory maps obj raw w1 = (Inr stored, w')" by blast
  have fin: "ew_finalize wr \<Longrightarrow> pb_completion ?p \<noteq> []" using ev assms(4) by (auto simp: evidence_admitted_Inr)
  have "publication_wf env (q ?p)" if "publication_wf env ?p"
    using that rec ne pub(2) fin by (auto simp: q_def publication_wf_def completion_state_def finalization_state_def retirement_state_def)
  note up = publication_updates [OF r publication_of_named [OF ne] raw st this]
  note ret = retired_journalI [OF g(2) pub(1) ne]
  have "performs env (if ew_finalize wr then Finalize_op ?uid sn intent (ew_previous wr) compact else Complete_op ?uid sn intent (ew_previous wr) compact)
      (stage_of v) (stage_of (set_publication v ?uid (q ?p)))"
    using up(2,3) ret pub ev assms(4) rec(2) by (cases "ew_finalize wr") (auto simp: q_def evidence_admitted_Inr split: if_splits)
  with up(1) show ?thesis by blast
qed

lemma publish_pending_updates:
  assumes r: "read_inventory env maps cluster m w0 = (Inr (v, obj), wr)" and p: "Mapping.lookup (iv_publications v) uid = Some p" "pb_journalUID p = []"
    and uid: "cm_uid (Metadata sn) \<noteq> []" and call: "publish_pending env rand maps cluster sn now v obj uid p w = (Inr final, w')"
  shows "updates env maps cluster m v (set_publication v uid (zero_publication\<lparr>pb_journalUID := cm_uid (Metadata sn)\<rparr>)) w'"
    "performs env (Publish_op uid sn) (stage_of v) (stage_of (set_publication v uid (zero_publication\<lparr>pb_journalUID := cm_uid (Metadata sn)\<rparr>)))"
proof -
  from call obtain raw w3 stored where pl: "pb_plan p = snapshot_Plan sn"
    and raw: "marshalled env (set_publication v uid (zero_publication\<lparr>pb_journalUID := cm_uid (Metadata sn)\<rparr>)) = Inr raw"
    and put: "put_inventory maps obj raw w3 = (Inr stored, w')"
    unfolding publish_pending_def Let_def io_bind_Inr io_lift_eq guard_Inr by blast
  have "publication_wf env (zero_publication\<lparr>pb_journalUID := cm_uid (Metadata sn)\<rparr>)"
    using uid by (simp add: publication_wf_def zero_publication_def completion_state_def finalization_state_def retirement_state_def)
  note up = publication_updates [OF r p(1) raw put this]
  show "updates env maps cluster m v (set_publication v uid (zero_publication\<lparr>pb_journalUID := cm_uid (Metadata sn)\<rparr>)) w'" using up(1) .
  show "performs env (Publish_op uid sn) (stage_of v) (stage_of (set_publication v uid (zero_publication\<lparr>pb_journalUID := cm_uid (Metadata sn)\<rparr>)))"
    using up(2,3) p(2) uid pl by simp
qed

lemma member_state_Inr:
  assumes "member_state v uid journal p = Inr already" and "pb_journalUID p \<noteq> []"
  shows "if already then Mapping.lookup (iv_released v) uid = Some p
    else Mapping.lookup (iv_released v) uid = None \<and> Mapping.lookup (iv_publications v) uid = Some p"
proof (cases "Mapping.lookup (iv_released v) uid")
  case None
  with assms have "publication_of (iv_publications v) uid = p" "\<not> already" by (auto simp: member_state_def split: sum.splits if_splits)
  with None assms(2) publication_of_named [of "iv_publications v" uid] show ?thesis by simp
next
  case (Some q)
  with assms show ?thesis by (auto simp: member_state_def split: if_splits)
qed

lemma length_filter_all: "length (filter P xs) = length xs \<Longrightarrow> \<forall>x \<in> set xs. P x"
  by (metis filter_id_conv length_filter_less less_irrefl)

lemma release_members_Inr:
  assumes "release_members env maps cluster v snapshots consumed n uids w = (Inr released, w')"
  shows "(\<forall>uid \<in> set uids. retired_journal env (the (map_of snapshots uid)) (consumed_of consumed uid) \<and> pb_finalization (consumed_of consumed uid) \<noteq> [] \<and>
      (Mapping.lookup (iv_released v) uid = Some (consumed_of consumed uid) \<or>
       Mapping.lookup (iv_released v) uid = None \<and> Mapping.lookup (iv_publications v) uid = Some (consumed_of consumed uid))) \<and>
    released = n + length (filter (\<lambda>uid. Mapping.lookup (iv_released v) uid = Some (consumed_of consumed uid)) uids)"
  using assms
proof (induction uids arbitrary: n w)
  case (Cons uid uids)
  then obtain plan already w1 where
    ev: "member_evidence env uid (the (map_of snapshots uid)) (consumed_of consumed uid)"
    and st: "member_state v uid (cm_uid (Metadata (the (map_of snapshots uid)))) (consumed_of consumed uid) = Inr already"
    and rest: "release_members env maps cluster v snapshots consumed (if already then Suc n else n) uids w1 = (Inr released, w')"
    unfolding release_members.simps Let_def io_bind_Inr io_lift_eq guard_Inr by blast
  have j: "retired_journal env (the (map_of snapshots uid)) (consumed_of consumed uid)" "pb_journalUID (consumed_of consumed uid) \<noteq> []"
    and f: "pb_finalization (consumed_of consumed uid) \<noteq> []"
    using ev by (auto simp: member_evidence_def live_revision_def Let_def intro: retired_journalI)
  from member_state_Inr [OF st j(2)] Cons.IH [OF rest] j f show ?case by (auto split: if_splits)
qed simp

lemma release_updates:
  assumes "ReleaseReceiveJournals env ctx maps cluster expected (Some m) snapshots consumed b w = (Inr u, w')"
  shows "\<exists>v v'. updates env maps cluster m v v' w' \<and>
    performs env (Release_op (map fst snapshots) (\<lambda>uid. the (map_of snapshots uid)) (consumed_of consumed)) (stage_of v) (stage_of v')"
proof -
  from assms have lm: "live_mesh (Some m) = Some m"
    unfolding ReleaseReceiveJournals_def by (auto simp: live_mesh_def io_lift_eq split: if_splits)
  define uids where "uids = sort (map fst snapshots)"
  from assms obtain w0 v obj wr n w3 raw w1 where
    r: "read_inventory env maps cluster m w0 = (Inr (v, obj), wr)" and ne: "snapshots \<noteq> []"
    and mem: "release_members env maps cluster v snapshots consumed 0 uids wr = (Inr n, w3)" and n: "n = 0 \<or> n = length uids"
    and val: "inventory_validate env (release_group v uids consumed) = Inr ()"
    and raw: "marshalled env (release_group v uids consumed) = Inr raw"
    and put: "put_checked maps obj raw ''persisted release differs from admitted evidence'' w1 = (Inr u, w')"
    unfolding ReleaseReceiveJournals_def Let_def lm option.case uids_def [symmetric]
    by (auto simp: io_bind_Inr io_lift_eq guard_Inr)
  note valid = read_valid [OF r] and m = release_members_Inr [OF mem]
  have u: "set uids = set (map fst snapshots)" by (simp add: uids_def)
  let ?already = "\<lambda>uid. Mapping.lookup (iv_released v) uid = Some (consumed_of consumed uid)"
  have "(\<forall>uid \<in> set uids. \<not> ?already uid) \<or> (\<forall>uid \<in> set uids. ?already uid)"
    using n conjunct2 [OF m] by (auto simp: filter_empty_conv dest: length_filter_all)
  then have "(\<forall>uid \<in> set uids. stage_of v uid = Active (consumed_of consumed uid)) \<or> (\<forall>uid \<in> set uids. stage_of v uid = Released (consumed_of consumed uid))"
    using conjunct1 [OF m] stage_Active [OF valid] stage_Released by metis
  then have "performs env (Release_op (map fst snapshots) (\<lambda>uid. the (map_of snapshots uid)) (consumed_of consumed)) (stage_of v) (stage_of (release_group v uids consumed))"
    using conjunct1 [OF m] ne unfolding performs.simps u [symmetric] by (auto simp: release_group_stage)
  moreover from put_checked_Inr [OF put] obtain stored where "put_inventory maps obj raw w1 = (Inr stored, w')" by blast
  moreover have "same_scope v (release_group v uids consumed)" by (simp add: same_scope_def release_group_def)
  ultimately show ?thesis using updatesI [OF r raw _ _ val] by blast
qed

section \<open>Stored effects\<close>

text \<open>
  What the API server documents of the other calls, over the object \<open>live w name\<close> of a world: a read returns the live
  object; a creation needs the name to be free and stores the data as sent; and a UID with a resourceVersion
  identifies one state of an object.
\<close>

definition reads_live :: "('w \<Rightarrow> string \<Rightarrow> config_map option) \<Rightarrow> ('w, 'b) inventory_maps_scheme \<Rightarrow> bool" where
  "reads_live live api = (\<forall>n w obj w'. api_get api n w = (Inr obj, w') \<longrightarrow> live w' n = Some obj)"

definition creates_free :: "('w \<Rightarrow> string \<Rightarrow> config_map option) \<Rightarrow> ('w, 'b) inventory_maps_scheme \<Rightarrow> bool" where
  "creates_free live api =
     (\<forall>obj w r w'. api_create api obj w = (Inr r, w') \<longrightarrow>
        live w (cm_name obj) = None \<and> live w' (cm_name obj) = Some r \<and> cm_data r = cm_data obj)"

definition versioned :: "('w \<Rightarrow> string \<Rightarrow> config_map option) \<Rightarrow> bool" where
  "versioned live =
     (\<forall>w w' n c c'. live w n = Some c \<longrightarrow> live w' n = Some c' \<longrightarrow> cm_uid c = cm_uid c' \<longrightarrow>
        cm_resourceVersion c = cm_resourceVersion c' \<longrightarrow> cm_data c = cm_data c')"

definition recorded :: "'a inventory_env_scheme \<Rightarrow> ('w \<Rightarrow> string \<Rightarrow> config_map option) \<Rightarrow> 'w \<Rightarrow> string \<Rightarrow> inventory \<Rightarrow> bool" where
  "recorded env live w name v =
     (\<exists>obj. live w name = Some obj \<and> json_inventory env (index (cm_data obj) receiveInventoryKey) = Some (v, True))"

definition inventory_law :: "('w \<Rightarrow> string \<Rightarrow> config_map option) \<Rightarrow> ('w, 'b) inventory_maps_scheme \<Rightarrow> bool" where
  "inventory_law live api = (cas_api live (config_maps.truncate api) \<and> reads_live live api \<and> creates_free live api \<and> versioned live)"

text \<open>
  The write a call makes: its last call to the API replaced the live inventory \<open>v\<close>, or created the first one over the empty \<open>v\<close>, by the
  text of a valid inventory \<open>v'\<close> of the same mesh and cluster.
\<close>

definition inventory_write ::
  "'a inventory_env_scheme \<Rightarrow> ('w \<Rightarrow> string \<Rightarrow> config_map option) \<Rightarrow> ('w, 'b) inventory_maps_scheme \<Rightarrow> string \<Rightarrow> mesh_secret \<Rightarrow>
   inventory \<Rightarrow> inventory \<Rightarrow> 'w \<Rightarrow> bool" where
  "inventory_write env live api cluster m v v' w' =
     (\<exists>w1 obj stored.
        (api_update api obj w1 = (Inr stored, w') \<and> recorded env live w1 (ReceiveInventoryName env (ms_uid m)) v \<or>
         api_create api obj w1 = (Inr stored, w') \<and> live w1 (ReceiveInventoryName env (ms_uid m)) = None \<and>
         v = empty_inventory cluster (ms_namespace m) (ms_name m) (ms_uid m)) \<and>
        live w' (ReceiveInventoryName env (ms_uid m)) = Some stored \<and>
        marshal_inventory env v' = Some (index (cm_data stored) receiveInventoryKey) \<and> same_scope v v' \<and> inventory_validate env v' = Inr ())"

lemma index_with_inventory: "index (cm_data (with_inventory obj raw)) receiveInventoryKey = raw"
  by (simp add: index_def with_inventory_def)

lemma updates_write:
  assumes law: "inventory_law live api" and up: "updates env (Some api) cluster m v v' w'"
  shows "inventory_write env live api cluster m v v' w'"
proof -
  from up obtain w0 wr obj raw w1 stored where r: "read_inventory env (Some api) cluster m w0 = (Inr (v, obj), wr)"
    and raw: "marshal_inventory env v' = Some raw" and put: "api_update api (with_inventory obj raw) w1 = (Inr stored, w')"
    and ev: "same_scope v v'" "inventory_validate env v' = Inr ()"
    unfolding updates_def put_inventory_Inr by blast
  from r have get: "api_get api (ReceiveInventoryName env (ms_uid m)) w0 = (Inr obj, wr)"
    and name: "cm_name obj = ReceiveInventoryName env (ms_uid m)"
    and json: "json_inventory env (index (cm_data obj) receiveInventoryKey) = Some (v, True)"
    unfolding read_inventory_Inr ReadReceiveInventory_Inr admit_inventory_Inr by auto
  have cas: "cas_api live (config_maps.truncate api)" using law by (simp add: inventory_law_def)
  have put': "api_update (config_maps.truncate api) (with_inventory obj raw) w1 = (Inr stored, w')" using put by simp
  have n: "cm_name (with_inventory obj raw) = cm_name obj" "cm_uid (with_inventory obj raw) = cm_uid obj"
    "cm_resourceVersion (with_inventory obj raw) = cm_resourceVersion obj" by (simp_all add: with_inventory_def)
  from cas_apiD [OF cas put'] n name obtain c where c: "live w1 (ReceiveInventoryName env (ms_uid m)) = Some c" "cm_uid c = cm_uid obj"
    "cm_resourceVersion c = cm_resourceVersion obj" "live w' (ReceiveInventoryName env (ms_uid m)) = Some stored" by auto
  have "live wr (ReceiveInventoryName env (ms_uid m)) = Some obj" using law get by (auto simp: inventory_law_def reads_live_def)
  moreover have "versioned live" using law by (simp add: inventory_law_def)
  ultimately have "cm_data c = cm_data obj" using c(1-3) unfolding versioned_def by blast
  with c(1) json have "recorded env live w1 (ReceiveInventoryName env (ms_uid m)) v" by (simp add: recorded_def)
  moreover have "index (cm_data stored) receiveInventoryKey = raw" using cas_api_keeps(4) [OF cas put'] index_with_inventory by metis
  ultimately show ?thesis unfolding inventory_write_def using put c(4) raw ev by blast
qed

text \<open>What a successful call of an operation comes to.\<close>

definition accomplished ::
  "'a inventory_env_scheme \<Rightarrow> ('w \<Rightarrow> string \<Rightarrow> config_map option) \<Rightarrow> ('w, 'b) inventory_maps_scheme \<Rightarrow> string \<Rightarrow> mesh_secret \<Rightarrow>
   inventory_op \<Rightarrow> 'w \<Rightarrow> bool" where
  "accomplished env live api cluster m operation w' =
     ((\<exists>v v'. inventory_write env live api cluster m v v' w' \<and> performs env operation (stage_of v) (stage_of v')) \<or>
      (\<exists>v. recorded env live w' (ReceiveInventoryName env (ms_uid m)) v \<and> in_place operation (stage_of v)))"

lemma updates_carry_out:
  assumes "inventory_law live api" and "\<exists>v v'. updates env (Some api) cluster m v v' w' \<and> performs env operation (stage_of v) (stage_of v')"
  shows "accomplished env live api cluster m operation w'"
  using assms(2) updates_write [OF assms(1)] unfolding accomplished_def by blast

lemma recorded_read:
  "inventory_law live api \<Longrightarrow> read_inventory env (Some api) cluster m w = (Inr (v, obj), w') \<Longrightarrow>
    recorded env live w' (ReceiveInventoryName env (ms_uid m)) v"
  unfolding read_inventory_Inr ReadReceiveInventory_Inr admit_inventory_Inr inventory_law_def reads_live_def recorded_def by blast

lemma published_settled:
  assumes "inventory_validate env v = Inr ()" and "CheckJournal v uid journal = Inr ()"
  shows "stage_of v uid = Unpublished \<or> (\<exists>p. stage_of v uid = Active p \<and> pb_journalUID p \<noteq> [] \<and> pb_journalUID p = journal)"
proof (cases "Mapping.lookup (iv_publications v) uid")
  case None
  from assms(2) have mem: "uid \<in> set (uids_of v)" by (simp add: CheckJournal_Inr)
  with assms(1) have "Mapping.lookup (iv_released v) uid = None" unfolding inventory_validate_iff by (metis option.exhaust)
  with None mem show ?thesis by (simp add: stage_of_def)
next
  case (Some p)
  with stage_Active [OF assms(1) Some] assms(2) show ?thesis by (auto simp: CheckJournal_Inr)
qed

lemma publish_accomplished:
  assumes law: "inventory_law live api" and uid: "cm_uid (Metadata sn) \<noteq> []" and d: "DecodeReceiveTransition env sn cluster = Inr plan"
    and call: "PublishReceiveJournal env rand (Some api) cluster m sn now w = (Inr final, w')"
  shows "accomplished env live api cluster m (Publish_op (pn_machineUID (plan_fields plan)) sn) w'"
proof -
  let ?uid = "pn_machineUID (plan_fields plan)"
  from call obtain v obj w1 where r: "read_inventory env (Some api) cluster m w = (Inr (v, obj), w1)"
    and rest: "(case Mapping.lookup (iv_publications v) ?uid of
       None \<Rightarrow> io_bind (io_lift (CheckJournal v ?uid (cm_uid (Metadata sn)))) (\<lambda>_. io_lift (Inr sn))
     | Some pub \<Rightarrow>
         if pb_journalUID pub \<noteq> [] then io_bind (io_lift (CheckJournal v ?uid (cm_uid (Metadata sn)))) (\<lambda>_. io_lift (Inr sn))
         else publish_pending env rand (Some api) cluster sn now v obj ?uid pub) w1 = (Inr final, w')"
    unfolding PublishReceiveJournal_def Let_def by (auto simp: io_bind_Inr io_lift_eq guard_Inr d)
  show ?thesis
  proof (cases "\<exists>p. Mapping.lookup (iv_publications v) ?uid = Some p \<and> pb_journalUID p = []")
    case True
    then obtain p where p: "Mapping.lookup (iv_publications v) ?uid = Some p" "pb_journalUID p = []" by blast
    with rest have "publish_pending env rand (Some api) cluster sn now v obj ?uid p w1 = (Inr final, w')" by simp
    from publish_pending_updates [OF r p uid this] show ?thesis by (intro updates_carry_out [OF law]) blast
  next
    case False
    with rest have "CheckJournal v ?uid (cm_uid (Metadata sn)) = Inr () \<and> w' = w1"
      by (cases "Mapping.lookup (iv_publications v) ?uid") (auto simp: io_bind_Inr io_lift_eq)
    moreover from this published_settled [OF read_valid [OF r]] have "in_place (Publish_op ?uid sn) (stage_of v)" by simp
    ultimately show ?thesis using recorded_read [OF law r] unfolding accomplished_def by blast
  qed
qed

lemma reserve_accomplished:
  assumes law: "inventory_law live api" and call: "reserveReceiveJournal env (Some api) cluster (Some m) uid owners plan w = (Inr u, w')"
  shows "accomplished env live api cluster m (Reserve_op uid plan) w'"
proof -
  let ?name = "ReceiveInventoryName env (ms_uid m)" and ?empty = "empty_inventory cluster (ms_namespace m) (ms_name m) (ms_uid m)"
  obtain res w1 where rd: "ReadReceiveInventory env (Some api) cluster (ms_namespace m) (ms_name m) (ms_uid m) w = (res, w1)"
    by (cases "ReadReceiveInventory env (Some api) cluster (ms_namespace m) (ms_name m) (ms_uid m) w") auto
  show ?thesis
  proof (cases res)
    case (Inr x)
    obtain v obj where x: "x = (v, obj)" by (cases x)
    with call rd Inr have wr: "write_reservation env (Some api) False uid plan v obj w1 = (Inr u, w')"
      unfolding reserveReceiveJournal_def by (auto split: if_splits)
    have r: "read_inventory env (Some api) cluster m w = (Inr (v, obj), w1)" using rd Inr x by (simp add: read_inventory_Inr)
    from write_reservation_Inr [OF wr] show ?thesis
    proof (elim disjE exE conjE)
      assume a: "add_reservation v uid plan = Inr None" "w' = w1"
      have "recorded env live w1 ?name v"
        using r law unfolding read_inventory_Inr ReadReceiveInventory_Inr admit_inventory_Inr inventory_law_def reads_live_def recorded_def by blast
      with a add_reservation_settled show ?thesis unfolding accomplished_def by blast
    next
      fix v' raw stored
      assume add: "add_reservation v uid plan = Inr (Some v')" and val: "inventory_validate env v' = Inr ()" "marshalled env v' = Inr raw"
        and put: "if False then \<exists>api'. Some api = Some api' \<and> api_create api' (with_inventory obj raw) w1 = (Inr stored, w')
          else put_inventory (Some api) obj raw w1 = (Inr stored, w')"
      note ev = add_reservation_performs [OF read_valid [OF r] add]
      from updatesI [OF r val(2) _ ev(2)] put val(1) have "updates env (Some api) cluster m v v' w'" by simp
      with ev(1) show ?thesis by (intro updates_carry_out [OF law]) blast
    qed
  next
    case (Inl e)
    show ?thesis
    proof (cases "\<exists>msg. e = NotFound msg")
      case False
      with call rd Inl show ?thesis unfolding reserveReceiveJournal_def by (auto split: if_splits api_error.splits)
    next
      case True
      let ?obj = "empty_map\<lparr>cm_name := ?name, cm_namespace := ms_namespace m, cm_ownerReferences := owners\<rparr>"
      from True call rd Inl obtain w2 where wr: "write_reservation env (Some api) True uid plan ?empty ?obj w2 = (Inr u, w')"
        unfolding reserveReceiveJournal_def by (auto simp: io_bind_Inr split: if_splits)
      have none: "add_reservation ?empty uid plan \<noteq> Inr None"
        by (simp add: add_reservation_def empty_inventory_def uids_of_def)
      from write_reservation_Inr [OF wr] none obtain v' raw stored where add: "add_reservation ?empty uid plan = Inr (Some v')"
        and val: "inventory_validate env v' = Inr ()" "marshalled env v' = Inr raw" and cr: "api_create api (with_inventory ?obj raw) w2 = (Inr stored, w')"
        by auto
      have "inventory_validate env ?empty = Inr ()" using rd Inl True
        by (auto simp: ReadReceiveInventory_def as_api_def split: sum.splits error.splits)
      note ev = add_reservation_performs [OF this add]
      have l: "live w2 ?name = None" "live w' ?name = Some stored" "cm_data stored = cm_data (with_inventory ?obj raw)"
      proof -
        have "creates_free live api" using law by (simp add: inventory_law_def)
        from this [unfolded creates_free_def, rule_format, OF cr]
        show "live w2 ?name = None" "live w' ?name = Some stored" "cm_data stored = cm_data (with_inventory ?obj raw)"
          by (simp_all add: with_inventory_def)
      qed
      have "marshal_inventory env v' = Some (index (cm_data stored) receiveInventoryKey)"
        unfolding l(3) index_with_inventory using val(2) by (auto simp: marshalled_def split: option.splits)
      with cr l ev(2) val(1) have "inventory_write env live api cluster m ?empty v' w'" unfolding inventory_write_def by blast
      with ev(1) show ?thesis unfolding accomplished_def by blast
    qed
  qed
qed

section \<open>All operations\<close>

text \<open>
  The successful calls of the package's operations on the inventory of one mesh, each with what it is called for: the machine of
  the journal's plan, the journal and the records in the compact form that is stored.
\<close>

inductive inventory_call ::
  "'a inventory_env_scheme \<Rightarrow> ('w, 'b) inventory_maps_scheme \<Rightarrow> string \<Rightarrow> mesh_secret \<Rightarrow> inventory_op \<Rightarrow> 'w \<Rightarrow> 'w \<Rightarrow> bool"
  for env api cluster m where
  reserved: "ReserveReceiveJournal env (Some api) cluster (Some m) uid owners w = (Inr u, w') \<Longrightarrow> inventory_call env api cluster m (Reserve_op uid []) w w'"
| prepared: "ReservePreparedReceiveJournal env (Some api) cluster (Some m) uid owners plan w = (Inr u, w') \<Longrightarrow>
    inventory_call env api cluster m (Reserve_op uid plan) w w'"
| published: "PublishReceiveJournal env rand (Some api) cluster m sn now w = (Inr final, w') \<Longrightarrow> cm_uid (Metadata sn) \<noteq> [] \<Longrightarrow>
    DecodeReceiveTransition env sn cluster = Inr plan \<Longrightarrow> inventory_call env api cluster m (Publish_op (pn_machineUID (plan_fields plan)) sn) w w'"
| withdrawn: "ReserveReceiveRetirement env (Some api) cluster expectedUID (Some m) sn intent w = (Inr u, w') \<Longrightarrow>
    DecodeReceiveTransition env sn cluster = Inr plan \<Longrightarrow> compact_object env intent = Some i \<Longrightarrow>
    inventory_call env api cluster m (Withdraw_op (pn_machineUID (plan_fields plan)) sn i) w w'"
| completed: "RecordReceiveRetirementCompletion env ctx (Some api) cluster expected (Some m) sn intent c w = (Inr u, w') \<Longrightarrow>
    DecodeReceiveTransition env sn cluster = Inr plan \<Longrightarrow> compact_object env c = Some c' \<Longrightarrow>
    inventory_call env api cluster m (Complete_op (pn_machineUID (plan_fields plan)) sn intent [] c') w w'"
| refreshed: "RefreshReceiveRetirementCompletion env ctx (Some api) cluster expected (Some m) sn intent previous c w = (Inr u, w') \<Longrightarrow>
    DecodeReceiveTransition env sn cluster = Inr plan \<Longrightarrow> compact_object env c = Some c' \<Longrightarrow>
    inventory_call env api cluster m (Complete_op (pn_machineUID (plan_fields plan)) sn intent previous c') w w'"
| finalized: "RecordReceiveRetirementFinalization env ctx (Some api) cluster expected (Some m) sn intent c f b w = (Inr u, w') \<Longrightarrow>
    DecodeReceiveTransition env sn cluster = Inr plan \<Longrightarrow> compact_object env f = Some f' \<Longrightarrow>
    inventory_call env api cluster m (Finalize_op (pn_machineUID (plan_fields plan)) sn intent c f') w w'"
| released: "ReleaseReceiveJournals env ctx (Some api) cluster expected (Some m) snapshots consumed b w = (Inr u, w') \<Longrightarrow>
    inventory_call env api cluster m (Release_op (map fst snapshots) (\<lambda>uid. the (map_of snapshots uid)) (consumed_of consumed)) w w'"
| released_one: "ReleaseReceiveJournal env ctx (Some api) cluster expected (Some m) sn p b w = (Inr u, w') \<Longrightarrow>
    DecodeReceiveTransition env sn cluster = Inr plan \<Longrightarrow>
    inventory_call env api cluster m (Release_op [pn_machineUID (plan_fields plan)] (\<lambda>uid. sn) (\<lambda>uid. p)) w w'"

lemma release_one_accomplished:
  assumes "inventory_law live api" and "ReleaseReceiveJournal env ctx (Some api) cluster expected (Some m) sn p b w = (Inr u, w')"
    and "DecodeReceiveTransition env sn cluster = Inr plan"
  shows "accomplished env live api cluster m (Release_op [pn_machineUID (plan_fields plan)] (\<lambda>uid. sn) (\<lambda>uid. p)) w'"
proof -
  let ?uid = "pn_machineUID (plan_fields plan)"
  from assms(2,3) have "ReleaseReceiveJournals env ctx (Some api) cluster expected (Some m) [(?uid, sn)] [(?uid, p)] b w = (Inr u, w')"
    unfolding ReleaseReceiveJournal_def Let_def io_bind_Inr io_lift_eq by auto
  from release_updates [OF this] obtain v v' where up: "updates env (Some api) cluster m v v' w'"
    and pf: "performs env (Release_op [?uid] (\<lambda>uid. the (map_of [(?uid, sn)] uid)) (consumed_of [(?uid, p)])) (stage_of v) (stage_of v')" by auto
  have "consumed_of [(?uid, p)] ?uid = p" by (simp add: consumed_of_def)
  with pf have "performs env (Release_op [?uid] (\<lambda>uid. sn) (\<lambda>uid. p)) (stage_of v) (stage_of v')" by (auto simp: fun_eq_iff)
  with up show ?thesis by (intro updates_carry_out [OF assms(1)]) blast
qed

lemma inventory_call_carried_out:
  assumes law: "inventory_law live api" and compact: "compact_valid env" and call: "inventory_call env api cluster m operation w w'"
  shows "accomplished env live api cluster m operation w'"
  using call
proof cases
  case (reserved uid owners u)
  from reserve_accomplished [OF law reserved(2) [unfolded ReserveReceiveJournal_def]] show ?thesis by (simp add: reserved(1))
next
  case (prepared uid owners plan u)
  then have "reserveReceiveJournal env (Some api) cluster (Some m) uid owners plan w = (Inr u, w')"
    by (auto simp: ReservePreparedReceiveJournal_def io_bind_Inr io_lift_eq)
  from reserve_accomplished [OF law this] show ?thesis by (simp add: prepared(1))
next
  case (published rand sn now final plan)
  from publish_accomplished [OF law published(3,4,2)] show ?thesis by (simp add: published(1))
next
  case (withdrawn expectedUID sn intent u plan i)
  from updates_carry_out [OF law retirement_updates [OF compact withdrawn(3,4,2)]] show ?thesis by (simp add: withdrawn(1))
next
  case (completed ctx expected sn intent c u plan c')
  from updates_carry_out [OF law completion_updates [OF compact completed(3) _ _ completed(2) [unfolded RecordReceiveRetirementCompletion_def]]] completed(4)
  show ?thesis by (simp add: completed(1))
next
  case (refreshed ctx expected sn intent previous c u plan c')
  from refreshed(2) have "writeReceiveRetirementCompletion env ctx (Some api) cluster expected (Some m) sn intent
       \<lparr>ew_previous = previous, ew_record = c, ew_finalize = False, ew_beforeWrite = None\<rparr> w = (Inr u, w')"
    by (auto simp: RefreshReceiveRetirementCompletion_def io_bind_Inr io_lift_eq)
  from updates_carry_out [OF law completion_updates [OF compact refreshed(3) _ _ this]] refreshed(4) show ?thesis by (simp add: refreshed(1))
next
  case (finalized ctx expected sn intent c f b u plan f')
  from finalized(2) have "c \<noteq> []" and "writeReceiveRetirementCompletion env ctx (Some api) cluster expected (Some m) sn intent
       \<lparr>ew_previous = c, ew_record = f, ew_finalize = True, ew_beforeWrite = b\<rparr> w = (Inr u, w')"
    by (auto simp: RecordReceiveRetirementFinalization_def io_bind_Inr io_lift_eq guard_Inr)
  from updates_carry_out [OF law completion_updates [OF compact finalized(3) _ _ this(2)]] this(1) finalized(4) show ?thesis by (simp add: finalized(1))
next
  case (released ctx expected snapshots consumed b u)
  from updates_carry_out [OF law release_updates [OF released(2)]] show ?thesis by (simp add: released(1))
next
  case (released_one ctx expected sn p b u plan)
  from release_one_accomplished [OF law released_one(2,3)] show ?thesis by (simp add: released_one(1))
qed

section \<open>Sequences of steps\<close>

text \<open>
  What any sequence of performed operations keeps of a machine: a reservation is not forgotten, a published journal and its
  withdrawal intent are not replaced, a finalized record is not changed, and a released machine keeps its record.
\<close>

definition keeps_machine :: "stage \<Rightarrow> stage \<Rightarrow> bool" where
  "keeps_machine s t =
     (case s of
        Unreserved \<Rightarrow> True
      | Unpublished \<Rightarrow> t = Unpublished
      | Active p \<Rightarrow>
          (\<exists>q. (t = Active q \<or> t = Released q \<and> pb_finalization q \<noteq> []) \<and>
             (pb_journalUID p \<noteq> [] \<longrightarrow> pb_journalUID q = pb_journalUID p) \<and>
             (pb_journalUID p \<noteq> [] \<longrightarrow> pb_retirement p \<noteq> [] \<longrightarrow> pb_retirement q = pb_retirement p) \<and>
             (pb_journalUID p \<noteq> [] \<longrightarrow> pb_finalization p \<noteq> [] \<longrightarrow> q = p))
      | Released p \<Rightarrow> t = Released p)"

lemma keeps_refl [simp]: "keeps_machine s s" by (cases s) (auto simp: keeps_machine_def)

lemma performs_keeps: "performs env operation s t \<Longrightarrow> keeps_machine (s uid) (t uid)"
  by (cases operation) (auto simp: keeps_machine_def retired_journal_def split: stage.splits if_splits)

lemma keeps_trans: "keeps_machine s t \<Longrightarrow> keeps_machine t u \<Longrightarrow> keeps_machine s u"
  by (auto simp: keeps_machine_def split: stage.splits)

lemma performed_keeps: "(\<lambda>s t. \<exists>operation. performs env operation s t)\<^sup>*\<^sup>* s t \<Longrightarrow> keeps_machine (s uid) (t uid)"
  by (induction rule: rtranclp_induct) (auto intro: keeps_trans dest: performs_keeps [where uid = uid])

end
