(* ===== verification/Inventory_Properties.thy ===== *)
theory Inventory_Properties
  imports Inventory_Life Tunnel_Sample
begin

text \<open>
  The properties of the inventory of receiver journals, with a concrete inventory and API server for their witnesses.
\<close>

section \<open>A concrete inventory\<close>

definition sample_secret :: mesh_secret where
  "sample_secret = \<lparr>ms_name = ''mesh'', ms_namespace = ''ns'', ms_uid = ''m'', ms_resourceVersion = ''7'', ms_deletionTimestamp = None\<rparr>"

definition sample_empty :: inventory where
  "sample_empty = empty_inventory ''c'' ''ns'' ''mesh'' ''m''"

definition sample_reserved :: inventory where
  "sample_reserved =
     sample_empty\<lparr>iv_machineUIDs := Some [''mu1''], iv_publications := Mapping.update ''mu1'' (zero_publication\<lparr>pb_plan := ''plan''\<rparr>) Mapping.empty\<rparr>"

definition sample_published :: inventory where
  "sample_published = set_publication sample_reserved ''mu1'' (zero_publication\<lparr>pb_journalUID := ''u''\<rparr>)"

definition sample_inventory_env :: inventory_env where
  "sample_inventory_env = plan_env.extend sample_plan_env
     \<lparr>marshal_inventory = (\<lambda>v. case Mapping.lookup (iv_publications v) ''mu1'' of
        None \<Rightarrow> Some ''empty'' | Some p \<Rightarrow> if pb_plan p = ''plan'' then Some ''reserved'' else Some ''published''),
      json_inventory = (\<lambda>s. if s = ''empty'' then Some (sample_empty, True) else if s = ''reserved'' then Some (sample_reserved, True)
        else if s = ''published'' then Some (sample_published, True) else None),
      json_valid = (\<lambda>s. s \<noteq> []), json_compact = (\<lambda>s. if s = [] then None else Some s)\<rparr>"

text \<open>The successive states of the inventory object, and an API server whose world is the index of the current one.\<close>

definition sample_object :: "nat \<Rightarrow> config_map" where
  "sample_object n =
     empty_map\<lparr>cm_name := ReceiveInventoryName sample_inventory_env ''m'', cm_namespace := ''ns'', cm_uid := ''iuid'',
       cm_resourceVersion := replicate (Suc n) CHR ''1'',
       cm_data := Mapping.update receiveInventoryKey ([''empty'', ''reserved'', ''published''] ! n) Mapping.empty\<rparr>"

definition sample_live :: "nat \<Rightarrow> string \<Rightarrow> config_map option" where
  "sample_live w n =
     (if n = ReceiveInventoryName sample_inventory_env ''m'' then (if w < 3 then Some (sample_object w) else None)
      else if n = cm_name tunnel_object then Some tunnel_object else None)"

definition sample_inventory_api :: "nat inventory_maps" where
  "sample_inventory_api =
     \<lparr>api_get = (\<lambda>n w. case sample_live w n of None \<Rightarrow> (Inl (NotFound ''not found''), w) | Some obj \<Rightarrow> (Inr obj, w)),
      api_create = (\<lambda>obj w. (Inl (AlreadyExists ''exists''), w)),
      api_update = (\<lambda>obj w. if w < 2 \<and> obj\<lparr>cm_resourceVersion := replicate (w + 2) CHR ''1''\<rparr> = sample_object (w + 1) \<and> cm_resourceVersion obj = replicate (w + 1) CHR ''1''
        then (Inr (sample_object (w + 1)), w + 1) else (Inl (APIError ''conflict''), w)),
      api_list = (\<lambda>w. (Inr [], w))\<rparr>"

lemma sample_inventory_law: "inventory_law sample_live sample_inventory_api"
proof -
  have "cas_api sample_live (config_maps.truncate sample_inventory_api)"
    unfolding cas_api_def
  proof (intro allI impI)
    fix obj :: config_map and w w' :: nat and r
    assume "api_update (config_maps.truncate sample_inventory_api) obj w = (Inr r, w')"
    then have u: "w < 2" "w' = Suc w" "r = sample_object (Suc w)" "obj\<lparr>cm_resourceVersion := replicate (w + 2) CHR ''1''\<rparr> = sample_object (Suc w)"
      "cm_resourceVersion obj = replicate (Suc w) CHR ''1''"
      by (auto simp: sample_inventory_api_def split: if_splits)
    from u(4) have "cm_name obj = cm_name (sample_object (Suc w))" "cm_uid obj = cm_uid (sample_object (Suc w))"
      by (metis config_map.ext_inject config_map.surjective config_map.update_convs(5))+
    then have n: "cm_name obj = ReceiveInventoryName sample_inventory_env ''m''" "cm_uid obj = ''iuid''" by (simp_all add: sample_object_def)
    have r: "r = obj\<lparr>cm_resourceVersion := cm_resourceVersion r, cm_managedFields := cm_managedFields r, cm_otherMeta := cm_otherMeta r\<rparr>"
    proof -
      have "cm_resourceVersion r = replicate (w + 2) CHR ''1''" "r = obj\<lparr>cm_resourceVersion := replicate (w + 2) CHR ''1''\<rparr>"
        using u(3,4) by (simp_all add: sample_object_def)
      then show ?thesis by (metis config_map.surjective config_map.update_convs(5,9,10))
    qed
    show "\<exists>c. sample_live w (cm_name obj) = Some c \<and> cm_uid c = cm_uid obj \<and> cm_resourceVersion c = cm_resourceVersion obj \<and>
           sample_live w' (cm_name obj) = Some r \<and> cm_resourceVersion r \<noteq> cm_resourceVersion c \<and>
           (\<forall>k. k \<noteq> cm_name obj \<longrightarrow> sample_live w' k = sample_live w k) \<and>
           r = obj\<lparr>cm_resourceVersion := cm_resourceVersion r, cm_managedFields := cm_managedFields r, cm_otherMeta := cm_otherMeta r\<rparr> \<and>
           (cm_immutable c = Some True \<longrightarrow> cm_immutable r = Some True \<and> cm_data r = cm_data c \<and> cm_binaryData r = cm_binaryData c)"
      using u n by (intro exI [of _ "sample_object w"] conjI r) (simp_all add: sample_live_def sample_object_def empty_map_def)
  qed
  moreover have "reads_live sample_live sample_inventory_api"
    by (auto simp: reads_live_def sample_inventory_api_def split: option.splits)
  moreover have "creates_free sample_live sample_inventory_api" by (simp add: creates_free_def sample_inventory_api_def)
  moreover have "versioned sample_live"
    unfolding versioned_def
  proof (intro allI impI)
    fix w w' n c c'
    assume l: "sample_live w n = Some c" "sample_live w' n = Some c'" and rv: "cm_resourceVersion c = cm_resourceVersion c'"
    show "cm_data c = cm_data c'"
    proof (cases "n = ReceiveInventoryName sample_inventory_env ''m''")
      case True
      with l have "c = sample_object w" "c' = sample_object w'" by (auto simp: sample_live_def split: if_splits)
      with rv have "w = w'" by (simp add: sample_object_def replicate_eq_replicate)
      with \<open>c = sample_object w\<close> \<open>c' = sample_object w'\<close> show ?thesis by simp
    next
      case False
      with l show ?thesis by (auto simp: sample_live_def split: if_splits)
    qed
  qed
  ultimately show ?thesis by (simp add: inventory_law_def)
qed

lemma sample_compact_valid: "compact_valid sample_inventory_env"
  by (auto simp: compact_valid_def sample_inventory_env_def plan_env.defs split: if_splits)

lemma sample_reserve:
  "ReservePreparedReceiveJournal sample_inventory_env (Some sample_inventory_api) ''c'' (Some sample_secret) ''mu1'' [] ''plan'' 0 = (Inr (), 1)"
  by code_simp

section \<open>The life of a machine\<close>



end
