(* ===== verification/Trace.thy ===== *)
theory Trace
  imports Store
begin

text \<open>
  A logic of call traces. The packages above the journals are written against interfaces: a Kubernetes client,
  a store, a provider. Each is a record of functions over a world. Logging such a record gives the same
  functions over the world and the list of calls made so far, so that what a program calls, and what it had read
  before, can be stated for every implementation of its interfaces.
\<close>

section \<open>Logged calls\<close>

definition logged :: "('r \<Rightarrow> 'e list) \<Rightarrow> ('w \<Rightarrow> 'r \<times> 'w) \<Rightarrow> 'w \<times> 'e list \<Rightarrow> 'r \<times> ('w \<times> 'e list)" where
  "logged ev f s = (case f (fst s) of (r, w) \<Rightarrow> (r, (w, snd s @ ev r)))"

definition on_success :: "('a \<Rightarrow> 'e) \<Rightarrow> 'x + 'a \<Rightarrow> 'e list" where
  "on_success ev r = (case r of Inl _ \<Rightarrow> [] | Inr x \<Rightarrow> [ev x])"

text \<open>Every event of a trace is permitted after the events before it.\<close>

primrec permits :: "('e list \<Rightarrow> 'e \<Rightarrow> bool) \<Rightarrow> 'e list \<Rightarrow> 'e list \<Rightarrow> bool" where
  "permits ok l [] = True"
| "permits ok l (e # es) = (ok l e \<and> permits ok (l @ [e]) es)"

lemma permitted_append [simp]: "permits ok l (xs @ ys) \<longleftrightarrow> permits ok l xs \<and> permits ok (l @ xs) ys"
  by (induction xs arbitrary: l) auto

lemma permitted_nth: "permits ok l es \<Longrightarrow> i < length es \<Longrightarrow> ok (l @ take i es) (es ! i)"
proof (induction es arbitrary: l i)
  case (Cons e es)
  then show ?case using Cons.IH [of "l @ [e]" "i - 1"] by (cases i) auto
qed simp

lemma permitted_mem:
  assumes "permits ok [] es" "e \<in> set es"
  shows "\<exists>xs ys. es = xs @ e # ys \<and> ok xs e"
proof -
  from assms(2) obtain xs ys where "es = xs @ e # ys" by (meson split_list)
  with assms(1) show ?thesis by auto
qed

section \<open>Programs\<close>

text \<open>
  \<open>calls ok l p Q\<close>: started after the calls \<open>l\<close>, in any world, the program only adds permitted calls, and its
  result and the calls then satisfy \<open>Q\<close>. \<open>io_calls\<close> is the same for a program that may fail, with a condition on
  success only.
\<close>

definition calls ::
  "('e list \<Rightarrow> 'e \<Rightarrow> bool) \<Rightarrow> 'e list \<Rightarrow> ('w \<times> 'e list \<Rightarrow> 'r \<times> ('w \<times> 'e list)) \<Rightarrow> ('r \<Rightarrow> 'e list \<Rightarrow> bool) \<Rightarrow> bool" where
  "calls ok l p Q = (\<forall>w. \<exists>r w' es. p (w, l) = (r, (w', l @ es)) \<and> permits ok l es \<and> Q r (l @ es))"

definition io_calls ::
  "('e list \<Rightarrow> 'e \<Rightarrow> bool) \<Rightarrow> 'e list \<Rightarrow> ('w \<times> 'e list, 'a) io \<Rightarrow> ('a \<Rightarrow> 'e list \<Rightarrow> bool) \<Rightarrow> bool" where
  "io_calls ok l p Q = calls ok l p (\<lambda>r l'. \<forall>x. r = Inr x \<longrightarrow> Q x l')"

named_theorems trace_intro \<open>rules of the trace logic, one per construct\<close>

lemma callsE:
  assumes "calls ok l p Q" "p (w, l) = (r, (w', l'))"
  obtains es where "l' = l @ es" "permits ok l es" "Q r (l @ es)"
  using assms unfolding calls_def by (metis prod.inject)

lemma calls_conseq: "calls ok l p P \<Longrightarrow> (\<And>r l'. P r l' \<Longrightarrow> Q r l') \<Longrightarrow> calls ok l p Q"
  unfolding calls_def by meson

lemma io_calls_conseq: "io_calls ok l p P \<Longrightarrow> (\<And>x l'. P x l' \<Longrightarrow> Q x l') \<Longrightarrow> io_calls ok l p Q"
  unfolding io_calls_def by (erule calls_conseq) blast

lemma calls_return: "Q r l \<Longrightarrow> calls ok l (\<lambda>s. (r, s)) Q"
  unfolding calls_def by (auto intro: exI [of _ "[]"])

lemma calls_seq:
  assumes "calls ok l p (\<lambda>r l'. calls ok l' (f r) Q)"
  shows "calls ok l (\<lambda>s. case p s of (r, s') \<Rightarrow> f r s') Q"
  unfolding calls_def
proof
  fix w
  from assms obtain r w1 xs where p: "p (w, l) = (r, (w1, l @ xs))" "permits ok l xs" "calls ok (l @ xs) (f r) Q"
    unfolding calls_def by blast
  from p(3) obtain r' w2 ys where f: "f r (w1, l @ xs) = (r', (w2, (l @ xs) @ ys))" "permits ok (l @ xs) ys" "Q r' ((l @ xs) @ ys)"
    unfolding calls_def by blast
  show "\<exists>r w' es. (case p (w, l) of (r, s') \<Rightarrow> f r s') = (r, (w', l @ es)) \<and> permits ok l es \<and> Q r (l @ es)"
    by (rule exI [of _ r'], rule exI [of _ w2], rule exI [of _ "xs @ ys"]) (use p f in simp)
qed

lemma calls_logged:
  assumes "\<And>r. permits ok l (ev r)" "\<And>r. Q r (l @ ev r)"
  shows "calls ok l (logged ev f) Q"
  unfolding calls_def logged_def using assms by (auto split: prod.split)

lemma calls_lift [trace_intro]: "Q r l \<Longrightarrow> calls ok l (io_lift r) Q"
  unfolding io_lift_def by (rule calls_return)

lemma io_calls_bind [trace_intro]:
  assumes "io_calls ok l p (\<lambda>x l'. io_calls ok l' (f x) Q)"
  shows "io_calls ok l (io_bind p f) Q"
proof -
  have eq: "io_bind p f = (\<lambda>s. case p s of (r, s') \<Rightarrow> (case r of Inl e \<Rightarrow> (\<lambda>s. (Inl e, s)) | Inr x \<Rightarrow> f x) s')"
    by (rule ext) (auto simp: io_bind_def split: prod.split sum.split)
  show ?thesis unfolding eq io_calls_def
    by (rule calls_seq, rule calls_conseq [OF assms [unfolded io_calls_def]])
       (auto split: sum.split intro: calls_return)
qed

lemma io_calls_lift [trace_intro]: "(\<And>x. r = Inr x \<Longrightarrow> Q x l) \<Longrightarrow> io_calls ok l (io_lift r) Q"
  unfolding io_calls_def io_lift_def by (rule calls_return) blast

lemma io_calls_fail [trace_intro]: "io_calls ok l (io_lift (Inl e)) Q"
  by (rule io_calls_lift) simp

lemma io_calls_guard [trace_intro]: "(b \<Longrightarrow> io_calls ok l (f ()) Q) \<Longrightarrow> io_calls ok l (io_bind (io_lift (guard b m)) f) Q"
  by (intro trace_intro) (simp add: guard_Inr)

lemma io_calls_if [trace_intro]:
  "(b \<Longrightarrow> io_calls ok l p Q) \<Longrightarrow> (\<not> b \<Longrightarrow> io_calls ok l q Q) \<Longrightarrow> io_calls ok l (if b then p else q) Q"
  by simp

lemma calls_if [trace_intro]: "(b \<Longrightarrow> calls ok l p Q) \<Longrightarrow> (\<not> b \<Longrightarrow> calls ok l q Q) \<Longrightarrow> calls ok l (if b then p else q) Q"
  by simp

lemma io_calls_option [trace_intro]:
  "(x = None \<Longrightarrow> io_calls ok l p Q) \<Longrightarrow> (\<And>y. x = Some y \<Longrightarrow> io_calls ok l (q y) Q) \<Longrightarrow>
   io_calls ok l (case x of None \<Rightarrow> p | Some y \<Rightarrow> q y) Q"
  by (cases x) auto

lemma calls_option [trace_intro]:
  "(x = None \<Longrightarrow> calls ok l p Q) \<Longrightarrow> (\<And>y. x = Some y \<Longrightarrow> calls ok l (q y) Q) \<Longrightarrow>
   calls ok l (case x of None \<Rightarrow> p | Some y \<Rightarrow> q y) Q"
  by (cases x) auto

lemma io_calls_sum [trace_intro]:
  "(\<And>e. x = Inl e \<Longrightarrow> io_calls ok l (p e) Q) \<Longrightarrow> (\<And>y. x = Inr y \<Longrightarrow> io_calls ok l (q y) Q) \<Longrightarrow>
   io_calls ok l (case x of Inl e \<Rightarrow> p e | Inr y \<Rightarrow> q y) Q"
  by (cases x) auto

lemma calls_sum [trace_intro]:
  "(\<And>e. x = Inl e \<Longrightarrow> calls ok l (p e) Q) \<Longrightarrow> (\<And>y. x = Inr y \<Longrightarrow> calls ok l (q y) Q) \<Longrightarrow>
   calls ok l (case x of Inl e \<Rightarrow> p e | Inr y \<Rightarrow> q y) Q"
  by (cases x) auto

lemma io_calls_prod [trace_intro]: "(\<And>a b. x = (a, b) \<Longrightarrow> io_calls ok l (p a b) Q) \<Longrightarrow> io_calls ok l (case x of (a, b) \<Rightarrow> p a b) Q"
  by (cases x) auto

text \<open>A call whose error the program handles, and a call followed by another.\<close>

definition io_case :: "('w, 'a) io \<Rightarrow> (error \<Rightarrow> 'w \<Rightarrow> 'r) \<Rightarrow> ('a \<Rightarrow> 'w \<Rightarrow> 'r) \<Rightarrow> 'w \<Rightarrow> 'r" where
  "io_case m f g w = (case m w of (Inl e, w') \<Rightarrow> f e w' | (Inr x, w') \<Rightarrow> g x w')"

definition run_then :: "('w \<Rightarrow> 'a \<times> 'w) \<Rightarrow> ('a \<Rightarrow> 'w \<Rightarrow> 'r) \<Rightarrow> 'w \<Rightarrow> 'r" where
  "run_then p f w = (case p w of (x, w') \<Rightarrow> f x w')"

lemma calls_then [trace_intro]: "calls ok l p (\<lambda>x l'. calls ok l' (f x) Q) \<Longrightarrow> calls ok l (run_then p f) Q"
  unfolding run_then_def by (rule calls_seq)

lemma calls_case [trace_intro]:
  assumes "calls ok l m (\<lambda>r l'. (\<forall>e. r = Inl e \<longrightarrow> calls ok l' (f e) Q) \<and> (\<forall>x. r = Inr x \<longrightarrow> calls ok l' (g x) Q))"
  shows "calls ok l (io_case m f g) Q"
proof -
  have eq: "io_case m f g = (\<lambda>s. case m s of (r, s') \<Rightarrow> (case r of Inl e \<Rightarrow> f e | Inr x \<Rightarrow> g x) s')"
    by (rule ext) (auto simp: io_case_def split: prod.split sum.split)
  show ?thesis unfolding eq by (rule calls_seq, rule calls_conseq [OF assms]) (auto split: sum.split)
qed

text \<open>What a whole run calls.\<close>

lemma calls_run:
  assumes "calls ok [] p Q" "p (w, []) = (r, (w', es))"
  shows "permits ok [] es \<and> Q r es"
proof -
  from assms(1) obtain r0 w0 es0 where "p (w, []) = (r0, (w0, es0))" "permits ok [] es0" "Q r0 es0"
    unfolding calls_def append_Nil by blast
  with assms(2) show ?thesis by simp
qed

end
