(* ===== verification/Cluster.thy ===== *)
theory Cluster
  imports Trace Mesh
begin

text \<open>
  The objects of the Kubernetes API that the controllers above the journals read and write, as far as they look at them, and
  a client: for each kind a record of calls over a world. A list of labels or annotations is a mapping; \<open>DeepCopy\<close> is
  the identity. \<open>Update\<close>, \<open>Status().Update\<close> and \<open>Create\<close> return the object as the server stored it.
\<close>

section \<open>Objects\<close>

record owner_ref =
  ow_apiVersion :: string
  ow_kind :: string
  ow_name :: string
  ow_uid :: string
  ow_controller :: bool

record object_meta =
  om_name :: string
  om_namespace :: string
  om_uid :: string
  om_resourceVersion :: string
  om_generation :: int
  om_deletionTimestamp :: "time option"
  om_labels :: "(string, string) mapping"
  om_annotations :: "(string, string) mapping"
  om_finalizers :: "string list"
  om_owners :: "owner_ref list"

type_synonym object_key = "string \<times> string"

definition object_key :: "'a object_meta_scheme \<Rightarrow> object_key" where
  "object_key obj = (om_namespace obj, om_name obj)"

definition deleting :: "'a object_meta_scheme \<Rightarrow> bool" where
  "deleting obj = (om_deletionTimestamp obj \<noteq> None)"

definition annotation :: "'a object_meta_scheme \<Rightarrow> string \<Rightarrow> string" where
  "annotation obj k = index (om_annotations obj) k"

definition label :: "'a object_meta_scheme \<Rightarrow> string \<Rightarrow> string" where
  "label obj k = index (om_labels obj) k"

text \<open>\<open>metav1.GetControllerOf\<close>.\<close>

definition GetControllerOf :: "'a object_meta_scheme \<Rightarrow> owner_ref option" where
  "GetControllerOf obj = find ow_controller (om_owners obj)"

record kube_map = object_meta +
  km_data :: "(string, string) mapping"

record kube_secret = object_meta +
  ks_data :: mesh

record kube_node = object_meta +
  kn_providerID :: string
  kn_unschedulable :: bool
  kn_conditions :: "(string \<times> string) list"

record kube_pod = object_meta +
  kp_nodeName :: string
  kp_phase :: string

text \<open>
  A Machine of Cluster API, an unstructured object: the nested fields the code reads, empty when absent or of another
  type. An entry of its conditions that is no object is \<open>None\<close>.
\<close>

record machine_condition =
  mk_type :: string
  mk_status :: string
  mk_observedGeneration :: "int option res"

record machine = object_meta +
  mc_version :: string
  mc_providerID :: string
  mc_clusterName :: string
  mc_nodeRef :: "(string \<times> string) list"
  mc_configRef :: "(string \<times> string) list"
  mc_dataSecretName :: string
  mc_conditions :: "machine_condition option list"

definition node_ref :: "machine \<Rightarrow> string \<Rightarrow> string" where
  "node_ref m k = (case map_of (mc_nodeRef m) k of None \<Rightarrow> [] | Some v \<Rightarrow> v)"

definition node_ready :: "kube_node \<Rightarrow> bool" where
  "node_ready n = ((''Ready'', ''True'') \<in> set (kn_conditions n))"

text \<open>
  A claim: of its specification only the gateway is looked into, the rest is copied and compared. A recipient of a
  publication; the group's status keeps the same fields under another type.
\<close>

record claim_spec =
  cs_gateway :: string
  cs_rest :: string

record node_claim = object_meta +
  nc_spec :: claim_spec
  nc_machineName :: string

record consumer_target =
  ct_nodeName :: string
  ct_nodeUID :: string
  ct_site :: bool
  ct_machineName :: string
  ct_tunnelAddress :: string
  ct_publicKey :: string
  ct_secretUID :: string

record gateway_inventory =
  gi_mesh :: string
  gi_requests :: "(string \<times> string) list"

record peer_withdrawal =
  pw_meshName :: string
  pw_meshUID :: string
  pw_sourceVersion :: string
  pw_sourceDataHash :: string
  pw_publicKey :: string
  pw_consumers :: "consumer_target list"

record bootstrap_cancellation =
  bc_secretName :: string
  bc_meshName :: string
  bc_meshUID :: string

record group_action =
  ga_bootstrapCancellation :: "bootstrap_cancellation option"
  ga_removing :: bool
  ga_withdrawal :: "peer_withdrawal option"
  ga_gateways :: "gateway_inventory option"
  ga_nodeName :: string
  ga_nodeUID :: string
  ga_machineUID :: string
  ga_providerID :: string
  ga_id :: string
  ga_type :: string
  ga_generation :: int
  ga_ordinal :: int
  ga_childName :: string
  ga_childUID :: string
  ga_template :: "claim_spec option"

record node_group = object_meta +
  ng_replicas :: "int option"
  ng_template :: claim_spec
  ng_workloadSelector :: "string option"
  ng_pendingAction :: "group_action option"
  ng_statusReplicas :: int
  ng_readyReplicas :: int
  ng_statusSelector :: string

text \<open>The conversion to \<open>int32\<close>.\<close>

definition int32 :: "int \<Rightarrow> int" where
  "int32 n = (n + 2 ^ 31) mod 2 ^ 32 - 2 ^ 31"

section \<open>Clients\<close>

record list_options =
  lo_namespace :: string
  lo_label :: "(string \<times> string) option"
  lo_field :: "(string \<times> string) option"

record ('w, 'o) resource =
  r_get :: "object_key \<Rightarrow> 'w \<Rightarrow> (api_error + 'o) \<times> 'w"
  r_list :: "list_options \<Rightarrow> 'w \<Rightarrow> (api_error + 'o list) \<times> 'w"
  r_create :: "'o \<Rightarrow> 'w \<Rightarrow> (api_error + 'o) \<times> 'w"
  r_update :: "'o \<Rightarrow> 'w \<Rightarrow> (api_error + 'o) \<times> 'w"
  r_status :: "'o \<Rightarrow> 'w \<Rightarrow> (api_error + 'o) \<times> 'w"
  r_patch :: "'o \<Rightarrow> 'o \<Rightarrow> 'w \<Rightarrow> (api_error + 'o) \<times> 'w"
  r_delete :: "'o \<Rightarrow> string option \<Rightarrow> string option \<Rightarrow> 'w \<Rightarrow> (api_error + unit) \<times> 'w"

record 'w cluster =
  k_groups :: "('w, node_group) resource"
  k_claims :: "('w, node_claim) resource"
  k_machines :: "('w, machine) resource"
  k_nodes :: "('w, kube_node) resource"
  k_pods :: "('w, kube_pod) resource"
  k_secrets :: "('w, kube_secret) resource"
  k_maps :: "('w, kube_map) resource"
  k_evict :: "kube_pod \<Rightarrow> 'w \<Rightarrow> (api_error + unit) \<times> 'w"

text \<open>A call whose error is returned, one that distinguishes an absent object, and \<open>client.IgnoreNotFound\<close>.\<close>

definition api_io :: "('w \<Rightarrow> (api_error + 'a) \<times> 'w) \<Rightarrow> ('w, 'a) io" where
  "api_io f w = (case f w of (r, w') \<Rightarrow> ((case r of Inl e \<Rightarrow> Inl (api_message e) | Inr x \<Rightarrow> Inr x), w'))"

definition found :: "api_error + 'a \<Rightarrow> 'a option res" where
  "found r = (case r of Inl (NotFound _) \<Rightarrow> Inr None | Inl e \<Rightarrow> Inl (api_message e) | Inr x \<Rightarrow> Inr (Some x))"

definition api_find :: "('w \<Rightarrow> (api_error + 'a) \<times> 'w) \<Rightarrow> ('w, 'a option) io" where
  "api_find f w = (case f w of (r, w') \<Rightarrow> (found r, w'))"

section \<open>Logged clients\<close>

text \<open>
  \<open>Got\<close> is an object the server returned, also in answer to a write; \<open>Missing\<close> a key it has no object for; \<open>Lists\<close> the
  objects it returned for a list, with the namespace and selectors asked for.
\<close>

datatype 'o verb = Got 'o | Missing object_key | Lists list_options "'o list" | Creates 'o | Updates 'o | Sets_status 'o | Patches 'o 'o | Deletes 'o "string option" "string option"

definition read_event :: "('o verb \<Rightarrow> 'e) \<Rightarrow> object_key \<Rightarrow> api_error + 'o \<Rightarrow> 'e list" where
  "read_event tag k r = (case r of Inr x \<Rightarrow> [tag (Got x)] | Inl (NotFound _) \<Rightarrow> [tag (Missing k)] | Inl _ \<Rightarrow> [])"

definition log_resource :: "('o verb \<Rightarrow> 'e) \<Rightarrow> ('w, 'o) resource \<Rightarrow> ('w \<times> 'e list, 'o) resource" where
  "log_resource tag r =
     \<lparr>r_get = (\<lambda>k. logged (read_event tag k) (r_get r k)),
      r_list = (\<lambda>opts. logged (on_success (tag \<circ> Lists opts)) (r_list r opts)),
      r_create = (\<lambda>obj. logged (\<lambda>x. tag (Creates obj) # on_success (tag \<circ> Got) x) (r_create r obj)),
      r_update = (\<lambda>obj. logged (\<lambda>x. tag (Updates obj) # on_success (tag \<circ> Got) x) (r_update r obj)),
      r_status = (\<lambda>obj. logged (\<lambda>x. tag (Sets_status obj) # on_success (tag \<circ> Got) x) (r_status r obj)),
      r_patch = (\<lambda>old obj. logged (\<lambda>x. tag (Patches old obj) # on_success (tag \<circ> Got) x) (r_patch r old obj)),
      r_delete = (\<lambda>obj uid rv. logged (\<lambda>_. [tag (Deletes obj uid rv)]) (r_delete r obj uid rv))\<rparr>"

datatype cluster_event =
    On_group "node_group verb" | On_claim "node_claim verb" | On_machine "machine verb" | On_node "kube_node verb"
  | On_pod "kube_pod verb" | On_secret "kube_secret verb" | On_map "kube_map verb" | Evicts kube_pod

definition log_cluster :: "(cluster_event \<Rightarrow> 'e) \<Rightarrow> 'w cluster \<Rightarrow> ('w \<times> 'e list) cluster" where
  "log_cluster tag c =
     \<lparr>k_groups = log_resource (tag \<circ> On_group) (k_groups c), k_claims = log_resource (tag \<circ> On_claim) (k_claims c),
      k_machines = log_resource (tag \<circ> On_machine) (k_machines c), k_nodes = log_resource (tag \<circ> On_node) (k_nodes c),
      k_pods = log_resource (tag \<circ> On_pod) (k_pods c), k_secrets = log_resource (tag \<circ> On_secret) (k_secrets c),
      k_maps = log_resource (tag \<circ> On_map) (k_maps c), k_evict = (\<lambda>p. logged (\<lambda>_. [tag (Evicts p)]) (k_evict c p))\<rparr>"

lemma log_cluster_simps [simp]:
  "k_groups (log_cluster tag c) = log_resource (tag \<circ> On_group) (k_groups c)"
  "k_claims (log_cluster tag c) = log_resource (tag \<circ> On_claim) (k_claims c)"
  "k_machines (log_cluster tag c) = log_resource (tag \<circ> On_machine) (k_machines c)"
  "k_nodes (log_cluster tag c) = log_resource (tag \<circ> On_node) (k_nodes c)"
  "k_pods (log_cluster tag c) = log_resource (tag \<circ> On_pod) (k_pods c)"
  "k_secrets (log_cluster tag c) = log_resource (tag \<circ> On_secret) (k_secrets c)"
  "k_maps (log_cluster tag c) = log_resource (tag \<circ> On_map) (k_maps c)"
  "k_evict (log_cluster tag c) p = logged (\<lambda>_. [tag (Evicts p)]) (k_evict c p)"
  by (simp_all add: log_cluster_def)

lemma io_calls_api:
  assumes "\<And>r. permits ok l (ev r)" "\<And>x. Q x (l @ ev (Inr x))"
  shows "io_calls ok l (api_io (logged ev f)) Q"
  unfolding io_calls_def calls_def api_io_def logged_def using assms by (auto split: prod.split sum.split)

lemma io_calls_find:
  assumes "\<And>r. permits ok l (ev r)" "\<And>m. Q None (l @ ev (Inl (NotFound m)))" "\<And>x. Q (Some x) (l @ ev (Inr x))"
  shows "io_calls ok l (api_find (logged ev f)) Q"
  unfolding io_calls_def calls_def api_find_def logged_def found_def using assms by (auto split: prod.split sum.splits api_error.splits)

lemma permits_read: "(\<And>x. ok l (tag (Got x))) \<Longrightarrow> ok l (tag (Missing k)) \<Longrightarrow> permits ok l (read_event tag k r)"
  by (auto simp: read_event_def split: sum.split api_error.split)

lemma io_calls_get [trace_intro]:
  assumes "\<And>x. ok l (tag (Got x))" "ok l (tag (Missing k))" "\<And>x. Q x (l @ [tag (Got x)])"
  shows "io_calls ok l (api_io (r_get (log_resource tag r) k)) Q"
  unfolding log_resource_def resource.simps
  by (rule io_calls_api, rule permits_read) (use assms in \<open>auto simp: read_event_def\<close>)

lemma io_calls_lookup [trace_intro]:
  assumes "\<And>x. ok l (tag (Got x))" "ok l (tag (Missing k))" "Q None (l @ [tag (Missing k)])" "\<And>x. Q (Some x) (l @ [tag (Got x)])"
  shows "io_calls ok l (api_find (r_get (log_resource tag r) k)) Q"
  unfolding log_resource_def resource.simps
  by (rule io_calls_find, rule permits_read) (use assms in \<open>auto simp: read_event_def\<close>)

lemma io_calls_list [trace_intro]:
  assumes "\<And>xs. ok l (tag (Lists opts xs))" "\<And>xs. Q xs (l @ [tag (Lists opts xs)])"
  shows "io_calls ok l (api_io (r_list (log_resource tag r) opts)) Q"
  unfolding log_resource_def resource.simps by (rule io_calls_api) (use assms in \<open>auto simp: on_success_def split: sum.split\<close>)

lemma io_calls_write [trace_intro]:
  assumes "\<And>l' x. ok l' (tag (Got x))"
  shows "ok l (tag (Creates obj)) \<Longrightarrow> (\<And>x. Q x (l @ [tag (Creates obj), tag (Got x)])) \<Longrightarrow> io_calls ok l (api_io (r_create (log_resource tag r) obj)) Q"
    "ok l (tag (Updates obj)) \<Longrightarrow> (\<And>x. Q x (l @ [tag (Updates obj), tag (Got x)])) \<Longrightarrow> io_calls ok l (api_io (r_update (log_resource tag r) obj)) Q"
    "ok l (tag (Sets_status obj)) \<Longrightarrow> (\<And>x. Q x (l @ [tag (Sets_status obj), tag (Got x)])) \<Longrightarrow> io_calls ok l (api_io (r_status (log_resource tag r) obj)) Q"
    "ok l (tag (Patches old obj)) \<Longrightarrow> (\<And>x. Q x (l @ [tag (Patches old obj), tag (Got x)])) \<Longrightarrow> io_calls ok l (api_io (r_patch (log_resource tag r) old obj)) Q"
  unfolding log_resource_def resource.simps
  by (auto intro!: io_calls_api simp: on_success_def assms split: sum.split)

lemma io_calls_delete [trace_intro]:
  "ok l (tag (Deletes obj uid rv)) \<Longrightarrow> (\<And>x. Q x (l @ [tag (Deletes obj uid rv)])) \<Longrightarrow> io_calls ok l (api_io (r_delete (log_resource tag r) obj uid rv)) Q"
  "ok l (tag (Deletes obj uid rv)) \<Longrightarrow> (\<And>y. P y (l @ [tag (Deletes obj uid rv)])) \<Longrightarrow> io_calls ok l (api_find (r_delete (log_resource tag r) obj uid rv)) P"
  unfolding log_resource_def resource.simps by (auto intro!: io_calls_api io_calls_find)

end
