(* ===== verification/Attachment.thy ===== *)
theory Attachment
  imports Cluster
begin

text \<open>
  The attachment of a worker behind a gateway (\<open>controller/pkg/attachment/plan.go\<close>, \<open>reconcile.go\<close>): the plan of the
  native path and the durable lease that prepares, publishes, withdraws and releases it. Store, provider,
  publication and lifetime are the interfaces of the source, records of functions over a world.
\<close>

section \<open>The plan\<close>

record attached_machine =
  am_uid :: string
  am_nodeUID :: string
  am_providerID :: string
  am_interfaceID :: string
  am_networkID :: string
  am_subnet :: ip_prefix
  am_address :: addr

record gateway_request =
  gr_worker :: attached_machine
  gr_gateway :: attached_machine
  gr_siteTransport :: "addr list"
  gr_siteReturnSources :: "addr list"
  gr_underlay :: "addr list"
  gr_udpPort :: "16 word"
  gr_tcpPorts :: "16 word list"

record gateway_plan =
  gl_worker :: attached_machine
  gl_gateway :: attached_machine
  gl_workerHost :: ip_prefix
  gl_returnHosts :: "ip_prefix list"
  gl_directHosts :: "ip_prefix list"
  gl_udpPort :: "16 word"
  gl_tcpPorts :: "16 word list"

definition validAddress :: "addr \<Rightarrow> bool" where
  "validAddress a =
     (a \<noteq> NoAddr \<and> Zone a = [] \<and> \<not> Is4In6 a \<and> IsGlobalUnicast a \<and> \<not> IsLoopback a \<and> \<not> IsLinkLocalUnicast a)"

definition validateMachine :: "attached_machine \<Rightarrow> unit res" where
  "validateMachine m =
     (if am_uid m = [] \<or> am_nodeUID m = [] \<or> am_providerID m = [] \<or> am_interfaceID m = [] \<or> am_networkID m = []
        then Inl (Error ''incomplete CAPI or network identity'')
      else if \<not> validAddress (am_address m) \<or> \<not> IsValid (am_subnet m) \<or> am_subnet m \<noteq> Masked (am_subnet m) \<or>
              \<not> Contains (am_subnet m) (am_address m)
        then Inl (Error ''native address must belong to a canonical subnet'')
      else Inr ())"

text \<open>\<open>netip.Addr.Less\<close>.\<close>

definition addr_less :: "addr \<Rightarrow> addr \<Rightarrow> bool" where
  "addr_less a b =
     (BitLen a < BitLen b \<or>
      BitLen a = BitLen b \<and> (As16 a < As16 b \<or> As16 a = As16 b \<and> Zone a < Zone b))"

definition return_host :: "ip_prefix \<Rightarrow> addr list \<Rightarrow> addr \<Rightarrow> unit res" where
  "return_host subnet outer a =
     (if \<not> validAddress a \<or> \<not> Is4 a then Inl (Error ''invalid IPv4 CNI transport address'')
      else if Contains subnet a \<or> a \<in> set outer then Inl (Error ''CNI return route would intercept subnet or outer tunnel traffic'')
      else Inr ())"

definition host32 :: "addr \<Rightarrow> ip_prefix" where
  "host32 a = PrefixFrom a 32"

definition distinct_machines :: "attached_machine \<Rightarrow> attached_machine \<Rightarrow> bool" where
  "distinct_machines a b =
     (am_uid a \<noteq> am_uid b \<and> am_nodeUID a \<noteq> am_nodeUID b \<and> am_providerID a \<noteq> am_providerID b \<and>
      am_interfaceID a \<noteq> am_interfaceID b \<and> am_address a \<noteq> am_address b)"

definition PlanGateway :: "gateway_request \<Rightarrow> gateway_plan res" where
  "PlanGateway r =
     (case validateMachine (gr_worker r) of
        Inl e \<Rightarrow> Inl (wrap ''worker: '' e)
      | Inr _ \<Rightarrow>
     (case validateMachine (gr_gateway r) of
        Inl e \<Rightarrow> Inl (wrap ''gateway: '' e)
      | Inr _ \<Rightarrow>
          if \<not> distinct_machines (gr_worker r) (gr_gateway r) then Inl (Error ''worker and gateway must be distinct machines'')
          else if am_networkID (gr_worker r) \<noteq> am_networkID (gr_gateway r) \<or> am_subnet (gr_worker r) \<noteq> am_subnet (gr_gateway r)
            then Inl (Error ''gateway capability requires the worker's network and subnet'')
          else if \<not> Is4 (am_address (gr_worker r)) \<or> gr_udpPort r = 0 \<or> gr_siteTransport r = [] \<or> gr_underlay r = []
            then Inl (Error ''IPv4 native transport, an explicit UDP port, site addresses and outer endpoints are required'')
          else if \<not> list_all validAddress (gr_underlay r) then Inl (Error ''invalid outer tunnel endpoint'')
          else if am_address (gr_worker r) \<in> set (gr_underlay r) \<or> am_address (gr_gateway r) \<in> set (gr_underlay r)
            then Inl (Error ''native attachment address overlaps a tunnel endpoint'')
          else
            (let all_hosts = gr_siteTransport r @ gr_siteReturnSources r in
             case res_fold (\<lambda>_. return_host (am_subnet (gr_worker r)) (gr_underlay r)) () all_hosts of
               Inl e \<Rightarrow> Inl e
             | Inr _ \<Rightarrow>
                 let addresses = sort_by addr_less (remdups all_hosts) in
                 if 0 \<in> set (gr_tcpPorts r) then Inl (Error ''control-plane TCP ports must be nonzero'')
                 else
                   Inr \<lparr>gl_worker = gr_worker r, gl_gateway = gr_gateway r, gl_workerHost = host32 (am_address (gr_worker r)),
                        gl_returnHosts = map host32 addresses,
                        gl_directHosts = map host32 (filter (\<lambda>a. a \<in> set (gr_siteTransport r)) addresses),
                        gl_udpPort = gr_udpPort r, gl_tcpPorts = sort (remdups (gr_tcpPorts r))\<rparr>)))"

section \<open>The lease\<close>

text \<open>A phase is a string in the source; \<open>Other_Phase\<close> is any value the package does not name.\<close>

datatype attach_phase = Preparing | Publishing | Ready | Withdrawing | Releasing | Complete | Other_Phase string

record attachment =
  at_id :: string
  at_lease :: string
  at_digest :: string
  at_plan :: gateway_plan
  at_phase :: attach_phase
  at_version :: string
  at_deleting :: bool

definition LeaseID :: "attachment \<Rightarrow> string" where
  "LeaseID r = at_id r @ ''/'' @ at_lease r @ ''/'' @ at_digest r"

text \<open>What is published for a lease, with the recipients that have to acknowledge it.\<close>

record publication_intent =
  pi_lease :: string
  pi_projection :: gateway_projection
  pi_consumers :: "consumer_target list"
  pi_retired :: bool
  pi_version :: string
  pi_deleting :: bool

text \<open>The JSON codecs of the package.\<close>

record attach_env = mesh_env +
  marshal_plan :: "gateway_plan \<Rightarrow> string"
  marshal_lease :: "attachment \<Rightarrow> string option"
  json_lease :: "string \<Rightarrow> attachment option"
  marshal_intent :: "publication_intent \<Rightarrow> string option"
  json_intent :: "string \<Rightarrow> publication_intent option"
  marshal_gateways :: "gateway_projection list \<Rightarrow> string option"
  marshal_mesh :: "mesh \<Rightarrow> string"
  json_request :: "string \<Rightarrow> gateway_request option"

definition planDigest :: "'a attach_env_scheme \<Rightarrow> gateway_plan \<Rightarrow> string" where
  "planDigest env plan = hex_encode (sha256 env (marshal_plan env plan))"

record 'w lease_store =
  ls_load :: "string \<Rightarrow> ('w, attachment option) io"
  ls_save :: "attachment option \<Rightarrow> attachment \<Rightarrow> ('w, unit) io"

record 'w forwarder =
  fw_ensure :: "attachment \<Rightarrow> ('w, bool) io"
  fw_release :: "attachment \<Rightarrow> ('w, bool) io"

record 'w lease_publication =
  pu_publish :: "attachment \<Rightarrow> ('w, bool) io"
  pu_withdraw :: "attachment \<Rightarrow> ('w, bool) io"

record 'w lifetime =
  li_protect :: "attachment \<Rightarrow> ('w, bool) io"
  li_release :: "attachment \<Rightarrow> ('w, unit) io"

record 'w attach_reconciler =
  rc_store :: "'w lease_store option"
  rc_forwarder :: "'w forwarder option"
  rc_publication :: "'w lease_publication option"
  rc_lifetime :: "'w lifetime option"

text \<open>A step returns a phase and an error, which the caller may get together.\<close>

type_synonym 'w outcome = "'w \<Rightarrow> (attach_phase \<times> error option) \<times> 'w"

definition outcome :: "attach_phase \<Rightarrow> error option \<Rightarrow> 'w outcome" where
  "outcome ph err w = ((ph, err), w)"

definition Join :: "error \<Rightarrow> error option \<Rightarrow> error" where
  "Join e saveErr =
     (case (e, saveErr) of
        (_, None) \<Rightarrow> e
      | (Error a, Some (Error b)) \<Rightarrow> Error (a @ [CHR 0x0A] @ b))"

definition transition_to :: "'w lease_store \<Rightarrow> attachment \<Rightarrow> attach_phase \<Rightarrow> 'w outcome" where
  "transition_to store current ph =
     io_case (ls_save store (Some current) (current\<lparr>at_phase := ph\<rparr>))
       (\<lambda>e. outcome (at_phase current) (Some e))
       (\<lambda>_. outcome ph None)"

text \<open>An error in the ready phase also steps back to publishing.\<close>

definition failed_step :: "'w lease_store \<Rightarrow> attachment \<Rightarrow> error \<Rightarrow> 'w outcome" where
  "failed_step store current e =
     (if at_phase current = Ready
        then run_then (transition_to store current Publishing) (\<lambda>(ph, saveErr). outcome ph (Some (Join e saveErr)))
      else outcome (at_phase current) (Some e))"

text \<open>No lease, or a completed one: its holds are released and a new lease may be prepared.\<close>

definition begin_lease :: "'w lease_store \<Rightarrow> 'w lifetime option \<Rightarrow> attachment option \<Rightarrow> attachment option \<Rightarrow> 'w outcome" where
  "begin_lease store life current new =
     io_case (case current of
                None \<Rightarrow> io_lift (Inr ())
              | Some r \<Rightarrow> (case life of None \<Rightarrow> io_lift (Inr ()) | Some l \<Rightarrow> li_release l r))
       (\<lambda>e. outcome Complete (Some e))
       (\<lambda>_. case new of
          None \<Rightarrow> outcome Complete None
        | Some r \<Rightarrow>
            io_case (ls_save store current r)
              (\<lambda>e. outcome (Other_Phase []) (Some e))
              (\<lambda>_. outcome Preparing None))"

text \<open>The provider is observed before every publication.\<close>

definition ensure_publish :: "'w forwarder \<Rightarrow> 'w lease_publication \<Rightarrow> attachment \<Rightarrow> ('w, bool) io" where
  "ensure_publish fw pub current =
     io_bind (fw_ensure fw current) (\<lambda>ensured. if ensured then pu_publish pub current else io_lift (Inr False))"

definition phase_call :: "'w forwarder \<Rightarrow> 'w lease_publication \<Rightarrow> attachment \<Rightarrow> (('w, bool) io \<times> attach_phase) option" where
  "phase_call fw pub current =
     (case at_phase current of
        Preparing \<Rightarrow> Some (fw_ensure fw current, Publishing)
      | Publishing \<Rightarrow> Some (ensure_publish fw pub current, Ready)
      | Ready \<Rightarrow> Some (ensure_publish fw pub current, Ready)
      | Withdrawing \<Rightarrow> Some (pu_withdraw pub current, Releasing)
      | Releasing \<Rightarrow> Some (fw_release fw current, Complete)
      | _ \<Rightarrow> None)"

text \<open>Completion is committed before the holds on the participants are released.\<close>

definition complete_lease :: "'w lease_store \<Rightarrow> 'w lifetime \<Rightarrow> attachment \<Rightarrow> 'w outcome" where
  "complete_lease store life current =
     run_then (transition_to store current Complete) (\<lambda>(ph, err).
       case err of
         Some e \<Rightarrow> outcome ph (Some e)
       | None \<Rightarrow>
           io_case (li_release life current) (\<lambda>e. outcome Complete (Some e)) (\<lambda>_. outcome Complete None))"

definition advance_lease ::
  "'w lease_store \<Rightarrow> 'w forwarder \<Rightarrow> 'w lease_publication \<Rightarrow> 'w lifetime option \<Rightarrow> attachment \<Rightarrow> 'w outcome" where
  "advance_lease store fw pub life current =
     (case phase_call fw pub current of
        None \<Rightarrow> outcome (at_phase current) (Some (Error ''unknown attachment phase''))
      | Some (call, target) \<Rightarrow>
          io_case call (failed_step store current) (\<lambda>finished.
            if \<not> finished \<and> at_phase current = Ready then transition_to store current Publishing
            else if \<not> finished \<or> at_phase current = target then outcome (at_phase current) None
            else
              (case life of
                 None \<Rightarrow> transition_to store current target
               | Some l \<Rightarrow> if target = Complete then complete_lease store l current else transition_to store current target)))"

definition active_phase :: "attach_phase \<Rightarrow> bool" where
  "active_phase p = (p = Preparing \<or> p = Publishing \<or> p = Ready)"

text \<open>
  A running lease: its participants are protected, a lease that is no longer wanted or wanted differently is withdrawn,
  and otherwise its phase is advanced. \<open>wanted\<close> is the digest of the desired plan.
\<close>

definition continue_lease ::
  "'w lease_store \<Rightarrow> 'w forwarder \<Rightarrow> 'w lease_publication \<Rightarrow> 'w lifetime option \<Rightarrow> attachment \<Rightarrow> string option \<Rightarrow> 'w outcome" where
  "continue_lease store fw pub life current wanted =
     io_case (case life of
                None \<Rightarrow> io_lift (Inr False)
              | Some l \<Rightarrow>
                  if wanted = Some (at_digest current) \<and> active_phase (at_phase current) then li_protect l current else io_lift (Inr False))
       (failed_step store current)
       (\<lambda>retiring.
          if (retiring \<or> wanted \<noteq> Some (at_digest current)) \<and> active_phase (at_phase current)
            then transition_to store current Withdrawing
          else advance_lease store fw pub life current)"

text \<open>The plan of what is desired, nothing while the stored lease is being deleted.\<close>

definition desired_plan :: "attachment option \<Rightarrow> gateway_request option \<Rightarrow> gateway_plan option res" where
  "desired_plan current desired =
     (case (case current of Some r \<Rightarrow> if at_deleting r then None else desired | None \<Rightarrow> desired) of
        None \<Rightarrow> Inr None
      | Some req \<Rightarrow> (case PlanGateway req of Inl e \<Rightarrow> Inl e | Inr plan \<Rightarrow> Inr (Some plan)))"

definition new_lease :: "'a attach_env_scheme \<Rightarrow> string \<Rightarrow> string \<Rightarrow> gateway_plan \<Rightarrow> attachment" where
  "new_lease env aid fresh plan =
     \<lparr>at_id = aid, at_lease = fresh, at_digest = planDigest env plan, at_plan = plan, at_phase = Preparing, at_version = [],
      at_deleting = False\<rparr>"

definition stored_lease :: "'a attach_env_scheme \<Rightarrow> string \<Rightarrow> attachment \<Rightarrow> bool" where
  "stored_lease env aid r = (at_id r = aid \<and> at_lease r \<noteq> [] \<and> at_digest r = planDigest env (at_plan r))"

text \<open>\<open>rand.Text()\<close> is the argument \<open>fresh\<close>.\<close>

definition Step ::
  "'a attach_env_scheme \<Rightarrow> 'w attach_reconciler \<Rightarrow> string \<Rightarrow> string \<Rightarrow> gateway_request option \<Rightarrow> 'w outcome" where
  "Step env rc fresh aid desired =
     (case (rc_store rc, rc_forwarder rc, rc_publication rc) of
        (Some store, Some fw, Some pub) \<Rightarrow>
          if aid = [] then outcome (Other_Phase []) (Some (Error ''attachment identity and all reconciliation capabilities are required''))
          else
            io_case (ls_load store aid) (\<lambda>e. outcome (Other_Phase []) (Some e)) (\<lambda>current.
              case desired_plan current desired of
                Inl e \<Rightarrow> outcome (Other_Phase []) (Some e)
              | Inr planned \<Rightarrow>
                  (case current of
                     None \<Rightarrow> begin_lease store (rc_lifetime rc) None (map_option (new_lease env aid fresh) planned)
                   | Some r \<Rightarrow>
                       if \<not> stored_lease env aid r
                         then outcome (at_phase r) (Some (Error ''persisted attachment identity or digest mismatch''))
                       else if at_phase r = Complete
                         then begin_lease store (rc_lifetime rc) (Some r) (map_option (new_lease env aid fresh) planned)
                       else continue_lease store fw pub (rc_lifetime rc) r (map_option (planDigest env) planned)))
      | _ \<Rightarrow> outcome (Other_Phase []) (Some (Error ''attachment identity and all reconciliation capabilities are required'')))"

end
