(* ===== verification/Attachment_Life.thy ===== *)
theory Attachment_Life
  imports Attachment
begin

text \<open>
  What the steps of an attachment's reconciler call, and in which order, for every store, provider, publication and
  lifetime: the calls a step may make after the calls before it, and the histories of any interleaved steps.
\<close>

section \<open>Calls of a step\<close>

datatype lease_event =
    Loaded "attachment option" | Saves "attachment option" attachment | Ensured attachment "bool res" | Publishes attachment "bool res"
  | Withdraws attachment "bool res" | Releases attachment "bool res" | Protects attachment "bool res" | Frees attachment "unit res"

definition log_store :: "'w lease_store \<Rightarrow> ('w \<times> lease_event list) lease_store" where
  "log_store s =
     \<lparr>ls_load = (\<lambda>i. logged (on_success Loaded) (ls_load s i)),
      ls_save = (\<lambda>p n. logged (\<lambda>_. [Saves p n]) (ls_save s p n))\<rparr>"

definition log_forwarder :: "'w forwarder \<Rightarrow> ('w \<times> lease_event list) forwarder" where
  "log_forwarder f =
     \<lparr>fw_ensure = (\<lambda>r. logged (\<lambda>x. [Ensured r x]) (fw_ensure f r)), fw_release = (\<lambda>r. logged (\<lambda>x. [Releases r x]) (fw_release f r))\<rparr>"

definition log_publication :: "'w lease_publication \<Rightarrow> ('w \<times> lease_event list) lease_publication" where
  "log_publication p =
     \<lparr>pu_publish = (\<lambda>r. logged (\<lambda>x. [Publishes r x]) (pu_publish p r)), pu_withdraw = (\<lambda>r. logged (\<lambda>x. [Withdraws r x]) (pu_withdraw p r))\<rparr>"

definition log_lifetime :: "'w lifetime \<Rightarrow> ('w \<times> lease_event list) lifetime" where
  "log_lifetime l =
     \<lparr>li_protect = (\<lambda>r. logged (\<lambda>x. [Protects r x]) (li_protect l r)), li_release = (\<lambda>r. logged (\<lambda>x. [Frees r x]) (li_release l r))\<rparr>"

definition log_reconciler :: "'w attach_reconciler \<Rightarrow> ('w \<times> lease_event list) attach_reconciler" where
  "log_reconciler rc =
     \<lparr>rc_store = map_option log_store (rc_store rc), rc_forwarder = map_option log_forwarder (rc_forwarder rc),
      rc_publication = map_option log_publication (rc_publication rc), rc_lifetime = map_option log_lifetime (rc_lifetime rc)\<rparr>"

text \<open>
  The moves of a lease, each with the call that has to precede it. A new lease may only be stored where there was none or
  where the last one is complete.
\<close>

inductive lease_move :: "lease_event list \<Rightarrow> attachment \<Rightarrow> attach_phase \<Rightarrow> bool" for l r where
  prepared: "at_phase r = Preparing \<Longrightarrow> Ensured r (Inr True) \<in> set l \<Longrightarrow> lease_move l r Publishing"
| ready: "at_phase r = Publishing \<Longrightarrow> Publishes r (Inr True) \<in> set l \<Longrightarrow> lease_move l r Ready"
| drifted: "at_phase r = Ready \<Longrightarrow> lease_move l r Publishing"
| withdraw: "active_phase (at_phase r) \<Longrightarrow> lease_move l r Withdrawing"
| withdrawn: "at_phase r = Withdrawing \<Longrightarrow> Withdraws r (Inr True) \<in> set l \<Longrightarrow> lease_move l r Releasing"
| released: "at_phase r = Releasing \<Longrightarrow> Releases r (Inr True) \<in> set l \<Longrightarrow> lease_move l r Complete"

inductive_simps lease_move_to: "lease_move l r Publishing" "lease_move l r Ready" "lease_move l r Releasing" "lease_move l r Complete"
  "lease_move l r Preparing"

definition lease_begins :: "'a attach_env_scheme \<Rightarrow> string \<Rightarrow> attachment \<Rightarrow> bool" where
  "lease_begins env aid n = (\<exists>fresh plan req. PlanGateway req = Inr plan \<and> n = new_lease env aid fresh plan)"

definition may_save :: "'a attach_env_scheme \<Rightarrow> string \<Rightarrow> lease_event list \<Rightarrow> attachment option \<Rightarrow> attachment \<Rightarrow> bool" where
  "may_save env aid l p n =
     (Loaded p \<in> set l \<and>
      (lease_begins env aid n \<and> (\<forall>r. p = Some r \<longrightarrow> at_phase r = Complete) \<or>
       (\<exists>r ph. p = Some r \<and> n = r\<lparr>at_phase := ph\<rparr> \<and> lease_move l r ph)))"

definition serves :: "lease_event list \<Rightarrow> attachment \<Rightarrow> bool" where
  "serves l r = (Loaded (Some r) \<in> set l \<and> active_phase (at_phase r) \<and> \<not> at_deleting r)"

fun may_call :: "'a attach_env_scheme \<Rightarrow> string \<Rightarrow> lease_event list \<Rightarrow> lease_event \<Rightarrow> bool" where
  "may_call env aid l (Loaded _) = True"
| "may_call env aid l (Saves p n) = may_save env aid l p n"
| "may_call env aid l (Ensured r _) = serves l r"
| "may_call env aid l (Protects r _) = serves l r"
| "may_call env aid l (Publishes r _) = (serves l r \<and> Ensured r (Inr True) \<in> set l)"
| "may_call env aid l (Withdraws r _) = (Loaded (Some r) \<in> set l \<and> at_phase r = Withdrawing)"
| "may_call env aid l (Releases r _) = (Loaded (Some r) \<in> set l \<and> at_phase r = Releasing)"
| "may_call env aid l (Frees r _) =
     (Loaded (Some r) \<in> set l \<and>
      (at_phase r = Complete \<or> at_phase r = Releasing \<and> Releases r (Inr True) \<in> set l \<and> Saves (Some r) (r\<lparr>at_phase := Complete\<rparr>) \<in> set l))"

section \<open>Every step keeps to them\<close>

lemma log_simps [simp]:
  "ls_load (log_store s) i = logged (on_success Loaded) (ls_load s i)"
  "ls_save (log_store s) p n = logged (\<lambda>_. [Saves p n]) (ls_save s p n)"
  "fw_ensure (log_forwarder f) r = logged (\<lambda>x. [Ensured r x]) (fw_ensure f r)"
  "fw_release (log_forwarder f) r = logged (\<lambda>x. [Releases r x]) (fw_release f r)"
  "pu_publish (log_publication p') r = logged (\<lambda>x. [Publishes r x]) (pu_publish p' r)"
  "pu_withdraw (log_publication p') r = logged (\<lambda>x. [Withdraws r x]) (pu_withdraw p' r)"
  "li_protect (log_lifetime k) r = logged (\<lambda>x. [Protects r x]) (li_protect k r)"
  "li_release (log_lifetime k) r = logged (\<lambda>x. [Frees r x]) (li_release k r)"
  by (simp_all add: log_store_def log_forwarder_def log_publication_def log_lifetime_def)

lemma log_reconciler_simps:
  "rc_store (log_reconciler rc) = map_option log_store (rc_store rc)"
  "rc_forwarder (log_reconciler rc) = map_option log_forwarder (rc_forwarder rc)"
  "rc_publication (log_reconciler rc) = map_option log_publication (rc_publication rc)"
  "rc_lifetime (log_reconciler rc) = map_option log_lifetime (rc_lifetime rc)"
  by (simp_all add: log_reconciler_def)

lemma calls_outcome: "Q (ph, err) l \<Longrightarrow> calls ok l (outcome ph err) Q"
  unfolding outcome_def by (rule calls_return)

lemma transition_calls:
  assumes "Loaded (Some r) \<in> set l" "lease_move l r ph"
  shows "calls (may_call env aid) l (transition_to (log_store s) r ph) (\<lambda>_ l'. l' = l @ [Saves (Some r) (r\<lparr>at_phase := ph\<rparr>)])"
  unfolding transition_to_def
  by (rule calls_case, simp, rule calls_logged) (use assms in \<open>auto simp: may_save_def intro: calls_outcome\<close>)

lemma failed_calls:
  assumes "Loaded (Some r) \<in> set l"
  shows "calls (may_call env aid) l (failed_step (log_store s) r e) (\<lambda>_ _. True)"
  unfolding failed_step_def
  by (rule calls_if, rule calls_then, rule calls_conseq [OF transition_calls [OF assms]])
     (auto intro: calls_outcome lease_move.intros split: prod.split)

lemma complete_calls:
  assumes "Loaded (Some r) \<in> set l" "at_phase r = Releasing" "Releases r (Inr True) \<in> set l"
  shows "calls (may_call env aid) l (complete_lease (log_store s) (log_lifetime k) r) (\<lambda>_ _. True)"
  unfolding complete_lease_def
  by (rule calls_then, rule calls_conseq [OF transition_calls])
     (use assms in \<open>auto intro!: calls_option calls_case calls_logged calls_outcome intro: lease_move.intros split: prod.split option.split\<close>)

text \<open>The call of a phase, and what has happened when it succeeds.\<close>

lemma ensure_publish_calls:
  assumes "serves l r"
  shows "calls (may_call env aid) l (ensure_publish (log_forwarder f) (log_publication p) r)
    (\<lambda>x l'. set l \<subseteq> set l' \<and> (x = Inr True \<longrightarrow> Publishes r (Inr True) \<in> set l'))"
proof -
  have eq: "ensure_publish (log_forwarder f) (log_publication p) r =
      io_case (fw_ensure (log_forwarder f) r) (\<lambda>e s. (Inl e, s)) (\<lambda>b. if b then pu_publish (log_publication p) r else io_lift (Inr False))"
    by (rule ext) (simp add: ensure_publish_def io_bind_def io_case_def)
  have "serves (l @ xs) r" for xs using assms by (simp add: serves_def)
  then show ?thesis unfolding eq
    by (intro calls_case, simp only: log_simps, intro calls_logged)
       (use assms in \<open>auto intro!: calls_return calls_if calls_logged calls_lift\<close>)
qed

lemma phase_calls:
  assumes "Loaded (Some r) \<in> set l" "active_phase (at_phase r) \<longrightarrow> \<not> at_deleting r"
    and "phase_call (log_forwarder f) (log_publication p) r = Some (call, target)"
  shows "calls (may_call env aid) l call
    (\<lambda>x l'. set l \<subseteq> set l' \<and> (x = Inr True \<longrightarrow> at_phase r = target \<or> lease_move l' r target \<and>
       (target = Complete \<longrightarrow> at_phase r = Releasing \<and> Releases r (Inr True) \<in> set l')))"
proof (cases "at_phase r = Publishing \<or> at_phase r = Ready")
  case True
  with assms have "serves l r" by (auto simp: serves_def active_phase_def)
  moreover from True assms(3) have "call = ensure_publish (log_forwarder f) (log_publication p) r" "target = Ready"
    by (auto simp: phase_call_def)
  ultimately show ?thesis using True
    by (simp only:, intro calls_conseq [OF ensure_publish_calls]) (auto intro: lease_move.intros)
next
  case False
  with assms show ?thesis
    by (cases "at_phase r")
       (auto simp: phase_call_def serves_def active_phase_def intro!: calls_logged intro: lease_move.intros)
qed

lemma advance_calls:
  assumes "Loaded (Some r) \<in> set l" "active_phase (at_phase r) \<longrightarrow> \<not> at_deleting r"
  shows "calls (may_call env aid) l (advance_lease (log_store s) (log_forwarder f) (log_publication p) (map_option log_lifetime k) r) (\<lambda>_ _. True)"
proof (cases "phase_call (log_forwarder f) (log_publication p) r")
  case None
  then show ?thesis by (simp add: advance_lease_def calls_outcome)
next
  case (Some ct)
  obtain call target where ct: "ct = (call, target)" by (cases ct)
  note pc = phase_calls [OF assms Some [unfolded ct]]
  have any: "calls ok l' q Q \<Longrightarrow> calls ok l' q (\<lambda>_ _. True)" for ok l' q Q by (erule calls_conseq) simp
  show ?thesis
    unfolding advance_lease_def Some ct option.case prod.case
  proof (rule calls_case, rule calls_conseq [OF pc], intro conjI allI impI)
    fix x l' e
    assume "set l \<subseteq> set l' \<and> (x = Inr True \<longrightarrow> at_phase r = target \<or> lease_move l' r target \<and>
       (target = Complete \<longrightarrow> at_phase r = Releasing \<and> Releases r (Inr True) \<in> set l'))"
    with assms(1) show "calls (may_call env aid) l' (failed_step (log_store s) r e) (\<lambda>_ _. True)" by (intro failed_calls) blast
  next
    fix x l' b
    assume h: "set l \<subseteq> set l' \<and> (x = Inr True \<longrightarrow> at_phase r = target \<or> lease_move l' r target \<and>
       (target = Complete \<longrightarrow> at_phase r = Releasing \<and> Releases r (Inr True) \<in> set l'))" and x: "x = Inr b"
    then have ld: "Loaded (Some r) \<in> set l'" using assms(1) by blast
    note tr = any [OF transition_calls [OF ld]]
    show "calls (may_call env aid) l'
       (if \<not> b \<and> at_phase r = Ready then transition_to (log_store s) r Publishing
        else if \<not> b \<or> at_phase r = target then outcome (at_phase r) None
        else (case map_option log_lifetime k of None \<Rightarrow> transition_to (log_store s) r target
              | Some l \<Rightarrow> if target = Complete then complete_lease (log_store s) l r else transition_to (log_store s) r target)) (\<lambda>_ _. True)"
      using h x ld
      by (cases k) (auto intro!: calls_if calls_outcome tr complete_calls intro: lease_move.intros)
  qed
qed

lemma continue_calls:
  assumes "Loaded (Some r) \<in> set l" "wanted \<noteq> None \<longrightarrow> \<not> at_deleting r"
  shows "calls (may_call env aid) l
    (continue_lease (log_store s) (log_forwarder f) (log_publication p) (map_option log_lifetime k) r wanted) (\<lambda>_ _. True)"
  unfolding continue_lease_def
proof (rule calls_case, rule calls_conseq)
  show "calls (may_call env aid) l (case map_option log_lifetime k of None \<Rightarrow> io_lift (Inr False)
      | Some l \<Rightarrow> if wanted = Some (at_digest r) \<and> active_phase (at_phase r) then li_protect l r else io_lift (Inr False))
      (\<lambda>_ l'. set l \<subseteq> set l')"
    using assms by (cases k) (auto intro!: calls_if calls_lift calls_logged simp: serves_def)
next
  fix x l'
  assume "set l \<subseteq> set l'"
  then have ld: "Loaded (Some r) \<in> set l'" using assms(1) by blast
  have "calls (may_call env aid) l' (transition_to (log_store s) r Withdrawing) (\<lambda>_ _. True)" if "active_phase (at_phase r)"
    by (rule calls_conseq [OF transition_calls [OF ld withdraw [OF that]]]) simp
  moreover have "calls (may_call env aid) l' (advance_lease (log_store s) (log_forwarder f) (log_publication p) (map_option log_lifetime k) r) (\<lambda>_ _. True)"
    if "active_phase (at_phase r) \<longrightarrow> \<not> at_deleting r" by (rule advance_calls [OF ld that])
  ultimately show "(\<forall>e. x = Inl e \<longrightarrow> calls (may_call env aid) l' (failed_step (log_store s) r e) (\<lambda>_ _. True)) \<and>
     (\<forall>b. x = Inr b \<longrightarrow> calls (may_call env aid) l'
        (if (b \<or> wanted \<noteq> Some (at_digest r)) \<and> active_phase (at_phase r) then transition_to (log_store s) r Withdrawing
         else advance_lease (log_store s) (log_forwarder f) (log_publication p) (map_option log_lifetime k) r) (\<lambda>_ _. True))"
    using failed_calls [OF ld] assms(2) by (auto intro!: calls_if)
qed

lemma begin_calls:
  assumes "Loaded c \<in> set l" "\<And>r. c = Some r \<Longrightarrow> at_phase r = Complete" "\<And>n. new = Some n \<Longrightarrow> lease_begins env aid n"
  shows "calls (may_call env aid) l (begin_lease (log_store s) (map_option log_lifetime k) c new) (\<lambda>_ _. True)"
  unfolding begin_lease_def
proof (rule calls_case, rule calls_conseq)
  show "calls (may_call env aid) l (case c of None \<Rightarrow> io_lift (Inr ()) | Some r \<Rightarrow> (case map_option log_lifetime k of None \<Rightarrow> io_lift (Inr ()) | Some l \<Rightarrow> li_release l r))
      (\<lambda>_ l'. set l \<subseteq> set l')"
    using assms(1,2) by (cases c; cases k) (auto intro!: calls_lift calls_logged)
next
  fix x l'
  assume "set l \<subseteq> set l'"
  then have "Loaded c \<in> set l'" using assms(1) by blast
  then show "(\<forall>e. x = Inl e \<longrightarrow> calls (may_call env aid) l' (outcome Complete (Some e)) (\<lambda>_ _. True)) \<and>
     (\<forall>u. x = Inr u \<longrightarrow> calls (may_call env aid) l' (case new of None \<Rightarrow> outcome Complete None
        | Some r \<Rightarrow> io_case (ls_save (log_store s) c r) (\<lambda>e. outcome (Other_Phase []) (Some e)) (\<lambda>_. outcome Preparing None)) (\<lambda>_ _. True))"
    using assms(2,3) by (auto intro!: calls_option calls_outcome calls_case calls_logged simp: may_save_def)
qed

lemma step_calls: "calls (may_call env aid) [] (Step env (log_reconciler rc) fresh aid desired) (\<lambda>_ _. True)"
proof -
  have body: "calls (may_call env aid) [Loaded c]
     (case desired_plan c desired of
        Inl e \<Rightarrow> outcome (Other_Phase []) (Some e)
      | Inr planned \<Rightarrow>
          (case c of
             None \<Rightarrow> begin_lease (log_store s) (map_option log_lifetime k) None (map_option (new_lease env aid fresh) planned)
           | Some r \<Rightarrow>
               if \<not> stored_lease env aid r then outcome (at_phase r) (Some (Error ''persisted attachment identity or digest mismatch''))
               else if at_phase r = Complete
                 then begin_lease (log_store s) (map_option log_lifetime k) (Some r) (map_option (new_lease env aid fresh) planned)
               else continue_lease (log_store s) (log_forwarder f) (log_publication p) (map_option log_lifetime k) r (map_option (planDigest env) planned)))
     (\<lambda>_ _. True)" for c s f p k
  proof (rule calls_sum)
    fix e
    show "calls (may_call env aid) [Loaded c] (outcome (Other_Phase []) (Some e)) (\<lambda>_ _. True)" by (rule calls_outcome) simp
  next
    fix planned
    assume d: "desired_plan c desired = Inr planned"
    have new: "lease_begins env aid n" if "map_option (new_lease env aid fresh) planned = Some n" for n
      using that d by (auto simp: desired_plan_def lease_begins_def split: option.splits sum.splits if_splits)
    have del: "planned \<noteq> None \<longrightarrow> \<not> at_deleting r" if "c = Some r" for r
      using that d by (auto simp: desired_plan_def split: option.splits sum.splits if_splits)
    show "calls (may_call env aid) [Loaded c]
      (case c of
             None \<Rightarrow> begin_lease (log_store s) (map_option log_lifetime k) None (map_option (new_lease env aid fresh) planned)
           | Some r \<Rightarrow>
               if \<not> stored_lease env aid r then outcome (at_phase r) (Some (Error ''persisted attachment identity or digest mismatch''))
               else if at_phase r = Complete
                 then begin_lease (log_store s) (map_option log_lifetime k) (Some r) (map_option (new_lease env aid fresh) planned)
               else continue_lease (log_store s) (log_forwarder f) (log_publication p) (map_option log_lifetime k) r (map_option (planDigest env) planned))
      (\<lambda>_ _. True)"
      by (intro calls_option calls_if begin_calls continue_calls calls_outcome) (use new del in auto)
  qed
  have "calls (may_call env aid) [] (logged (on_success Loaded) g)
      (\<lambda>x l'. (\<forall>e. x = Inl e \<longrightarrow> l' = []) \<and> (\<forall>c. x = Inr c \<longrightarrow> l' = [Loaded c]))" for g :: "('w, attachment option) io"
    by (rule calls_logged) (auto simp: on_success_def split: sum.split)
  note ld = calls_conseq [OF this]
  show ?thesis
    unfolding Step_def log_reconciler_simps
    by (cases "rc_store rc"; cases "rc_forwarder rc"; cases "rc_publication rc")
       (auto intro!: calls_outcome calls_if calls_case ld body)
qed

section \<open>Histories\<close>

lemma permits_shuffle:
  assumes mono: "\<And>l l' e. ok l e \<Longrightarrow> set l \<subseteq> set l' \<Longrightarrow> ok l' e"
  shows "zs \<in> shuffles xs ys \<Longrightarrow> permits ok a xs \<Longrightarrow> permits ok b ys \<Longrightarrow> set a \<union> set b \<subseteq> set c \<Longrightarrow> permits ok c zs"
proof (induction xs ys arbitrary: zs a b c rule: shuffles.induct)
  case (1 ys)
  have "permits ok b xs \<Longrightarrow> set b \<subseteq> set c \<Longrightarrow> permits ok c xs" for xs b c
  proof (induction xs arbitrary: b c)
    case (Cons x xs)
    from Cons.prems Cons.IH [of "b @ [x]" "c @ [x]"] show ?case by (auto intro: mono)
  qed simp
  with 1 show ?case by simp
next
  case (2 xs)
  have "permits ok b xs \<Longrightarrow> set b \<subseteq> set c \<Longrightarrow> permits ok c xs" for xs b c
  proof (induction xs arbitrary: b c)
    case (Cons x xs)
    from Cons.prems Cons.IH [of "b @ [x]" "c @ [x]"] show ?case by (auto intro: mono)
  qed simp
  with 2 show ?case by simp
next
  case (3 x xs y ys)
  from 3(3) consider us where "zs = x # us" "us \<in> shuffles xs (y # ys)" | us where "zs = y # us" "us \<in> shuffles (x # xs) ys" by auto
  then show ?case
  proof cases
    case 1
    have "permits ok (c @ [x]) us" by (rule 3(1) [OF 1(2), of "a @ [x]" b]) (use 3(4,5,6) in auto)
    with 1 3(4,6) show ?thesis by (auto intro: mono)
  next
    case 2
    have "permits ok (c @ [y]) us" by (rule 3(2) [OF 2(2), of a "b @ [y]"]) (use 3(4,5,6) in auto)
    with 2 3(5,6) show ?thesis by (auto intro: mono)
  qed
qed

lemma lease_move_mono: "lease_move l r ph \<Longrightarrow> set l \<subseteq> set l' \<Longrightarrow> lease_move l' r ph"
  by (induction rule: lease_move.induct) (auto intro: lease_move.intros)

lemma may_call_mono: "may_call env aid l e \<Longrightarrow> set l \<subseteq> set l' \<Longrightarrow> may_call env aid l' e"
  by (cases e) (auto simp: may_save_def serves_def dest: lease_move_mono)

text \<open>
  The calls of any number of steps for one attachment, by any controllers, interleaved in any way. A store is
  trusted for one thing: what it returns was written before.
\<close>

inductive lease_history :: "'a attach_env_scheme \<Rightarrow> 'w attach_reconciler \<Rightarrow> string \<Rightarrow> lease_event list \<Rightarrow> bool" for env rc aid where
  start: "lease_history env rc aid []"
| step: "lease_history env rc aid L \<Longrightarrow> Step env (log_reconciler rc) fresh aid desired (w, []) = (r, (w', es)) \<Longrightarrow>
    L' \<in> shuffles L es \<Longrightarrow> lease_history env rc aid L'"

definition same_lease :: "attachment \<Rightarrow> attachment \<Rightarrow> bool" where
  "same_lease a b = (a\<lparr>at_version := [], at_deleting := False\<rparr> = b\<lparr>at_version := [], at_deleting := False\<rparr>)"

fun wrote :: "attachment \<Rightarrow> lease_event \<Rightarrow> bool" where
  "wrote r (Saves _ n) = same_lease n r"
| "wrote r _ = False"

fun loads_written :: "lease_event list \<Rightarrow> lease_event \<Rightarrow> bool" where
  "loads_written l (Loaded (Some r)) = list_ex (wrote r) l"
| "loads_written l _ = True"

definition returns_written :: "lease_event list \<Rightarrow> bool" where
  "returns_written L = permits loads_written [] L"

lemma history_permits: "lease_history env rc aid L \<Longrightarrow> permits (may_call env aid) [] L"
proof (induction rule: lease_history.induct)
  case (step L fresh desired w r w' es L')
  have es: "permits (may_call env aid) [] es" using calls_run [OF step_calls step.hyps(2)] by simp
  show ?case by (rule permits_shuffle [OF _ step.hyps(3) step.IH es]) (auto elim: may_call_mono)
qed simp

lemma permits_at: "permits ok [] (xs @ e # ys) \<Longrightarrow> ok xs e"
  by simp

lemma same_leaseD: "same_lease a b \<Longrightarrow> at_phase a = at_phase b \<and> LeaseID a = LeaseID b"
  unfolding same_lease_def LeaseID_def
  by (metis attachment.select_convs(1-5) attachment.surjective attachment.update_convs(6,7))

text \<open>The write behind a loaded record, and the call behind a phase that was written.\<close>

lemma loaded_written:
  assumes "permits (may_call env aid) [] L" "returns_written L" "L = xs @ e # ys" "Loaded (Some r) \<in> set xs"
  obtains us p n vs where "xs = us @ Saves p n # vs" "may_save env aid us p n" "same_lease n r"
proof -
  from assms(4) obtain as bs where "xs = as @ Loaded (Some r) # bs" by (meson split_list)
  with assms(2,3) have "list_ex (wrote r) as" unfolding returns_written_def by simp
  then obtain p n where s: "Saves p n \<in> set as" "same_lease n r" by (auto simp: list_ex_iff elim!: wrote.elims)
  then obtain us cs where "as = us @ Saves p n # cs" by (meson split_list)
  with \<open>xs = as @ Loaded (Some r) # bs\<close> have xs: "xs = us @ Saves p n # (cs @ Loaded (Some r) # bs)" by simp
  with assms(1,3) have "may_call env aid us (Saves p n)" using permits_at [of "may_call env aid" us "Saves p n"] by simp
  with that xs s show ?thesis by simp
qed

lemma releasing_withdrawn:
  assumes "permits (may_call env aid) [] L" "returns_written L" "L = xs @ e # ys" "Loaded (Some r) \<in> set xs" "at_phase r = Releasing"
  shows "\<exists>q. Withdraws q (Inr True) \<in> set xs \<and> LeaseID q = LeaseID r"
proof -
  from loaded_written [OF assms(1-4)] obtain us p n vs where w: "xs = us @ Saves p n # vs" "may_save env aid us p n" "same_lease n r" .
  from w(2) same_leaseD [OF w(3)] assms(5) obtain q where "n = q\<lparr>at_phase := Releasing\<rparr>" "Withdraws q (Inr True) \<in> set us"
    by (auto simp: may_save_def lease_begins_def new_lease_def lease_move_to)
  with w(1) same_leaseD [OF w(3)] show ?thesis by (auto simp: LeaseID_def)
qed

lemma complete_released:
  assumes "permits (may_call env aid) [] L" "returns_written L" "L = xs @ e # ys" "Loaded (Some r) \<in> set xs" "at_phase r = Complete"
  shows "\<exists>q. Releases q (Inr True) \<in> set xs \<and> LeaseID q = LeaseID r"
proof -
  from loaded_written [OF assms(1-4)] obtain us p n vs where w: "xs = us @ Saves p n # vs" "may_save env aid us p n" "same_lease n r" .
  from w(2) same_leaseD [OF w(3)] assms(5) obtain q where "n = q\<lparr>at_phase := Complete\<rparr>" "Releases q (Inr True) \<in> set us"
    by (auto simp: may_save_def lease_begins_def new_lease_def lease_move_to)
  with w(1) same_leaseD [OF w(3)] show ?thesis by (auto simp: LeaseID_def)
qed


end
