(* ===== verification/Publication.thy ===== *)
theory Publication
  imports Attachment
begin

text \<open>
  The durable stores of an attachment and of its publication (\<open>store.go\<close>, \<open>publication_store.go\<close>), the projections in the
  mesh Secret (\<open>projection_store.go\<close>), and the recipients of a publication (\<open>snapshot.go\<close>, \<open>consumers.go\<close>).
\<close>

section \<open>Stores\<close>

definition hashed_name :: "'a round_env_scheme \<Rightarrow> string \<Rightarrow> string \<Rightarrow> string" where
  "hashed_name env p s = p @ hex_encode (take 16 (sha256 env s))"

definition version_of :: "'a object_meta_scheme \<Rightarrow> string" where
  "version_of obj = om_uid obj @ ''/'' @ om_resourceVersion obj"

definition leaseFinalizer :: string where
  "leaseFinalizer = ''cloud-provisioning.appmana.com/network-attachment''"

definition publicationFinalizer :: string where
  "publicationFinalizer = ''cloud-provisioning.appmana.com/gateway-publication''"

definition new_map :: "string \<Rightarrow> string \<Rightarrow> kube_map" where
  "new_map ns name =
     \<lparr>om_name = name, om_namespace = ns, om_uid = [], om_resourceVersion = [], om_generation = 0, om_deletionTimestamp = None,
      om_labels = Mapping.empty, om_annotations = Mapping.empty, om_finalizers = [], om_owners = [], km_data = Mapping.empty\<rparr>"

definition hold :: "string \<Rightarrow> bool \<Rightarrow> 'a object_meta_scheme \<Rightarrow> 'a object_meta_scheme" where
  "hold fin finished obj =
     (if finished then obj\<lparr>om_finalizers := filter (\<lambda>f. f \<noteq> fin) (om_finalizers obj)\<rparr>
      else if fin \<in> set (om_finalizers obj) then obj
      else obj\<lparr>om_finalizers := om_finalizers obj @ [fin]\<rparr>)"

definition with_data :: "string \<Rightarrow> string \<Rightarrow> kube_map \<Rightarrow> kube_map" where
  "with_data k v cm = cm\<lparr>km_data := Mapping.update k v (km_data cm)\<rparr>"

definition encoded :: "string option \<Rightarrow> string res" where
  "encoded r = (case r of None \<Rightarrow> Inl (Error ''json'') | Some s \<Rightarrow> Inr s)"

definition decoded :: "string \<Rightarrow> 'x option \<Rightarrow> 'x res" where
  "decoded msg r = (case r of None \<Rightarrow> Inl (Error msg) | Some x \<Rightarrow> Inr x)"

text \<open>\<open>Save\<close> of both stores: the object of a previous record must still have its version.\<close>

definition previous_map :: "'w cluster \<Rightarrow> object_key \<Rightarrow> string option \<Rightarrow> string \<Rightarrow> ('w, kube_map) io" where
  "previous_map c k version msg =
     (case version of
        None \<Rightarrow> io_lift (Inr (new_map (fst k) (snd k)))
      | Some v \<Rightarrow>
          io_bind (api_io (r_get (k_maps c) k)) (\<lambda>cm.
          io_bind (io_lift (guard (version_of cm = v) msg)) (\<lambda>_.
          io_lift (Inr cm))))"

definition write_map :: "'w cluster \<Rightarrow> bool \<Rightarrow> kube_map \<Rightarrow> ('w, unit) io" where
  "write_map c creating cm =
     io_bind (api_io ((if creating then r_create (k_maps c) else r_update (k_maps c)) cm)) (\<lambda>_. io_lift (Inr ()))"

definition lease_Load :: "'a attach_env_scheme \<Rightarrow> 'w cluster option \<Rightarrow> string \<Rightarrow> string \<Rightarrow> ('w, attachment option) io" where
  "lease_Load env client ns aid =
     (case client of
        None \<Rightarrow> io_lift (Inl (Error ''store client, namespace and attachment ID are required''))
      | Some c \<Rightarrow>
          io_bind (io_lift (guard (ns \<noteq> [] \<and> aid \<noteq> []) ''store client, namespace and attachment ID are required'')) (\<lambda>_.
          io_bind (api_find (r_get (k_maps c) (ns, hashed_name env ''network-attachment-'' aid))) (\<lambda>cm.
          case cm of
            None \<Rightarrow> io_lift (Inr None)
          | Some cm \<Rightarrow>
              io_bind (io_lift (decoded ''decode attachment intent'' (json_lease env (index (km_data cm) ''record.json'')))) (\<lambda>r.
              io_bind (io_lift (guard (at_id r = aid) ''attachment ConfigMap identity mismatch'')) (\<lambda>_.
              io_lift (Inr (Some (r\<lparr>at_version := version_of cm, at_deleting := deleting cm\<rparr>))))))))"

definition retiring_phase :: "attach_phase \<Rightarrow> bool" where
  "retiring_phase p = (p = Withdrawing \<or> p = Releasing \<or> p = Complete)"

definition lease_Save :: "'a attach_env_scheme \<Rightarrow> 'w cluster option \<Rightarrow> string \<Rightarrow> attachment option \<Rightarrow> attachment \<Rightarrow> ('w, unit) io" where
  "lease_Save env client ns previous n =
     (case client of
        None \<Rightarrow> io_lift (Inl (Error ''store client, namespace and next attachment are required''))
      | Some c \<Rightarrow>
          io_bind (io_lift (guard (ns \<noteq> [] \<and> at_id n \<noteq> []) ''store client, namespace and next attachment are required'')) (\<lambda>_.
          io_bind (io_lift (encoded (marshal_lease env n))) (\<lambda>raw.
          io_bind (io_lift (guard (case previous of None \<Rightarrow> True | Some p \<Rightarrow> at_id p = at_id n) ''attachment identity cannot change'')) (\<lambda>_.
          io_bind (previous_map c (ns, hashed_name env ''network-attachment-'' (at_id n)) (map_option at_version previous)
                     ''attachment intent changed concurrently'') (\<lambda>cm.
          io_bind (io_lift (guard (\<not> deleting cm \<or> retiring_phase (at_phase n))
                     ''attachment intent is deleting; withdraw before preparing another lease'')) (\<lambda>_.
          write_map c (Option.is_none previous) (hold leaseFinalizer (at_phase n = Complete) (with_data ''record.json'' raw cm))))))))"

definition config_lease_store :: "'a attach_env_scheme \<Rightarrow> 'w cluster option \<Rightarrow> string \<Rightarrow> 'w lease_store" where
  "config_lease_store env client ns = \<lparr>ls_load = lease_Load env client ns, ls_save = lease_Save env client ns\<rparr>"

definition intent_Load :: "'a attach_env_scheme \<Rightarrow> 'w cluster option \<Rightarrow> string \<Rightarrow> string \<Rightarrow> ('w, publication_intent option) io" where
  "intent_Load env client ns lease =
     (case client of
        None \<Rightarrow> io_lift (Inl (Error ''publication client, namespace and lease required''))
      | Some c \<Rightarrow>
          io_bind (io_lift (guard (ns \<noteq> [] \<and> lease \<noteq> []) ''publication client, namespace and lease required'')) (\<lambda>_.
          io_bind (api_find (r_get (k_maps c) (ns, hashed_name env ''gateway-publication-'' lease))) (\<lambda>cm.
          case cm of
            None \<Rightarrow> io_lift (Inr None)
          | Some cm \<Rightarrow>
              io_bind (io_lift (decoded ''json'' (json_intent env (index (km_data cm) ''publication.json'')))) (\<lambda>r.
              io_bind (io_lift (guard (pi_lease r = lease) ''publication identity mismatch'')) (\<lambda>_.
              io_lift (Inr (Some (r\<lparr>pi_version := version_of cm, pi_deleting := deleting cm\<rparr>))))))))"

definition publicationIdentity :: "publication_intent \<Rightarrow> publication_intent" where
  "publicationIdentity p = p\<lparr>pi_retired := False, pi_version := [], pi_deleting := False, pi_consumers := []\<rparr>"

text \<open>What may replace a stored intent: recipients are only added and a retirement is not undone.\<close>

definition intent_extends :: "publication_intent \<Rightarrow> publication_intent \<Rightarrow> bool" where
  "intent_extends old n =
     (publicationIdentity old = publicationIdentity n \<and> (pi_retired old \<longrightarrow> pi_retired n) \<and>
      length (pi_consumers old) \<le> length (pi_consumers n) \<and> take (length (pi_consumers old)) (pi_consumers n) = pi_consumers old \<and>
      (pi_retired old \<longrightarrow> length (pi_consumers n) = length (pi_consumers old)))"

definition intent_Save :: "'a attach_env_scheme \<Rightarrow> 'w cluster option \<Rightarrow> string \<Rightarrow> publication_intent option \<Rightarrow> publication_intent \<Rightarrow> ('w, unit) io" where
  "intent_Save env client ns old n =
     (case client of
        None \<Rightarrow> io_lift (Inl (Error ''publication client, namespace and record required''))
      | Some c \<Rightarrow>
          io_bind (io_lift (guard (ns \<noteq> [] \<and> pi_lease n \<noteq> []) ''publication client, namespace and record required'')) (\<lambda>_.
          io_bind (io_lift (guard (case old of None \<Rightarrow> True | Some p \<Rightarrow> intent_extends p n)
                     ''publication is immutable and retirement is irreversible'')) (\<lambda>_.
          io_bind (previous_map c (ns, hashed_name env ''gateway-publication-'' (pi_lease n)) (map_option pi_version old)
                     ''publication changed concurrently'') (\<lambda>cm.
          io_bind (io_lift (guard (\<not> deleting cm \<or> pi_retired n) ''publication deletion requires acknowledged withdrawal'')) (\<lambda>_.
          io_bind (io_lift (encoded (marshal_intent env n))) (\<lambda>raw.
          write_map c (Option.is_none old) (hold publicationFinalizer (pi_retired n) (with_data ''publication.json'' raw cm))))))))"

section \<open>Projections in the mesh Secret\<close>

definition stored_projections :: "'a mesh_env_scheme \<Rightarrow> mesh \<Rightarrow> gateway_projection list res" where
  "stored_projections env data =
     (let raw = field data GatewayProjectionsKey in
      if raw = [] then Inr [] else decoded ''json'' (json_gateways env raw))"

definition publishers :: "mesh \<Rightarrow> string \<Rightarrow> nat" where
  "publishers data key = length (filter (\<lambda>(k, v). prefix PeerPublicKeyPrefix k \<and> v = key) data)"

text \<open>The loop over the stored projections: the others, with the wanted one in its place; \<open>found\<close> says it was there.\<close>

fun place_projection ::
  "string \<Rightarrow> gateway_projection option \<Rightarrow> bool \<Rightarrow> gateway_projection list \<Rightarrow> gateway_projection list \<Rightarrow> (gateway_projection list \<times> bool) res" where
  "place_projection lease want seen nxt [] = Inr (nxt, seen)"
| "place_projection lease want seen nxt (p # ps) =
     (if gp_lease p \<noteq> lease then place_projection lease want seen (nxt @ [p]) ps
      else if seen then Inl (Error ''duplicate stored lease'')
      else
        (case want of
           None \<Rightarrow> place_projection lease want True nxt ps
         | Some w \<Rightarrow>
             if (if gp_retiringWorker w then p\<lparr>gp_retiringWorker := True\<rparr> else p) \<noteq> w
               then Inl (Error ''active projection is immutable; withdraw before replacement'')
             else place_projection lease want True (nxt @ [w]) ps))"

definition set_field :: "string \<Rightarrow> string \<Rightarrow> mesh \<Rightarrow> mesh" where
  "set_field k v data = AList.update k v data"

definition leaseLess :: "gateway_projection \<Rightarrow> gateway_projection \<Rightarrow> bool" where
  "leaseLess a b = (gp_lease a < gp_lease b)"

text \<open>\<open>Some\<close> is the data of a Secret that has to be written.\<close>

definition setProjection :: "'a attach_env_scheme \<Rightarrow> mesh \<Rightarrow> string \<Rightarrow> gateway_projection option \<Rightarrow> mesh option res" where
  "setProjection env data lease want =
     (case stored_projections env data of
        Inl e \<Rightarrow> Inl e
      | Inr plans \<Rightarrow>
          (case (case want of
                   None \<Rightarrow> Inr ()
                 | Some w \<Rightarrow>
                     if gp_lease w \<noteq> lease then Inl (Error ''projection lease mismatch'')
                     else if publishers data (gp_workerKey w) \<noteq> 1 \<or> publishers data (gp_gatewayKey w) \<noteq> 1
                       then Inl (Error ''projection keys are not uniquely published machine identities'')
                     else Inr ()) of
             Inl e \<Rightarrow> Inl e
           | Inr _ \<Rightarrow>
               (case place_projection lease want False [] plans of
                  Inl e \<Rightarrow> Inl e
                | Inr (nxt, seen) \<Rightarrow>
                    if want = None \<and> \<not> seen then Inr None
                    else
                      (case marshal_gateways env (sort_by leaseLess (if seen then nxt else (case want of None \<Rightarrow> nxt | Some w \<Rightarrow> nxt @ [w]))) of
                         None \<Rightarrow> Inl (Error ''json'')
                       | Some raw \<Rightarrow>
                           (case SitePeers env (set_field GatewayProjectionsKey raw data) of
                              Inl e \<Rightarrow> Inl e
                            | Inr _ \<Rightarrow>
                                if field data GatewayProjectionsKey = raw then Inr None
                                else Inr (Some (set_field GatewayProjectionsKey raw data)))))))"

record 'w projection_store =
  pr_client :: "'w cluster option"
  pr_namespace :: string
  pr_name :: string
  pr_secretUID :: string

definition projection_mesh :: "'w projection_store \<Rightarrow> string \<Rightarrow> ('w, 'w cluster \<times> kube_secret) io" where
  "projection_mesh s lease =
     (case pr_client s of
        None \<Rightarrow> io_lift (Inl (Error ''projection client, mesh identity and lease required''))
      | Some c \<Rightarrow>
          io_bind (io_lift (guard (pr_namespace s \<noteq> [] \<and> pr_name s \<noteq> [] \<and> pr_secretUID s \<noteq> [] \<and> lease \<noteq> [])
                     ''projection client, mesh identity and lease required'')) (\<lambda>_.
          io_bind (api_io (r_get (k_secrets c) (pr_namespace s, pr_name s))) (\<lambda>m.
          io_bind (io_lift (guard (om_uid m = pr_secretUID s \<and> \<not> deleting m) ''mesh Secret replaced or deleting'')) (\<lambda>_.
          io_lift (Inr (c, m))))))"

definition write_projection :: "'w cluster \<Rightarrow> kube_secret \<Rightarrow> mesh option \<Rightarrow> ('w, kube_secret) io" where
  "write_projection c m change =
     (case change of None \<Rightarrow> io_lift (Inr m) | Some data \<Rightarrow> api_io (r_update (k_secrets c) (m\<lparr>ks_data := data\<rparr>)))"

definition RetireWorker :: "'a attach_env_scheme \<Rightarrow> 'w projection_store \<Rightarrow> string \<Rightarrow> ('w, kube_secret \<times> bool) io" where
  "RetireWorker env s lease =
     io_bind (projection_mesh s lease) (\<lambda>(c, m).
     io_bind (io_lift (stored_projections env (ks_data m))) (\<lambda>plans.
     case find (\<lambda>p. gp_lease p = lease) plans of
       None \<Rightarrow> io_lift (Inr (m, False))
     | Some plan \<Rightarrow>
         io_bind (io_lift (setProjection env (ks_data m) lease (Some (plan\<lparr>gp_retiringWorker := True\<rparr>)))) (\<lambda>change.
         io_bind (write_projection c m change) (\<lambda>m'. io_lift (Inr (m', True))))))"

definition Set_projection :: "'a attach_env_scheme \<Rightarrow> 'w projection_store \<Rightarrow> string \<Rightarrow> gateway_projection option \<Rightarrow> ('w, kube_secret) io" where
  "Set_projection env s lease projection =
     io_bind (projection_mesh s lease) (\<lambda>(c, m).
     io_bind (io_lift (setProjection env (ks_data m) lease projection)) (\<lambda>change.
     write_projection c m change))"

section \<open>Recipients\<close>

record consumer =
  co_nodeName :: string
  co_nodeUID :: string
  co_site :: bool
  co_secretName :: string
  co_secretUID :: string
  co_document :: string

definition remote_document :: "'a mesh_env_scheme \<Rightarrow> mesh \<Rightarrow> consumer_target \<Rightarrow> string \<Rightarrow> string \<Rightarrow> string res" where
  "remote_document env data t apiVIP apiPort =
     (if ct_machineName t = [] \<or> ct_secretUID t = [] \<or> ct_tunnelAddress t = [] \<or> apiPort = [] \<or>
         field data (PeerPublicKeyPrefix @ ct_machineName t) \<noteq> ct_publicKey t
        then Inl (Error ''remote identity changed or incomplete'')
      else if \<not> list_ex (\<lambda>host. before CHR ''/'' host = ct_tunnelAddress t)
                (SplitList [field data (PeerRouteHostsPrefix @ ct_machineName t), field data (PeerRouteHostPrefix @ ct_machineName t)])
        then Inl (Error ''remote tunnel address is no longer owned by the consumer'')
      else
        (case RemotePeerDocument env data (ct_tunnelAddress t) apiVIP apiPort of
           Inl e \<Rightarrow> Inl e
         | Inr None \<Rightarrow> Inl (Error ''remote peers not rendered yet'')
         | Inr (Some doc) \<Rightarrow> if doc = [] then Inl (Error ''remote peers not rendered yet'') else Inr doc))"

definition snapshot_target :: "'a mesh_env_scheme \<Rightarrow> mesh \<Rightarrow> string \<Rightarrow> string \<Rightarrow> consumer_target \<Rightarrow> consumer res" where
  "snapshot_target env data apiVIP apiPort t =
     (if ct_site t
        then
          (if field data (NodePublicKeyPrefix @ ct_nodeName t) \<noteq> ct_publicKey t \<or>
              (field data (NodeTunnelAddressPrefix @ ct_nodeName t) = [] \<and> field data (SiteAddressesPrefix @ ct_nodeName t) = [])
             then Inl (Error ''site consumer is not an acknowledged direct endpoint'')
           else Inr \<lparr>co_nodeName = ct_nodeName t, co_nodeUID = ct_nodeUID t, co_site = True, co_secretName = [], co_secretUID = [], co_document = []\<rparr>)
      else
        (case remote_document env data t apiVIP apiPort of
           Inl e \<Rightarrow> Inl e
         | Inr doc \<Rightarrow>
             Inr \<lparr>co_nodeName = ct_nodeName t, co_nodeUID = ct_nodeUID t, co_site = False, co_secretName = AdoptionSecretName (ct_machineName t),
                  co_secretUID = ct_secretUID t, co_document = doc\<rparr>))"

fun snapshot_each :: "'a mesh_env_scheme \<Rightarrow> mesh \<Rightarrow> string \<Rightarrow> string \<Rightarrow> string list \<Rightarrow> consumer_target list \<Rightarrow> consumer list res" where
  "snapshot_each env data apiVIP apiPort seen [] = Inr []"
| "snapshot_each env data apiVIP apiPort seen (t # ts) =
     (if ct_nodeName t = [] \<or> ct_nodeUID t = [] \<or> (ct_publicKey t = [] \<and> \<not> ct_site t) \<or> ct_nodeName t \<in> set seen
        then Inl (Error ''incomplete or duplicate consumer target'')
      else
        (case snapshot_target env data apiVIP apiPort t of
           Inl e \<Rightarrow> Inl e
         | Inr c \<Rightarrow>
             (case snapshot_each env data apiVIP apiPort (ct_nodeName t # seen) ts of
                Inl e \<Rightarrow> Inl e
              | Inr cs \<Rightarrow> Inr (c # cs))))"

definition SnapshotConsumers :: "'a mesh_env_scheme \<Rightarrow> kube_secret \<Rightarrow> consumer_target list \<Rightarrow> string \<Rightarrow> string \<Rightarrow> consumer list res" where
  "SnapshotConsumers env m targets apiVIP apiPort =
     (if om_uid m = [] \<or> targets = [] then Inl (Error ''mesh identity and retained consumer targets required'')
      else snapshot_each env (ks_data m) apiVIP apiPort [] targets)"

text \<open>Receipts may change while consumers apply a snapshot, nothing else may.\<close>

definition samePublicationSource :: "mesh \<Rightarrow> mesh \<Rightarrow> bool" where
  "samePublicationSource a b =
     (list_all (\<lambda>(k, v). prefix SiteAppliedPrefix k \<or> v = field b k) a \<and> list_all (\<lambda>(k, v). prefix SiteAppliedPrefix k \<or> v = field a k) b)"

fun consumer_identities :: "string list \<Rightarrow> consumer list \<Rightarrow> unit res" where
  "consumer_identities seen [] = Inr ()"
| "consumer_identities seen (c # cs) =
     (if co_nodeName c = [] \<or> co_nodeUID c = [] \<or> co_nodeName c \<in> set seen then Inl (Error ''missing or duplicate consumer identity'')
      else if \<not> co_site c \<and> (co_secretName c = [] \<or> co_secretUID c = [] \<or> co_document c = [])
        then Inl (Error ''remote consumer requires intended document and Secret identity'')
      else consumer_identities (co_nodeName c # seen) cs)"

definition CloudPeersKey :: string where "CloudPeersKey = ''peers.json''"
definition AppliedListAnnotation :: string where "AppliedListAnnotation = ''cloud-provisioning.appmana.com/applied''"

definition not_ready :: "kube_node list \<Rightarrow> string list" where
  "not_ready nodes = map om_name (filter (\<lambda>n. \<not> node_ready n) nodes)"

definition remote_applied :: "'a mesh_env_scheme \<Rightarrow> consumer \<Rightarrow> kube_secret \<Rightarrow> bool" where
  "remote_applied env c s =
     (om_uid s = co_secretUID c \<and> \<not> deleting s \<and> field (ks_data s) CloudPeersKey = co_document c \<and>
      annotation s AppliedListAnnotation = HashPeerList env (co_document c))"

fun applied_each :: "'a mesh_env_scheme \<Rightarrow> 'w cluster \<Rightarrow> string \<Rightarrow> mesh \<Rightarrow> string list \<Rightarrow> consumer list \<Rightarrow> ('w, bool) io" where
  "applied_each env c ns current unready [] = io_lift (Inr True)"
| "applied_each env c ns current unready (x # xs) =
     io_bind (api_find (r_get (k_nodes c) ([], co_nodeName x))) (\<lambda>node.
     case node of
       None \<Rightarrow> io_lift (Inr False)
     | Some n \<Rightarrow>
         if om_uid n \<noteq> co_nodeUID x \<or> deleting n then io_lift (Inr False)
         else if co_site x
           then (if SiteConverged env current (co_nodeName x) (co_nodeUID x) unready then applied_each env c ns current unready xs
                 else io_lift (Inr False))
         else
           io_bind (api_find (r_get (k_secrets c) (ns, co_secretName x))) (\<lambda>secret.
           case secret of
             None \<Rightarrow> io_lift (Inr False)
           | Some s \<Rightarrow> if remote_applied env x s then applied_each env c ns current unready xs else io_lift (Inr False)))"

definition Applied :: "'a mesh_env_scheme \<Rightarrow> 'w cluster option \<Rightarrow> kube_secret \<Rightarrow> consumer list \<Rightarrow> ('w, bool) io" where
  "Applied env reader m consumers =
     (case reader of
        None \<Rightarrow> io_lift (Inl (Error ''reader, original mesh snapshot and required consumers needed''))
      | Some c \<Rightarrow>
          io_bind (io_lift (guard (om_uid m \<noteq> [] \<and> om_namespace m \<noteq> [] \<and> consumers \<noteq> [])
                     ''reader, original mesh snapshot and required consumers needed'')) (\<lambda>_.
          io_bind (io_lift (consumer_identities [] consumers)) (\<lambda>_.
          io_bind (api_find (r_get (k_secrets c) (object_key m))) (\<lambda>current.
          case current of
            None \<Rightarrow> io_lift (Inr False)
          | Some cur \<Rightarrow>
              if om_uid cur \<noteq> om_uid m \<or> deleting cur \<or> \<not> samePublicationSource (ks_data m) (ks_data cur) then io_lift (Inr False)
              else
                io_bind (io_lift (SitePeerHash env (ks_data m))) (\<lambda>expected.
                io_bind (io_lift (SitePeerHash env (ks_data cur))) (\<lambda>actual.
                if actual \<noteq> expected then io_lift (Inr False)
                else
                  io_bind (api_io (r_list (k_nodes c) \<lparr>lo_namespace = [], lo_label = None, lo_field = None\<rparr>)) (\<lambda>nodes.
                  io_bind (applied_each env c (om_namespace m) (ks_data cur) (not_ready nodes) consumers) (\<lambda>applied.
                  if \<not> applied then io_lift (Inr False)
                  else
                    io_bind (api_find (r_get (k_secrets c) (object_key m))) (\<lambda>final.
                    case final of
                      None \<Rightarrow> io_lift (Inr False)
                    | Some f \<Rightarrow>
                        io_lift (Inr (om_uid f = om_uid cur \<and> om_resourceVersion f = om_resourceVersion cur \<and> \<not> deleting f)))))))))))"

text \<open>
  Who has to acknowledge a publication (\<open>consumer_resolver.go\<close>, \<open>consumer_membership.go\<close>, \<open>deletion_hold.go\<close>,
  \<open>withdraw_intent.go\<close>, \<open>withdraw_peer.go\<close>, \<open>peer_publication.go\<close>), and the publication of a gateway itself
  (\<open>publication.go\<close>).
\<close>

section \<open>Identities\<close>

definition DrainIntentAnnotation :: string where
  "DrainIntentAnnotation = ''cloud-provisioning.appmana.com/drain-intent''"

definition TunnelAddressAnnotation :: string where
  "TunnelAddressAnnotation = ''cloud-provisioning.appmana.com/wireguard-addr4''"

definition DeletionHookKeys :: "'a round_env_scheme \<Rightarrow> string \<Rightarrow> string \<times> string" where
  "DeletionHookKeys env lease =
     (let suffix = ''cloud-provisioning-'' @ hex_encode (take 12 (sha256 env lease)) in
      (''pre-drain.delete.hook.machine.cluster.x-k8s.io/'' @ suffix, ''pre-terminate.delete.hook.machine.cluster.x-k8s.io/'' @ suffix))"

definition HasDeletionHold :: "'a round_env_scheme \<Rightarrow> machine \<Rightarrow> bool" where
  "HasDeletionHold env m =
     (\<exists>k \<in> Mapping.keys (om_annotations m).
        let lease = annotation m k; (drain, terminate) = DeletionHookKeys env lease in
        lease \<noteq> [] \<and> k = drain \<and> annotation m terminate = lease)"

record 'w consumer_resolver =
  cr_reader :: "'w cluster option"
  cr_namespace :: string
  cr_secretName :: string
  cr_secretUID :: string

definition by_name :: "'o object_meta_scheme list \<Rightarrow> (string \<times> 'o object_meta_scheme) list" where
  "by_name objs = fold (\<lambda>x m. AList.update (om_name x) x m) objs []"

definition site_names :: "mesh \<Rightarrow> string list" where
  "site_names data = remdups (names_under NodePublicKeyPrefix data @ names_under SiteAddressesPrefix data)"

definition site_consumer :: "mesh \<Rightarrow> (string \<times> kube_node) list \<Rightarrow> string \<Rightarrow> consumer_target res" where
  "site_consumer data nodes name =
     (let key = trimmed data (NodePublicKeyPrefix @ name) in
      case map_of nodes name of
        None \<Rightarrow> Inl (Error ''site consumer lacks a current Node/key identity'')
      | Some node \<Rightarrow>
          if om_uid node = [] \<or> deleting node \<or> (key = [] \<and> field data (SiteAddressesPrefix @ name) = [])
            then Inl (Error ''site consumer lacks a current Node/key identity'')
          else
            Inr \<lparr>ct_nodeName = name, ct_nodeUID = om_uid node, ct_site = True, ct_machineName = [], ct_tunnelAddress = [], ct_publicKey = key,
                 ct_secretUID = []\<rparr>)"

definition associated_node :: "(string \<times> kube_node) list \<Rightarrow> machine \<Rightarrow> kube_node option res" where
  "associated_node nodes m =
     (case map_of nodes (node_ref m ''name'') of
        Some node \<Rightarrow> Inr (Some node)
      | None \<Rightarrow>
          if node_ref m ''name'' = [] \<and> mc_providerID m \<noteq> []
            then
              (case filter (\<lambda>n. kn_providerID n = mc_providerID m) (map snd nodes) of
                 [] \<Rightarrow> Inr None
               | [node] \<Rightarrow> Inr (Some node)
               | _ \<Rightarrow> Inl (Error ''ambiguous provider association''))
          else Inr None)"

definition replaced_participant :: "attached_machine list \<Rightarrow> machine \<Rightarrow> kube_node \<Rightarrow> bool" where
  "replaced_participant planned m node =
     list_ex (\<lambda>p. am_uid p = om_uid m \<and> (am_nodeUID p \<noteq> om_uid node \<or> am_providerID p \<noteq> mc_providerID m)) planned"

definition tunnel_identity :: "machine \<Rightarrow> string" where
  "tunnel_identity m = before CHR ''/'' (TrimSpace (annotation m TunnelAddressAnnotation))"

definition remote_consumer ::
  "'a mesh_env_scheme \<Rightarrow> 'w cluster \<Rightarrow> string \<Rightarrow> mesh \<Rightarrow> (string \<times> kube_node) list \<Rightarrow> (string \<times> machine) list \<Rightarrow> attached_machine list \<Rightarrow>
   string \<Rightarrow> ('w, consumer_target \<times> string) io" where
  "remote_consumer env c ns data nodes machines planned name =
     (let key = trimmed data (PeerPublicKeyPrefix @ name) in
      case map_of machines name of
        None \<Rightarrow> io_lift (Inl (Error ''remote consumer lacks a current Machine/key identity''))
      | Some m \<Rightarrow>
          io_bind (io_lift (guard (om_uid m \<noteq> [] \<and> \<not> (deleting m \<and> \<not> HasDeletionHold env m) \<and> key \<noteq> [])
                     ''remote consumer lacks a current Machine/key identity'')) (\<lambda>_.
          io_bind (io_lift (associated_node nodes m)) (\<lambda>associated.
          case associated of
            None \<Rightarrow> io_lift (Inl (Error ''remote consumer Node association changed''))
          | Some node \<Rightarrow>
              io_bind (io_lift (guard (om_uid node \<noteq> [] \<and> \<not> deleting node \<and> mc_providerID m \<noteq> [] \<and> kn_providerID node = mc_providerID m)
                         ''remote consumer Node association changed'')) (\<lambda>_.
              io_bind (io_lift (guard (\<not> replaced_participant planned m node) ''attachment participant replaced'')) (\<lambda>_.
              io_bind (api_io (r_get (k_secrets c) (ns, AdoptionSecretName name))) (\<lambda>adoption.
              io_bind (io_lift (guard (om_uid adoption \<noteq> [] \<and> \<not> deleting adoption) ''remote adoption identity missing'')) (\<lambda>_.
              io_bind (io_lift (guard (tunnel_identity m \<noteq> []) ''remote tunnel identity missing'')) (\<lambda>_.
              io_lift (Inr (\<lparr>ct_nodeName = om_name node, ct_nodeUID = om_uid node, ct_site = False, ct_machineName = name,
                             ct_tunnelAddress = tunnel_identity m, ct_publicKey = key, ct_secretUID = om_uid adoption\<rparr>, om_uid m))))))))))"

fun remote_consumers ::
  "'a mesh_env_scheme \<Rightarrow> 'w cluster \<Rightarrow> string \<Rightarrow> mesh \<Rightarrow> (string \<times> kube_node) list \<Rightarrow> (string \<times> machine) list \<Rightarrow> attached_machine list \<Rightarrow>
   string list \<Rightarrow> ('w, (consumer_target \<times> string) list) io" where
  "remote_consumers env c ns data nodes machines planned [] = io_lift (Inr [])"
| "remote_consumers env c ns data nodes machines planned (name # names) =
     io_bind (remote_consumer env c ns data nodes machines planned name) (\<lambda>x.
     io_bind (remote_consumers env c ns data nodes machines planned names) (\<lambda>xs.
     io_lift (Inr (x # xs))))"

definition everything :: "string \<Rightarrow> list_options" where
  "everything ns = \<lparr>lo_namespace = ns, lo_label = None, lo_field = None\<rparr>"

definition targetLess :: "consumer_target \<Rightarrow> consumer_target \<Rightarrow> bool" where
  "targetLess a b = (ct_nodeName a < ct_nodeName b)"

definition resolveTargets ::
  "'a mesh_env_scheme \<Rightarrow> 'w cluster \<Rightarrow> string \<Rightarrow> mesh \<Rightarrow> attached_machine list \<Rightarrow>
   ('w, consumer_target list \<times> (string \<times> string) list) io" where
  "resolveTargets env c ns data planned =
     io_bind (api_io (r_list (k_nodes c) (everything []))) (\<lambda>nodes.
     io_bind (api_io (r_list (k_machines c) (everything ns))) (\<lambda>machines.
     io_bind (io_lift (res_fold (\<lambda>ts name. case site_consumer data (by_name nodes) name of Inl e \<Rightarrow> Inl e | Inr t \<Rightarrow> Inr (ts @ [t]))
                [] (site_names data))) (\<lambda>sites.
     io_bind (remote_consumers env c ns data (by_name nodes) (by_name machines) planned (names_under PeerPublicKeyPrefix data)) (\<lambda>remotes.
     io_lift (Inr (sort_by targetLess (sites @ map fst remotes),
                   fold (\<lambda>(t, uid) m. AList.update uid (ct_publicKey t) m) remotes []))))))"

definition key_of :: "(string \<times> string) list \<Rightarrow> string \<Rightarrow> string" where
  "key_of keys uid = (case map_of keys uid of None \<Rightarrow> [] | Some k \<Rightarrow> k)"

definition Resolve :: "'a mesh_env_scheme \<Rightarrow> 'w consumer_resolver \<Rightarrow> attachment \<Rightarrow> ('w, publication_intent) io" where
  "Resolve env r record =
     (case cr_reader r of
        None \<Rightarrow> io_lift (Inl (Error ''consumer resolver scope and attachment required''))
      | Some c \<Rightarrow>
          io_bind (io_lift (guard (cr_namespace r \<noteq> [] \<and> cr_secretName r \<noteq> [] \<and> cr_secretUID r \<noteq> [] \<and> at_id record \<noteq> [] \<and>
                     at_lease record \<noteq> [] \<and> at_digest record \<noteq> []) ''consumer resolver scope and attachment required'')) (\<lambda>_.
          io_bind (api_io (r_get (k_secrets c) (cr_namespace r, cr_secretName r))) (\<lambda>m.
          io_bind (io_lift (guard (om_uid m = cr_secretUID r \<and> \<not> deleting m) ''consumer mesh identity changed'')) (\<lambda>_.
          io_bind (resolveTargets env c (cr_namespace r) (ks_data m) [gl_worker (at_plan record), gl_gateway (at_plan record)]) (\<lambda>(consumers, keys).
          let worker = key_of keys (am_uid (gl_worker (at_plan record))); gateway = key_of keys (am_uid (gl_gateway (at_plan record))) in
          io_bind (io_lift (guard (worker \<noteq> [] \<and> gateway \<noteq> [] \<and> worker \<noteq> gateway \<and> consumers \<noteq> [])
                     ''attachment participants not uniquely published'')) (\<lambda>_.
          io_lift (Inr \<lparr>pi_lease = LeaseID record,
            pi_projection = \<lparr>gp_lease = LeaseID record, gp_workerKey = worker, gp_gatewayKey = gateway,
              gp_workerAddress = am_address (gl_worker (at_plan record)), gp_workerHost = gl_workerHost (at_plan record),
              gp_directHosts = gl_directHosts (at_plan record), gp_retiringWorker = False\<rparr>,
            pi_consumers = consumers, pi_retired = False, pi_version = [], pi_deleting = False\<rparr>)))))))"

definition same_revision_as :: "'a object_meta_scheme \<Rightarrow> 'a object_meta_scheme \<Rightarrow> bool" where
  "same_revision_as a b = (om_uid a = om_uid b \<and> om_resourceVersion a = om_resourceVersion b)"

definition PublishedConsumers :: "'a mesh_env_scheme \<Rightarrow> 'w consumer_resolver \<Rightarrow> kube_secret \<Rightarrow> ('w, consumer_target list) io" where
  "PublishedConsumers env r m =
     (case cr_reader r of
        None \<Rightarrow> io_lift (Inl (Error ''current mesh snapshot and resolver scope required''))
      | Some c \<Rightarrow>
          io_bind (io_lift (guard (cr_namespace r \<noteq> [] \<and> cr_secretName r \<noteq> [] \<and> cr_secretUID r \<noteq> [] \<and> om_namespace m = cr_namespace r \<and>
                     om_name m = cr_secretName r \<and> om_uid m = cr_secretUID r \<and> om_resourceVersion m \<noteq> [] \<and> \<not> deleting m)
                     ''current mesh snapshot and resolver scope required'')) (\<lambda>_.
          io_bind (resolveTargets env c (cr_namespace r) (ks_data m) []) (\<lambda>(targets, keys).
          io_bind (api_io (r_get (k_secrets c) (object_key m))) (\<lambda>final.
          io_bind (io_lift (guard (same_revision_as final m \<and> \<not> deleting final) ''mesh changed during consumer resolution'')) (\<lambda>_.
          io_lift (Inr targets))))))"

section \<open>Membership\<close>

definition still_published :: "mesh \<Rightarrow> string \<Rightarrow> bool" where
  "still_published data key =
     list_ex (\<lambda>(k, v). (prefix PeerPublicKeyPrefix k \<or> prefix NodePublicKeyPrefix k) \<and> TrimSpace v = key) data"

definition retiredRemote :: "'w cluster \<Rightarrow> string \<Rightarrow> kube_secret \<Rightarrow> consumer_target \<Rightarrow> ('w, unit) io" where
  "retiredRemote c ns m old =
     io_bind (io_lift (guard (\<not> ct_site old \<and> ct_nodeName old \<noteq> [] \<and> ct_nodeUID old \<noteq> [] \<and> ct_machineName old \<noteq> [] \<and> ct_secretUID old \<noteq> [] \<and>
                ct_publicKey old \<noteq> []) ''consumer has no provable remote retirement'')) (\<lambda>_.
     io_bind (io_lift (guard (\<not> still_published (ks_data m) (ct_publicKey old)) ''consumer key is still published'')) (\<lambda>_.
     io_bind (api_find (r_get (k_nodes c) ([], ct_nodeName old))) (\<lambda>node.
     io_bind (io_lift (guard (case node of None \<Rightarrow> True | Some n \<Rightarrow> om_uid n \<noteq> ct_nodeUID old) ''consumer Node identity still exists'')) (\<lambda>_.
     io_bind (api_find (r_get (k_secrets c) (ns, AdoptionSecretName (ct_machineName old)))) (\<lambda>secret.
     io_lift (guard (case secret of None \<Rightarrow> True | Some s \<Rightarrow> om_uid s \<noteq> ct_secretUID old) ''consumer adoption identity still exists''))))))"

fun retired_each :: "'w cluster \<Rightarrow> string \<Rightarrow> kube_secret \<Rightarrow> consumer_target list \<Rightarrow> consumer_target list \<Rightarrow> ('w, unit) io" where
  "retired_each c ns m current [] = io_lift (Inr ())"
| "retired_each c ns m current (old # olds) =
     (if old \<in> set current then retired_each c ns m current olds
      else io_bind (retiredRemote c ns m old) (\<lambda>_. retired_each c ns m current olds))"

definition Refresh :: "'a mesh_env_scheme \<Rightarrow> 'w consumer_resolver \<Rightarrow> attachment \<Rightarrow> kube_secret \<Rightarrow> consumer_target list \<Rightarrow> ('w, consumer_target list) io" where
  "Refresh env r record m retained =
     io_bind (io_lift (guard (om_uid m = cr_secretUID r \<and> om_namespace m = cr_namespace r) ''membership mesh identity changed'')) (\<lambda>_.
     io_bind (Resolve env r record) (\<lambda>current.
     case cr_reader r of
       None \<Rightarrow> io_lift (Inl (Error ''nil reader''))
     | Some c \<Rightarrow>
         io_bind (retired_each c (cr_namespace r) m (pi_consumers current) retained) (\<lambda>_.
         io_bind (api_io (r_get (k_secrets c) (object_key m))) (\<lambda>latest.
         io_bind (io_lift (guard (om_uid latest = om_uid m \<and> \<not> deleting latest \<and> samePublicationSource (ks_data m) (ks_data latest))
                    ''mesh changed during membership observation'')) (\<lambda>_.
         io_lift (Inr (pi_consumers current)))))))"

section \<open>Publication and withdrawal\<close>

record 'w intent_store =
  is_load :: "string \<Rightarrow> ('w, publication_intent option) io"
  is_save :: "publication_intent option \<Rightarrow> publication_intent \<Rightarrow> ('w, unit) io"

definition config_intent_store :: "'a attach_env_scheme \<Rightarrow> 'w cluster option \<Rightarrow> string \<Rightarrow> 'w intent_store" where
  "config_intent_store env client ns = \<lparr>is_load = intent_Load env client ns, is_save = intent_Save env client ns\<rparr>"

record 'w transport =
  tr_ensure :: "attachment \<Rightarrow> ('w, bool) io"
  tr_restore :: "attachment \<Rightarrow> ('w, bool) io"

text \<open>A resolver may also be a \<open>PublicationMembership\<close>.\<close>

record 'w intent_resolver =
  ir_resolve :: "attachment \<Rightarrow> ('w, publication_intent option) io"
  ir_refresh :: "(attachment \<Rightarrow> kube_secret \<Rightarrow> consumer_target list \<Rightarrow> ('w, consumer_target list) io) option"

record 'w gateway_publication =
  gw_store :: "'w intent_store option"
  gw_resolver :: "'w intent_resolver option"
  gw_projections :: "'w projection_store"
  gw_reader :: "'w cluster option"
  gw_transport :: "'w transport option"
  gw_apiVIP :: string
  gw_apiPort :: string

definition add_targets :: "consumer_target list \<Rightarrow> consumer_target list \<Rightarrow> consumer_target list" where
  "add_targets retained targets = fold (\<lambda>t ts. if t \<in> set ts then ts else ts @ [t]) targets retained"

text \<open>The recipients to wait for; a new one is stored before its acknowledgement counts.\<close>

definition recipients ::
  "'w intent_store \<Rightarrow> 'w intent_resolver option \<Rightarrow> attachment \<Rightarrow> kube_secret \<Rightarrow> publication_intent \<Rightarrow>
   ('w, consumer_target list \<times> publication_intent) io" where
  "recipients store resolver record m intent =
     (case (case resolver of None \<Rightarrow> None | Some r \<Rightarrow> ir_refresh r) of
        None \<Rightarrow> io_lift (Inr (pi_consumers intent, intent))
      | Some refresh \<Rightarrow>
          io_bind (refresh record m (pi_consumers intent)) (\<lambda>targets.
          let nxt = intent\<lparr>pi_consumers := add_targets (pi_consumers intent) targets\<rparr> in
          if length (pi_consumers nxt) = length (pi_consumers intent) then io_lift (Inr (targets, intent))
          else
            io_bind (is_save store (Some intent) nxt) (\<lambda>_.
            io_bind (is_load store (LeaseID record)) (\<lambda>reloaded.
            case reloaded of
              None \<Rightarrow> io_lift (Inl (Error ''recipient history is absent or retiring''))
            | Some i \<Rightarrow>
                io_bind (io_lift (guard (\<not> pi_retired i \<and> \<not> pi_deleting i) ''recipient history is absent or retiring'')) (\<lambda>_.
                io_lift (Inr (targets, i)))))))"

definition acknowledged_by ::
  "'a attach_env_scheme \<Rightarrow> 'w gateway_publication \<Rightarrow> kube_secret \<Rightarrow> consumer_target list \<Rightarrow> ('w, bool) io" where
  "acknowledged_by env p m targets =
     io_bind (io_lift (SnapshotConsumers env m targets (gw_apiVIP p) (gw_apiPort p))) (\<lambda>consumers.
     Applied env (gw_reader p) m consumers)"

text \<open>The intent of a lease, resolved and stored when there is none.\<close>

definition publish_intent :: "'w intent_store \<Rightarrow> 'w intent_resolver \<Rightarrow> attachment \<Rightarrow> ('w, publication_intent option) io" where
  "publish_intent store resolver r =
     io_bind (is_load store (LeaseID r)) (\<lambda>loaded.
     case loaded of
       Some i \<Rightarrow> io_lift (Inr (Some i))
     | None \<Rightarrow>
         io_bind (ir_resolve resolver r) (\<lambda>resolved.
         case resolved of
           None \<Rightarrow> io_lift (Inl (Error ''incomplete publication intent''))
         | Some i \<Rightarrow>
             io_bind (io_lift (guard (pi_lease i = LeaseID r \<and> gp_lease (pi_projection i) = pi_lease i \<and> pi_consumers i \<noteq> [] \<and> \<not> pi_retired i)
                        ''incomplete publication intent'')) (\<lambda>_.
             io_bind (is_save store None i) (\<lambda>_.
             is_load store (LeaseID r)))))"

definition Publish :: "'a attach_env_scheme \<Rightarrow> 'w gateway_publication \<Rightarrow> attachment \<Rightarrow> ('w, bool) io" where
  "Publish env p r =
     (case (gw_store p, gw_resolver p, gw_transport p) of
        (Some store, Some resolver, Some transport) \<Rightarrow>
          io_bind (publish_intent store resolver r) (\<lambda>loaded.
          case loaded of
            None \<Rightarrow> io_lift (Inl (Error ''publication intent missing or retiring''))
          | Some intent \<Rightarrow>
              io_bind (io_lift (guard (\<not> pi_deleting intent \<and> \<not> pi_retired intent \<and> pi_lease intent = LeaseID r)
                         ''publication intent missing or retiring'')) (\<lambda>_.
              io_bind (Set_projection env (gw_projections p) (pi_lease intent) (Some (pi_projection intent))) (\<lambda>m.
              io_bind (recipients store (Some resolver) r m intent) (\<lambda>(targets, intent').
              io_bind (acknowledged_by env p m targets) (\<lambda>applied.
              if \<not> applied then io_lift (Inr False) else tr_ensure transport r)))))
      | _ \<Rightarrow> io_lift (Inl (Error ''publication store, resolver and CNI transport required'')))"

text \<open>The worker falls back first: \<open>None\<close> when it has not acknowledged yet.\<close>

definition retire_worker ::
  "'a attach_env_scheme \<Rightarrow> 'w gateway_publication \<Rightarrow> 'w intent_store \<Rightarrow> attachment \<Rightarrow> publication_intent \<Rightarrow> ('w, publication_intent option) io" where
  "retire_worker env p store r intent =
     io_bind (RetireWorker env (gw_projections p) (pi_lease intent)) (\<lambda>(m, staged).
     if \<not> staged then io_lift (Inr (Some intent))
     else
       io_bind (recipients store (gw_resolver p) r m intent) (\<lambda>(targets, intent').
       let worker = filter (\<lambda>t. \<not> ct_site t \<and> ct_publicKey t = gp_workerKey (pi_projection intent')) targets in
       io_bind (io_lift (guard (length worker = 1) ''withdrawal requires the exact retiring worker recipient'')) (\<lambda>_.
       io_bind (acknowledged_by env p m worker) (\<lambda>applied.
       io_lift (Inr (if applied then Some intent' else None))))))"

text \<open>Everybody acknowledges the mesh without the lease, and the intent is retired.\<close>

definition finish_withdrawal ::
  "'a attach_env_scheme \<Rightarrow> 'w gateway_publication \<Rightarrow> 'w intent_store \<Rightarrow> attachment \<Rightarrow> publication_intent \<Rightarrow> kube_secret \<Rightarrow> ('w, bool) io" where
  "finish_withdrawal env p store r intent m =
     io_bind (recipients store (gw_resolver p) r m intent) (\<lambda>(targets, intent').
     io_bind (acknowledged_by env p m targets) (\<lambda>applied.
     if \<not> applied then io_lift (Inr False)
     else
       io_bind (is_save store (Some intent') (intent'\<lparr>pi_retired := True\<rparr>)) (\<lambda>_.
       io_lift (Inr True))))"

definition Withdraw :: "'a attach_env_scheme \<Rightarrow> 'w gateway_publication \<Rightarrow> attachment \<Rightarrow> ('w, bool) io" where
  "Withdraw env p r =
     (case (gw_store p, gw_transport p) of
        (Some store, Some transport) \<Rightarrow>
          io_bind (is_load store (LeaseID r)) (\<lambda>loaded.
          case loaded of
            None \<Rightarrow> io_lift (Inr True)
          | Some intent0 \<Rightarrow>
              if pi_retired intent0 then io_lift (Inr True)
              else
                io_bind (io_lift (guard (pi_lease intent0 = LeaseID r) ''publication identity mismatch'')) (\<lambda>_.
                io_bind (retire_worker env p store r intent0) (\<lambda>fallen.
                case fallen of
                  None \<Rightarrow> io_lift (Inr False)
                | Some intent \<Rightarrow>
                    io_bind (tr_restore transport r) (\<lambda>restored.
                    if \<not> restored then io_lift (Inr False)
                    else
                      io_bind (Set_projection env (gw_projections p) (pi_lease intent) None) (finish_withdrawal env p store r intent)))))
      | _ \<Rightarrow> io_lift (Inl (Error ''publication store and CNI transport required'')))"

end
