(* ===== verification/Publication_Order.thy ===== *)
theory Publication_Order
  imports Publication
begin

text \<open>
  What publishing and withdrawing an attachment call, for every client, resolver and transport: what has been read and
  acknowledged before a projection is written, the transport is changed or an intent is retired.
\<close>

section \<open>Calls of a publication\<close>

datatype publication_event =
    Calls cluster_event | Intent_loaded "publication_intent option" | Intent_saves "publication_intent option" publication_intent
  | Resolves "publication_intent option" | Refreshes "consumer_target list" | Ensures_transport attachment "bool res"
  | Restores_transport attachment "bool res"

definition log_intents :: "'w intent_store \<Rightarrow> ('w \<times> publication_event list) intent_store" where
  "log_intents s =
     \<lparr>is_load = (\<lambda>k. logged (on_success Intent_loaded) (is_load s k)), is_save = (\<lambda>p n. logged (\<lambda>_. [Intent_saves p n]) (is_save s p n))\<rparr>"

definition log_resolver :: "'w intent_resolver \<Rightarrow> ('w \<times> publication_event list) intent_resolver" where
  "log_resolver s =
     \<lparr>ir_resolve = (\<lambda>r. logged (on_success Resolves) (ir_resolve s r)),
      ir_refresh = map_option (\<lambda>f r m ts. logged (on_success Refreshes) (f r m ts)) (ir_refresh s)\<rparr>"

definition log_transport :: "'w transport \<Rightarrow> ('w \<times> publication_event list) transport" where
  "log_transport t =
     \<lparr>tr_ensure = (\<lambda>r. logged (\<lambda>x. [Ensures_transport r x]) (tr_ensure t r)), tr_restore = (\<lambda>r. logged (\<lambda>x. [Restores_transport r x]) (tr_restore t r))\<rparr>"

definition log_projections :: "'w projection_store \<Rightarrow> ('w \<times> publication_event list) projection_store" where
  "log_projections s =
     \<lparr>pr_client = map_option (log_cluster Calls) (pr_client s), pr_namespace = pr_namespace s, pr_name = pr_name s, pr_secretUID = pr_secretUID s\<rparr>"

definition log_gateway :: "'w gateway_publication \<Rightarrow> ('w \<times> publication_event list) gateway_publication" where
  "log_gateway p =
     \<lparr>gw_store = map_option log_intents (gw_store p), gw_resolver = map_option log_resolver (gw_resolver p),
      gw_projections = log_projections (gw_projections p), gw_reader = map_option (log_cluster Calls) (gw_reader p),
      gw_transport = map_option log_transport (gw_transport p), gw_apiVIP = gw_apiVIP p, gw_apiPort = gw_apiPort p\<rparr>"

lemma log_gateway_simps:
  "gw_store (log_gateway p) = map_option log_intents (gw_store p)"
  "gw_resolver (log_gateway p) = map_option log_resolver (gw_resolver p)"
  "gw_projections (log_gateway p) = log_projections (gw_projections p)"
  "gw_reader (log_gateway p) = map_option (log_cluster Calls) (gw_reader p)"
  "gw_transport (log_gateway p) = map_option log_transport (gw_transport p)"
  "gw_apiVIP (log_gateway p) = gw_apiVIP p" "gw_apiPort (log_gateway p) = gw_apiPort p"
  by (simp_all add: log_gateway_def)

lemma log_parts_simps [simp]:
  "is_load (log_intents s) k = logged (on_success Intent_loaded) (is_load s k)"
  "is_save (log_intents s) p n = logged (\<lambda>_. [Intent_saves p n]) (is_save s p n)"
  "ir_resolve (log_resolver v) r = logged (on_success Resolves) (ir_resolve v r)"
  "ir_refresh (log_resolver v) = map_option (\<lambda>f r m ts. logged (on_success Refreshes) (f r m ts)) (ir_refresh v)"
  "tr_ensure (log_transport t) r = logged (\<lambda>x. [Ensures_transport r x]) (tr_ensure t r)"
  "tr_restore (log_transport t) r = logged (\<lambda>x. [Restores_transport r x]) (tr_restore t r)"
  "pr_client (log_projections j) = map_option (log_cluster Calls) (pr_client j)"
  "pr_namespace (log_projections j) = pr_namespace j" "pr_name (log_projections j) = pr_name j" "pr_secretUID (log_projections j) = pr_secretUID j"
  by (simp_all add: log_intents_def log_resolver_def log_transport_def log_projections_def)

text \<open>
  What the calls so far show: an object the server returned, and that a recipient applied a snapshot of the mesh.
  A site node acknowledges in the Secret itself, a cloud worker in its own Secret.
\<close>

definition acknowledged :: "(cluster_event \<Rightarrow> 'e) \<Rightarrow> 'a mesh_env_scheme \<Rightarrow> 'e list \<Rightarrow> kube_secret \<Rightarrow> consumer \<Rightarrow> bool" where
  "acknowledged tag env l m x =
     (\<exists>cur n. tag (On_secret (Got cur)) \<in> set l \<and> om_uid cur = om_uid m \<and> samePublicationSource (ks_data m) (ks_data cur) \<and>
        tag (On_node (Got n)) \<in> set l \<and> om_uid n = co_nodeUID x \<and> \<not> deleting n \<and>
        (if co_site x then \<exists>unready. SiteConverged env (ks_data cur) (co_nodeName x) (co_nodeUID x) unready
         else \<exists>s. tag (On_secret (Got s)) \<in> set l \<and> remote_applied env x s))"

definition all_acknowledged ::
  "'a mesh_env_scheme \<Rightarrow> string \<Rightarrow> string \<Rightarrow> publication_event list \<Rightarrow> kube_secret \<Rightarrow> consumer_target list \<Rightarrow> bool" where
  "all_acknowledged env vip port l m ts =
     (\<exists>cs. SnapshotConsumers env m ts vip port = Inr cs \<and> cs \<noteq> [] \<and> (\<forall>x \<in> set cs. acknowledged Calls env l m x))"

lemma acknowledged_mono: "acknowledged tag env l m x \<Longrightarrow> set l \<subseteq> set l' \<Longrightarrow> acknowledged tag env l' m x"
  unfolding acknowledged_def by (meson subset_iff)

lemma all_acknowledged_mono: "all_acknowledged env vip port l m ts \<Longrightarrow> set l \<subseteq> set l' \<Longrightarrow> all_acknowledged env vip port l' m ts"
  unfolding all_acknowledged_def using acknowledged_mono by blast

fun reads :: "'o verb \<Rightarrow> bool" where
  "reads (Got _) = True" | "reads (Missing _) = True" | "reads (Lists _ _) = True" | "reads _ = False"

definition reads_allowed :: "(cluster_event \<Rightarrow> 'e) \<Rightarrow> ('e list \<Rightarrow> 'e \<Rightarrow> bool) \<Rightarrow> bool" where
  "reads_allowed tag ok =
     (\<forall>l. (\<forall>v. reads v \<longrightarrow> ok l (tag (On_secret v))) \<and> (\<forall>v. reads v \<longrightarrow> ok l (tag (On_node v))))"

lemma reads_allowedD:
  assumes "reads_allowed tag ok"
  shows "ok l (tag (On_secret (Got s)))" "ok l (tag (On_node (Got n)))" "ok l (tag (On_node (Lists opts ns)))"
    "ok l (tag (On_secret (Missing k)))" "ok l (tag (On_node (Missing k)))"
  using assms unfolding reads_allowed_def by auto

lemma applied_each_calls:
  assumes ok: "reads_allowed tag ok" and cur: "tag (On_secret (Got cur)) \<in> set l" "om_uid cur = om_uid m" "samePublicationSource (ks_data m) (ks_data cur)"
  shows "io_calls ok l (applied_each env (log_cluster tag c) ns (ks_data cur) unready xs)
    (\<lambda>b l'. set l \<subseteq> set l' \<and> (b \<longrightarrow> (\<forall>x \<in> set xs. acknowledged tag env l' m x)))"
  using cur(1)
proof (induction xs arbitrary: l)
  case (Cons x xs)
  have ack: "acknowledged tag env l' m x"
    if "tag (On_node (Got n)) \<in> set l'" "tag (On_secret (Got cur)) \<in> set l'" "om_uid n = co_nodeUID x" "\<not> deleting n"
      "if co_site x then SiteConverged env (ks_data cur) (co_nodeName x) (co_nodeUID x) unready
       else \<exists>s. tag (On_secret (Got s)) \<in> set l' \<and> remote_applied env x s" for l' n
    unfolding acknowledged_def using that cur(2,3) by (cases "co_site x") auto
  have rest: "io_calls ok l' (applied_each env (log_cluster tag c) ns (ks_data cur) unready xs)
      (\<lambda>b l''. set l \<subseteq> set l'' \<and> (b \<longrightarrow> acknowledged tag env l'' m x \<and> (\<forall>y \<in> set xs. acknowledged tag env l'' m y)))"
    if "set l \<subseteq> set l'" "acknowledged tag env l' m x" for l'
    by (rule io_calls_conseq [OF Cons.IH]) (use that Cons.prems acknowledged_mono in auto)
  show ?case
    unfolding applied_each.simps log_cluster_simps
    by (intro trace_intro) (auto simp: reads_allowedD [OF ok] intro!: rest ack Cons.prems)
qed (auto intro: trace_intro)

lemma Applied_calls:
  assumes ok: "reads_allowed tag ok"
  shows "io_calls ok l (Applied env (map_option (log_cluster tag) c) m xs)
    (\<lambda>b l'. set l \<subseteq> set l' \<and> (b \<longrightarrow> (\<forall>x \<in> set xs. acknowledged tag env l' m x)))"
proof (cases c)
  case None
  then show ?thesis by (auto simp: Applied_def intro: trace_intro)
next
  case (Some cl)
  let ?Q = "\<lambda>b l''. set l \<subseteq> set l'' \<and> (b \<longrightarrow> (\<forall>x \<in> set xs. acknowledged tag env l'' m x))"
  have body: "io_calls ok l' (applied_each env (log_cluster tag cl) (om_namespace m) (ks_data cur) unready xs) (\<lambda>applied l''.
        io_calls ok l'' (if \<not> applied then io_lift (Inr False)
        else io_bind (api_find (r_get (log_resource (tag \<circ> On_secret) (k_secrets cl)) (object_key m))) (\<lambda>final.
          case final of None \<Rightarrow> io_lift (Inr False)
          | Some f \<Rightarrow> io_lift (Inr (om_uid f = om_uid cur \<and> om_resourceVersion f = om_resourceVersion cur \<and> \<not> deleting f)))) ?Q)"
    if "set l \<subseteq> set l'" "tag (On_secret (Got cur)) \<in> set l'" "om_uid cur = om_uid m" "samePublicationSource (ks_data m) (ks_data cur)"
    for l' cur unready
    by (rule io_calls_conseq [OF applied_each_calls [OF ok that(2-4)]], intro trace_intro)
       (use that in \<open>auto simp: reads_allowedD [OF ok] elim!: acknowledged_mono\<close>)
  show ?thesis
    unfolding Some option.map Applied_def option.case log_cluster_simps
    by (intro trace_intro) (auto simp: reads_allowedD [OF ok] intro!: body)
qed

lemma acknowledged_by_calls:
  assumes ok: "reads_allowed Calls ok"
  shows "io_calls ok l (acknowledged_by env (log_gateway p) m ts)
    (\<lambda>b l'. set l \<subseteq> set l' \<and> (b \<longrightarrow> all_acknowledged env (gw_apiVIP p) (gw_apiPort p) l' m ts))"
  unfolding acknowledged_by_def log_gateway_simps
proof (intro trace_intro)
  fix cs
  assume "SnapshotConsumers env m ts (gw_apiVIP p) (gw_apiPort p) = Inr cs"
  moreover from this have "cs \<noteq> []" by (cases ts) (auto simp: SnapshotConsumers_def split: if_splits sum.splits)
  ultimately show "io_calls ok l (Applied env (map_option (log_cluster Calls) (gw_reader p)) m cs)
    (\<lambda>b l'. set l \<subseteq> set l' \<and> (b \<longrightarrow> all_acknowledged env (gw_apiVIP p) (gw_apiPort p) l' m ts))"
    by (intro io_calls_conseq [OF Applied_calls [OF ok]]) (auto simp: all_acknowledged_def)
qed

lemma io_calls_prefix: "io_calls ok l p Q \<Longrightarrow> io_calls ok l p (\<lambda>x l'. prefix l l' \<and> Q x l')"
  unfolding io_calls_def calls_def by fastforce

section \<open>The order of publication and withdrawal\<close>

text \<open>The server's answer to an update, and a mesh from which the lease is gone.\<close>

definition answers :: "publication_event list \<Rightarrow> kube_secret \<Rightarrow> kube_secret \<Rightarrow> bool" where
  "answers l sent m = (\<exists>xs ys. l = xs @ [Calls (On_secret (Updates sent)), Calls (On_secret (Got m))] @ ys)"

text \<open>\<open>m\<close> is a mesh that carries the change \<open>want\<close> of the lease's projection: it was read like that, or it is the answer to writing it.\<close>

definition carries :: "'a attach_env_scheme \<Rightarrow> string \<Rightarrow> gateway_projection option \<Rightarrow> publication_event list \<Rightarrow> kube_secret \<Rightarrow> bool" where
  "carries env lease want l m =
     (Calls (On_secret (Got m)) \<in> set l \<and>
      (setProjection env (ks_data m) lease want = Inr None \<or>
       (\<exists>m0 d. setProjection env (ks_data m0) lease want = Inr (Some d) \<and> answers l (m0\<lparr>ks_data := d\<rparr>) m)))"

definition unprojected :: "'a attach_env_scheme \<Rightarrow> string \<Rightarrow> publication_event list \<Rightarrow> bool" where
  "unprojected env lease l =
     (\<exists>m ps. Calls (On_secret (Got m)) \<in> set l \<and> stored_projections env (ks_data m) = Inr ps \<and> (\<forall>q \<in> set ps. gp_lease q \<noteq> lease))"

text \<open>The recipients of a stored intent: those it lists, or those the resolver found.\<close>

definition current_recipients :: "publication_event list \<Rightarrow> publication_intent \<Rightarrow> consumer_target list \<Rightarrow> bool" where
  "current_recipients l i ts = (Intent_loaded (Some i) \<in> set l \<and> (ts = pi_consumers i \<or> Refreshes ts \<in> set l))"

definition may_project :: "'a attach_env_scheme \<Rightarrow> attachment \<Rightarrow> publication_event list \<Rightarrow> kube_secret \<Rightarrow> bool" where
  "may_project env r l m' =
     (\<exists>m d want. Calls (On_secret (Got m)) \<in> set l \<and> m' = m\<lparr>ks_data := d\<rparr> \<and> setProjection env (ks_data m) (LeaseID r) want = Inr (Some d) \<and>
        (want = None \<longrightarrow> Restores_transport r (Inr True) \<in> set l))"

definition may_restore :: "'a attach_env_scheme \<Rightarrow> string \<Rightarrow> string \<Rightarrow> attachment \<Rightarrow> publication_event list \<Rightarrow> bool" where
  "may_restore env vip port r l =
     (unprojected env (LeaseID r) l \<or>
      (\<exists>m i ts t q. current_recipients l i ts \<and> t \<in> set ts \<and> \<not> ct_site t \<and> ct_publicKey t = gp_workerKey (pi_projection i) \<and>
         gp_retiringWorker q \<and> carries env (LeaseID r) (Some q) l m \<and> all_acknowledged env vip port l m [t]))"

definition may_retire :: "'a attach_env_scheme \<Rightarrow> string \<Rightarrow> string \<Rightarrow> attachment \<Rightarrow> publication_event list \<Rightarrow> publication_intent \<Rightarrow> bool" where
  "may_retire env vip port r l i =
     (Restores_transport r (Inr True) \<in> set l \<and>
      (\<exists>m ts. current_recipients l i ts \<and> carries env (LeaseID r) None l m \<and> all_acknowledged env vip port l m ts))"

definition may_ensure :: "'a attach_env_scheme \<Rightarrow> string \<Rightarrow> string \<Rightarrow> attachment \<Rightarrow> publication_event list \<Rightarrow> bool" where
  "may_ensure env vip port r l =
     (\<exists>m i i' ts. Intent_loaded (Some i) \<in> set l \<and> carries env (LeaseID r) (Some (pi_projection i)) l m \<and> current_recipients l i' ts \<and>
        all_acknowledged env vip port l m ts)"

fun may_publish :: "'a attach_env_scheme \<Rightarrow> string \<Rightarrow> string \<Rightarrow> attachment \<Rightarrow> publication_event list \<Rightarrow> publication_event \<Rightarrow> bool" where
  "may_publish env vip port r l (Calls e) =
     (case e of
        On_secret v \<Rightarrow> (case v of Updates m \<Rightarrow> may_project env r l m | _ \<Rightarrow> reads v)
      | On_node v \<Rightarrow> reads v
      | _ \<Rightarrow> False)"
| "may_publish env vip port r l (Intent_loaded _) = True"
| "may_publish env vip port r l (Resolves _) = True"
| "may_publish env vip port r l (Refreshes _) = True"
| "may_publish env vip port r l (Intent_saves None i) = (Resolves (Some i) \<in> set l \<and> pi_lease i = LeaseID r \<and> \<not> pi_retired i)"
| "may_publish env vip port r l (Intent_saves (Some i) n) =
     (Intent_loaded (Some i) \<in> set l \<and>
      ((\<exists>ts. Refreshes ts \<in> set l \<and> n = i\<lparr>pi_consumers := add_targets (pi_consumers i) ts\<rparr>) \<or>
       n = i\<lparr>pi_retired := True\<rparr> \<and> may_retire env vip port r l i))"
| "may_publish env vip port r l (Restores_transport r' _) = (r' = r \<and> may_restore env vip port r l)"
| "may_publish env vip port r l (Ensures_transport r' _) = (r' = r \<and> may_ensure env vip port r l)"

declare may_publish.simps(6) [simp del]

lemma may_extend:
  "Intent_loaded (Some i) \<in> set l \<Longrightarrow> Refreshes ts \<in> set l \<Longrightarrow>
   may_publish env vip port r l (Intent_saves (Some i) (i\<lparr>pi_consumers := add_targets (pi_consumers i) ts\<rparr>))"
  unfolding may_publish.simps(6) by blast

lemma may_publish_reads: "reads_allowed Calls (may_publish env vip port r)"
proof -
  have "(case v of Updates m \<Rightarrow> may_project env r l m | _ \<Rightarrow> reads v)" if "reads v" for v l using that by (cases v) auto
  then show ?thesis by (simp add: reads_allowed_def)
qed

lemma carries_mono: "carries env lease want l m \<Longrightarrow> prefix l l' \<Longrightarrow> carries env lease want l' m"
  unfolding carries_def answers_def prefix_def by fastforce

lemma unprojected_mono: "unprojected env lease l \<Longrightarrow> prefix l l' \<Longrightarrow> unprojected env lease l'"
  unfolding unprojected_def using set_mono_prefix by blast

lemma recipients_mono: "current_recipients l i ts \<Longrightarrow> prefix l l' \<Longrightarrow> current_recipients l' i ts"
  unfolding current_recipients_def using set_mono_prefix by blast

lemma all_acknowledged_prefix: "all_acknowledged env vip port l m ts \<Longrightarrow> prefix l l' \<Longrightarrow> all_acknowledged env vip port l' m ts"
  using all_acknowledged_mono set_mono_prefix by blast

lemmas publication_mono = carries_mono unprojected_mono recipients_mono all_acknowledged_prefix

lemma io_calls_logged:
  assumes "\<And>x. permits ok l (ev x)" "\<And>x. Q x (l @ ev (Inr x))"
  shows "io_calls ok l (logged ev f) Q"
  unfolding io_calls_def by (rule calls_logged) (use assms in auto)

lemma projection_mesh_calls:
  assumes "\<And>c m. Q (log_cluster Calls c, m) (l @ [Calls (On_secret (Got m))])"
  shows "io_calls (may_publish env vip port r) l (projection_mesh (log_projections s) lease) Q"
  unfolding projection_mesh_def log_parts_simps
  by (cases "pr_client s") (auto intro!: trace_intro simp: assms)

lemma write_projection_calls:
  assumes "Calls (On_secret (Got m)) \<in> set l" "setProjection env (ks_data m) (LeaseID r) want = Inr change"
    and "want = None \<longrightarrow> Restores_transport r (Inr True) \<in> set l"
  shows "io_calls (may_publish env vip port r) l (write_projection (log_cluster Calls c) m change)
    (\<lambda>m' l'. prefix l l' \<and> carries env (LeaseID r) want l' m')"
proof (cases change)
  case None
  with assms show ?thesis by (auto simp: write_projection_def carries_def intro!: trace_intro)
next
  case (Some d)
  have "answers (l @ [Calls (On_secret (Updates (m\<lparr>ks_data := d\<rparr>))), Calls (On_secret (Got x))]) (m\<lparr>ks_data := d\<rparr>) x" for x
    unfolding answers_def by (rule exI [of _ l]) simp
  moreover have "may_project env r l (m\<lparr>ks_data := d\<rparr>)" unfolding may_project_def using assms Some by blast
  ultimately have "carries env (LeaseID r) want (l @ [Calls (On_secret (Updates (m\<lparr>ks_data := d\<rparr>))), Calls (On_secret (Got x))]) x" for x
    unfolding carries_def using assms(2) [unfolded Some] by auto
  with \<open>may_project env r l (m\<lparr>ks_data := d\<rparr>)\<close> show ?thesis unfolding Some write_projection_def option.case log_cluster_simps
    by (auto intro!: trace_intro)
qed

lemma Set_projection_calls:
  assumes "want = None \<longrightarrow> Restores_transport r (Inr True) \<in> set l"
  shows "io_calls (may_publish env vip port r) l (Set_projection env (log_projections s) (LeaseID r) want)
    (\<lambda>m l'. prefix l l' \<and> carries env (LeaseID r) want l' m)"
  unfolding Set_projection_def
proof (rule io_calls_bind, rule projection_mesh_calls, simp only: prod.case, rule io_calls_bind, rule io_calls_lift)
  fix c and m :: kube_secret and change
  assume "setProjection env (ks_data m) (LeaseID r) want = Inr change"
  then show "io_calls (may_publish env vip port r) (l @ [Calls (On_secret (Got m))]) (write_projection (log_cluster Calls c) m change)
      (\<lambda>m l'. prefix l l' \<and> carries env (LeaseID r) want l' m)"
    by (intro io_calls_conseq [OF write_projection_calls]) (use assms in \<open>auto elim: append_prefixD\<close>)
qed

lemma RetireWorker_calls:
  "io_calls (may_publish env vip port r) l (RetireWorker env (log_projections s) (LeaseID r))
    (\<lambda>(m, staged) l'. prefix l l' \<and>
       (if staged then \<exists>q. gp_retiringWorker q \<and> carries env (LeaseID r) (Some q) l' m else unprojected env (LeaseID r) l'))"
  unfolding RetireWorker_def
proof (rule io_calls_bind, rule projection_mesh_calls, simp only: prod.case, rule io_calls_bind, rule io_calls_lift, rule io_calls_option)
  fix c and m :: kube_secret and plans
  assume "stored_projections env (ks_data m) = Inr plans" "find (\<lambda>p. gp_lease p = LeaseID r) plans = None"
  then show "io_calls (may_publish env vip port r) (l @ [Calls (On_secret (Got m))]) (io_lift (Inr (m, False)))
      (\<lambda>(m, staged) l'. prefix l l' \<and>
         (if staged then \<exists>q. gp_retiringWorker q \<and> carries env (LeaseID r) (Some q) l' m else unprojected env (LeaseID r) l'))"
    by (auto simp: unprojected_def find_None_iff intro!: trace_intro)
next
  fix c and m :: kube_secret and plans and plan :: gateway_projection
  let ?q = "plan\<lparr>gp_retiringWorker := True\<rparr>"
  show "io_calls (may_publish env vip port r) (l @ [Calls (On_secret (Got m))])
      (io_bind (io_lift (setProjection env (ks_data m) (LeaseID r) (Some ?q))) (\<lambda>change.
       io_bind (write_projection (log_cluster Calls c) m change) (\<lambda>m'. io_lift (Inr (m', True)))))
      (\<lambda>(m, staged) l'. prefix l l' \<and>
         (if staged then \<exists>q. gp_retiringWorker q \<and> carries env (LeaseID r) (Some q) l' m else unprojected env (LeaseID r) l'))"
  proof (rule io_calls_bind, rule io_calls_lift, rule io_calls_bind)
    fix change
    assume "setProjection env (ks_data m) (LeaseID r) (Some ?q) = Inr change"
    from write_projection_calls [OF _ this] show "io_calls (may_publish env vip port r) (l @ [Calls (On_secret (Got m))])
       (write_projection (log_cluster Calls c) m change) (\<lambda>m' l'. io_calls (may_publish env vip port r) l' (io_lift (Inr (m', True)))
         (\<lambda>(m, staged) l'. prefix l l' \<and>
           (if staged then \<exists>q. gp_retiringWorker q \<and> carries env (LeaseID r) (Some q) l' m else unprojected env (LeaseID r) l')))"
      by (rule io_calls_conseq) (auto intro!: trace_intro exI [of _ ?q] elim: append_prefixD)
  qed
qed


text \<open>What a publication relies on of its store: an intent is returned under its own lease only.\<close>

locale intent_source =
  fixes s :: "'w intent_store"
  assumes keyed: "is_load s k w = (Inr (Some i), w') \<Longrightarrow> pi_lease i = k"
begin

lemma load_calls:
  assumes "\<And>x. ok l (Intent_loaded x)" "\<And>x. (\<And>i. x = Some i \<Longrightarrow> pi_lease i = k) \<Longrightarrow> Q x (l @ [Intent_loaded x])"
  shows "io_calls ok l (is_load (log_intents s) k) Q"
  unfolding io_calls_def calls_def
proof
  fix w
  obtain r w' where f: "is_load s k w = (r, w')" by (cases "is_load s k w")
  show "\<exists>r w' es. is_load (log_intents s) k (w, l) = (r, w', l @ es) \<and> permits ok l es \<and> (\<forall>x. r = Inr x \<longrightarrow> Q x (l @ es))"
  proof (cases r)
    case (Inl e)
    then show ?thesis using f by (simp add: logged_def on_success_def)
  next
    case (Inr x)
    then have "Q x (l @ [Intent_loaded x])" using f keyed by (intro assms(2)) auto
    with Inr f assms(1) show ?thesis by (simp add: logged_def on_success_def)
  qed
qed

lemma save_calls:
  "ok l (Intent_saves p n) \<Longrightarrow> (\<And>x. Q x (l @ [Intent_saves p n])) \<Longrightarrow> io_calls ok l (is_save (log_intents s) p n) Q"
  by (simp add: io_calls_logged)

lemma recipients_calls:
  assumes "Intent_loaded (Some i) \<in> set l" "pi_lease i = LeaseID r"
  shows "io_calls (may_publish env vip port r) l (recipients (log_intents s) (map_option log_resolver v) r m i)
    (\<lambda>(ts, i') l'. prefix l l' \<and> current_recipients l' i' ts \<and> pi_lease i' = LeaseID r)"
proof (cases "case v of None \<Rightarrow> None | Some u \<Rightarrow> ir_refresh u")
  case None
  then show ?thesis using assms by (cases v) (auto simp: recipients_def current_recipients_def intro!: trace_intro)
next
  case (Some f)
  then obtain u where "v = Some u" "ir_refresh u = Some f" by (cases v) auto
  then have eq: "(case map_option log_resolver v of None \<Rightarrow> None | Some r \<Rightarrow> ir_refresh r) = Some (\<lambda>r m ts. logged (on_success Refreshes) (f r m ts))" by simp
  show ?thesis unfolding recipients_def eq option.case
    by (rule io_calls_bind, rule io_calls_logged, simp add: on_success_def split: sum.split)
       (use assms in \<open>auto simp: on_success_def Let_def current_recipients_def simp del: log_parts_simps
         intro!: trace_intro save_calls load_calls may_extend\<close>)
qed

lemma publish_intent_calls:
  "io_calls (may_publish env vip port r) l (publish_intent (log_intents s) (log_resolver v) r)
    (\<lambda>x l'. prefix l l' \<and> (\<forall>i. x = Some i \<longrightarrow> Intent_loaded (Some i) \<in> set l'))"
  unfolding publish_intent_def
  by (auto simp: on_success_def guard_Inr split: sum.splits intro!: trace_intro io_calls_logged)

lemma acknowledged_by_prefix:
  "io_calls (may_publish env vip port r) l (acknowledged_by env (log_gateway p) m ts)
    (\<lambda>b l'. prefix l l' \<and> (b \<longrightarrow> all_acknowledged env (gw_apiVIP p) (gw_apiPort p) l' m ts))"
  by (rule io_calls_conseq [OF io_calls_prefix [OF acknowledged_by_calls [OF may_publish_reads]]]) auto

lemma io_calls_three:
  "(\<And>x y z. a = Some x \<Longrightarrow> b = Some y \<Longrightarrow> c = Some z \<Longrightarrow> io_calls ok l (f x y z) Q) \<Longrightarrow>
   io_calls ok l (case (a, b, c) of (Some x, Some y, Some z) \<Rightarrow> f x y z | _ \<Rightarrow> io_lift (Inl e)) Q"
  by (cases a; cases b; cases c) (auto intro: trace_intro)

lemma io_calls_two:
  "(\<And>x y. a = Some x \<Longrightarrow> b = Some y \<Longrightarrow> io_calls ok l (f x y) Q) \<Longrightarrow>
   io_calls ok l (case (a, b) of (Some x, Some y) \<Rightarrow> f x y | _ \<Rightarrow> io_lift (Inl e)) Q"
  by (cases a; cases b) (auto intro: trace_intro)

lemma loaded_prefix: "Intent_loaded x \<in> set l \<Longrightarrow> prefix l l' \<Longrightarrow> Intent_loaded x \<in> set l'"
  using set_mono_prefix by blast


end

context intent_source
begin

lemma Publish_calls:
  assumes store: "gw_store p = Some s"
  shows "io_calls (may_publish env (gw_apiVIP p) (gw_apiPort p) r) [] (Publish env (log_gateway p) r) (\<lambda>_ _. True)"
  unfolding Publish_def
proof (rule io_calls_three, rule io_calls_bind)
  let ?ok = "may_publish env (gw_apiVIP p) (gw_apiPort p) r"
  fix store resolver transport
  assume "gw_store (log_gateway p) = Some store" "gw_resolver (log_gateway p) = Some resolver" "gw_transport (log_gateway p) = Some transport"
  with store obtain v t where eqs: "store = log_intents s" "resolver = log_resolver v" "transport = log_transport t" by (auto simp: log_gateway_simps)
  have ensure: "io_calls ?ok l (if \<not> b then io_lift (Inr False) else tr_ensure transport r) (\<lambda>_ _. True)"
    if "b \<Longrightarrow> may_ensure env (gw_apiVIP p) (gw_apiPort p) r l" for b l
    unfolding eqs using that by (auto intro!: trace_intro io_calls_logged)
  have rest: "io_calls ?ok l (io_bind (Set_projection env (gw_projections (log_gateway p)) (pi_lease i) (Some (pi_projection i))) (\<lambda>m.
        io_bind (recipients store (Some resolver) r m i) (\<lambda>(ts, i').
        io_bind (acknowledged_by env (log_gateway p) m ts) (\<lambda>b. if \<not> b then io_lift (Inr False) else tr_ensure transport r)))) (\<lambda>_ _. True)"
    if i: "Intent_loaded (Some i) \<in> set l" "pi_lease i = LeaseID r" for l i
    unfolding i(2) log_gateway_simps
  proof (rule io_calls_bind, rule io_calls_conseq [OF Set_projection_calls], simp, rule io_calls_bind)
    fix m l1
    assume m: "prefix l l1 \<and> carries env (LeaseID r) (Some (pi_projection i)) l1 m"
    with i have ld: "Intent_loaded (Some i) \<in> set l1" by (blast intro: loaded_prefix)
    have eq: "Some resolver = map_option log_resolver (Some v)" by (simp add: eqs)
    show "io_calls ?ok l1 (recipients store (Some resolver) r m i) (\<lambda>x l'. io_calls ?ok l' (case x of (ts, i') \<Rightarrow>
        io_bind (acknowledged_by env (log_gateway p) m ts) (\<lambda>b. if \<not> b then io_lift (Inr False) else tr_ensure transport r)) (\<lambda>_ _. True))"
      unfolding eq unfolding eqs(1)
    proof (rule io_calls_conseq [OF recipients_calls [OF ld i(2)]], clarify, rule io_calls_bind, rule io_calls_conseq [OF acknowledged_by_prefix], rule ensure)
      fix ts i' l2 b l3
      assume "prefix l1 l2" "current_recipients l2 i' ts" "prefix l2 l3 \<and> (b \<longrightarrow> all_acknowledged env (gw_apiVIP p) (gw_apiPort p) l3 m ts)" "b"
      with m ld show "may_ensure env (gw_apiVIP p) (gw_apiPort p) r l3"
        unfolding may_ensure_def by (blast intro: publication_mono loaded_prefix dest: prefix_order.trans)
    qed
  qed
  show "io_calls ?ok [] (publish_intent store resolver r) (\<lambda>x l'. io_calls ?ok l' (case x of
      None \<Rightarrow> io_lift (Inl (Error ''publication intent missing or retiring''))
    | Some intent \<Rightarrow>
        io_bind (io_lift (guard (\<not> pi_deleting intent \<and> \<not> pi_retired intent \<and> pi_lease intent = LeaseID r)
                   ''publication intent missing or retiring'')) (\<lambda>_.
        io_bind (Set_projection env (gw_projections (log_gateway p)) (pi_lease intent) (Some (pi_projection intent))) (\<lambda>m.
        io_bind (recipients store (Some resolver) r m intent) (\<lambda>(targets, intent').
        io_bind (acknowledged_by env (log_gateway p) m targets) (\<lambda>applied.
        if \<not> applied then io_lift (Inr False) else tr_ensure transport r))))) (\<lambda>_ _. True))"
    unfolding eqs(1,2)
    by (rule io_calls_conseq [OF publish_intent_calls], rule io_calls_option, rule io_calls_fail, rule io_calls_guard,
       rule rest [unfolded eqs(1,2)]) auto
qed

lemma retire_worker_calls:
  assumes i: "Intent_loaded (Some i) \<in> set l" "pi_lease i = LeaseID r"
  shows "io_calls (may_publish env (gw_apiVIP p) (gw_apiPort p) r) l (retire_worker env (log_gateway p) (log_intents s) r i)
    (\<lambda>x l'. prefix l l' \<and> (\<forall>i'. x = Some i' \<longrightarrow> Intent_loaded (Some i') \<in> set l' \<and> pi_lease i' = LeaseID r \<and>
       may_restore env (gw_apiVIP p) (gw_apiPort p) r l'))"
    (is "io_calls ?ok _ _ ?Q")
  unfolding retire_worker_def i(2) log_gateway_simps
proof (rule io_calls_bind, rule io_calls_conseq [OF RetireWorker_calls], clarify, rule io_calls_if)
  fix m staged l1
  assume "prefix l l1" "if staged then \<exists>q. gp_retiringWorker q \<and> carries env (LeaseID r) (Some q) l1 m else unprojected env (LeaseID r) l1" "\<not> staged"
  with i show "io_calls ?ok l1 (io_lift (Inr (Some i))) ?Q"
    by (auto intro!: trace_intro intro: loaded_prefix simp: may_restore_def)
next
  fix m staged l1
  assume l1: "prefix l l1" and "if staged then \<exists>q. gp_retiringWorker q \<and> carries env (LeaseID r) (Some q) l1 m else unprojected env (LeaseID r) l1"
    and "\<not> \<not> staged"
  then obtain q where q: "gp_retiringWorker q" "carries env (LeaseID r) (Some q) l1 m" by auto
  have ld: "Intent_loaded (Some i) \<in> set l1" using i l1 by (blast intro: loaded_prefix)
  show "io_calls ?ok l1 (io_bind (recipients (log_intents s) (map_option log_resolver (gw_resolver p)) r m i) (\<lambda>(targets, intent').
       let worker = filter (\<lambda>t. \<not> ct_site t \<and> ct_publicKey t = gp_workerKey (pi_projection intent')) targets in
       io_bind (io_lift (guard (length worker = 1) ''withdrawal requires the exact retiring worker recipient'')) (\<lambda>_.
       io_bind (acknowledged_by env (log_gateway p) m worker) (\<lambda>applied.
       io_lift (Inr (if applied then Some intent' else None)))))) ?Q"
  proof (rule io_calls_bind, rule io_calls_conseq [OF recipients_calls [OF ld i(2)]], clarify, unfold Let_def, rule io_calls_guard, rule io_calls_bind,
      rule io_calls_conseq [OF acknowledged_by_prefix], rule io_calls_lift)
    fix ts :: "consumer_target list" and i' :: publication_intent and l2 b l3 x
    let ?w = "filter (\<lambda>t. \<not> ct_site t \<and> ct_publicKey t = gp_workerKey (pi_projection i')) ts"
    assume h: "prefix l1 l2" "current_recipients l2 i' ts" "pi_lease i' = LeaseID r" "length ?w = 1"
      "prefix l2 l3 \<and> (b \<longrightarrow> all_acknowledged env (gw_apiVIP p) (gw_apiPort p) l3 m ?w)" "Inr (if b then Some i' else None) = Inr x"
    from h(4) obtain t where w: "?w = [t]" by (auto simp: length_Suc_conv)
    then have "t \<in> set ?w" by (simp only: list.set) simp
    then have t: "t \<in> set ts" "\<not> ct_site t" "ct_publicKey t = gp_workerKey (pi_projection i')" by auto
    have rc: "current_recipients l3 i' ts" using h(2,5) by (blast intro: publication_mono)
    have "may_restore env (gw_apiVIP p) (gw_apiPort p) r l3" if b
    proof -
      have "all_acknowledged env (gw_apiVIP p) (gw_apiPort p) l3 m [t]" using h(5) that w by simp
      moreover have "carries env (LeaseID r) (Some q) l3 m" using q(2) h(1,5) by (blast intro: publication_mono dest: prefix_order.trans)
      ultimately show ?thesis unfolding may_restore_def using rc t q(1) by blast
    qed
    moreover have "prefix l l3" using l1 h(1,5) by (blast dest: prefix_order.trans)
    ultimately show "?Q x l3" using rc h(3,6) by (cases b) (auto simp: current_recipients_def)
  qed
qed

lemma finish_calls:
  assumes h: "Restores_transport r (Inr True) \<in> set l" "Intent_loaded (Some i) \<in> set l" "pi_lease i = LeaseID r" "carries env (LeaseID r) None l m"
  shows "io_calls (may_publish env (gw_apiVIP p) (gw_apiPort p) r) l (finish_withdrawal env (log_gateway p) (log_intents s) r i m) (\<lambda>_ _. True)"
    (is "io_calls ?ok _ _ _")
  unfolding finish_withdrawal_def log_gateway_simps
proof (rule io_calls_bind, rule io_calls_conseq [OF recipients_calls [OF h(2,3)]], clarify, rule io_calls_bind,
    rule io_calls_conseq [OF acknowledged_by_prefix], rule io_calls_if)
  fix ts i' l1 b l2
  assume l1: "prefix l l1" "current_recipients l1 i' ts"
    and b: "prefix l1 l2 \<and> (b \<longrightarrow> all_acknowledged env (gw_apiVIP p) (gw_apiPort p) l2 m ts)" "\<not> \<not> b"
  have "Restores_transport r (Inr True) \<in> set l2" using h(1) l1(1) b(1) set_mono_prefix by blast
  moreover have rc: "current_recipients l2 i' ts" using l1 b(1) by (blast intro: publication_mono)
  moreover have "carries env (LeaseID r) None l2 m" using h(4) l1(1) b(1) by (blast intro: publication_mono dest: prefix_order.trans)
  ultimately have "may_retire env (gw_apiVIP p) (gw_apiPort p) r l2 i'" unfolding may_retire_def using b by blast
  with rc have "?ok l2 (Intent_saves (Some i') (i'\<lparr>pi_retired := True\<rparr>))" unfolding may_publish.simps(6) current_recipients_def by blast
  then show "io_calls ?ok l2 (io_bind (is_save (log_intents s) (Some i') (i'\<lparr>pi_retired := True\<rparr>)) (\<lambda>_. io_lift (Inr True))) (\<lambda>_ _. True)"
    by (intro trace_intro save_calls) auto
qed (rule io_calls_lift, simp)

lemma restore_calls:
  assumes h: "may_restore env (gw_apiVIP p) (gw_apiPort p) r l" "Intent_loaded (Some i) \<in> set l" "pi_lease i = LeaseID r"
  shows "io_calls (may_publish env (gw_apiVIP p) (gw_apiPort p) r) l (io_bind (tr_restore (log_transport t) r) (\<lambda>restored.
      if \<not> restored then io_lift (Inr False)
      else io_bind (Set_projection env (log_projections (gw_projections p)) (pi_lease i) None) (finish_withdrawal env (log_gateway p) (log_intents s) r i))) (\<lambda>_ _. True)"
    (is "io_calls ?ok _ _ _")
  unfolding h(3) log_parts_simps
proof (rule io_calls_bind, rule io_calls_logged)
  show "permits ?ok l [Restores_transport r x]" for x using h(1) by simp
  fix restored
  let ?l = "l @ [Restores_transport r (Inr restored)]"
  show "io_calls ?ok ?l (if \<not> restored then io_lift (Inr False)
      else io_bind (Set_projection env (log_projections (gw_projections p)) (LeaseID r) None) (finish_withdrawal env (log_gateway p) (log_intents s) r i)) (\<lambda>_ _. True)"
  proof (rule io_calls_if, rule io_calls_lift, simp, rule io_calls_bind, rule io_calls_conseq [OF Set_projection_calls], simp)
    fix m l1
    assume r: "\<not> \<not> restored" and m: "prefix ?l l1 \<and> carries env (LeaseID r) None l1 m"
    have "set ?l \<subseteq> set l1" using m set_mono_prefix by blast
    with r h(2,3) m show "io_calls ?ok l1 (finish_withdrawal env (log_gateway p) (log_intents s) r i m) (\<lambda>_ _. True)" by (intro finish_calls) auto
  qed
qed

lemma Withdraw_calls:
  assumes "gw_store p = Some s"
  shows "io_calls (may_publish env (gw_apiVIP p) (gw_apiPort p) r) [] (Withdraw env (log_gateway p) r) (\<lambda>_ _. True)"
    (is "io_calls ?ok _ _ _")
  unfolding Withdraw_def
proof (rule io_calls_two, rule io_calls_bind)
  fix store transport
  assume "gw_store (log_gateway p) = Some store" "gw_transport (log_gateway p) = Some transport"
  with assms obtain t where eqs: "store = log_intents s" "transport = log_transport t" by (auto simp: log_gateway_simps)
  show "io_calls ?ok [] (is_load store (LeaseID r)) (\<lambda>x l'. io_calls ?ok l' (case x of
            None \<Rightarrow> io_lift (Inr True)
          | Some intent0 \<Rightarrow>
              if pi_retired intent0 then io_lift (Inr True)
              else
                io_bind (io_lift (guard (pi_lease intent0 = LeaseID r) ''publication identity mismatch'')) (\<lambda>_.
                io_bind (retire_worker env (log_gateway p) store r intent0) (\<lambda>fallen.
                case fallen of
                  None \<Rightarrow> io_lift (Inr False)
                | Some intent \<Rightarrow>
                    io_bind (tr_restore transport r) (\<lambda>restored.
                    if \<not> restored then io_lift (Inr False)
                    else
                      io_bind (Set_projection env (gw_projections (log_gateway p)) (pi_lease intent) None) (finish_withdrawal env (log_gateway p) store r intent))))) (\<lambda>_ _. True))"
    unfolding eqs log_gateway_simps
    by (rule load_calls, simp, rule io_calls_option, rule io_calls_lift, simp, rule io_calls_if, rule io_calls_lift, simp, rule io_calls_guard,
        rule io_calls_bind, rule io_calls_conseq [OF retire_worker_calls])
       (auto intro!: io_calls_option io_calls_lift restore_calls)
qed

end

interpretation config_intents: intent_source "config_intent_store env client ns" for env client ns
proof
  fix k w i w'
  assume "is_load (config_intent_store env client ns) k w = (Inr (Some i), w')"
  then show "pi_lease i = k"
    by (auto simp: config_intent_store_def intent_Load_def res_inv split: option.splits)
qed

end
