(* ===== verification/Attachment_Properties.thy ===== *)
theory Attachment_Properties
  imports Attachment_Life Publication_Order Mesh_Properties
begin

text \<open>
  The properties of attachments: what an accepted gateway plan contains, that a lease is retired in order, and that a publication's
  transport changes follow the acknowledgements.
\<close>

section \<open>Gateway plans\<close>

definition addr_rank :: "addr \<Rightarrow> int \<times> 128 word \<times> string" where
  "addr_rank a = (BitLen a, As16 a, Zone a)"

interpretation by_address: ranked_sort addr_less addr_rank "\<lambda>_. True"
  by unfold_locales (auto simp: addr_less_def addr_rank_def less_prod_def' less_eq_prod_def)

lemma As16_V4_inj: "As16 (V4 a) = As16 (V4 b) \<Longrightarrow> a = b"
proof -
  have eq: "0xffff00000000 = (push_bit 32 0xffff :: 128 word)" by simp
  have "ucast (As16 (V4 w)) = w" for w :: "32 word"
    unfolding As16.simps eq
    by (rule bit_eqI) (simp only: bit_simps, auto)
  then show "As16 (V4 a) = As16 (V4 b) \<Longrightarrow> a = b" by metis
qed

lemma addr_rank_inj: "Is4 a \<Longrightarrow> Is4 b \<Longrightarrow> addr_rank a = addr_rank b \<Longrightarrow> a = b"
  by (cases a; cases b) (auto simp: addr_rank_def dest: As16_V4_inj simp del: As16.simps)

lemma sort_addresses_cong:
  assumes "set xs = set ys" "\<forall>a \<in> set xs. Is4 a"
  shows "sort_by addr_less (remdups xs) = sort_by addr_less (remdups ys)"
proof -
  let ?f = "\<lambda>zs. sort_by addr_less (remdups zs)"
  have s: "sorted (map addr_rank (?f zs))" "set (?f zs) = set zs" "mset (?f zs) = mset (remdups zs)" for zs
    using by_address.sort_by_sorted [of "remdups zs"] by (auto simp: sorted_wrt_map list_all_iff)
  have "mset (remdups xs) = mset (remdups ys)" using assms(1) by (metis distinct_remdups set_eq_iff_mset_eq_distinct set_remdups)
  then have "mset (map addr_rank (?f xs)) = mset (map addr_rank (?f ys))" using s(3) by simp
  then have "map addr_rank (?f xs) = map addr_rank (?f ys)" by (metis properties_for_sort s(1))
  moreover have "inj_on addr_rank (set (?f xs) \<union> set (?f ys))" using assms s(2) by (auto intro!: inj_onI addr_rank_inj)
  ultimately show ?thesis by (rule map_inj_on)
qed

lemma return_hosts_ok: "res_fold (\<lambda>_. return_host subnet outer) () xs = Inr u \<longleftrightarrow> (\<forall>a \<in> set xs. return_host subnet outer a = Inr ())"
  by (induction xs) (auto split: sum.split)

text \<open>What a plan is made of, once it is accepted.\<close>

lemma PlanGateway_Inr:
  "PlanGateway r = Inr p \<longleftrightarrow>
     validateMachine (gr_worker r) = Inr () \<and> validateMachine (gr_gateway r) = Inr () \<and> distinct_machines (gr_worker r) (gr_gateway r) \<and>
     am_networkID (gr_worker r) = am_networkID (gr_gateway r) \<and> am_subnet (gr_worker r) = am_subnet (gr_gateway r) \<and>
     Is4 (am_address (gr_worker r)) \<and> gr_udpPort r \<noteq> 0 \<and> gr_siteTransport r \<noteq> [] \<and> gr_underlay r \<noteq> [] \<and>
     (\<forall>a \<in> set (gr_underlay r). validAddress a) \<and> am_address (gr_worker r) \<notin> set (gr_underlay r) \<and>
     am_address (gr_gateway r) \<notin> set (gr_underlay r) \<and>
     (\<forall>a \<in> set (gr_siteTransport r) \<union> set (gr_siteReturnSources r). return_host (am_subnet (gr_worker r)) (gr_underlay r) a = Inr ()) \<and>
     0 \<notin> set (gr_tcpPorts r) \<and>
     p = \<lparr>gl_worker = gr_worker r, gl_gateway = gr_gateway r, gl_workerHost = host32 (am_address (gr_worker r)),
          gl_returnHosts = map host32 (sort_by addr_less (remdups (gr_siteTransport r @ gr_siteReturnSources r))),
          gl_directHosts = map host32 (filter (\<lambda>a. a \<in> set (gr_siteTransport r)) (sort_by addr_less (remdups (gr_siteTransport r @ gr_siteReturnSources r)))),
          gl_udpPort = gr_udpPort r, gl_tcpPorts = sort (remdups (gr_tcpPorts r))\<rparr>"
  unfolding PlanGateway_def Let_def by (simp add: res_inv return_hosts_ok list_all_iff) blast

lemma sort_remdups_cong: "set xs = set ys \<Longrightarrow> sort (remdups xs) = sort (remdups (ys :: 'x :: linorder list))"
  by (rule properties_for_sort) (auto simp: set_eq_iff_mset_remdups_eq)

lemma return_host_ok: "return_host subnet outer a = Inr () \<longleftrightarrow> validAddress a \<and> Is4 a \<and> \<not> Contains subnet a \<and> a \<notin> set outer"
  by (auto simp: return_host_def)


section \<open>A sample attachment\<close>

definition sample_machine :: "char \<Rightarrow> 32 word \<Rightarrow> attached_machine" where
  "sample_machine c a =
     \<lparr>am_uid = [c], am_nodeUID = [c, c], am_providerID = ''p'' @ [c], am_interfaceID = ''i'' @ [c], am_networkID = ''net'',
      am_subnet = Prefix (V4 0x0A000000) 24, am_address = V4 a\<rparr>"

definition sample_gateway_request :: gateway_request where
  "sample_gateway_request =
     \<lparr>gr_worker = sample_machine CHR ''w'' 0x0A000005, gr_gateway = sample_machine CHR ''g'' 0x0A000006,
      gr_siteTransport = [V4 0xC0A80002, V4 0xC0A80001], gr_siteReturnSources = [V4 0xC0A80003, V4 0xC0A80001],
      gr_underlay = [V4 0xCB007105], gr_udpPort = 4789, gr_tcpPorts = [443, 179, 443]\<rparr>"

definition sample_gateway_plan :: gateway_plan where
  "sample_gateway_plan =
     \<lparr>gl_worker = sample_machine CHR ''w'' 0x0A000005, gl_gateway = sample_machine CHR ''g'' 0x0A000006, gl_workerHost = host32 (V4 0x0A000005),
      gl_returnHosts = map host32 [V4 0xC0A80001, V4 0xC0A80002, V4 0xC0A80003], gl_directHosts = map host32 [V4 0xC0A80001, V4 0xC0A80002],
      gl_udpPort = 4789, gl_tcpPorts = [179, 443]\<rparr>"

lemma sample_planned: "PlanGateway sample_gateway_request = Inr sample_gateway_plan"
  by code_simp

definition no_api :: "('w, 'o) resource" where
  "no_api =
     \<lparr>r_get = (\<lambda>_ w. (Inl (NotFound []), w)), r_list = (\<lambda>_ w. (Inr [], w)), r_create = (\<lambda>_ w. (Inl (APIError []), w)),
      r_update = (\<lambda>_ w. (Inl (APIError []), w)), r_status = (\<lambda>_ w. (Inl (APIError []), w)), r_patch = (\<lambda>_ _ w. (Inl (APIError []), w)),
      r_delete = (\<lambda>_ _ _ w. (Inl (NotFound []), w))\<rparr>"

definition no_cluster :: "'w cluster" where
  "no_cluster =
     \<lparr>k_groups = no_api, k_claims = no_api, k_machines = no_api, k_nodes = no_api, k_pods = no_api, k_secrets = no_api, k_maps = no_api,
      k_evict = (\<lambda>_ w. (Inl (NotFound []), w))\<rparr>"

definition sample_attachment :: "attach_phase \<Rightarrow> attachment" where
  "sample_attachment ph =
     \<lparr>at_id = ''a'', at_lease = ''l'', at_digest = hex_encode (sample_sha ''plan''), at_plan = sample_gateway_plan, at_phase = ph, at_version = [],
      at_deleting = False\<rparr>"

definition sample_intent :: publication_intent where
  "sample_intent =
     \<lparr>pi_lease = LeaseID (sample_attachment Withdrawing),
      pi_projection = \<lparr>gp_lease = LeaseID (sample_attachment Withdrawing), gp_workerKey = ''kw'', gp_gatewayKey = ''kg'', gp_workerAddress = V4 0x0A000005,
        gp_workerHost = host32 (V4 0x0A000005), gp_directHosts = [], gp_retiringWorker = False\<rparr>,
      pi_consumers = [], pi_retired = False, pi_version = [], pi_deleting = False\<rparr>"

definition sample_attach_env :: attach_env where
  "sample_attach_env = mesh_env.extend sample_mesh_env
     \<lparr>marshal_plan = (\<lambda>_. ''plan''), marshal_lease = (\<lambda>_. Some ''lease''), json_lease = (\<lambda>_. None),
      marshal_intent = (\<lambda>_. Some ''intent''), json_intent = (\<lambda>s. if s = ''intent'' then Some sample_intent else None),
      marshal_gateways = (\<lambda>_. Some ''[]''), marshal_mesh = (\<lambda>_. ''mesh''), json_request = (\<lambda>_. None)\<rparr>"

text \<open>A store that holds one record.\<close>

definition sample_reconciler :: "attachment option attach_reconciler" where
  "sample_reconciler =
     \<lparr>rc_store = Some \<lparr>ls_load = (\<lambda>_ w. (Inr w, w)), ls_save = (\<lambda>_ n _. (Inr (), Some n))\<rparr>,
      rc_forwarder = Some \<lparr>fw_ensure = (\<lambda>_ w. (Inr True, w)), fw_release = (\<lambda>_ w. (Inr True, w))\<rparr>,
      rc_publication = Some \<lparr>pu_publish = (\<lambda>_ w. (Inr True, w)), pu_withdraw = (\<lambda>_ w. (Inr True, w))\<rparr>,
      rc_lifetime = Some \<lparr>li_protect = (\<lambda>_ w. (Inr False, w)), li_release = (\<lambda>_ w. (Inr (), w))\<rparr>\<rparr>"

definition sample_step :: "gateway_request option \<Rightarrow> attachment option \<times> lease_event list \<Rightarrow> attachment option \<times> lease_event list" where
  "sample_step desired s = (fst (snd (Step sample_attach_env (log_reconciler sample_reconciler) ''l'' ''a'' desired (fst s, []))),
     snd s @ snd (snd (Step sample_attach_env (log_reconciler sample_reconciler) ''l'' ''a'' desired (fst s, []))))"

definition sample_lease_history :: "lease_event list" where
  "sample_lease_history = snd (sample_step None (sample_step None (sample_step None (sample_step (Some sample_gateway_request) (None, [])))))"

lemma append_in_shuffles: "xs @ ys \<in> shuffles xs ys"
  by (induction xs) (auto intro: Cons_in_shuffles_leftI)

lemma sample_step_history:
  assumes "lease_history sample_attach_env sample_reconciler ''a'' (snd s)"
  shows "lease_history sample_attach_env sample_reconciler ''a'' (snd (sample_step desired s))"
proof -
  obtain r w' es where e: "Step sample_attach_env (log_reconciler sample_reconciler) ''l'' ''a'' desired (fst s, []) = (r, (w', es))"
    by (metis prod.exhaust)
  show ?thesis by (rule lease_history.step [OF assms e]) (simp add: sample_step_def e append_in_shuffles)
qed

text \<open>Short names for the sample.\<close>

abbreviation sa :: "attach_phase \<Rightarrow> attachment" where "sa \<equiv> sample_attachment"

lemma sample_history_eq:
  "sample_lease_history =
     [Loaded None, Saves None (sa Preparing), Loaded (Some (sa Preparing)), Saves (Some (sa Preparing)) (sa Withdrawing),
      Loaded (Some (sa Withdrawing)), Withdraws (sa Withdrawing) (Inr True), Saves (Some (sa Withdrawing)) (sa Releasing)] @
     Loaded (Some (sa Releasing)) # Releases (sa Releasing) (Inr True) # Saves (Some (sa Releasing)) (sa Complete) # [Frees (sa Releasing) (Inr ())]"
  by code_simp

section \<open>A sample publication\<close>

definition sample_kube_map :: kube_map where
  "sample_kube_map = (new_map ''ns'' ''m'')\<lparr>km_data := Mapping.update ''publication.json'' ''intent'' Mapping.empty\<rparr>"

definition sample_kube_secret :: kube_secret where
  "sample_kube_secret =
     \<lparr>om_name = ''mesh'', om_namespace = ''ns'', om_uid = ''u'', om_resourceVersion = ''1'', om_generation = 0, om_deletionTimestamp = None,
      om_labels = Mapping.empty, om_annotations = Mapping.empty, om_finalizers = [], om_owners = [], ks_data = []\<rparr>"

definition sample_cluster :: "unit cluster" where
  "sample_cluster = no_cluster\<lparr>k_maps := no_api\<lparr>r_get := (\<lambda>_ w. (Inr sample_kube_map, w))\<rparr>,
     k_secrets := no_api\<lparr>r_get := (\<lambda>_ w. (Inr sample_kube_secret, w))\<rparr>\<rparr>"

definition sample_publication :: "unit gateway_publication" where
  "sample_publication =
     \<lparr>gw_store = Some (config_intent_store sample_attach_env (Some sample_cluster) ''ns''), gw_resolver = None,
      gw_projections = \<lparr>pr_client = Some sample_cluster, pr_namespace = ''ns'', pr_name = ''mesh'', pr_secretUID = ''u''\<rparr>,
      gw_reader = Some sample_cluster, gw_transport = Some \<lparr>tr_ensure = (\<lambda>_ w. (Inr True, w)), tr_restore = (\<lambda>_ w. (Inr True, w))\<rparr>,
      gw_apiVIP = ''vip'', gw_apiPort = ''6443''\<rparr>"

abbreviation sample_before :: "publication_event list" where
  "sample_before \<equiv> [Intent_loaded (Some (sample_intent\<lparr>pi_version := ''/''\<rparr>)), Calls (On_secret (Got sample_kube_secret))]"

lemma sample_withdrawal:
  "Withdraw sample_attach_env (log_gateway sample_publication) (sa Withdrawing) ((), []) =
     (Inl (Error ''mesh identity and retained consumer targets required''),
      ((), sample_before @ Restores_transport (sa Withdrawing) (Inr True) # [Calls (On_secret (Got sample_kube_secret))]))"
  by code_simp


section \<open>Properties\<close>

text \<open>C38: a gateway plan that is accepted routes back exactly the site's transport addresses and return sources and reaches directly exactly the
  transport addresses; each is a valid IPv4 address outside the worker's subnet and is no endpoint of the outer tunnel, worker and gateway are hosts
  of that subnet and no endpoints either, and the TCP ports are the requested ones, sorted and without repetition. The plan, and so its digest, depends on the
  sets of addresses and ports only: any reordering or repetition in the request gives the same plan.\<close>

theorem gateway_plan_sound:
  assumes "PlanGateway r = Inr p"
  shows "set (gl_returnHosts p) = host32 ` (set (gr_siteTransport r) \<union> set (gr_siteReturnSources r)) \<and>
    set (gl_directHosts p) = host32 ` set (gr_siteTransport r) \<and>
    (\<forall>a \<in> set (gr_siteTransport r) \<union> set (gr_siteReturnSources r).
       Is4 a \<and> validAddress a \<and> \<not> Contains (am_subnet (gl_worker p)) a \<and> a \<notin> set (gr_underlay r)) \<and>
    am_address (gl_worker p) \<notin> set (gr_underlay r) \<and> am_address (gl_gateway p) \<notin> set (gr_underlay r) \<and>
    Contains (am_subnet (gl_worker p)) (am_address (gl_worker p)) \<and> Contains (am_subnet (gl_worker p)) (am_address (gl_gateway p)) \<and>
    sorted (gl_tcpPorts p) \<and> distinct (gl_tcpPorts p) \<and> set (gl_tcpPorts p) = set (gr_tcpPorts r) \<and> 0 \<notin> set (gl_tcpPorts p) \<and>
    (\<forall>ts ss us ps. set ts = set (gr_siteTransport r) \<and> set ss = set (gr_siteReturnSources r) \<and> set us = set (gr_underlay r) \<and>
       set ps = set (gr_tcpPorts r) \<longrightarrow>
       PlanGateway (r\<lparr>gr_siteTransport := ts, gr_siteReturnSources := ss, gr_underlay := us, gr_tcpPorts := ps\<rparr>) = Inr p)"
proof -
  let ?H = "set (gr_siteTransport r) \<union> set (gr_siteReturnSources r)"
  note h = assms [unfolded PlanGateway_Inr]
  have srt: "set (sort_by addr_less (remdups (gr_siteTransport r @ gr_siteReturnSources r))) = ?H"
    using by_address.sort_by_sorted [of "remdups (gr_siteTransport r @ gr_siteReturnSources r)"] by (auto simp: list_all_iff)
  have hosts: "\<forall>a \<in> ?H. validAddress a \<and> Is4 a \<and> \<not> Contains (am_subnet (gr_worker r)) a \<and> a \<notin> set (gr_underlay r)"
    using h unfolding return_host_ok by blast
  have "PlanGateway (r\<lparr>gr_siteTransport := ts, gr_siteReturnSources := ss, gr_underlay := us, gr_tcpPorts := ps\<rparr>) = Inr p"
    if e: "set ts = set (gr_siteTransport r)" "set ss = set (gr_siteReturnSources r)" "set us = set (gr_underlay r)" "set ps = set (gr_tcpPorts r)"
    for ts ss us ps
  proof -
    have s: "sort_by addr_less (remdups (ts @ ss)) = sort_by addr_less (remdups (gr_siteTransport r @ gr_siteReturnSources r))"
      using e hosts by (intro sort_addresses_cong) auto
    have q: "sort (remdups ps) = sort (remdups (gr_tcpPorts r))" by (rule sort_remdups_cong) (rule e(4))
    have n: "ts \<noteq> []" "us \<noteq> []" using e h by auto
    show ?thesis unfolding PlanGateway_Inr using h hosts n by (simp add: e s q return_host_ok)
  qed
  moreover have "Contains (am_subnet (gr_worker r)) (am_address (gr_worker r))" "Contains (am_subnet (gr_worker r)) (am_address (gr_gateway r))"
    using h by (auto simp: validateMachine_def split: if_splits)
  ultimately show ?thesis using h hosts srt by auto
qed


theorem gateway_plan_sound_witness:
  "set (gl_directHosts sample_gateway_plan) = host32 ` set (gr_siteTransport sample_gateway_request) \<and>
   PlanGateway (sample_gateway_request\<lparr>gr_siteTransport := [V4 0xC0A80001, V4 0xC0A80002], gr_siteReturnSources := [V4 0xC0A80001, V4 0xC0A80003],
     gr_underlay := [V4 0xCB007105], gr_tcpPorts := [179, 443]\<rparr>) = Inr sample_gateway_plan"
  using gateway_plan_sound [OF sample_planned] by (simp add: sample_gateway_request_def insert_commute)


text \<open>C36: in every history of a worker's attachment, of any steps of any controllers interleaved in any way, over a store whose loads return what was saved:
  the provider's forwarding is released only after the publication of the same lease was withdrawn, the machines' deletion holds are freed and a new lease
  replaces an old one only after the forwarding of that lease was released.\<close>

theorem lease_retired_in_order:
  assumes "lease_history env rc aid L" and "returns_written L" and "L = xs @ e # ys"
  shows "(\<forall>r b. e = Releases r b \<longrightarrow> (\<exists>q. Withdraws q (Inr True) \<in> set xs \<and> LeaseID q = LeaseID r)) \<and>
    (\<forall>r b. e = Frees r b \<longrightarrow> (\<exists>q. Releases q (Inr True) \<in> set xs \<and> LeaseID q = LeaseID r)) \<and>
    (\<forall>r n. e = Saves (Some r) n \<longrightarrow> at_phase n = Preparing \<longrightarrow> (\<exists>q. Releases q (Inr True) \<in> set xs \<and> LeaseID q = LeaseID r))"
proof -
  note p = history_permits [OF assms(1)]
  have e: "may_call env aid xs e" using p assms(3) permits_at [of "may_call env aid" xs e ys] by simp
  show ?thesis
  proof (intro conjI allI impI)
    fix r b
    assume "e = Releases r b"
    with e releasing_withdrawn [OF p assms(2,3)] show "\<exists>q. Withdraws q (Inr True) \<in> set xs \<and> LeaseID q = LeaseID r" by simp
  next
    fix r b
    assume "e = Frees r b"
    with e complete_released [OF p assms(2,3)] show "\<exists>q. Releases q (Inr True) \<in> set xs \<and> LeaseID q = LeaseID r" by auto
  next
    fix r n
    assume "e = Saves (Some r) n" "at_phase n = Preparing"
    with e have "Loaded (Some r) \<in> set xs" "at_phase r = Complete" by (auto simp: may_save_def lease_move_to)
    with complete_released [OF p assms(2,3)] show "\<exists>q. Releases q (Inr True) \<in> set xs \<and> LeaseID q = LeaseID r" by simp
  qed
qed

theorem lease_retired_in_order_witness:
  "\<exists>q. Releases q (Inr True) \<in> set [Loaded None, Saves None (sa Preparing), Loaded (Some (sa Preparing)), Saves (Some (sa Preparing)) (sa Withdrawing),
      Loaded (Some (sa Withdrawing)), Withdraws (sa Withdrawing) (Inr True), Saves (Some (sa Withdrawing)) (sa Releasing),
      Loaded (Some (sa Releasing)), Releases (sa Releasing) (Inr True), Saves (Some (sa Releasing)) (sa Complete)] \<and>
     LeaseID q = LeaseID (sa Releasing)" (is "\<exists>q. _ \<in> set ?xs \<and> _")
proof -
  have "lease_history sample_attach_env sample_reconciler ''a'' sample_lease_history"
    unfolding sample_lease_history_def by (intro sample_step_history) (simp add: lease_history.start)
  moreover have "returns_written sample_lease_history" by code_simp
  moreover have "sample_lease_history = ?xs @ Frees (sa Releasing) (Inr ()) # []" by (simp add: sample_history_eq)
  ultimately show ?thesis using lease_retired_in_order [of sample_attach_env sample_reconciler "''a''" sample_lease_history ?xs] by blast
qed


text \<open>C37: the order of publishing and withdrawing a gateway projection, whatever the API server, the resolver and the transport answer: the CNI transport falls
  back only when the mesh no longer carries the lease or the one worker recipient has acknowledged a mesh in which it is retiring; the projection is removed only after the
  transport is restored; an intent is retired only after the restoration and when every recipient has acknowledged the mesh without it; the transport is switched to the gateway only
  when every recipient has acknowledged the mesh with it.\<close>

theorem publication_order:
  assumes "gw_store p = Some (config_intent_store env client ns)"
    and "Publish env (log_gateway p) r (w, []) = (x, (w', es)) \<or> Withdraw env (log_gateway p) r (w, []) = (x, (w', es))"
    and "es = xs @ e # ys"
  shows "(\<forall>r' b. e = Restores_transport r' b \<longrightarrow> r' = r \<and> may_restore env (gw_apiVIP p) (gw_apiPort p) r xs) \<and>
    (\<forall>i n. e = Intent_saves (Some i) n \<and> pi_retired n \<and> \<not> pi_retired i \<longrightarrow> may_retire env (gw_apiVIP p) (gw_apiPort p) r xs i) \<and>
    (\<forall>r' b. e = Ensures_transport r' b \<longrightarrow> r' = r \<and> may_ensure env (gw_apiVIP p) (gw_apiPort p) r xs) \<and>
    (\<forall>m. e = Calls (On_secret (Updates m)) \<longrightarrow> may_project env r xs m)"
proof -
  have "permits (may_publish env (gw_apiVIP p) (gw_apiPort p) r) [] es"
    using assms(2) calls_run [OF config_intents.Publish_calls [OF assms(1), unfolded io_calls_def]]
      calls_run [OF config_intents.Withdraw_calls [OF assms(1), unfolded io_calls_def]] by blast
  with assms(3) have "may_publish env (gw_apiVIP p) (gw_apiPort p) r xs e" by simp
  then show ?thesis by (cases e) (auto split: option.splits elim: may_publish.elims)
qed

theorem publication_order_witness: "may_restore sample_attach_env ''vip'' ''6443'' (sa Withdrawing) sample_before"
proof -
  have "gw_store sample_publication = Some (config_intent_store sample_attach_env (Some sample_cluster) ''ns'')" "gw_apiVIP sample_publication = ''vip''"
    "gw_apiPort sample_publication = ''6443''" by (simp_all add: sample_publication_def)
  with publication_order [OF this(1) disjI2 [OF sample_withdrawal] refl] show ?thesis by simp
qed

end
