(* ===== verification/Withdrawal.thy ===== *)
theory Withdrawal
  imports Publication
begin

text \<open>
  The retirement of a worker's peer (\<open>withdraw_intent.go\<close>, \<open>withdraw_peer.go\<close>, \<open>peer_publication.go\<close>) and the drain of
  its node (\<open>drain.go\<close>).
\<close>

section \<open>Withdrawing a peer\<close>

record remote_withdrawal =
  rw_meshNamespace :: string
  rw_meshName :: string
  rw_meshUID :: string
  rw_sourceVersion :: string
  rw_sourceDataHash :: string
  rw_orphaned :: bool
  rw_machineName :: string
  rw_machineUID :: string
  rw_publicKey :: string
  rw_drainIntent :: string
  rw_consumers :: "consumer_target list"

definition withdrawalSourceDataHash :: "'a attach_env_scheme \<Rightarrow> mesh \<Rightarrow> string" where
  "withdrawalSourceDataHash env data = HashPeerList env (marshal_mesh env data)"

text \<open>The loop over the recipients: how many are the retiring worker itself, and the others.\<close>

fun survivors :: "string \<Rightarrow> attached_machine \<Rightarrow> string \<Rightarrow> consumer_target list \<Rightarrow> (nat \<times> consumer_target list) res" where
  "survivors name worker key [] = Inr (0, [])"
| "survivors name worker key (c # cs) =
     (if \<not> ct_site c \<and> ct_machineName c = name \<and> ct_nodeUID c = am_nodeUID worker \<and> ct_publicKey c = key
        then (case survivors name worker key cs of Inl e \<Rightarrow> Inl e | Inr (n, ts) \<Rightarrow> Inr (Suc n, ts))
      else if ct_nodeUID c = am_nodeUID worker \<or> ct_publicKey c = key then Inl (Error ''retiring identity overlaps a survivor'')
      else (case survivors name worker key cs of Inl e \<Rightarrow> Inl e | Inr (n, ts) \<Rightarrow> Inr (n, c # ts)))"

definition PrepareRemoteWithdrawal ::
  "'a attach_env_scheme \<Rightarrow> 'w consumer_resolver \<Rightarrow> string \<Rightarrow> attached_machine \<Rightarrow> string \<Rightarrow> ('w, remote_withdrawal) io" where
  "PrepareRemoteWithdrawal env r name worker drainIntent =
     (case cr_reader r of
        None \<Rightarrow> io_lift (Inl (Error ''mesh, bound worker and drain intent required''))
      | Some c \<Rightarrow>
          io_bind (io_lift (guard (cr_namespace r \<noteq> [] \<and> cr_secretName r \<noteq> [] \<and> cr_secretUID r \<noteq> [] \<and> name \<noteq> [] \<and> am_uid worker \<noteq> [] \<and>
                     am_nodeUID worker \<noteq> [] \<and> am_providerID worker \<noteq> [] \<and> drainIntent \<noteq> []) ''mesh, bound worker and drain intent required'')) (\<lambda>_.
          io_bind (api_io (r_get (k_secrets c) (cr_namespace r, cr_secretName r))) (\<lambda>m.
          io_bind (io_lift (guard (om_uid m = cr_secretUID r \<and> \<not> deleting m) ''mesh identity changed'')) (\<lambda>_.
          io_bind (api_io (r_get (k_machines c) (cr_namespace r, name))) (\<lambda>machine.
          io_bind (io_lift (guard (om_uid machine = am_uid worker \<and> annotation machine DrainIntentAnnotation = drainIntent \<and> \<not> deleting machine)
                     ''retiring Machine identity or drain intent changed'')) (\<lambda>_.
          io_bind (resolveTargets env c (cr_namespace r) (ks_data m) [worker]) (\<lambda>(consumers, keys).
          let key = key_of keys (am_uid worker) in
          io_bind (io_lift (guard (key \<noteq> [] \<and> field (ks_data m) (PeerPublicKeyPrefix @ name) = key) ''retiring peer identity missing'')) (\<lambda>_.
          io_bind (io_lift (survivors name worker key consumers)) (\<lambda>(removed, rest).
          io_bind (io_lift (guard (removed = 1 \<and> rest \<noteq> []) ''exact retiring peer and surviving consumers required'')) (\<lambda>_.
          io_bind (api_io (r_get (k_secrets c) (object_key m))) (\<lambda>final.
          io_bind (io_lift (guard (same_revision_as final m \<and> \<not> deleting final) ''mesh changed while capturing withdrawal recipients'')) (\<lambda>_.
          io_lift (Inr \<lparr>rw_meshNamespace = om_namespace m, rw_meshName = om_name m, rw_meshUID = om_uid m, rw_sourceVersion = om_resourceVersion m,
            rw_sourceDataHash = withdrawalSourceDataHash env (ks_data m), rw_orphaned = False, rw_machineName = name, rw_machineUID = am_uid worker,
            rw_publicKey = key, rw_drainIntent = drainIntent, rw_consumers = rest\<rparr>)))))))))))))"

definition PublishRemoteWithdrawal :: "'w cluster option \<Rightarrow> kube_secret \<Rightarrow> string \<Rightarrow> string \<Rightarrow> ('w, kube_secret) io" where
  "PublishRemoteWithdrawal api m name key =
     (case api of
        None \<Rightarrow> io_lift (Inl (Error ''live persisted mesh snapshot required''))
      | Some c \<Rightarrow>
          io_bind (io_lift (guard (om_uid m \<noteq> [] \<and> om_resourceVersion m \<noteq> [] \<and> om_namespace m \<noteq> [] \<and> om_name m \<noteq> [] \<and> \<not> deleting m)
                     ''live persisted mesh snapshot required'')) (\<lambda>_.
          io_bind (io_lift (WithdrawRemotePeer (ks_data m) name key)) (\<lambda>(data, _).
          api_io (r_update (k_secrets c) (m\<lparr>ks_data := data\<rparr>)))))"

definition CheckPeerPublication :: "'w cluster \<Rightarrow> machine \<Rightarrow> ('w, unit) io" where
  "CheckPeerPublication c observed =
     io_bind (io_lift (guard (om_uid observed \<noteq> []) ''persisted Machine identity required for peer publication'')) (\<lambda>_.
     io_bind (api_io (r_get (k_machines c) (object_key observed))) (\<lambda>current.
     io_bind (io_lift (guard (om_uid current = om_uid observed) ''Machine identity changed before peer publication'')) (\<lambda>_.
     io_lift (guard (\<not> deleting current \<and> annotation current DrainIntentAnnotation = []) ''Machine is retiring; peer publication refused''))))"

section \<open>Draining a node\<close>

definition MirrorPodAnnotationKey :: string where "MirrorPodAnnotationKey = ''kubernetes.io/config.mirror''"

definition DrainPodExempt :: "kube_pod \<Rightarrow> bool" where
  "DrainPodExempt pod =
     (kp_phase pod = ''Succeeded'' \<or> kp_phase pod = ''Failed'' \<or> annotation pod MirrorPodAnnotationKey \<noteq> [] \<or>
      (case GetControllerOf pod of None \<Rightarrow> False | Some owner \<Rightarrow> ow_apiVersion owner = ''apps/v1'' \<and> ow_kind owner = ''DaemonSet''))"

definition podLess :: "kube_pod \<Rightarrow> kube_pod \<Rightarrow> bool" where
  "podLess a b = (om_namespace a @ ''/'' @ om_name a < om_namespace b @ ''/'' @ om_name b)"

text \<open>An eviction that has to wait, or whose pod is gone, is no error.\<close>

definition evict :: "'w cluster \<Rightarrow> kube_pod \<Rightarrow> ('w, bool) io" where
  "evict c pod w =
     (case k_evict c pod w of
        (Inr _, w') \<Rightarrow> (Inr False, w')
      | (Inl (TooManyRequests _), w') \<Rightarrow> (Inr False, w')
      | (Inl (NotFound _), w') \<Rightarrow> (Inr False, w')
      | (Inl e, w') \<Rightarrow> (Inl (api_message e), w'))"

fun drain_pods :: "'w cluster \<Rightarrow> string \<Rightarrow> kube_pod list \<Rightarrow> ('w, bool) io" where
  "drain_pods c name [] = io_lift (Inr True)"
| "drain_pods c name (pod # pods) =
     (if kp_nodeName pod \<noteq> name then io_lift (Inl (Error ''pod list returned a different node''))
      else if DrainPodExempt pod then drain_pods c name pods
      else if deleting pod then io_lift (Inr False)
      else if om_uid pod = [] then io_lift (Inl (Error ''pod UID required for eviction''))
      else evict c pod)"

definition DrainNode :: "'w cluster option \<Rightarrow> string \<Rightarrow> string \<Rightarrow> ('w, bool) io" where
  "DrainNode api name uid =
     (case api of
        None \<Rightarrow> io_lift (Inl (Error ''workload API and node identity required''))
      | Some c \<Rightarrow>
          io_bind (io_lift (guard (name \<noteq> [] \<and> uid \<noteq> []) ''workload API and node identity required'')) (\<lambda>_.
          io_bind (api_io (r_get (k_nodes c) ([], name))) (\<lambda>node.
          io_bind (io_lift (guard (om_uid node = uid \<and> \<not> deleting node) ''drain node identity changed or is deleting'')) (\<lambda>_.
          if \<not> kn_unschedulable node
            then io_bind (api_io (r_update (k_nodes c) (node\<lparr>kn_unschedulable := True\<rparr>))) (\<lambda>_. io_lift (Inr False))
          else
            io_bind (api_io (r_list (k_pods c) \<lparr>lo_namespace = [], lo_label = None, lo_field = Some (''spec.nodeName'', name)\<rparr>)) (\<lambda>pods.
            drain_pods c name (sort_by podLess pods))))))"

end
