(* ===== verification/Node_Group.thy ===== *)
theory Node_Group
  imports Withdrawal
begin

text \<open>
  A group of worker claims (\<open>controller/pkg/nodegroup\<close>): the plan of one change of capacity (\<open>plan.go\<close>), the identity of
  a child claim (\<open>children.go\<close>), the reservation of an action in the group's status (\<open>action.go\<close>) and the creation
  of a child (\<open>create.go\<close>, \<open>cancel_creation.go\<close>).
\<close>

section \<open>The plan\<close>

record group_child =
  gc_name :: string
  gc_ownerUID :: string
  gc_ordinal :: int
  gc_terminating :: bool
  gc_draining :: bool

definition zero_child :: group_child where
  "zero_child = \<lparr>gc_name = [], gc_ownerUID = [], gc_ordinal = 0, gc_terminating = False, gc_draining = False\<rparr>"

record group_plan =
  np_createOrdinal :: "int option"
  np_drain :: string
  np_waiting :: bool

text \<open>The loop over the children: the slots they use and whether one is leaving.\<close>

fun admit_children :: "string \<Rightarrow> int list \<Rightarrow> string list \<Rightarrow> bool \<Rightarrow> group_child list \<Rightarrow> (int list \<times> bool) res" where
  "admit_children owner slots names waiting [] = Inr (slots, waiting)"
| "admit_children owner slots names waiting (c # cs) =
     (if gc_name c = [] \<or> gc_ownerUID c \<noteq> owner \<or> gc_ordinal c < 0 \<or> gc_ordinal c \<in> set slots \<or> gc_name c \<in> set names
        then Inl (Error ''invalid or foreign child identity'')
      else admit_children owner (gc_ordinal c # slots) (gc_name c # names) (waiting \<or> gc_terminating c \<or> gc_draining c) cs)"

definition select_child :: "group_child list \<Rightarrow> group_child" where
  "select_child cs = fold (\<lambda>c selected. if gc_name selected = [] \<or> gc_ordinal selected < gc_ordinal c then c else selected) cs zero_child"

text \<open>The loop that looks for a free slot ends because the used slots are finitely many.\<close>

function free_slot :: "int list \<Rightarrow> int \<Rightarrow> int" where
  "free_slot slots ordinal = (if ordinal \<in> set slots then free_slot slots (ordinal + 1) else ordinal)"
  by pat_completeness auto
termination
proof (relation "measure (\<lambda>(slots, n). card {m \<in> set slots. n \<le> m})", goal_cases)
  case 1
  show ?case by simp
next
  case (2 slots n)
  have "{m \<in> set slots. n + 1 \<le> m} \<subset> {m \<in> set slots. n \<le> m}" (is "?a \<subset> ?b")
  proof
    show "?a \<subseteq> ?b" by auto
    have "n \<in> ?b" "n \<notin> ?a" using 2 by simp_all
    then show "?a \<noteq> ?b" by blast
  qed
  then show ?case by (simp add: psubset_card_mono)
qed

declare free_slot.simps [simp del]

definition Next :: "string \<Rightarrow> int \<Rightarrow> group_child list \<Rightarrow> group_plan res" where
  "Next owner replicas children =
     (if owner = [] \<or> replicas < 0 then Inl (Error ''owner UID and nonnegative replicas required'')
      else
        (case admit_children owner [] [] False children of
           Inl e \<Rightarrow> Inl e
         | Inr (slots, waiting) \<Rightarrow>
             if waiting then Inr \<lparr>np_createOrdinal = None, np_drain = [], np_waiting = True\<rparr>
             else if replicas < int (length children)
               then Inr \<lparr>np_createOrdinal = None, np_drain = gc_name (select_child children), np_waiting = False\<rparr>
             else if int (length children) < replicas
               then Inr \<lparr>np_createOrdinal = Some (free_slot slots 0), np_drain = [], np_waiting = False\<rparr>
             else Inr \<lparr>np_createOrdinal = None, np_drain = [], np_waiting = False\<rparr>))"

section \<open>Children\<close>

text \<open>
  The validators of Kubernetes, the conversion of a label selector and the format of a Secret's name are parameters.
\<close>

record group_env = attach_env +
  IsValidLabelValue :: "string \<Rightarrow> bool"
  IsDNS1123Subdomain :: "string \<Rightarrow> bool"
  IsDNS1123Label :: "string \<Rightarrow> bool"
  selector_string :: "string \<Rightarrow> string res"
  Sprintf :: "string \<Rightarrow> string \<Rightarrow> string"

definition GroupVersion :: string where "GroupVersion = ''cloud-provisioning.appmana.com/v1alpha1''"
definition GroupUIDLabel :: string where "GroupUIDLabel = ''cloud-provisioning.appmana.com/node-group-uid''"
definition OrdinalAnnotation :: string where "OrdinalAnnotation = ''cloud-provisioning.appmana.com/node-group-ordinal''"
definition ActionAnnotation :: string where "ActionAnnotation = ''cloud-provisioning.appmana.com/node-group-action''"
definition ClaimAnnotation :: string where "ClaimAnnotation = ''cloud-provisioning.appmana.com/claim''"
definition ClaimUIDAnnotation :: string where "ClaimUIDAnnotation = ''cloud-provisioning.appmana.com/claim-uid''"
definition ClaimFinalizer :: string where "ClaimFinalizer = ''cloud-provisioning.appmana.com/claim''"
definition GroupFinalizer :: string where "GroupFinalizer = ''cloud-provisioning.appmana.com/node-group''"
definition CreateAction :: string where "CreateAction = ''Create''"
definition DrainAction :: string where "DrainAction = ''Drain''"

text \<open>\<open>strconv.Itoa\<close> and \<open>strconv.Atoi\<close>.\<close>

definition Itoa :: "int \<Rightarrow> string" where
  "Itoa n = (if n < 0 then CHR ''-'' # show_nat (- n) else show_nat n)"

definition Atoi :: "string \<Rightarrow> int option" where
  "Atoi s =
     (let negative = (case s of c # _ \<Rightarrow> c = CHR ''-'' | [] \<Rightarrow> False);
          body = (case s of c # t \<Rightarrow> if c = CHR ''-'' \<or> c = CHR ''+'' then t else s | [] \<Rightarrow> []) in
      if body = [] then None
      else
        (case digits 0 body of
           None \<Rightarrow> None
         | Some n \<Rightarrow> let v = if negative then - n else n in if - (2 ^ 63) \<le> v \<and> v < 2 ^ 63 then Some v else None))"

definition name_prefix :: "string \<Rightarrow> string" where
  "name_prefix name =
     (let p = map (\<lambda>c. if c = CHR ''.'' then CHR ''-'' else c) name in
      rev (dropWhile (\<lambda>c. c = CHR ''-'') (rev (if 30 < length p then take 30 p else p))))"

definition childName :: "'a group_env_scheme \<Rightarrow> node_group \<Rightarrow> int \<Rightarrow> string res" where
  "childName env grp ordinal =
     (if om_uid grp = [] \<or> \<not> IsValidLabelValue env (om_uid grp) \<or> \<not> IsDNS1123Subdomain env (om_name grp) \<or>
         \<not> IsDNS1123Label env (om_namespace grp) \<or> ordinal < 0 \<or> 2147483647 < ordinal
        then Inl (Error ''group identity and a nonnegative int32 ordinal required'')
      else Inr (name_prefix (om_name grp) @ ''-'' @ hex_encode (take 8 (sha256 env (om_uid grp))) @ ''-'' @ Itoa ordinal))"

definition group_owner :: "node_group \<Rightarrow> owner_ref" where
  "group_owner grp =
     \<lparr>ow_apiVersion = GroupVersion, ow_kind = ''ProvisionedNodeGroupClaim'', ow_name = om_name grp, ow_uid = om_uid grp, ow_controller = True\<rparr>"

definition BuildChild :: "'a group_env_scheme \<Rightarrow> node_group \<Rightarrow> int \<Rightarrow> node_claim res" where
  "BuildChild env grp ordinal =
     (case childName env grp ordinal of
        Inl e \<Rightarrow> Inl e
      | Inr name \<Rightarrow>
          if deleting grp then Inl (Error ''cannot provision for a deleting group'')
          else
            Inr \<lparr>om_name = name, om_namespace = om_namespace grp, om_uid = [], om_resourceVersion = [], om_generation = 0,
                 om_deletionTimestamp = None, om_labels = Mapping.update GroupUIDLabel (om_uid grp) Mapping.empty,
                 om_annotations = Mapping.update OrdinalAnnotation (Itoa ordinal) Mapping.empty, om_finalizers = [],
                 om_owners = [group_owner grp], nc_spec = ng_template grp, nc_machineName = []\<rparr>)"

definition child_of :: "node_group \<Rightarrow> string \<Rightarrow> node_claim \<Rightarrow> bool" where
  "child_of grp name child =
     (case GetControllerOf child of
        None \<Rightarrow> False
      | Some owner \<Rightarrow>
          ow_apiVersion owner = GroupVersion \<and> ow_kind owner = ''ProvisionedNodeGroupClaim'' \<and> ow_name owner = om_name grp \<and>
          ow_uid owner = om_uid grp \<and> om_namespace child = om_namespace grp \<and> om_name child = name \<and>
          label child GroupUIDLabel = om_uid grp)"

definition ObserveChild :: "'a group_env_scheme \<Rightarrow> node_group \<Rightarrow> node_claim \<Rightarrow> group_child res" where
  "ObserveChild env grp child =
     (if om_uid child = [] then Inl (Error ''persisted group and child required'')
      else
        (case Atoi (annotation child OrdinalAnnotation) of
           None \<Rightarrow> Inl (Error ''invalid child ordinal'')
         | Some ordinal \<Rightarrow>
             if Itoa ordinal \<noteq> annotation child OrdinalAnnotation then Inl (Error ''invalid child ordinal'')
             else
               (case childName env grp ordinal of
                  Inl e \<Rightarrow> Inl e
                | Inr name \<Rightarrow>
                    if \<not> child_of grp name child then Inl (Error ''child does not belong to this group'')
                    else
                      Inr \<lparr>gc_name = om_name child, gc_ownerUID = om_uid grp, gc_ordinal = ordinal, gc_terminating = deleting child,
                           gc_draining = False\<rparr>)))"

fun observe_children :: "'a group_env_scheme \<Rightarrow> node_group \<Rightarrow> node_claim list \<Rightarrow> group_child list res" where
  "observe_children env grp [] = Inr []"
| "observe_children env grp (c # cs) =
     (case ObserveChild env grp c of
        Inl e \<Rightarrow> Inl e
      | Inr x \<Rightarrow> (case observe_children env grp cs of Inl e \<Rightarrow> Inl e | Inr xs \<Rightarrow> Inr (x # xs)))"

text \<open>\<open>claim.MachineOwnedByClaim\<close>.\<close>

definition MachineOwnedByClaim :: "machine \<Rightarrow> node_claim \<Rightarrow> bool" where
  "MachineOwnedByClaim m cl =
     (om_uid cl \<noteq> [] \<and> om_name m = om_name cl \<and> om_namespace m = om_namespace cl \<and>
      (let name = Mapping.lookup (om_annotations m) ClaimAnnotation; uid = Mapping.lookup (om_annotations m) ClaimUIDAnnotation;
           bound = (name = Some (om_namespace cl @ ''/'' @ om_name cl) \<and> uid = Some (om_uid cl));
           owners = filter (\<lambda>x. ow_kind x = ''ProvisionedNodeClaim'') (om_owners m) in
       \<not> ((name \<noteq> None \<or> uid \<noteq> None) \<and> \<not> bound) \<and>
       list_all (\<lambda>x. ow_apiVersion x = GroupVersion \<and> ow_name x = om_name cl \<and> ow_uid x = om_uid cl) owners \<and>
       (name \<noteq> None \<and> uid \<noteq> None \<or> owners \<noteq> [])))"

section \<open>Actions\<close>

definition zero_action :: group_action where
  "zero_action =
     \<lparr>ga_bootstrapCancellation = None, ga_removing = False, ga_withdrawal = None, ga_gateways = None, ga_nodeName = [], ga_nodeUID = [],
      ga_machineUID = [], ga_providerID = [], ga_id = [], ga_type = [], ga_generation = 0, ga_ordinal = 0, ga_childName = [], ga_childUID = [],
      ga_template = None\<rparr>"

definition desired_replicas :: "node_group \<Rightarrow> int" where
  "desired_replicas grp = (if deleting grp then 0 else case ng_replicas grp of None \<Rightarrow> 1 | Some n \<Rightarrow> n)"

text \<open>The last child of that name wins.\<close>

definition drain_action :: "string \<Rightarrow> int \<Rightarrow> string \<Rightarrow> (group_child \<times> node_claim) list \<Rightarrow> group_action" where
  "drain_action fresh gen name cs =
     fold (\<lambda>(c, cl) a. if gc_name c = name then a\<lparr>ga_ordinal := int32 (gc_ordinal c), ga_childUID := om_uid cl\<rparr> else a) cs
       (zero_action\<lparr>ga_id := fresh, ga_generation := gen, ga_type := DrainAction, ga_childName := name\<rparr>)"

text \<open>\<open>uuid.NewUUID()\<close> is the argument \<open>fresh\<close>.\<close>

definition ProposeAction :: "'a group_env_scheme \<Rightarrow> string \<Rightarrow> node_group \<Rightarrow> node_claim list \<Rightarrow> group_action option res" where
  "ProposeAction env fresh grp claims =
     (if om_resourceVersion grp = [] \<or> om_generation grp < 1 then Inl (Error ''persisted group required'')
      else
        (case childName env grp 0 of
           Inl e \<Rightarrow> Inl e
         | Inr _ \<Rightarrow>
             if ng_pendingAction grp \<noteq> None then Inl (Error ''resume pending action before planning'')
             else
               (case observe_children env grp claims of
                  Inl e \<Rightarrow> Inl e
                | Inr children \<Rightarrow>
                    (case Next (om_uid grp) (desired_replicas grp) children of
                       Inl e \<Rightarrow> Inl e
                     | Inr plan \<Rightarrow>
                         (case np_createOrdinal plan of
                            Some ordinal \<Rightarrow>
                              (case BuildChild env grp ordinal of
                                 Inl e \<Rightarrow> Inl e
                               | Inr child \<Rightarrow>
                                   Inr (Some (zero_action\<lparr>ga_id := fresh, ga_generation := om_generation grp, ga_type := CreateAction,
                                     ga_ordinal := int32 ordinal, ga_childName := om_name child, ga_template := Some (nc_spec child)\<rparr>)))
                          | None \<Rightarrow>
                              if np_drain plan = [] then Inr None
                              else Inr (Some (drain_action fresh (om_generation grp) (np_drain plan) (zip children claims))))))))"

text \<open>The status of a group with another action; the answer of the API must have kept it.\<close>

definition put_action :: "'w cluster \<Rightarrow> node_group \<Rightarrow> group_action option \<Rightarrow> string \<Rightarrow> ('w, node_group) io" where
  "put_action c grp action msg =
     io_bind (api_io (r_status (k_groups c) (grp\<lparr>ng_pendingAction := action\<rparr>))) (\<lambda>candidate.
     io_bind (io_lift (guard (ng_pendingAction candidate = action) msg)) (\<lambda>_.
     io_lift (Inr candidate)))"

definition new_reservation :: "group_action \<Rightarrow> bool" where
  "new_reservation a =
     (\<not> ga_removing a \<and> ga_withdrawal a = None \<and> ga_gateways a = None \<and> ga_nodeName a = [] \<and> ga_nodeUID a = [] \<and> ga_machineUID a = [] \<and>
      ga_providerID a = [])"

definition admissible_action :: "node_group \<Rightarrow> group_action \<Rightarrow> unit res" where
  "admissible_action grp a =
     (if ga_type a = CreateAction
        then guard (ga_template a = Some (ng_template grp) \<and> ga_childUID a = [] \<and> \<not> deleting grp) ''invalid creation intent''
      else if ga_type a = DrainAction then guard (ga_template a = None \<and> ga_childUID a \<noteq> []) ''drain must identify an existing child''
      else Inl (Error ''unknown action type''))"

definition ReserveAction :: "'a group_env_scheme \<Rightarrow> 'w cluster option \<Rightarrow> node_group \<Rightarrow> group_action \<Rightarrow> ('w, node_group) io" where
  "ReserveAction env writer grp action =
     (case writer of
        None \<Rightarrow> io_lift (Inl (Error ''invalid action reservation''))
      | Some c \<Rightarrow>
          io_bind (io_lift (guard (om_resourceVersion grp \<noteq> [] \<and> ng_pendingAction grp = None \<and> ga_generation action = om_generation grp \<and>
                     1 \<le> ga_generation action \<and> ga_id action \<noteq> []) ''invalid action reservation'')) (\<lambda>_.
          io_bind (io_lift (guard (new_reservation action) ''new reservation must resolve its target separately'')) (\<lambda>_.
          io_bind (io_lift (childName env grp (ga_ordinal action))) (\<lambda>name.
          io_bind (io_lift (guard (name = ga_childName action) ''action has a different child identity'')) (\<lambda>_.
          io_bind (io_lift (admissible_action grp action)) (\<lambda>_.
          put_action c grp (Some action) ''persisted action differs from requested intent''))))))"

section \<open>Creation\<close>

definition creation_pending :: "node_group \<Rightarrow> group_action \<Rightarrow> claim_spec option" where
  "creation_pending grp a =
     (if ga_type a = CreateAction \<and> ga_childUID a = [] \<and> 1 \<le> ga_generation a \<and> ga_generation a \<le> om_generation grp then ga_template a else None)"

text \<open>The child, found or created; another worker may have created it in between.\<close>

definition obtain_child :: "'w cluster \<Rightarrow> node_group \<Rightarrow> node_claim \<Rightarrow> ('w, node_claim) io" where
  "obtain_child c grp expected =
     io_bind (api_find (r_get (k_claims c) (object_key expected))) (\<lambda>found.
     case found of
       Some actual \<Rightarrow> io_lift (Inr actual)
     | None \<Rightarrow>
         if deleting grp then io_lift (Inl (Error ''deleting group has an unfulfilled creation reservation''))
         else
           run_then (r_create (k_claims c) expected) (\<lambda>created.
             case created of
               Inl (AlreadyExists _) \<Rightarrow> api_io (r_get (k_claims c) (object_key expected))
             | Inl e \<Rightarrow> io_lift (Inl (api_message e))
             | Inr actual \<Rightarrow> io_lift (Inr actual)))"

definition ResumeCreation ::
  "'a group_env_scheme \<Rightarrow> 'w cluster option \<Rightarrow> object_key \<Rightarrow> string \<Rightarrow> string \<Rightarrow> ('w, node_claim) io" where
  "ResumeCreation env api key groupUID actionID =
     (case api of
        None \<Rightarrow> io_lift (Inl (Error ''API client and reserved identity required''))
      | Some c \<Rightarrow>
          io_bind (io_lift (guard (groupUID \<noteq> [] \<and> actionID \<noteq> []) ''API client and reserved identity required'')) (\<lambda>_.
          io_bind (api_io (r_get (k_groups c) key)) (\<lambda>grp.
          case ng_pendingAction grp of
            None \<Rightarrow> io_lift (Inl (Error ''creation reservation does not match live group''))
          | Some action \<Rightarrow>
              (case creation_pending grp action of
                 None \<Rightarrow> io_lift (Inl (Error ''creation reservation does not match live group''))
               | Some template \<Rightarrow>
                   io_bind (io_lift (guard (om_uid grp = groupUID \<and> ga_id action = actionID) ''creation reservation does not match live group'')) (\<lambda>_.
                   io_bind (io_lift (BuildChild env (grp\<lparr>om_deletionTimestamp := None, ng_template := template\<rparr>) (ga_ordinal action))) (\<lambda>built.
                   io_bind (io_lift (guard (om_name built = ga_childName action) ''reserved child name does not match group'')) (\<lambda>_.
                   io_bind (obtain_child c grp (built\<lparr>om_annotations := Mapping.update ActionAnnotation (ga_id action) (om_annotations built)\<rparr>)) (\<lambda>actual.
                   io_bind (io_lift (ObserveChild env grp actual)) (\<lambda>_.
                   io_bind (io_lift (guard (annotation actual ActionAnnotation = ga_id action \<and> nc_spec actual = template)
                              ''existing child differs from reserved creation'')) (\<lambda>_.
                   io_bind (io_lift (guard (\<not> deleting actual) ''reserved child is terminating'')) (\<lambda>_.
                   io_lift (Inr actual))))))))))))"

definition CompleteCreation :: "'a group_env_scheme \<Rightarrow> 'w cluster option \<Rightarrow> node_group \<Rightarrow> string \<Rightarrow> ('w, node_group) io" where
  "CompleteCreation env api grp childUID =
     (case api of
        None \<Rightarrow> io_lift (Inl (Error ''persisted group and child UID required''))
      | Some c \<Rightarrow>
          io_bind (io_lift (guard (om_resourceVersion grp \<noteq> [] \<and> childUID \<noteq> []) ''persisted group and child UID required'')) (\<lambda>_.
          case ng_pendingAction grp of
            None \<Rightarrow> io_lift (Inl (Error ''pending creation required''))
          | Some action \<Rightarrow>
              (case creation_pending grp action of
                 None \<Rightarrow> io_lift (Inl (Error ''pending creation required''))
               | Some template \<Rightarrow>
                   io_bind (io_lift (guard (ga_id action \<noteq> []) ''pending creation required'')) (\<lambda>_.
                   io_bind (io_lift (childName env grp (ga_ordinal action))) (\<lambda>name.
                   io_bind (io_lift (guard (name = ga_childName action) ''reserved child name does not match group'')) (\<lambda>_.
                   io_bind (api_io (r_get (k_claims c) (om_namespace grp, name))) (\<lambda>child.
                   io_bind (io_lift (ObserveChild env grp child)) (\<lambda>_.
                   io_bind (io_lift (guard (om_uid child = childUID \<and> annotation child ActionAnnotation = ga_id action \<and> nc_spec child = template \<and>
                              \<not> deleting child) ''child does not confirm reserved creation'')) (\<lambda>_.
                   api_io (r_status (k_groups c) (grp\<lparr>ng_pendingAction := None\<rparr>)))))))))))"

definition draining_child :: "node_group \<Rightarrow> node_claim \<Rightarrow> bool" where
  "draining_child grp child =
     (case ng_pendingAction grp of None \<Rightarrow> False | Some a \<Rightarrow> ga_type a = DrainAction \<and> ga_childUID a = om_uid child)"

definition delete_exactly :: "('w, 'o object_meta_scheme) resource \<Rightarrow> 'o object_meta_scheme \<Rightarrow> ('w, unit option) io" where
  "delete_exactly r obj = api_find (r_delete r obj (Some (om_uid obj)) (Some (om_resourceVersion obj)))"

text \<open>A deletion the API refuses as not found ends the scan without a change.\<close>

fun cancel_unstarted :: "'a group_env_scheme \<Rightarrow> 'w cluster \<Rightarrow> node_group \<Rightarrow> node_claim list \<Rightarrow> ('w, bool) io" where
  "cancel_unstarted env c grp [] = io_lift (Inr False)"
| "cancel_unstarted env c grp (child # children) =
     io_bind (io_lift (ObserveChild env grp child)) (\<lambda>_.
     if deleting child \<or> ClaimFinalizer \<in> set (om_finalizers child) \<or> draining_child grp child then cancel_unstarted env c grp children
     else io_bind (delete_exactly (k_claims c) child) (\<lambda>deleted. io_lift (Inr (deleted \<noteq> None))))"

definition cancelUnstartedChildren :: "'a group_env_scheme \<Rightarrow> 'w cluster \<Rightarrow> node_group \<Rightarrow> node_claim list \<Rightarrow> ('w, bool) io" where
  "cancelUnstartedChildren env c grp children =
     (if \<not> deleting grp then io_lift (Inr False) else cancel_unstarted env c grp children)"

text \<open>The group as the API has it now, when it is still the one that was read.\<close>

definition unchanged_group :: "'w cluster \<Rightarrow> node_group \<Rightarrow> bool \<Rightarrow> string \<Rightarrow> ('w, node_group) io" where
  "unchanged_group c grp with_action msg =
     io_bind (api_io (r_get (k_groups c) (object_key grp))) (\<lambda>current.
     io_bind (io_lift (guard (om_uid current = om_uid grp \<and> om_resourceVersion current = om_resourceVersion grp \<and>
                (with_action \<longrightarrow> ng_pendingAction current = ng_pendingAction grp)) msg)) (\<lambda>_.
     io_lift (Inr current)))"

definition clear_action :: "'w cluster \<Rightarrow> node_group \<Rightarrow> string \<Rightarrow> ('w, bool) io" where
  "clear_action c grp msg = io_bind (put_action c grp None msg) (\<lambda>_. io_lift (Inr True))"

definition CancelUnfulfilledCreation :: "'a group_env_scheme \<Rightarrow> 'w cluster option \<Rightarrow> node_group \<Rightarrow> ('w, bool) io" where
  "CancelUnfulfilledCreation env api grp =
     (case api of
        None \<Rightarrow> io_lift (Inl (Error ''persisted deleting group required''))
      | Some c \<Rightarrow>
          io_bind (io_lift (guard (om_uid grp \<noteq> [] \<and> om_resourceVersion grp \<noteq> [] \<and> deleting grp) ''persisted deleting group required'')) (\<lambda>_.
          case ng_pendingAction grp of
            None \<Rightarrow> io_lift (Inl (Error ''unfulfilled creation reservation required''))
          | Some a \<Rightarrow>
              io_bind (io_lift (guard (creation_pending grp a \<noteq> None \<and> ga_id a \<noteq> []) ''unfulfilled creation reservation required'')) (\<lambda>_.
              io_bind (io_lift (childName env grp (ga_ordinal a))) (\<lambda>name.
              io_bind (io_lift (guard (name = ga_childName a) ''reserved child identity changed'')) (\<lambda>_.
              io_bind (unchanged_group c grp True ''creation cancellation intent changed'') (\<lambda>current.
              io_bind (io_lift (guard (deleting current) ''creation cancellation intent changed'')) (\<lambda>_.
              io_bind (api_find (r_get (k_claims c) (om_namespace grp, name))) (\<lambda>child.
              if child \<noteq> None then io_lift (Inr False)
              else clear_action c grp ''API did not retain creation cancellation''))))))))"

end
