(* ===== verification/Node_Removal.thy ===== *)
theory Node_Removal
  imports Node_Group Inventory
begin

text \<open>
  The removal of a child (\<open>target.go\<close>, \<open>gateways.go\<close>, \<open>freeze.go\<close>, \<open>withdrawal.go\<close>, \<open>remove.go\<close>,
  \<open>receive_withdrawal.go\<close>, \<open>receive_withdrawal_authority.go\<close>), the requests of \<open>attachment/runtime\<close> it retires
  (\<open>inventory.go\<close>, \<open>retire.go\<close>) and the cancellation of a join that has not started (\<open>cancel_bootstrap.go\<close>). A Machine is
  read under the group, version and kind the reconciler is configured with.
\<close>

section \<open>The target of a drain\<close>

record machine_kind =
  gv_group :: string
  gv_version :: string
  gv_kind :: string

definition capi_scope :: "machine_kind \<Rightarrow> bool" where
  "capi_scope gvk =
     (gv_group gvk = ''cluster.x-k8s.io'' \<and> gv_kind gvk = ''Machine'' \<and> (gv_version gvk = ''v1beta1'' \<or> gv_version gvk = ''v1beta2''))"

definition persistDrainTarget :: "'w cluster \<Rightarrow> node_group \<Rightarrow> group_action \<Rightarrow> ('w, node_group) io" where
  "persistDrainTarget c grp target =
     (if ng_pendingAction grp = Some target then io_lift (Inr grp)
      else put_action c grp (Some target) ''API did not retain drain target'')"

text \<open>The child and Machine of the action, as long as they are the ones it was bound to.\<close>

definition drain_machine :: "'a group_env_scheme \<Rightarrow> 'w cluster \<Rightarrow> node_group \<Rightarrow> group_action \<Rightarrow> ('w, machine) io" where
  "drain_machine env c grp a =
     io_bind (api_io (r_get (k_claims c) (om_namespace grp, ga_childName a))) (\<lambda>child.
     io_bind (io_lift (ObserveChild env grp child)) (\<lambda>observed.
     io_bind (io_lift (guard (om_uid child = ga_childUID a \<and> gc_ordinal observed = ga_ordinal a \<and> \<not> gc_terminating observed) ''drain child changed'')) (\<lambda>_.
     io_bind (api_io (r_get (k_machines c) (om_namespace grp, ga_childName a))) (\<lambda>m.
     io_bind (io_lift (guard (MachineOwnedByClaim m child \<and> om_uid m \<noteq> [] \<and> \<not> deleting m) ''CAPI Machine ownership missing or changed'')) (\<lambda>_.
     io_bind (io_lift (guard (ga_machineUID a = [] \<or> ga_machineUID a = om_uid m) ''persisted drain Machine changed'')) (\<lambda>_.
     io_bind (io_lift (guard (ga_providerID a = [] \<or> ga_providerID a = mc_providerID m) ''persisted drain provider changed'')) (\<lambda>_.
     io_lift (Inr m))))))))"

definition bound_machine :: "group_action \<Rightarrow> machine \<Rightarrow> group_action" where
  "bound_machine a m = a\<lparr>ga_machineUID := om_uid m, ga_providerID := mc_providerID m\<rparr>"

definition bound_node :: "group_action \<Rightarrow> machine \<Rightarrow> kube_node \<Rightarrow> group_action" where
  "bound_node a m node = (bound_machine a m)\<lparr>ga_nodeName := node_ref m ''name'', ga_nodeUID := om_uid node\<rparr>"

definition node_association :: "machine \<Rightarrow> kube_node \<Rightarrow> bool" where
  "node_association m node =
     (om_uid node \<noteq> [] \<and> (node_ref m ''uid'' = [] \<or> node_ref m ''uid'' = om_uid node) \<and> kn_providerID node = mc_providerID m \<and> \<not> deleting node)"

text \<open>\<open>False\<close> stands for the error \<open>errUnresolvedNode\<close>, which comes with the bound group.\<close>

definition BindDrainNode ::
  "'a group_env_scheme \<Rightarrow> 'w cluster option \<Rightarrow> 'w cluster option \<Rightarrow> machine_kind \<Rightarrow> node_group \<Rightarrow> ('w, node_group \<times> bool) io" where
  "BindDrainNode env management workload gvk grp =
     (case (management, workload) of
        (Some c, Some wl) \<Rightarrow>
          io_bind (io_lift (guard (om_resourceVersion grp \<noteq> [] \<and> capi_scope gvk) ''group and CAPI/workload API scope required'')) (\<lambda>_.
          case ng_pendingAction grp of
            None \<Rightarrow> io_lift (Inl (Error ''reserved drain required''))
          | Some a \<Rightarrow>
              io_bind (io_lift (guard (ga_type a = DrainAction \<and> ga_id a \<noteq> [] \<and> ga_childUID a \<noteq> [] \<and> ga_template a = None) ''reserved drain required'')) (\<lambda>_.
              io_bind (drain_machine env c grp a) (\<lambda>m.
              let unresolved = io_bind (persistDrainTarget c grp (bound_machine a m)) (\<lambda>bound. io_lift (Inr (bound, False))) in
              if node_ref m ''name'' = [] \<or> mc_providerID m = []
                then
                  io_bind (io_lift (guard (ga_nodeName a = [] \<and> ga_nodeUID a = []) ''persisted drain Node association disappeared'')) (\<lambda>_. unresolved)
              else
                run_then (r_get (k_nodes wl) ([], node_ref m ''name'')) (\<lambda>answer.
                  case answer of
                    Inl e \<Rightarrow>
                      (case e of
                         NotFound _ \<Rightarrow> if ga_nodeName a = [] \<and> ga_nodeUID a = [] then unresolved else io_lift (Inl (api_message e))
                       | _ \<Rightarrow> io_lift (Inl (api_message e)))
                  | Inr node \<Rightarrow>
                      io_bind (io_lift (guard (node_association m node) ''workload Node association changed'')) (\<lambda>_.
                      if ga_nodeName a \<noteq> [] \<or> ga_nodeUID a \<noteq> []
                        then
                          io_bind (io_lift (guard (a = bound_node a m node) ''persisted drain target changed'')) (\<lambda>_. io_lift (Inr (grp, True)))
                      else io_bind (persistDrainTarget c grp (bound_node a m node)) (\<lambda>bound. io_lift (Inr (bound, True))))))))
      | _ \<Rightarrow> io_lift (Inl (Error ''group and CAPI/workload API scope required'')))"

text \<open>The bound worker of a drain, and its action.\<close>

definition drainWorker :: "node_group \<Rightarrow> (attached_machine \<times> group_action) res" where
  "drainWorker grp =
     (if om_resourceVersion grp = [] \<or> om_uid grp = [] then Inl (Error ''persisted group required'')
      else
        (case ng_pendingAction grp of
           None \<Rightarrow> Inl (Error ''bound drain target required'')
         | Some a \<Rightarrow>
             if ga_type a \<noteq> DrainAction \<or> ga_id a = [] \<or> ga_childUID a = [] \<or> ga_machineUID a = [] \<or> ga_nodeUID a = [] \<or> ga_nodeName a = [] \<or>
                ga_providerID a = []
               then Inl (Error ''bound drain target required'')
             else
               Inr (\<lparr>am_uid = ga_machineUID a, am_nodeUID = ga_nodeUID a, am_providerID = ga_providerID a, am_interfaceID = [], am_networkID = [],
                     am_subnet = Prefix NoAddr (- 1), am_address = NoAddr\<rparr>, a)))"

definition drain_intent :: "node_group \<Rightarrow> group_action \<Rightarrow> string" where
  "drain_intent grp a = om_uid grp @ ''/'' @ ga_id a"

section \<open>Gateway requests\<close>

definition RequestLabel :: string where "RequestLabel = ''cloud-provisioning.appmana.com/gateway-request''"
definition requestMeshOwner :: string where "requestMeshOwner = ''cloud-provisioning.appmana.com/gateway-mesh''"

definition same_worker :: "attached_machine \<Rightarrow> attached_machine \<Rightarrow> bool" where
  "same_worker worker m = (am_uid m = am_uid worker \<and> am_nodeUID m = am_nodeUID worker \<and> am_providerID m = am_providerID worker)"

definition worker_identity :: "attached_machine \<Rightarrow> bool" where
  "worker_identity worker = (am_uid worker \<noteq> [] \<and> am_nodeUID worker \<noteq> [] \<and> am_providerID worker \<noteq> [])"

fun worker_refs :: "'a attach_env_scheme \<Rightarrow> string \<Rightarrow> attached_machine \<Rightarrow> kube_map list \<Rightarrow> (string \<times> string) list res" where
  "worker_refs env mesh worker [] = Inr []"
| "worker_refs env mesh worker (cm # cms) =
     (if label cm RequestLabel \<noteq> mesh \<and> annotation cm requestMeshOwner \<noteq> mesh then worker_refs env mesh worker cms
      else
        (case json_request env (index (km_data cm) ''request.json'') of
           None \<Rightarrow> Inl (Error ''decode gateway request'')
         | Some req \<Rightarrow>
             if am_uid (gr_gateway req) = am_uid worker then Inl (Error ''machine is a shared gateway for request'')
             else if am_uid (gr_worker req) \<noteq> am_uid worker then worker_refs env mesh worker cms
             else if \<not> same_worker worker (gr_worker req) then Inl (Error ''worker identity changed in request'')
             else if om_uid cm = [] \<or> annotation cm requestMeshOwner \<noteq> mesh then Inl (Error ''request awaits lifecycle ownership'')
             else (case worker_refs env mesh worker cms of Inl e \<Rightarrow> Inl e | Inr refs \<Rightarrow> Inr ((om_name cm, om_uid cm) # refs))))"

definition refLess :: "string \<times> string \<Rightarrow> string \<times> string \<Rightarrow> bool" where
  "refLess a b = (fst a < fst b)"

definition WorkerRequests :: "'a attach_env_scheme \<Rightarrow> 'w cluster \<Rightarrow> string \<Rightarrow> string \<Rightarrow> attached_machine \<Rightarrow> ('w, (string \<times> string) list) io" where
  "WorkerRequests env c ns mesh worker =
     io_bind (io_lift (guard (ns \<noteq> [] \<and> mesh \<noteq> [] \<and> worker_identity worker) ''request scope and worker identity required'')) (\<lambda>_.
     io_bind (api_io (r_list (k_maps c) (everything ns))) (\<lambda>cms.
     io_bind (io_lift (worker_refs env mesh worker cms)) (\<lambda>refs.
     io_lift (Inr (sort_by refLess refs)))))"

definition RetireWorkerRequest ::
  "'a attach_env_scheme \<Rightarrow> 'w cluster \<Rightarrow> string \<Rightarrow> string \<Rightarrow> string \<Rightarrow> string \<Rightarrow> attached_machine \<Rightarrow> ('w, bool) io" where
  "RetireWorkerRequest env c ns mesh name uid worker =
     io_bind (io_lift (guard (ns \<noteq> [] \<and> mesh \<noteq> [] \<and> name \<noteq> [] \<and> uid \<noteq> [] \<and> worker_identity worker) ''request scope and worker identity required'')) (\<lambda>_.
     io_bind (lease_Load env (Some c) ns (ns @ ''/'' @ name @ ''/'' @ uid)) (\<lambda>loaded.
     case loaded of
       None \<Rightarrow> io_lift (Inl (Error ''durable worker attachment identity missing or changed''))
     | Some record \<Rightarrow>
         io_bind (io_lift (guard (at_lease record \<noteq> [] \<and> same_worker worker (gl_worker (at_plan record)))
                    ''durable worker attachment identity missing or changed'')) (\<lambda>_.
         io_bind (api_find (r_get (k_maps c) (ns, name))) (\<lambda>cm.
         case cm of
           None \<Rightarrow> io_lift (Inr (at_phase record = Complete))
         | Some cm \<Rightarrow>
             io_bind (io_lift (guard (om_uid cm = uid \<and> annotation cm requestMeshOwner = mesh) ''gateway request ownership changed'')) (\<lambda>_.
             io_bind (io_lift (decoded ''decode gateway request'' (json_request env (index (km_data cm) ''request.json'')))) (\<lambda>request.
             io_bind (io_lift (guard (same_worker worker (gr_worker request)) ''gateway request now describes another worker'')) (\<lambda>_.
             if deleting cm then io_lift (Inr False)
             else
               io_bind (api_io (r_delete (k_maps c) cm (Some uid) (Some (om_resourceVersion cm)))) (\<lambda>_.
               io_lift (Inr False)))))))))"

definition CaptureGatewayInventory :: "'a group_env_scheme \<Rightarrow> 'w cluster option \<Rightarrow> node_group \<Rightarrow> string \<Rightarrow> ('w, node_group) io" where
  "CaptureGatewayInventory env api grp mesh =
     io_bind (io_lift (drainWorker grp)) (\<lambda>(worker, a).
     case api of
       None \<Rightarrow> io_lift (Inl (Error ''new gateway inventory required''))
     | Some c \<Rightarrow>
         io_bind (io_lift (guard (ga_gateways a = None) ''new gateway inventory required'')) (\<lambda>_.
         io_bind (WorkerRequests env c (om_namespace grp) mesh worker) (\<lambda>refs.
         put_action c grp (Some (a\<lparr>ga_gateways := Some \<lparr>gi_mesh = mesh, gi_requests = refs\<rparr>\<rparr>)) ''API did not retain gateway inventory'')))"

fun known_requests :: "(string \<times> string) list \<Rightarrow> (string \<times> string) list \<Rightarrow> (string \<times> string) list res" where
  "known_requests known [] = Inr known"
| "known_requests known (ref # refs) =
     (if fst ref = [] \<or> snd ref = [] \<or> map_of known (fst ref) \<noteq> None then Inl (Error ''invalid persisted request inventory'')
      else known_requests (ref # known) refs)"

fun retire_requests :: "'a attach_env_scheme \<Rightarrow> 'w cluster \<Rightarrow> string \<Rightarrow> string \<Rightarrow> attached_machine \<Rightarrow> (string \<times> string) list \<Rightarrow> ('w, bool) io" where
  "retire_requests env c ns mesh worker [] = io_lift (Inr True)"
| "retire_requests env c ns mesh worker (ref # refs) =
     io_bind (RetireWorkerRequest env c ns mesh (fst ref) (snd ref) worker) (\<lambda>finished.
     if \<not> finished then io_lift (Inr False) else retire_requests env c ns mesh worker refs)"

definition RetireGatewayInventory :: "'a group_env_scheme \<Rightarrow> 'w cluster option \<Rightarrow> node_group \<Rightarrow> ('w, bool) io" where
  "RetireGatewayInventory env api grp =
     io_bind (io_lift (drainWorker grp)) (\<lambda>(worker, a).
     case (api, ga_gateways a) of
       (Some c, Some inventory) \<Rightarrow>
         io_bind (io_lift (guard (gi_mesh inventory \<noteq> []) ''persisted gateway inventory required'')) (\<lambda>_.
         io_bind (WorkerRequests env c (om_namespace grp) (gi_mesh inventory) worker) (\<lambda>current.
         io_bind (io_lift (known_requests [] (gi_requests inventory))) (\<lambda>known.
         io_bind (io_lift (guard (list_all (\<lambda>ref. map_of known (fst ref) = Some (snd ref)) current) ''gateway request inventory changed during drain'')) (\<lambda>_.
         retire_requests env c (om_namespace grp) (gi_mesh inventory) worker (gi_requests inventory)))))
     | _ \<Rightarrow> io_lift (Inl (Error ''persisted gateway inventory required'')))"

definition annotate :: "string \<Rightarrow> string \<Rightarrow> 'o object_meta_scheme \<Rightarrow> 'o object_meta_scheme" where
  "annotate k v obj = obj\<lparr>om_annotations := Mapping.update k v (om_annotations obj)\<rparr>"

definition FreezeGatewayAttachments :: "'w cluster option \<Rightarrow> machine_kind \<Rightarrow> node_group \<Rightarrow> ('w, bool) io" where
  "FreezeGatewayAttachments api gvk grp =
     io_bind (io_lift (drainWorker grp)) (\<lambda>(worker, a).
     case api of
       None \<Rightarrow> io_lift (Inl (Error ''captured gateway inventory and CAPI scope required''))
     | Some c \<Rightarrow>
         io_bind (io_lift (guard (ga_gateways a \<noteq> None \<and> capi_scope gvk) ''captured gateway inventory and CAPI scope required'')) (\<lambda>_.
         io_bind (api_io (r_get (k_machines c) (om_namespace grp, ga_childName a))) (\<lambda>m.
         io_bind (io_lift (guard (om_uid m = am_uid worker \<and> mc_providerID m = am_providerID worker \<and> \<not> deleting m) ''drain Machine identity changed'')) (\<lambda>_.
         if annotation m DrainIntentAnnotation \<noteq> []
           then
             io_bind (io_lift (guard (annotation m DrainIntentAnnotation = drain_intent grp a) ''Machine belongs to another drain action'')) (\<lambda>_.
             io_lift (Inr True))
         else
           io_bind (api_io (r_patch (k_machines c) m (annotate DrainIntentAnnotation (drain_intent grp a) m))) (\<lambda>_.
           io_lift (Inr False))))))"

section \<open>Withdrawing the peer\<close>

text \<open>The status keeps a recipient under a type of its own with the same fields; the conversions copy them.\<close>

definition CapturePeerWithdrawal :: "'a group_env_scheme \<Rightarrow> 'w cluster option \<Rightarrow> node_group \<Rightarrow> ('w, node_group) io" where
  "CapturePeerWithdrawal env api grp =
     io_bind (io_lift (drainWorker grp)) (\<lambda>(worker, a).
     case (api, ga_gateways a) of
       (Some c, Some inventory) \<Rightarrow>
         io_bind (io_lift (guard (gi_mesh inventory \<noteq> [] \<and> ga_withdrawal a = None) ''gateway inventory and new withdrawal capture required'')) (\<lambda>_.
         io_bind (RetireGatewayInventory env api grp) (\<lambda>finished.
         io_bind (io_lift (guard finished ''gateway retirement must finish before direct withdrawal capture'')) (\<lambda>_.
         io_bind (api_io (r_get (k_secrets c) (om_namespace grp, gi_mesh inventory))) (\<lambda>m.
         io_bind (PrepareRemoteWithdrawal env
                    \<lparr>cr_reader = Some c, cr_namespace = om_namespace grp, cr_secretName = om_name m, cr_secretUID = om_uid m\<rparr>
                    (ga_childName a) worker (drain_intent grp a)) (\<lambda>intent.
         put_action c grp
           (Some (a\<lparr>ga_withdrawal := Some \<lparr>pw_meshName = rw_meshName intent, pw_meshUID = rw_meshUID intent,
              pw_sourceVersion = rw_sourceVersion intent, pw_sourceDataHash = rw_sourceDataHash intent, pw_publicKey = rw_publicKey intent,
              pw_consumers = rw_consumers intent\<rparr>\<rparr>))
           ''API did not retain direct withdrawal inventory'')))))
     | _ \<Rightarrow> io_lift (Inl (Error ''gateway inventory and new withdrawal capture required'')))"

definition overlaps :: "group_action \<Rightarrow> peer_withdrawal \<Rightarrow> consumer_target \<Rightarrow> bool" where
  "overlaps a wd t = (ct_nodeUID t = ga_nodeUID a \<or> ct_publicKey t = pw_publicKey wd)"

text \<open>Every participant the mesh publishes is kept, or is the retiring machine.\<close>

definition membership_recorded :: "group_action \<Rightarrow> peer_withdrawal \<Rightarrow> mesh \<Rightarrow> unit res" where
  "membership_recorded a wd data =
     (let sites = map ct_nodeName (filter ct_site (pw_consumers wd));
          remotes = ga_childName a # map ct_machineName (filter (\<lambda>t. \<not> ct_site t) (pw_consumers wd)) in
      if \<not> list_all (\<lambda>name. name \<in> set sites) (names_under NodePublicKeyPrefix data @ names_under SiteAddressesPrefix data)
        then Inl (Error ''published site membership changed during withdrawal'')
      else guard (list_all (\<lambda>name. name \<in> set remotes) (names_under PeerPublicKeyPrefix data)) ''published remote membership changed during withdrawal'')"

definition ApplyPeerWithdrawal ::
  "'a group_env_scheme \<Rightarrow> 'w cluster option \<Rightarrow> machine_kind \<Rightarrow> node_group \<Rightarrow> string \<Rightarrow> string \<Rightarrow> ('w, bool) io" where
  "ApplyPeerWithdrawal env api gvk grp apiVIP apiPort =
     io_bind (io_lift (drainWorker grp)) (\<lambda>(worker, a).
     case (api, ga_withdrawal a, ga_gateways a) of
       (Some c, Some wd, Some inventory) \<Rightarrow>
         io_bind (io_lift (guard (apiPort \<noteq> []) ''persisted withdrawal inventory and API port required'')) (\<lambda>_.
         io_bind (io_lift (guard (pw_meshName wd = gi_mesh inventory \<and> pw_meshUID wd \<noteq> [] \<and> pw_sourceVersion wd \<noteq> [] \<and> pw_publicKey wd \<noteq> [] \<and>
                    pw_consumers wd \<noteq> []) ''invalid withdrawal inventory'')) (\<lambda>_.
         io_bind (unchanged_group c grp True ''drain action changed before publication'') (\<lambda>_.
         io_bind (RetireGatewayInventory env api grp) (\<lambda>finished.
         if \<not> finished then io_lift (Inr False)
         else
         io_bind (FreezeGatewayAttachments api gvk grp) (\<lambda>frozen.
         if \<not> frozen then io_lift (Inr False)
         else
         io_bind (api_io (r_get (k_secrets c) (om_namespace grp, pw_meshName wd))) (\<lambda>m.
         io_bind (io_lift (guard (om_uid m = pw_meshUID wd \<and> \<not> deleting m) ''withdrawal mesh identity changed'')) (\<lambda>_.
         io_bind (io_lift (guard (\<not> list_ex (overlaps a wd) (pw_consumers wd)) ''retiring peer overlaps a survivor'')) (\<lambda>_.
         io_bind (io_lift (membership_recorded a wd (ks_data m))) (\<lambda>_.
         io_bind (io_lift (WithdrawRemotePeer (ks_data m) (ga_childName a) (pw_publicKey wd))) (\<lambda>(data, _).
         io_bind (io_lift (SnapshotConsumers env (m\<lparr>ks_data := data\<rparr>) (pw_consumers wd) apiVIP apiPort)) (\<lambda>consumers.
         io_bind (PublishRemoteWithdrawal api m (ga_childName a) (pw_publicKey wd)) (\<lambda>published.
         io_bind (Applied env api published consumers) (\<lambda>applied.
         if \<not> applied then io_lift (Inr False)
         else
           io_bind (unchanged_group c grp False ''drain action changed during acknowledgement'') (\<lambda>_.
           io_lift (Inr True)))))))))))))))
     | _ \<Rightarrow> io_lift (Inl (Error ''persisted withdrawal inventory and API port required'')))"

definition related :: "consumer_target \<Rightarrow> consumer_target \<Rightarrow> bool" where
  "related old t =
     (ct_nodeName old = ct_nodeName t \<or> ct_nodeUID old = ct_nodeUID t \<or> (ct_machineName old \<noteq> [] \<and> ct_machineName old = ct_machineName t) \<or>
      (ct_publicKey old \<noteq> [] \<and> ct_publicKey old = ct_publicKey t))"

definition extend_one :: "group_action \<Rightarrow> peer_withdrawal \<Rightarrow> consumer_target list \<Rightarrow> consumer_target \<Rightarrow> consumer_target list res" where
  "extend_one a wd kept t =
     (if \<not> ct_site t \<and> ct_machineName t = ga_childName a
        then (if ct_nodeUID t \<noteq> ga_nodeUID a \<or> ct_publicKey t \<noteq> pw_publicKey wd then Inl (Error ''retiring peer identity changed'') else Inr kept)
      else if overlaps a wd t then Inl (Error ''retiring identity overlaps new consumer'')
      else
        (case find (\<lambda>old. related old t) kept of
           None \<Rightarrow> Inr (kept @ [t])
         | Some old \<Rightarrow> if old \<noteq> t then Inl (Error ''retained consumer identity changed'') else Inr kept))"

definition ExtendPeerWithdrawal :: "'a group_env_scheme \<Rightarrow> 'w cluster option \<Rightarrow> node_group \<Rightarrow> ('w, node_group \<times> bool) io" where
  "ExtendPeerWithdrawal env api grp =
     io_bind (io_lift (drainWorker grp)) (\<lambda>(worker, a).
     case (api, ga_withdrawal a, ga_gateways a) of
       (Some c, Some wd, Some inventory) \<Rightarrow>
         io_bind (io_lift (guard (\<not> ga_removing a \<and> pw_meshName wd = gi_mesh inventory) ''active withdrawal inventory required'')) (\<lambda>_.
         io_bind (api_io (r_get (k_secrets c) (om_namespace grp, pw_meshName wd))) (\<lambda>m.
         io_bind (PublishedConsumers env
                    \<lparr>cr_reader = Some c, cr_namespace = om_namespace grp, cr_secretName = pw_meshName wd, cr_secretUID = pw_meshUID wd\<rparr> m) (\<lambda>targets.
         io_bind (io_lift (res_fold (extend_one a wd) (pw_consumers wd) targets)) (\<lambda>kept.
         if length kept = length (pw_consumers wd) then io_lift (Inr (grp, False))
         else
           io_bind (put_action c grp (Some (a\<lparr>ga_withdrawal := Some (wd\<lparr>pw_consumers := kept\<rparr>)\<rparr>)) ''API did not retain extended consumer inventory'') (\<lambda>g.
           io_lift (Inr (g, True)))))))
     | _ \<Rightarrow> io_lift (Inl (Error ''active withdrawal inventory required'')))"

section \<open>Removal\<close>

definition recordRemoval :: "'w cluster \<Rightarrow> node_group \<Rightarrow> group_action \<Rightarrow> ('w, bool) io" where
  "recordRemoval c grp a =
     io_bind (put_action c grp (Some (a\<lparr>ga_removing := True\<rparr>)) ''API did not retain removal transition'') (\<lambda>_. io_lift (Inr True))"

definition BeginRemoval ::
  "'a group_env_scheme \<Rightarrow> 'w cluster option \<Rightarrow> machine_kind \<Rightarrow> node_group \<Rightarrow> string \<Rightarrow> string \<Rightarrow> ('w, bool) io" where
  "BeginRemoval env api gvk grp apiVIP apiPort =
     (case ng_pendingAction grp of
        None \<Rightarrow> io_lift (Inl (Error ''new removal transition required''))
      | Some a \<Rightarrow>
          io_bind (io_lift (guard (\<not> ga_removing a) ''new removal transition required'')) (\<lambda>_.
          io_bind (ApplyPeerWithdrawal env api gvk grp apiVIP apiPort) (\<lambda>applied.
          if \<not> applied then io_lift (Inr False)
          else (case api of None \<Rightarrow> io_lift (Inl (Error ''nil client'')) | Some c \<Rightarrow> recordRemoval c grp a))))"

text \<open>The child of an action, when there is one, is the one the action names.\<close>

definition removal_child ::
  "'a group_env_scheme \<Rightarrow> 'w cluster \<Rightarrow> node_group \<Rightarrow> group_action \<Rightarrow> string \<Rightarrow> string \<Rightarrow> ('w, node_claim option) io" where
  "removal_child env c grp a ordinalMsg uidMsg =
     io_bind (api_find (r_get (k_claims c) (om_namespace grp, ga_childName a))) (\<lambda>child.
     case child of
       None \<Rightarrow> io_lift (Inr None)
     | Some child \<Rightarrow>
         io_bind (io_lift (ObserveChild env grp child)) (\<lambda>observed.
         io_bind (io_lift (guard (gc_ordinal observed = ga_ordinal a) ordinalMsg)) (\<lambda>_.
         io_bind (io_lift (guard (om_uid child = ga_childUID a) uidMsg)) (\<lambda>_.
         io_lift (Inr (Some child))))))"

text \<open>A live child is deleted under its UID and version; only then it is waited for.\<close>

definition delete_child :: "'w cluster \<Rightarrow> node_claim \<Rightarrow> ('w, bool) io" where
  "delete_child c child =
     (if deleting child then io_lift (Inr False)
      else io_bind (delete_exactly (k_claims c) child) (\<lambda>_. io_lift (Inr False)))"

definition ResumeRemoval ::
  "'a group_env_scheme \<Rightarrow> 'w cluster option \<Rightarrow> 'w cluster option \<Rightarrow> machine_kind \<Rightarrow> node_group \<Rightarrow> ('w, bool) io" where
  "ResumeRemoval env api workload gvk grp =
     io_bind (io_lift (drainWorker grp)) (\<lambda>(worker, a).
     case (api, workload) of
       (Some c, Some wl) \<Rightarrow>
         io_bind (io_lift (guard (ga_removing a \<and> ga_withdrawal a \<noteq> None \<and> capi_scope gvk) ''committed removal and CAPI/workload scope required'')) (\<lambda>_.
         io_bind (unchanged_group c grp True ''removal action changed'') (\<lambda>_.
         io_bind (removal_child env c grp a ''removal child identity changed'' ''removal child identity changed'') (\<lambda>child.
         io_bind (api_find (r_get (k_machines c) (om_namespace grp, ga_childName a))) (\<lambda>m.
         io_bind (io_lift (guard (case m of None \<Rightarrow> True | Some m \<Rightarrow> om_uid m = ga_machineUID a) ''removal Machine identity changed'')) (\<lambda>_.
         io_bind (api_find (r_get (k_nodes wl) ([], ga_nodeName a))) (\<lambda>node.
         io_bind (io_lift (guard (case node of None \<Rightarrow> True | Some n \<Rightarrow> om_uid n = ga_nodeUID a \<and> kn_providerID n = ga_providerID a)
                    ''removal Node identity changed'')) (\<lambda>_.
         case child of
           Some child \<Rightarrow> delete_child c child
         | None \<Rightarrow>
             if m \<noteq> None \<or> node \<noteq> None then io_lift (Inr False)
             else clear_action c grp ''API did not retain removal completion'')))))))
     | _ \<Rightarrow> io_lift (Inl (Error ''committed removal and CAPI/workload scope required'')))"

definition groupReceiveWithdrawalIntent :: "node_group \<Rightarrow> group_action \<Rightarrow> peer_withdrawal \<Rightarrow> remote_withdrawal" where
  "groupReceiveWithdrawalIntent grp a wd =
     \<lparr>rw_meshNamespace = om_namespace grp, rw_meshName = pw_meshName wd, rw_meshUID = pw_meshUID wd, rw_sourceVersion = pw_sourceVersion wd,
      rw_sourceDataHash = pw_sourceDataHash wd, rw_orphaned = False, rw_machineName = ga_childName a, rw_machineUID = ga_machineUID a,
      rw_publicKey = pw_publicKey wd, rw_drainIntent = drain_intent grp a, rw_consumers = pw_consumers wd\<rparr>"

text \<open>\<open>cancelled\<close> is \<open>ctx.Err()\<close>.\<close>

definition AuthorizeReceiveWithdrawal ::
  "'a group_env_scheme \<Rightarrow> 'w cluster option \<Rightarrow> 'w cluster option \<Rightarrow> machine_kind \<Rightarrow> ('w, unit) io \<Rightarrow> node_group \<Rightarrow> remote_withdrawal \<Rightarrow> ('w, unit) io" where
  "AuthorizeReceiveWithdrawal env api workload gvk cancelled grp intent =
     io_bind (io_lift (drainWorker grp)) (\<lambda>(worker, a).
     case (api, workload, ga_withdrawal a, ga_gateways a) of
       (Some c, Some wl, Some wd, Some inventory) \<Rightarrow>
         io_bind (io_lift (guard (\<not> ga_removing a) ''active captured withdrawal required'')) (\<lambda>_.
         io_bind (io_lift (guard (pw_meshName wd = gi_mesh inventory \<and> intent = groupReceiveWithdrawalIntent grp a wd)
                    ''receiver retirement differs from captured drain intent'')) (\<lambda>_.
         io_bind (unchanged_group c grp True ''drain action changed during retirement authorization'') (\<lambda>_.
         io_bind (BindDrainNode env api workload gvk grp) (\<lambda>(_, resolved).
         io_bind (io_lift (guard resolved ''CAPI Machine has no resolved Node identity'')) (\<lambda>_.
         io_bind (api_io (r_get (k_machines c) (om_namespace grp, ga_childName a))) (\<lambda>m.
         io_bind (io_lift (guard (om_uid m = ga_machineUID a \<and> mc_providerID m = ga_providerID a \<and> \<not> deleting m \<and>
                    annotation m DrainIntentAnnotation = rw_drainIntent intent) ''Machine drain authority changed'')) (\<lambda>_.
         io_bind (api_io (r_get (k_nodes wl) ([], ga_nodeName a))) (\<lambda>node.
         io_bind (io_lift (guard (om_uid node = ga_nodeUID a \<and> kn_providerID node = ga_providerID a \<and> \<not> deleting node \<and> kn_unschedulable node)
                    ''withdrawal target is not the drained Node'')) (\<lambda>_.
         io_bind (api_io (r_list (k_pods wl) \<lparr>lo_namespace = [], lo_label = None, lo_field = Some (''spec.nodeName'', ga_nodeName a)\<rparr>)) (\<lambda>pods.
         io_bind (io_lift (guard (list_all (\<lambda>p. kp_nodeName p = ga_nodeName a \<and> DrainPodExempt p) pods) ''workload remains on withdrawal target'')) (\<lambda>_.
         io_bind (api_io (r_get (k_machines c) (object_key m))) (\<lambda>m'.
         io_bind (api_io (r_get (k_nodes wl) ([], om_name node))) (\<lambda>node'.
         io_bind (io_lift (guard (om_resourceVersion m \<noteq> [] \<and> om_resourceVersion node \<noteq> [] \<and> same_revision_as m' m \<and> same_revision_as node' node \<and>
                    \<not> deleting m' \<and> \<not> deleting node') ''drain target changed during workload observation'')) (\<lambda>_.
         io_bind cancelled (\<lambda>_.
         io_bind (unchanged_group c grp True ''drain action changed during retirement authorization'') (\<lambda>_.
         io_lift (Inr ())))))))))))))))))
     | _ \<Rightarrow> io_lift (Inl (Error ''active captured withdrawal required'')))"

text \<open>
  The live API of receiver retirement. \<open>rt_advance\<close> is \<open>attachment.AdvanceReceiveRemoval\<close>, which is given the intent, the
  worker's node and the authorization above.
\<close>

record 'w retirement_api =
  rt_namespace :: "string \<Rightarrow> 'w \<Rightarrow> (api_error + string \<times> bool) \<times> 'w"
  rt_maps :: "string \<Rightarrow> 'w inventory_maps"
  rt_advance :: "string \<Rightarrow> config_map \<Rightarrow> kube_secret \<Rightarrow> remote_withdrawal \<Rightarrow> string \<Rightarrow> string \<Rightarrow> int \<Rightarrow> ('w, bool) io"

definition discover_receiver ::
  "'b inventory_env_scheme \<Rightarrow> 'w retirement_api \<Rightarrow> string \<Rightarrow> kube_secret \<Rightarrow> kube_map \<Rightarrow> ('w, string \<times> inventory \<times> config_map) io" where
  "discover_receiver ienv rt ns m seen =
     io_bind (api_io (rt_namespace rt ''kube-system'')) (\<lambda>(cluster, leaving).
     io_bind (io_lift (guard (cluster \<noteq> [] \<and> \<not> leaving) ''retirement cluster identity missing'')) (\<lambda>_.
     io_bind (api_io (ReadReceiveInventory ienv (Some (rt_maps rt ns)) cluster ns (om_name m) (om_uid m))) (\<lambda>(inventory, live).
     io_bind (io_lift (guard (cm_uid live = om_uid seen \<and> cm_resourceVersion live = om_resourceVersion seen) ''retirement discovery changed'')) (\<lambda>_.
     io_lift (Inr (cluster, inventory, live))))))"

text \<open>Returns whether the removal is handled here; with an error it always is.\<close>

definition beginReceiveRemoval ::
  "'b inventory_env_scheme \<Rightarrow> 'w cluster \<Rightarrow> 'w retirement_api option \<Rightarrow> int \<Rightarrow> node_group \<Rightarrow> ('w, bool) io" where
  "beginReceiveRemoval ienv c retirement maxAge grp =
     io_bind (io_lift (drainWorker grp)) (\<lambda>(worker, a).
     case (ga_withdrawal a, ga_gateways a) of
       (Some wd, Some _) \<Rightarrow>
         io_bind (api_io (r_get (k_secrets c) (om_namespace grp, pw_meshName wd))) (\<lambda>m.
         io_bind (io_lift (guard (om_uid m = pw_meshUID wd \<and> \<not> deleting m) ''withdrawal mesh identity changed'')) (\<lambda>_.
         io_bind (api_find (r_get (k_maps c) (om_namespace grp, ReceiveInventoryName ienv (om_uid m)))) (\<lambda>found.
         case found of
           None \<Rightarrow> io_lift (Inr False)
         | Some cm \<Rightarrow>
             (case retirement of
                None \<Rightarrow> io_lift (Inl (Error ''reserved receiver removal requires live retirement API''))
              | Some rt \<Rightarrow>
                  io_bind (discover_receiver ienv rt (om_namespace grp) m cm) (\<lambda>(cluster, inventory, live).
                  if \<not> list_ex (\<lambda>u. u = ga_machineUID a) (uids_of inventory) then io_lift (Inr False)
                  else
                    io_bind (rt_advance rt cluster live m (groupReceiveWithdrawalIntent grp a wd) (ga_nodeName a) (ga_nodeUID a)
                               (if maxAge \<le> 0 then 60 * 1000000000 else maxAge)) (\<lambda>complete.
                    if \<not> complete then io_lift (Inr True) else recordRemoval c grp a))))))
     | _ \<Rightarrow> io_lift (Inl (Error ''captured withdrawal required'')))"

section \<open>Cancelling a join\<close>

definition BootstrapCancellationAnnotation :: string where
  "BootstrapCancellationAnnotation = ''cloud-provisioning.appmana.com/cancel-before-bootstrap''"

definition TunnelAddressReservationPrefix :: string where "TunnelAddressReservationPrefix = ''tunnel-address-reservation-''"

definition cancellable :: "group_action \<Rightarrow> bool" where
  "cancellable a =
     (ga_type a = DrainAction \<and> ga_id a \<noteq> [] \<and> ga_childUID a \<noteq> [] \<and> ga_machineUID a \<noteq> [] \<and> ga_nodeName a = [] \<and> ga_nodeUID a = [] \<and>
      \<not> ga_removing a \<and> ga_withdrawal a = None \<and> ga_gateways a = None \<and> ga_template a = None)"

definition cancellationScope :: "'w cluster option \<Rightarrow> 'w cluster option \<Rightarrow> machine_kind \<Rightarrow> node_group \<Rightarrow> ('w, 'w cluster \<times> 'w cluster \<times> group_action) io" where
  "cancellationScope api workload gvk grp =
     (case (api, workload) of
        (Some c, Some wl) \<Rightarrow>
          io_bind (io_lift (guard (om_uid grp \<noteq> [] \<and> om_resourceVersion grp \<noteq> [] \<and> capi_scope gvk)
                     ''persisted group and direct CAPI/workload scope required'')) (\<lambda>_.
          case ng_pendingAction grp of
            None \<Rightarrow> io_lift (Inl (Error ''unregistered Machine removal action required''))
          | Some a \<Rightarrow>
              io_bind (io_lift (guard (cancellable a) ''unregistered Machine removal action required'')) (\<lambda>_.
              io_bind (unchanged_group c grp True ''cancellation action changed'') (\<lambda>_.
              io_lift (Inr (c, wl, a)))))
      | _ \<Rightarrow> io_lift (Inl (Error ''persisted group and direct CAPI/workload scope required'')))"

definition unbooted :: "node_group \<Rightarrow> group_action \<Rightarrow> bootstrap_cancellation \<Rightarrow> machine \<Rightarrow> bool" where
  "unbooted grp a pf m =
     (\<not> (mc_providerID m \<noteq> [] \<and> annotation m BootstrapCancellationAnnotation \<noteq> drain_intent grp a) \<and> mc_nodeRef m = [] \<and> mc_configRef m = [] \<and>
      mc_dataSecretName m = bc_secretName pf \<and> annotation m TunnelAddressAnnotation = [])"

definition published_fields :: "mesh \<Rightarrow> string \<Rightarrow> bool" where
  "published_fields data name =
     list_ex (\<lambda>p. map_of data (p @ name) \<noteq> None)
       [PeerPublicKeyPrefix, PeerEndpointPrefix, PeerAllowedIPsPrefix, PeerRouteHostsPrefix, PeerRouteHostPrefix, PeerNativeNetworkPrefix,
        TunnelAddressReservationPrefix]"

text \<open>\<open>Some\<close> is the cancellation with the mesh it was checked against; \<open>None\<close> when a bootstrap may have started.\<close>

definition bootstrapUnpublished ::
  "'w cluster \<Rightarrow> 'w cluster \<Rightarrow> node_group \<Rightarrow> group_action \<Rightarrow> machine option \<Rightarrow> bootstrap_cancellation \<Rightarrow> ('w, bootstrap_cancellation option) io" where
  "bootstrapUnpublished c wl grp a m pf =
     io_bind (io_lift (guard (bc_secretName pf \<noteq> [] \<and> bc_meshName pf \<noteq> []) ''bootstrap and mesh scope required'')) (\<lambda>_.
     io_bind (io_lift (guard (case m of None \<Rightarrow> True | Some m \<Rightarrow> ga_providerID a = [] \<or> mc_providerID m = ga_providerID a)
                ''cancelled provider identity changed'')) (\<lambda>_.
     if \<not> (case m of None \<Rightarrow> True | Some m \<Rightarrow> unbooted grp a pf m) then io_lift (Inr None)
     else
       io_bind (api_find (r_get (k_secrets c) (om_namespace grp, bc_secretName pf))) (\<lambda>secret.
       if secret \<noteq> None then io_lift (Inr None)
       else
         io_bind (api_io (r_get (k_secrets c) (om_namespace grp, bc_meshName pf))) (\<lambda>mesh.
         io_bind (io_lift (guard (om_uid mesh \<noteq> [] \<and> \<not> deleting mesh \<and> (bc_meshUID pf = [] \<or> bc_meshUID pf = om_uid mesh))
                    ''cancellation mesh identity changed'')) (\<lambda>_.
         if published_fields (ks_data mesh) (ga_childName a) then io_lift (Inr None)
         else
           io_bind (api_io (r_list (k_nodes wl) (everything []))) (\<lambda>nodes.
           if list_ex (\<lambda>n. annotation n ClaimAnnotation = om_namespace grp @ ''/'' @ ga_childName a) nodes then io_lift (Inr None)
           else io_lift (Inr (Some (pf\<lparr>bc_meshUID := om_uid mesh\<rparr>)))))))))"

definition foreign_mark :: "string \<Rightarrow> string \<Rightarrow> string \<Rightarrow> bool" where
  "foreign_mark want mark drain = ((mark \<noteq> [] \<and> mark \<noteq> want) \<or> (drain \<noteq> [] \<and> drain \<noteq> want) \<or> (mark = [] \<and> drain \<noteq> []))"

definition beginBootstrapCancellation ::
  "'a group_env_scheme \<Rightarrow> 'w cluster option \<Rightarrow> 'w cluster option \<Rightarrow> machine_kind \<Rightarrow> string \<Rightarrow> string \<Rightarrow> node_group \<Rightarrow> ('w, bool) io" where
  "beginBootstrapCancellation env api workload gvk format mesh grp =
     io_bind (cancellationScope api workload gvk grp) (\<lambda>(c, wl, a).
     io_bind (io_lift (guard (ga_bootstrapCancellation a = None \<and> format \<noteq> [] \<and> mesh \<noteq> [])
                ''new bootstrap cancellation and configured join scope required'')) (\<lambda>_.
     io_bind (api_io (r_get (k_claims c) (om_namespace grp, ga_childName a))) (\<lambda>child.
     io_bind (io_lift (ObserveChild env grp child)) (\<lambda>observed.
     io_bind (io_lift (guard (gc_ordinal observed = ga_ordinal a) ''cancellation child ordinal changed'')) (\<lambda>_.
     io_bind (io_lift (guard (om_uid child = ga_childUID a \<and> \<not> deleting child) ''cancellation child changed'')) (\<lambda>_.
     io_bind (api_io (r_get (k_machines c) (om_namespace grp, ga_childName a))) (\<lambda>m.
     io_bind (io_lift (guard (om_uid m = ga_machineUID a \<and> MachineOwnedByClaim m child \<and> \<not> deleting m) ''cancellation Machine changed'')) (\<lambda>_.
     io_bind (bootstrapUnpublished c wl grp a (Some m) \<lparr>bc_secretName = Sprintf env format (ga_childName a), bc_meshName = mesh, bc_meshUID = []\<rparr>) (\<lambda>eligible.
     case eligible of
       None \<Rightarrow> io_lift (Inr False)
     | Some pf \<Rightarrow>
         let want = drain_intent grp a; mark = annotation m BootstrapCancellationAnnotation; drain = annotation m DrainIntentAnnotation in
         io_bind (io_lift (guard (\<not> foreign_mark want mark drain) ''Machine has a different removal intent'')) (\<lambda>_.
         if mark = [] \<or> drain = []
           then
             io_bind (api_io (r_patch (k_machines c) m (annotate DrainIntentAnnotation want (annotate BootstrapCancellationAnnotation want m)))) (\<lambda>_.
             io_lift (Inr True))
         else
           io_bind (put_action c grp (Some (a\<lparr>ga_bootstrapCancellation := Some pf\<rparr>)) ''API did not retain bootstrap cancellation'') (\<lambda>_.
           io_lift (Inr True))))))))))))"

definition resumeBootstrapCancellation ::
  "'a group_env_scheme \<Rightarrow> 'w cluster option \<Rightarrow> 'w cluster option \<Rightarrow> machine_kind \<Rightarrow> node_group \<Rightarrow> ('w, bool) io" where
  "resumeBootstrapCancellation env api workload gvk grp =
     io_bind (cancellationScope api workload gvk grp) (\<lambda>(c, wl, a).
     case ga_bootstrapCancellation a of
       None \<Rightarrow> io_lift (Inl (Error ''persisted bootstrap cancellation required''))
     | Some pf \<Rightarrow>
         io_bind (io_lift (guard (bc_meshUID pf \<noteq> []) ''persisted bootstrap cancellation required'')) (\<lambda>_.
         io_bind (removal_child env c grp a ''cancellation child ordinal changed'' ''cancelled claim replaced'') (\<lambda>child.
         io_bind (api_find (r_get (k_machines c) (om_namespace grp, ga_childName a))) (\<lambda>m.
         io_bind (io_lift (guard (case m of
                      None \<Rightarrow> True
                    | Some m \<Rightarrow> om_uid m = ga_machineUID a \<and> annotation m BootstrapCancellationAnnotation = drain_intent grp a \<and>
                        annotation m DrainIntentAnnotation = drain_intent grp a) ''cancelled Machine identity or marker changed'')) (\<lambda>_.
         io_bind (bootstrapUnpublished c wl grp a m pf) (\<lambda>unpublished.
         io_bind (io_lift (guard (unpublished \<noteq> None) ''bootstrap appeared after cancellation; retain lifecycle for inspection'')) (\<lambda>_.
         case child of
           Some child \<Rightarrow> delete_child c child
         | None \<Rightarrow> if m \<noteq> None then io_lift (Inr False) else clear_action c grp ''API did not retain cancellation completion'')))))))"

end
