(* ===== verification/Group_Reconciler.thy ===== *)
theory Group_Reconciler
  imports Node_Removal
begin

text \<open>
  The labels and the readiness of a group's nodes (\<open>labels.go\<close>, \<open>readiness.go\<close>) and the reconciliation of a group
  (\<open>reconciler.go\<close>).
\<close>

section \<open>Nodes of a group\<close>

record 'w group_reconciler =
  nr_retirement :: "'w retirement_api option"
  nr_maxAge :: int
  nr_api :: "'w cluster option"
  nr_workload :: "'w cluster option"
  nr_machineGVK :: machine_kind
  nr_meshName :: string
  nr_apiVIP :: string
  nr_apiPort :: string
  nr_bootstrapFormat :: string

text \<open>The Machine of a child and the Node it is associated with; \<open>None\<close> when the child is passed over.\<close>

definition child_machine :: "'w cluster \<Rightarrow> node_claim \<Rightarrow> ('w, machine option) io" where
  "child_machine c child =
     io_bind (api_find (r_get (k_machines c) (object_key child))) (\<lambda>found.
     case found of
       None \<Rightarrow> io_lift (Inr None)
     | Some m \<Rightarrow>
         io_lift (Inr (if MachineOwnedByClaim m child \<and> om_uid m \<noteq> [] \<and> \<not> deleting m \<and> annotation m DrainIntentAnnotation = [] then Some m else None)))"

definition machine_node :: "'w cluster \<Rightarrow> machine \<Rightarrow> ('w, kube_node option) io" where
  "machine_node wl m =
     (if node_ref m ''name'' = [] \<or> mc_providerID m = [] then io_lift (Inr None)
      else
        io_bind (api_find (r_get (k_nodes wl) ([], node_ref m ''name''))) (\<lambda>found.
        case found of
          None \<Rightarrow> io_lift (Inr None)
        | Some node \<Rightarrow> io_lift (Inr (if node_association m node then Some node else None))))"

definition set_label :: "string \<Rightarrow> string \<Rightarrow> 'o object_meta_scheme \<Rightarrow> 'o object_meta_scheme" where
  "set_label k v obj = obj\<lparr>om_labels := Mapping.update k v (om_labels obj)\<rparr>"

text \<open>The group, child and Machine are read again before the Node is patched under its UID and version.\<close>

definition label_node :: "'w cluster \<Rightarrow> 'w cluster \<Rightarrow> node_group \<Rightarrow> node_claim \<Rightarrow> machine \<Rightarrow> kube_node \<Rightarrow> ('w, bool) io" where
  "label_node c wl grp child m node =
     io_bind (unchanged_group c grp False ''group changed before Node labeling'') (\<lambda>current.
     io_bind (io_lift (guard (\<not> deleting current) ''group changed before Node labeling'')) (\<lambda>_.
     io_bind (api_io (r_get (k_claims c) (object_key child))) (\<lambda>child'.
     io_bind (io_lift (guard (same_revision_as child' child \<and> \<not> deleting child') ''child changed before Node labeling'')) (\<lambda>_.
     io_bind (api_io (r_get (k_machines c) (object_key m))) (\<lambda>m'.
     io_bind (io_lift (guard (same_revision_as m' m) ''Machine changed before Node labeling'')) (\<lambda>_.
     io_bind (api_io (r_patch (k_nodes wl) node (set_label GroupUIDLabel (om_uid grp) node))) (\<lambda>_.
     io_lift (Inr True))))))))"

fun label_each :: "'a group_env_scheme \<Rightarrow> 'w cluster \<Rightarrow> 'w cluster \<Rightarrow> node_group \<Rightarrow> node_claim list \<Rightarrow> ('w, bool) io" where
  "label_each env c wl grp [] = io_lift (Inr False)"
| "label_each env c wl grp (child # children) =
     io_bind (io_lift (ObserveChild env grp child)) (\<lambda>_.
     if deleting child \<or> draining_child grp child then label_each env c wl grp children
     else
       io_bind (child_machine c child) (\<lambda>found.
       case found of
         None \<Rightarrow> label_each env c wl grp children
       | Some m \<Rightarrow>
           io_bind (machine_node wl m) (\<lambda>associated.
           case associated of
             None \<Rightarrow> label_each env c wl grp children
           | Some node \<Rightarrow>
               if label node GroupUIDLabel \<noteq> []
                 then
                   io_bind (io_lift (guard (label node GroupUIDLabel = om_uid grp) ''Node already belongs to another group'')) (\<lambda>_.
                   label_each env c wl grp children)
               else label_node c wl grp child m node)))"

definition labelNodes :: "'a group_env_scheme \<Rightarrow> 'w group_reconciler \<Rightarrow> 'w cluster \<Rightarrow> node_group \<Rightarrow> node_claim list \<Rightarrow> ('w, bool) io" where
  "labelNodes env r c grp children =
     (case nr_workload r of
        None \<Rightarrow> io_lift (Inr False)
      | Some wl \<Rightarrow>
          if deleting grp \<or> children = [] then io_lift (Inr False)
          else
            io_bind (io_lift (guard (capi_scope (nr_machineGVK r)) ''CAPI scope required for group Node labels'')) (\<lambda>_.
            label_each env c wl grp children))"

section \<open>Readiness\<close>

fun conditions_ready :: "string \<Rightarrow> int \<Rightarrow> machine_condition option list \<Rightarrow> bool" where
  "conditions_ready version gen [] = False"
| "conditions_ready version gen (None # conds) = conditions_ready version gen conds"
| "conditions_ready version gen (Some c # conds) =
     (if mk_type c \<noteq> ''Ready'' \<or> mk_status c \<noteq> ''True'' then conditions_ready version gen conds
      else
        (case mk_observedGeneration c of
           Inl _ \<Rightarrow> False
         | Inr None \<Rightarrow> version = ''v1beta1''
         | Inr (Some observed) \<Rightarrow> gen \<le> observed))"

definition machineReady :: "machine \<Rightarrow> bool" where
  "machineReady m = conditions_ready (mc_version m) (om_generation m) (mc_conditions m)"

definition child_target :: "mesh \<Rightarrow> node_claim \<Rightarrow> machine \<Rightarrow> kube_node \<Rightarrow> kube_secret \<Rightarrow> consumer_target" where
  "child_target data child m node secret =
     \<lparr>ct_nodeName = node_ref m ''name'', ct_nodeUID = om_uid node, ct_site = False, ct_machineName = om_name child,
      ct_tunnelAddress = before CHR ''/'' (annotation m TunnelAddressAnnotation), ct_publicKey = field data (PeerPublicKeyPrefix @ om_name child),
      ct_secretUID = om_uid secret\<rparr>"

text \<open>The worker has applied what the mesh renders for it.\<close>

definition adopted :: "'a group_env_scheme \<Rightarrow> kube_secret \<Rightarrow> string \<Rightarrow> string \<Rightarrow> consumer_target \<Rightarrow> kube_secret \<Rightarrow> bool" where
  "adopted env m vip port t secret =
     (ct_publicKey t \<noteq> [] \<and> ct_tunnelAddress t \<noteq> [] \<and>
      (case SnapshotConsumers env m [t] vip port of
         Inl _ \<Rightarrow> False
       | Inr consumers \<Rightarrow>
           (case consumers of
              [] \<Rightarrow> False
            | x # _ \<Rightarrow> field (ks_data secret) CloudPeersKey = co_document x \<and> annotation secret AppliedListAnnotation = HashPeerList env (co_document x))))"

definition stable_child :: "'w cluster \<Rightarrow> 'w cluster \<Rightarrow> machine \<Rightarrow> kube_node \<Rightarrow> kube_secret \<Rightarrow> ('w, bool) io" where
  "stable_child c wl m node secret =
     io_bind (api_find (r_get (k_machines c) (object_key m))) (\<lambda>m'.
     case m' of
       None \<Rightarrow> io_lift (Inr False)
     | Some m' \<Rightarrow>
         io_bind (api_find (r_get (k_nodes wl) ([], om_name node))) (\<lambda>node'.
         case node' of
           None \<Rightarrow> io_lift (Inr False)
         | Some node' \<Rightarrow>
             io_bind (api_find (r_get (k_secrets c) (object_key secret))) (\<lambda>secret'.
             case secret' of
               None \<Rightarrow> io_lift (Inr False)
             | Some secret' \<Rightarrow> io_lift (Inr (same_revision_as m' m \<and> same_revision_as node' node \<and> same_revision_as secret' secret)))))"

text \<open>The UID of a ready child's Node, empty when it is not ready.\<close>

definition readyChild :: "'a group_env_scheme \<Rightarrow> 'w group_reconciler \<Rightarrow> 'w cluster \<Rightarrow> 'w cluster \<Rightarrow> kube_secret \<Rightarrow> node_claim \<Rightarrow> ('w, string) io" where
  "readyChild env r c wl mesh child =
     io_bind (child_machine c child) (\<lambda>found.
     case found of
       None \<Rightarrow> io_lift (Inr [])
     | Some m \<Rightarrow>
         if \<not> machineReady m then io_lift (Inr [])
         else
           io_bind (machine_node wl m) (\<lambda>associated.
           case associated of
             None \<Rightarrow> io_lift (Inr [])
           | Some node \<Rightarrow>
               if kn_unschedulable node \<or> \<not> node_ready node then io_lift (Inr [])
               else
                 io_bind (api_find (r_get (k_secrets c) (om_namespace child, AdoptionSecretName (om_name child)))) (\<lambda>secret.
                 case secret of
                   None \<Rightarrow> io_lift (Inr [])
                 | Some secret \<Rightarrow>
                     if om_uid secret = [] \<or> deleting secret \<or>
                        \<not> adopted env mesh (nr_apiVIP r) (nr_apiPort r) (child_target (ks_data mesh) child m node secret) secret
                       then io_lift (Inr [])
                     else io_bind (stable_child c wl m node secret) (\<lambda>stable. io_lift (Inr (if stable then om_uid node else []))))))"

fun ready_nodes :: "'a group_env_scheme \<Rightarrow> 'w group_reconciler \<Rightarrow> 'w cluster \<Rightarrow> 'w cluster \<Rightarrow> node_group \<Rightarrow> kube_secret \<Rightarrow> node_claim list \<Rightarrow> ('w, string list) io" where
  "ready_nodes env r c wl grp mesh [] = io_lift (Inr [])"
| "ready_nodes env r c wl grp mesh (child # children) =
     io_bind (io_lift (ObserveChild env grp child)) (\<lambda>_.
     if deleting child \<or> draining_child grp child then ready_nodes env r c wl grp mesh children
     else
       io_bind (readyChild env r c wl mesh child) (\<lambda>uid.
       io_bind (ready_nodes env r c wl grp mesh children) (\<lambda>uids.
       io_lift (Inr (if uid = [] then uids else uid # uids)))))"

text \<open>A node that several children claim counts for none of them.\<close>

definition count_ready :: "string list \<Rightarrow> int" where
  "count_ready uids = int32 (int (length (filter (\<lambda>u. count_list uids u = 1) (remdups uids))))"

definition readyChildren :: "'a group_env_scheme \<Rightarrow> 'w group_reconciler \<Rightarrow> 'w cluster \<Rightarrow> node_group \<Rightarrow> node_claim list \<Rightarrow> ('w, int) io" where
  "readyChildren env r c grp children =
     (case nr_workload r of
        None \<Rightarrow> io_lift (Inr 0)
      | Some wl \<Rightarrow>
          if nr_meshName r = [] \<or> nr_apiPort r = [] \<or> children = [] then io_lift (Inr 0)
          else
            io_bind (io_lift (guard (capi_scope (nr_machineGVK r)) ''CAPI scope required for group readiness'')) (\<lambda>_.
            io_bind (api_find (r_get (k_secrets c) (om_namespace grp, nr_meshName r))) (\<lambda>found.
            case found of
              None \<Rightarrow> io_lift (Inr 0)
            | Some mesh \<Rightarrow>
                if om_uid mesh = [] \<or> deleting mesh then io_lift (Inr 0)
                else
                  io_bind (ready_nodes env r c wl grp mesh children) (\<lambda>uids.
                  io_bind (api_find (r_get (k_secrets c) (object_key mesh))) (\<lambda>final.
                  case final of
                    None \<Rightarrow> io_lift (Inr 0)
                  | Some f \<Rightarrow> io_lift (Inr (if same_revision_as f mesh \<and> \<not> deleting f then count_ready uids else 0)))))))"

section \<open>Reconciliation\<close>

text \<open>
  What \<open>Reconcile\<close> asks for: nothing more, to be called again at once, or after five seconds. A result that is
  returned with an error is ignored by the manager and left out here.
\<close>

datatype requeue = Finished | Again | Later

definition again :: "('w, 'x) io \<Rightarrow> ('w, requeue) io" where
  "again p = io_bind p (\<lambda>_. io_lift (Inr Again))"

definition again_when :: "('w, bool) io \<Rightarrow> ('w, requeue) io" where
  "again_when p = io_bind p (\<lambda>b. io_lift (Inr (if b then Again else Later)))"

definition reconcile_create :: "'a group_env_scheme \<Rightarrow> 'w cluster \<Rightarrow> object_key \<Rightarrow> node_group \<Rightarrow> group_action \<Rightarrow> ('w, requeue) io" where
  "reconcile_create env c key grp a =
     io_bind (if deleting grp then CancelUnfulfilledCreation env (Some c) grp else io_lift (Inr False)) (\<lambda>cancelled.
     if cancelled then io_lift (Inr Again)
     else
       io_bind (ResumeCreation env (Some c) key (om_uid grp) (ga_id a)) (\<lambda>child.
       again (CompleteCreation env (Some c) grp (om_uid child))))"

text \<open>The worker is drained and bound: its gateways are retired, its withdrawal captured, extended and applied.\<close>

definition reconcile_withdrawal ::
  "'a group_env_scheme \<Rightarrow> 'b inventory_env_scheme \<Rightarrow> 'w group_reconciler \<Rightarrow> 'w cluster \<Rightarrow> node_group \<Rightarrow> group_action \<Rightarrow> ('w, requeue) io" where
  "reconcile_withdrawal env ienv r c bound target =
     io_bind (FreezeGatewayAttachments (Some c) (nr_machineGVK r) bound) (\<lambda>frozen.
     if \<not> frozen then io_lift (Inr Again)
     else
       io_bind (RetireGatewayInventory env (Some c) bound) (\<lambda>finished.
       if \<not> finished then io_lift (Inr Later)
       else if ga_withdrawal target = None then again (CapturePeerWithdrawal env (Some c) bound)
       else
         io_bind (ExtendPeerWithdrawal env (Some c) bound) (\<lambda>(_, expanded).
         if expanded then io_lift (Inr Again)
         else
           io_bind (beginReceiveRemoval ienv c (nr_retirement r) (nr_maxAge r) bound) (\<lambda>handled.
           if handled then io_lift (Inr Later)
           else again_when (BeginRemoval env (Some c) (nr_machineGVK r) bound (nr_apiVIP r) (nr_apiPort r))))))"

definition reconcile_bound ::
  "'a group_env_scheme \<Rightarrow> 'b inventory_env_scheme \<Rightarrow> 'w group_reconciler \<Rightarrow> 'w cluster \<Rightarrow> node_group \<Rightarrow> ('w, requeue) io" where
  "reconcile_bound env ienv r c bound =
     (case ng_pendingAction bound of
        None \<Rightarrow> io_lift (Inl (Error ''nil pending action''))
      | Some target \<Rightarrow>
          io_bind (DrainNode (nr_workload r) (ga_nodeName target) (ga_nodeUID target)) (\<lambda>empty.
          if \<not> empty then io_lift (Inr Later)
          else
            io_bind (io_lift (guard (nr_meshName r \<noteq> []) ''drained group worker awaits attachment withdrawal integration'')) (\<lambda>_.
            case ga_gateways target of
              None \<Rightarrow> again (CaptureGatewayInventory env (Some c) bound (nr_meshName r))
            | Some inventory \<Rightarrow>
                io_bind (io_lift (guard (gi_mesh inventory = nr_meshName r) ''drain mesh scope changed'')) (\<lambda>_.
                reconcile_withdrawal env ienv r c bound target))))"

definition reconcile_drain ::
  "'a group_env_scheme \<Rightarrow> 'b inventory_env_scheme \<Rightarrow> 'w group_reconciler \<Rightarrow> 'w cluster \<Rightarrow> node_group \<Rightarrow> group_action \<Rightarrow> ('w, requeue) io" where
  "reconcile_drain env ienv r c grp a =
     (if ga_bootstrapCancellation a \<noteq> None then again_when (resumeBootstrapCancellation env (Some c) (nr_workload r) (nr_machineGVK r) grp)
      else if ga_removing a then again_when (ResumeRemoval env (Some c) (nr_workload r) (nr_machineGVK r) grp)
      else
        io_bind (io_lift (guard (nr_workload r \<noteq> None) ''group removal awaits drain and attachment withdrawal integration'')) (\<lambda>_.
        io_bind (BindDrainNode env (Some c) (nr_workload r) (nr_machineGVK r) grp) (\<lambda>(bound, resolved).
        if \<not> resolved
          then
            (if nr_bootstrapFormat r \<noteq> [] \<and> nr_meshName r \<noteq> []
               then again_when (beginBootstrapCancellation env (Some c) (nr_workload r) (nr_machineGVK r) (nr_bootstrapFormat r) (nr_meshName r) bound)
             else io_lift (Inr Later))
        else if ga_nodeUID a = [] then io_lift (Inr Again)
        else reconcile_bound env ienv r c bound)))"

definition reconcile_idle ::
  "'a group_env_scheme \<Rightarrow> string \<Rightarrow> 'w cluster \<Rightarrow> node_group \<Rightarrow> node_claim list \<Rightarrow> ('w, requeue) io" where
  "reconcile_idle env fresh c grp claims =
     (if deleting grp \<and> claims = []
        then
          io_bind (api_io (r_update (k_groups c) (grp\<lparr>om_finalizers := filter (\<lambda>f. f \<noteq> GroupFinalizer) (om_finalizers grp)\<rparr>))) (\<lambda>_.
          io_lift (Inr Finished))
      else
        io_bind (io_lift (ProposeAction env fresh grp claims)) (\<lambda>proposed.
        case proposed of
          Some action \<Rightarrow> again (ReserveAction env (Some c) grp action)
        | None \<Rightarrow> io_lift (Inr Later)))"

definition reconcile_action ::
  "'a group_env_scheme \<Rightarrow> 'b inventory_env_scheme \<Rightarrow> 'w group_reconciler \<Rightarrow> string \<Rightarrow> object_key \<Rightarrow> 'w cluster \<Rightarrow> node_group \<Rightarrow> node_claim list \<Rightarrow> ('w, requeue) io" where
  "reconcile_action env ienv r fresh key c grp claims =
     (case ng_pendingAction grp of
        Some a \<Rightarrow>
          if ga_type a = CreateAction then reconcile_create env c key grp a
          else if ga_type a = DrainAction then reconcile_drain env ienv r c grp a
          else io_lift (Inl (Error ''unknown pending group action''))
      | None \<Rightarrow> reconcile_idle env fresh c grp claims)"

definition group_selector :: "'a group_env_scheme \<Rightarrow> node_group \<Rightarrow> string res" where
  "group_selector env grp = (case ng_workloadSelector grp of None \<Rightarrow> Inr [] | Some s \<Rightarrow> selector_string env s)"

definition reconcile_children ::
  "'a group_env_scheme \<Rightarrow> 'b inventory_env_scheme \<Rightarrow> 'w group_reconciler \<Rightarrow> string \<Rightarrow> object_key \<Rightarrow> 'w cluster \<Rightarrow> node_group \<Rightarrow> node_claim list \<Rightarrow> ('w, requeue) io" where
  "reconcile_children env ienv r fresh key c grp claims =
     io_bind (cancelUnstartedChildren env c grp claims) (\<lambda>cancelled.
     if cancelled then io_lift (Inr Again)
     else
       io_bind (labelNodes env r c grp claims) (\<lambda>labelled.
       if labelled then io_lift (Inr Again)
       else
         io_bind (io_lift (group_selector env grp)) (\<lambda>selector.
         io_bind (readyChildren env r c grp claims) (\<lambda>ready.
         let count = int32 (int (length claims)) in
         if ng_statusReplicas grp \<noteq> count \<or> ng_readyReplicas grp \<noteq> ready \<or> ng_statusSelector grp \<noteq> selector
           then
             again (api_io (r_status (k_groups c)
               (grp\<lparr>ng_statusReplicas := count, ng_readyReplicas := ready, ng_statusSelector := selector\<rparr>)))
         else reconcile_action env ienv r fresh key c grp claims))))"

definition Reconcile ::
  "'a group_env_scheme \<Rightarrow> 'b inventory_env_scheme \<Rightarrow> 'w group_reconciler \<Rightarrow> string \<Rightarrow> object_key \<Rightarrow> ('w, requeue) io" where
  "Reconcile env ienv r fresh key =
     (case nr_api r of
        None \<Rightarrow> io_lift (Inl (Error ''direct API client required''))
      | Some c \<Rightarrow>
          io_bind (api_find (r_get (k_groups c) key)) (\<lambda>found.
          case found of
            None \<Rightarrow> io_lift (Inr Finished)
          | Some grp \<Rightarrow>
              if \<not> deleting grp \<and> GroupFinalizer \<notin> set (om_finalizers grp)
                then again (api_io (r_update (k_groups c) (grp\<lparr>om_finalizers := om_finalizers grp @ [GroupFinalizer]\<rparr>)))
              else
                io_bind (api_io (r_list (k_claims c)
                  \<lparr>lo_namespace = om_namespace grp, lo_label = Some (GroupUIDLabel, om_uid grp), lo_field = None\<rparr>)) (\<lambda>claims.
                io_bind (io_lift (observe_children env grp claims)) (\<lambda>_.
                reconcile_children env ienv r fresh key c grp claims))))"

end
