(* ===== verification/Group_Trace.thy ===== *)
theory Group_Trace
  imports Group_Reconciler Publication_Order
begin

text \<open>
  What the reconciliation of a group calls, for every management and workload cluster: which children are created and deleted,
  what is changed on Machines, Nodes and the mesh, and in which order an action in the group's status moves.
\<close>

section \<open>Logged reconcilers\<close>

datatype group_event = Manages cluster_event | Works cluster_event | Advanced remote_withdrawal "bool res"

abbreviation silent :: "('w \<Rightarrow> 'r \<times> 'w) \<Rightarrow> 'w \<times> 'e list \<Rightarrow> 'r \<times> ('w \<times> 'e list)" where
  "silent \<equiv> logged (\<lambda>_. [])"

definition silent_maps :: "'w inventory_maps \<Rightarrow> ('w \<times> 'e list) inventory_maps" where
  "silent_maps a =
     \<lparr>api_get = (\<lambda>n. silent (api_get a n)), api_create = (\<lambda>x. silent (api_create a x)), api_update = (\<lambda>x. silent (api_update a x)),
      api_list = silent (api_list a)\<rparr>"

definition log_retirement :: "'w retirement_api \<Rightarrow> ('w \<times> group_event list) retirement_api" where
  "log_retirement rt =
     \<lparr>rt_namespace = (\<lambda>n. silent (rt_namespace rt n)), rt_maps = (\<lambda>ns. silent_maps (rt_maps rt ns)),
      rt_advance = (\<lambda>cluster live m intent name uid age. logged (\<lambda>x. [Advanced intent x]) (rt_advance rt cluster live m intent name uid age))\<rparr>"

definition log_group :: "'w group_reconciler \<Rightarrow> ('w \<times> group_event list) group_reconciler" where
  "log_group r =
     \<lparr>nr_retirement = map_option log_retirement (nr_retirement r), nr_maxAge = nr_maxAge r, nr_api = map_option (log_cluster Manages) (nr_api r),
      nr_workload = map_option (log_cluster Works) (nr_workload r), nr_machineGVK = nr_machineGVK r, nr_meshName = nr_meshName r,
      nr_apiVIP = nr_apiVIP r, nr_apiPort = nr_apiPort r, nr_bootstrapFormat = nr_bootstrapFormat r\<rparr>"

section \<open>What the calls so far show\<close>

definition got_group :: "group_event list \<Rightarrow> node_group \<Rightarrow> bool" where
  "got_group l g = (Manages (On_group (Got g)) \<in> set l)"

definition pending :: "group_event list \<Rightarrow> node_group \<Rightarrow> group_action \<Rightarrow> bool" where
  "pending l g a = (got_group l g \<and> ng_pendingAction g = Some a)"

definition got_child :: "'a group_env_scheme \<Rightarrow> group_event list \<Rightarrow> node_group \<Rightarrow> group_action \<Rightarrow> node_claim \<Rightarrow> bool" where
  "got_child env l g a c = (Manages (On_claim (Got c)) \<in> set l \<and> is_Inr (ObserveChild env g c) \<and> om_uid c = ga_childUID a)"

definition got_machine :: "group_event list \<Rightarrow> machine \<Rightarrow> bool" where
  "got_machine l m = (Manages (On_machine (Got m)) \<in> set l)"

definition child_gone :: "group_event list \<Rightarrow> node_group \<Rightarrow> group_action \<Rightarrow> bool" where
  "child_gone l g a = (Manages (On_claim (Missing (om_namespace g, ga_childName a))) \<in> set l)"

definition machine_gone :: "group_event list \<Rightarrow> node_group \<Rightarrow> group_action \<Rightarrow> bool" where
  "machine_gone l g a = (Manages (On_machine (Missing (om_namespace g, ga_childName a))) \<in> set l)"

definition node_gone :: "group_event list \<Rightarrow> group_action \<Rightarrow> bool" where
  "node_gone l a = (Works (On_node (Missing ([], ga_nodeName a))) \<in> set l)"

text \<open>
  The pods a drain leaves where they are: finished ones, static ones, and those of a DaemonSet. The bound node is cordoned, and a list of
  the pods of that node in all namespaces shows no others.
\<close>

definition stays :: "kube_pod \<Rightarrow> bool" where
  "stays p =
     (kp_phase p = ''Succeeded'' \<or> kp_phase p = ''Failed'' \<or> index (om_annotations p) ''kubernetes.io/config.mirror'' \<noteq> [] \<or>
      (\<exists>owner. find ow_controller (om_owners p) = Some owner \<and> ow_apiVersion owner = ''apps/v1'' \<and> ow_kind owner = ''DaemonSet''))"

lemma DrainPodExempt_stays: "DrainPodExempt p \<longleftrightarrow> stays p"
  by (auto simp: DrainPodExempt_def stays_def annotation_def GetControllerOf_def MirrorPodAnnotationKey_def split: option.splits)

definition drained :: "group_event list \<Rightarrow> group_action \<Rightarrow> bool" where
  "drained l a =
     (\<exists>n pods. Works (On_node (Got n)) \<in> set l \<and> om_uid n = ga_nodeUID a \<and> \<not> deleting n \<and> kn_unschedulable n \<and>
        Works (On_pod (Lists \<lparr>lo_namespace = [], lo_label = None, lo_field = Some (''spec.nodeName'', ga_nodeName a)\<rparr> pods)) \<in> set l \<and>
        (\<forall>p \<in> set pods. kp_nodeName p = ga_nodeName a \<and> stays p))"

text \<open>The bound Machine carries the mark of the action, which keeps new attachments and peers away.\<close>

definition frozen :: "group_event list \<Rightarrow> node_group \<Rightarrow> group_action \<Rightarrow> bool" where
  "frozen l g a =
     (\<exists>m. got_machine l m \<and> om_uid m = ga_machineUID a \<and> mc_providerID m = ga_providerID a \<and> annotation m DrainIntentAnnotation = drain_intent g a)"

text \<open>
  The durable record of a request was read and is complete, for a lease of the bound worker, and the request itself is gone. All recorded
  requests are retired, and a list of the namespace shows no other request of the mesh for the worker.
\<close>

definition request_retired :: "'a attach_env_scheme \<Rightarrow> group_event list \<Rightarrow> node_group \<Rightarrow> group_action \<Rightarrow> string \<times> string \<Rightarrow> bool" where
  "request_retired env l g a ref =
     (Manages (On_map (Missing (om_namespace g, fst ref))) \<in> set l \<and>
      (\<exists>cm r. Manages (On_map (Got cm)) \<in> set l \<and> json_lease env (index (km_data cm) ''record.json'') = Some r \<and>
         at_id r = om_namespace g @ ''/'' @ fst ref @ ''/'' @ snd ref \<and> at_phase r = Complete \<and> at_lease r \<noteq> [] \<and>
         am_uid (gl_worker (at_plan r)) = ga_machineUID a \<and> am_nodeUID (gl_worker (at_plan r)) = ga_nodeUID a \<and>
         am_providerID (gl_worker (at_plan r)) = ga_providerID a))"

definition all_recorded :: "'a attach_env_scheme \<Rightarrow> group_event list \<Rightarrow> node_group \<Rightarrow> group_action \<Rightarrow> gateway_inventory \<Rightarrow> bool" where
  "all_recorded env l g a gi =
     (\<exists>cms. Manages (On_map (Lists \<lparr>lo_namespace = om_namespace g, lo_label = None, lo_field = None\<rparr> cms)) \<in> set l \<and>
        (\<forall>cm \<in> set cms. \<forall>req. (label cm RequestLabel = gi_mesh gi \<or> annotation cm requestMeshOwner = gi_mesh gi) \<and>
           json_request env (index (km_data cm) ''request.json'') = Some req \<and> am_uid (gr_worker req) = ga_machineUID a \<longrightarrow>
           (om_name cm, om_uid cm) \<in> set (gi_requests gi)))"

definition gateways_retired :: "'a attach_env_scheme \<Rightarrow> group_event list \<Rightarrow> node_group \<Rightarrow> group_action \<Rightarrow> bool" where
  "gateways_retired env l g a =
     (\<exists>gi. ga_gateways a = Some gi \<and> (\<forall>ref \<in> set (gi_requests gi). request_retired env l g a ref) \<and> all_recorded env l g a gi)"

text \<open>The recorded recipients acknowledged the mesh without the peer; or the receivers' own retirement is complete.\<close>

definition withdrawn :: "'a group_env_scheme \<Rightarrow> string \<Rightarrow> string \<Rightarrow> group_event list \<Rightarrow> node_group \<Rightarrow> group_action \<Rightarrow> bool" where
  "withdrawn env vip port l g a =
     (\<exists>wd. ga_withdrawal a = Some wd \<and>
        (Advanced (groupReceiveWithdrawalIntent g a wd) (Inr True) \<in> set l \<or>
         (\<exists>m data b published cs. om_uid m = pw_meshUID wd \<and> WithdrawRemotePeer (ks_data m) (ga_childName a) (pw_publicKey wd) = Inr (data, b) \<and>
            Manages (On_secret (Updates (m\<lparr>ks_data := data\<rparr>))) \<in> set l \<and> Manages (On_secret (Got published)) \<in> set l \<and>
            SnapshotConsumers env (m\<lparr>ks_data := data\<rparr>) (pw_consumers wd) vip port = Inr cs \<and>
            (\<forall>x \<in> set cs. acknowledged Manages env l published x))))"

section \<open>The life of an action\<close>

definition drains :: "group_action \<Rightarrow> bool" where
  "drains a = (ga_type a = DrainAction \<and> ga_id a \<noteq> [] \<and> ga_childUID a \<noteq> [])"

inductive action_moves ::
  "'a group_env_scheme \<Rightarrow> string \<Rightarrow> string \<Rightarrow> group_event list \<Rightarrow> node_group \<Rightarrow> group_action option \<Rightarrow> group_action option \<Rightarrow> bool"
  for env vip port l g where
  reserve: "new_reservation a \<Longrightarrow> childName env g (ga_ordinal a) = Inr (ga_childName a) \<Longrightarrow> admissible_action g a = Inr () \<Longrightarrow>
    action_moves env vip port l g None (Some a)"
| created: "creation_pending g a = Some t \<Longrightarrow> Manages (On_claim (Got c)) \<in> set l \<Longrightarrow> is_Inr (ObserveChild env g c) \<Longrightarrow>
    annotation c ActionAnnotation = ga_id a \<Longrightarrow> nc_spec c = t \<Longrightarrow> \<not> deleting c \<Longrightarrow> action_moves env vip port l g (Some a) None"
| unfulfilled: "creation_pending g a \<noteq> None \<Longrightarrow> deleting g \<Longrightarrow> child_gone l g a \<Longrightarrow> action_moves env vip port l g (Some a) None"
| bind_machine: "drains a \<Longrightarrow> ga_nodeUID a = [] \<Longrightarrow> got_child env l g a c \<Longrightarrow> got_machine l m \<Longrightarrow> MachineOwnedByClaim m c \<Longrightarrow>
    ga_machineUID a = [] \<or> ga_machineUID a = om_uid m \<Longrightarrow> action_moves env vip port l g (Some a) (Some (bound_machine a m))"
| bind_node: "drains a \<Longrightarrow> ga_nodeUID a = [] \<Longrightarrow> got_child env l g a c \<Longrightarrow> got_machine l m \<Longrightarrow> MachineOwnedByClaim m c \<Longrightarrow>
    ga_machineUID a = [] \<or> ga_machineUID a = om_uid m \<Longrightarrow> Works (On_node (Got n)) \<in> set l \<Longrightarrow> node_association m n \<Longrightarrow>
    action_moves env vip port l g (Some a) (Some (bound_node a m n))"
| gateways: "drains a \<Longrightarrow> drained l a \<Longrightarrow> ga_gateways a = None \<Longrightarrow> action_moves env vip port l g (Some a) (Some (a\<lparr>ga_gateways := Some gi\<rparr>))"
| capture: "drains a \<Longrightarrow> drained l a \<Longrightarrow> frozen l g a \<Longrightarrow> gateways_retired env l g a \<Longrightarrow> ga_withdrawal a = None \<Longrightarrow>
    action_moves env vip port l g (Some a) (Some (a\<lparr>ga_withdrawal := Some wd\<rparr>))"
| extend: "drains a \<Longrightarrow> ga_withdrawal a = Some wd \<Longrightarrow> \<not> ga_removing a \<Longrightarrow> prefix (pw_consumers wd) ts \<Longrightarrow>
    action_moves env vip port l g (Some a) (Some (a\<lparr>ga_withdrawal := Some (wd\<lparr>pw_consumers := ts\<rparr>)\<rparr>))"
| remove: "drains a \<Longrightarrow> drained l a \<Longrightarrow> frozen l g a \<Longrightarrow> gateways_retired env l g a \<Longrightarrow> withdrawn env vip port l g a \<Longrightarrow>
    action_moves env vip port l g (Some a) (Some (a\<lparr>ga_removing := True\<rparr>))"
| removed: "drains a \<Longrightarrow> ga_removing a \<Longrightarrow> ga_withdrawal a \<noteq> None \<Longrightarrow> child_gone l g a \<Longrightarrow> machine_gone l g a \<Longrightarrow> node_gone l a \<Longrightarrow>
    action_moves env vip port l g (Some a) None"
| cancel: "cancellable a \<Longrightarrow> ga_bootstrapCancellation a = None \<Longrightarrow> got_child env l g a c \<Longrightarrow> got_machine l m \<Longrightarrow> om_uid m = ga_machineUID a \<Longrightarrow>
    unbooted g a pf m \<Longrightarrow> annotation m DrainIntentAnnotation = drain_intent g a \<Longrightarrow>
    action_moves env vip port l g (Some a) (Some (a\<lparr>ga_bootstrapCancellation := Some pf'\<rparr>))"
| cancelled: "cancellable a \<Longrightarrow> ga_bootstrapCancellation a \<noteq> None \<Longrightarrow> child_gone l g a \<Longrightarrow> machine_gone l g a \<Longrightarrow>
    action_moves env vip port l g (Some a) None"

section \<open>What may be called\<close>

definition may_create :: "'a group_env_scheme \<Rightarrow> group_event list \<Rightarrow> node_claim \<Rightarrow> bool" where
  "may_create env l c =
     (\<exists>g a t. pending l g a \<and> \<not> deleting g \<and> creation_pending g a = Some t \<and> om_name c = ga_childName a \<and> om_namespace c = om_namespace g \<and>
        nc_spec c = t \<and> annotation c ActionAnnotation = ga_id a)"

text \<open>A claim is deleted when it never started and its group goes away, or for a removal or cancellation that is committed.\<close>

definition may_delete :: "'a group_env_scheme \<Rightarrow> group_event list \<Rightarrow> node_claim \<Rightarrow> bool" where
  "may_delete env l c =
     (\<exists>g. got_group l g \<and> is_Inr (ObserveChild env g c) \<and> \<not> deleting c \<and>
        (deleting g \<and> ClaimFinalizer \<notin> set (om_finalizers c) \<and> \<not> draining_child g c \<or>
         (\<exists>a. ng_pendingAction g = Some a \<and> om_uid c = ga_childUID a \<and>
            (drains a \<and> ga_removing a \<and> ga_withdrawal a \<noteq> None \<or> cancellable a \<and> ga_bootstrapCancellation a \<noteq> None))))"

definition may_mark :: "group_event list \<Rightarrow> machine \<Rightarrow> machine \<Rightarrow> bool" where
  "may_mark l m m' =
     (\<exists>g a. pending l g a \<and> ga_type a = DrainAction \<and> got_machine l m \<and> om_uid m = ga_machineUID a \<and> annotation m DrainIntentAnnotation = [] \<and>
        (m' = annotate DrainIntentAnnotation (drain_intent g a) m \<or>
         m' = annotate DrainIntentAnnotation (drain_intent g a) (annotate BootstrapCancellationAnnotation (drain_intent g a) m)))"

definition may_withdraw :: "'a attach_env_scheme \<Rightarrow> group_event list \<Rightarrow> kube_secret \<Rightarrow> bool" where
  "may_withdraw env l s =
     (\<exists>g a wd m data b. pending l g a \<and> drains a \<and> ga_withdrawal a = Some wd \<and> Manages (On_secret (Got m)) \<in> set l \<and> om_uid m = pw_meshUID wd \<and>
        WithdrawRemotePeer (ks_data m) (ga_childName a) (pw_publicKey wd) = Inr (data, b) \<and> s = m\<lparr>ks_data := data\<rparr> \<and>
        drained l a \<and> frozen l g a \<and> gateways_retired env l g a)"

definition may_retire_request :: "group_event list \<Rightarrow> kube_map \<Rightarrow> bool" where
  "may_retire_request l cm =
     (\<exists>g a inv name. pending l g a \<and> drains a \<and> ga_gateways a = Some inv \<and> (name, om_uid cm) \<in> set (gi_requests inv))"

definition may_cordon :: "group_event list \<Rightarrow> kube_node \<Rightarrow> bool" where
  "may_cordon l n' =
     (\<exists>g a n. pending l g a \<and> drains a \<and> Works (On_node (Got n)) \<in> set l \<and> om_uid n = ga_nodeUID a \<and> \<not> deleting n \<and> n' = n\<lparr>kn_unschedulable := True\<rparr>)"

definition may_evict :: "group_event list \<Rightarrow> kube_pod \<Rightarrow> bool" where
  "may_evict l p =
     (\<not> stays p \<and> \<not> deleting p \<and>
      (\<exists>g a n. pending l g a \<and> drains a \<and> kp_nodeName p = ga_nodeName a \<and> Works (On_node (Got n)) \<in> set l \<and> om_uid n = ga_nodeUID a \<and>
         kn_unschedulable n))"

definition may_label :: "group_event list \<Rightarrow> kube_node \<Rightarrow> kube_node \<Rightarrow> bool" where
  "may_label l n n' =
     (\<exists>g. got_group l g \<and> \<not> deleting g \<and> Works (On_node (Got n)) \<in> set l \<and> label n GroupUIDLabel = [] \<and> n' = set_label GroupUIDLabel (om_uid g) n)"

text \<open>The list of a group's claims.\<close>

abbreviation children_of :: "node_group \<Rightarrow> list_options" where
  "children_of g \<equiv> \<lparr>lo_namespace = om_namespace g, lo_label = Some (GroupUIDLabel, om_uid g), lo_field = None\<rparr>"

definition may_finalize :: "group_event list \<Rightarrow> node_group \<Rightarrow> bool" where
  "may_finalize l g' =
     (\<exists>g. got_group l g \<and>
        (\<not> deleting g \<and> g' = g\<lparr>om_finalizers := om_finalizers g @ [GroupFinalizer]\<rparr> \<or>
         deleting g \<and> ng_pendingAction g = None \<and> Manages (On_claim (Lists (children_of g) [])) \<in> set l \<and>
         g' = g\<lparr>om_finalizers := filter (\<lambda>f. f \<noteq> GroupFinalizer) (om_finalizers g)\<rparr>))"

definition may_record :: "'a group_env_scheme \<Rightarrow> string \<Rightarrow> string \<Rightarrow> group_event list \<Rightarrow> node_group \<Rightarrow> bool" where
  "may_record env vip port l g' =
     (\<exists>g. got_group l g \<and>
        ((\<exists>n r s. g' = g\<lparr>ng_statusReplicas := n, ng_readyReplicas := r, ng_statusSelector := s\<rparr>) \<or>
         (\<exists>a. g' = g\<lparr>ng_pendingAction := a\<rparr> \<and> action_moves env vip port l g (ng_pendingAction g) a)))"

fun may_manage :: "'a group_env_scheme \<Rightarrow> string \<Rightarrow> string \<Rightarrow> group_event list \<Rightarrow> group_event \<Rightarrow> bool" where
  "may_manage env vip port l (Manages e) =
     (case e of
        On_group v \<Rightarrow> (case v of Updates g \<Rightarrow> may_finalize l g | Sets_status g \<Rightarrow> may_record env vip port l g | _ \<Rightarrow> reads v)
      | On_claim v \<Rightarrow>
          (case v of
             Creates c \<Rightarrow> may_create env l c
           | Deletes c uid rv \<Rightarrow> uid = Some (om_uid c) \<and> rv = Some (om_resourceVersion c) \<and> may_delete env l c
           | _ \<Rightarrow> reads v)
      | On_machine v \<Rightarrow> (case v of Patches m m' \<Rightarrow> may_mark l m m' | _ \<Rightarrow> reads v)
      | On_secret v \<Rightarrow> (case v of Updates s \<Rightarrow> may_withdraw env l s | _ \<Rightarrow> reads v)
      | On_map v \<Rightarrow> (case v of Deletes cm uid rv \<Rightarrow> uid = Some (om_uid cm) \<and> rv = Some (om_resourceVersion cm) \<and> may_retire_request l cm | _ \<Rightarrow> reads v)
      | On_node v \<Rightarrow> reads v
      | _ \<Rightarrow> False)"
| "may_manage env vip port l (Works e) =
     (case e of
        On_node v \<Rightarrow> (case v of Updates n \<Rightarrow> may_cordon l n | Patches n n' \<Rightarrow> may_label l n n' | _ \<Rightarrow> reads v)
      | On_pod v \<Rightarrow> reads v
      | Evicts p \<Rightarrow> may_evict l p
      | _ \<Rightarrow> False)"
| "may_manage env vip port l (Advanced intent _) =
     (\<exists>g a wd. pending l g a \<and> drains a \<and> drained l a \<and> frozen l g a \<and> gateways_retired env l g a \<and> ga_withdrawal a = Some wd \<and>
        intent = groupReceiveWithdrawalIntent g a wd)"

section \<open>Evidence is kept\<close>

lemma io_calls_step:
  assumes "io_calls ok l p P" "\<And>x l'. set l \<subseteq> set l' \<Longrightarrow> P x l' \<Longrightarrow> io_calls ok l' (f x) Q"
  shows "io_calls ok l (io_bind p f) Q"
  by (rule io_calls_bind, rule io_calls_conseq [OF io_calls_prefix [OF assms(1)]]) (use assms(2) set_mono_prefix in blast)

lemma io_calls_run: "calls ok l p (\<lambda>x l'. io_calls ok l' (f x) Q) \<Longrightarrow> io_calls ok l (run_then p f) Q"
  unfolding io_calls_def by (rule calls_then)

lemma io_calls_any: "io_calls ok l p P \<Longrightarrow> io_calls ok l p (\<lambda>_ _. True)"
  by (erule io_calls_conseq) simp

lemma request_retired_mono: "set l \<subseteq> set l' \<Longrightarrow> request_retired env l g a ref \<Longrightarrow> request_retired env l' g a ref"
  unfolding request_retired_def by (elim conjE exE, intro conjI exI) (erule (1) subsetD | assumption)+

lemma all_recorded_mono: "set l \<subseteq> set l' \<Longrightarrow> all_recorded env l g a gi \<Longrightarrow> all_recorded env l' g a gi"
  unfolding all_recorded_def by (elim conjE exE, intro conjI exI) (erule (1) subsetD | assumption)+

lemma gateways_retired_mono: "set l \<subseteq> set l' \<Longrightarrow> gateways_retired env l g a \<Longrightarrow> gateways_retired env l' g a"
  unfolding gateways_retired_def using request_retired_mono [of l l'] all_recorded_mono [of l l'] by blast

lemma evidence_mono:
  assumes "set l \<subseteq> set l'"
  shows "got_group l g \<Longrightarrow> got_group l' g" "pending l g a \<Longrightarrow> pending l' g a" "got_child env l g a c \<Longrightarrow> got_child env l' g a c"
    "got_machine l m \<Longrightarrow> got_machine l' m" "child_gone l g a \<Longrightarrow> child_gone l' g a" "machine_gone l g a \<Longrightarrow> machine_gone l' g a"
    "node_gone l a \<Longrightarrow> node_gone l' a" "frozen l g a \<Longrightarrow> frozen l' g a" "gateways_retired env l g a \<Longrightarrow> gateways_retired env l' g a"
  using assms gateways_retired_mono [OF assms]
  by (auto simp: got_group_def pending_def got_child_def got_machine_def child_gone_def machine_gone_def node_gone_def frozen_def dest: subsetD)

lemma drained_mono: "set l \<subseteq> set l' \<Longrightarrow> drained l a \<Longrightarrow> drained l' a"
  unfolding drained_def by (meson subsetD)

lemma withdrawn_mono: "set l \<subseteq> set l' \<Longrightarrow> withdrawn env vip port l g a \<Longrightarrow> withdrawn env vip port l' g a"
  unfolding withdrawn_def by (meson acknowledged_mono subsetD)

lemma got_group_simps [simp]: "got_group (l @ [Manages (On_group (Got g))]) g" "got_group (l @ [e, Manages (On_group (Got g))]) g"
  by (simp_all add: got_group_def)

section \<open>Reads\<close>

lemma manage_reads [simp]:
  "reads v \<Longrightarrow> may_manage env vip port l (Manages (On_group v))" "reads w \<Longrightarrow> may_manage env vip port l (Manages (On_claim w))"
  "reads x \<Longrightarrow> may_manage env vip port l (Manages (On_machine x))" "reads y \<Longrightarrow> may_manage env vip port l (Manages (On_secret y))"
  "reads z \<Longrightarrow> may_manage env vip port l (Manages (On_map z))" "reads n \<Longrightarrow> may_manage env vip port l (Manages (On_node n))"
  "reads n \<Longrightarrow> may_manage env vip port l (Works (On_node n))" "reads p \<Longrightarrow> may_manage env vip port l (Works (On_pod p))"
  by (auto split: verb.split)

lemma manage_reads_allowed: "reads_allowed Manages (may_manage env vip port)"
  by (simp add: reads_allowed_def del: may_manage.simps)

lemma unchanged_calls: "io_calls (may_manage env vip port) l (unchanged_group (log_cluster Manages c) g b msg) (\<lambda>_ _. True)"
  unfolding unchanged_group_def log_cluster_simps by (intro trace_intro) simp_all

text \<open>A record that was loaded is that of an object that was read.\<close>

definition loaded :: "'a attach_env_scheme \<Rightarrow> group_event list \<Rightarrow> string \<Rightarrow> attachment \<Rightarrow> bool" where
  "loaded env l k r =
     (\<exists>cm r0. Manages (On_map (Got cm)) \<in> set l \<and> json_lease env (index (km_data cm) ''record.json'') = Some r0 \<and> at_id r0 = k \<and>
        at_phase r0 = at_phase r \<and> at_lease r0 = at_lease r \<and> at_plan r0 = at_plan r)"

lemma lease_Load_calls:
  "io_calls (may_manage env' vip port) l (lease_Load env (Some (log_cluster Manages c)) ns k) (\<lambda>x l'. \<forall>r. x = Some r \<longrightarrow> loaded env l' k r)"
  unfolding lease_Load_def option.case log_cluster_simps
proof (rule io_calls_guard, rule io_calls_bind, rule io_calls_lookup, simp, simp, unfold option.case,
    rule io_calls_lift, simp, rule io_calls_bind, rule io_calls_lift, rule io_calls_guard, rule io_calls_lift, intro allI impI)
  fix cm :: kube_map and r0 x r
  assume h: "decoded ''decode attachment intent'' (json_lease env (index (km_data cm) ''record.json'')) = Inr r0" "at_id r0 = k"
    "Inr (Some (r0\<lparr>at_version := version_of cm, at_deleting := deleting cm\<rparr>)) = Inr x" "x = Some r"
  from h(1) have "json_lease env (index (km_data cm) ''record.json'') = Some r0" by (simp add: decoded_def split: option.splits)
  with h(2-) show "loaded env (l @ [(Manages \<circ> On_map) (Got cm)]) k r"
    unfolding loaded_def by (intro exI [of _ cm] exI [of _ r0]) auto
qed

lemma set_sink: "set (sink lt x ys) = insert x (set ys)"
  by (induction ys) auto

lemma set_sort_by: "set (sort_by lt xs) = set xs"
proof -
  have "set (fold (sink lt) xs acc) = set xs \<union> set acc" for acc by (induction xs arbitrary: acc) (auto simp: set_sink)
  then show ?thesis by (simp add: sort_by_def)
qed

lemma worker_refs_covers:
  "worker_refs env mesh worker cms = Inr refs \<Longrightarrow> cm \<in> set cms \<Longrightarrow> label cm RequestLabel = mesh \<or> annotation cm requestMeshOwner = mesh \<Longrightarrow>
    json_request env (index (km_data cm) ''request.json'') = Some req \<Longrightarrow> am_uid (gr_worker req) = am_uid worker \<Longrightarrow> (om_name cm, om_uid cm) \<in> set refs"
  by (induction cms arbitrary: refs) (auto split: if_splits option.splits sum.splits)

lemma WorkerRequests_calls:
  "io_calls (may_manage env' vip port) l (WorkerRequests env (log_cluster Manages c) ns mesh worker)
     (\<lambda>refs l'. \<exists>cms refs'. Manages (On_map (Lists (everything ns) cms)) \<in> set l' \<and> worker_refs env mesh worker cms = Inr refs' \<and> set refs = set refs')"
  unfolding WorkerRequests_def log_cluster_simps
proof (rule io_calls_guard, rule io_calls_bind, rule io_calls_list, simp, rule io_calls_bind, rule io_calls_lift, rule io_calls_lift)
  fix cms refs' refs
  assume "worker_refs env mesh worker cms = Inr refs'" "Inr (sort_by refLess refs') = Inr refs"
  then show "\<exists>cms' refs''. Manages (On_map (Lists (everything ns) cms')) \<in> set (l @ [(Manages \<circ> On_map) (Lists (everything ns) cms)]) \<and>
      worker_refs env mesh worker cms' = Inr refs'' \<and> set refs = set refs''"
    by (intro exI [of _ cms] exI [of _ refs']) (auto simp: set_sort_by)
qed

lemma remote_consumers_calls:
  "io_calls (may_manage env' vip port) l (remote_consumers env (log_cluster Manages c) ns data nodes machines planned names) (\<lambda>_ _. True)"
proof (induction names arbitrary: l)
  case (Cons name names)
  have "io_calls (may_manage env' vip port) l (remote_consumer env (log_cluster Manages c) ns data nodes machines planned name) (\<lambda>_ _. True)"
    unfolding remote_consumer_def Let_def log_cluster_simps by (intro trace_intro) simp_all
  then show ?case unfolding remote_consumers.simps by (rule io_calls_step) (rule io_calls_step [OF Cons.IH], rule io_calls_lift, simp)
qed (auto intro: trace_intro)

lemma resolveTargets_calls:
  "io_calls (may_manage env' vip port) l (resolveTargets env (log_cluster Manages c) ns data planned) (\<lambda>_ _. True)"
  unfolding resolveTargets_def log_cluster_simps
  by (intro trace_intro io_calls_step [OF remote_consumers_calls]) simp_all

lemma PublishedConsumers_calls:
  "io_calls (may_manage env' vip port) l (PublishedConsumers env \<lparr>cr_reader = Some (log_cluster Manages c), cr_namespace = ns, cr_secretName = n, cr_secretUID = u\<rparr> m) (\<lambda>_ _. True)"
  unfolding PublishedConsumers_def consumer_resolver.simps option.case
  by (rule io_calls_guard, rule io_calls_step [OF resolveTargets_calls]) (auto intro!: trace_intro)

lemma PrepareRemoteWithdrawal_calls:
  "io_calls (may_manage env' vip port) l
     (PrepareRemoteWithdrawal env \<lparr>cr_reader = Some (log_cluster Manages c), cr_namespace = ns, cr_secretName = n, cr_secretUID = u\<rparr> name worker intent) (\<lambda>_ _. True)"
  unfolding PrepareRemoteWithdrawal_def consumer_resolver.simps option.case log_cluster_simps Let_def
  by (intro trace_intro io_calls_step [OF resolveTargets_calls]) simp_all

end
