(* ===== verification/Removal_Order.thy ===== *)
theory Removal_Order
  imports Group_Trace
begin

text \<open>
  What the creation, the drain, the withdrawal and the removal of a group's child call, operation by operation: each
  keeps to \<open>may_manage\<close>, and establishes the evidence the next one relies on.
\<close>

section \<open>Status and creation\<close>

lemma put_action_calls:
  assumes "got_group l g" "action_moves env vip port l g (ng_pendingAction g) act"
  shows "io_calls (may_manage env vip port) l (put_action (log_cluster Manages c) g act msg) (\<lambda>g' l'. got_group l' g' \<and> ng_pendingAction g' = act)"
proof -
  have "may_record env vip port l (g\<lparr>ng_pendingAction := act\<rparr>)" unfolding may_record_def using assms by blast
  then show ?thesis unfolding put_action_def log_cluster_simps by (intro trace_intro) simp_all
qed

lemma clear_action_calls:
  assumes "got_group l g" "action_moves env vip port l g (ng_pendingAction g) None"
  shows "io_calls (may_manage env vip port) l (clear_action (log_cluster Manages c) g msg) (\<lambda>_ _. True)"
  unfolding clear_action_def by (rule io_calls_step [OF put_action_calls [OF assms]], rule io_calls_lift, simp)

lemma ReserveAction_calls:
  assumes "got_group l g"
  shows "io_calls (may_manage env vip port) l (ReserveAction env (Some (log_cluster Manages c)) g a) (\<lambda>_ _. True)"
  unfolding ReserveAction_def option.case
proof (rule io_calls_guard, rule io_calls_guard, rule io_calls_bind, rule io_calls_lift, rule io_calls_guard, rule io_calls_bind, rule io_calls_lift)
  fix name u
  assume "om_resourceVersion g \<noteq> [] \<and> ng_pendingAction g = None \<and> ga_generation a = om_generation g \<and> 1 \<le> ga_generation a \<and> ga_id a \<noteq> []"
    "new_reservation a" "childName env g (ga_ordinal a) = Inr name" "name = ga_childName a" "admissible_action g a = Inr u"
  then have "action_moves env vip port l g (ng_pendingAction g) (Some a)" by (auto intro: action_moves.reserve)
  from io_calls_any [OF put_action_calls [OF assms this]]
  show "io_calls (may_manage env vip port) l (put_action (log_cluster Manages c) g (Some a) ''persisted action differs from requested intent'') (\<lambda>_ _. True)" .
qed

lemma obtain_child_calls:
  assumes "\<not> deleting g \<Longrightarrow> may_create env l expected"
  shows "io_calls (may_manage env vip port) l (obtain_child (log_cluster Manages c) g expected) (\<lambda>_ _. True)"
  unfolding obtain_child_def log_cluster_simps
proof (rule io_calls_bind, rule io_calls_lookup, simp_all only: comp_apply option.case)
  let ?l = "l @ [Manages (On_claim (Missing (object_key expected)))]"
  have mc: "may_create env ?l expected" if "\<not> deleting g"
    using assms [OF that] unfolding may_create_def pending_def got_group_def by auto
  have "io_calls (may_manage env vip port) ?l (run_then (r_create (log_resource (Manages \<circ> On_claim) (k_claims c)) expected) (\<lambda>created.
      case created of Inl (AlreadyExists _) \<Rightarrow> api_io (r_get (log_resource (Manages \<circ> On_claim) (k_claims c)) (object_key expected))
      | Inl e \<Rightarrow> io_lift (Inl (api_message e)) | Inr actual \<Rightarrow> io_lift (Inr actual))) (\<lambda>_ _. True)" if "\<not> deleting g"
  proof (rule io_calls_run, unfold log_resource_def resource.simps, rule calls_logged)
    fix r :: "api_error + node_claim"
    show "permits (may_manage env vip port) ?l ((Manages \<circ> On_claim) (Creates expected) # on_success ((Manages \<circ> On_claim) \<circ> Got) r)"
      using mc [OF that] by (auto simp: on_success_def split: sum.split)
    have "io_calls (may_manage env vip port) l' (api_io (logged (read_event (Manages \<circ> On_claim) (object_key expected)) (r_get (k_claims c) (object_key expected)))) (\<lambda>_ _. True)" for l'
      by (rule io_calls_api, rule permits_read) simp_all
    then show "io_calls (may_manage env vip port) (?l @ (Manages \<circ> On_claim) (Creates expected) # on_success ((Manages \<circ> On_claim) \<circ> Got) r)
      (case r of Inl (AlreadyExists _) \<Rightarrow> api_io (logged (read_event (Manages \<circ> On_claim) (object_key expected)) (r_get (k_claims c) (object_key expected)))
      | Inl e \<Rightarrow> io_lift (Inl (api_message e)) | Inr actual \<Rightarrow> io_lift (Inr actual)) (\<lambda>_ _. True)"
      by (auto split: sum.split api_error.split intro: io_calls_lift)
  qed
  then show "io_calls (may_manage env vip port) ?l (if deleting g then io_lift (Inl (Error ''deleting group has an unfulfilled creation reservation''))
      else run_then (r_create (log_resource (Manages \<circ> On_claim) (k_claims c)) expected) (\<lambda>created.
      case created of Inl (AlreadyExists _) \<Rightarrow> api_io (r_get (log_resource (Manages \<circ> On_claim) (k_claims c)) (object_key expected))
      | Inl e \<Rightarrow> io_lift (Inl (api_message e)) | Inr actual \<Rightarrow> io_lift (Inr actual))) (\<lambda>_ _. True)"
    by (auto intro: io_calls_lift)
qed (simp_all add: io_calls_lift)

lemma ResumeCreation_calls:
  "io_calls (may_manage env vip port) l (ResumeCreation env (Some (log_cluster Manages c)) key uid aid) (\<lambda>_ _. True)"
  unfolding ResumeCreation_def option.case log_cluster_simps
proof (rule io_calls_guard, rule io_calls_bind, rule io_calls_get, simp, simp, rule io_calls_option, rule io_calls_fail, rule io_calls_option, rule io_calls_fail,
    rule io_calls_guard, rule io_calls_bind, rule io_calls_lift, rule io_calls_guard, rule io_calls_step [OF obtain_child_calls])
  fix g :: node_group and a t built
  let ?l = "l @ [(Manages \<circ> On_group) (Got g)]"
  assume h: "ng_pendingAction g = Some a" "creation_pending g a = Some t" "BuildChild env (g\<lparr>om_deletionTimestamp := None, ng_template := t\<rparr>) (ga_ordinal a) = Inr built"
    "om_name built = ga_childName a" "\<not> deleting g"
  have "om_namespace built = om_namespace g" "nc_spec built = t" using h(3) by (auto simp: BuildChild_def res_inv)
  with h show "may_create env ?l (built\<lparr>om_annotations := Mapping.update ActionAnnotation (ga_id a) (om_annotations built)\<rparr>)"
    unfolding may_create_def pending_def by (intro exI [of _ g] exI [of _ a] exI [of _ t]) (simp add: annotation_def index_def lookup_update)
qed (auto intro!: trace_intro)

lemma CompleteCreation_calls:
  assumes "got_group l g"
  shows "io_calls (may_manage env vip port) l (CompleteCreation env (Some (log_cluster Manages c)) g uid) (\<lambda>_ _. True)"
  unfolding CompleteCreation_def option.case log_cluster_simps
proof (rule io_calls_guard, rule io_calls_option, rule io_calls_fail, rule io_calls_option, rule io_calls_fail, rule io_calls_guard, rule io_calls_bind, rule io_calls_lift,
    rule io_calls_guard, rule io_calls_bind, rule io_calls_get, simp, simp, rule io_calls_bind, rule io_calls_lift, rule io_calls_guard)
  fix a t name and ch :: node_claim and x
  let ?l = "l @ [(Manages \<circ> On_claim) (Got ch)]"
  assume h: "ng_pendingAction g = Some a" "creation_pending g a = Some t" "ObserveChild env g ch = Inr x"
    "om_uid ch = uid \<and> annotation ch ActionAnnotation = ga_id a \<and> nc_spec ch = t \<and> \<not> deleting ch"
  have "action_moves env vip port ?l g (ng_pendingAction g) None"
    unfolding h(1) by (rule action_moves.created [OF h(2), of ch]) (use h(3,4) in \<open>auto simp: is_Inr_iff\<close>)
  moreover have "got_group ?l g" by (rule evidence_mono(1) [OF _ assms]) auto
  ultimately have "may_record env vip port ?l (g\<lparr>ng_pendingAction := None\<rparr>)" unfolding may_record_def by blast
  then show "io_calls (may_manage env vip port) ?l (api_io (r_status (log_resource (Manages \<circ> On_group) (k_groups c)) (g\<lparr>ng_pendingAction := None\<rparr>))) (\<lambda>_ _. True)"
    by (intro trace_intro) simp_all
qed

lemma CancelUnfulfilled_calls:
  assumes "got_group l g"
  shows "io_calls (may_manage env vip port) l (CancelUnfulfilledCreation env (Some (log_cluster Manages c)) g) (\<lambda>_ _. True)"
  unfolding CancelUnfulfilledCreation_def option.case
proof (rule io_calls_guard, rule io_calls_option, rule io_calls_fail, rule io_calls_guard, rule io_calls_bind, rule io_calls_lift, rule io_calls_guard,
    rule io_calls_step [OF unchanged_calls], rule io_calls_guard, unfold log_cluster_simps, rule io_calls_bind, rule io_calls_lookup, simp, simp)
  fix a name and current :: node_group and l1
  let ?l = "l1 @ [(Manages \<circ> On_claim) (Missing (om_namespace g, name))]"
  assume h: "om_uid g \<noteq> [] \<and> om_resourceVersion g \<noteq> [] \<and> deleting g" "ng_pendingAction g = Some a" "creation_pending g a \<noteq> None \<and> ga_id a \<noteq> []"
    "name = ga_childName a" "set l \<subseteq> set l1"
  have "action_moves env vip port ?l g (ng_pendingAction g) None"
    unfolding h(2) by (rule action_moves.unfulfilled) (use h(1,3,4) in \<open>auto simp: child_gone_def\<close>)
  moreover have "got_group ?l g" by (rule evidence_mono(1) [OF _ assms]) (use h(5) in auto)
  ultimately have "io_calls (may_manage env vip port) ?l (clear_action (log_cluster Manages c) g ''API did not retain creation cancellation'') (\<lambda>_ _. True)"
    by (intro clear_action_calls)
  then show "io_calls (may_manage env vip port) ?l (if None \<noteq> (None :: node_claim option) then io_lift (Inr False)
      else clear_action (log_cluster Manages c) g ''API did not retain creation cancellation'') (\<lambda>_ _. True)" by simp
qed (auto intro: io_calls_lift)

lemma delete_claim_calls:
  assumes "may_delete env l ch" "\<And>x. Q x (l @ [Manages (On_claim (Deletes ch (Some (om_uid ch)) (Some (om_resourceVersion ch))))])"
  shows "io_calls (may_manage env vip port) l (delete_exactly (log_resource (Manages \<circ> On_claim) r) ch) Q"
  unfolding delete_exactly_def by (rule io_calls_delete) (use assms in simp_all)

lemma cancel_unstarted_calls:
  assumes "got_group l g" "deleting g"
  shows "io_calls (may_manage env vip port) l (cancel_unstarted env (log_cluster Manages c) g cs) (\<lambda>_ _. True)"
proof (induction cs)
  case (Cons ch cs)
  have "may_delete env l ch" if "ObserveChild env g ch = Inr x" "\<not> (deleting ch \<or> ClaimFinalizer \<in> set (om_finalizers ch) \<or> draining_child g ch)" for x
    using that assms unfolding may_delete_def by (auto simp: is_Inr_iff)
  then show ?case unfolding cancel_unstarted.simps log_cluster_simps
    by (intro io_calls_bind io_calls_lift io_calls_if Cons.IH delete_claim_calls) (auto intro: io_calls_lift)
qed (auto intro: io_calls_lift)

section \<open>The target of a drain\<close>

lemma drain_machine_calls:
  "io_calls (may_manage env vip port) l (drain_machine env (log_cluster Manages c) g a)
     (\<lambda>m l'. got_machine l' m \<and> (ga_machineUID a = [] \<or> ga_machineUID a = om_uid m) \<and> (\<exists>ch. got_child env l' g a ch \<and> MachineOwnedByClaim m ch))"
  unfolding drain_machine_def log_cluster_simps
  by (intro trace_intro) (auto simp: got_machine_def got_child_def is_Inr_iff)

text \<open>Both ways to bind write the action only while no Node is bound.\<close>

definition bound_evidence :: "'a group_env_scheme \<Rightarrow> group_event list \<Rightarrow> node_group \<Rightarrow> group_action \<Rightarrow> machine \<Rightarrow> bool" where
  "bound_evidence env l g a m =
     (got_machine l m \<and> (ga_machineUID a = [] \<or> ga_machineUID a = om_uid m) \<and> (\<exists>ch. got_child env l g a ch \<and> MachineOwnedByClaim m ch))"

lemma bound_evidence_mono: "set l \<subseteq> set l' \<Longrightarrow> bound_evidence env l g a m \<Longrightarrow> bound_evidence env l' g a m"
  unfolding bound_evidence_def using evidence_mono(3,4) by blast

definition drain_pending :: "group_event list \<Rightarrow> node_group \<Rightarrow> bool" where
  "drain_pending l g = (\<exists>a. pending l g a \<and> drains a)"

lemma persist_calls:
  assumes "pending l g a" "drains t" "ng_pendingAction g \<noteq> Some t \<Longrightarrow> action_moves env vip port l g (Some a) (Some t)"
  shows "io_calls (may_manage env vip port) l (persistDrainTarget (log_cluster Manages c) g t) (\<lambda>g' l'. drain_pending l' g')"
proof -
  have g: "got_group l g" "ng_pendingAction g = Some a" using assms(1) by (auto simp: pending_def)
  show ?thesis unfolding persistDrainTarget_def
  proof (rule io_calls_if)
    assume "ng_pendingAction g = Some t"
    with g assms(2) have "drain_pending l g" by (auto simp: drain_pending_def pending_def)
    then show "io_calls (may_manage env vip port) l (io_lift (Inr g)) (\<lambda>g' l'. drain_pending l' g')" by (intro io_calls_lift) simp
  next
    assume "ng_pendingAction g \<noteq> Some t"
    then have "action_moves env vip port l g (ng_pendingAction g) (Some t)" using assms(3) g(2) by simp
    from put_action_calls [OF g(1) this] show "io_calls (may_manage env vip port) l (put_action (log_cluster Manages c) g (Some t) ''API did not retain drain target'') (\<lambda>g' l'. drain_pending l' g')"
      by (rule io_calls_conseq) (use assms(2) in \<open>auto simp: drain_pending_def pending_def\<close>)
  qed
qed

lemma persist_machine_calls:
  assumes "pending l g a" "drains a" "bound_evidence env l g a m" "ga_nodeUID a = []"
  shows "io_calls (may_manage env vip port) l (persistDrainTarget (log_cluster Manages c) g (bound_machine a m)) (\<lambda>g' l'. drain_pending l' g')"
  by (rule persist_calls [OF assms(1)])
     (use assms(2-) in \<open>auto simp: drains_def bound_machine_def bound_evidence_def intro: action_moves.bind_machine [unfolded bound_machine_def drains_def]\<close>)

lemma persist_node_calls:
  assumes "pending l g a" "drains a" "bound_evidence env l g a m" "ga_nodeUID a = []" "Works (On_node (Got n)) \<in> set l" "node_association m n"
  shows "io_calls (may_manage env vip port) l (persistDrainTarget (log_cluster Manages c) g (bound_node a m n)) (\<lambda>g' l'. drain_pending l' g')"
proof (rule persist_calls [OF assms(1)])
  show "drains (bound_node a m n)" using assms(2) by (simp add: drains_def bound_node_def bound_machine_def)
  show "action_moves env vip port l g (Some a) (Some (bound_node a m n))"
    using assms(2-) by (auto simp: bound_evidence_def intro: action_moves.bind_node)
qed

lemma BindDrainNode_calls:
  assumes "got_group l g"
  shows "io_calls (may_manage env vip port) l (BindDrainNode env (Some (log_cluster Manages c)) (map_option (log_cluster Works) wl) gvk g)
    (\<lambda>x l'. drain_pending l' (fst x))"
proof (cases wl)
  case None
  then show ?thesis by (simp add: BindDrainNode_def io_calls_fail)
next
  case (Some w)
  show ?thesis unfolding Some option.map BindDrainNode_def prod.case option.case Let_def
  proof (rule io_calls_guard, rule io_calls_option, rule io_calls_fail, rule io_calls_guard, rule io_calls_step [OF drain_machine_calls], rule io_calls_if)
    fix a m l1
    assume h: "ng_pendingAction g = Some a" "ga_type a = DrainAction \<and> ga_id a \<noteq> [] \<and> ga_childUID a \<noteq> [] \<and> ga_template a = None" "set l \<subseteq> set l1"
      "got_machine l1 m \<and> (ga_machineUID a = [] \<or> ga_machineUID a = om_uid m) \<and> (\<exists>ch. got_child env l1 g a ch \<and> MachineOwnedByClaim m ch)"
    have dr: "drains a" using h(2) by (simp add: drains_def)
    have pend: "pending l' g a" if "set l1 \<subseteq> set l'" for l'
      using evidence_mono(1) [of l l'] assms h(1,3) that by (auto simp: pending_def)
    have ev: "bound_evidence env l' g a m" if "set l1 \<subseteq> set l'" for l'
      by (rule bound_evidence_mono [OF that]) (simp add: bound_evidence_def h(4))
    have unresolved: "io_calls (may_manage env vip port) l' (io_bind (persistDrainTarget (log_cluster Manages c) g (bound_machine a m)) (\<lambda>bound. io_lift (Inr (bound, False))))
        (\<lambda>x l'. drain_pending l' (fst x))" if "set l1 \<subseteq> set l'" "ga_nodeUID a = []" for l'
      by (rule io_calls_step [OF persist_machine_calls [OF pend [OF that(1)] dr ev [OF that(1)] that(2)]], rule io_calls_lift) auto
    show "io_calls (may_manage env vip port) l1 (io_bind (io_lift (guard (ga_nodeName a = [] \<and> ga_nodeUID a = []) ''persisted drain Node association disappeared''))
        (\<lambda>_. io_bind (persistDrainTarget (log_cluster Manages c) g (bound_machine a m)) (\<lambda>bound. io_lift (Inr (bound, False))))) (\<lambda>x l'. drain_pending l' (fst x))"
      by (rule io_calls_guard) (use unresolved in auto)
    let ?key = "([], node_ref m ''name'')"
    show "io_calls (may_manage env vip port) l1 (run_then (r_get (k_nodes (log_cluster Works w)) ?key) (\<lambda>answer. case answer of
          Inl e \<Rightarrow> (case e of
              NotFound _ \<Rightarrow> if ga_nodeName a = [] \<and> ga_nodeUID a = [] then io_bind (persistDrainTarget (log_cluster Manages c) g (bound_machine a m)) (\<lambda>bound. io_lift (Inr (bound, False)))
                else io_lift (Inl (api_message e))
            | _ \<Rightarrow> io_lift (Inl (api_message e)))
        | Inr node \<Rightarrow> io_bind (io_lift (guard (node_association m node) ''workload Node association changed'')) (\<lambda>_.
            if ga_nodeName a \<noteq> [] \<or> ga_nodeUID a \<noteq> []
              then io_bind (io_lift (guard (a = bound_node a m node) ''persisted drain target changed'')) (\<lambda>_. io_lift (Inr (g, True)))
            else io_bind (persistDrainTarget (log_cluster Manages c) g (bound_node a m node)) (\<lambda>bound. io_lift (Inr (bound, True)))))) (\<lambda>x l'. drain_pending l' (fst x))"
      unfolding log_cluster_simps log_resource_def resource.simps
    proof (rule io_calls_run, rule calls_logged, rule permits_read)
      fix r :: "api_error + kube_node"
      let ?l = "l1 @ read_event (Works \<circ> On_node) ?key r"
      have sub: "set l1 \<subseteq> set ?l" by simp
      have gd: "drain_pending ?l g" using pend [OF sub] dr by (auto simp: drain_pending_def)
      have node: "io_calls (may_manage env vip port) ?l (io_bind (io_lift (guard (node_association m n) ''workload Node association changed'')) (\<lambda>_.
            if ga_nodeName a \<noteq> [] \<or> ga_nodeUID a \<noteq> []
              then io_bind (io_lift (guard (a = bound_node a m n) ''persisted drain target changed'')) (\<lambda>_. io_lift (Inr (g, True)))
            else io_bind (persistDrainTarget (log_cluster Manages c) g (bound_node a m n)) (\<lambda>bound. io_lift (Inr (bound, True))))) (\<lambda>x l'. drain_pending l' (fst x))"
        if "r = Inr n" for n
      proof (rule io_calls_guard, rule io_calls_if, rule io_calls_guard, rule io_calls_lift, use gd in clarsimp)
        assume "node_association m n" "\<not> (ga_nodeName a \<noteq> [] \<or> ga_nodeUID a \<noteq> [])"
        moreover have "Works (On_node (Got n)) \<in> set ?l" using that by (simp add: read_event_def)
        ultimately show "io_calls (may_manage env vip port) ?l (io_bind (persistDrainTarget (log_cluster Manages c) g (bound_node a m n)) (\<lambda>bound. io_lift (Inr (bound, True)))) (\<lambda>x l'. drain_pending l' (fst x))"
          by (intro io_calls_step [OF persist_node_calls [OF pend [OF sub] dr ev [OF sub]]] io_calls_lift) auto
      qed
      show "io_calls (may_manage env vip port) ?l (case r of
          Inl e \<Rightarrow> (case e of
              NotFound _ \<Rightarrow> if ga_nodeName a = [] \<and> ga_nodeUID a = [] then io_bind (persistDrainTarget (log_cluster Manages c) g (bound_machine a m)) (\<lambda>bound. io_lift (Inr (bound, False)))
                else io_lift (Inl (api_message e))
            | _ \<Rightarrow> io_lift (Inl (api_message e)))
        | Inr node \<Rightarrow> io_bind (io_lift (guard (node_association m node) ''workload Node association changed'')) (\<lambda>_.
            if ga_nodeName a \<noteq> [] \<or> ga_nodeUID a \<noteq> []
              then io_bind (io_lift (guard (a = bound_node a m node) ''persisted drain target changed'')) (\<lambda>_. io_lift (Inr (g, True)))
            else io_bind (persistDrainTarget (log_cluster Manages c) g (bound_node a m node)) (\<lambda>bound. io_lift (Inr (bound, True))))) (\<lambda>x l'. drain_pending l' (fst x))"
        using unresolved [OF sub] node by (auto split: sum.split api_error.split intro!: io_calls_fail)
    qed simp_all
  qed
qed

lemma drainWorker_Inr:
  "drainWorker g = Inr (w, a) \<Longrightarrow> ng_pendingAction g = Some a \<and> drains a \<and> am_uid w = ga_machineUID a \<and> am_nodeUID w = ga_nodeUID a \<and> am_providerID w = ga_providerID a"
  by (auto simp: drainWorker_def drains_def split: option.splits if_splits)

section \<open>Gateway requests\<close>

lemma RetireWorkerRequest_calls:
  assumes "pending l g a" "drains a" "ga_gateways a = Some gi" "(name, uid) \<in> set (gi_requests gi)"
    and worker: "am_uid worker = ga_machineUID a" "am_nodeUID worker = ga_nodeUID a" "am_providerID worker = ga_providerID a"
  shows "io_calls (may_manage env' vip port) l (RetireWorkerRequest env (log_cluster Manages c) (om_namespace g) mesh name uid worker)
    (\<lambda>b l'. b \<longrightarrow> request_retired env l' g a (name, uid))"
  unfolding RetireWorkerRequest_def
proof (rule io_calls_guard, rule io_calls_step [OF lease_Load_calls], rule io_calls_option, rule io_calls_fail, rule io_calls_guard, unfold log_cluster_simps,
    rule io_calls_bind, rule io_calls_lookup)
  fix x l1 rec
  assume h: "\<forall>r. x = Some r \<longrightarrow> loaded env l1 (om_namespace g @ ''/'' @ name @ ''/'' @ uid) r" "x = Some rec"
    "at_lease rec \<noteq> [] \<and> same_worker worker (gl_worker (at_plan rec))"
  from h(1,2) have "loaded env l1 (om_namespace g @ ''/'' @ name @ ''/'' @ uid) rec" by blast
  then have "request_retired env (l1 @ [Manages (On_map (Missing (om_namespace g, name)))]) g a (name, uid)" if "at_phase rec = Complete"
    using that h(3) worker by (auto simp: loaded_def request_retired_def same_worker_def)
  then show "io_calls (may_manage env' vip port) (l1 @ [(Manages \<circ> On_map) (Missing (om_namespace g, name))])
      (case None of None \<Rightarrow> io_lift (Inr (at_phase rec = Complete)) | Some cm \<Rightarrow>
      io_bind (io_lift (guard (om_uid cm = uid \<and> annotation cm requestMeshOwner = mesh) ''gateway request ownership changed'')) (\<lambda>_.
      io_bind (io_lift (decoded ''decode gateway request'' (json_request env (index (km_data cm) ''request.json'')))) (\<lambda>request.
      io_bind (io_lift (guard (same_worker worker (gr_worker request)) ''gateway request now describes another worker'')) (\<lambda>_.
      if deleting cm then io_lift (Inr False)
      else io_bind (api_io (r_delete (log_resource (Manages \<circ> On_map) (k_maps c)) cm (Some uid) (Some (om_resourceVersion cm)))) (\<lambda>_. io_lift (Inr False))))))
      (\<lambda>b l'. b \<longrightarrow> request_retired env l' g a (name, uid))"
    unfolding option.case by (intro io_calls_lift) simp
next
  fix x l1 rec and cm :: kube_map
  assume "set l \<subseteq> set l1"
  let ?l = "l1 @ [(Manages \<circ> On_map) (Got cm)]"
  have "may_retire_request ?l cm" if "om_uid cm = uid"
    unfolding may_retire_request_def using assms evidence_mono(2) [of l ?l g a] \<open>set l \<subseteq> set l1\<close> that by auto
  then show "io_calls (may_manage env' vip port) ?l (case Some cm of None \<Rightarrow> io_lift (Inr (at_phase rec = Complete)) | Some cm \<Rightarrow>
      io_bind (io_lift (guard (om_uid cm = uid \<and> annotation cm requestMeshOwner = mesh) ''gateway request ownership changed'')) (\<lambda>_.
      io_bind (io_lift (decoded ''decode gateway request'' (json_request env (index (km_data cm) ''request.json'')))) (\<lambda>request.
      io_bind (io_lift (guard (same_worker worker (gr_worker request)) ''gateway request now describes another worker'')) (\<lambda>_.
      if deleting cm then io_lift (Inr False)
      else io_bind (api_io (r_delete (log_resource (Manages \<circ> On_map) (k_maps c)) cm (Some uid) (Some (om_resourceVersion cm)))) (\<lambda>_. io_lift (Inr False))))))
      (\<lambda>b l'. b \<longrightarrow> request_retired env l' g a (name, uid))"
    unfolding option.case by (intro trace_intro) auto
qed simp_all

lemma retire_requests_calls:
  assumes "pending l g a" "drains a" "ga_gateways a = Some gi" "set refs \<subseteq> set (gi_requests gi)"
    and worker: "am_uid worker = ga_machineUID a" "am_nodeUID worker = ga_nodeUID a" "am_providerID worker = ga_providerID a"
  shows "io_calls (may_manage env' vip port) l (retire_requests env (log_cluster Manages c) (om_namespace g) mesh worker refs)
    (\<lambda>b l'. b \<longrightarrow> (\<forall>ref \<in> set refs. request_retired env l' g a ref))"
  using assms(1,4)
proof (induction refs arbitrary: l)
  case (Cons ref refs)
  have "(fst ref, snd ref) \<in> set (gi_requests gi)" using Cons.prems(2) by simp
  from RetireWorkerRequest_calls [OF Cons.prems(1) assms(2,3) this worker] show ?case unfolding retire_requests.simps
  proof (rule io_calls_step, intro io_calls_if)
    fix b l1
    assume h: "set l \<subseteq> set l1" "b \<longrightarrow> request_retired env l1 g a (fst ref, snd ref)" "\<not> \<not> b"
    have kept: "request_retired env l' g a ref" if "prefix l1 l'" for l'
      using h(2,3) request_retired_mono [OF set_mono_prefix [OF that]] by simp
    show "io_calls (may_manage env' vip port) l1 (retire_requests env (log_cluster Manages c) (om_namespace g) mesh worker refs)
        (\<lambda>b l'. b \<longrightarrow> (\<forall>ref \<in> set (ref # refs). request_retired env l' g a ref))"
      by (rule io_calls_conseq [OF io_calls_prefix [OF Cons.IH [OF evidence_mono(2) [OF h(1) Cons.prems(1)]]]])
         (use kept Cons.prems(2) in auto)
  qed (rule io_calls_lift, simp)
qed (auto intro: io_calls_lift)

lemma known_requests_set: "known_requests known refs = Inr known' \<Longrightarrow> set known' = set known \<union> set refs"
  by (induction refs arbitrary: known) (auto split: if_splits)

lemma all_recordedI:
  assumes "Manages (On_map (Lists (everything (om_namespace g)) cms)) \<in> set l" "worker_refs env (gi_mesh gi) w cms = Inr refs'" "set current = set refs'"
    and "known_requests [] (gi_requests gi) = Inr known" "list_all (\<lambda>ref. map_of known (fst ref) = Some (snd ref)) current"
    and "am_uid w = ga_machineUID a"
  shows "all_recorded env l g a gi"
proof -
  have "ref \<in> set (gi_requests gi)" if "ref \<in> set refs'" for ref
  proof -
    from that assms(3,5) have "map_of known (fst ref) = Some (snd ref)" by (auto simp: list_all_iff)
    then have "ref \<in> set known" by (auto dest: map_of_SomeD)
    with known_requests_set [OF assms(4)] show ?thesis by simp
  qed
  with worker_refs_covers [OF assms(2)] assms(1,6) show ?thesis unfolding all_recorded_def everything_def by (intro exI [of _ cms] conjI) auto
qed

lemma RetireGatewayInventory_calls:
  assumes "pending l g a"
  shows "io_calls (may_manage env' vip port) l (RetireGatewayInventory env (Some (log_cluster Manages c)) g) (\<lambda>b l'. b \<longrightarrow> gateways_retired env l' g a)"
  unfolding RetireGatewayInventory_def
proof (rule io_calls_bind, rule io_calls_lift, rule io_calls_prod)
  fix x w a'
  assume "drainWorker g = Inr x" "x = (w, a')"
  with assms have a: "a' = a" "drains a" and worker: "am_uid w = ga_machineUID a" "am_nodeUID w = ga_nodeUID a" "am_providerID w = ga_providerID a"
    by (auto dest!: drainWorker_Inr simp: pending_def)
  show "io_calls (may_manage env' vip port) l (case (Some (log_cluster Manages c), ga_gateways a') of (Some c, Some inventory) \<Rightarrow>
      io_bind (io_lift (guard (gi_mesh inventory \<noteq> []) ''persisted gateway inventory required'')) (\<lambda>_.
      io_bind (WorkerRequests env c (om_namespace g) (gi_mesh inventory) w) (\<lambda>current.
      io_bind (io_lift (known_requests [] (gi_requests inventory))) (\<lambda>known.
      io_bind (io_lift (guard (list_all (\<lambda>ref. map_of known (fst ref) = Some (snd ref)) current) ''gateway request inventory changed during drain'')) (\<lambda>_.
      retire_requests env c (om_namespace g) (gi_mesh inventory) w (gi_requests inventory)))))
      | _ \<Rightarrow> io_lift (Inl (Error ''persisted gateway inventory required''))) (\<lambda>b l'. b \<longrightarrow> gateways_retired env l' g a)"
  proof (cases "ga_gateways a")
    case (Some gi)
    show ?thesis unfolding a Some prod.case option.case
    proof (rule io_calls_guard, rule io_calls_step [OF WorkerRequests_calls], rule io_calls_bind, rule io_calls_lift, rule io_calls_guard,
          rule io_calls_conseq [OF io_calls_prefix [OF retire_requests_calls [OF evidence_mono(2) [OF _ assms] a(2) Some _ worker]]], assumption, rule subset_refl)
      fix current l1 known b l'
      assume h: "\<exists>cms refs'. Manages (On_map (Lists (everything (om_namespace g)) cms)) \<in> set l1 \<and> worker_refs env (gi_mesh gi) w cms = Inr refs' \<and> set current = set refs'"
        "known_requests [] (gi_requests gi) = Inr known" "list_all (\<lambda>ref. map_of known (fst ref) = Some (snd ref)) current"
        "prefix l1 l' \<and> (b \<longrightarrow> (\<forall>ref \<in> set (gi_requests gi). request_retired env l' g a ref))"
      from h(1) obtain cms refs' where "Manages (On_map (Lists (everything (om_namespace g)) cms)) \<in> set l1" "worker_refs env (gi_mesh gi) w cms = Inr refs'"
        "set current = set refs'" by blast
      from all_recordedI [OF this h(2,3) worker(1)] have "all_recorded env l' g a gi"
        using all_recorded_mono [OF set_mono_prefix] h(4) by blast
      with h(4) Some show "b \<longrightarrow> gateways_retired env l' g a" unfolding gateways_retired_def by blast
    qed
  qed (simp add: a io_calls_fail)
qed

lemma CaptureGatewayInventory_calls:
  assumes "pending l g a" "drained l a"
  shows "io_calls (may_manage env vip port) l (CaptureGatewayInventory env (Some (log_cluster Manages c)) g mesh) (\<lambda>_ _. True)"
  unfolding CaptureGatewayInventory_def option.case
proof (rule io_calls_bind, rule io_calls_lift, rule io_calls_prod, rule io_calls_guard, rule io_calls_step [OF WorkerRequests_calls], rule io_calls_any, rule put_action_calls)
  fix x w a' refs l1
  assume h: "drainWorker g = Inr x" "x = (w, a')" "ga_gateways a' = None" "set l \<subseteq> set l1"
  with assms have a: "a' = a" "drains a" "ng_pendingAction g = Some a" by (auto dest!: drainWorker_Inr simp: pending_def)
  show "got_group l1 g" using evidence_mono(1) [OF h(4)] assms(1) by (simp add: pending_def)
  show "action_moves env vip port l1 g (ng_pendingAction g) (Some (a'\<lparr>ga_gateways := Some \<lparr>gi_mesh = mesh, gi_requests = refs\<rparr>\<rparr>))"
    unfolding a by (rule action_moves.gateways) (use a h(3) drained_mono [OF h(4) assms(2)] in auto)
qed

lemma Freeze_calls:
  assumes "pending l g a"
  shows "io_calls (may_manage env' vip port) l (FreezeGatewayAttachments (Some (log_cluster Manages c)) gvk g) (\<lambda>b l'. b \<longrightarrow> frozen l' g a)"
  unfolding FreezeGatewayAttachments_def option.case log_cluster_simps
proof (rule io_calls_bind, rule io_calls_lift, rule io_calls_prod, rule io_calls_guard, rule io_calls_bind, rule io_calls_get, simp, simp, rule io_calls_guard)
  fix x w a' and m :: machine
  let ?l = "l @ [(Manages \<circ> On_machine) (Got m)]"
  assume "drainWorker g = Inr x" "x = (w, a')" and m: "om_uid m = am_uid w \<and> mc_providerID m = am_providerID w \<and> \<not> deleting m"
  with assms have a: "a' = a" "drains a" "am_uid w = ga_machineUID a" "am_providerID w = ga_providerID a" "ng_pendingAction g = Some a"
    by (auto dest!: drainWorker_Inr simp: pending_def)
  have "may_mark ?l m (annotate DrainIntentAnnotation (drain_intent g a) m)" if "annotation m DrainIntentAnnotation = []"
    unfolding may_mark_def using assms a m that evidence_mono(2) [of l ?l g a] by (auto simp: got_machine_def drains_def)
  then show "io_calls (may_manage env' vip port) ?l (if annotation m DrainIntentAnnotation \<noteq> []
      then io_bind (io_lift (guard (annotation m DrainIntentAnnotation = drain_intent g a') ''Machine belongs to another drain action'')) (\<lambda>_. io_lift (Inr True))
      else io_bind (api_io (r_patch (log_resource (Manages \<circ> On_machine) (k_machines c)) m (annotate DrainIntentAnnotation (drain_intent g a') m))) (\<lambda>_. io_lift (Inr False)))
      (\<lambda>b l'. b \<longrightarrow> frozen l' g a)"
    unfolding a by (intro trace_intro) (use m a in \<open>auto simp: frozen_def got_machine_def\<close>)
qed

section \<open>Draining the node\<close>

lemma evict_calls:
  assumes "may_evict l p" "\<And>l'. Q False l'"
  shows "io_calls (may_manage env vip port) l (evict (log_cluster Works w) p) Q"
  unfolding io_calls_def calls_def evict_def log_cluster_simps logged_def
  using assms by (auto split: prod.split sum.split api_error.split)

lemma drain_pods_calls:
  assumes "pending l g a" "drains a" "Works (On_node (Got n)) \<in> set l" "om_uid n = ga_nodeUID a" "kn_unschedulable n"
  shows "io_calls (may_manage env vip port) l (drain_pods (log_cluster Works w) (ga_nodeName a) pods)
    (\<lambda>b l'. b \<longrightarrow> set l \<subseteq> set l' \<and> (\<forall>p \<in> set pods. kp_nodeName p = ga_nodeName a \<and> stays p))"
proof (induction pods)
  case (Cons p pods)
  have "may_evict l p" if "kp_nodeName p = ga_nodeName a" "\<not> stays p" "\<not> deleting p"
    unfolding may_evict_def using assms that by blast
  then show ?case unfolding drain_pods.simps DrainPodExempt_stays
    by (intro io_calls_if io_calls_fail io_calls_lift evict_calls io_calls_conseq [OF Cons.IH]) auto
qed (auto intro: io_calls_lift)

lemma DrainNode_calls:
  assumes "pending l g a" "drains a"
  shows "io_calls (may_manage env vip port) l (DrainNode (map_option (log_cluster Works) wl) (ga_nodeName a) (ga_nodeUID a)) (\<lambda>b l'. b \<longrightarrow> drained l' a)"
proof (cases wl)
  case (Some w)
  show ?thesis unfolding Some option.map DrainNode_def option.case log_cluster_simps
  proof (rule io_calls_guard, rule io_calls_bind, rule io_calls_get, simp, simp, rule io_calls_guard, rule io_calls_if)
    fix n :: kube_node
    let ?l = "l @ [(Works \<circ> On_node) (Got n)]"
    assume h: "om_uid n = ga_nodeUID a \<and> \<not> deleting n"
    have p: "pending l' g a" if "set l \<subseteq> set l'" for l' using evidence_mono(2) [OF that assms(1)] .
    { assume "\<not> kn_unschedulable n"
      have "may_cordon ?l (n\<lparr>kn_unschedulable := True\<rparr>)" unfolding may_cordon_def using p [of ?l] assms(2) h by auto
      then show "io_calls (may_manage env vip port) ?l (io_bind (api_io (r_update (log_resource (Works \<circ> On_node) (k_nodes w)) (n\<lparr>kn_unschedulable := True\<rparr>))) (\<lambda>_. io_lift (Inr False)))
          (\<lambda>b l'. b \<longrightarrow> drained l' a)" by (intro trace_intro) simp_all }
    assume u: "\<not> \<not> kn_unschedulable n"
    show "io_calls (may_manage env vip port) ?l (io_bind (api_io (r_list (log_resource (Works \<circ> On_pod) (k_pods w)) \<lparr>lo_namespace = [], lo_label = None, lo_field = Some (''spec.nodeName'', ga_nodeName a)\<rparr>))
        (\<lambda>pods. drain_pods (log_cluster Works w) (ga_nodeName a) (sort_by podLess pods))) (\<lambda>b l'. b \<longrightarrow> drained l' a)"
    proof (rule io_calls_bind, rule io_calls_list, simp)
      fix pods :: "kube_pod list"
      let ?m = "?l @ [(Works \<circ> On_pod) (Lists \<lparr>lo_namespace = [], lo_label = None, lo_field = Some (''spec.nodeName'', ga_nodeName a)\<rparr> pods)]"
      have evidence: "pending ?m g a" "Works (On_node (Got n)) \<in> set ?m" by (auto intro: p)
      have "drained l' a" if "set ?m \<subseteq> set l'" "\<forall>p \<in> set pods. kp_nodeName p = ga_nodeName a \<and> stays p" for l'
        unfolding drained_def using that h u by (intro exI [of _ n] exI [of _ pods]) auto
      then show "io_calls (may_manage env vip port) ?m (drain_pods (log_cluster Works w) (ga_nodeName a) (sort_by podLess pods)) (\<lambda>b l'. b \<longrightarrow> drained l' a)"
        using h u evidence assms(2) by (intro io_calls_conseq [OF drain_pods_calls [of _ g a n]]) (auto simp: set_sort_by)
    qed
  qed
qed (simp add: DrainNode_def io_calls_fail)

section \<open>The withdrawal\<close>

lemma CapturePeerWithdrawal_calls:
  assumes "pending l g a" "drained l a" "frozen l g a"
  shows "io_calls (may_manage env vip port) l (CapturePeerWithdrawal env (Some (log_cluster Manages c)) g) (\<lambda>_ _. True)"
  unfolding CapturePeerWithdrawal_def
proof (rule io_calls_bind, rule io_calls_lift, rule io_calls_prod)
  fix x w a'
  assume "drainWorker g = Inr x" "x = (w, a')"
  with assms have a: "a' = a" "drains a" by (auto dest!: drainWorker_Inr simp: pending_def)
  have put: "io_calls (may_manage env vip port) l' (put_action (log_cluster Manages c) g (Some (a\<lparr>ga_withdrawal := Some wd\<rparr>)) msg) (\<lambda>_ _. True)"
    if "set l \<subseteq> set l'" "gateways_retired env l' g a" "ga_withdrawal a = None" for l' wd msg
  proof (rule io_calls_any, rule put_action_calls)
    show "got_group l' g" using evidence_mono(2) [OF that(1) assms(1)] by (simp add: pending_def)
    show "action_moves env vip port l' g (ng_pendingAction g) (Some (a\<lparr>ga_withdrawal := Some wd\<rparr>))"
      using assms(1) action_moves.capture [OF a(2) drained_mono [OF that(1) assms(2)] evidence_mono(8) [OF that(1) assms(3)] that(2,3)] by (simp add: pending_def)
  qed
  show "io_calls (may_manage env vip port) l (case (Some (log_cluster Manages c), ga_gateways a') of
       (Some c, Some inventory) \<Rightarrow>
         io_bind (io_lift (guard (gi_mesh inventory \<noteq> [] \<and> ga_withdrawal a' = None) ''gateway inventory and new withdrawal capture required'')) (\<lambda>_.
         io_bind (RetireGatewayInventory env (Some (log_cluster Manages c0)) g) (\<lambda>finished.
         io_bind (io_lift (guard finished ''gateway retirement must finish before direct withdrawal capture'')) (\<lambda>_.
         io_bind (api_io (r_get (k_secrets c) (om_namespace g, gi_mesh inventory))) (\<lambda>m.
         io_bind (PrepareRemoteWithdrawal env
                    \<lparr>cr_reader = Some c, cr_namespace = om_namespace g, cr_secretName = om_name m, cr_secretUID = om_uid m\<rparr>
                    (ga_childName a') w (drain_intent g a')) (\<lambda>intent.
         put_action c g
           (Some (a'\<lparr>ga_withdrawal := Some \<lparr>pw_meshName = rw_meshName intent, pw_meshUID = rw_meshUID intent,
              pw_sourceVersion = rw_sourceVersion intent, pw_sourceDataHash = rw_sourceDataHash intent, pw_publicKey = rw_publicKey intent,
              pw_consumers = rw_consumers intent\<rparr>\<rparr>))
           ''API did not retain direct withdrawal inventory'')))))
     | _ \<Rightarrow> io_lift (Inl (Error ''gateway inventory and new withdrawal capture required''))) (\<lambda>_ _. True)" for c0
  proof (cases "ga_gateways a")
    case (Some gi)
    show ?thesis unfolding a Some prod.case option.case log_cluster_simps
      by (rule io_calls_guard, rule io_calls_step [OF RetireGatewayInventory_calls [OF assms(1)]], rule io_calls_guard, rule io_calls_bind, rule io_calls_get, simp, simp,
          rule io_calls_step [OF PrepareRemoteWithdrawal_calls], rule put)
         (auto intro: evidence_mono(9))
  qed (simp add: a io_calls_fail)
qed

lemma withdrawal_published_calls:
  assumes "WithdrawRemotePeer (ks_data m) name key = Inr (data, b)" "may_withdraw env l (m\<lparr>ks_data := data\<rparr>)"
  shows "io_calls (may_manage env vip port) l (PublishRemoteWithdrawal (Some (log_cluster Manages c)) m name key)
    (\<lambda>p l'. Manages (On_secret (Updates (m\<lparr>ks_data := data\<rparr>))) \<in> set l' \<and> Manages (On_secret (Got p)) \<in> set l')"
  unfolding PublishRemoteWithdrawal_def option.case log_cluster_simps assms(1)
  by (intro trace_intro) (use assms(2) in auto)

lemma withdrawn_by_ack:
  assumes "ga_withdrawal a = Some wd" "om_uid m = pw_meshUID wd" "WithdrawRemotePeer (ks_data m) (ga_childName a) (pw_publicKey wd) = Inr (data, b)"
    "Manages (On_secret (Updates (m\<lparr>ks_data := data\<rparr>))) \<in> set l" "Manages (On_secret (Got p)) \<in> set l"
    "SnapshotConsumers env (m\<lparr>ks_data := data\<rparr>) (pw_consumers wd) vip port = Inr cs" "\<forall>x \<in> set cs. acknowledged Manages env l p x"
  shows "withdrawn env vip port l g a"
  unfolding withdrawn_def using assms by blast

lemma ApplyPeerWithdrawal_calls:
  assumes "pending l g a" "drained l a"
  shows "io_calls (may_manage env vip port) l (ApplyPeerWithdrawal env (Some (log_cluster Manages c)) gvk g vip port)
    (\<lambda>b l'. b \<longrightarrow> frozen l' g a \<and> gateways_retired env l' g a \<and> withdrawn env vip port l' g a)"
  unfolding ApplyPeerWithdrawal_def prod.case option.case
proof (rule io_calls_bind, rule io_calls_lift, rule io_calls_prod, rule io_calls_option, rule io_calls_fail, rule io_calls_option, rule io_calls_fail,
    rule io_calls_guard, rule io_calls_guard, rule io_calls_step [OF unchanged_calls])
  fix x w a' wd gi u l1
  assume a': "drainWorker g = Inr x" "x = (w, a')" and wd: "ga_withdrawal a' = Some wd" and s1: "set l \<subseteq> set l1"
  from a' assms have a: "a' = a" "drains a" by (auto dest!: drainWorker_Inr simp: pending_def)
  note wd = wd [unfolded a]
  let ?Q = "\<lambda>b l'. b \<longrightarrow> frozen l' g a \<and> gateways_retired env l' g a \<and> withdrawn env vip port l' g a"
  show "io_calls (may_manage env vip port) l1
         (io_bind (RetireGatewayInventory env (Some (log_cluster Manages c)) g) (\<lambda>finished.
         if \<not> finished then io_lift (Inr False)
         else
         io_bind (FreezeGatewayAttachments (Some (log_cluster Manages c)) gvk g) (\<lambda>frozen.
         if \<not> frozen then io_lift (Inr False)
         else
         io_bind (api_io (r_get (k_secrets (log_cluster Manages c)) (om_namespace g, pw_meshName wd))) (\<lambda>m.
         io_bind (io_lift (guard (om_uid m = pw_meshUID wd \<and> \<not> deleting m) ''withdrawal mesh identity changed'')) (\<lambda>_.
         io_bind (io_lift (guard (\<not> list_ex (overlaps a' wd) (pw_consumers wd)) ''retiring peer overlaps a survivor'')) (\<lambda>_.
         io_bind (io_lift (membership_recorded a' wd (ks_data m))) (\<lambda>_.
         io_bind (io_lift (WithdrawRemotePeer (ks_data m) (ga_childName a') (pw_publicKey wd))) (\<lambda>(data, _).
         io_bind (io_lift (SnapshotConsumers env (m\<lparr>ks_data := data\<rparr>) (pw_consumers wd) vip port)) (\<lambda>consumers.
         io_bind (PublishRemoteWithdrawal (Some (log_cluster Manages c)) m (ga_childName a') (pw_publicKey wd)) (\<lambda>published.
         io_bind (Applied env (Some (log_cluster Manages c)) published consumers) (\<lambda>applied.
         if \<not> applied then io_lift (Inr False)
         else
           io_bind (unchanged_group (log_cluster Manages c) g False ''drain action changed during acknowledgement'') (\<lambda>_.
           io_lift (Inr True)))))))))))) ) ?Q"
    unfolding a log_cluster_simps
  proof (rule io_calls_step [OF RetireGatewayInventory_calls [OF evidence_mono(2) [OF s1 assms(1)]]], rule io_calls_if, rule io_calls_lift, simp,
      rule io_calls_step [OF Freeze_calls [OF evidence_mono(2) [OF _ evidence_mono(2) [OF s1 assms(1)]]]], assumption, rule io_calls_if, rule io_calls_lift, simp,
      rule io_calls_bind, rule io_calls_get, simp, simp, rule io_calls_guard, rule io_calls_guard, rule io_calls_bind, rule io_calls_lift, rule io_calls_bind, rule io_calls_lift,
      rule io_calls_prod, rule io_calls_bind, rule io_calls_lift)
    fix fin l2 fr l3 and m :: kube_secret and u y data b cs
    let ?l = "l3 @ [(Manages \<circ> On_secret) (Got m)]"
    assume s: "set l1 \<subseteq> set l2" "fin \<longrightarrow> gateways_retired env l2 g a" "\<not> \<not> fin" "set l2 \<subseteq> set l3" "fr \<longrightarrow> frozen l3 g a" "\<not> \<not> fr"
      and m: "om_uid m = pw_meshUID wd \<and> \<not> deleting m" and d: "WithdrawRemotePeer (ks_data m) (ga_childName a) (pw_publicKey wd) = Inr y" "y = (data, b)"
      and cs: "SnapshotConsumers env (m\<lparr>ks_data := data\<rparr>) (pw_consumers wd) vip port = Inr cs"
    note d = d(1) [unfolded d(2)]
    have sub: "set l \<subseteq> set ?l" "set l2 \<subseteq> set ?l" "set l3 \<subseteq> set ?l" using s1 s by auto
    have ev: "frozen ?l g a" "gateways_retired env ?l g a" using s evidence_mono(8) [OF sub(3)] evidence_mono(9) [OF sub(2)] by auto
    have mw: "may_withdraw env ?l (m\<lparr>ks_data := data\<rparr>)"
      unfolding may_withdraw_def using evidence_mono(2) [OF sub(1) assms(1)] drained_mono [OF sub(1) assms(2)] ev wd m d a(2)
      by (intro exI [of _ g] exI [of _ a] exI [of _ wd] exI [of _ m] exI [of _ data] exI [of _ b]) simp
    show "io_calls (may_manage env vip port) ?l
        (io_bind (PublishRemoteWithdrawal (Some (log_cluster Manages c)) m (ga_childName a) (pw_publicKey wd)) (\<lambda>published.
         io_bind (Applied env (Some (log_cluster Manages c)) published cs) (\<lambda>applied.
         if \<not> applied then io_lift (Inr False)
         else
           io_bind (unchanged_group (log_cluster Manages c) g False ''drain action changed during acknowledgement'') (\<lambda>_.
           io_lift (Inr True))))) ?Q"
    proof (rule io_calls_step [OF withdrawal_published_calls [OF d mw]], rule io_calls_step [OF Applied_calls [OF manage_reads_allowed, where c = "Some c", unfolded option.map]],
        rule io_calls_if, rule io_calls_lift, simp, rule io_calls_step [OF unchanged_calls], rule io_calls_lift)
      fix p l4 ap l5 u l6 r
      assume q: "set ?l \<subseteq> set l4" "Manages (On_secret (Updates (m\<lparr>ks_data := data\<rparr>))) \<in> set l4 \<and> Manages (On_secret (Got p)) \<in> set l4"
        "set l4 \<subseteq> set l5" "set l4 \<subseteq> set l5 \<and> (ap \<longrightarrow> (\<forall>x \<in> set cs. acknowledged Manages env l5 p x))" "\<not> \<not> ap" "set l5 \<subseteq> set l6"
      have "withdrawn env vip port l5 g a"
        by (rule withdrawn_by_ack [where p = p, OF wd _ d _ _ cs]) (use q m in auto)
      moreover have "set ?l \<subseteq> set l6" "set l5 \<subseteq> set l6" using q by auto
      ultimately show "r \<longrightarrow> frozen l6 g a \<and> gateways_retired env l6 g a \<and> withdrawn env vip port l6 g a"
        using ev evidence_mono(8,9) withdrawn_mono by blast
    qed
  qed
qed

lemma extend_one_prefix: "extend_one a wd kept t = Inr kept' \<Longrightarrow> prefix kept kept'"
  by (auto simp: extend_one_def split: if_splits option.splits)

lemma extended_prefix: "res_fold (extend_one a wd) kept ts = Inr kept' \<Longrightarrow> prefix kept kept'"
proof (induction ts arbitrary: kept)
  case (Cons t ts)
  then show ?case using extend_one_prefix prefix_order.trans by (fastforce split: sum.splits)
qed simp

lemma ExtendPeerWithdrawal_calls:
  assumes "pending l g a"
  shows "io_calls (may_manage env vip port) l (ExtendPeerWithdrawal env (Some (log_cluster Manages c)) g) (\<lambda>_ _. True)"
  unfolding ExtendPeerWithdrawal_def prod.case option.case log_cluster_simps
proof (rule io_calls_bind, rule io_calls_lift, rule io_calls_prod, rule io_calls_option, rule io_calls_fail, rule io_calls_option, rule io_calls_fail,
    rule io_calls_guard, rule io_calls_bind, rule io_calls_get, simp, simp, rule io_calls_step [OF PublishedConsumers_calls], rule io_calls_bind, rule io_calls_lift,
    rule io_calls_if, rule io_calls_lift, simp)
  fix x w a' wd gi and m :: kube_secret and targets l1 kept
  assume h: "drainWorker g = Inr x" "x = (w, a')" "ga_withdrawal a' = Some wd" "\<not> ga_removing a' \<and> pw_meshName wd = gi_mesh gi"
    "set (l @ [(Manages \<circ> On_secret) (Got m)]) \<subseteq> set l1" "res_fold (extend_one a' wd) (pw_consumers wd) targets = Inr kept"
  from h assms have a: "a' = a" "drains a" by (auto dest!: drainWorker_Inr simp: pending_def)
  have p: "pending l1 g a" by (rule evidence_mono(2) [OF _ assms]) (use h in auto)
  have "action_moves env vip port l1 g (ng_pendingAction g) (Some (a\<lparr>ga_withdrawal := Some (wd\<lparr>pw_consumers := kept\<rparr>)\<rparr>))"
    using p action_moves.extend [OF a(2) _ _ extended_prefix [OF h(6)]] h a by (simp add: pending_def)
  with p show "io_calls (may_manage env vip port) l1 (io_bind (put_action (log_cluster Manages c) g (Some (a'\<lparr>ga_withdrawal := Some (wd\<lparr>pw_consumers := kept\<rparr>)\<rparr>))
      ''API did not retain extended consumer inventory'') (\<lambda>g. io_lift (Inr (g, True)))) (\<lambda>_ _. True)"
    unfolding a by (intro io_calls_step [OF put_action_calls] io_calls_lift) (auto simp: pending_def)
qed

section \<open>Removal\<close>

lemma recordRemoval_calls:
  assumes "pending l g a" "drains a" "drained l a" "frozen l g a" "gateways_retired env l g a" "withdrawn env vip port l g a"
  shows "io_calls (may_manage env vip port) l (recordRemoval (log_cluster Manages c) g a) (\<lambda>_ _. True)"
  unfolding recordRemoval_def
  using assms action_moves.remove [OF assms(2-)] by (intro io_calls_step [OF put_action_calls] io_calls_lift) (auto simp: pending_def)

lemma BeginRemoval_calls:
  assumes "pending l g a" "drains a" "drained l a"
  shows "io_calls (may_manage env vip port) l (BeginRemoval env (Some (log_cluster Manages c)) gvk g vip port) (\<lambda>_ _. True)"
  unfolding BeginRemoval_def option.case
proof (rule io_calls_option, rule io_calls_fail, rule io_calls_guard, rule io_calls_step [OF ApplyPeerWithdrawal_calls [OF assms(1,3)]], rule io_calls_if, rule io_calls_lift, simp)
  fix a' b l1
  assume h: "ng_pendingAction g = Some a'" "set l \<subseteq> set l1" "b \<longrightarrow> frozen l1 g a \<and> gateways_retired env l1 g a \<and> withdrawn env vip port l1 g a" "\<not> \<not> b"
  then have "a' = a" using assms(1) by (simp add: pending_def)
  with h show "io_calls (may_manage env vip port) l1 (recordRemoval (log_cluster Manages c) g a') (\<lambda>_ _. True)"
    using recordRemoval_calls [OF evidence_mono(2) [OF h(2) assms(1)] assms(2) drained_mono [OF h(2) assms(3)]] by auto
qed

lemma removal_child_calls:
  "io_calls (may_manage env vip port) l (removal_child env (log_cluster Manages c) g a m1 m2)
     (\<lambda>x l'. case x of None \<Rightarrow> child_gone l' g a | Some ch \<Rightarrow> got_child env l' g a ch)"
  unfolding removal_child_def log_cluster_simps
  by (intro trace_intro) (auto simp: child_gone_def got_child_def is_Inr_iff)

lemma delete_child_calls:
  assumes "\<not> deleting ch \<Longrightarrow> may_delete env l ch"
  shows "io_calls (may_manage env vip port) l (delete_child (log_cluster Manages c) ch) (\<lambda>_ _. True)"
  unfolding delete_child_def log_cluster_simps
  by (intro io_calls_if io_calls_lift io_calls_bind delete_claim_calls) (use assms in \<open>auto intro: io_calls_lift\<close>)

lemma clear_when:
  assumes "pending l g a" "action_moves env vip port l g (Some a) None"
  shows "io_calls (may_manage env vip port) l (clear_action (log_cluster Manages c) g msg) (\<lambda>_ _. True)"
  by (rule clear_action_calls) (use assms in \<open>auto simp: pending_def\<close>)

lemma may_delete_committed:
  assumes "pending l g a" "got_child env l g a ch" "\<not> deleting ch"
    "drains a \<and> ga_removing a \<and> ga_withdrawal a \<noteq> None \<or> cancellable a \<and> ga_bootstrapCancellation a \<noteq> None"
  shows "may_delete env l ch"
  unfolding may_delete_def using assms by (intro exI [of _ g]) (auto simp: pending_def got_child_def)

lemma ResumeRemoval_calls:
  assumes "pending l g a"
  shows "io_calls (may_manage env vip port) l (ResumeRemoval env (Some (log_cluster Manages c)) (map_option (log_cluster Works) wl) gvk g) (\<lambda>_ _. True)"
proof (cases wl)
  case None
  then show ?thesis by (auto simp: ResumeRemoval_def split: prod.split intro!: io_calls_bind io_calls_lift)
next
  case (Some w)
  show ?thesis unfolding Some option.map ResumeRemoval_def prod.case option.case log_cluster_simps(2-)
  proof (rule io_calls_bind, rule io_calls_lift, rule io_calls_prod, rule io_calls_guard, rule io_calls_step [OF unchanged_calls], rule io_calls_step [OF removal_child_calls])
    fix x wk a' u l1 child l2
    assume a': "drainWorker g = Inr x" "x = (wk, a')" and c: "ga_removing a' \<and> ga_withdrawal a' \<noteq> None \<and> capi_scope gvk" and s: "set l \<subseteq> set l1" "set l1 \<subseteq> set l2"
      and ch: "case child of None \<Rightarrow> child_gone l2 g a' | Some ch \<Rightarrow> got_child env l2 g a' ch"
    from a' assms have a: "a' = a" "drains a" by (auto dest!: drainWorker_Inr simp: pending_def)
    have p: "pending l' g a" if "set l2 \<subseteq> set l'" for l' using evidence_mono(2) [OF _ assms] s that by blast
    have del: "io_calls (may_manage env vip port) l' (delete_child (log_cluster Manages c) y) (\<lambda>_ _. True)" if "set l2 \<subseteq> set l'" "child = Some y" for l' y
      by (rule delete_child_calls, rule may_delete_committed [OF p [OF that(1)] evidence_mono(3) [OF that(1)]]) (use ch that a c in auto)
    have clr: "io_calls (may_manage env vip port) l' (clear_action (log_cluster Manages c) g msg) (\<lambda>_ _. True)"
      if "set l2 \<subseteq> set l'" "child = None" "machine_gone l' g a" "node_gone l' a" for l' msg
      by (rule clear_when [OF p [OF that(1)]], rule action_moves.removed [OF a(2)]) (use c that ch a evidence_mono(5) in auto)
    show "io_calls (may_manage env vip port) l2
         (io_bind (api_find (r_get (log_resource (Manages \<circ> On_machine) (k_machines c)) (om_namespace g, ga_childName a'))) (\<lambda>m.
         io_bind (io_lift (guard (case m of None \<Rightarrow> True | Some m \<Rightarrow> om_uid m = ga_machineUID a') ''removal Machine identity changed'')) (\<lambda>_.
         io_bind (api_find (r_get (log_resource (Works \<circ> On_node) (k_nodes w)) ([], ga_nodeName a'))) (\<lambda>node.
         io_bind (io_lift (guard (case node of None \<Rightarrow> True | Some n \<Rightarrow> om_uid n = ga_nodeUID a' \<and> kn_providerID n = ga_providerID a')
                    ''removal Node identity changed'')) (\<lambda>_.
         case child of
           Some child \<Rightarrow> delete_child (log_cluster Manages c) child
         | None \<Rightarrow>
             if m \<noteq> None \<or> node \<noteq> None then io_lift (Inr False)
             else clear_action (log_cluster Manages c) g ''API did not retain removal completion''))))) (\<lambda>_ _. True)"
      unfolding a by (intro trace_intro del clr) (auto simp: machine_gone_def node_gone_def)
  qed
qed

section \<open>Receivers\<close>

lemma log_retirement_simps [simp]:
  "rt_namespace (log_retirement rt) n = silent (rt_namespace rt n)" "rt_maps (log_retirement rt) ns = silent_maps (rt_maps rt ns)"
  "rt_advance (log_retirement rt) cl live m intent name uid age = logged (\<lambda>x. [Advanced intent x]) (rt_advance rt cl live m intent name uid age)"
  by (simp_all add: log_retirement_def)

lemma silent_api_calls: "(\<And>x. Q x l) \<Longrightarrow> io_calls ok l (api_io (silent f)) Q"
  by (rule io_calls_api) auto

lemma silent_inventory_calls:
  "(\<And>x. Q x l) \<Longrightarrow> io_calls ok l (api_io (ReadReceiveInventory ienv (Some (silent_maps maps)) cluster ns n u)) Q"
  unfolding io_calls_def calls_def api_io_def ReadReceiveInventory_def silent_maps_def logged_def
  by (auto split: sum.split prod.split)

lemma discover_receiver_calls:
  "(\<And>x. Q x l) \<Longrightarrow> io_calls ok l (discover_receiver ienv (log_retirement rt) ns m seen) Q"
  unfolding discover_receiver_def log_retirement_simps
  by (intro io_calls_bind silent_api_calls silent_inventory_calls io_calls_lift io_calls_guard io_calls_prod)

lemma advanced_calls:
  assumes "may_manage env vip port l (Advanced intent (Inr True))"
  shows "io_calls (may_manage env vip port) l (logged (\<lambda>x. [Advanced intent x]) f) (\<lambda>b l'. set l \<subseteq> set l' \<and> (b \<longrightarrow> Advanced intent (Inr True) \<in> set l'))"
  unfolding io_calls_def by (rule calls_logged) (use assms in auto)

lemma beginReceiveRemoval_calls:
  assumes "pending l g a" "drained l a" "frozen l g a" "gateways_retired env l g a"
  shows "io_calls (may_manage env vip port) l (beginReceiveRemoval ienv (log_cluster Manages c) (map_option log_retirement rto) age g) (\<lambda>_ _. True)"
  unfolding beginReceiveRemoval_def prod.case log_cluster_simps
proof (rule io_calls_bind, rule io_calls_lift, rule io_calls_prod, rule io_calls_option, rule io_calls_fail, rule io_calls_option, rule io_calls_fail,
    rule io_calls_bind, rule io_calls_get, simp, simp, rule io_calls_guard, rule io_calls_bind, rule io_calls_lookup, simp, simp, simp add: io_calls_lift, unfold option.case)
  fix x w a' wd gi and m :: kube_secret and cm :: kube_map
  assume a': "drainWorker g = Inr x" "x = (w, a')" and wd: "ga_withdrawal a' = Some wd"
  let ?l = "(l @ [(Manages \<circ> On_secret) (Got m)]) @ [(Manages \<circ> On_map) (Got cm)]"
  let ?i = "groupReceiveWithdrawalIntent g a wd"
  from a' assms have a: "a' = a" "drains a" by (auto dest!: drainWorker_Inr simp: pending_def)
  have ev: "pending l' g a" "drained l' a" "frozen l' g a" "gateways_retired env l' g a" if "set ?l \<subseteq> set l'" for l'
    using evidence_mono(2,8,9) [of l l'] drained_mono [of l l'] assms that by auto
  have may: "may_manage env vip port ?l (Advanced ?i (Inr True))" using ev [of ?l] a wd by auto
  have adv: "io_calls (may_manage env vip port) ?l (io_bind (logged (\<lambda>x. [Advanced ?i x]) f) (\<lambda>complete.
      if \<not> complete then io_lift (Inr True) else recordRemoval (log_cluster Manages c) g a)) (\<lambda>_ _. True)" for f
  proof (rule io_calls_step [OF advanced_calls [OF may]], rule io_calls_if, rule io_calls_lift, simp, rule recordRemoval_calls)
    fix b l1
    assume h: "set ?l \<subseteq> set l1" "set ?l \<subseteq> set l1 \<and> (b \<longrightarrow> Advanced ?i (Inr True) \<in> set l1)" "\<not> \<not> b"
    show "pending l1 g a" "drains a" "drained l1 a" "frozen l1 g a" "gateways_retired env l1 g a" using ev [OF h(1)] a by auto
    show "withdrawn env vip port l1 g a" unfolding withdrawn_def using wd a h by blast
  qed
  show "io_calls (may_manage env vip port) ?l (case map_option log_retirement rto of
        None \<Rightarrow> io_lift (Inl (Error ''reserved receiver removal requires live retirement API''))
      | Some rt \<Rightarrow>
          io_bind (discover_receiver ienv rt (om_namespace g) m cm) (\<lambda>(cluster, inventory, live).
          if \<not> list_ex (\<lambda>u. u = ga_machineUID a') (uids_of inventory) then io_lift (Inr False)
          else
            io_bind (rt_advance rt cluster live m (groupReceiveWithdrawalIntent g a' wd) (ga_nodeName a') (ga_nodeUID a')
                       (if age \<le> 0 then 60 * 1000000000 else age)) (\<lambda>complete.
            if \<not> complete then io_lift (Inr True) else recordRemoval (log_cluster Manages c) g a'))) (\<lambda>_ _. True)"
  proof (cases rto)
    case (Some rt)
    show ?thesis unfolding a Some option.map option.case log_retirement_simps
      by (rule io_calls_bind, rule discover_receiver_calls, rule io_calls_prod, rule io_calls_prod, rule io_calls_if, rule io_calls_lift, simp, rule adv)
  qed (simp add: io_calls_fail)
qed

section \<open>Cancelling a join\<close>

lemma cancellationScope_calls:
  assumes "pending l g a"
  shows "io_calls (may_manage env vip port) l (cancellationScope (Some (log_cluster Manages c)) (map_option (log_cluster Works) wl) gvk g)
    (\<lambda>x l'. \<exists>w. x = (log_cluster Manages c, log_cluster Works w, a) \<and> cancellable a)"
  unfolding cancellationScope_def prod.case option.case
  using assms
  by (cases wl) (auto simp: pending_def intro!: io_calls_fail io_calls_guard io_calls_step [OF unchanged_calls] io_calls_lift)

lemma cancellationScope_then:
  assumes "pending l g a" "\<And>w l'. set l \<subseteq> set l' \<Longrightarrow> cancellable a \<Longrightarrow> io_calls (may_manage env vip port) l' (f (log_cluster Manages c, log_cluster Works w, a)) Q"
  shows "io_calls (may_manage env vip port) l (io_bind (cancellationScope (Some (log_cluster Manages c)) (map_option (log_cluster Works) wl) gvk g) f) Q"
  by (rule io_calls_step [OF cancellationScope_calls [OF assms(1)]]) (use assms(2) in blast)

lemma bootstrapUnpublished_calls:
  "io_calls (may_manage env vip port) l (bootstrapUnpublished (log_cluster Manages c) (log_cluster Works w) g a m pf)
     (\<lambda>x l'. x \<noteq> None \<longrightarrow> (\<forall>mc. m = Some mc \<longrightarrow> unbooted g a pf mc))"
  unfolding bootstrapUnpublished_def log_cluster_simps
  by (intro trace_intro) (auto split: option.splits)

lemma beginBootstrapCancellation_calls:
  assumes "pending l g a"
  shows "io_calls (may_manage env vip port) l
    (beginBootstrapCancellation env (Some (log_cluster Manages c)) (map_option (log_cluster Works) wl) gvk fmt mesh g) (\<lambda>_ _. True)"
  unfolding beginBootstrapCancellation_def
proof (rule cancellationScope_then [OF assms], unfold prod.case log_cluster_simps Let_def,
      rule io_calls_guard, rule io_calls_bind, rule io_calls_get, simp, simp, rule io_calls_bind, rule io_calls_lift, rule io_calls_guard, rule io_calls_guard,
      rule io_calls_bind, rule io_calls_get, simp, simp, rule io_calls_guard, rule io_calls_step [OF bootstrapUnpublished_calls], rule io_calls_option, rule io_calls_lift, simp,
      rule io_calls_guard)
    fix w l1 and ch :: node_claim and ob and m :: machine and el l2 and pf :: bootstrap_cancellation
    let ?pf = "\<lparr>bc_secretName = Sprintf env fmt (ga_childName a), bc_meshName = mesh, bc_meshUID = []\<rparr>"
    let ?want = "drain_intent g a"
    assume s: "set l \<subseteq> set l1" and w: "cancellable a"
      and h: "ga_bootstrapCancellation a = None \<and> fmt \<noteq> [] \<and> mesh \<noteq> []" "ObserveChild env g ch = Inr ob" "om_uid ch = ga_childUID a \<and> \<not> deleting ch"
      "om_uid m = ga_machineUID a \<and> MachineOwnedByClaim m ch \<and> \<not> deleting m"
      "set ((l1 @ [(Manages \<circ> On_claim) (Got ch)]) @ [(Manages \<circ> On_machine) (Got m)]) \<subseteq> set l2"
      "el \<noteq> None \<longrightarrow> (\<forall>mc. Some m = Some mc \<longrightarrow> unbooted g a ?pf mc)" "el = Some pf"
      "\<not> foreign_mark ?want (annotation m BootstrapCancellationAnnotation) (annotation m DrainIntentAnnotation)"
    have p2: "pending l2 g a" by (rule evidence_mono(2) [OF _ assms]) (use s h(5) in auto)
    have gm: "got_machine l2 m" "got_child env l2 g a ch" using h by (auto simp: got_machine_def got_child_def is_Inr_iff)
    have mark: "may_mark l2 m (annotate DrainIntentAnnotation ?want (annotate BootstrapCancellationAnnotation ?want m))"
      if "annotation m BootstrapCancellationAnnotation = [] \<or> annotation m DrainIntentAnnotation = []"
    proof -
      have "annotation m DrainIntentAnnotation = []" using that h(8) by (auto simp: foreign_mark_def)
      then show ?thesis unfolding may_mark_def using p2 gm h(4) w by (auto simp: cancellable_def)
    qed
    have put: "io_calls (may_manage env vip port) l2 (put_action (log_cluster Manages c) g (Some (a\<lparr>ga_bootstrapCancellation := Some pf\<rparr>)) msg) (\<lambda>_ _. True)"
      if "\<not> (annotation m BootstrapCancellationAnnotation = [] \<or> annotation m DrainIntentAnnotation = [])" for msg
    proof (rule io_calls_any, rule put_action_calls)
      show "got_group l2 g" using p2 by (simp add: pending_def)
      have "annotation m DrainIntentAnnotation = ?want" using that h(8) by (auto simp: foreign_mark_def)
      then show "action_moves env vip port l2 g (ng_pendingAction g) (Some (a\<lparr>ga_bootstrapCancellation := Some pf\<rparr>))"
        using p2 action_moves.cancel [OF w _ gm(2,1), of ?pf] h by (simp add: pending_def)
    qed
    show "io_calls (may_manage env vip port) l2 (if annotation m BootstrapCancellationAnnotation = [] \<or> annotation m DrainIntentAnnotation = []
           then
             io_bind (api_io (r_patch (log_resource (Manages \<circ> On_machine) (k_machines c)) m (annotate DrainIntentAnnotation ?want (annotate BootstrapCancellationAnnotation ?want m)))) (\<lambda>_.
             io_lift (Inr True))
         else
           io_bind (put_action (log_cluster Manages c) g (Some (a\<lparr>ga_bootstrapCancellation := Some pf\<rparr>)) ''API did not retain bootstrap cancellation'') (\<lambda>_.
           io_lift (Inr True))) (\<lambda>_ _. True)"
      using mark by (intro io_calls_if io_calls_bind io_calls_write io_calls_step [OF put] io_calls_lift) auto
qed

lemma resumeBootstrapCancellation_calls:
  assumes "pending l g a"
  shows "io_calls (may_manage env vip port) l
    (resumeBootstrapCancellation env (Some (log_cluster Manages c)) (map_option (log_cluster Works) wl) gvk g) (\<lambda>_ _. True)"
  unfolding resumeBootstrapCancellation_def
proof (rule cancellationScope_then [OF assms], unfold prod.case log_cluster_simps, rule io_calls_option, rule io_calls_fail, rule io_calls_guard,
    rule io_calls_step [OF removal_child_calls])
    fix w l1 pf child l2
    assume s: "set l \<subseteq> set l1" and w: "cancellable a" and h: "ga_bootstrapCancellation a = Some pf" "set l1 \<subseteq> set l2" "case child of None \<Rightarrow> child_gone l2 g a | Some ch \<Rightarrow> got_child env l2 g a ch"
    have p: "pending l' g a" if "set l2 \<subseteq> set l'" for l' using evidence_mono(2) [OF _ assms] s h(2) that by blast
    have del: "io_calls (may_manage env vip port) l' (delete_child (log_cluster Manages c) y) (\<lambda>_ _. True)" if "set l2 \<subseteq> set l'" "child = Some y" for l' y
      by (rule delete_child_calls, rule may_delete_committed [OF p [OF that(1)] evidence_mono(3) [OF that(1)]]) (use h that w in auto)
    have clr: "io_calls (may_manage env vip port) l' (clear_action (log_cluster Manages c) g msg) (\<lambda>_ _. True)"
      if "set l2 \<subseteq> set l'" "child = None" "machine_gone l' g a" for l' msg
      by (rule clear_when [OF p [OF that(1)]], rule action_moves.cancelled [OF w]) (use h that evidence_mono(5) in auto)
    have fin: "io_calls (may_manage env vip port) l' (io_bind (bootstrapUnpublished (log_cluster Manages c) (log_cluster Works w) g a m pf) (\<lambda>unpublished.
         io_bind (io_lift (guard (unpublished \<noteq> None) ''bootstrap appeared after cancellation; retain lifecycle for inspection'')) (\<lambda>_.
         case child of
           Some child \<Rightarrow> delete_child (log_cluster Manages c) child
         | None \<Rightarrow> if m \<noteq> None then io_lift (Inr False) else clear_action (log_cluster Manages c) g ''API did not retain cancellation completion''))) (\<lambda>_ _. True)"
      if "set l2 \<subseteq> set l'" "m = None \<Longrightarrow> machine_gone l' g a" for l' m
      by (intro io_calls_step [OF bootstrapUnpublished_calls] io_calls_guard io_calls_option io_calls_if del clr io_calls_lift) (use that evidence_mono(6) in auto)
    show "io_calls (may_manage env vip port) l2
        (io_bind (api_find (r_get (log_resource (Manages \<circ> On_machine) (k_machines c)) (om_namespace g, ga_childName a))) (\<lambda>m.
         io_bind (io_lift (guard (case m of
                      None \<Rightarrow> True
                    | Some m \<Rightarrow> om_uid m = ga_machineUID a \<and> annotation m BootstrapCancellationAnnotation = drain_intent g a \<and>
                        annotation m DrainIntentAnnotation = drain_intent g a) ''cancelled Machine identity or marker changed'')) (\<lambda>_.
         io_bind (bootstrapUnpublished (log_cluster Manages c) (log_cluster Works w) g a m pf) (\<lambda>unpublished.
         io_bind (io_lift (guard (unpublished \<noteq> None) ''bootstrap appeared after cancellation; retain lifecycle for inspection'')) (\<lambda>_.
         case child of
           Some child \<Rightarrow> delete_child (log_cluster Manages c) child
         | None \<Rightarrow> if m \<noteq> None then io_lift (Inr False) else clear_action (log_cluster Manages c) g ''API did not retain cancellation completion''))))) (\<lambda>_ _. True)"
      by (rule io_calls_bind, rule io_calls_lookup, simp, simp, rule io_calls_guard, rule fin, force, simp add: machine_gone_def, rule io_calls_guard, rule fin) auto
qed

end
