(* ===== verification/Group_Scaling.thy ===== *)
theory Group_Scaling
  imports Group_Reconciler
begin

text \<open>
  The children of a group: ordinals in decimal, names and observed identities, and how the proposed actions bring a
  settled group to its number of replicas.
\<close>

section \<open>Decimal ordinals\<close>

lemma digit_char: "0 \<le> d \<Longrightarrow> d \<le> 9 \<Longrightarrow> digit (char_of (48 + d)) = Some d"
  by (simp add: digit_def Let_def)

lemma digit_sign: "digit CHR ''-'' = None" "digit CHR ''+'' = None"
  by (simp_all add: digit_def)

lemma digits_snoc: "digits acc (s @ [c]) = (case digits acc s of None \<Rightarrow> None | Some n \<Rightarrow> map_option (\<lambda>d. 10 * n + d) (digit c))"
  by (induction s arbitrary: acc) (auto split: option.splits)

lemma digits_show: "0 \<le> n \<Longrightarrow> digits 0 (show_nat n) = Some n"
proof (induction n rule: show_nat.induct)
  case (1 n)
  have d: "digit (char_of (48 + n mod 10)) = Some (n mod 10)" by (rule digit_char) simp_all
  show ?case
  proof (cases "n < 10")
    case True
    then show ?thesis using 1(2) by (simp add: show_nat.simps [of n] digit_char)
  next
    case False
    then show ?thesis using 1 d by (subst show_nat.simps) (simp add: digits_snoc)
  qed
qed

lemma show_nat_head: "0 \<le> n \<Longrightarrow> \<exists>(d :: int) t. show_nat n = char_of (48 + d) # t \<and> 0 \<le> d \<and> d \<le> 9"
proof (induction n rule: show_nat.induct)
  case (1 n)
  show ?case
  proof (cases "n < 10")
    case True
    then show ?thesis using 1(2) by (intro exI [of _ n] exI [of _ "[]"]) (simp add: show_nat.simps [of n])
  next
    case False
    then have "0 \<le> n div 10" by simp
    with 1(1) [OF False] obtain d :: int and t where "show_nat (n div 10) = char_of (48 + d) # t" "0 \<le> d" "d \<le> 9" by auto
    then show ?thesis using False by (intro exI [of _ d] exI [of _ "t @ [char_of (48 + n mod 10)]"]) (simp add: show_nat.simps [of n])
  qed
qed

lemma Itoa_inj: "0 \<le> m \<Longrightarrow> 0 \<le> n \<Longrightarrow> Itoa m = Itoa n \<Longrightarrow> m = n"
  using digits_show by (auto simp: Itoa_def) (metis option.inject)

lemma Atoi_Itoa:
  assumes "0 \<le> n" "n < 2 ^ 63"
  shows "Atoi (Itoa n) = Some n"
proof -
  obtain d :: int and t where s: "show_nat n = char_of (48 + d) # t" "0 \<le> d" "d \<le> 9" using show_nat_head [OF assms(1)] by blast
  have "char_of (48 + d) \<noteq> CHR ''-''" "char_of (48 + d) \<noteq> CHR ''+''"
    using digit_char [OF s(2,3)] by (metis digit_sign option.distinct(1))+
  with s assms digits_show [OF assms(1)] show ?thesis by (simp add: Atoi_def Itoa_def Let_def)
qed

section \<open>The plan of a change\<close>

definition well_formed_children :: "string \<Rightarrow> group_child list \<Rightarrow> bool" where
  "well_formed_children owner cs =
     ((\<forall>c \<in> set cs. gc_name c \<noteq> [] \<and> gc_ownerUID c = owner \<and> 0 \<le> gc_ordinal c) \<and> distinct (map gc_name cs) \<and> distinct (map gc_ordinal cs))"

lemma admit_children_Inr:
  "admit_children owner slots names waiting cs = Inr (s, b) \<longleftrightarrow>
     well_formed_children owner cs \<and> gc_ordinal ` set cs \<inter> set slots = {} \<and> gc_name ` set cs \<inter> set names = {} \<and>
     s = rev (map gc_ordinal cs) @ slots \<and> b = (waiting \<or> (\<exists>c \<in> set cs. gc_terminating c \<or> gc_draining c))"
proof (induction cs arbitrary: slots names waiting)
  case (Cons c cs)
  have "well_formed_children owner (c # cs) \<longleftrightarrow>
      gc_name c \<noteq> [] \<and> gc_ownerUID c = owner \<and> 0 \<le> gc_ordinal c \<and> gc_name c \<notin> gc_name ` set cs \<and> gc_ordinal c \<notin> gc_ordinal ` set cs \<and>
      well_formed_children owner cs" by (auto simp: well_formed_children_def)
  then show ?case by (cases "gc_name c = [] \<or> gc_ownerUID c \<noteq> owner \<or> gc_ordinal c < 0 \<or> gc_ordinal c \<in> set slots \<or> gc_name c \<in> set names")
      (auto simp: Cons.IH)
qed (auto simp: well_formed_children_def)

lemma free_slot_spec: "n \<le> free_slot slots n \<and> free_slot slots n \<notin> set slots \<and> (\<forall>m. n \<le> m \<and> m < free_slot slots n \<longrightarrow> m \<in> set slots)"
proof (induction slots n rule: free_slot.induct)
  case (1 slots n)
  show ?case
  proof (cases "n \<in> set slots")
    case True
    note ih = 1 [OF True]
    have "m \<in> set slots" if "n \<le> m" "m < free_slot slots (n + 1)" for m using ih True that by (cases "m = n") auto
    with ih True show ?thesis by (subst (1 2 3) free_slot.simps) auto
  next
    case False
    then show ?thesis by (subst (1 2 3) free_slot.simps) auto
  qed
qed

lemma select_child_from:
  assumes "\<forall>c \<in> set cs. gc_name c \<noteq> []" "gc_name s \<noteq> []"
  defines "f \<equiv> \<lambda>c s. if gc_name s = [] \<or> gc_ordinal s < gc_ordinal c then c else s"
  shows "fold f cs s \<in> insert s (set cs) \<and> gc_name (fold f cs s) \<noteq> [] \<and> (\<forall>c \<in> insert s (set cs). gc_ordinal c \<le> gc_ordinal (fold f cs s))"
  using assms(1,2)
proof (induction cs arbitrary: s)
  case (Cons c cs)
  have "gc_name (f c s) \<noteq> []" "f c s \<in> {c, s}" "gc_ordinal s \<le> gc_ordinal (f c s)" "gc_ordinal c \<le> gc_ordinal (f c s)"
    using Cons.prems by (auto simp: f_def)
  with Cons.IH [of "f c s"] Cons.prems show ?case by (auto intro: order_trans)
qed simp

lemma select_child_max:
  assumes "cs \<noteq> []" "\<forall>c \<in> set cs. gc_name c \<noteq> []"
  shows "select_child cs \<in> set cs" "\<And>c. c \<in> set cs \<Longrightarrow> gc_ordinal c \<le> gc_ordinal (select_child cs)"
proof -
  obtain c ds where cs: "cs = c # ds" using assms(1) by (cases cs) auto
  have "select_child cs = fold (\<lambda>c s. if gc_name s = [] \<or> gc_ordinal s < gc_ordinal c then c else s) ds c"
    by (simp add: select_child_def cs zero_child_def)
  with select_child_from [of ds c] assms(2) cs show "select_child cs \<in> set cs" "\<And>c. c \<in> set cs \<Longrightarrow> gc_ordinal c \<le> gc_ordinal (select_child cs)"
    by auto
qed

section \<open>Children of a group\<close>

definition group_ok :: "'a group_env_scheme \<Rightarrow> node_group \<Rightarrow> bool" where
  "group_ok env g =
     (om_uid g \<noteq> [] \<and> IsValidLabelValue env (om_uid g) \<and> IsDNS1123Subdomain env (om_name g) \<and> IsDNS1123Label env (om_namespace g))"

definition child_name :: "'a group_env_scheme \<Rightarrow> node_group \<Rightarrow> int \<Rightarrow> string" where
  "child_name env g n = name_prefix (om_name g) @ ''-'' @ hex_encode (take 8 (sha256 env (om_uid g))) @ ''-'' @ Itoa n"

lemma childName_Inr: "childName env g n = Inr s \<longleftrightarrow> group_ok env g \<and> 0 \<le> n \<and> n \<le> 2147483647 \<and> s = child_name env g n"
  by (auto simp: childName_def group_ok_def child_name_def)

lemma child_name_inj: "0 \<le> m \<Longrightarrow> 0 \<le> n \<Longrightarrow> child_name env g m = child_name env g n \<Longrightarrow> m = n"
  by (simp add: child_name_def Itoa_inj)

lemma child_name_nonempty: "child_name env g n \<noteq> []"
  by (simp add: child_name_def)

lemma ObserveChild_Inr:
  "ObserveChild env g c = Inr x \<longleftrightarrow>
     (\<exists>n. om_uid c \<noteq> [] \<and> Atoi (annotation c OrdinalAnnotation) = Some n \<and> Itoa n = annotation c OrdinalAnnotation \<and> group_ok env g \<and> 0 \<le> n \<and>
        n \<le> 2147483647 \<and> child_of g (child_name env g n) c \<and>
        x = \<lparr>gc_name = child_name env g n, gc_ownerUID = om_uid g, gc_ordinal = n, gc_terminating = deleting c, gc_draining = False\<rparr>)"
  by (cases "Atoi (annotation c OrdinalAnnotation)")
     (auto simp: ObserveChild_def res_inv childName_Inr child_of_def split: option.splits)

lemma observed_name: "ObserveChild env g c = Inr x \<Longrightarrow> om_name c = gc_name x"
  by (auto simp: ObserveChild_Inr child_of_def split: option.splits)

lemma observed_spec:
  "ObserveChild env g c = Inr x \<Longrightarrow>
     gc_name x = child_name env g (gc_ordinal x) \<and> gc_ownerUID x = om_uid g \<and> 0 \<le> gc_ordinal x \<and> gc_terminating x = deleting c \<and> \<not> gc_draining x"
  by (auto simp: ObserveChild_Inr)

lemma observe_children_Inr:
  "observe_children env g cs = Inr xs \<longleftrightarrow> list_all2 (\<lambda>c x. ObserveChild env g c = Inr x) cs xs"
proof (induction cs arbitrary: xs)
  case (Cons c cs)
  then show ?case by (cases xs) (auto simp: res_inv list_all2_Cons1)
qed auto

lemma built_observed:
  assumes "BuildChild env g n = Inr c" "uid \<noteq> []"
  shows "ObserveChild env g (c\<lparr>om_uid := uid\<rparr>) =
     Inr \<lparr>gc_name = om_name c, gc_ownerUID = om_uid g, gc_ordinal = n, gc_terminating = False, gc_draining = False\<rparr>"
proof -
  have ok: "group_ok env g" "0 \<le> n" "n \<le> 2147483647" using assms(1) by (auto simp: BuildChild_def res_inv childName_Inr)
  then have "Atoi (Itoa n) = Some n" by (intro Atoi_Itoa) auto
  with assms ok show ?thesis
    by (auto simp: BuildChild_def res_inv childName_Inr ObserveChild_Inr annotation_def label_def index_def child_of_def GetControllerOf_def group_owner_def
        deleting_def lookup_update)
qed

section \<open>Scaling\<close>

text \<open>
  A group that is settled: no action is pending, and its claims are observed, none is leaving and no two have the
  same name.
\<close>

definition settled :: "'a group_env_scheme \<Rightarrow> node_group \<Rightarrow> int \<Rightarrow> node_claim list \<Rightarrow> bool" where
  "settled env g replicas cs =
     (om_resourceVersion g \<noteq> [] \<and> 1 \<le> om_generation g \<and> ng_pendingAction g = None \<and> \<not> deleting g \<and> ng_replicas g = Some replicas \<and>
      0 \<le> replicas \<and> replicas \<le> 2147483647 \<and> group_ok env g \<and> distinct (map om_name cs) \<and>
      list_all (\<lambda>c. is_Inr (ObserveChild env g c) \<and> \<not> deleting c) cs)"

text \<open>The claims once a proposed action is carried out: the reserved child exists under a fresh UID, or the drained one is gone.\<close>

definition carried_out :: "'a group_env_scheme \<Rightarrow> string \<Rightarrow> node_group \<Rightarrow> node_claim list \<Rightarrow> node_claim list" where
  "carried_out env fresh g cs =
     (case ProposeAction env fresh g cs of
        Inr (Some a) \<Rightarrow>
          if ga_type a = CreateAction
            then (case BuildChild env g (ga_ordinal a) of Inr c \<Rightarrow> cs @ [annotate ActionAnnotation (ga_id a) (c\<lparr>om_uid := fresh\<rparr>)] | Inl _ \<Rightarrow> cs)
          else filter (\<lambda>c. om_name c \<noteq> ga_childName a) cs
      | _ \<Rightarrow> cs)"

definition ordinal_of :: "'a group_env_scheme \<Rightarrow> node_group \<Rightarrow> node_claim \<Rightarrow> int" where
  "ordinal_of env g c = (case ObserveChild env g c of Inr x \<Rightarrow> gc_ordinal x | Inl _ \<Rightarrow> - 1)"

lemma settled_children:
  assumes "settled env g n cs"
  obtains xs where "observe_children env g cs = Inr xs" "list_all2 (\<lambda>c x. ObserveChild env g c = Inr x) cs xs"
    "well_formed_children (om_uid g) xs" "\<forall>x \<in> set xs. \<not> gc_terminating x \<and> \<not> gc_draining x"
    "map gc_ordinal xs = map (ordinal_of env g) cs" "map gc_name xs = map om_name cs"
proof -
  have all: "list_all (\<lambda>c. is_Inr (ObserveChild env g c) \<and> \<not> deleting c) cs" and dn: "distinct (map om_name cs)" using assms by (auto simp: settled_def)
  define xs where "xs = map (\<lambda>c. projr (ObserveChild env g c)) cs"
  have o: "list_all2 (\<lambda>c x. ObserveChild env g c = Inr x) cs xs"
    unfolding xs_def list_all2_conv_all_nth using all by (auto simp: list_all_length is_Inr_iff)
  have names: "map gc_name xs = map om_name cs"
    unfolding xs_def using all by (auto simp: list_all_iff is_Inr_iff observed_name)
  have ords: "map gc_ordinal xs = map (ordinal_of env g) cs"
    unfolding xs_def using all by (auto simp: list_all_iff is_Inr_iff ordinal_of_def)
  have spec: "\<forall>x \<in> set xs. gc_name x = child_name env g (gc_ordinal x) \<and> gc_ownerUID x = om_uid g \<and> 0 \<le> gc_ordinal x \<and> \<not> gc_terminating x \<and> \<not> gc_draining x"
    using o all by (fastforce simp: list_all2_conv_all_nth list_all_length in_set_conv_nth dest!: observed_spec)
  have "map om_name cs = map (child_name env g) (map gc_ordinal xs)" using spec names by (auto simp flip: names)
  then have "distinct (map gc_ordinal xs)" using dn by (metis distinct_map)
  with spec dn names have "well_formed_children (om_uid g) xs"
    by (auto simp: well_formed_children_def child_name_nonempty)
  with that o names ords spec show ?thesis by (auto simp: observe_children_Inr)
qed

lemma Next_settled:
  assumes "well_formed_children owner xs" "\<forall>x \<in> set xs. \<not> gc_terminating x \<and> \<not> gc_draining x" "owner \<noteq> []" "0 \<le> n"
  shows "Next owner n xs = Inr
    (if n < int (length xs) then \<lparr>np_createOrdinal = None, np_drain = gc_name (select_child xs), np_waiting = False\<rparr>
     else if int (length xs) < n then \<lparr>np_createOrdinal = Some (free_slot (rev (map gc_ordinal xs)) 0), np_drain = [], np_waiting = False\<rparr>
     else \<lparr>np_createOrdinal = None, np_drain = [], np_waiting = False\<rparr>)"
proof -
  have "admit_children owner [] [] False xs = Inr (rev (map gc_ordinal xs), False)" using assms by (auto simp: admit_children_Inr)
  with assms show ?thesis by (simp add: Next_def)
qed

text \<open>A group with the wanted number of claims proposes nothing.\<close>

lemma propose_equal:
  assumes "settled env g n cs" "int (length cs) = n"
  shows "ProposeAction env fresh g cs = Inr None"
proof -
  from assms obtain xs where xs: "observe_children env g cs = Inr xs" "well_formed_children (om_uid g) xs" "\<forall>x \<in> set xs. \<not> gc_terminating x \<and> \<not> gc_draining x"
    "map gc_name xs = map om_name cs" by (auto elim: settled_children)
  have "length xs = length cs" using xs(4) map_eq_imp_length_eq by metis
  with xs assms Next_settled [OF xs(2,3), of n] show ?thesis
    by (simp add: settled_def ProposeAction_def childName_def group_ok_def desired_replicas_def)
qed

lemma free_slot_bound: "free_slot slots 0 \<le> int (length slots)"
proof -
  have "{0..<free_slot slots 0} \<subseteq> set slots" using free_slot_spec [of 0 slots] by auto
  then have "card {0..<free_slot slots 0} \<le> card (set slots)" by (rule card_mono [OF List.finite_set])
  also have "\<dots> \<le> length slots" by (rule card_length)
  finally show ?thesis using free_slot_spec [of 0 slots] by simp
qed

lemma int32_id: "0 \<le> n \<Longrightarrow> n \<le> 2147483647 \<Longrightarrow> int32 n = n"
  by (simp add: int32_def)

text \<open>Too few: a child is added at the lowest free ordinal. Too many: the child with the highest ordinal goes.\<close>

lemma carry_create:
  assumes st: "settled env g n cs" and few: "int (length cs) < n" and fresh: "fresh \<noteq> []"
  shows "\<exists>c. carried_out env fresh g cs = cs @ [c] \<and> settled env g n (cs @ [c]) \<and> ordinal_of env g c \<notin> ordinal_of env g ` set cs"
proof -
  from st obtain xs where xs: "observe_children env g cs = Inr xs" "well_formed_children (om_uid g) xs" "\<forall>x \<in> set xs. \<not> gc_terminating x \<and> \<not> gc_draining x"
    "map gc_ordinal xs = map (ordinal_of env g) cs" "map gc_name xs = map om_name cs" by (auto elim: settled_children)
  have len: "length xs = length cs" using xs(5) map_eq_imp_length_eq by metis
  define k where "k = free_slot (rev (map gc_ordinal xs)) 0"
  have k: "0 \<le> k" "k \<notin> ordinal_of env g ` set cs" "k \<le> 2147483647"
  proof -
    show "0 \<le> k" using free_slot_spec [of 0] by (simp add: k_def)
    show "k \<notin> ordinal_of env g ` set cs" using free_slot_spec [of 0 "rev (map gc_ordinal xs)"] xs(4) by (metis image_set k_def set_rev)
    have "k \<le> int (length cs)" using free_slot_bound [of "rev (map gc_ordinal xs)"] len by (simp add: k_def)
    with few st show "k \<le> 2147483647" by (simp add: settled_def)
  qed
  from st k obtain c where c: "BuildChild env g k = Inr c" by (auto simp: settled_def BuildChild_def childName_def group_ok_def)
  have nm: "om_name c = child_name env g k" using c by (auto simp: BuildChild_def res_inv childName_Inr)
  let ?c = "annotate ActionAnnotation fresh (c\<lparr>om_uid := fresh\<rparr>)"
  have p: "ProposeAction env fresh g cs = Inr (Some (zero_action\<lparr>ga_id := fresh, ga_generation := om_generation g, ga_type := CreateAction,
      ga_ordinal := k, ga_childName := om_name c, ga_template := Some (nc_spec c)\<rparr>))"
    using st xs(1) few len Next_settled [OF xs(2,3), of n] c int32_id [OF k(1,3)]
    by (simp add: settled_def ProposeAction_def childName_def group_ok_def desired_replicas_def k_def)
  have obs: "ObserveChild env g ?c = Inr \<lparr>gc_name = om_name c, gc_ownerUID = om_uid g, gc_ordinal = k, gc_terminating = False, gc_draining = False\<rparr>"
    using built_observed [OF c fresh]
    by (auto simp: ObserveChild_Inr annotate_def annotation_def index_def child_of_def GetControllerOf_def label_def deleting_def lookup_update'
        OrdinalAnnotation_def ActionAnnotation_def split: option.splits)
  have "om_name ?c = om_name c" "\<not> deleting ?c" using c by (auto simp: annotate_def deleting_def BuildChild_def res_inv)
  moreover have "om_name c \<notin> om_name ` set cs"
  proof
    assume "om_name c \<in> om_name ` set cs"
    then obtain d where d: "d \<in> set cs" "om_name d = child_name env g k" using nm by auto
    then obtain x where x: "ObserveChild env g d = Inr x" using st by (auto simp: settled_def list_all_iff is_Inr_iff)
    then have "child_name env g (gc_ordinal x) = child_name env g k" "0 \<le> gc_ordinal x" "ordinal_of env g d = gc_ordinal x"
      using d(2) observed_name [OF x] observed_spec [OF x] by (simp_all add: ordinal_of_def x)
    with child_name_inj k(1,2) d(1) show False by (metis imageI)
  qed
  ultimately have "settled env g n (cs @ [?c])" using st obs by (auto simp: settled_def)
  moreover have "ordinal_of env g ?c = k" by (simp add: ordinal_of_def obs)
  ultimately show ?thesis using k(2) by (intro exI [of _ ?c]) (simp add: carried_out_def p c)
qed


lemma carry_drain:
  assumes st: "settled env g n cs" and many: "n < int (length cs)"
  shows "\<exists>c \<in> set cs. carried_out env fresh g cs = filter (\<lambda>d. om_name d \<noteq> om_name c) cs \<and> (\<forall>d \<in> set cs. ordinal_of env g d \<le> ordinal_of env g c) \<and>
    settled env g n (filter (\<lambda>d. om_name d \<noteq> om_name c) cs) \<and> length (filter (\<lambda>d. om_name d \<noteq> om_name c) cs) = length cs - 1"
proof -
  from st obtain xs where xs: "observe_children env g cs = Inr xs" "list_all2 (\<lambda>c x. ObserveChild env g c = Inr x) cs xs"
    "well_formed_children (om_uid g) xs" "\<forall>x \<in> set xs. \<not> gc_terminating x \<and> \<not> gc_draining x"
    "map gc_ordinal xs = map (ordinal_of env g) cs" "map gc_name xs = map om_name cs" by (auto elim: settled_children)
  have len: "length xs = length cs" using xs(6) map_eq_imp_length_eq by metis
  have ne: "xs \<noteq> []" "\<forall>x \<in> set xs. gc_name x \<noteq> []" using many len xs(3) st by (auto simp: settled_def well_formed_children_def)
  let ?s = "select_child xs"
  obtain i where i: "i < length xs" "xs ! i = ?s" using select_child_max(1) [OF ne] by (metis in_set_conv_nth)
  define c where "c = cs ! i"
  have c: "c \<in> set cs" "om_name c = gc_name ?s" "ordinal_of env g c = gc_ordinal ?s"
    using i len xs(5,6) by (auto simp: c_def) (metis nth_map)+
  have top: "ordinal_of env g d \<le> ordinal_of env g c" if "d \<in> set cs" for d
  proof -
    have "ordinal_of env g d \<in> set (map gc_ordinal xs)" using that xs(5) by simp
    then show ?thesis using select_child_max(2) [OF ne] c(3) by auto
  qed
  have ty: "CreateAction \<noteq> DrainAction" by (simp add: CreateAction_def DrainAction_def)
  have da: "ga_type (drain_action f k nm ys) = DrainAction \<and> ga_childName (drain_action f k nm ys) = nm" for f k nm ys
  proof -
    have "ga_type (fold (\<lambda>(c, cl) a. if gc_name c = nm then a\<lparr>ga_ordinal := int32 (gc_ordinal c), ga_childUID := om_uid cl\<rparr> else a) ys a) = ga_type a \<and>
        ga_childName (fold (\<lambda>(c, cl) a. if gc_name c = nm then a\<lparr>ga_ordinal := int32 (gc_ordinal c), ga_childUID := om_uid cl\<rparr> else a) ys a) = ga_childName a"
      for a :: group_action and ys :: "(group_child \<times> node_claim) list" by (induction ys arbitrary: a) auto
    then show ?thesis by (simp add: drain_action_def)
  qed
  have "ProposeAction env fresh g cs = Inr (Some (drain_action fresh (om_generation g) (gc_name ?s) (zip xs cs)))"
    using st xs(1) many len Next_settled [OF xs(3,4), of n] ne select_child_max(1) [OF ne]
    by (simp add: settled_def ProposeAction_def childName_def group_ok_def desired_replicas_def)
  then have co: "carried_out env fresh g cs = filter (\<lambda>d. om_name d \<noteq> om_name c) cs"
    using da ty c(2) by (simp add: carried_out_def)
  have dn: "distinct (map om_name cs)" using st by (simp add: settled_def)
  have "settled env g n (filter (\<lambda>d. om_name d \<noteq> om_name c) cs)" using st by (auto simp: settled_def list_all_iff distinct_map_filter)
  moreover have "length (filter (\<lambda>d. om_name d \<noteq> om_name c) cs) = length cs - 1"
  proof -
    have "length (filter (\<lambda>d. om_name d \<noteq> om_name c) cs) = length (filter (\<lambda>s. s \<noteq> om_name c) (map om_name cs))" by (simp add: filter_map o_def)
    also have "\<dots> = length (remove1 (om_name c) (map om_name cs))" using dn by (simp add: distinct_remove1_removeAll removeAll_filter_not_eq eq_commute)
    finally show ?thesis using c(1) by (simp add: length_remove1)
  qed
  ultimately show ?thesis using c(1) co top by blast
qed


primrec scaled :: "'a group_env_scheme \<Rightarrow> (nat \<Rightarrow> string) \<Rightarrow> node_group \<Rightarrow> node_claim list \<Rightarrow> nat \<Rightarrow> node_claim list" where
  "scaled env fresh g cs 0 = cs"
| "scaled env fresh g cs (Suc k) = carried_out env (fresh k) g (scaled env fresh g cs k)"

lemma scale_up:
  assumes "settled env g n cs" "\<forall>k. fresh k \<noteq> []"
  shows "int (length cs) + int j \<le> n \<Longrightarrow> settled env g n (scaled env fresh g cs j) \<and> length (scaled env fresh g cs j) = length cs + j \<and> prefix cs (scaled env fresh g cs j)"
proof (induction j)
  case (Suc j)
  then have ih: "settled env g n (scaled env fresh g cs j)" "length (scaled env fresh g cs j) = length cs + j" "prefix cs (scaled env fresh g cs j)" by auto
  have "int (length (scaled env fresh g cs j)) < n" using ih(2) Suc.prems by simp
  from carry_create [OF ih(1) this, of "fresh j"] assms(2) ih(2,3) show ?case by (auto simp: prefix_def)
qed (use assms in auto)

lemma settled_ordinal:
  assumes "settled env g n cs" "c \<in> set cs" "d \<in> set cs" "ordinal_of env g c = ordinal_of env g d"
  shows "om_name c = om_name d"
proof -
  from assms have "\<exists>x. ObserveChild env g c = Inr x" "\<exists>y. ObserveChild env g d = Inr y" by (simp_all add: settled_def list_all_iff is_Inr_iff)
  then obtain x y where "ObserveChild env g c = Inr x" "ObserveChild env g d = Inr y" by blast
  with assms(4) observed_name observed_spec show ?thesis by (metis ordinal_of_def sum.case(2))
qed

lemma scale_down:
  assumes "settled env g n cs"
  shows "n + int j \<le> int (length cs) \<Longrightarrow> settled env g n (scaled env fresh g cs j) \<and> length (scaled env fresh g cs j) = length cs - j \<and>
    subseq (scaled env fresh g cs j) cs \<and> (\<forall>c \<in> set cs - set (scaled env fresh g cs j). \<forall>d \<in> set (scaled env fresh g cs j). ordinal_of env g d < ordinal_of env g c)"
proof (induction j)
  case (Suc j)
  let ?s = "scaled env fresh g cs j"
  from Suc have ih: "settled env g n ?s" "length ?s = length cs - j" "subseq ?s cs"
    "\<And>c d. c \<in> set cs \<Longrightarrow> c \<notin> set ?s \<Longrightarrow> d \<in> set ?s \<Longrightarrow> ordinal_of env g d < ordinal_of env g c" by auto
  have "n < int (length ?s)" using ih(2) Suc.prems by simp
  from carry_drain [OF ih(1) this, of "fresh j"] obtain c where c: "c \<in> set ?s"
    "scaled env fresh g cs (Suc j) = filter (\<lambda>d. om_name d \<noteq> om_name c) ?s" "\<And>d. d \<in> set ?s \<Longrightarrow> ordinal_of env g d \<le> ordinal_of env g c"
    "settled env g n (filter (\<lambda>d. om_name d \<noteq> om_name c) ?s)" "length (filter (\<lambda>d. om_name d \<noteq> om_name c) ?s) = length ?s - 1" by auto
  have top: "ordinal_of env g d < ordinal_of env g c" if "d \<in> set ?s" "om_name d \<noteq> om_name c" for d
    using c(1,3) settled_ordinal [OF ih(1)] that by (metis order.not_eq_order_implies_strict)
  have same: "e = c" if "e \<in> set ?s" "om_name e = om_name c" for e
    using ih(1) c(1) that unfolding settled_def distinct_map inj_on_def by blast
  have "subseq (filter (\<lambda>d. om_name d \<noteq> om_name c) ?s) cs" using ih(3) subseq_filter_left subseq_order.trans by blast
  moreover have "ordinal_of env g d < ordinal_of env g e"
    if "e \<in> set cs" "e \<notin> set (filter (\<lambda>d. om_name d \<noteq> om_name c) ?s)" "d \<in> set ?s" "om_name d \<noteq> om_name c" for d e
    using that ih(4) [of e d] same [of e] top [of d] by (cases "e \<in> set ?s") auto
  ultimately show ?case unfolding c(2) using c(4,5) ih(2) by auto
qed (use assms in auto)

end
