(* ===== verification/Group_Properties.thy ===== *)
theory Group_Properties
  imports Removal_Order Group_Scaling Attachment_Properties Inventory_Properties
begin

text \<open>
  What a whole reconciliation of a group calls, and the properties of groups with a sample group.
\<close>

section \<open>Nodes of a group\<close>

lemma child_machine_calls: "io_calls (may_manage env vip port) l (child_machine (log_cluster Manages c) ch) (\<lambda>_ _. True)"
  unfolding child_machine_def log_cluster_simps by (intro trace_intro) simp_all

lemma machine_node_calls:
  "io_calls (may_manage env vip port) l (machine_node (log_cluster Works w) m) (\<lambda>x l'. \<forall>n. x = Some n \<longrightarrow> Works (On_node (Got n)) \<in> set l')"
  unfolding machine_node_def log_cluster_simps by (intro trace_intro) (auto split: if_splits)

lemma label_node_calls:
  assumes "got_group l g" "\<not> deleting g" "Works (On_node (Got n)) \<in> set l" "label n GroupUIDLabel = []"
  shows "io_calls (may_manage env vip port) l (label_node (log_cluster Manages c) (log_cluster Works w) g ch m n) (\<lambda>_ _. True)"
proof -
  have lab: "may_label l' n (set_label GroupUIDLabel (om_uid g) n)" if "set l \<subseteq> set l'" for l'
    unfolding may_label_def using assms evidence_mono(1) [OF that assms(1)] that by blast
  show ?thesis unfolding label_node_def log_cluster_simps(2-)
    by (intro io_calls_step [OF unchanged_calls] trace_intro) (auto intro!: lab)
qed

lemma label_each_calls:
  assumes "got_group l g" "\<not> deleting g"
  shows "io_calls (may_manage env vip port) l (label_each env (log_cluster Manages c) (log_cluster Works w) g cs) (\<lambda>_ _. True)"
  using assms(1)
proof (induction cs arbitrary: l)
  case (Cons ch cs)
  have rest: "io_calls (may_manage env vip port) l' (label_each env (log_cluster Manages c) (log_cluster Works w) g cs) (\<lambda>_ _. True)" if "set l \<subseteq> set l'" for l'
    by (rule Cons.IH, rule evidence_mono(1) [OF that Cons.prems])
  show ?case unfolding label_each.simps
    by (intro io_calls_bind [OF io_calls_lift] io_calls_if io_calls_step [OF child_machine_calls] io_calls_option io_calls_step [OF machine_node_calls] io_calls_guard
        label_node_calls rest) (use assms(2) evidence_mono(1) [OF _ Cons.prems] in auto)
qed (auto intro: io_calls_lift)

lemma stable_child_calls: "io_calls (may_manage env vip port) l (stable_child (log_cluster Manages c) (log_cluster Works w) m n s) (\<lambda>_ _. True)"
  unfolding stable_child_def log_cluster_simps by (intro trace_intro) simp_all

lemma readyChild_calls:
  "io_calls (may_manage env vip port) l (readyChild env r (log_cluster Manages c) (log_cluster Works w) mesh ch) (\<lambda>_ _. True)"
  unfolding readyChild_def log_cluster_simps
  by (intro io_calls_step [OF child_machine_calls] io_calls_step [OF machine_node_calls] io_calls_step [OF stable_child_calls] trace_intro) simp_all

lemma ready_nodes_calls:
  "io_calls (may_manage env vip port) l (ready_nodes env r (log_cluster Manages c) (log_cluster Works w) g mesh cs) (\<lambda>_ _. True)"
proof (induction cs arbitrary: l)
  case (Cons ch cs)
  show ?case unfolding ready_nodes.simps
    by (intro io_calls_bind [OF io_calls_lift] io_calls_if io_calls_step [OF readyChild_calls] io_calls_step [OF Cons.IH] Cons.IH io_calls_lift) simp_all
qed (auto intro: io_calls_lift)

section \<open>Reconciliation\<close>

lemma log_group_simps [simp]:
  "nr_retirement (log_group r) = map_option log_retirement (nr_retirement r)" "nr_maxAge (log_group r) = nr_maxAge r"
  "nr_api (log_group r) = map_option (log_cluster Manages) (nr_api r)" "nr_workload (log_group r) = map_option (log_cluster Works) (nr_workload r)"
  "nr_machineGVK (log_group r) = nr_machineGVK r" "nr_meshName (log_group r) = nr_meshName r" "nr_apiVIP (log_group r) = nr_apiVIP r"
  "nr_apiPort (log_group r) = nr_apiPort r" "nr_bootstrapFormat (log_group r) = nr_bootstrapFormat r"
  by (simp_all add: log_group_def)

lemma again_calls: "io_calls ok l p (\<lambda>_ _. True) \<Longrightarrow> io_calls ok l (again p) (\<lambda>_ _. True)"
  unfolding again_def by (erule io_calls_step) (simp add: io_calls_lift)

lemma again_when_calls: "io_calls ok l p (\<lambda>_ _. True) \<Longrightarrow> io_calls ok l (again_when p) (\<lambda>_ _. True)"
  unfolding again_when_def by (erule io_calls_step) (simp add: io_calls_lift)

lemma labelNodes_calls:
  assumes "got_group l g"
  shows "io_calls (may_manage env vip port) l (labelNodes env (log_group r) (log_cluster Manages c) g cs) (\<lambda>_ _. True)"
  unfolding labelNodes_def log_group_simps
  by (cases "nr_workload r") (auto intro!: io_calls_lift io_calls_guard label_each_calls assms)

lemma readyChildren_calls:
  "io_calls (may_manage env vip port) l (readyChildren env (log_group r) (log_cluster Manages c) g cs) (\<lambda>_ _. True)"
proof (cases "nr_workload r")
  case (Some w)
  show ?thesis unfolding readyChildren_def log_group_simps Some option.map option.case log_cluster_simps
    by (intro io_calls_step [OF ready_nodes_calls] trace_intro) simp_all
qed (simp add: readyChildren_def io_calls_lift)

lemma reconcile_create_calls:
  assumes "got_group l g"
  shows "io_calls (may_manage env vip port) l (reconcile_create env (log_cluster Manages c) key g a) (\<lambda>_ _. True)"
proof -
  have first: "io_calls (may_manage env vip port) l (if deleting g then CancelUnfulfilledCreation env (Some (log_cluster Manages c)) g else io_lift (Inr False)) (\<lambda>_ _. True)"
    by (auto intro: CancelUnfulfilled_calls [OF assms] io_calls_lift)
  show ?thesis unfolding reconcile_create_def
    by (rule io_calls_step [OF first], rule io_calls_if, rule io_calls_lift, simp, rule io_calls_step [OF ResumeCreation_calls], rule again_calls, rule CompleteCreation_calls,
        rule evidence_mono(1) [OF _ assms]) auto
qed

lemma reconcile_withdrawal_calls:
  assumes "pending l g a" "drains a" "drained l a"
  shows "io_calls (may_manage env (nr_apiVIP r) (nr_apiPort r)) l (reconcile_withdrawal env ienv (log_group r) (log_cluster Manages c) g a) (\<lambda>_ _. True)"
  unfolding reconcile_withdrawal_def log_group_simps
proof (rule io_calls_step [OF Freeze_calls [OF assms(1)]], rule io_calls_if, rule io_calls_lift, simp,
    rule io_calls_step [OF RetireGatewayInventory_calls [OF evidence_mono(2) [OF _ assms(1)]]], assumption, rule io_calls_if, rule io_calls_lift, simp, rule io_calls_if)
  fix fr l1 fin l2
  assume h: "set l \<subseteq> set l1" "fr \<longrightarrow> frozen l1 g a" "\<not> \<not> fr" "set l1 \<subseteq> set l2" "fin \<longrightarrow> gateways_retired env l2 g a" "\<not> \<not> fin"
  have ev: "pending l' g a" "drained l' a" "frozen l' g a" "gateways_retired env l' g a" if "set l2 \<subseteq> set l'" for l'
    using assms h that evidence_mono(2) [of l l' g a] drained_mono [of l l' a] evidence_mono(8) [of l1 l' g a] gateways_retired_mono [of l2 l' env g a] by auto
  show "io_calls (may_manage env (nr_apiVIP r) (nr_apiPort r)) l2 (again (CapturePeerWithdrawal env (Some (log_cluster Manages c)) g)) (\<lambda>_ _. True)"
    by (intro again_calls CapturePeerWithdrawal_calls [of _ _ a] ev) simp_all
  show "io_calls (may_manage env (nr_apiVIP r) (nr_apiPort r)) l2 (io_bind (ExtendPeerWithdrawal env (Some (log_cluster Manages c)) g) (\<lambda>(_, expanded).
         if expanded then io_lift (Inr Again)
         else
           io_bind (beginReceiveRemoval ienv (log_cluster Manages c) (map_option log_retirement (nr_retirement r)) (nr_maxAge r) g) (\<lambda>handled.
           if handled then io_lift (Inr Later)
           else again_when (BeginRemoval env (Some (log_cluster Manages c)) (nr_machineGVK r) g (nr_apiVIP r) (nr_apiPort r))))) (\<lambda>_ _. True)"
    by (rule io_calls_step [OF ExtendPeerWithdrawal_calls [OF ev(1) [OF order.refl]]], rule io_calls_prod, rule io_calls_if, rule io_calls_lift, simp,
        rule io_calls_step [OF beginReceiveRemoval_calls [OF ev]], assumption+, rule io_calls_if, rule io_calls_lift, simp,
        rule again_when_calls, rule BeginRemoval_calls [OF ev(1) assms(2) ev(2)]) auto
qed

lemma reconcile_bound_calls:
  assumes "drain_pending l g"
  shows "io_calls (may_manage env (nr_apiVIP r) (nr_apiPort r)) l (reconcile_bound env ienv (log_group r) (log_cluster Manages c) g) (\<lambda>_ _. True)"
proof -
  from assms obtain a where a: "pending l g a" "drains a" by (auto simp: drain_pending_def)
  have g: "ng_pendingAction g = Some a" using a(1) by (simp add: pending_def)
  show ?thesis unfolding reconcile_bound_def log_group_simps g option.case
    by (intro io_calls_step [OF DrainNode_calls [OF a]] io_calls_if io_calls_option io_calls_lift io_calls_guard again_calls CaptureGatewayInventory_calls reconcile_withdrawal_calls)
       (use a evidence_mono(2) in auto)
qed

lemma reconcile_drain_calls:
  assumes "pending l g a"
  shows "io_calls (may_manage env (nr_apiVIP r) (nr_apiPort r)) l (reconcile_drain env ienv (log_group r) (log_cluster Manages c) g a) (\<lambda>_ _. True)"
proof -
  have g: "got_group l g" using assms by (simp add: pending_def)
  show ?thesis unfolding reconcile_drain_def log_group_simps
proof (rule io_calls_if, rule again_when_calls, rule resumeBootstrapCancellation_calls [OF assms], rule io_calls_if, rule again_when_calls, rule ResumeRemoval_calls [OF assms],
    rule io_calls_guard, rule io_calls_step [OF BindDrainNode_calls [OF g]], rule io_calls_prod)
  fix x l1 bound and resolved :: bool
  assume "drain_pending l1 (fst x)" "x = (bound, resolved)"
  then have d: "drain_pending l1 bound" by simp
  then obtain b where "pending l1 bound b" by (auto simp: drain_pending_def)
  then show "io_calls (may_manage env (nr_apiVIP r) (nr_apiPort r)) l1 (if \<not> resolved
          then
            (if nr_bootstrapFormat r \<noteq> [] \<and> nr_meshName r \<noteq> []
               then again_when (beginBootstrapCancellation env (Some (log_cluster Manages c)) (map_option (log_cluster Works) (nr_workload r)) (nr_machineGVK r) (nr_bootstrapFormat r) (nr_meshName r) bound)
             else io_lift (Inr Later))
        else if ga_nodeUID a = [] then io_lift (Inr Again)
        else reconcile_bound env ienv (log_group r) (log_cluster Manages c) bound) (\<lambda>_ _. True)"
    by (intro io_calls_if io_calls_lift again_when_calls beginBootstrapCancellation_calls reconcile_bound_calls d) simp_all
qed
qed

lemma reconcile_idle_calls:
  assumes "got_group l g" "ng_pendingAction g = None" "Manages (On_claim (Lists (children_of g) cs)) \<in> set l"
  shows "io_calls (may_manage env vip port) l (reconcile_idle env fresh (log_cluster Manages c) g cs) (\<lambda>_ _. True)"
proof -
  have "may_finalize l (g\<lparr>om_finalizers := filter (\<lambda>f. f \<noteq> GroupFinalizer) (om_finalizers g)\<rparr>)" if "deleting g \<and> cs = []"
    unfolding may_finalize_def using assms that by blast
  then show ?thesis unfolding reconcile_idle_def log_cluster_simps
    by (intro io_calls_if io_calls_bind io_calls_write io_calls_lift io_calls_option again_calls ReserveAction_calls assms(1)) simp_all
qed

lemma reconcile_action_calls:
  assumes "got_group l g" "Manages (On_claim (Lists (children_of g) cs)) \<in> set l"
  shows "io_calls (may_manage env (nr_apiVIP r) (nr_apiPort r)) l (reconcile_action env ienv (log_group r) fresh key (log_cluster Manages c) g cs) (\<lambda>_ _. True)"
  unfolding reconcile_action_def
  by (intro io_calls_option io_calls_if io_calls_fail reconcile_create_calls reconcile_drain_calls reconcile_idle_calls) (use assms in \<open>auto simp: pending_def\<close>)

lemma reconcile_children_calls:
  assumes "got_group l g" "Manages (On_claim (Lists (children_of g) cs)) \<in> set l"
  shows "io_calls (may_manage env (nr_apiVIP r) (nr_apiPort r)) l (reconcile_children env ienv (log_group r) fresh key (log_cluster Manages c) g cs) (\<lambda>_ _. True)"
proof -
  have cancel: "io_calls (may_manage env (nr_apiVIP r) (nr_apiPort r)) l (cancelUnstartedChildren env (log_cluster Manages c) g cs) (\<lambda>_ _. True)"
    unfolding cancelUnstartedChildren_def by (auto intro: io_calls_lift cancel_unstarted_calls [OF assms(1)])
  have ev: "got_group l' g" "Manages (On_claim (Lists (children_of g) cs)) \<in> set l'" if "set l \<subseteq> set l'" for l' using evidence_mono(1) [OF that assms(1)] assms(2) that by auto
  have rec: "may_record env (nr_apiVIP r) (nr_apiPort r) l' (g\<lparr>ng_statusReplicas := n, ng_readyReplicas := k, ng_statusSelector := s\<rparr>)" if "set l \<subseteq> set l'" for l' n k s
    unfolding may_record_def using ev [OF that] by blast
  show ?thesis unfolding reconcile_children_def Let_def log_cluster_simps(1)
  proof (rule io_calls_step [OF cancel], rule io_calls_if, rule io_calls_lift, simp, rule io_calls_step [OF labelNodes_calls [OF ev(1)]], assumption, rule io_calls_if,
      rule io_calls_lift, simp, rule io_calls_bind, rule io_calls_lift, rule io_calls_step [OF readyChildren_calls], rule io_calls_if)
    fix l1 l2 l3 sel ready
    assume "set l \<subseteq> set l1" "set l1 \<subseteq> set l2" "set l2 \<subseteq> set l3"
    then have s: "set l \<subseteq> set l3" by blast
    show "io_calls (may_manage env (nr_apiVIP r) (nr_apiPort r)) l3 (again (api_io (r_status (log_resource (Manages \<circ> On_group) (k_groups c))
        (g\<lparr>ng_statusReplicas := int32 (int (length cs)), ng_readyReplicas := ready, ng_statusSelector := sel\<rparr>)))) (\<lambda>_ _. True)"
      using rec [OF s] by (intro again_calls io_calls_write) simp_all
    show "io_calls (may_manage env (nr_apiVIP r) (nr_apiPort r)) l3 (reconcile_action env ienv (log_group r) fresh key (log_cluster Manages c) g cs) (\<lambda>_ _. True)"
      by (rule reconcile_action_calls [OF ev [OF s]])
  qed
qed

lemma Reconcile_calls:
  "io_calls (may_manage env (nr_apiVIP r) (nr_apiPort r)) [] (Reconcile env ienv (log_group r) fresh key) (\<lambda>_ _. True)"
proof (cases "nr_api r")
  case (Some c)
  show ?thesis unfolding Reconcile_def log_group_simps Some option.map option.case log_cluster_simps
  proof (rule io_calls_bind, rule io_calls_lookup, simp, simp, simp add: io_calls_lift, unfold option.case, rule io_calls_if)
    fix g :: node_group
    let ?l = "[] @ [(Manages \<circ> On_group) (Got g)]"
    have g: "got_group l' g" if "set ?l \<subseteq> set l'" for l' using that by (auto simp: got_group_def)
    { assume "\<not> deleting g \<and> GroupFinalizer \<notin> set (om_finalizers g)"
      then have "may_finalize ?l (g\<lparr>om_finalizers := om_finalizers g @ [GroupFinalizer]\<rparr>)" unfolding may_finalize_def using g [of ?l] by auto
      then show "io_calls (may_manage env (nr_apiVIP r) (nr_apiPort r)) ?l (again (api_io (r_update (log_resource (Manages \<circ> On_group) (k_groups c))
          (g\<lparr>om_finalizers := om_finalizers g @ [GroupFinalizer]\<rparr>)))) (\<lambda>_ _. True)" by (intro again_calls io_calls_write) simp_all }
    show "io_calls (may_manage env (nr_apiVIP r) (nr_apiPort r)) ?l (io_bind (api_io (r_list (log_resource (Manages \<circ> On_claim) (k_claims c))
          \<lparr>lo_namespace = om_namespace g, lo_label = Some (GroupUIDLabel, om_uid g), lo_field = None\<rparr>)) (\<lambda>claims.
        io_bind (io_lift (observe_children env g claims)) (\<lambda>_.
        reconcile_children env ienv (log_group r) fresh key (log_cluster Manages c) g claims))) (\<lambda>_ _. True)"
      by (rule io_calls_bind, rule io_calls_list, simp, rule io_calls_bind, rule io_calls_lift, rule reconcile_children_calls, rule g) auto
  qed
qed (simp add: Reconcile_def io_calls_fail)

section \<open>A sample group\<close>

definition sample_group_env :: group_env where
  "sample_group_env = attach_env.extend sample_attach_env
     \<lparr>IsValidLabelValue = (\<lambda>s. s \<noteq> []), IsDNS1123Subdomain = (\<lambda>s. s \<noteq> []), IsDNS1123Label = (\<lambda>s. s \<noteq> []), selector_string = Inr, Sprintf = (@)\<rparr>"

definition sample_group :: "int \<Rightarrow> node_group" where
  "sample_group n =
     \<lparr>om_name = ''g'', om_namespace = ''ns'', om_uid = ''gu'', om_resourceVersion = ''1'', om_generation = 1, om_deletionTimestamp = None,
      om_labels = Mapping.empty, om_annotations = Mapping.empty, om_finalizers = [GroupFinalizer], om_owners = [], ng_replicas = Some n,
      ng_template = \<lparr>cs_gateway = [], cs_rest = ''t''\<rparr>, ng_workloadSelector = None, ng_pendingAction = None, ng_statusReplicas = 0,
      ng_readyReplicas = 0, ng_statusSelector = []\<rparr>"

definition sample_child :: "int \<Rightarrow> node_claim" where
  "sample_child n =
     \<lparr>om_name = child_name sample_group_env (sample_group 1) n, om_namespace = ''ns'', om_uid = ''c'', om_resourceVersion = ''1'', om_generation = 0,
      om_deletionTimestamp = None, om_labels = Mapping.update GroupUIDLabel ''gu'' Mapping.empty,
      om_annotations = Mapping.update OrdinalAnnotation (Itoa n) Mapping.empty, om_finalizers = [], om_owners = [group_owner (sample_group 1)],
      nc_spec = \<lparr>cs_gateway = [], cs_rest = ''t''\<rparr>, nc_machineName = []\<rparr>"

lemma sample_settled: "settled sample_group_env (sample_group 1) 1 [sample_child 0, sample_child 1]"
  by code_simp

text \<open>An API server with one group and the given claims, which refuses to create.\<close>

definition sample_management :: "node_group \<Rightarrow> node_claim list \<Rightarrow> unit cluster" where
  "sample_management g cs =
     no_cluster\<lparr>k_groups := no_api\<lparr>r_get := (\<lambda>_ w. (Inr g, w))\<rparr>, k_claims := no_api\<lparr>r_list := (\<lambda>_ w. (Inr cs, w)), r_delete := (\<lambda>_ _ _ w. (Inr (), w))\<rparr>\<rparr>"

definition sample_group_reconciler :: "node_group \<Rightarrow> node_claim list \<Rightarrow> unit group_reconciler" where
  "sample_group_reconciler g cs =
     \<lparr>nr_retirement = None, nr_maxAge = 0, nr_api = Some (sample_management g cs), nr_workload = None,
      nr_machineGVK = \<lparr>gv_group = [], gv_version = [], gv_kind = []\<rparr>, nr_meshName = [], nr_apiVIP = ''vip'', nr_apiPort = ''6443'', nr_bootstrapFormat = []\<rparr>"

definition leaving_group :: node_group where
  "leaving_group = (sample_group 1)\<lparr>om_deletionTimestamp := Some 1, ng_statusReplicas := 1\<rparr>"

abbreviation run_group :: "node_group \<Rightarrow> node_claim list \<Rightarrow> requeue res \<times> (unit \<times> group_event list)" where
  "run_group g cs \<equiv> Reconcile sample_group_env sample_inventory_env (log_group (sample_group_reconciler g cs)) ''f'' (''ns'', ''g'') ((), [])"

lemma leaving_run:
  "run_group leaving_group [sample_child 0] =
     (Inr Again, ((), [Manages (On_group (Got leaving_group)), Manages (On_claim (Lists (children_of leaving_group) [sample_child 0]))] @
        Manages (On_claim (Deletes (sample_child 0) (Some ''c'') (Some ''1''))) # []))"
  by code_simp

definition creating_group :: node_group where
  "creating_group = (sample_group 1)\<lparr>ng_pendingAction := Some (zero_action\<lparr>ga_id := ''f'', ga_generation := 1, ga_type := CreateAction,
     ga_ordinal := 0, ga_childName := child_name sample_group_env (sample_group 1) 0, ga_template := Some \<lparr>cs_gateway = [], cs_rest = ''t''\<rparr>\<rparr>)\<rparr>"

lemma creating_run:
  "run_group creating_group [] =
     (Inl (Error []), ((), [Manages (On_group (Got creating_group)), Manages (On_claim (Lists (children_of creating_group) [])), Manages (On_group (Got creating_group)),
        Manages (On_claim (Missing (''ns'', child_name sample_group_env (sample_group 1) 0)))] @
        Manages (On_claim (Creates (annotate ActionAnnotation ''f'' ((sample_child 0)\<lparr>om_uid := [], om_resourceVersion := []\<rparr>)))) # []))"
  by code_simp

section \<open>Runs\<close>

lemma group_permits:
  assumes "Reconcile env ienv (log_group r) fresh key (w, []) = (x, (w', xs @ e # ys))"
  shows "may_manage env (nr_apiVIP r) (nr_apiPort r) xs e"
  using calls_run [OF Reconcile_calls [unfolded io_calls_def] assms] by simp

lemma recorded_move:
  assumes "may_record env vip port l g'"
  obtains g where "got_group l g" "ng_pendingAction g' = ng_pendingAction g \<or> action_moves env vip port l g (ng_pendingAction g) (ng_pendingAction g')"
  using assms by (auto simp: may_record_def)

lemma removing_move:
  assumes "action_moves env vip port l g old (Some a')" "ga_removing a'"
  shows "\<exists>a. old = Some a \<and> (ga_removing a \<or>
    drained l a \<and> frozen l g a \<and> gateways_retired env l g a \<and> withdrawn env vip port l g a)"
  using assms by (cases rule: action_moves.cases) (auto simp: new_reservation_def bound_machine_def bound_node_def)

text \<open>What settles an action: the child it created, or the absence of everything it was to remove.\<close>

definition settles :: "'a group_env_scheme \<Rightarrow> group_event list \<Rightarrow> node_group \<Rightarrow> group_action \<Rightarrow> bool" where
  "settles env l g a =
     (if ga_type a = CreateAction
        then deleting g \<and> child_gone l g a \<or>
          (\<exists>c. Manages (On_claim (Got c)) \<in> set l \<and> is_Inr (ObserveChild env g c) \<and> annotation c ActionAnnotation = ga_id a \<and> ga_template a = Some (nc_spec c) \<and> \<not> deleting c)
      else child_gone l g a \<and> machine_gone l g a \<and> (ga_removing a \<and> node_gone l a \<or> ga_bootstrapCancellation a \<noteq> None \<and> ga_nodeName a = []))"

lemma settled_move:
  assumes "action_moves env vip port l g old None"
  shows "\<exists>a. old = Some a \<and> settles env l g a"
  using assms
proof (cases rule: action_moves.cases)
  case (created a t c)
  then show ?thesis by (auto simp: settles_def creation_pending_def split: if_splits)
next
  case (unfulfilled a)
  then show ?thesis by (auto simp: settles_def creation_pending_def split: if_splits)
qed (auto simp: settles_def drains_def cancellable_def CreateAction_def DrainAction_def)

fun cluster_writing :: "cluster_event \<Rightarrow> bool" where
  "cluster_writing (On_group v) = (\<not> reads v)" | "cluster_writing (On_claim v) = (\<not> reads v)" | "cluster_writing (On_machine v) = (\<not> reads v)"
| "cluster_writing (On_node v) = (\<not> reads v)" | "cluster_writing (On_pod v) = (\<not> reads v)" | "cluster_writing (On_secret v) = (\<not> reads v)"
| "cluster_writing (On_map v) = (\<not> reads v)" | "cluster_writing (Evicts _) = True"

fun writing :: "group_event \<Rightarrow> bool" where
  "writing (Manages e) = cluster_writing e" | "writing (Works e) = cluster_writing e" | "writing (Advanced _ _) = True"

text \<open>The writes of a run, each with what must have been read before.\<close>

definition sanctioned :: "'a group_env_scheme \<Rightarrow> string \<Rightarrow> string \<Rightarrow> group_event list \<Rightarrow> group_event \<Rightarrow> bool" where
  "sanctioned env vip port l e =
     ((\<exists>g. e = Manages (On_group (Updates g)) \<and> may_finalize l g) \<or>
      (\<exists>g. e = Manages (On_group (Sets_status g)) \<and> may_record env vip port l g) \<or>
      (\<exists>c. e = Manages (On_claim (Creates c)) \<and> may_create env l c) \<or>
      (\<exists>c. e = Manages (On_claim (Deletes c (Some (om_uid c)) (Some (om_resourceVersion c)))) \<and> may_delete env l c) \<or>
      (\<exists>m m'. e = Manages (On_machine (Patches m m')) \<and> may_mark l m m') \<or>
      (\<exists>s. e = Manages (On_secret (Updates s)) \<and> may_withdraw env l s) \<or>
      (\<exists>cm. e = Manages (On_map (Deletes cm (Some (om_uid cm)) (Some (om_resourceVersion cm)))) \<and> may_retire_request l cm) \<or>
      (\<exists>n. e = Works (On_node (Updates n)) \<and> may_cordon l n) \<or>
      (\<exists>n n'. e = Works (On_node (Patches n n')) \<and> may_label l n n') \<or>
      (\<exists>p. e = Works (Evicts p) \<and> may_evict l p) \<or>
      (\<exists>g a wd b. e = Advanced (groupReceiveWithdrawalIntent g a wd) b \<and> pending l g a \<and> drains a \<and> ga_withdrawal a = Some wd \<and>
         drained l a \<and> frozen l g a \<and> gateways_retired env l g a))"

lemma sanctioned_cluster:
  assumes "may_manage env vip port l (Manages e)" "cluster_writing e"
  shows "sanctioned env vip port l (Manages e)"
  using assms unfolding sanctioned_def by (cases e) (auto split: verb.splits)

lemma sanctioned_workload:
  assumes "may_manage env vip port l (Works e)" "cluster_writing e"
  shows "sanctioned env vip port l (Works e)"
  using assms unfolding sanctioned_def by (cases e) (auto split: verb.splits)

lemma sanctioned_writes: "may_manage env vip port l e \<Longrightarrow> writing e \<Longrightarrow> sanctioned env vip port l e"
proof (cases e)
  case (Advanced intent b)
  assume "may_manage env vip port l e"
  with Advanced show ?thesis unfolding sanctioned_def by auto
qed (auto simp: sanctioned_cluster sanctioned_workload simp del: may_manage.simps)

section \<open>Properties\<close>

text \<open>C34: a group whose claims are settled reaches the wanted number of replicas: carrying out as many proposed actions as the difference gives exactly that number
  and then nothing more is proposed. Growing keeps every claim; shrinking keeps a sublist of them, and every claim that went had a higher ordinal than every claim that stayed.\<close>

theorem group_reaches_replicas:
  assumes "settled env g n cs" and "\<forall>k. fresh k \<noteq> []"
  shows "\<exists>ds. ds = scaled env fresh g cs (nat \<bar>int (length cs) - n\<bar>) \<and> int (length ds) = n \<and> ProposeAction env u g ds = Inr None \<and>
    (int (length cs) \<le> n \<longrightarrow> prefix cs ds) \<and>
    (n \<le> int (length cs) \<longrightarrow> subseq ds cs \<and> (\<forall>c \<in> set cs - set ds. \<forall>d \<in> set ds. ordinal_of env g d < ordinal_of env g c))"
proof -
  let ?k = "nat \<bar>int (length cs) - n\<bar>"
  let ?ds = "scaled env fresh g cs ?k"
  have n: "0 \<le> n" using assms(1) by (simp add: settled_def)
  have "settled env g n ?ds \<and> int (length ?ds) = n \<and> (int (length cs) \<le> n \<longrightarrow> prefix cs ?ds) \<and>
    (n \<le> int (length cs) \<longrightarrow> subseq ?ds cs \<and> (\<forall>c \<in> set cs - set ?ds. \<forall>d \<in> set ?ds. ordinal_of env g d < ordinal_of env g c))"
  proof (cases "int (length cs) = n")
    case True
    then show ?thesis using assms(1) by simp
  next
    case False
    show ?thesis
    proof (cases "int (length cs) < n")
      case True
      then show ?thesis using scale_up [OF assms, of ?k] by auto
    next
      case less: False
      with False show ?thesis using scale_down [OF assms(1), of ?k fresh] n by auto
    qed
  qed
  note h = this
  have "ProposeAction env u g ?ds = Inr None" using h by (intro propose_equal) (elim conjE, assumption)+
  with h show ?thesis by (intro exI [of _ ?ds]) (elim conjE, intro conjI refl, assumption+)
qed


theorem group_reaches_replicas_witness:
  "\<exists>ds. ds = scaled sample_group_env (\<lambda>_. ''f'') (sample_group 1) [sample_child 0, sample_child 1] (nat \<bar>int (length [sample_child 0, sample_child 1]) - 1\<bar>) \<and>
     int (length ds) = 1 \<and> ProposeAction sample_group_env ''u'' (sample_group 1) ds = Inr None \<and> subseq ds [sample_child 0, sample_child 1]"
  using group_reaches_replicas [OF sample_settled, of "\<lambda>_. ''f''" "''u''"] by simp

text \<open>C35: the identity of a child: a claim built for an ordinal, once the API server gave it a UID, is observed as that group's child of that ordinal under its own name,
  and no other ordinal of the group gives that name.\<close>

theorem child_identity_roundtrip:
  assumes "BuildChild env g n = Inr c" and "uid \<noteq> []"
  shows "ObserveChild env g (c\<lparr>om_uid := uid\<rparr>) =
      Inr \<lparr>gc_name = om_name c, gc_ownerUID = om_uid g, gc_ordinal = n, gc_terminating = False, gc_draining = False\<rparr> \<and>
    (\<forall>m d. BuildChild env g m = Inr d \<and> om_name d = om_name c \<longrightarrow> m = n)"
proof -
  have "m = n" if "BuildChild env g m = Inr d" "om_name d = om_name c" for m d
    using that assms(1) by (auto simp: BuildChild_def res_inv childName_Inr intro: child_name_inj)
  with built_observed [OF assms] show ?thesis by blast
qed

theorem child_identity_roundtrip_witness:
  "ObserveChild sample_group_env (sample_group 1) ((sample_child 7)\<lparr>om_uid := [], om_resourceVersion := []\<rparr>\<lparr>om_uid := ''c''\<rparr>) =
     Inr \<lparr>gc_name = om_name ((sample_child 7)\<lparr>om_uid := [], om_resourceVersion := []\<rparr>), gc_ownerUID = om_uid (sample_group 1), gc_ordinal = 7,
       gc_terminating = False, gc_draining = False\<rparr>"
proof -
  have "BuildChild sample_group_env (sample_group 1) 7 = Inr ((sample_child 7)\<lparr>om_uid := [], om_resourceVersion := []\<rparr>)" by code_simp
  from child_identity_roundtrip [OF this, of "''c''"] show ?thesis by blast
qed



text \<open>C33: everything a run of the reconciler writes, with what it must have read before. On the group it only adds its finalizer to a live group or drops it from a leaving one
  without pending action or listed claim, and sets the status counts or moves the pending action one step. It creates only the claim of the creation reserved in a
  live group, under its name, template and mark, and deletes only claims of the group that never started while the group leaves or whose removal or cancellation is committed. It marks only the bound Machine
  of the pending drain, when it carries no mark. It updates only the mesh Secret it read, to withdraw the peer of a drained and marked worker, and deletes only the recorded gateway requests of the drain. It cordons only the
  bound node, evicts only pods of such a cordoned node that are neither finished, static, of a DaemonSet nor leaving, and labels only nodes
  without a group label. Besides these it only calls the receivers' retirement, for a drained and marked worker with its gateways retired.\<close>

theorem group_writes_sanctioned:
  assumes "Reconcile env ienv (log_group r) fresh key (w, []) = (x, (w', xs @ e # ys))" and "writing e"
  shows "sanctioned env (nr_apiVIP r) (nr_apiPort r) xs e"
  using sanctioned_writes [OF group_permits [OF assms(1)] assms(2)] .

theorem group_writes_sanctioned_witness:
  "may_create sample_group_env [Manages (On_group (Got creating_group)), Manages (On_claim (Lists (children_of creating_group) [])), Manages (On_group (Got creating_group)),
        Manages (On_claim (Missing (''ns'', child_name sample_group_env (sample_group 1) 0)))]
     (annotate ActionAnnotation ''f'' ((sample_child 0)\<lparr>om_uid := [], om_resourceVersion := []\<rparr>))"
  using group_writes_sanctioned [OF creating_run] by (simp add: sanctioned_def)

end
