(* ===== verification/Spec2Isabelle.thy ===== *)
theory Spec2Isabelle
  imports Handover_Properties Store_Properties Receipt_Properties Tunnel_Properties Mesh_Properties Inventory_Properties Attachment_Properties Group_Properties
begin

text \<open>
  A verification of \<^emph>\<open>cloud-provisioning\<close>, a Kubernetes controller that joins cloud workers to a private cluster:
  the handover of their WireGuard transports, their attachment to gateways, and the groups that scale them. The program is written in Go; the paths below are
  relative to \<open>src/controller\<close>.

  \<^bold>\<open>The program.\<close> Every site node and every cloud worker terminates a tunnel. When the peers or permissions of
  a cloud worker change, its traffic moves from one set of devices (a generation) to another without
  loss. \<open>pkg/tunnel\<close> renders the peers of every node from the mesh Secret, with one site endpoint elected
  to relay for the rest of the site; for a change it plans the receivers of the new generation, reserves their ports, validates what
  the nodes report and derives the routes of each generation, and \<open>pkg/handover\<close> keeps the journal of
  the transition, a ConfigMap that moves through \<open>prepare, switch, drain, retire\<close> (or \<open>abort\<close>) by
  committed rounds. A round advances only on receipts of all its members, which agents submit with
  their pod tokens, which \<open>pkg/handover\<close> authenticates and batches. Completed journals are archived,
  and a successor journal continues from what its archive served. \<open>pkg/attachment\<close> reaches a worker through a gateway of
  its own subnet and publishes that in the mesh; \<open>pkg/nodegroup\<close> scales a group of worker claims, and removes a worker by
  draining its node, retiring its attachments and withdrawing its peer. The endpoint controller
  (\<open>cmd/endpoint-controller\<close>) and the node agent (\<open>cmd/dialer\<close>) call these packages.

  \<^bold>\<open>Theories and sources.\<close>
  \<^item> \<open>Prelude\<close>: results, instants and durations, the byte-string functions of the Go library, and the locale
    \<open>guarded_replay\<close>, a fold of a fallible step that keeps an invariant and a relation. \<open>Netip\<close>: what the tunnel
    package uses of \<open>net/netip\<close> and \<open>encoding/base64\<close>, with addresses as 32 and 128 bit words.
  \<^item> \<open>Round\<close> (\<open>pkg/handover/round.go\<close>): rounds, their canonical form and digest, validation of receipts.
  \<^item> \<open>Transition\<close> (\<open>transition.go\<close>): the journal, its replay \<open>View\<close> and the four operations that append events.
    \<open>Protocol\<close>: the abstract state machine of a handover as an inductive step relation, the simulation of every
    replay by it, and when the operations succeed.
  \<^item> \<open>Store\<close> (\<open>store.go, freeze.go, checkpoint.go\<close>): snapshots and the store over an API client, fences,
    checkpoints. \<open>Succession\<close> (\<open>archive.go, successor.go, history.go\<close>): archives, successors and ancestry.
  \<^item> \<open>Authentication\<close> (\<open>authentication.go, observation_incarnation.go, authenticated_advance.go\<close>): agent pods.
  \<^item> \<open>Receipts\<close> (\<open>receipt_transport.go, receipt_progress.go, receipt_client.go, receipt_timeout.go\<close>): the
    collector as a state machine of requests, expiry ticks and shutdown, and the client's retry loop.
  \<^item> \<open>Ports\<close> (\<open>pkg/tunnel/receive_ports.go, receive_generation_ports.go\<close>): port assignment and reservations, with
    the locale \<open>port_allocator\<close> for what a client of the allocator relies on, interpreted on \<open>AssignReceivePorts\<close>.
  \<^item> \<open>Receivers\<close> (\<open>receive_handover.go, receive_protocol.go, site_receive.go, site_receive_ready.go\<close>): the plan of
    receivers, bindings, readiness, site clients.
  \<^item> \<open>Routes\<close> (\<open>receive_transition.go, receive_site_tunnel.go, receive_site_legacy.go, receive_site_forward.go,
    receive_local_network.go, receive_previous_receiver.go, receive_routes.go\<close>): the persisted plan and its routes.
  \<^item> \<open>Route_Set\<close> (\<open>receive_route_set.go, receive_neighbors.go\<close>): the routes of all plans together and the
    ordinary peers beside them. Both loops are interpretations of \<open>guarded_replay\<close>.
  \<^item> \<open>Journal_Routes\<close> (\<open>receive_journal.go, receive_journal_routes.go, receive_source_routes.go,
    receive_prepare_predecessor.go\<close>): a journal whose plan is a receiver plan, and the transport it selects.
  \<^item> \<open>Mesh\<close> (\<open>tunnel.go, gateway.go, native_network.go, relay_preference.go, remote_document.go, site_peers.go,
    withdraw.go\<close>): the renders of the mesh Secret, the relay election and the withdrawal of a machine.
    \<open>Relay_Election\<close>: their lemmas, with the locale \<open>ranked_sort\<close> for what a render relies on when it sorts,
    interpreted on the election and on the order of keys.
  \<^item> \<open>Site_Paths\<close> (\<open>receive_site_legacy.go, receive_follower.go, receive_site_tunnel.go, receive_local_network.go\<close>):
    the path of a site, planned from the Secret and a generation, and the owner of its sources.
  \<^item> \<open>Inventory\<close> (\<open>receive_inventory.go, receive_publication.go, receive_retirement.go, receive_release.go\<close>): the
    inventory of journals and its operations over the API. \<open>Inventory_Life\<close>: what each operation makes of the
    stages of the machines, that every successful call stores exactly that, and what any sequence of such steps keeps.
  \<^item> \<open>Trace\<close>: a logic of call traces for programs over interfaces that are records of functions. \<open>Cluster\<close>: the
    objects and clients of the Kubernetes API, and a client that logs its calls.
  \<^item> \<open>Attachment\<close> (\<open>pkg/attachment/plan.go, reconcile.go, store.go\<close>): gateway plans and the phases of a lease.
    \<open>Attachment_Life\<close>: what the steps of a lease call, and the histories of interleaved steps.
  \<^item> \<open>Publication\<close> (\<open>publication.go, publication_store.go, projection_store.go, snapshot.go, consumers.go,
    consumer_resolver.go, consumer_membership.go\<close>): projections in the mesh and their recipients. \<open>Publication_Order\<close>: what
    publishing and withdrawing call, proved in the locale \<open>intent_source\<close> for the store of intents and interpreted on the ConfigMap
    store.
  \<^item> \<open>Withdrawal\<close> (\<open>withdraw_intent.go, withdraw_peer.go, peer_publication.go, drain.go\<close>), \<open>Node_Group\<close>
    (\<open>pkg/nodegroup/plan.go, children.go, action.go, create.go, cancel_creation.go, pkg/claim/ownership.go\<close>), \<open>Node_Removal\<close>
    (\<open>target.go, gateways.go, freeze.go, withdrawal.go, remove.go, receive_withdrawal.go, receive_withdrawal_authority.go,
    cancel_bootstrap.go\<close> and \<open>pkg/attachment/runtime/inventory.go, retire.go\<close>), \<open>Group_Reconciler\<close> (\<open>labels.go, readiness.go,
    reconciler.go\<close>): a group of claims. \<open>Group_Scaling\<close>: identities of children and the way to the number of replicas.
    \<open>Group_Trace\<close>: the evidence calls give, the moves of an action as an inductive relation and what may be written after which calls.
    \<open>Removal_Order\<close>: that every operation keeps to it.
  \<^item> \<open>Sample\<close> and \<open>Tunnel_Sample\<close>: concrete journals, an API server and plans, on which the hypotheses of the
    properties hold. \<open>Handover_Properties\<close>, \<open>Store_Properties\<close>, \<open>Receipt_Properties\<close>, \<open>Tunnel_Properties\<close>,
    \<open>Mesh_Properties\<close>, \<open>Inventory_Properties\<close>, \<open>Attachment_Properties\<close>, \<open>Group_Properties\<close>: the properties that are not next to their definitions, with their witnesses.

  \<^bold>\<open>What is shown.\<close> A journal refines the abstract protocol, has boundedly many effective events, keeps its
  identity, and completes a retirement only over certified advances with the drain interval between
  them; operations succeed when their evidence is there and a completed journal is final. The store
  commits by compare-and-swap and leaves every other object alone, a frozen journal takes no commit for as long as its object lives,
  checkpoints round-trip, successors continue what was served, peer keys included, and the walks along archives prove ancestry and end. Events committed from
  submitted receipts hold only receipts authenticated in that call, each backed by live reads of the token, the ServiceAccount, the pod,
  its daemon and its node; the collector stays within its
  bound in every interleaving and passes on complete batches only. Receiver plans keep permissions
  and boundaries; ports are in range, unshared and stable, and assignment fails only when the pool is
  exhausted; combined routes give an address on a node to one machine; ordinary peers stay clear of
  what journals reserve; and the selected transport is determined by the committed phase. Site and
  remote renders elect one relay, which pinning keeps, when the tunnel addresses parse and are distinct; a malformed one breaks that, as
  \<open>election_depends_on_order\<close> shows. A withdrawal removes one machine exactly, paired IPv6 addresses are
  unique, and a planned site path has one owner for all its sources. Every successful operation on the inventory of
  journals stores its own step of the machines' life by compare-and-swap, over the records that step needs, and changes no other machine; so
  what is published, finalized or released is never replaced. An accepted gateway plan
  routes exactly what was asked for; a lease is released only after its publication is withdrawn, in any interleaving
  of its reconcilers; and transport changes follow the acknowledgements of all recipients. A group reaches its
  replicas and keeps the lowest ordinals. For every answer of both API servers, a worker's removal is committed
  only when its node is drained in all namespaces, its Machine is marked, its gateway requests are gone with complete records and the mesh without its peer
  is acknowledged; claims are deleted under their exact identity, and every write of the reconciler is one of a fixed list, each
  on what was read before.

  \<^bold>\<open>Conventions.\<close> An operation returns a value of \<open>error + 'a\<close>; an error keeps the fixed part of the Go message.
  An operation that calls the API server is a function of the server's state. SHA-256, JSON, WireGuard key
  parsing, URL parsing, the API client and HTTP are fields of an environment record; what a property needs of
  them is a named hypothesis (\<open>json_faithful\<close>, \<open>cas_api\<close>, \<open>server_law\<close>, \<open>inventory_law\<close>, \<open>key_roundtrip\<close>), and each such property has a
  witness with concrete functions. An instant is a number of nanoseconds; \<open>time_sub\<close> saturates as
  \<open>Time.Sub\<close> does. A Go map is a \<open>mapping\<close> or an association list in the order its \<open>range\<close> visits it. Nil and
  empty slices are one value, except where the code tells them apart and \<open>None\<close> is nil. Copies made to avoid
  aliasing are the value itself.
  The packages above the journals are functions over records of clients; a property of the order of their calls is
  stated over the same records with every call logged, for arbitrary clients. An object the server returned is
  evidence (\<open>Got\<close>), and so is its absence (\<open>Missing\<close>); writes are events before their answer.
  Fuel: the walks along archives take one unit per step, and one more unit than there are archive UIDs is
  enough; the client's retry loop takes one unit per attempt, and forty cover its delivery timeout.

  \<^bold>\<open>Not modelled.\<close> HTTP server configuration and headers, admission slots, and context cancellation except
  where the code tests it. The retirement of receivers that a group removal delegates to
  (\<open>AdvanceReceiveRemoval\<close>, a parameter of the reconciler; its authorization callback is modelled), the request
  controller and the cloud and CNI drivers of attachments. The native execution in \<open>cmd/dialer\<close>, the
  endpoint controller, the claim reconciler, the join providers and the platform
  packages, whose work is mostly API, kernel or SDK calls, and the laboratory under \<open>harness\<close>.
\<close>

end
